(* ===== verification/Js_Prelude.thy ===== *)
theory Js_Prelude
  imports Main "HOL-Library.AList" "HOL-Library.Sublist"
begin

text \<open>
  Shared vocabulary of the development: the JavaScript values the sources use, and the
  generic lemmas their components share.

  \<^item> Strings are \<^typ>\<open>string\<close> (ASCII code units). Regular expressions that only test
    character classes and lengths are the predicates \<open>hex_str\<close>, \<open>digit_str\<close> and so on.
  \<^item> A JavaScript number holding an integer is an \<^typ>\<open>int\<close> kept on the binary64 grid:
    \<open>js_round\<close> is round-to-nearest-even onto 53 significant bits and \<open>js_add\<close> the
    addition of two such values. Up to \<open>2 ^ 53\<close> in magnitude both are exact.
  \<^item> A \<open>Map\<close>, or an object used as one, is an association list in insertion order
    (\<open>AList.update\<close> replaces in place and appends a new key; \<open>AList.delete\<close> removes).
  \<^item> \<open>keep_last n xs\<close> is the idiom \<open>xs.splice(0, xs.length - n)\<close> that bounds a log.
\<close>

section \<open>Numbers\<close>

fun bit_count :: "nat \<Rightarrow> nat" where
  "bit_count n = (if n = 0 then 0 else Suc (bit_count (n div 2)))"

declare bit_count.simps [simp del]

definition half_even_div :: "nat \<Rightarrow> nat \<Rightarrow> nat" where
  "half_even_div a d =
     (let q = a div d; r = a mod d
      in if 2 * r < d \<or> (2 * r = d \<and> even q) then q else Suc q)"

definition js_round_nat :: "nat \<Rightarrow> nat" where
  "js_round_nat a =
     (if a \<le> 2 ^ 53 then a
      else let u = 2 ^ (bit_count a - 53) in half_even_div a u * u)"

definition js_round :: "int \<Rightarrow> int" where
  "js_round n = (if n < 0 then - int (js_round_nat (nat (- n))) else int (js_round_nat (nat n)))"

definition js_add :: "int \<Rightarrow> int \<Rightarrow> int" where
  "js_add a b = js_round (a + b)"

definition max_safe_integer :: int where
  "max_safe_integer = 2 ^ 53 - 1"

definition is_safe_integer :: "int \<Rightarrow> bool" where
  "is_safe_integer n \<longleftrightarrow> \<bar>n\<bar> \<le> max_safe_integer"

lemma js_round_nat_exact [simp]: "a \<le> 2 ^ 53 \<Longrightarrow> js_round_nat a = a"
  by (simp add: js_round_nat_def)

lemma nat_le_2_53: "i \<le> 2 ^ 53 \<Longrightarrow> nat i \<le> 2 ^ 53"
  by (simp add: nat_le_iff)

lemma js_round_exact [simp]:
  assumes "\<bar>n\<bar> \<le> 2 ^ 53"
  shows "js_round n = n"
proof (cases "n < 0")
  case True
  with assms have "js_round_nat (nat (- n)) = nat (- n)"
    by (intro js_round_nat_exact nat_le_2_53) linarith
  then show ?thesis using True by (simp add: js_round_def)
next
  case False
  with assms have "js_round_nat (nat n) = nat n"
    by (intro js_round_nat_exact nat_le_2_53) linarith
  then show ?thesis using False by (simp add: js_round_def)
qed

lemma js_add_exact [simp]: "\<bar>a + b\<bar> \<le> 2 ^ 53 \<Longrightarrow> js_add a b = a + b"
  by (simp add: js_add_def)

text \<open>Division of BigInts truncates towards zero.\<close>

definition big_div :: "int \<Rightarrow> int \<Rightarrow> int" where
  "big_div a b = sgn a * sgn b * (\<bar>a\<bar> div \<bar>b\<bar>)"

lemma big_div_nonneg: "0 \<le> a \<Longrightarrow> 0 < b \<Longrightarrow> big_div a b = a div b"
  by (cases "a = 0") (simp_all add: big_div_def)

text \<open>
  A number read from JSON and rounded (\<open>Math.round(Number(x))\<close>): an integer, \<open>NaN\<close>, or an
  infinity; \<open>or_default d\<close> is \<open>x || d\<close>.
\<close>

datatype js_num = Fin int | NaN | Infinite

definition or_default :: "int \<Rightarrow> js_num \<Rightarrow> js_num" where
  "or_default d x = (case x of Fin n \<Rightarrow> if n = 0 then Fin d else Fin n | NaN \<Rightarrow> Fin d | Infinite \<Rightarrow> Infinite)"

definition within :: "int \<Rightarrow> int \<Rightarrow> js_num \<Rightarrow> bool" where
  "within lo hi x = (case x of Fin n \<Rightarrow> lo \<le> n \<and> n \<le> hi | _ \<Rightarrow> False)"

definition fin_val :: "js_num \<Rightarrow> int" where
  "fin_val x = (case x of Fin n \<Rightarrow> n | _ \<Rightarrow> 0)"

lemma within_cases [elim]:
  assumes "within lo hi x"
  obtains n where "x = Fin n" "lo \<le> n" "n \<le> hi"
  using assms by (cases x) (auto simp: within_def)

section \<open>Decimal numerals\<close>

definition digit_char :: "nat \<Rightarrow> char" where
  "digit_char d = ''0123456789'' ! d"

fun show_nat :: "nat \<Rightarrow> string" where
  "show_nat n = (if n < 10 then [digit_char n] else show_nat (n div 10) @ [digit_char (n mod 10)])"

declare show_nat.simps [simp del]

definition show_int :: "int \<Rightarrow> string" where
  "show_int i = (if i < 0 then CHR ''-'' # show_nat (nat (- i)) else show_nat (nat i))"

definition is_digit :: "char \<Rightarrow> bool" where
  "is_digit c \<longleftrightarrow> c \<in> set ''0123456789''"

definition digit_val :: "char \<Rightarrow> nat" where
  "digit_val c = (of_char c :: nat) - 48"

definition digits_val :: "string \<Rightarrow> nat" where
  "digits_val s = foldl (\<lambda>acc c. 10 * acc + digit_val c) 0 s"

lemma less_10_cases: "d < (10::nat) \<Longrightarrow> d \<in> {0,1,2,3,4,5,6,7,8,9}"
  by auto

lemma digit_char_props: "d < 10 \<Longrightarrow> is_digit (digit_char d) \<and> digit_val (digit_char d) = d"
  by (drule less_10_cases) (auto simp: digit_char_def is_digit_def digit_val_def)

lemma digits_val_snoc [simp]: "digits_val (s @ [c]) = 10 * digits_val s + digit_val c"
  by (simp add: digits_val_def)

lemma digits_val_show_nat [simp]: "digits_val (show_nat n) = n"
proof (induction n rule: show_nat.induct)
  case (1 n)
  show ?case
  proof (cases "n < 10")
    case True
    then show ?thesis
      by (subst show_nat.simps) (simp add: digits_val_def digit_char_props)
  next
    case False
    with 1 show ?thesis
      by (subst show_nat.simps) (simp add: digit_char_props)
  qed
qed

lemma show_nat_digits: "list_all is_digit (show_nat n)"
proof (induction n rule: show_nat.induct)
  case (1 n)
  then show ?case
    by (subst show_nat.simps) (simp add: digit_char_props)
qed

lemma show_nat_nonempty [simp]: "show_nat n \<noteq> []"
  by (subst show_nat.simps) simp

lemma show_nat_inject [simp]: "show_nat m = show_nat n \<longleftrightarrow> m = n"
  by (metis digits_val_show_nat)

section \<open>Character classes\<close>

definition is_hex :: "char \<Rightarrow> bool" where
  "is_hex c \<longleftrightarrow> c \<in> set ''0123456789abcdef''"

text \<open>For evaluation, the classes of characters are read off their bits.\<close>

lemma is_hex_code [code]:
  "is_hex (Char b0 b1 b2 b3 b4 b5 b6 b7) \<longleftrightarrow> \<not> b7 \<and> b5
     \<and> (if b6 then \<not> b4 \<and> \<not> b3 \<and> (b0 \<or> b1 \<or> b2) \<and> \<not> (b0 \<and> b1 \<and> b2) else b4 \<and> (b3 \<longrightarrow> \<not> b1 \<and> \<not> b2))"
  by (cases b0; cases b1; cases b2; cases b3; cases b4; cases b5; cases b6; cases b7) (simp_all add: is_hex_def)

definition hex_str :: "nat \<Rightarrow> nat \<Rightarrow> string \<Rightarrow> bool" where
  "hex_str lo hi s \<longleftrightarrow> lo \<le> length s \<and> length s \<le> hi \<and> list_all is_hex s"

definition digit_str :: "string \<Rightarrow> bool" where
  "digit_str s \<longleftrightarrow> s \<noteq> [] \<and> list_all is_digit s"

definition newline :: char where
  "newline = CHR 0x0A"

definition no_newline :: "string \<Rightarrow> bool" where
  "no_newline s \<longleftrightarrow> newline \<notin> set s"

lemma is_digit_hex: "is_digit c \<Longrightarrow> is_hex c"
  by (auto simp: is_digit_def is_hex_def)

lemma is_hex_not_newline [simp]: "\<not> is_hex newline"
  by (simp add: is_hex_def newline_def)

lemma hex_str_no_newline: "hex_str lo hi s \<Longrightarrow> no_newline s"
  by (auto simp: hex_str_def no_newline_def list_all_iff)

lemma digit_not_newline [simp]: "\<not> is_digit newline"
  by (simp add: is_digit_def newline_def)

lemma show_nat_no_newline [simp]: "no_newline (show_nat n)"
  using show_nat_digits [of n] by (auto simp: no_newline_def list_all_iff)

lemma show_int_no_newline [simp]: "no_newline (show_int i)"
  using show_nat_no_newline [of "nat i"] show_nat_no_newline [of "nat (- i)"]
  by (auto simp: show_int_def no_newline_def newline_def)

lemma show_int_nonneg_inject: "0 \<le> i \<Longrightarrow> 0 \<le> j \<Longrightarrow> show_int i = show_int j \<longleftrightarrow> i = j"
  by (auto simp: show_int_def)

section \<open>ASCII strings\<close>

definition lower_char :: "char \<Rightarrow> char" where
  "lower_char c = (let n = (of_char c :: nat) in if 65 \<le> n \<and> n \<le> 90 then char_of (n + 32) else c)"

lemma lower_char_code [code]:
  "lower_char (Char b0 b1 b2 b3 b4 b5 b6 b7) =
     Char b0 b1 b2 b3 b4 (b5 \<or> (\<not> b7 \<and> b6 \<and> (b0 \<or> b1 \<or> b2 \<or> b3 \<or> b4) \<and> \<not> (b4 \<and> b3 \<and> (b2 \<or> b0 \<and> b1)))) b6 b7"
  by (cases b0; cases b1; cases b2; cases b3; cases b4; cases b5; cases b6; cases b7) (simp_all add: lower_char_def char_of_def bit_0)

definition to_lower :: "string \<Rightarrow> string" where
  "to_lower s = map lower_char s"

definition strip_prefix :: "string \<Rightarrow> string \<Rightarrow> string option" where
  "strip_prefix p s = (if prefix p s then Some (drop (length p) s) else None)"

definition is_space :: "char \<Rightarrow> bool" where
  "is_space c \<longleftrightarrow> c \<in> {CHR '' '', CHR 0x09, CHR 0x0A, CHR 0x0B, CHR 0x0C, CHR 0x0D}"

definition js_trim :: "string \<Rightarrow> string" where
  "js_trim s = rev (dropWhile is_space (rev (dropWhile is_space s)))"

text \<open>\<open>s.split(c)\<close> for a one-character separator.\<close>

fun split_on :: "char \<Rightarrow> string \<Rightarrow> string list" where
  "split_on c [] = [[]]"
| "split_on c (x # xs) =
     (if x = c then [] # split_on c xs
      else case split_on c xs of y # ys \<Rightarrow> (x # y) # ys | [] \<Rightarrow> [[x]])"

text \<open>
  \<open>parseInt(s, 10)\<close> is the leading digits after white space and an optional sign.
\<close>

definition parse_int10 :: "string \<Rightarrow> int option" where
  "parse_int10 s =
     (let (neg, t) = (case dropWhile is_space s of c # cs \<Rightarrow> if c = CHR ''-'' then (True, cs)
                                else if c = CHR ''+'' then (False, cs) else (False, c # cs)
                      | [] \<Rightarrow> (False, []));
          ds = takeWhile is_digit t
      in if ds = [] then None
         else Some (if neg then - int (digits_val ds) else int (digits_val ds)))"

section \<open>Early returns\<close>

text \<open>
  A computation that may end early with an error, and the guard that ends it.
\<close>

definition and_then :: "'e + 'a \<Rightarrow> ('a \<Rightarrow> 'e + 'b) \<Rightarrow> 'e + 'b" where
  "and_then r f = (case r of Inl e \<Rightarrow> Inl e | Inr x \<Rightarrow> f x)"

definition reject_if :: "bool \<Rightarrow> 'e \<Rightarrow> 'e + unit" where
  "reject_if b e = (if b then Inl e else Inr ())"

lemma and_then_simps [simp]:
  "and_then (Inl e) f = Inl e" "and_then (Inr x) f = f x"
  by (simp_all add: and_then_def)

lemma and_then_Inr [simp]: "and_then r f = Inr y \<longleftrightarrow> (\<exists>x. r = Inr x \<and> f x = Inr y)"
  by (cases r) simp_all

lemma reject_if_Inr [simp]: "reject_if b e = Inr u \<longleftrightarrow> \<not> b"
  by (simp add: reject_if_def)

section \<open>Bounded logs\<close>

text \<open>
  The contract of a table that stays bounded whatever is added to it.
\<close>

locale bounded_log =
  fixes add :: "'e \<Rightarrow> 's \<Rightarrow> 's" and size_of :: "'s \<Rightarrow> nat" and cap :: nat
  assumes add_bound: "size_of s \<le> cap \<Longrightarrow> size_of (add e s) \<le> cap"
begin

lemma run_bound: "size_of s \<le> cap \<Longrightarrow> size_of (foldl (\<lambda>s e. add e s) s es) \<le> cap"
  by (induction es arbitrary: s) (simp_all add: add_bound)

end

definition keep_last :: "nat \<Rightarrow> 'a list \<Rightarrow> 'a list" where
  "keep_last n xs = drop (length xs - n) xs"

lemma length_keep_last [simp]: "length (keep_last n xs) = min n (length xs)"
  by (simp add: keep_last_def)

lemma keep_last_all [simp]: "length xs \<le> n \<Longrightarrow> keep_last n xs = xs"
  by (simp add: keep_last_def)

lemma set_keep_last: "set (keep_last n xs) \<subseteq> set xs"
  by (simp add: keep_last_def set_drop_subset)

lemma keep_last_suffix: "suffix (keep_last n xs) xs"
  by (simp add: keep_last_def suffix_drop)

lemma keep_last_snoc: "0 < n \<Longrightarrow> keep_last n (xs @ [x]) = keep_last (n - 1) xs @ [x]"
  by (cases n) (auto simp: keep_last_def Suc_diff_le)

lemma keep_last_keep_last: "keep_last m (keep_last n xs) = keep_last (min m n) xs"
proof -
  have "(length xs - (length xs - n)) - m + (length xs - n) = length xs - min m n"
    unfolding min_def by (cases "m \<le> n"; simp; arith?)
  then show ?thesis by (simp add: keep_last_def)
qed

lemma set_keep_last_mono: "m \<le> n \<Longrightarrow> set (keep_last m xs) \<subseteq> set (keep_last n xs)"
  by (simp add: keep_last_def set_drop_subset_set_drop)

lemma last_in_keep_last: "0 < n \<Longrightarrow> x \<in> set (keep_last n (xs @ [x]))"
  by (simp add: keep_last_snoc)

lemma distinct_keep_last: "distinct xs \<Longrightarrow> distinct (keep_last n xs)"
  by (simp add: keep_last_def)

section \<open>Insertion-ordered maps\<close>

abbreviation alist_dom :: "('k \<times> 'v) list \<Rightarrow> 'k set" where
  "alist_dom m \<equiv> fst ` set m"

lemma map_of_update [simp]: "map_of (AList.update k v m) = (map_of m)(k \<mapsto> v)"
  by (simp add: update_conv')

lemma length_alist_update:
  "length (AList.update k v m) = (if k \<in> alist_dom m then length m else Suc (length m))"
  by (induction m) auto

lemma distinct_alist_update: "distinct (map fst m) \<Longrightarrow> distinct (map fst (AList.update k v m))"
  by (rule distinct_update)

lemma map_of_filter_value:
  assumes "distinct (map fst m)"
  shows "map_of (filter (\<lambda>(k, b). P b) m) k =
    (case map_of m k of None \<Rightarrow> None | Some b \<Rightarrow> if P b then Some b else None)"
  using assms
proof (induction m)
  case (Cons x m)
  obtain k' b where x: "x = (k', b)" by (cases x)
  have "k' = k \<Longrightarrow> map_of m k = None" using Cons.prems by (simp add: x map_of_eq_None_iff)
  then show ?case using Cons by (auto simp: x)
qed simp

lemma list_all_alist_update:
  "list_all P m \<Longrightarrow> P (k, v) \<Longrightarrow> list_all P (AList.update k v m)"
  by (induction m) auto

lemma list_all_alist_delete: "list_all P m \<Longrightarrow> list_all P (AList.delete k m)"
  by (auto simp: AList.delete_eq list_all_iff)

lemma length_alist_delete: "length (AList.delete k m) \<le> length m"
  by (simp add: AList.delete_eq)

lemma distinct_map_fst_filter: "distinct (map fst m) \<Longrightarrow> distinct (map fst (filter P m))"
  by (induction m) auto

lemma map_of_member: "map_of T n = Some v \<Longrightarrow> list_all P T \<Longrightarrow> P (n, v)"
  by (auto dest!: map_of_SomeD simp: list_all_iff)

lemma update_members: "x \<in> set (AList.update k v m) \<Longrightarrow> x = (k, v) \<or> x \<in> set m"
  by (induction m) (auto split: if_splits)

lemma delete_members: "x \<in> set (AList.delete k m) \<Longrightarrow> x \<in> set m"
  by (simp add: AList.delete_eq)

lemma set_map_filter: "set (List.map_filter f xs) = {y. \<exists>x \<in> set xs. f x = Some y}"
  by (induction xs) (auto simp: map_filter_simps split: option.splits)

section \<open>Joining lines\<close>

fun join_lines :: "string list \<Rightarrow> string" where
  "join_lines [] = []"
| "join_lines [x] = x"
| "join_lines (x # y # ys) = x @ newline # join_lines (y # ys)"

lemma append_newline_cancel:
  assumes "no_newline x" "no_newline y" "x @ newline # s = y @ newline # t"
  shows "x = y \<and> s = t"
  using assms
proof (induction x arbitrary: y)
  case Nil
  then show ?case by (cases y) (auto simp: no_newline_def)
next
  case (Cons c x)
  show ?case
  proof (cases y)
    case Nil
    with Cons.prems show ?thesis by (auto simp: no_newline_def)
  next
    case (Cons d y')
    with Cons.prems Cons.IH [of y'] show ?thesis by (auto simp: no_newline_def)
  qed
qed

lemma append_newline_cancel_last:
  assumes "no_newline x" "no_newline y" "s @ newline # x = t @ newline # y"
  shows "s = t \<and> x = y"
proof -
  have e: "rev x @ newline # rev s = rev y @ newline # rev t"
    using arg_cong [OF assms(3), of rev] by simp
  have "no_newline (rev x)" and "no_newline (rev y)"
    using assms(1,2) by (simp_all add: no_newline_def)
  then have "rev x = rev y \<and> rev s = rev t"
    using e by (rule append_newline_cancel)
  then show ?thesis by simp
qed

lemma join_lines_snoc:
  "xs \<noteq> [] \<Longrightarrow> join_lines (xs @ [x]) = join_lines xs @ newline # x"
  by (induction xs rule: join_lines.induct) auto

end
