(* ===== verification/Pads_Ledger.thy ===== *)
theory Pads_Ledger
  imports Js_Prelude
begin

text \<open>
  The pad ledger of \<open>relay/pads.mjs\<close>: the per-pVM seed records, the reserve-before-use
  windows of pad indices, the signed usage receipts, the replay memory both share, and the
  file that makes the mark survive a restart.

  The state is kept twice, as the code keeps it: \<open>mem\<close> is the object the handlers mutate,
  \<open>disk\<close> what the last completed \<open>save()\<close> renamed into place. A handler takes the outcome
  of its one \<open>save()\<close> as an argument (\<open>io\<close>); a failing save throws out of the handler with
  the memory already changed. \<open>node:crypto\<close> is the argument \<open>cr\<close>, a record of the
  primitives the file calls; the tunnel hub is the argument \<open>hub\<close>.
\<close>

section \<open>Bytes and hexadecimal\<close>

definition hex_val :: "char \<Rightarrow> nat option" where
  "hex_val c =
     (let n = (of_char c :: nat)
      in if 48 \<le> n \<and> n \<le> 57 then Some (n - 48)
         else if 97 \<le> n \<and> n \<le> 102 then Some (n - 87)
         else if 65 \<le> n \<and> n \<le> 70 then Some (n - 55)
         else None)"

text \<open>\<open>Buffer.from(s, "hex")\<close> stops at the first pair that is not two hex digits.\<close>

fun buffer_from_hex :: "string \<Rightarrow> nat list" where
  "buffer_from_hex (a # b # rest) =
     (case (hex_val a, hex_val b) of
        (Some x, Some y) \<Rightarrow> (16 * x + y) # buffer_from_hex rest
      | _ \<Rightarrow> [])"
| "buffer_from_hex _ = []"

definition hex_digit :: "nat \<Rightarrow> char" where
  "hex_digit d = ''0123456789abcdef'' ! d"

fun hex_encode :: "nat list \<Rightarrow> string" where
  "hex_encode [] = []"
| "hex_encode (b # bs) = hex_digit (b div 16) # hex_digit (b mod 16) # hex_encode bs"

section \<open>Messages that are signed\<close>

definition signed_message :: "string \<Rightarrow> string list \<Rightarrow> string" where
  "signed_message kind flds = join_lines ((''enclave-pads-'' @ kind) # flds)"

definition window_message :: "string \<Rightarrow> int \<Rightarrow> int \<Rightarrow> int \<Rightarrow> string" where
  "window_message seed_id lo hi iat =
     signed_message ''window'' [seed_id, show_int lo, show_int hi, show_int iat]"

section \<open>The primitives, the hub and the records\<close>

record 'k crypto =
  parse_spki :: "string \<Rightarrow> 'k option"
  is_ed25519 :: "'k \<Rightarrow> bool"
  ed_verify :: "string option \<Rightarrow> string \<Rightarrow> 'k \<Rightarrow> nat list \<Rightarrow> bool"
  ed_sign :: "string \<Rightarrow> string \<Rightarrow> nat list"
  hkdf_sha512 :: "nat list \<Rightarrow> nat list \<Rightarrow> string \<Rightarrow> nat \<Rightarrow> nat list"
  x25519_public :: "nat list \<Rightarrow> nat list"
  x25519_shared :: "nat list \<Rightarrow> nat list \<Rightarrow> nat list"
  chacha20_poly1305 :: "nat list \<Rightarrow> nat list \<Rightarrow> nat list \<Rightarrow> nat list"

record tunnel =
  spki :: string
  keyFp :: string
  padKey :: string

record hub =
  info :: "string \<Rightarrow> tunnel option"
  origins :: "string list"

record receipt_row =
  rr_pads :: int
  rr_tokens :: int
  rr_iat :: int
  rr_nonce :: string

record usage =
  u_pads :: int
  u_tokens :: int
  u_runs :: int
  u_last :: "receipt_row list"

record seed_rec =
  sr_name :: string
  sr_keyFp :: string
  sr_epoch :: int
  sr_mark :: int
  sr_updated :: int
  sr_nonces :: "string list"
  sr_usage :: "usage option"

record pads_state =
  master :: string
  ledgerKey :: string
  seeds :: "(string \<times> seed_rec) list"

record pads_store =
  mem :: pads_state
  disk :: "pads_state option"

definition PADS_EPOCH :: int where "PADS_EPOCH = 1"
definition MAX_WINDOW :: int where "MAX_WINDOW = 4096"
definition RECEIPT_MEMORY :: nat where "RECEIPT_MEMORY = 64"
definition NONCE_MEMORY :: nat where "NONCE_MEMORY = 256"

datatype reply =
    ErrorReply string
  | SeedReply string int "nat list" "nat list" "nat list"
  | WindowReply string int int int string
  | ReceiptReply string int int int int

datatype outcome = Reply int reply | Throws

section \<open>Seeds and boxes\<close>

definition derive_seed :: "'k crypto \<Rightarrow> nat list \<Rightarrow> string \<Rightarrow> int \<Rightarrow> nat list \<times> string" where
  "derive_seed cr m fp epoch =
     (hkdf_sha512 cr m (buffer_from_hex fp) (''enclave-pads-seed:'' @ show_int epoch) 32,
      hex_encode (hkdf_sha512 cr m (buffer_from_hex fp) (''enclave-pads-seed-id:'' @ show_int epoch) 16))"

text \<open>\<open>boxToPadKey\<close>: \<open>esk\<close> and \<open>nonce\<close> are the fresh random key and nonce; \<open>None\<close> is the throw.\<close>

definition box_to_pad_key ::
  "'k crypto \<Rightarrow> nat list \<Rightarrow> nat list \<Rightarrow> string \<Rightarrow> nat list \<Rightarrow> (nat list \<times> nat list \<times> nat list) option" where
  "box_to_pad_key cr esk nonce padKeyHex plain =
     (let pk = buffer_from_hex padKeyHex
      in if length pk \<noteq> 32 then None
         else let epk = x25519_public cr esk;
                  shared = x25519_shared cr esk pk;
                  key = hkdf_sha512 cr shared (epk @ pk) ''enclave-pads-seed-box'' 32
              in Some (epk, nonce, chacha20_poly1305 cr key nonce plain))"

section \<open>Boot and save\<close>

definition save :: "bool \<Rightarrow> pads_store \<Rightarrow> pads_store" where
  "save io s = (if io then s\<lparr>disk := Some (mem s)\<rparr> else s)"

definition empty_state :: pads_state where
  "empty_state = \<lparr>master = [], ledgerKey = [], seeds = []\<rparr>"

text \<open>
  \<open>createPadsLedger\<close>: read the file if there is one, let \<open>masterSeed\<close> override, mint what is
  missing, save. \<open>rnd\<close> is the fresh 32 bytes, \<open>newKey\<close> the fresh ledger key; \<open>None\<close> is a
  boot whose save throws, which leaves no ledger.
\<close>

definition create_pads_ledger ::
  "string \<Rightarrow> nat list \<Rightarrow> string \<Rightarrow> bool \<Rightarrow> pads_state option \<Rightarrow> pads_store option" where
  "create_pads_ledger masterSeed rnd newKey io file =
     (let st0 = (case file of None \<Rightarrow> empty_state | Some d \<Rightarrow> d);
          st1 = (if masterSeed \<noteq> [] then st0\<lparr>master := hex_encode (buffer_from_hex masterSeed)\<rparr> else st0);
          st2 = (if master st1 = [] \<or> length (master st1) \<noteq> 64 then st1\<lparr>master := hex_encode rnd\<rparr> else st1);
          st3 = (if ledgerKey st2 = [] then st2\<lparr>ledgerKey := newKey\<rparr> else st2)
      in if io then Some (save io \<lparr>mem = st3, disk = file\<rparr>) else None)"

section \<open>The attested caller\<close>

definition good_nonce :: "string \<Rightarrow> bool" where
  "good_nonce n \<longleftrightarrow> hex_str 32 128 n"

definition good_seed_id :: "string \<Rightarrow> bool" where
  "good_seed_id s \<longleftrightarrow> hex_str 32 32 s"

definition caller_of ::
  "'k crypto \<Rightarrow> hub \<Rightarrow> string \<Rightarrow> string \<Rightarrow> string list \<Rightarrow> string \<Rightarrow> string \<Rightarrow> string + tunnel" where
  "caller_of cr hb name kind flds nonce sg =
     (case info hb name of
        None \<Rightarrow> Inl ''unknown_tunnel''
      | Some t \<Rightarrow>
          if spki t = [] then Inl ''unknown_tunnel''
          else if \<not> good_nonce nonce then Inl ''bad_nonce''
          else case parse_spki cr (spki t) of
                 None \<Rightarrow> Inl ''bad_key''
               | Some key \<Rightarrow>
                   let alg = (if is_ed25519 cr key then None else Some ''sha256'');
                       ok = ed_verify cr alg (signed_message kind (name # flds @ [nonce])) key
                              (buffer_from_hex sg)
                   in if \<not> ok then Inl ''bad_signature'' else Inr t)"

section \<open>The handlers\<close>

definition seed_record :: "pads_store \<Rightarrow> string \<Rightarrow> seed_rec option" where
  "seed_record s sid = map_of (seeds (mem s)) sid"

definition put_record :: "pads_store \<Rightarrow> string \<Rightarrow> seed_rec \<Rightarrow> pads_store" where
  "put_record s sid r = s\<lparr>mem := (mem s)\<lparr>seeds := AList.update sid r (seeds (mem s))\<rparr>\<rparr>"

definition use_nonce :: "string \<Rightarrow> seed_rec \<Rightarrow> seed_rec" where
  "use_nonce nonce r = r\<lparr>sr_nonces := keep_last NONCE_MEMORY (sr_nonces r @ [nonce])\<rparr>"

definition fresh_record :: "string \<Rightarrow> string \<Rightarrow> seed_rec" where
  "fresh_record name fp =
     \<lparr>sr_name = name, sr_keyFp = fp, sr_epoch = PADS_EPOCH, sr_mark = 0, sr_updated = 0,
      sr_nonces = [], sr_usage = None\<rparr>"

definition pads_seed ::
  "'k crypto \<Rightarrow> hub \<Rightarrow> nat list \<Rightarrow> nat list \<Rightarrow> bool \<Rightarrow> string \<Rightarrow> string \<Rightarrow> string \<Rightarrow> pads_store
     \<Rightarrow> pads_store \<times> outcome" where
  "pads_seed cr hb esk bnonce io name nonce sg s =
     (case caller_of cr hb name ''seed'' [] nonce sg of
        Inl e \<Rightarrow> (s, Reply 403 (ErrorReply e))
      | Inr t \<Rightarrow>
          if padKey t = [] then (s, Reply 409 (ErrorReply ''no_pad_key''))
          else
            let (seed, sid) = derive_seed cr (buffer_from_hex (master (mem s))) (keyFp t) PADS_EPOCH;
                r = (case seed_record s sid of Some r \<Rightarrow> r | None \<Rightarrow> fresh_record name (keyFp t));
                s1 = save io (put_record s sid (r\<lparr>sr_name := name\<rparr>))
            in if \<not> io then (s1, Throws)
               else case box_to_pad_key cr esk bnonce (padKey t) seed of
                      None \<Rightarrow> (s1, Throws)
                    | Some (epk, n, ct) \<Rightarrow> (s1, Reply 200 (SeedReply sid PADS_EPOCH epk n ct)))"

text \<open>
  \<open>want\<close> is the value after \<open>Number(want)\<close>; \<open>None\<close> is anything that is not an integer.
  \<open>now\<close> is \<open>Math.floor(Date.now() / 1000)\<close>.
\<close>

definition pads_reserve ::
  "'k crypto \<Rightarrow> hub \<Rightarrow> int \<Rightarrow> bool \<Rightarrow> string \<Rightarrow> string \<Rightarrow> int option \<Rightarrow> string \<Rightarrow> string \<Rightarrow> pads_store
     \<Rightarrow> pads_store \<times> outcome" where
  "pads_reserve cr hb now io name sid want nonce sg s =
     (case want of
        None \<Rightarrow> (s, Reply 400 (ErrorReply ''bad_window''))
      | Some w \<Rightarrow>
          if w < 1 \<or> w > MAX_WINDOW then (s, Reply 400 (ErrorReply ''bad_window''))
          else if \<not> good_seed_id sid then (s, Reply 400 (ErrorReply ''bad_seed_id''))
          else case caller_of cr hb name ''reserve'' [sid, show_int w] nonce sg of
                 Inl e \<Rightarrow> (s, Reply 403 (ErrorReply e))
               | Inr t \<Rightarrow>
                   (case seed_record s sid of
                      None \<Rightarrow> (s, Reply 403 (ErrorReply ''not_your_seed''))
                    | Some r \<Rightarrow>
                        if sr_keyFp r \<noteq> keyFp t then (s, Reply 403 (ErrorReply ''not_your_seed''))
                        else if nonce \<in> set (sr_nonces r) then (s, Reply 409 (ErrorReply ''replay''))
                        else
                          let lo = sr_mark r; hi = js_add (sr_mark r) w;
                              r' = (use_nonce nonce r)\<lparr>sr_mark := hi, sr_updated := now\<rparr>;
                              s1 = save io (put_record s sid r')
                          in if \<not> io then (s1, Throws)
                             else (s1, Reply 200 (WindowReply sid lo hi now
                                     (hex_encode (ed_sign cr (ledgerKey (mem s))
                                        (window_message sid lo hi now)))))))"

definition no_usage :: usage where
  "no_usage = \<lparr>u_pads = 0, u_tokens = 0, u_runs = 0, u_last = []\<rparr>"

definition add_receipt :: "int \<Rightarrow> int \<Rightarrow> int \<Rightarrow> string \<Rightarrow> usage \<Rightarrow> usage" where
  "add_receipt pads tokens iat nonce u =
     \<lparr>u_pads = js_add (u_pads u) pads, u_tokens = js_add (u_tokens u) tokens,
      u_runs = js_add (u_runs u) 1,
      u_last = keep_last RECEIPT_MEMORY
        (u_last u @ [\<lparr>rr_pads = pads, rr_tokens = tokens, rr_iat = iat, rr_nonce = nonce\<rparr>])\<rparr>"

definition safe_count :: "int option \<Rightarrow> bool" where
  "safe_count n = (case n of None \<Rightarrow> False | Some i \<Rightarrow> is_safe_integer i \<and> 0 \<le> i)"

definition pads_receipt ::
  "'k crypto \<Rightarrow> hub \<Rightarrow> int \<Rightarrow> bool \<Rightarrow> string \<Rightarrow> string \<Rightarrow> int option \<Rightarrow> int option \<Rightarrow> string \<Rightarrow> string
     \<Rightarrow> pads_store \<Rightarrow> pads_store \<times> outcome" where
  "pads_receipt cr hb now io name sid pads tokens nonce sg s =
     (if \<not> good_seed_id sid then (s, Reply 400 (ErrorReply ''bad_seed_id''))
      else if \<not> safe_count pads \<or> \<not> safe_count tokens then (s, Reply 400 (ErrorReply ''bad_receipt''))
      else
        let p = the pads; k = the tokens
        in case caller_of cr hb name ''receipt'' [sid, show_int p, show_int k] nonce sg of
             Inl e \<Rightarrow> (s, Reply 403 (ErrorReply e))
           | Inr t \<Rightarrow>
               (case seed_record s sid of
                  None \<Rightarrow> (s, Reply 403 (ErrorReply ''not_your_seed''))
                | Some r \<Rightarrow>
                    if sr_keyFp r \<noteq> keyFp t then (s, Reply 403 (ErrorReply ''not_your_seed''))
                    else if nonce \<in> set (sr_nonces r) then (s, Reply 409 (ErrorReply ''replay''))
                    else
                      let u = add_receipt p k now nonce
                                (case sr_usage r of None \<Rightarrow> no_usage | Some u \<Rightarrow> u);
                          s1 = save io (put_record s sid ((use_nonce nonce r)\<lparr>sr_usage := Some u\<rparr>))
                      in if \<not> io then (s1, Throws)
                         else (s1, Reply 200 (ReceiptReply sid (u_pads u) (u_tokens u) (u_runs u) now))))"

section \<open>The read-only views\<close>

definition pads_receipts :: "pads_store \<Rightarrow> string \<Rightarrow> (string \<times> usage) option" where
  "pads_receipts s sid =
     map_option (\<lambda>r. (sr_name r, case sr_usage r of None \<Rightarrow> no_usage | Some u \<Rightarrow> u)) (seed_record s sid)"

record consumer =
  co_name :: string
  co_keyFp :: string
  co_padKey :: string
  co_seed_id :: string
  co_epoch :: int
  co_mark :: int
  co_issued :: bool

definition consumer_of :: "'k crypto \<Rightarrow> pads_store \<Rightarrow> string \<Rightarrow> tunnel \<Rightarrow> consumer" where
  "consumer_of cr s name t =
     (let sid = snd (derive_seed cr (buffer_from_hex (master (mem s))) (keyFp t) PADS_EPOCH);
          r = seed_record s sid
      in \<lparr>co_name = name, co_keyFp = keyFp t, co_padKey = padKey t, co_seed_id = sid,
          co_epoch = PADS_EPOCH, co_mark = (case r of None \<Rightarrow> 0 | Some x \<Rightarrow> sr_mark x),
          co_issued = (r \<noteq> None)\<rparr>)"

definition pads_pvm :: "'k crypto \<Rightarrow> hub \<Rightarrow> pads_store \<Rightarrow> string \<Rightarrow> consumer option" where
  "pads_pvm cr hb s name =
     (case info hb name of
        None \<Rightarrow> None
      | Some t \<Rightarrow> if keyFp t = [] then None else Some (consumer_of cr s name t))"

definition pads_consumers :: "'k crypto \<Rightarrow> hub \<Rightarrow> pads_store \<Rightarrow> consumer list" where
  "pads_consumers cr hb s =
     concat (map (\<lambda>name. case info hb name of
                           None \<Rightarrow> []
                         | Some t \<Rightarrow> if keyFp t = [] \<or> padKey t = [] then []
                                     else [consumer_of cr s name t]) (origins hb))"

definition pads_mark :: "pads_store \<Rightarrow> string \<Rightarrow> (int \<times> int \<times> string) option" where
  "pads_mark s sid = map_option (\<lambda>r. (sr_mark r, sr_updated r, sr_name r)) (seed_record s sid)"

section \<open>One operation at a time\<close>

text \<open>The facts about the store that every handler proof uses.\<close>

definition mark_in :: "pads_state \<Rightarrow> string \<Rightarrow> int" where
  "mark_in d sid = (case map_of (seeds d) sid of None \<Rightarrow> 0 | Some r \<Rightarrow> sr_mark r)"

definition nonces_in :: "pads_state \<Rightarrow> string \<Rightarrow> string list" where
  "nonces_in d sid = (case map_of (seeds d) sid of None \<Rightarrow> [] | Some r \<Rightarrow> sr_nonces r)"

definition disk_state :: "pads_store \<Rightarrow> pads_state" where
  "disk_state s = (case disk s of None \<Rightarrow> empty_state | Some d \<Rightarrow> d)"

definition is_ok :: "outcome \<Rightarrow> bool" where
  "is_ok out \<longleftrightarrow> (\<exists>b. out = Reply 200 b)"

named_theorems pads_store_simps \<open>the store's lookups after a write and a save\<close>

lemma mem_save [pads_store_simps]: "mem (save io s) = mem s"
  by (simp add: save_def)

lemma disk_state_save [pads_store_simps]: "disk_state (save io s) = (if io then mem s else disk_state s)"
  by (simp add: save_def disk_state_def)

lemma disk_put_record [pads_store_simps]: "disk_state (put_record s sid r) = disk_state s"
  by (simp add: put_record_def disk_state_def)

lemma seeds_put_record [pads_store_simps]:
  "map_of (seeds (mem (put_record s sid r))) = (map_of (seeds (mem s)))(sid \<mapsto> r)"
  by (simp add: put_record_def)

lemma seed_record_put [pads_store_simps]:
  "seed_record (put_record s sid r) sid' = (if sid' = sid then Some r else seed_record s sid')"
  by (simp add: seed_record_def seeds_put_record)

lemma seed_record_save [pads_store_simps]: "seed_record (save io s) = seed_record s"
  by (simp add: seed_record_def save_def fun_eq_iff)

lemma mark_in_put [pads_store_simps]:
  "mark_in (mem (put_record s sid r)) sid' = (if sid' = sid then sr_mark r else mark_in (mem s) sid')"
  by (simp add: mark_in_def seeds_put_record)

lemma nonces_in_put [pads_store_simps]:
  "nonces_in (mem (put_record s sid r)) sid' = (if sid' = sid then sr_nonces r else nonces_in (mem s) sid')"
  by (simp add: nonces_in_def seeds_put_record)

lemma mark_in_record: "seed_record s sid = Some r \<Longrightarrow> mark_in (mem s) sid = sr_mark r"
  by (simp add: seed_record_def mark_in_def)

lemma nonces_in_record: "seed_record s sid = Some r \<Longrightarrow> nonces_in (mem s) sid = sr_nonces r"
  by (simp add: seed_record_def nonces_in_def)

lemma is_ok_simps [simp]:
  "is_ok (Reply 200 b)" "\<not> is_ok Throws" "c \<noteq> 200 \<Longrightarrow> \<not> is_ok (Reply c b)"
  by (simp_all add: is_ok_def)

text \<open>
  The contract both signed operations on an issued seed keep: either nothing happens and the
  answer is not a success, or the nonce was unseen, it is remembered, the mark moves by the
  operation's own step, only this seed's record changes, and the answer is a success exactly
  when the save was durable.
\<close>

locale seed_op =
  fixes act :: "pads_store \<Rightarrow> pads_store \<times> outcome"
    and sid :: string and nonce :: string and adv :: "int \<Rightarrow> int"
  assumes shape:
    "(fst (act s) = s \<and> \<not> is_ok (snd (act s))) \<or>
     (\<exists>r r' io. seed_record s sid = Some r \<and> nonce \<notin> set (sr_nonces r) \<and>
        sr_nonces r' = keep_last NONCE_MEMORY (sr_nonces r @ [nonce]) \<and>
        sr_mark r' = adv (sr_mark r) \<and> sr_keyFp r' = sr_keyFp r \<and>
        fst (act s) = save io (put_record s sid r') \<and> is_ok (snd (act s)) = io)"
    and adv_bounds: "0 \<le> m \<Longrightarrow> m \<le> 2 ^ 53 - MAX_WINDOW \<Longrightarrow> m \<le> adv m \<and> adv m \<le> m + MAX_WINDOW"
begin

lemma cases_act [consumes 0, case_names refused accepted]:
  assumes "fst (act s) = s \<Longrightarrow> \<not> is_ok (snd (act s)) \<Longrightarrow> P"
    and "\<And>r r' io. seed_record s sid = Some r \<Longrightarrow> nonce \<notin> set (sr_nonces r) \<Longrightarrow>
        sr_nonces r' = keep_last NONCE_MEMORY (sr_nonces r @ [nonce]) \<Longrightarrow>
        sr_mark r' = adv (sr_mark r) \<Longrightarrow> sr_keyFp r' = sr_keyFp r \<Longrightarrow>
        fst (act s) = save io (put_record s sid r') \<Longrightarrow> is_ok (snd (act s)) = io \<Longrightarrow> P"
  shows P
  using shape [of s] assms by blast

lemma replay_refused:
  "nonce \<in> set (nonces_in (mem s) sid) \<Longrightarrow> fst (act s) = s \<and> \<not> is_ok (snd (act s))"
  by (cases rule: cases_act [of s]) (auto dest: nonces_in_record)

lemma other_seed_kept:
  "sid' \<noteq> sid \<Longrightarrow> mark_in (mem (fst (act s))) sid' = mark_in (mem s) sid' \<and>
     nonces_in (mem (fst (act s))) sid' = nonces_in (mem s) sid'"
  by (cases rule: cases_act [of s]) (simp_all add: pads_store_simps)

lemma ok_is_durable: "is_ok (snd (act s)) \<Longrightarrow> disk_state (fst (act s)) = mem (fst (act s))"
  by (cases rule: cases_act [of s]) (simp_all add: pads_store_simps)

lemma nonce_remembered:
  "is_ok (snd (act s)) \<Longrightarrow> nonces_in (mem (fst (act s))) sid =
     keep_last NONCE_MEMORY (nonces_in (mem s) sid @ [nonce])"
  by (cases rule: cases_act [of s]) (simp_all add: pads_store_simps nonces_in_record)

lemma nonces_grow:
  "nonces_in (mem (fst (act s))) sid' = nonces_in (mem s) sid' \<or>
   nonces_in (mem (fst (act s))) sid' = keep_last NONCE_MEMORY (nonces_in (mem s) sid' @ [nonce])"
  by (cases rule: cases_act [of s]) (auto simp add: pads_store_simps nonces_in_record)

lemma mark_step:
  assumes "0 \<le> mark_in (mem s) sid'" "mark_in (mem s) sid' \<le> 2 ^ 53 - MAX_WINDOW"
  shows "mark_in (mem s) sid' \<le> mark_in (mem (fst (act s))) sid' \<and>
         mark_in (mem (fst (act s))) sid' \<le> mark_in (mem s) sid' + MAX_WINDOW"
proof (cases rule: cases_act [of s])
  case refused
  then show ?thesis by (simp add: MAX_WINDOW_def)
next
  case (accepted r r' io)
  show ?thesis
  proof (cases "sid' = sid")
    case True
    with accepted assms adv_bounds show ?thesis
      by (simp add: pads_store_simps mark_in_record)
  next
    case False
    with accepted show ?thesis
      by (simp add: pads_store_simps MAX_WINDOW_def)
  qed
qed

lemma disk_step:
  "disk_state (fst (act s)) = disk_state s \<or> disk_state (fst (act s)) = mem (fst (act s))"
  by (cases rule: cases_act [of s]) (simp_all add: pads_store_simps)

end

definition reserve_adv :: "int option \<Rightarrow> int \<Rightarrow> int" where
  "reserve_adv want m =
     (case want of None \<Rightarrow> m | Some w \<Rightarrow> if w < 1 \<or> w > MAX_WINDOW then m else js_add m w)"

text \<open>Each handler refuses with the store untouched, or accepts through every guard.\<close>

lemma pads_reserve_cases [case_names refused accepted]:
  obtains c e where "c \<noteq> 200" "pads_reserve cr hb now io name sid want nonce sg s = (s, Reply c (ErrorReply e))"
  | w t r r' where "want = Some w" "1 \<le> w" "w \<le> MAX_WINDOW" "good_seed_id sid"
      "caller_of cr hb name ''reserve'' [sid, show_int w] nonce sg = Inr t"
      "seed_record s sid = Some r" "sr_keyFp r = keyFp t" "nonce \<notin> set (sr_nonces r)"
      "r' = (use_nonce nonce r)\<lparr>sr_mark := js_add (sr_mark r) w, sr_updated := now\<rparr>"
      "pads_reserve cr hb now io name sid want nonce sg s =
         (save io (put_record s sid r'),
          if io then Reply 200 (WindowReply sid (sr_mark r) (js_add (sr_mark r) w) now
                 (hex_encode (ed_sign cr (ledgerKey (mem s))
                    (window_message sid (sr_mark r) (js_add (sr_mark r) w) now)))) else Throws)"
proof (cases "\<exists>w t r. want = Some w \<and> 1 \<le> w \<and> w \<le> MAX_WINDOW \<and> good_seed_id sid \<and>
      caller_of cr hb name ''reserve'' [sid, show_int w] nonce sg = Inr t \<and>
      seed_record s sid = Some r \<and> sr_keyFp r = keyFp t \<and> nonce \<notin> set (sr_nonces r)")
  case True
  then obtain w t r where g: "want = Some w" "1 \<le> w" "w \<le> MAX_WINDOW" "good_seed_id sid"
      "caller_of cr hb name ''reserve'' [sid, show_int w] nonce sg = Inr t"
      "seed_record s sid = Some r" "sr_keyFp r = keyFp t" "nonce \<notin> set (sr_nonces r)" by blast
  show thesis
    by (rule that(2) [OF g refl]) (use g in \<open>simp add: pads_reserve_def Let_def\<close>)
next
  case False
  then have "\<exists>c e. c \<noteq> 200 \<and> pads_reserve cr hb now io name sid want nonce sg s = (s, Reply c (ErrorReply e))"
    by (auto simp: pads_reserve_def Let_def not_less split: option.splits sum.splits)
  then show thesis using that(1) by blast
qed

lemma pads_receipt_cases [case_names refused accepted]:
  obtains c e where "c \<noteq> 200" "pads_receipt cr hb now io name sid pads tokens nonce sg s = (s, Reply c (ErrorReply e))"
  | p k t r u r' where "pads = Some p" "tokens = Some k" "is_safe_integer p" "is_safe_integer k"
      "0 \<le> p" "0 \<le> k" "good_seed_id sid"
      "caller_of cr hb name ''receipt'' [sid, show_int p, show_int k] nonce sg = Inr t"
      "seed_record s sid = Some r" "sr_keyFp r = keyFp t" "nonce \<notin> set (sr_nonces r)"
      "u = add_receipt p k now nonce (case sr_usage r of None \<Rightarrow> no_usage | Some u \<Rightarrow> u)"
      "r' = (use_nonce nonce r)\<lparr>sr_usage := Some u\<rparr>"
      "pads_receipt cr hb now io name sid pads tokens nonce sg s =
         (save io (put_record s sid r'),
          if io then Reply 200 (ReceiptReply sid (u_pads u) (u_tokens u) (u_runs u) now) else Throws)"
proof (cases "\<exists>p k t r. pads = Some p \<and> tokens = Some k \<and> is_safe_integer p \<and> is_safe_integer k \<and>
      0 \<le> p \<and> 0 \<le> k \<and> good_seed_id sid \<and>
      caller_of cr hb name ''receipt'' [sid, show_int p, show_int k] nonce sg = Inr t \<and>
      seed_record s sid = Some r \<and> sr_keyFp r = keyFp t \<and> nonce \<notin> set (sr_nonces r)")
  case True
  then obtain p k t r where g: "pads = Some p" "tokens = Some k" "is_safe_integer p" "is_safe_integer k"
      "0 \<le> p" "0 \<le> k" "good_seed_id sid"
      "caller_of cr hb name ''receipt'' [sid, show_int p, show_int k] nonce sg = Inr t"
      "seed_record s sid = Some r" "sr_keyFp r = keyFp t" "nonce \<notin> set (sr_nonces r)" by blast
  show thesis
    by (rule that(2) [OF g refl refl]) (use g in \<open>simp add: pads_receipt_def safe_count_def Let_def\<close>)
next
  case False
  then have "\<exists>c e. c \<noteq> 200 \<and> pads_receipt cr hb now io name sid pads tokens nonce sg s = (s, Reply c (ErrorReply e))"
    by (auto simp: pads_receipt_def safe_count_def Let_def split: option.splits sum.splits)
  then show thesis using that(1) by blast
qed

lemma use_nonce_sel [simp]:
  "sr_nonces (use_nonce n r) = keep_last NONCE_MEMORY (sr_nonces r @ [n])"
  "sr_keyFp (use_nonce n r) = sr_keyFp r" "sr_mark (use_nonce n r) = sr_mark r"
  "sr_usage (use_nonce n r) = sr_usage r" "sr_name (use_nonce n r) = sr_name r"
  by (simp_all add: use_nonce_def)

interpretation reserve_op: seed_op "pads_reserve cr hb now io name sid want nonce sg" sid nonce
  "reserve_adv want" for cr hb now io name sid want nonce sg
proof unfold_locales
  fix m :: int
  assume "0 \<le> m" "m \<le> 2 ^ 53 - MAX_WINDOW"
  then show "m \<le> reserve_adv want m \<and> reserve_adv want m \<le> m + MAX_WINDOW"
    by (cases want) (auto simp: reserve_adv_def MAX_WINDOW_def)
next
  fix s
  show "(fst (pads_reserve cr hb now io name sid want nonce sg s) = s \<and>
     \<not> is_ok (snd (pads_reserve cr hb now io name sid want nonce sg s))) \<or>
   (\<exists>r r' io'. seed_record s sid = Some r \<and> nonce \<notin> set (sr_nonces r) \<and>
      sr_nonces r' = keep_last NONCE_MEMORY (sr_nonces r @ [nonce]) \<and>
      sr_mark r' = reserve_adv want (sr_mark r) \<and> sr_keyFp r' = sr_keyFp r \<and>
      fst (pads_reserve cr hb now io name sid want nonce sg s) = save io' (put_record s sid r') \<and>
      is_ok (snd (pads_reserve cr hb now io name sid want nonce sg s)) = io')"
  proof (cases cr hb now io name sid want nonce sg s rule: pads_reserve_cases)
    case (refused c e)
    then show ?thesis by simp
  next
    case (accepted w t r r')
    then have "sr_nonces r' = keep_last NONCE_MEMORY (sr_nonces r @ [nonce])"
      "sr_mark r' = reserve_adv want (sr_mark r)" "sr_keyFp r' = sr_keyFp r"
      by (simp_all add: reserve_adv_def)
    with accepted show ?thesis
      by (intro disjI2 exI [of _ r] exI [of _ r'] exI [of _ io]) simp
  qed
qed

interpretation receipt_op: seed_op "pads_receipt cr hb now io name sid pads tokens nonce sg" sid nonce
  "\<lambda>m. m" for cr hb now io name sid pads tokens nonce sg
proof unfold_locales
  fix s
  show "(fst (pads_receipt cr hb now io name sid pads tokens nonce sg s) = s \<and>
     \<not> is_ok (snd (pads_receipt cr hb now io name sid pads tokens nonce sg s))) \<or>
   (\<exists>r r' io'. seed_record s sid = Some r \<and> nonce \<notin> set (sr_nonces r) \<and>
      sr_nonces r' = keep_last NONCE_MEMORY (sr_nonces r @ [nonce]) \<and>
      sr_mark r' = sr_mark r \<and> sr_keyFp r' = sr_keyFp r \<and>
      fst (pads_receipt cr hb now io name sid pads tokens nonce sg s) = save io' (put_record s sid r') \<and>
      is_ok (snd (pads_receipt cr hb now io name sid pads tokens nonce sg s)) = io')"
  proof (cases cr hb now io name sid pads tokens nonce sg s rule: pads_receipt_cases)
    case (refused c e)
    then show ?thesis by simp
  next
    case (accepted p k t r u r')
    then have "sr_nonces r' = keep_last NONCE_MEMORY (sr_nonces r @ [nonce])"
      "sr_mark r' = sr_mark r" "sr_keyFp r' = sr_keyFp r"
      by simp_all
    with accepted show ?thesis
      by (intro disjI2 exI [of _ r] exI [of _ r'] exI [of _ io]) simp
  qed
qed (simp add: MAX_WINDOW_def)

lemma pads_seed_effect:
  obtains "fst (pads_seed cr hb esk bn io name nonce sg s) = s"
  | sid r where "fst (pads_seed cr hb esk bn io name nonce sg s) = save io (put_record s sid r)"
      "sr_mark r = mark_in (mem s) sid" "sr_nonces r = nonces_in (mem s) sid"
proof (cases "caller_of cr hb name ''seed'' [] nonce sg")
  case (Inl e)
  then show thesis using that(1) by (simp add: pads_seed_def)
next
  case (Inr t)
  show thesis
  proof (cases "padKey t = []")
    case True
    with Inr show thesis using that(1) by (simp add: pads_seed_def)
  next
    case False
    obtain seed sid where d: "derive_seed cr (buffer_from_hex (master (mem s))) (keyFp t) PADS_EPOCH = (seed, sid)"
      by fastforce
    define r where "r = (case seed_record s sid of Some r \<Rightarrow> r | None \<Rightarrow> fresh_record name (keyFp t))"
    have "fst (pads_seed cr hb esk bn io name nonce sg s) = save io (put_record s sid (r\<lparr>sr_name := name\<rparr>))"
      using Inr False d by (simp add: pads_seed_def r_def Let_def split: option.splits)
    moreover have "sr_mark (r\<lparr>sr_name := name\<rparr>) = mark_in (mem s) sid"
      "sr_nonces (r\<lparr>sr_name := name\<rparr>) = nonces_in (mem s) sid"
      by (simp_all add: r_def mark_in_def nonces_in_def seed_record_def fresh_record_def split: option.splits)
    ultimately show thesis using that(2) by blast
  qed
qed

section \<open>Runs of the ledger, with restarts\<close>

text \<open>
  A run is a list of requests and restarts. A request carries everything that varies: the hub
  as it is then, the clock, the randomness and whether its save completes. A restart throws
  the memory away and boots from the file.
\<close>

datatype pads_event =
    EvSeed hub "nat list" "nat list" bool string string string
  | EvReserve hub int bool string string "int option" string string
  | EvReceipt hub int bool string string "int option" "int option" string string
  | EvRestart string "nat list" string

fun pads_step :: "'k crypto \<Rightarrow> pads_event \<Rightarrow> pads_store \<Rightarrow> pads_store \<times> outcome option" where
  "pads_step cr (EvSeed hb esk bn io name nonce sg) s =
     apsnd Some (pads_seed cr hb esk bn io name nonce sg s)"
| "pads_step cr (EvReserve hb now io name sid want nonce sg) s =
     apsnd Some (pads_reserve cr hb now io name sid want nonce sg s)"
| "pads_step cr (EvReceipt hb now io name sid pads tokens nonce sg) s =
     apsnd Some (pads_receipt cr hb now io name sid pads tokens nonce sg s)"
| "pads_step cr (EvRestart masterSeed rnd newKey) s =
     (case create_pads_ledger masterSeed rnd newKey True (disk s) of
        Some s' \<Rightarrow> (s', None)
      | None \<Rightarrow> (s, None))"

fun window_of :: "outcome option \<Rightarrow> (string \<times> int \<times> int) list" where
  "window_of (Some (Reply c (WindowReply sid lo hi iat wsig))) = (if c = 200 then [(sid, lo, hi)] else [])"
| "window_of _ = []"

fun pads_run :: "'k crypto \<Rightarrow> pads_event list \<Rightarrow> pads_store \<Rightarrow> pads_store" where
  "pads_run cr [] s = s"
| "pads_run cr (e # es) s = pads_run cr es (fst (pads_step cr e s))"

fun granted :: "'k crypto \<Rightarrow> pads_event list \<Rightarrow> pads_store \<Rightarrow> (string \<times> int \<times> int) list" where
  "granted cr [] s = []"
| "granted cr (e # es) s =
     window_of (snd (pads_step cr e s)) @ granted cr es (fst (pads_step cr e s))"

definition blank_store :: pads_store where
  "blank_store = \<lparr>mem = empty_state, disk = None\<rparr>"

lemma create_pads_ledger_some:
  obtains s' where "create_pads_ledger ms rnd nk True file = Some s'"
    "seeds (mem s') = seeds (case file of None \<Rightarrow> empty_state | Some d \<Rightarrow> d)" "disk s' = Some (mem s')"
  by (simp add: create_pads_ledger_def save_def Let_def)

lemma restart_store:
  "seeds (mem (fst (pads_step cr (EvRestart ms rnd nk) s))) = seeds (disk_state s)"
  "disk_state (fst (pads_step cr (EvRestart ms rnd nk) s)) = mem (fst (pads_step cr (EvRestart ms rnd nk) s))"
proof -
  obtain s' where c: "create_pads_ledger ms rnd nk True (disk s) = Some s'"
    "seeds (mem s') = seeds (case disk s of None \<Rightarrow> empty_state | Some d \<Rightarrow> d)" "disk s' = Some (mem s')"
    by (rule create_pads_ledger_some)
  then show "seeds (mem (fst (pads_step cr (EvRestart ms rnd nk) s))) = seeds (disk_state s)"
    "disk_state (fst (pads_step cr (EvRestart ms rnd nk) s)) = mem (fst (pads_step cr (EvRestart ms rnd nk) s))"
    by (simp_all add: disk_state_def)
qed

definition mark_inv :: "nat \<Rightarrow> pads_store \<Rightarrow> bool" where
  "mark_inv n s \<longleftrightarrow> (\<forall>sid. 0 \<le> mark_in (disk_state s) sid \<and>
     mark_in (disk_state s) sid \<le> mark_in (mem s) sid \<and> mark_in (mem s) sid \<le> MAX_WINDOW * int n)"

lemma mark_inv_blank: "mark_inv 0 blank_store"
  by (simp add: mark_inv_def blank_store_def disk_state_def empty_state_def mark_in_def)

lemma mark_inv_bound: "mark_inv n s \<Longrightarrow> n < 2 ^ 41 \<Longrightarrow> mark_in (mem s) sid \<le> 2 ^ 53 - MAX_WINDOW"
proof -
  assume i: "mark_inv n s" and n: "n < 2 ^ 41"
  have "mark_in (mem s) sid \<le> MAX_WINDOW * int n" using i by (simp add: mark_inv_def)
  moreover have "int n < int (2 ^ 41)" using n by (simp only: of_nat_less_iff)
  then have "int n < 2199023255552" by simp
  ultimately show ?thesis by (simp add: MAX_WINDOW_def)
qed

definition mark_step_ok :: "pads_store \<Rightarrow> pads_store \<Rightarrow> bool" where
  "mark_step_ok s s' \<longleftrightarrow>
     (\<forall>sid. mark_in (mem s') sid \<le> mark_in (mem s) sid + MAX_WINDOW) \<and>
     (\<forall>sid. mark_in (disk_state s) sid \<le> mark_in (disk_state s') sid \<and>
            mark_in (disk_state s') sid \<le> mark_in (mem s') sid)"

lemma mark_step_ok_inv: "mark_inv n s \<Longrightarrow> mark_step_ok s s' \<Longrightarrow> mark_inv (Suc n) s'"
  unfolding mark_inv_def mark_step_ok_def
proof (intro allI)
  fix sid
  assume a: "\<forall>sid. 0 \<le> mark_in (disk_state s) sid \<and> mark_in (disk_state s) sid \<le> mark_in (mem s) sid \<and>
       mark_in (mem s) sid \<le> MAX_WINDOW * int n"
    and b: "(\<forall>sid. mark_in (mem s') sid \<le> mark_in (mem s) sid + MAX_WINDOW) \<and>
       (\<forall>sid. mark_in (disk_state s) sid \<le> mark_in (disk_state s') sid \<and>
          mark_in (disk_state s') sid \<le> mark_in (mem s') sid)"
  have "MAX_WINDOW * int (Suc n) = MAX_WINDOW * int n + MAX_WINDOW"
    by (simp add: algebra_simps)
  with a b show "0 \<le> mark_in (disk_state s') sid \<and> mark_in (disk_state s') sid \<le> mark_in (mem s') sid \<and>
       mark_in (mem s') sid \<le> MAX_WINDOW * int (Suc n)"
    by (smt (verit) a b)
qed

context seed_op begin

lemma act_mark_step:
  assumes "mark_inv n s" "n < 2 ^ 41"
  shows "mark_step_ok s (fst (act s))"
proof -
  have m: "mark_in (mem s) sid' \<le> mark_in (mem (fst (act s))) sid' \<and>
     mark_in (mem (fst (act s))) sid' \<le> mark_in (mem s) sid' + MAX_WINDOW" for sid'
    using assms mark_inv_bound [OF assms] by (intro mark_step) (auto simp: mark_inv_def intro: order_trans)
  have d: "mark_in (disk_state s) sid' \<le> mark_in (mem s) sid'" for sid'
    using assms(1) by (simp add: mark_inv_def)
  from disk_step [of s] show ?thesis
  proof
    assume e: "disk_state (fst (act s)) = disk_state s"
    show ?thesis unfolding mark_step_ok_def e
      by (intro conjI allI) (use m in blast, rule order_refl, meson m d order_trans)
  next
    assume e: "disk_state (fst (act s)) = mem (fst (act s))"
    show ?thesis unfolding mark_step_ok_def e
      by (intro conjI allI) (use m in blast, meson m d order_trans, rule order_refl)
  qed
qed

end

lemma pads_step_mark:
  assumes i: "mark_inv n s" and n: "n < 2 ^ 41"
  shows "mark_step_ok s (fst (pads_step cr e s))"
proof (cases e)
  case (EvSeed hb esk bn io name nonce sg)
  show ?thesis
  proof (cases cr hb esk bn io name nonce sg s rule: pads_seed_effect)
    case 1
    with EvSeed i show ?thesis by (simp add: mark_step_ok_def mark_inv_def MAX_WINDOW_def)
  next
    case (2 sid r)
    then have "mark_in (mem (fst (pads_step cr e s))) sid' = mark_in (mem s) sid'" for sid'
      using EvSeed by (simp add: pads_store_simps)
    moreover have "disk_state (fst (pads_step cr e s)) = (if io then mem (fst (pads_step cr e s)) else disk_state s)"
      by (simp only: EvSeed pads_step.simps fst_apsnd 2(1) mem_save disk_state_save disk_put_record)
    ultimately show ?thesis using i by (simp add: mark_step_ok_def mark_inv_def MAX_WINDOW_def)
  qed
next
  case (EvReserve hb now io name sid want nonce sg)
  then show ?thesis using reserve_op.act_mark_step [OF assms] by simp
next
  case (EvReceipt hb now io name sid pads tokens nonce sg)
  then show ?thesis using receipt_op.act_mark_step [OF assms] by simp
next
  case (EvRestart ms rnd nk)
  then have "seeds (mem (fst (pads_step cr e s))) = seeds (disk_state s)"
    "disk_state (fst (pads_step cr e s)) = mem (fst (pads_step cr e s))"
    using restart_store by simp_all
  then have "mark_in (mem (fst (pads_step cr e s))) sid = mark_in (disk_state s) sid" for sid
    by (simp add: mark_in_def)
  with i EvRestart \<open>disk_state _ = mem _\<close> show ?thesis
    by (auto simp: mark_step_ok_def mark_inv_def MAX_WINDOW_def intro: order_trans add_increasing2)
qed

lemma pads_step_inv: "mark_inv n s \<Longrightarrow> n < 2 ^ 41 \<Longrightarrow> mark_inv (Suc n) (fst (pads_step cr e s))"
  using pads_step_mark mark_step_ok_inv by blast

lemma pads_step_window:
  assumes i: "mark_inv n s" and n: "n < 2 ^ 41"
    and w: "(sid, lo, hi) \<in> set (window_of (snd (pads_step cr e s)))"
  shows "mark_in (disk_state s) sid \<le> lo \<and> lo < hi \<and>
     hi = mark_in (disk_state (fst (pads_step cr e s))) sid"
proof -
  obtain hb now io name sid' want nonce sg where e: "e = EvReserve hb now io name sid' want nonce sg"
  proof (cases e)
    case (EvSeed hb esk bn io name nonce sg)
    with w have False
      by (auto simp: pads_seed_def Let_def split: sum.splits if_splits option.splits prod.splits)
    then show ?thesis ..
  next
    case (EvReceipt hb now io name sid pads tokens nonce sg)
    with w have False
      by (cases cr hb now io name sid pads tokens nonce sg s rule: pads_receipt_cases)
        (auto split: if_splits)
    then show ?thesis ..
  next
    case (EvRestart ms rnd nk)
    with w have False by (auto split: option.splits)
    then show ?thesis ..
  qed (rule that)
  show ?thesis
  proof (cases cr hb now io name sid' want nonce sg s rule: pads_reserve_cases)
    case (refused c e')
    with w e show ?thesis by simp
  next
    case (accepted wv t r r')
    have b: "mark_in (mem s) sid' \<le> 2 ^ 53 - MAX_WINDOW" using mark_inv_bound [OF i n] .
    have z: "0 \<le> mark_in (disk_state s) sid'" "mark_in (disk_state s) sid' \<le> mark_in (mem s) sid'"
      using i by (simp_all add: mark_inv_def)
    have m: "mark_in (mem s) sid' = sr_mark r" using accepted by (simp add: mark_in_record)
    have x: "js_add (sr_mark r) wv = sr_mark r + wv"
      using b z m accepted by (intro js_add_exact) (simp add: MAX_WINDOW_def)
    show ?thesis
    proof (cases io)
      case True
      with w e accepted have "sid = sid'" "lo = sr_mark r" "hi = js_add (sr_mark r) wv" by simp_all
      with True accepted e x z m show ?thesis by (simp add: pads_store_simps)
    next
      case False
      with w e accepted show ?thesis by simp
    qed
  qed
qed

lemma window_of_single: "length (window_of out) \<le> 1"
  by (induction out rule: window_of.induct) simp_all

definition window_before :: "string \<times> int \<times> int \<Rightarrow> string \<times> int \<times> int \<Rightarrow> bool" where
  "window_before v w \<longleftrightarrow> (fst v = fst w \<longrightarrow> snd (snd v) \<le> fst (snd w))"

lemma granted_above_disk:
  assumes "mark_inv n s" "n + length evs \<le> 2 ^ 41" "(sid, lo, hi) \<in> set (granted cr evs s)"
  shows "mark_in (disk_state s) sid \<le> lo \<and> lo < hi"
  using assms
proof (induction evs arbitrary: s n)
  case Nil
  then show ?case by simp
next
  case (Cons e es)
  let ?s' = "fst (pads_step cr e s)"
  have n: "n < 2 ^ 41" using Cons.prems(2) by simp
  have step: "mark_in (disk_state s) sid \<le> mark_in (disk_state ?s') sid"
    using pads_step_mark [OF Cons.prems(1) n, of cr e] by (simp add: mark_step_ok_def)
  show ?case
  proof (cases "(sid, lo, hi) \<in> set (granted cr es ?s')")
    case True
    then have "mark_in (disk_state ?s') sid \<le> lo \<and> lo < hi"
      using Cons.IH [OF pads_step_inv [OF Cons.prems(1) n, of cr e]] Cons.prems(2) by simp
    with step show ?thesis by linarith
  next
    case False
    with Cons.prems(3) have "(sid, lo, hi) \<in> set (window_of (snd (pads_step cr e s)))"
      by (simp del: pads_step.simps)
    with pads_step_window [OF Cons.prems(1) n] show ?thesis by blast
  qed
qed

lemma granted_ordered:
  assumes "mark_inv n s" "n + length evs \<le> 2 ^ 41"
  shows "sorted_wrt window_before (granted cr evs s)"
  using assms
proof (induction evs arbitrary: s n)
  case Nil
  then show ?case by simp
next
  case (Cons e es)
  let ?s' = "fst (pads_step cr e s)"
  let ?w = "window_of (snd (pads_step cr e s))"
  have n: "n < 2 ^ 41" using Cons.prems(2) by simp
  have i': "mark_inv (Suc n) ?s'" using pads_step_inv [OF Cons.prems(1) n] .
  have "sorted_wrt window_before (granted cr es ?s')"
    using Cons.IH [OF i'] Cons.prems(2) by simp
  moreover have "window_before v w" if "v \<in> set ?w" "w \<in> set (granted cr es ?s')" for v w
    using pads_step_window [OF Cons.prems(1) n, of "fst v" "fst (snd v)" "snd (snd v)" cr e]
      granted_above_disk [OF i', of es "fst w" "fst (snd w)" "snd (snd w)" cr] that Cons.prems(2)
    by (simp add: window_before_def)
  moreover have "sorted_wrt window_before ?w"
    using window_of_single [of "snd (pads_step cr e s)"] by (cases ?w) auto
  ultimately show ?case by (simp add: sorted_wrt_append del: pads_step.simps)
qed

section \<open>Replay memory over a run\<close>

text \<open>\<open>recent k x xs\<close>: at most \<open>k\<close> entries were logged after some \<open>x\<close>.\<close>

definition recent :: "nat \<Rightarrow> 'a \<Rightarrow> 'a list \<Rightarrow> bool" where
  "recent k x xs \<longleftrightarrow> x \<in> set (keep_last (Suc k) xs)"

lemma recent_mem: "recent k x xs \<Longrightarrow> x \<in> set xs"
  unfolding recent_def by (rule subsetD [OF set_keep_last])

lemma recent_mono: "recent k x xs \<Longrightarrow> k \<le> k' \<Longrightarrow> recent k' x xs"
  unfolding recent_def using set_keep_last_mono [of "Suc k" "Suc k'" xs] by auto

lemma recent_snoc: "recent 0 x (xs @ [x])"
  by (simp add: recent_def keep_last_snoc)

lemma recent_keep_last: "recent k x xs \<Longrightarrow> k < n \<Longrightarrow> recent k x (keep_last n xs)"
  by (simp add: recent_def keep_last_keep_last min_def)

lemma recent_append: "recent k x xs \<Longrightarrow> recent (Suc k) x (xs @ [y])"
  by (simp add: recent_def keep_last_snoc)

definition nonce_held :: "nat \<Rightarrow> string \<Rightarrow> string \<Rightarrow> pads_store \<Rightarrow> bool" where
  "nonce_held k sid n s \<longleftrightarrow> recent k n (nonces_in (mem s) sid) \<and> recent k n (nonces_in (disk_state s) sid)"

context seed_op begin

lemma nonce_held_act:
  assumes h: "nonce_held k sid' n s" and k: "Suc k < NONCE_MEMORY"
  shows "nonce_held (Suc k) sid' n (fst (act s))"
proof -
  have m: "recent k n (nonces_in (mem s) sid')" and d: "recent k n (nonces_in (disk_state s) sid')"
    using h by (simp_all add: nonce_held_def)
  have m': "recent (Suc k) n (nonces_in (mem (fst (act s))) sid')"
    using nonces_grow [of s sid']
  proof
    assume "nonces_in (mem (fst (act s))) sid' = nonces_in (mem s) sid'"
    with recent_mono [OF m, of "Suc k"] show ?thesis by simp
  next
    assume "nonces_in (mem (fst (act s))) sid' = keep_last NONCE_MEMORY (nonces_in (mem s) sid' @ [nonce])"
    with recent_keep_last [OF recent_append [OF m] k] show ?thesis by simp
  qed
  moreover have "recent (Suc k) n (nonces_in (disk_state (fst (act s))) sid')"
    using disk_step [of s] m' recent_mono [OF d, of "Suc k"] by auto
  ultimately show ?thesis by (simp add: nonce_held_def)
qed

lemma nonce_held_after_ok:
  assumes "is_ok (snd (act s))"
  shows "nonce_held 0 sid nonce (fst (act s))"
proof -
  have "recent 0 nonce (nonces_in (mem (fst (act s))) sid)"
    using nonce_remembered [OF assms] recent_keep_last [OF recent_snoc, of NONCE_MEMORY]
    by (simp add: NONCE_MEMORY_def)
  then show ?thesis using ok_is_durable [OF assms] by (simp add: nonce_held_def)
qed

lemma held_is_refused: "nonce_held k sid nonce s \<Longrightarrow> \<not> is_ok (snd (act s))"
  using replay_refused [of s] recent_mem [of k nonce] by (auto simp: nonce_held_def)

end

lemma pads_step_held:
  assumes h: "nonce_held k sid n s" and k: "Suc k < NONCE_MEMORY"
  shows "nonce_held (Suc k) sid n (fst (pads_step cr e s))"
proof (cases e)
  case (EvSeed hb esk bn io name nonce sg)
  have k': "k \<le> Suc k" by simp
  have m: "nonces_in (mem (fst (pads_step cr e s))) sid = nonces_in (mem s) sid"
    and d: "nonces_in (disk_state (fst (pads_step cr e s))) sid = nonces_in (disk_state s) sid \<or>
       nonces_in (disk_state (fst (pads_step cr e s))) sid = nonces_in (mem s) sid"
    by (cases cr hb esk bn io name nonce sg s rule: pads_seed_effect;
        simp add: EvSeed pads_store_simps)+
  from h m d show ?thesis
    unfolding nonce_held_def using recent_mono [OF _ k'] by metis
next
  case (EvReserve hb now io name sid' want nonce sg)
  then show ?thesis using reserve_op.nonce_held_act [OF assms] by simp
next
  case (EvReceipt hb now io name sid' pads tokens nonce sg)
  then show ?thesis using receipt_op.nonce_held_act [OF assms] by simp
next
  case (EvRestart ms rnd nk)
  have "nonces_in (mem (fst (pads_step cr e s))) sid = nonces_in (disk_state s) sid"
    using restart_store(1) [of cr ms rnd nk s] EvRestart by (simp add: nonces_in_def)
  moreover have "disk_state (fst (pads_step cr e s)) = mem (fst (pads_step cr e s))"
    using restart_store(2) EvRestart by simp
  ultimately show ?thesis
    using h recent_mono [of k n _ "Suc k"] by (simp add: nonce_held_def)
qed

lemma pads_run_held:
  assumes "nonce_held k sid n s" "k + length evs < NONCE_MEMORY"
  shows "\<exists>k'. nonce_held k' sid n (pads_run cr evs s)"
  using assms
proof (induction evs arbitrary: k s)
  case Nil
  then show ?case by auto
next
  case (Cons e es)
  have "nonce_held (Suc k) sid n (fst (pads_step cr e s))"
    using Cons.prems by (intro pads_step_held) simp_all
  then have "\<exists>k'. nonce_held k' sid n (pads_run cr es (fst (pads_step cr e s)))"
    by (rule Cons.IH) (use Cons.prems in simp)
  then show ?case by simp
qed

section \<open>What the receipts add up to\<close>

fun receipt_of :: "pads_event \<Rightarrow> outcome option \<Rightarrow> (string \<times> int \<times> int) list" where
  "receipt_of (EvReceipt hb now io name sid (Some p) (Some k) nonce sg) (Some (Reply c b)) =
     (if c = 200 then [(sid, p, k)] else [])"
| "receipt_of _ _ = []"

fun billed :: "'k crypto \<Rightarrow> pads_event list \<Rightarrow> pads_store \<Rightarrow> (string \<times> int \<times> int) list" where
  "billed cr [] s = []"
| "billed cr (e # es) s =
     receipt_of e (snd (pads_step cr e s)) @ billed cr es (fst (pads_step cr e s))"

fun io_completes :: "pads_event \<Rightarrow> bool" where
  "io_completes (EvSeed hb esk bn io name nonce sg) = io"
| "io_completes (EvReserve hb now io name sid want nonce sg) = io"
| "io_completes (EvReceipt hb now io name sid pads tokens nonce sg) = io"
| "io_completes (EvRestart ms rnd nk) = True"

definition usage_in :: "pads_state \<Rightarrow> string \<Rightarrow> usage" where
  "usage_in d sid = (case map_of (seeds d) sid of None \<Rightarrow> no_usage
     | Some r \<Rightarrow> (case sr_usage r of None \<Rightarrow> no_usage | Some u \<Rightarrow> u))"

definition sum_for :: "(int \<times> int \<Rightarrow> int) \<Rightarrow> string \<Rightarrow> (string \<times> int \<times> int) list \<Rightarrow> int" where
  "sum_for f sid rs = sum_list (map (\<lambda>(_, pk). f pk) (filter (\<lambda>(s, _). s = sid) rs))"

lemma sum_for_simps [simp]:
  "sum_for f sid [] = 0"
  "sum_for f sid ((s, pk) # rs) = (if s = sid then f pk else 0) + sum_for f sid rs"
  "sum_for f sid (rs @ rs') = sum_for f sid rs + sum_for f sid rs'"
  by (simp_all add: sum_for_def)

lemma usage_in_put [pads_store_simps]:
  "usage_in (mem (put_record s sid r)) sid' =
     (if sid' = sid then (case sr_usage r of None \<Rightarrow> no_usage | Some u \<Rightarrow> u) else usage_in (mem s) sid')"
  by (simp add: usage_in_def seeds_put_record)

lemma usage_in_record:
  "seed_record s sid = Some r \<Longrightarrow> usage_in (mem s) sid = (case sr_usage r of None \<Rightarrow> no_usage | Some u \<Rightarrow> u)"
  by (simp add: seed_record_def usage_in_def)

lemma billed_nonneg:
  assumes "(sid, p, k) \<in> set (receipt_of e (snd (pads_step cr e s)))"
  shows "0 \<le> p \<and> 0 \<le> k"
proof -
  obtain hb now io name nonce sg where e: "e = EvReceipt hb now io name sid (Some p) (Some k) nonce sg"
    using assms by (cases "(e, snd (pads_step cr e s))" rule: receipt_of.cases)
      (auto simp: apsnd_def map_prod_def split: if_splits prod.splits)
  show ?thesis
  proof (cases cr hb now io name sid "Some p" "Some k" nonce sg s rule: pads_receipt_cases)
    case (refused c e')
    with assms e show ?thesis by simp
  next
    case (accepted p' k' t r u r')
    then show ?thesis by simp
  qed
qed

definition synced :: "pads_store \<Rightarrow> bool" where
  "synced s \<longleftrightarrow> seeds (disk_state s) = seeds (mem s)"

definition adds_to :: "(string \<times> int \<times> int) list \<Rightarrow> string \<Rightarrow> usage \<Rightarrow> usage \<Rightarrow> bool" where
  "adds_to rs sid u u' \<longleftrightarrow>
     (case rs of
        [] \<Rightarrow> u' = u
      | (s, p, k) # _ \<Rightarrow> if s = sid then u_pads u' = js_add (u_pads u) p \<and> u_tokens u' = js_add (u_tokens u) k
                         else u' = u)"

lemma receipt_of_other:
  "(\<And>hb now io name sid p k nonce sg. e \<noteq> EvReceipt hb now io name sid (Some p) (Some k) nonce sg) \<Longrightarrow>
     receipt_of e out = []"
  by (cases "(e, out)" rule: receipt_of.cases) auto

lemma put_record_usage:
  assumes "s' = save io (put_record s sid r)" "seed_record s sid = Some r0 \<or> seed_record s sid = None"
    "sr_usage r = (case seed_record s sid of None \<Rightarrow> None | Some r0 \<Rightarrow> sr_usage r0)"
  shows "usage_in (mem s') sid' = usage_in (mem s) sid'"
  using assms by (auto simp: pads_store_simps usage_in_def seed_record_def)

lemma pads_seed_usage:
  "usage_in (mem (fst (pads_seed cr hb esk bn io name nonce sg s))) sid = usage_in (mem s) sid \<and>
   (io \<longrightarrow> synced s \<longrightarrow> synced (fst (pads_seed cr hb esk bn io name nonce sg s)))"
proof (cases "caller_of cr hb name ''seed'' [] nonce sg")
  case (Inl e)
  then show ?thesis by (simp add: pads_seed_def)
next
  case (Inr t)
  show ?thesis
  proof (cases "padKey t = []")
    case True
    with Inr show ?thesis by (simp add: pads_seed_def)
  next
    case False
    obtain seed sid' where d: "derive_seed cr (buffer_from_hex (master (mem s))) (keyFp t) PADS_EPOCH = (seed, sid')"
      by fastforce
    define r where "r = (case seed_record s sid' of Some r \<Rightarrow> r | None \<Rightarrow> fresh_record name (keyFp t))"
    have f: "fst (pads_seed cr hb esk bn io name nonce sg s) = save io (put_record s sid' (r\<lparr>sr_name := name\<rparr>))"
      using Inr False d by (simp add: pads_seed_def r_def Let_def split: option.splits)
    have "usage_in (mem (fst (pads_seed cr hb esk bn io name nonce sg s))) sid = usage_in (mem s) sid"
      unfolding f by (auto simp: r_def pads_store_simps usage_in_def seed_record_def fresh_record_def split: option.splits)
    moreover have "io \<Longrightarrow> synced (save io (put_record s sid' (r\<lparr>sr_name := name\<rparr>)))"
      by (simp add: synced_def pads_store_simps)
    ultimately show ?thesis by (metis f)
  qed
qed

lemma pads_reserve_usage:
  "usage_in (mem (fst (pads_reserve cr hb now io name sid' want nonce sg s))) sid = usage_in (mem s) sid \<and>
   (io \<longrightarrow> synced s \<longrightarrow> synced (fst (pads_reserve cr hb now io name sid' want nonce sg s)))"
  by (cases cr hb now io name sid' want nonce sg s rule: pads_reserve_cases)
    (auto simp: pads_store_simps usage_in_record synced_def)

lemma pads_receipt_usage:
  assumes io
  shows "adds_to (receipt_of (EvReceipt hb now io name sid' pads tokens nonce sg)
        (Some (snd (pads_receipt cr hb now io name sid' pads tokens nonce sg s)))) sid
      (usage_in (mem s) sid) (usage_in (mem (fst (pads_receipt cr hb now io name sid' pads tokens nonce sg s))) sid) \<and>
    (synced s \<longrightarrow> synced (fst (pads_receipt cr hb now io name sid' pads tokens nonce sg s)))"
proof (cases cr hb now io name sid' pads tokens nonce sg s rule: pads_receipt_cases)
  case (refused c e)
  then show ?thesis by (cases pads; cases tokens) (simp_all add: adds_to_def)
next
  case (accepted p k t r u r')
  then show ?thesis using assms
    by (auto simp: pads_store_simps usage_in_record synced_def adds_to_def add_receipt_def)
qed

lemma pads_step_usage:
  assumes "io_completes e" "synced s"
  shows "adds_to (receipt_of e (snd (pads_step cr e s))) sid
           (usage_in (mem s) sid) (usage_in (mem (fst (pads_step cr e s))) sid) \<and>
         synced (fst (pads_step cr e s))"
proof (cases e)
  case (EvSeed hb esk bn io name nonce sg)
  then show ?thesis using assms pads_seed_usage [of cr hb esk bn io name nonce sg s sid]
    by (simp add: adds_to_def)
next
  case (EvReserve hb now io name sid' want nonce sg)
  then show ?thesis using assms pads_reserve_usage [of cr hb now io name sid' want nonce sg s sid]
    by (simp add: adds_to_def)
next
  case (EvReceipt hb now io name sid' pads tokens nonce sg)
  then show ?thesis using assms pads_receipt_usage [of io hb now name sid' pads tokens nonce sg cr s sid]
    by simp
next
  case (EvRestart ms rnd nk)
  have "seeds (mem (fst (pads_step cr e s))) = seeds (mem s)"
    using restart_store(1) [of cr ms rnd nk s] assms EvRestart by (simp add: synced_def)
  moreover have "disk_state (fst (pads_step cr e s)) = mem (fst (pads_step cr e s))"
    using restart_store(2) EvRestart by simp
  ultimately show ?thesis using EvRestart
    by (simp add: adds_to_def usage_in_def synced_def)
qed

lemma receipt_of_single: "receipt_of e out = [] \<or> (\<exists>s p k. receipt_of e out = [(s, p, k)])"
  by (cases "(e, out)" rule: receipt_of.cases) auto

lemma sum_for_billed_nonneg: "0 \<le> sum_for fst sid (billed cr evs s) \<and> 0 \<le> sum_for snd sid (billed cr evs s)"
proof (induction evs arbitrary: s)
  case Nil
  then show ?case by simp
next
  case (Cons e es)
  from receipt_of_single [of e "snd (pads_step cr e s)"] show ?case
  proof (elim disjE exE)
    assume "receipt_of e (snd (pads_step cr e s)) = []"
    with Cons show ?thesis by simp
  next
    fix s' p k assume r: "receipt_of e (snd (pads_step cr e s)) = [(s', p, k)]"
    then have "0 \<le> p \<and> 0 \<le> k" by (intro billed_nonneg [of s' p k e cr s]) simp
    with Cons [of "fst (pads_step cr e s)"] r show ?thesis by simp
  qed
qed

lemma pads_run_usage:
  assumes "list_all io_completes evs" "synced s"
    and "0 \<le> u_pads (usage_in (mem s) sid)" "0 \<le> u_tokens (usage_in (mem s) sid)"
    and "u_pads (usage_in (mem s) sid) + sum_for fst sid (billed cr evs s) \<le> 2 ^ 53"
    and "u_tokens (usage_in (mem s) sid) + sum_for snd sid (billed cr evs s) \<le> 2 ^ 53"
  shows "u_pads (usage_in (mem (pads_run cr evs s)) sid)
           = u_pads (usage_in (mem s) sid) + sum_for fst sid (billed cr evs s) \<and>
         u_tokens (usage_in (mem (pads_run cr evs s)) sid)
           = u_tokens (usage_in (mem s) sid) + sum_for snd sid (billed cr evs s)"
  using assms
proof (induction evs arbitrary: s)
  case Nil
  then show ?case by simp
next
  case (Cons e es)
  let ?s' = "fst (pads_step cr e s)" and ?r = "receipt_of e (snd (pads_step cr e s))"
  let ?u = "usage_in (mem s) sid" and ?u' = "usage_in (mem (fst (pads_step cr e s))) sid"
  have st: "adds_to ?r sid ?u ?u'" and sy: "synced ?s'"
    using pads_step_usage [of e s cr sid] Cons.prems by simp_all
  have n: "0 \<le> sum_for fst sid (billed cr es ?s') \<and> 0 \<le> sum_for snd sid (billed cr es ?s')"
    by (rule sum_for_billed_nonneg)
  have "u_pads ?u' = u_pads ?u + sum_for fst sid ?r \<and> u_tokens ?u' = u_tokens ?u + sum_for snd sid ?r \<and>
      0 \<le> sum_for fst sid ?r \<and> 0 \<le> sum_for snd sid ?r"
    using receipt_of_single [of e "snd (pads_step cr e s)"]
  proof (elim disjE exE)
    assume "?r = []"
    with st show ?thesis by (simp add: adds_to_def)
  next
    fix s'' p k assume r: "?r = [(s'', p, k)]"
    then have "0 \<le> p \<and> 0 \<le> k" by (intro billed_nonneg [of s'' p k e cr s]) simp
    with r st n Cons.prems show ?thesis
      by (cases "s'' = sid") (simp_all add: adds_to_def)
  qed
  moreover have "list_all io_completes es" using Cons.prems by simp
  ultimately show ?case using Cons.IH [OF _ sy] Cons.prems by simp
qed

section \<open>Who may use a signature\<close>

lemma join_lines_tail_inject:
  assumes "list_all no_newline fs" "list_all no_newline gs" "length fs = length gs"
    and "join_lines (a # fs) = join_lines (b # gs)"
  shows "a = b \<and> fs = gs"
  using assms
proof (induction fs arbitrary: gs rule: rev_induct)
  case Nil
  then show ?case by simp
next
  case (snoc x xs)
  then obtain ys y where g: "gs = ys @ [y]"
    by (metis append_Nil2 append_eq_append_conv length_0_conv rev_exhaust snoc_eq_iff_butlast)
  have e: "join_lines (a # xs) @ newline # x = join_lines (b # ys) @ newline # y"
    using snoc.prems(4) join_lines_snoc [of "a # xs" x] join_lines_snoc [of "b # ys" y] g by simp
  have "join_lines (a # xs) = join_lines (b # ys) \<and> x = y"
    by (rule append_newline_cancel_last [OF _ _ e]) (use snoc.prems g in simp_all)
  with snoc.IH [of ys] snoc.prems g show ?case by simp
qed

lemma join_lines_head:
  "xs \<noteq> [] \<Longrightarrow> join_lines (x # xs) = x @ newline # join_lines xs"
  by (cases xs) simp_all

lemma signed_message_kind:
  assumes "signed_message k fs = signed_message k' gs" "no_newline k" "no_newline k'" "fs \<noteq> []" "gs \<noteq> []"
  shows "k = k' \<and> join_lines fs = join_lines gs"
proof -
  have p: "no_newline (''enclave-pads-'' @ k)" "no_newline (''enclave-pads-'' @ k')"
    using assms(2,3) by (auto simp: no_newline_def newline_def)
  have "(''enclave-pads-'' @ k) @ newline # join_lines fs = (''enclave-pads-'' @ k') @ newline # join_lines gs"
    using assms(1) by (simp only: signed_message_def join_lines_head [OF assms(4)] join_lines_head [OF assms(5)])
  from append_newline_cancel [OF p this] show ?thesis by simp
qed

section \<open>A concrete instance, for the examples\<close>

text \<open>
  Stand-ins for the primitives that make every run computable: any key parses, a signature is
  good when it is not empty, a derived key is a constant of the length asked for.
\<close>

definition demo_crypto :: "string crypto" where
  "demo_crypto = \<lparr>parse_spki = Some, is_ed25519 = (\<lambda>k. True), ed_verify = (\<lambda>alg msg k sg. sg \<noteq> []),
     ed_sign = (\<lambda>k msg. [1, 2]), hkdf_sha512 = (\<lambda>m fp label n. if n = 16 then [22, 22, 22, 22, 22, 22, 22, 22, 22, 22, 22, 22, 22, 22, 22, 22] else [7]),
     x25519_public = (\<lambda>k. k), x25519_shared = (\<lambda>a b. a), chacha20_poly1305 = (\<lambda>k n p. p)\<rparr>"

definition demo_tunnel :: tunnel where
  "demo_tunnel = \<lparr>spki = ''k'', keyFp = ''ab'',
     padKey = ''0707070707070707070707070707070707070707070707070707070707070707''\<rparr>"

definition demo_hub :: hub where
  "demo_hub = \<lparr>info = (\<lambda>n. if n = ''pvm'' then Some demo_tunnel else None), origins = [''pvm'']\<rparr>"

definition demo_seed_id :: string where
  "demo_seed_id = ''16161616161616161616161616161616''"

definition nonce_a :: string where "nonce_a = ''aaaaaaaaaaaaaaaaaaaaaaaaaaaaaaaa''"
definition nonce_b :: string where "nonce_b = ''bbbbbbbbbbbbbbbbbbbbbbbbbbbbbbbb''"
definition nonce_c :: string where "nonce_c = ''cccccccccccccccccccccccccccccccc''"

definition demo_seed_event :: pads_event where
  "demo_seed_event = EvSeed demo_hub [9] [2] True ''pvm'' nonce_a ''01''"

definition demo_reserve :: "int \<Rightarrow> string \<Rightarrow> pads_event" where
  "demo_reserve w n = EvReserve demo_hub 7 True ''pvm'' demo_seed_id (Some w) n ''01''"

definition demo_receipt :: "int \<Rightarrow> int \<Rightarrow> string \<Rightarrow> pads_event" where
  "demo_receipt p k n = EvReceipt demo_hub 9 True ''pvm'' demo_seed_id (Some p) (Some k) n ''01''"

lemma demo_nonces [simp]: "good_nonce nonce_a" "good_nonce nonce_b" "good_nonce nonce_c"
  by (simp_all add: good_nonce_def hex_str_def nonce_a_def nonce_b_def nonce_c_def is_hex_def)

lemma demo_distinct [simp]: "nonce_a \<noteq> nonce_b" "nonce_b \<noteq> nonce_a" "nonce_b \<noteq> nonce_c" "nonce_c \<noteq> nonce_b"
  "nonce_a \<noteq> nonce_c" "nonce_c \<noteq> nonce_a"
  by (simp_all add: nonce_a_def nonce_b_def nonce_c_def)

lemma demo_good_seed [simp]: "good_seed_id demo_seed_id"
  by (simp add: good_seed_id_def hex_str_def demo_seed_id_def is_hex_def)

lemma demo_caller [simp]:
  "good_nonce n \<Longrightarrow> caller_of demo_crypto demo_hub ''pvm'' kind fs n ''01'' = Inr demo_tunnel"
  by (simp add: caller_of_def demo_hub_def demo_tunnel_def demo_crypto_def hex_val_def Let_def)

lemma demo_derive [simp]:
  "derive_seed demo_crypto m fp PADS_EPOCH =
     ([7], demo_seed_id)"
  by (simp add: derive_seed_def demo_crypto_def demo_seed_id_def hex_digit_def)

lemma demo_box [simp]:
  "box_to_pad_key demo_crypto [9] [2] (padKey demo_tunnel) p = Some ([9], [2], p)"
  by (simp add: box_to_pad_key_def demo_crypto_def demo_tunnel_def hex_val_def Let_def)

lemma demo_tunnel_sel [simp]: "padKey demo_tunnel \<noteq> []" "keyFp demo_tunnel = ''ab''"
  by (simp_all add: demo_tunnel_def)

definition demo_rec :: "int \<Rightarrow> int \<Rightarrow> string list \<Rightarrow> usage option \<Rightarrow> seed_rec" where
  "demo_rec m t ns u = \<lparr>sr_name = ''pvm'', sr_keyFp = ''ab'', sr_epoch = PADS_EPOCH, sr_mark = m, sr_updated = t,
     sr_nonces = ns, sr_usage = u\<rparr>"

definition demo_state :: "string \<Rightarrow> string \<Rightarrow> seed_rec \<Rightarrow> pads_store" where
  "demo_state m k r =
     \<lparr>mem = \<lparr>master = m, ledgerKey = k, seeds = [(demo_seed_id, r)]\<rparr>,
      disk = Some \<lparr>master = m, ledgerKey = k, seeds = [(demo_seed_id, r)]\<rparr>\<rparr>"

lemma demo_seed_step [simp]:
  "pads_step demo_crypto demo_seed_event blank_store =
     (demo_state [] [] (demo_rec 0 0 [] None), Some (Reply 200 (SeedReply demo_seed_id PADS_EPOCH [9] [2] [7])))"
  by (simp add: demo_seed_event_def pads_seed_def blank_store_def empty_state_def seed_record_def put_record_def
      save_def demo_state_def demo_rec_def fresh_record_def Let_def)

lemma demo_record [simp]: "seed_record (demo_state m k r) demo_seed_id = Some r"
  by (simp add: seed_record_def demo_state_def)

lemma demo_save_put [simp]: "save True (put_record (demo_state m k r) demo_seed_id r') = demo_state m k r'"
  by (simp add: save_def put_record_def demo_state_def)

lemma demo_reserve_step [simp]:
  assumes "1 \<le> w" "w \<le> MAX_WINDOW" "good_nonce n" "n \<notin> set ns" "length ns < 256" "\<bar>x + w\<bar> \<le> 2 ^ 53"
  shows "pads_step demo_crypto (demo_reserve w n) (demo_state m k (demo_rec x t ns u)) =
     (demo_state m k (demo_rec (x + w) 7 (ns @ [n]) u),
      Some (Reply 200 (WindowReply demo_seed_id x (x + w) 7 ''0102'')))"
  using assms
  by (simp add: demo_reserve_def pads_reserve_def demo_rec_def use_nonce_def NONCE_MEMORY_def Let_def)
     (simp add: demo_crypto_def hex_digit_def demo_state_def)

lemma demo_receipt_step [simp]:
  assumes "0 \<le> p" "0 \<le> q" "is_safe_integer p" "is_safe_integer q" "good_nonce n" "n \<notin> set ns" "length ns < 256"
  shows "pads_step demo_crypto (demo_receipt p q n) (demo_state m k (demo_rec x t ns None)) =
     (demo_state m k (demo_rec x t (ns @ [n]) (Some (add_receipt p q 9 n no_usage))),
      Some (Reply 200 (ReceiptReply demo_seed_id p q 1 9)))"
  using assms
  by (simp add: demo_receipt_def pads_receipt_def demo_rec_def use_nonce_def NONCE_MEMORY_def safe_count_def
      is_safe_integer_def max_safe_integer_def add_receipt_def no_usage_def Let_def)

lemma demo_restart_step [simp]:
  "pads_step demo_crypto (EvRestart [] [3] ''key'') (demo_state [] [] r) = (demo_state ''03'' ''key'' r, None)"
  by (simp add: create_pads_ledger_def demo_state_def save_def hex_digit_def Let_def)

definition demo_events :: "pads_event list" where
  "demo_events = [demo_seed_event, demo_reserve 100 nonce_a, EvRestart [] [3] ''key'', demo_reserve 20 nonce_b]"

lemma demo_granted: "granted demo_crypto demo_events blank_store = [(demo_seed_id, 0, 100), (demo_seed_id, 100, 120)]"
  by (simp add: demo_events_def MAX_WINDOW_def del: pads_step.simps)

section \<open>Properties\<close>

text \<open>
  C1: no pad index is ever handed out twice. From a platform with no ledger file, over any
  sequence of at most 2^41 seed, reserve and receipt requests and restarts, with any subset of
  the saves failing and whatever the hub, the clock and the randomness do, the windows answered
  for one seed are non-empty and each begins at or after the end of every earlier one.
\<close>

theorem windows_never_overlap:
  assumes "length evs \<le> 2 ^ 41" "i < j" "j < length (granted cr evs blank_store)"
    and "granted cr evs blank_store ! i = (sid, lo, hi)" "granted cr evs blank_store ! j = (sid, lo', hi')"
  shows "0 \<le> lo \<and> lo < hi \<and> hi \<le> lo' \<and> lo' < hi'"
proof -
  have n: "0 + length evs \<le> 2 ^ 41" using assms(1) by simp
  have "window_before (sid, lo, hi) (sid, lo', hi')"
    using sorted_wrt_nth_less [OF granted_ordered [OF mark_inv_blank n, of cr] assms(2,3)] assms(4,5) by simp
  moreover have "(sid, lo, hi) \<in> set (granted cr evs blank_store)" "(sid, lo', hi') \<in> set (granted cr evs blank_store)"
    using assms(2-5) by (metis nth_mem less_trans)+
  ultimately show ?thesis
    using granted_above_disk [OF mark_inv_blank n] mark_inv_blank
    by (fastforce simp: window_before_def mark_inv_def intro: order_trans)
qed

theorem windows_never_overlap_witness:
  "(0::int) \<le> 0 \<and> (0::int) < 100 \<and> (100::int) \<le> 100 \<and> (100::int) < 120 \<and>
   length (granted demo_crypto demo_events blank_store) = 2"
proof -
  have "length demo_events \<le> 2 ^ 41" by (simp add: demo_events_def)
  then show ?thesis
    using windows_never_overlap [of demo_events 0 1 demo_crypto demo_seed_id 0 100 100 120]
    by (simp add: demo_granted)
qed

text \<open>
  a nonce is good once. After a reserve was answered with success, none of the next 255
  requests and restarts makes the ledger accept another reserve or receipt for that seed
  carrying the same nonce, whatever its other fields and whoever signs it.
\<close>

theorem replayed_nonce_refused:
  assumes "is_ok (snd (pads_reserve cr hb now io name sid want nonce sg s))"
    and "length evs < NONCE_MEMORY"
    and "s' = pads_run cr evs (fst (pads_reserve cr hb now io name sid want nonce sg s))"
  shows "\<not> is_ok (snd (pads_reserve cr hb' now' io' name' sid want' nonce sg' s')) \<and>
         \<not> is_ok (snd (pads_receipt cr hb' now' io' name' sid pads tokens nonce sg' s'))"
proof -
  have "nonce_held 0 sid nonce (fst (pads_reserve cr hb now io name sid want nonce sg s))"
    using assms(1) by (rule reserve_op.nonce_held_after_ok)
  then obtain k where "nonce_held k sid nonce s'"
    using pads_run_held [of 0 sid nonce _ evs cr] assms(2,3) by auto
  then show ?thesis
    by (intro conjI reserve_op.held_is_refused receipt_op.held_is_refused)
qed

theorem replayed_nonce_refused_witness:
  "\<not> is_ok (snd (pads_reserve demo_crypto demo_hub 8 True ''pvm'' demo_seed_id (Some 5) nonce_a ''01''
     (pads_run demo_crypto [demo_reserve 20 nonce_b, EvRestart [] [3] ''key'']
       (demo_state [] [] (demo_rec 100 7 [nonce_a] None)))))"
proof -
  have r: "pads_reserve demo_crypto demo_hub 7 True ''pvm'' demo_seed_id (Some 100) nonce_a ''01''
      (demo_state [] [] (demo_rec 0 0 [] None)) =
      (demo_state [] [] (demo_rec 100 7 [nonce_a] None), Reply 200 (WindowReply demo_seed_id 0 100 7 ''0102''))"
    using demo_reserve_step [of 100 nonce_a "[]" 0 "[]" "[]" 0 None]
    by (simp add: demo_reserve_def MAX_WINDOW_def apsnd_def map_prod_def split: prod.splits)
  have ok: "is_ok (snd (pads_reserve demo_crypto demo_hub 7 True ''pvm'' demo_seed_id (Some 100) nonce_a ''01''
      (demo_state [] [] (demo_rec 0 0 [] None))))"
    by (simp add: r)
  have len: "length [demo_reserve 20 nonce_b, EvRestart [] [3] ''key''] < NONCE_MEMORY"
    by (simp add: NONCE_MEMORY_def)
  show ?thesis
    using replayed_nonce_refused [OF ok len refl, THEN conjunct1] unfolding r fst_conv .
qed

text \<open>
  a window is only ever answered to the attested owner, and only after it is durable. A
  successful reserve means the hub has a tunnel of that name whose parsed transport key accepts
  the signature over exactly this name, seed, width and nonce, the seed was issued to that
  tunnel's key, the nonce was unseen, the window starts at the mark, is 1 to 4096 wide, and the
  file on disk already carries its end.
\<close>

theorem reserve_authorised_and_durable:
  assumes "pads_reserve cr hb now io name sid want nonce sg s = (s', Reply 200 (WindowReply sid' lo hi iat wsig))"
  shows "\<exists>t key r w. info hb name = Some t \<and> parse_spki cr (spki t) = Some key \<and>
     ed_verify cr (if is_ed25519 cr key then None else Some ''sha256'')
       (signed_message ''reserve'' [name, sid, show_int w, nonce]) key (buffer_from_hex sg) \<and>
     seed_record s sid = Some r \<and> sr_keyFp r = keyFp t \<and> nonce \<notin> set (sr_nonces r) \<and>
     want = Some w \<and> 1 \<le> w \<and> w \<le> MAX_WINDOW \<and> sid' = sid \<and> lo = sr_mark r \<and> hi = js_add lo w \<and>
     disk s' = Some (mem s') \<and> mark_in (mem s') sid = hi"
proof (cases cr hb now io name sid want nonce sg s rule: pads_reserve_cases)
  case (refused c e)
  with assms show ?thesis by simp
next
  case (accepted w t r r')
  have io: "io" using assms accepted by (auto split: if_splits)
  obtain key where k: "info hb name = Some t" "parse_spki cr (spki t) = Some key"
    "ed_verify cr (if is_ed25519 cr key then None else Some ''sha256'')
       (signed_message ''reserve'' [name, sid, show_int w, nonce]) key (buffer_from_hex sg)"
    using accepted(5) by (auto simp: caller_of_def Let_def split: option.splits if_splits)
  have "disk s' = Some (mem s')" "mark_in (mem s') sid = js_add (sr_mark r) w"
    using assms accepted io by (auto simp: save_def pads_store_simps)
  with assms accepted io k show ?thesis by auto
qed

theorem reserve_authorised_and_durable_witness:
  "info demo_hub ''pvm'' = Some demo_tunnel \<and>
   disk (demo_state [] [] (demo_rec 100 7 [nonce_a] None)) = Some (mem (demo_state [] [] (demo_rec 100 7 [nonce_a] None)))"
proof -
  have r: "pads_reserve demo_crypto demo_hub 7 True ''pvm'' demo_seed_id (Some 100) nonce_a ''01''
      (demo_state [] [] (demo_rec 0 0 [] None)) =
      (demo_state [] [] (demo_rec 100 7 [nonce_a] None), Reply 200 (WindowReply demo_seed_id 0 100 7 ''0102''))"
    using demo_reserve_step [of 100 nonce_a "[]" 0 "[]" "[]" 0 None]
    by (simp add: demo_reserve_def MAX_WINDOW_def apsnd_def map_prod_def split: prod.splits)
  show ?thesis
    using reserve_authorised_and_durable [OF r] by (auto simp: demo_hub_def)
qed

text \<open>
  a signature authorises one request. Two canonical messages of the signed requests are
  equal only if they are of the same kind with the same name, seed, numbers and nonce: a
  signature on a reserve is no signature on a receipt or a seed request, and none on a reserve of
  another width, seed, nonce or tunnel, even when a tunnel's name contains line breaks.
\<close>

theorem signed_requests_unambiguous:
  assumes "no_newline kind" "no_newline kind'" "kind = kind' \<longrightarrow> length flds = length flds'"
    and "list_all no_newline flds" "list_all no_newline flds'"
    and "good_nonce nonce" "good_nonce nonce'"
    and "signed_message kind (name # flds @ [nonce]) = signed_message kind' (name' # flds' @ [nonce'])"
  shows "kind = kind' \<and> name = name' \<and> flds = flds' \<and> nonce = nonce'"
proof -
  have k: "kind = kind'" and j: "join_lines (name # flds @ [nonce]) = join_lines (name' # flds' @ [nonce'])"
    using signed_message_kind [OF assms(8,1,2)] by simp_all
  have n: "no_newline nonce" "no_newline nonce'"
    using assms(6,7) by (auto simp: good_nonce_def dest: hex_str_no_newline)
  have "name = name' \<and> flds @ [nonce] = flds' @ [nonce']"
    by (rule join_lines_tail_inject [OF _ _ _ j]) (use assms k n in simp_all)
  with k show ?thesis by simp
qed

theorem signed_requests_unambiguous_witness:
  "signed_message ''reserve'' [''pvm'', demo_seed_id, show_int 4, nonce_a] \<noteq>
   signed_message ''reserve'' [''pvm'', demo_seed_id, show_int 5, nonce_a]"
proof
  assume e: "signed_message ''reserve'' [''pvm'', demo_seed_id, show_int 4, nonce_a] =
    signed_message ''reserve'' [''pvm'', demo_seed_id, show_int 5, nonce_a]"
  have d: "no_newline demo_seed_id" using demo_good_seed by (auto simp: good_seed_id_def dest: hex_str_no_newline)
  have "[demo_seed_id, show_int 4] = [demo_seed_id, show_int 5]"
    using signed_requests_unambiguous [of "''reserve''" "''reserve''" "[demo_seed_id, show_int 4]"
        "[demo_seed_id, show_int 5]" nonce_a nonce_a "''pvm''" "''pvm''"] e d
    by (simp add: no_newline_def [of "''reserve''"] newline_def del: list.inject)
  then show False by (simp add: show_int_nonneg_inject)
qed

text \<open>
  what is billed is what was receipted. From a platform with no ledger file, over any run
  whose saves complete, restarts included, the totals the platform reports for a seed are the
  sums of the pads and tokens of exactly the receipts it answered with success, as long as each
  sum stays within the integers a double holds exactly.
\<close>

theorem receipt_totals_exact:
  assumes "list_all io_completes evs"
    and "sum_for fst sid (billed cr evs blank_store) \<le> 2 ^ 53"
    and "sum_for snd sid (billed cr evs blank_store) \<le> 2 ^ 53"
    and "pads_receipts (pads_run cr evs blank_store) sid = Some (name, u)"
  shows "u_pads u = sum_for fst sid (billed cr evs blank_store) \<and>
         u_tokens u = sum_for snd sid (billed cr evs blank_store)"
proof -
  have z: "usage_in (mem blank_store) sid = no_usage" "synced blank_store"
    by (simp_all add: usage_in_def blank_store_def empty_state_def synced_def disk_state_def)
  have "u = usage_in (mem (pads_run cr evs blank_store)) sid"
    using assms(4) by (auto simp: pads_receipts_def usage_in_record)
  with pads_run_usage [OF assms(1) z(2), of sid cr] z(1) assms(2,3) show ?thesis
    by (simp add: no_usage_def)
qed

theorem receipt_totals_exact_witness:
  "sum_for fst demo_seed_id (billed demo_crypto [demo_seed_event, demo_receipt 90 12 nonce_a] blank_store) = 90 \<and>
   u_pads (add_receipt 90 12 9 nonce_a no_usage) = 90"
proof -
  let ?evs = "[demo_seed_event, demo_receipt 90 12 nonce_a]"
  have b: "billed demo_crypto ?evs blank_store = [(demo_seed_id, 90, 12)]"
    using demo_receipt_step [of 90 12 nonce_a "[]" "[]" "[]" 0 0] demo_seed_step
    by (simp add: is_safe_integer_def max_safe_integer_def demo_seed_event_def demo_receipt_def
        del: pads_step.simps demo_receipt_step demo_seed_step)
  have u: "pads_receipts (pads_run demo_crypto ?evs blank_store) demo_seed_id =
      Some (''pvm'', add_receipt 90 12 9 nonce_a no_usage)"
    by (simp add: is_safe_integer_def max_safe_integer_def pads_receipts_def del: pads_step.simps)
      (simp add: demo_rec_def)
  have i: "list_all io_completes ?evs" by (simp add: demo_seed_event_def demo_receipt_def)
  show ?thesis using receipt_totals_exact [OF i _ _ u] unfolding b by simp
qed

end
