(* ===== verification/Artifact_Store.thy ===== *)
theory Artifact_Store
  imports Pads_Ledger
begin

text \<open>
  The HTTP surface of \<open>relay/pads.mjs\<close> and its two artifact stores: the shipment store
  (names \<open>seed-index0-count.pads\<close>) and the shared-prefix store (\<open>name.kv\<close>, \<open>name.kv.sig\<close>,
  \<open>name.txt\<close>). Both are instances of one interface, the locale \<open>artifact_store\<close>, and
  \<open>serveArtifact\<close> is written once over it, as in the source.

  An upload is streamed, so it is modelled as steps (open, chunks, finish or abort) over a file
  system with explicit inodes: a directory entry points to an inode, an open stream writes its
  inode at its own position, a rename moves the entry. SHA-256 is the argument \<open>sha\<close>.
\<close>

section \<open>Names\<close>

definition ship_parse :: "string \<Rightarrow> (string \<times> int \<times> int) option" where
  "ship_parse n =
     (let sid = take 32 n; r0 = drop 32 n;
          d1 = takeWhile is_digit (drop 1 r0); r1 = dropWhile is_digit (drop 1 r0);
          d2 = takeWhile is_digit (drop 1 r1); r2 = dropWhile is_digit (drop 1 r1)
      in if good_seed_id sid \<and> take 1 r0 = ''-'' \<and> d1 \<noteq> [] \<and> take 1 r1 = ''-'' \<and> d2 \<noteq> [] \<and> r2 = ''.pads''
         then Some (sid, js_round (int (digits_val d1)), js_round (int (digits_val d2)))
         else None)"

definition is_lower_alnum :: "char \<Rightarrow> bool" where
  "is_lower_alnum c \<longleftrightarrow> c \<in> set ''abcdefghijklmnopqrstuvwxyz0123456789''"

definition is_prefix_char :: "char \<Rightarrow> bool" where
  "is_prefix_char c \<longleftrightarrow> c \<in> set ''abcdefghijklmnopqrstuvwxyz0123456789._-''"

definition prefix_base :: "string \<Rightarrow> bool" where
  "prefix_base b \<longleftrightarrow> b \<noteq> [] \<and> length b \<le> 64 \<and> is_lower_alnum (hd b) \<and> list_all is_prefix_char (tl b)"

text \<open>The base and the kind are determined by the longest of the three endings that fits.\<close>

definition strip_suffix :: "string \<Rightarrow> string \<Rightarrow> string option" where
  "strip_suffix e n = (if suffix e n then Some (take (length n - length e) n) else None)"

definition prefix_parse :: "string \<Rightarrow> (string \<times> string) option" where
  "prefix_parse n =
     (case strip_suffix ''.kv.sig'' n of
        Some b \<Rightarrow> if prefix_base b then Some (b, ''kv.sig'') else None
      | None \<Rightarrow>
          (case strip_suffix ''.kv'' n of
             Some b \<Rightarrow> if prefix_base b then Some (b, ''kv'') else None
           | None \<Rightarrow>
               (case strip_suffix ''.txt'' n of
                  Some b \<Rightarrow> if prefix_base b then Some (b, ''txt'') else None
                | None \<Rightarrow> None)))"

definition tmp_name :: "string \<Rightarrow> string" where
  "tmp_name n = ''.'' @ n @ ''.part''"

text \<open>\<open>plan(key, name)\<close>: the temporary and the final file name in the key's directory.\<close>

definition ship_plan :: "string \<Rightarrow> string \<Rightarrow> (string \<times> string) option" where
  "ship_plan seed_id n =
     (case ship_parse n of
        None \<Rightarrow> None
      | Some (sid, i, c) \<Rightarrow> if good_seed_id seed_id \<and> sid = seed_id then Some (tmp_name n, n) else None)"

definition good_digest :: "string \<Rightarrow> bool" where
  "good_digest d \<longleftrightarrow> hex_str 64 64 d"

definition prefix_plan :: "string \<Rightarrow> string \<Rightarrow> (string \<times> string) option" where
  "prefix_plan digest n =
     (case prefix_parse n of
        None \<Rightarrow> None
      | Some (b, k) \<Rightarrow> if good_digest digest then Some (tmp_name n, n) else None)"

section \<open>The file system of one store\<close>

type_synonym path = "string \<times> string"

record upload =
  up_path :: path
  up_want :: string
  up_chunks :: "nat list"
  up_inode :: nat
  up_pos :: nat

record art_fs =
  entries :: "(path \<times> nat) list"
  inode_data :: "nat \<Rightarrow> nat list"
  next_inode :: nat
  inflight :: "(nat \<times> upload) list"

definition empty_fs :: art_fs where
  "empty_fs = \<lparr>entries = [], inode_data = (\<lambda>i. []), next_inode = 0, inflight = []\<rparr>"

definition read_path :: "art_fs \<Rightarrow> path \<Rightarrow> nat list option" where
  "read_path fs p = map_option (inode_data fs) (map_of (entries fs) p)"

text \<open>\<open>createWriteStream\<close>: an existing file is truncated and keeps its inode.\<close>

definition open_trunc :: "path \<Rightarrow> art_fs \<Rightarrow> art_fs \<times> nat" where
  "open_trunc p fs =
     (case map_of (entries fs) p of
        Some i \<Rightarrow> (fs\<lparr>inode_data := (inode_data fs)(i := [])\<rparr>, i)
      | None \<Rightarrow>
          (let i = next_inode fs
           in (fs\<lparr>entries := AList.update p i (entries fs), inode_data := (inode_data fs)(i := []),
                  next_inode := Suc i\<rparr>, i)))"

text \<open>A write at a position past the end leaves a hole of zero bytes.\<close>

definition write_at :: "nat \<Rightarrow> nat list \<Rightarrow> nat list \<Rightarrow> nat list" where
  "write_at pos bs old =
     take pos (old @ replicate (pos - length old) 0) @ bs @ drop (pos + length bs) old"

datatype art_reply =
    ArtError int string
  | ArtBytes "nat list"
  | ArtRemoved int string
  | ArtStored string nat
  | ArtPending

section \<open>serveArtifact\<close>

text \<open>
  \<open>plan\<close> is the store's plan, \<open>token\<close> the dealer's bearer (empty when unset), \<open>auth\<close> the
  request's authorization header.
\<close>

definition st_file :: "(string \<Rightarrow> string \<Rightarrow> (string \<times> string) option) \<Rightarrow> string \<Rightarrow> string \<Rightarrow> art_fs \<Rightarrow> nat list option" where
  "st_file plan key n fs =
     (case plan key n of None \<Rightarrow> None | Some (t, f) \<Rightarrow> read_path fs (key, f))"

definition st_remove ::
  "(string \<Rightarrow> string \<Rightarrow> (string \<times> string) option) \<Rightarrow> string \<Rightarrow> string \<Rightarrow> art_fs \<Rightarrow> art_fs \<times> bool" where
  "st_remove plan key n fs =
     (case plan key n of
        None \<Rightarrow> (fs, False)
      | Some (t, f) \<Rightarrow>
          if map_of (entries fs) (key, f) = None then (fs, False)
          else (fs\<lparr>entries := AList.delete (key, f) (entries fs)\<rparr>, True))"

datatype http_method = GET | POST | PUT | DELETE | OtherMethod

definition dealer_ok :: "string \<Rightarrow> string \<Rightarrow> bool" where
  "dealer_ok token auth \<longleftrightarrow> token \<noteq> [] \<and> auth = ''Bearer '' @ token"

definition serve_artifact ::
  "(string \<Rightarrow> string \<Rightarrow> (string \<times> string) option) \<Rightarrow> string \<Rightarrow> http_method \<Rightarrow> string \<Rightarrow> string \<Rightarrow> string \<Rightarrow> string
     \<Rightarrow> nat \<Rightarrow> art_fs \<Rightarrow> art_fs \<times> art_reply" where
  "serve_artifact plan token m auth key n sha256 rid fs =
     (if m = GET then
        (case st_file plan key n fs of
           None \<Rightarrow> (fs, ArtError 404 ''no_such_artifact'')
         | Some bs \<Rightarrow> (fs, ArtBytes bs))
      else if \<not> dealer_ok token auth then (fs, ArtError 403 ''dealer_only'')
      else case plan key n of
             None \<Rightarrow> (fs, ArtError 400 ''bad_name'')
           | Some (t, f) \<Rightarrow>
               if m = DELETE then
                 (let (fs', ok) = st_remove plan key n fs in (fs', ArtRemoved (if ok then 200 else 404) n))
               else if m = PUT then
                 (let want = to_lower sha256
                  in if \<not> good_digest want then (fs, ArtError 400 ''need_sha256'')
                     else (let (fs', i) = open_trunc (key, t) fs
                           in (fs'\<lparr>inflight := AList.update rid
                                 \<lparr>up_path = (key, f), up_want = want, up_chunks = [], up_inode = i, up_pos = 0\<rparr>
                                 (inflight fs')\<rparr>, ArtPending)))
               else (fs, ArtError 405 ''method''))"

definition put_chunk :: "nat \<Rightarrow> nat list \<Rightarrow> art_fs \<Rightarrow> art_fs" where
  "put_chunk rid bs fs =
     (case map_of (inflight fs) rid of
        None \<Rightarrow> fs
      | Some u \<Rightarrow>
          fs\<lparr>inode_data := (inode_data fs)(up_inode u := write_at (up_pos u) bs (inode_data fs (up_inode u))),
             inflight := AList.update rid
               (u\<lparr>up_chunks := up_chunks u @ bs, up_pos := up_pos u + length bs\<rparr>) (inflight fs)\<rparr>)"

definition put_finish :: "(nat list \<Rightarrow> string) \<Rightarrow> nat \<Rightarrow> art_fs \<Rightarrow> art_fs \<times> art_reply" where
  "put_finish sha rid fs =
     (case map_of (inflight fs) rid of
        None \<Rightarrow> (fs, ArtPending)
      | Some u \<Rightarrow>
          let key = fst (up_path u); final = snd (up_path u); tmp = (key, tmp_name final);
              fs1 = fs\<lparr>inflight := AList.delete rid (inflight fs)\<rparr>;
              got = sha (up_chunks u)
          in if got \<noteq> up_want u
             then (fs1\<lparr>entries := AList.delete tmp (entries fs1)\<rparr>, ArtError 409 ''sha256_mismatch'')
             else case map_of (entries fs1) tmp of
                    None \<Rightarrow> (fs1, ArtError 500 ''store'')
                  | Some i \<Rightarrow>
                      (fs1\<lparr>entries := AList.update (up_path u) i (AList.delete tmp (entries fs1))\<rparr>,
                       ArtStored final (length (up_chunks u))))"

text \<open>A client that goes away: the stream is never ended, the temporary file stays.\<close>

definition put_abort :: "nat \<Rightarrow> art_fs \<Rightarrow> art_fs" where
  "put_abort rid fs = fs\<lparr>inflight := AList.delete rid (inflight fs)\<rparr>"

section \<open>Listings\<close>

definition dir_names :: "string \<Rightarrow> art_fs \<Rightarrow> string list" where
  "dir_names key fs = map (\<lambda>((k, n), i). n) (filter (\<lambda>((k, n), i). k = key) (entries fs))"

record shipment =
  sh_name :: string
  sh_bytes :: nat
  sh_index0 :: int
  sh_count :: int

definition ship_list :: "string \<Rightarrow> art_fs \<Rightarrow> shipment list" where
  "ship_list seed_id fs =
     (if \<not> good_seed_id seed_id then []
      else sort_key sh_index0
        (map (\<lambda>n. case ship_parse n of
                    Some (s, i, c) \<Rightarrow> \<lparr>sh_name = n,
                        sh_bytes = (case read_path fs (seed_id, n) of Some bs \<Rightarrow> length bs | None \<Rightarrow> 0),
                        sh_index0 = i, sh_count = c\<rparr>
                  | None \<Rightarrow> \<lparr>sh_name = n, sh_bytes = 0, sh_index0 = 0, sh_count = 0\<rparr>)
           (filter (\<lambda>n. ship_parse n \<noteq> None) (dir_names seed_id fs))))"

fun str_le :: "string \<Rightarrow> string \<Rightarrow> bool" where
  "str_le [] ys = True"
| "str_le (x # xs) [] = False"
| "str_le (x # xs) (y # ys) =
     ((of_char x :: nat) < of_char y \<or> (x = y \<and> str_le xs ys))"

fun insert_name :: "string \<Rightarrow> string list \<Rightarrow> string list" where
  "insert_name n [] = [n]"
| "insert_name n (m # ms) = (if str_le n m then n # m # ms else m # insert_name n ms)"

definition prefix_list :: "string \<Rightarrow> art_fs \<Rightarrow> (string \<times> nat) list" where
  "prefix_list digest fs =
     (if \<not> good_digest digest then []
      else map (\<lambda>n. (n, case read_path fs (digest, n) of Some bs \<Rightarrow> length bs | None \<Rightarrow> 0))
        (foldr insert_name (filter (\<lambda>n. prefix_parse n \<noteq> None) (dir_names digest fs)) []))"

lemma set_insert_name: "set (insert_name n ms) = insert n (set ms)"
  by (induction ms) auto

lemma set_foldr_insert_name: "set (foldr insert_name ns []) = set ns"
  by (induction ns) (auto simp: set_insert_name)

section \<open>The interface of a store\<close>

datatype art_event =
    ArtReq http_method string string string string nat
  | ArtChunk nat "nat list"
  | ArtFinish nat
  | ArtAbort nat

fun art_step ::
  "(string \<Rightarrow> string \<Rightarrow> (string \<times> string) option) \<Rightarrow> string \<Rightarrow> (nat list \<Rightarrow> string) \<Rightarrow> art_event \<Rightarrow> art_fs
     \<Rightarrow> art_fs \<times> art_reply" where
  "art_step plan token sha (ArtReq m auth key n s rid) fs = serve_artifact plan token m auth key n s rid fs"
| "art_step plan token sha (ArtChunk rid bs) fs = (put_chunk rid bs fs, ArtPending)"
| "art_step plan token sha (ArtFinish rid) fs = put_finish sha rid fs"
| "art_step plan token sha (ArtAbort rid) fs = (put_abort rid fs, ArtPending)"

fun art_run ::
  "(string \<Rightarrow> string \<Rightarrow> (string \<times> string) option) \<Rightarrow> string \<Rightarrow> (nat list \<Rightarrow> string) \<Rightarrow> art_event list \<Rightarrow> art_fs
     \<Rightarrow> art_fs" where
  "art_run plan token sha [] fs = fs"
| "art_run plan token sha (e # es) fs = art_run plan token sha es (fst (art_step plan token sha e fs))"

text \<open>No upload is opened while another one of the same name is in flight, and ids are fresh.\<close>

fun no_overlap :: "art_event \<Rightarrow> art_fs \<Rightarrow> bool" where
  "no_overlap (ArtReq m auth key n s rid) fs =
     (m = PUT \<longrightarrow> map_of (inflight fs) rid = None \<and> list_all (\<lambda>(i, u). up_path u \<noteq> (key, n)) (inflight fs))"
| "no_overlap _ fs = True"

fun exclusive ::
  "(string \<Rightarrow> string \<Rightarrow> (string \<times> string) option) \<Rightarrow> string \<Rightarrow> (nat list \<Rightarrow> string) \<Rightarrow> art_event list \<Rightarrow> art_fs
     \<Rightarrow> bool" where
  "exclusive plan token sha [] fs = True"
| "exclusive plan token sha (e # es) fs =
     (no_overlap e fs \<and> exclusive plan token sha es (fst (art_step plan token sha e fs)))"

definition declared :: "string \<Rightarrow> art_event list \<Rightarrow> (path \<times> string) set" where
  "declared token evs =
     {((key, n), to_lower s) | m auth key n s rid.
        ArtReq m auth key n s rid \<in> set evs \<and> m = PUT \<and> dealer_ok token auth}"

lemma declared_Nil [simp]: "declared token [] = {}"
  by (simp add: declared_def)

lemma declared_snoc: "declared token evs \<subseteq> declared token (evs @ [e])"
  unfolding declared_def by (fastforce simp del: not_None_eq)

lemma tmp_name_inject [simp]: "tmp_name a = tmp_name b \<longleftrightarrow> a = b"
  by (simp add: tmp_name_def)

text \<open>Every in-flight upload owns its inode; every final name points to bytes of a declared digest.\<close>

definition fs_inv :: "(string \<Rightarrow> string \<Rightarrow> (string \<times> string) option) \<Rightarrow> (nat list \<Rightarrow> string) \<Rightarrow> (path \<times> string) set \<Rightarrow> art_fs \<Rightarrow> bool" where
  "fs_inv plan sha D fs \<longleftrightarrow>
     (\<forall>p i. map_of (entries fs) p = Some i \<longrightarrow> i < next_inode fs) \<and>
     (\<forall>p q i. map_of (entries fs) p = Some i \<longrightarrow> map_of (entries fs) q = Some i \<longrightarrow> p = q) \<and>
     (\<forall>r u. map_of (inflight fs) r = Some u \<longrightarrow>
        map_of (entries fs) (fst (up_path u), tmp_name (snd (up_path u))) = Some (up_inode u) \<and>
        inode_data fs (up_inode u) = up_chunks u \<and> up_pos u = length (up_chunks u) \<and>
        plan (fst (up_path u)) (snd (up_path u)) \<noteq> None \<and> (up_path u, up_want u) \<in> D) \<and>
     (\<forall>r r' u u'. map_of (inflight fs) r = Some u \<longrightarrow> map_of (inflight fs) r' = Some u' \<longrightarrow>
        up_path u = up_path u' \<longrightarrow> r = r') \<and>
     (\<forall>key n i. map_of (entries fs) (key, n) = Some i \<longrightarrow> plan key n \<noteq> None \<longrightarrow>
        ((key, n), sha (inode_data fs i)) \<in> D)"

lemma fs_invD:
  assumes "fs_inv plan sha D fs"
  shows "map_of (entries fs) p = Some i \<Longrightarrow> i < next_inode fs"
    and "map_of (entries fs) p = Some i \<Longrightarrow> map_of (entries fs) q = Some i \<Longrightarrow> p = q"
    and "map_of (inflight fs) r = Some u \<Longrightarrow>
        map_of (entries fs) (fst (up_path u), tmp_name (snd (up_path u))) = Some (up_inode u)"
    and "map_of (inflight fs) r = Some u \<Longrightarrow> inode_data fs (up_inode u) = up_chunks u"
    and "map_of (inflight fs) r = Some u \<Longrightarrow> up_pos u = length (up_chunks u)"
    and "map_of (inflight fs) r = Some u \<Longrightarrow> plan (fst (up_path u)) (snd (up_path u)) \<noteq> None"
    and "map_of (inflight fs) r = Some u \<Longrightarrow> (up_path u, up_want u) \<in> D"
    and "map_of (inflight fs) r = Some u \<Longrightarrow> map_of (inflight fs) r' = Some u' \<Longrightarrow>
        up_path u = up_path u' \<Longrightarrow> r = r'"
    and "map_of (entries fs) (key, n) = Some i \<Longrightarrow> plan key n \<noteq> None \<Longrightarrow>
        ((key, n), sha (inode_data fs i)) \<in> D"
  using assms unfolding fs_inv_def by blast+

lemma fs_invI:
  assumes "\<And>p i. map_of (entries fs) p = Some i \<Longrightarrow> i < next_inode fs"
    and "\<And>p q i. map_of (entries fs) p = Some i \<Longrightarrow> map_of (entries fs) q = Some i \<Longrightarrow> p = q"
    and "\<And>r u. map_of (inflight fs) r = Some u \<Longrightarrow>
        map_of (entries fs) (fst (up_path u), tmp_name (snd (up_path u))) = Some (up_inode u) \<and>
        inode_data fs (up_inode u) = up_chunks u \<and> up_pos u = length (up_chunks u) \<and>
        plan (fst (up_path u)) (snd (up_path u)) \<noteq> None \<and> (up_path u, up_want u) \<in> D"
    and "\<And>r r' u u'. map_of (inflight fs) r = Some u \<Longrightarrow> map_of (inflight fs) r' = Some u' \<Longrightarrow>
        up_path u = up_path u' \<Longrightarrow> r = r'"
    and "\<And>key n i. map_of (entries fs) (key, n) = Some i \<Longrightarrow> plan key n \<noteq> None \<Longrightarrow>
        ((key, n), sha (inode_data fs i)) \<in> D"
  shows "fs_inv plan sha D fs"
  unfolding fs_inv_def using assms by blast

locale artifact_store =
  fixes plan :: "string \<Rightarrow> string \<Rightarrow> (string \<times> string) option"
  assumes plan_names: "plan key n = Some (t, f) \<Longrightarrow> f = n \<and> t = tmp_name n"
    and plan_segment: "plan key n \<noteq> None \<Longrightarrow> n \<noteq> [] \<and> hd n \<noteq> CHR ''.'' \<and> CHR ''/'' \<notin> set n"
begin

lemma tmp_not_planned: "plan key (tmp_name n) = None"
proof (rule ccontr)
  assume "plan key (tmp_name n) \<noteq> None"
  from plan_segment [OF this] show False by (simp add: tmp_name_def)
qed

lemma planned_not_tmp: "plan key n \<noteq> None \<Longrightarrow> n \<noteq> tmp_name m"
  using tmp_not_planned by auto

lemma fs_inv_empty: "fs_inv plan sha {} empty_fs"
  by (rule fs_invI) (simp_all add: empty_fs_def)

lemma fs_inv_mono: "fs_inv plan sha D fs \<Longrightarrow> D \<subseteq> D' \<Longrightarrow> fs_inv plan sha D' fs"
  unfolding fs_inv_def by blast

lemma map_of_delete: "map_of (AList.delete k m) = (map_of m)(k := None)"
  by (simp add: AList.delete_conv')

lemma fs_inv_abort: "fs_inv plan sha D fs \<Longrightarrow> fs_inv plan sha D (put_abort rid fs)"
  by (rule fs_invI) (auto simp: put_abort_def map_of_delete dest: fs_invD split: if_splits)

lemma fs_inv_remove:
  assumes "fs_inv plan sha D fs"
  shows "fs_inv plan sha D (fst (st_remove plan key n fs))"
proof (cases "plan key n")
  case None
  with assms show ?thesis by (simp add: st_remove_def)
next
  case (Some tf)
  then obtain t f where p: "plan key n = Some (t, f)" by (cases tf) auto
  then have f: "f = n" using plan_names by blast
  have nt: "(fst (up_path u), tmp_name (snd (up_path u))) \<noteq> (key, n)" for u
    using planned_not_tmp [of key n] p by auto
  show ?thesis
  proof (cases "map_of (entries fs) (key, n)")
    case None
    with assms p f show ?thesis by (simp add: st_remove_def)
  next
    case (Some i)
    have "fs_inv plan sha D (fs\<lparr>entries := AList.delete (key, n) (entries fs)\<rparr>)"
      by (rule fs_invI) (use nt fs_invD [OF assms] in \<open>auto simp: map_of_delete split: if_splits\<close>)
    with p f Some show ?thesis by (simp add: st_remove_def)
  qed
qed

end

lemma write_at_end [simp]: "write_at (length old) bs old = old @ bs"
  by (simp add: write_at_def)

context artifact_store begin

lemma fs_inv_chunk:
  assumes i: "fs_inv plan sha D fs"
  shows "fs_inv plan sha D (put_chunk rid bs fs)"
proof (cases "map_of (inflight fs) rid")
  case None
  with i show ?thesis by (simp add: put_chunk_def)
next
  case (Some u)
  note ui = fs_invD(3-7) [OF i Some]
  let ?u' = "u\<lparr>up_chunks := up_chunks u @ bs, up_pos := up_pos u + length bs\<rparr>"
  let ?fs = "fs\<lparr>inode_data := (inode_data fs)(up_inode u := up_chunks u @ bs),
      inflight := AList.update rid ?u' (inflight fs)\<rparr>"
  have e: "put_chunk rid bs fs = ?fs"
    using ui by (simp add: put_chunk_def Some)
  have other: "up_inode v \<noteq> up_inode u" if "map_of (inflight fs) r = Some v" "r \<noteq> rid" for r v
  proof
    assume a: "up_inode v = up_inode u"
    have "(fst (up_path v), tmp_name (snd (up_path v))) = (fst (up_path u), tmp_name (snd (up_path u)))"
      using fs_invD(2) [OF i fs_invD(3) [OF i that(1)]] ui(1) a by simp
    then have "up_path v = up_path u" by (simp add: prod_eq_iff)
    with fs_invD(8) [OF i that(1) Some] that(2) show False by simp
  qed
  have final: "j \<noteq> up_inode u" if "map_of (entries fs) (key, n) = Some j" "plan key n \<noteq> None" for key n j
  proof
    assume "j = up_inode u"
    with fs_invD(2) [OF i that(1)] ui(1)
    have "(key, n) = (fst (up_path u), tmp_name (snd (up_path u)))" by simp
    with planned_not_tmp [OF that(2)] show False by simp
  qed
  have "fs_inv plan sha D ?fs"
  proof (rule fs_invI)
    fix r v assume "map_of (inflight ?fs) r = Some v"
    then show "map_of (entries ?fs) (fst (up_path v), tmp_name (snd (up_path v))) = Some (up_inode v) \<and>
        inode_data ?fs (up_inode v) = up_chunks v \<and> up_pos v = length (up_chunks v) \<and>
        plan (fst (up_path v)) (snd (up_path v)) \<noteq> None \<and> (up_path v, up_want v) \<in> D"
      using ui other fs_invD(3-7) [OF i] by (cases "r = rid") auto
  next
    have old: "\<exists>w. map_of (inflight fs) r = Some w \<and> up_path w = up_path v" if "map_of (inflight ?fs) r = Some v" for r v
      using that Some by (cases "r = rid") auto
    fix r r' v v' assume "map_of (inflight ?fs) r = Some v" "map_of (inflight ?fs) r' = Some v'" "up_path v = up_path v'"
    with old [of r v] old [of r' v'] show "r = r'" by (metis fs_invD(8) [OF i])
  next
    fix key n j assume "map_of (entries ?fs) (key, n) = Some j" "plan key n \<noteq> None"
    then show "((key, n), sha (inode_data ?fs j)) \<in> D"
      using final fs_invD(9) [OF i] by auto
  qed (use fs_invD(1,2) [OF i] in auto)
  with e show ?thesis by simp
qed

lemma fs_inv_finish:
  assumes i: "fs_inv plan sha D fs"
  shows "fs_inv plan sha D (fst (put_finish sha rid fs))"
proof (cases "map_of (inflight fs) rid")
  case None
  with i show ?thesis by (simp add: put_finish_def)
next
  case (Some u)
  note ui = fs_invD(3-7) [OF i Some]
  obtain key n where p: "up_path u = (key, n)" by fastforce
  let ?tmp = "(key, tmp_name n)"
  have tmp: "map_of (entries fs) ?tmp = Some (up_inode u)" using ui p by simp
  have nn: "n \<noteq> tmp_name m" for m using planned_not_tmp [of key n] ui(4) p by auto
  have others: "(fst (up_path v), tmp_name (snd (up_path v))) \<noteq> ?tmp" if "map_of (inflight fs) r = Some v" "r \<noteq> rid" for r v
    using fs_invD(8) [OF i that(1) Some] that(2) p by (auto simp: prod_eq_iff)
  show ?thesis
  proof (cases "sha (up_chunks u) = up_want u")
    case False
    have "fs_inv plan sha D (fs\<lparr>inflight := AList.delete rid (inflight fs), entries := AList.delete ?tmp (entries fs)\<rparr>)"
      by (rule fs_invI)
        (use others fs_invD [OF i] in \<open>auto simp: map_of_delete split: if_splits\<close>)
    with False Some p show ?thesis by (simp add: put_finish_def Let_def)
  next
    case True
    let ?fs = "fs\<lparr>inflight := AList.delete rid (inflight fs),
        entries := AList.update (key, n) (up_inode u) (AList.delete ?tmp (entries fs))\<rparr>"
    have e: "map_of (entries ?fs) q = (if q = (key, n) then Some (up_inode u) else if q = ?tmp then None
        else map_of (entries fs) q)" for q
      by (auto simp: map_of_delete)
    have "fs_inv plan sha D ?fs"
    proof (rule fs_invI)
      fix q q' j assume "map_of (entries ?fs) q = Some j" "map_of (entries ?fs) q' = Some j"
      then show "q = q'" using fs_invD(2) [OF i tmp, of q] fs_invD(2) [OF i tmp, of q'] fs_invD(2) [OF i, of q j q']
        unfolding e by (auto split: if_splits)
    next
      fix r v assume "map_of (inflight ?fs) r = Some v"
      then have v: "map_of (inflight fs) r = Some v" "r \<noteq> rid" by (auto simp: map_of_delete split: if_splits)
      then show "map_of (entries ?fs) (fst (up_path v), tmp_name (snd (up_path v))) = Some (up_inode v) \<and>
          inode_data ?fs (up_inode v) = up_chunks v \<and> up_pos v = length (up_chunks v) \<and>
          plan (fst (up_path v)) (snd (up_path v)) \<noteq> None \<and> (up_path v, up_want v) \<in> D"
        using fs_invD(3-7) [OF i v(1)] others [OF v] nn unfolding e by auto
    next
      fix k m j assume "map_of (entries ?fs) (k, m) = Some j" "plan k m \<noteq> None"
      then show "((k, m), sha (inode_data ?fs j)) \<in> D"
        using True ui p fs_invD(9) [OF i, of k m] unfolding e by (auto split: if_splits)
    qed (use fs_invD(1,8) [OF i] tmp in \<open>auto simp: e map_of_delete split: if_splits\<close>)
    moreover have "fst (put_finish sha rid fs) = ?fs"
      using True Some p tmp by (simp add: put_finish_def Let_def)
    ultimately show ?thesis by simp
  qed
qed

end

lemma open_trunc_entries:
  "map_of (entries (fst (open_trunc q fs))) q = Some (snd (open_trunc q fs))"
  "p \<noteq> q \<Longrightarrow> map_of (entries (fst (open_trunc q fs))) p = map_of (entries fs) p"
  "inode_data (fst (open_trunc q fs)) = (inode_data fs)(snd (open_trunc q fs) := [])"
  "inflight (fst (open_trunc q fs)) = inflight fs"
  by (auto simp: open_trunc_def Let_def split: option.splits)

lemma open_trunc_fresh:
  assumes "\<And>p i. map_of (entries fs) p = Some i \<Longrightarrow> i < next_inode fs"
    and "\<And>p q i. map_of (entries fs) p = Some i \<Longrightarrow> map_of (entries fs) q = Some i \<Longrightarrow> p = q"
  shows "p \<noteq> q \<Longrightarrow> map_of (entries fs) p \<noteq> Some (snd (open_trunc q fs))"
    and "map_of (entries (fst (open_trunc q fs))) p = Some i \<Longrightarrow> i < next_inode (fst (open_trunc q fs))"
  using assms(1) [of p] assms(1) [of q] assms(2) [of p _ q]
  by (auto simp: open_trunc_def Let_def less_Suc_eq split: option.splits if_splits)

context artifact_store begin

lemma fs_inv_start:
  assumes i: "fs_inv plan sha D fs" and p: "plan key n \<noteq> None"
    and fresh: "map_of (inflight fs) rid = None"
    and excl: "list_all (\<lambda>(i, u). up_path u \<noteq> (key, n)) (inflight fs)"
    and w: "((key, n), want) \<in> D"
  shows "fs_inv plan sha D ((fst (open_trunc (key, tmp_name n) fs))\<lparr>inflight := AList.update rid
      \<lparr>up_path = (key, n), up_want = want, up_chunks = [], up_inode = snd (open_trunc (key, tmp_name n) fs), up_pos = 0\<rparr>
      (inflight (fst (open_trunc (key, tmp_name n) fs)))\<rparr>)" (is "fs_inv plan sha D ?fs")
proof -
  let ?o = "open_trunc (key, tmp_name n) fs"
  have fresh_1: "map_of (entries fs) p \<noteq> Some (snd ?o)" if "p \<noteq> (key, tmp_name n)" for p
    by (rule open_trunc_fresh(1) [OF _ _ that]) (use fs_invD(1,2) [OF i] in blast)+
  have fresh_2: "j < next_inode (fst ?o)" if "map_of (entries (fst ?o)) p = Some j" for p j
    by (rule open_trunc_fresh(2) [OF _ _ that]) (use fs_invD(1,2) [OF i] in blast)+
  have pth: "up_path u \<noteq> (key, n)" if "map_of (inflight fs) r = Some u" for r u
    using excl map_of_SomeD [OF that] by (auto simp: list_all_iff)
  have q: "(fst (up_path u), tmp_name (snd (up_path u))) \<noteq> (key, tmp_name n)" if "map_of (inflight fs) r = Some u" for r u
    using pth [OF that] by (auto simp: prod_eq_iff)
  show ?thesis
  proof (rule fs_invI)
    fix a b j assume a: "map_of (entries ?fs) a = Some j" "map_of (entries ?fs) b = Some j"
    show "a = b"
    proof (cases "a = (key, tmp_name n) \<or> b = (key, tmp_name n)")
      case True
      with a fresh_1 [of a] fresh_1 [of b] open_trunc_entries(1,2) [where q = "(key, tmp_name n)" and fs = fs]
      show ?thesis by (cases "a = (key, tmp_name n)"; cases "b = (key, tmp_name n)") auto
    next
      case False
      with a fs_invD(2) [OF i, where p = a and q = b and i = j] open_trunc_entries(2) [where q = "(key, tmp_name n)" and fs = fs] show ?thesis by simp
    qed
  next
    fix r u assume u: "map_of (inflight ?fs) r = Some u"
    show "map_of (entries ?fs) (fst (up_path u), tmp_name (snd (up_path u))) = Some (up_inode u) \<and>
        inode_data ?fs (up_inode u) = up_chunks u \<and> up_pos u = length (up_chunks u) \<and>
        plan (fst (up_path u)) (snd (up_path u)) \<noteq> None \<and> (up_path u, up_want u) \<in> D"
    proof (cases "r = rid")
      case True
      with u p w show ?thesis by (auto simp: open_trunc_entries)
    next
      case False
      with u have v: "map_of (inflight fs) r = Some u" by (simp add: open_trunc_entries)
      have "up_inode u \<noteq> snd ?o" using fresh_1 [OF q [OF v]] fs_invD(3) [OF i v] by auto
      with v q [OF v] fs_invD(3-7) [OF i v] show ?thesis by (simp add: open_trunc_entries)
    qed
  next
    fix r r' u u' assume "map_of (inflight ?fs) r = Some u" "map_of (inflight ?fs) r' = Some u'" "up_path u = up_path u'"
    then show "r = r'" using fs_invD(8) [OF i, of r u r' u']
      by (auto simp: open_trunc_entries split: if_splits dest: pth)
  next
    fix k m j assume e: "map_of (entries ?fs) (k, m) = Some j" and pl: "plan k m \<noteq> None"
    have ne: "(k, m) \<noteq> (key, tmp_name n)" using planned_not_tmp [OF pl] by auto
    then have o: "map_of (entries fs) (k, m) = Some j" using e by (simp add: open_trunc_entries)
    have "j \<noteq> snd ?o" using fresh_1 [OF ne] o by auto
    with fs_invD(9) [OF i o pl] show "((k, m), sha (inode_data ?fs j)) \<in> D"
      by (simp add: open_trunc_entries)
  qed (use fresh_2 in auto)
qed

lemma fs_inv_serve:
  assumes i: "fs_inv plan sha D fs" and o: "no_overlap (ArtReq m auth key n s rid) fs"
    and d: "m = PUT \<Longrightarrow> dealer_ok token auth \<Longrightarrow> ((key, n), to_lower s) \<in> D"
  shows "fs_inv plan sha D (fst (serve_artifact plan token m auth key n s rid fs))"
proof (cases "m = PUT \<and> dealer_ok token auth \<and> plan key n \<noteq> None \<and> good_digest (to_lower s)")
  case True
  then obtain t f where p: "plan key n = Some (t, f)" by auto
  then have "f = n" "t = tmp_name n" using plan_names by blast+
  with True p have e: "fst (serve_artifact plan token m auth key n s rid fs) =
      (fst (open_trunc (key, tmp_name n) fs))\<lparr>inflight := AList.update rid
        \<lparr>up_path = (key, n), up_want = to_lower s, up_chunks = [], up_inode = snd (open_trunc (key, tmp_name n) fs), up_pos = 0\<rparr>
        (inflight (fst (open_trunc (key, tmp_name n) fs)))\<rparr>"
    by (simp add: serve_artifact_def Let_def split: prod.splits)
  have pl: "plan key n \<noteq> None" using p by simp
  show ?thesis unfolding e
    by (rule fs_inv_start [OF i pl]) (use o d True in auto)
next
  case False
  have "fst (serve_artifact plan token m auth key n s rid fs) \<in> {fs, fst (st_remove plan key n fs)}"
    using False by (cases m) (auto simp: serve_artifact_def Let_def split: option.splits prod.splits)
  with i fs_inv_remove [OF i] show ?thesis by auto
qed

lemma fs_inv_step:
  assumes "fs_inv plan sha (declared token evs) fs" "no_overlap e fs"
  shows "fs_inv plan sha (declared token (evs @ [e])) (fst (art_step plan token sha e fs))"
proof -
  have i: "fs_inv plan sha (declared token (evs @ [e])) fs"
    using fs_inv_mono [OF assms(1) declared_snoc] .
  show ?thesis
  proof (cases e)
    case (ArtReq m auth key n s rid)
    then show ?thesis using fs_inv_serve [OF i, of m auth key n s rid token] assms(2)
      by (fastforce simp: declared_def)
  next
    case (ArtChunk rid bs)
    then show ?thesis using fs_inv_chunk [OF i] by simp
  next
    case (ArtFinish rid)
    then show ?thesis using fs_inv_finish [OF i] by simp
  next
    case (ArtAbort rid)
    then show ?thesis using fs_inv_abort [OF i] by simp
  qed
qed

lemma fs_inv_run:
  assumes "fs_inv plan sha (declared token pre) fs" "exclusive plan token sha evs fs"
  shows "fs_inv plan sha (declared token (pre @ evs)) (art_run plan token sha evs fs)"
  using assms
proof (induction evs arbitrary: pre fs)
  case Nil
  then show ?case by simp
next
  case (Cons e es)
  then have "fs_inv plan sha (declared token (pre @ [e])) (fst (art_step plan token sha e fs))"
    by (intro fs_inv_step) simp_all
  from Cons.IH [OF this] Cons.prems(2) show ?case by simp
qed

lemma served_bytes_declared:
  assumes x: "exclusive plan token sha evs empty_fs"
    and g: "snd (serve_artifact plan token GET auth key n s rid (art_run plan token sha evs empty_fs)) = ArtBytes bs"
  shows "((key, n), sha bs) \<in> declared token evs"
proof -
  let ?fs = "art_run plan token sha evs empty_fs"
  have i: "fs_inv plan sha (declared token evs) ?fs"
    using fs_inv_run [of sha token "[]" empty_fs evs] fs_inv_empty x by simp
  from g obtain t f where p: "plan key n = Some (t, f)" and r: "read_path ?fs (key, f) = Some bs"
    by (auto simp: serve_artifact_def st_file_def split: option.splits prod.splits)
  have f: "f = n" using plan_names p by blast
  from r f obtain j where "map_of (entries ?fs) (key, n) = Some j" "inode_data ?fs j = bs"
    by (auto simp: read_path_def)
  with fs_invD(9) [OF i this(1)] p show ?thesis by simp
qed

end

section \<open>The two stores\<close>

lemma hex_is_not: "is_hex c \<Longrightarrow> c \<noteq> CHR ''.'' \<and> c \<noteq> CHR ''/''"
  by (auto simp: is_hex_def)

lemma digit_is_not: "is_digit c \<Longrightarrow> c \<noteq> CHR ''/''"
  by (auto simp: is_digit_def)

lemma take_1_eq: "take 1 xs = [c] \<Longrightarrow> xs = c # drop 1 xs"
  by (cases xs) auto

lemma ship_parse_shape:
  assumes "ship_parse n = Some (sid, i, c)"
  shows "\<exists>d1 d2. good_seed_id sid \<and> d1 \<noteq> [] \<and> d2 \<noteq> [] \<and> list_all is_digit d1 \<and> list_all is_digit d2 \<and>
     n = sid @ ''-'' @ d1 @ ''-'' @ d2 @ ''.pads'' \<and>
     i = js_round (int (digits_val d1)) \<and> c = js_round (int (digits_val d2))"
proof -
  define r0 d1 r1 d2 r2 where defs: "r0 = drop 32 n" "d1 = takeWhile is_digit (drop 1 r0)"
    "r1 = dropWhile is_digit (drop 1 r0)" "d2 = takeWhile is_digit (drop 1 r1)"
    "r2 = dropWhile is_digit (drop 1 r1)"
  have g: "good_seed_id (take 32 n)" "take 1 r0 = ''-''" "d1 \<noteq> []" "take 1 r1 = ''-''" "d2 \<noteq> []" "r2 = ''.pads''"
    and e: "sid = take 32 n" "i = js_round (int (digits_val d1))" "c = js_round (int (digits_val d2))"
    using assms unfolding ship_parse_def Let_def defs [symmetric] by (auto split: if_splits)
  have "n = take 32 n @ r0" by (simp add: defs)
  also have "r0 = CHR ''-'' # d1 @ r1" using take_1_eq [OF g(2)] by (simp add: defs)
  also have "r1 = CHR ''-'' # d2 @ r2" using take_1_eq [OF g(4)] by (simp add: defs)
  finally have "n = sid @ ''-'' @ d1 @ ''-'' @ d2 @ ''.pads''" using e g by simp
  moreover have "list_all is_digit d1" "list_all is_digit d2"
    by (auto simp: defs list_all_iff dest: set_takeWhileD)
  ultimately show ?thesis using g e
    by (intro exI [of _ d1] exI [of _ d2]) simp
qed

interpretation ship_store: artifact_store ship_plan
proof unfold_locales
  fix key n t f
  assume "ship_plan key n = Some (t, f)"
  then show "f = n \<and> t = tmp_name n"
    by (auto simp: ship_plan_def split: option.splits prod.splits if_splits)
next
  fix key n
  assume "ship_plan key n \<noteq> None"
  then obtain i c where p: "ship_parse n = Some (key, i, c)"
    by (auto simp: ship_plan_def split: option.splits prod.splits if_splits)
  then obtain d1 d2 where d: "good_seed_id key" "list_all is_digit d1" "list_all is_digit d2"
    "n = key @ ''-'' @ d1 @ ''-'' @ d2 @ ''.pads''" using ship_parse_shape by blast
  obtain x xs where k: "key = x # xs"
    using d(1) by (cases key) (auto simp: good_seed_id_def hex_str_def)
  have "list_all is_hex key" using d(1) by (simp add: good_seed_id_def hex_str_def)
  then have s: "CHR ''/'' \<notin> set key" "x \<noteq> CHR ''.''"
    using k hex_is_not by (auto simp: list_all_iff)
  have "CHR ''/'' \<notin> set d1" "CHR ''/'' \<notin> set d2"
    using d(2,3) digit_is_not by (auto simp: list_all_iff)
  with s show "n \<noteq> [] \<and> hd n \<noteq> CHR ''.'' \<and> CHR ''/'' \<notin> set n"
    by (simp add: d(4) k)
qed

lemma strip_suffix_append: "strip_suffix e n = Some b \<Longrightarrow> n = b @ e"
  by (auto simp: strip_suffix_def suffix_def split: if_splits)

lemma prefix_parse_shape:
  "prefix_parse n = Some (b, k) \<Longrightarrow> n = b @ ''.'' @ k \<and> prefix_base b \<and> k \<in> {''kv'', ''kv.sig'', ''txt''}"
  by (auto simp: prefix_parse_def dest!: strip_suffix_append split: option.splits if_splits)

lemma prefix_char_not_slash: "is_prefix_char c \<Longrightarrow> c \<noteq> CHR ''/''"
  by (auto simp: is_prefix_char_def)

lemma lower_alnum_props: "is_lower_alnum c \<Longrightarrow> c \<noteq> CHR ''.'' \<and> c \<noteq> CHR ''/''"
  by (auto simp: is_lower_alnum_def)

interpretation prefix_store: artifact_store prefix_plan
proof unfold_locales
  fix key n t f
  assume "prefix_plan key n = Some (t, f)"
  then show "f = n \<and> t = tmp_name n"
    by (auto simp: prefix_plan_def split: option.splits prod.splits if_splits)
next
  fix key n
  assume "prefix_plan key n \<noteq> None"
  then obtain b k where "prefix_parse n = Some (b, k)"
    by (auto simp: prefix_plan_def split: option.splits prod.splits if_splits)
  then have p: "n = b @ ''.'' @ k" "prefix_base b" "k \<in> {''kv'', ''kv.sig'', ''txt''}"
    using prefix_parse_shape by blast+
  obtain x xs where b: "b = x # xs" using p(2) by (cases b) (auto simp: prefix_base_def)
  have "CHR ''/'' \<notin> set xs" "x \<noteq> CHR ''.''" "x \<noteq> CHR ''/''"
    using p(2) b prefix_char_not_slash lower_alnum_props by (auto simp: prefix_base_def list_all_iff)
  with p(3) show "n \<noteq> [] \<and> hd n \<noteq> CHR ''.'' \<and> CHR ''/'' \<notin> set n"
    by (auto simp: p(1) b)
qed

section \<open>The router\<close>

definition prefix_route :: "string \<Rightarrow> (string \<times> string option) option" where
  "prefix_route p =
     (case strip_prefix ''/v1/prefix-kv/'' p of
        None \<Rightarrow> None
      | Some r \<Rightarrow>
          let d = take 64 r; rest = drop 64 r
          in if \<not> good_digest d then None
             else if rest = [] then Some (d, None)
             else if hd rest = CHR ''/'' \<and> tl rest \<noteq> [] \<and> CHR ''/'' \<notin> set (tl rest) then Some (d, Some (tl rest))
             else None)"

definition is_ship_char :: "char \<Rightarrow> bool" where
  "is_ship_char c \<longleftrightarrow>
     c \<in> set ''ABCDEFGHIJKLMNOPQRSTUVWXYZabcdefghijklmnopqrstuvwxyz0123456789._-''"

definition ship_route :: "string \<Rightarrow> (string \<times> string) option" where
  "ship_route p =
     (case strip_prefix ''/v1/pads/shipments/'' p of
        None \<Rightarrow> None
      | Some r \<Rightarrow>
          let sid = take 32 r; n = drop 33 r
          in if good_seed_id sid \<and> take 1 (drop 32 r) = ''/'' \<and> 1 \<le> length n \<and> length n \<le> 120 \<and> list_all is_ship_char n
             then Some (sid, n) else None)"

record pads_body =
  b_name :: string
  b_seed_id :: string
  b_want :: "int option"
  b_pads :: "int option"
  b_tokens :: "int option"
  b_nonce :: string
  b_sig :: string

datatype body_read = TooLarge | BadJson | Parsed pads_body

record pads_request =
  rq_method :: http_method
  rq_path :: string
  rq_auth :: string
  rq_param :: "string \<Rightarrow> string"
  rq_body :: body_read

record pads_world =
  w_ledger :: "pads_store option"
  w_ship :: "art_fs option"
  w_prefix :: "art_fs option"

datatype pads_payload =
    PError string
  | PPrefixList string "(string \<times> nat) list"
  | PShipList string "shipment list"
  | PKey string int
  | PConsumer consumer
  | PConsumers "consumer list"
  | PMark "int \<times> int \<times> string"
  | PReceipts "string \<times> usage"
  | PReply reply
  | PArtifact art_reply

text \<open>\<open>Pending\<close> is an upload whose answer its last chunk will bring; \<open>Rejects\<close> a throw.\<close>

datatype pads_answer = NotOurs | Answer int pads_payload | Pending | Rejects

definition answer_option :: "string \<Rightarrow> ('a \<Rightarrow> pads_payload) \<Rightarrow> 'a option \<Rightarrow> pads_answer" where
  "answer_option e f x = (case x of None \<Rightarrow> Answer 404 (PError e) | Some v \<Rightarrow> Answer 200 (f v))"

fun answer_outcome :: "outcome \<Rightarrow> pads_answer" where
  "answer_outcome (Reply c b) = Answer c (PReply b)"
| "answer_outcome Throws = Rejects"

fun artifact_answer :: "art_reply \<Rightarrow> pads_answer" where
  "artifact_answer (ArtError c e) = Answer c (PError e)"
| "artifact_answer (ArtRemoved c n) = Answer c (PArtifact (ArtRemoved c n))"
| "artifact_answer (ArtBytes bs) = Answer 200 (PArtifact (ArtBytes bs))"
| "artifact_answer (ArtStored n k) = Answer 200 (PArtifact (ArtStored n k))"
| "artifact_answer ArtPending = Pending"

definition pads_router ::
  "'k crypto \<Rightarrow> (string \<Rightarrow> string) \<Rightarrow> hub \<Rightarrow> string \<Rightarrow> nat list \<Rightarrow> nat list \<Rightarrow> int \<Rightarrow> bool \<Rightarrow> nat
     \<Rightarrow> pads_request \<Rightarrow> pads_world \<Rightarrow> pads_world \<times> pads_answer" where
  "pads_router cr pubKey hb token esk bn now io rid rq w =
     (let p = rq_path rq; m = rq_method rq; q = rq_param rq
      in if prefix ''/v1/prefix-kv/'' p then
           (case w_prefix w of
              None \<Rightarrow> (w, Answer 503 (PError ''prefix_kv_disabled''))
            | Some fs \<Rightarrow>
                (case prefix_route p of
                   None \<Rightarrow> (w, Answer 404 (PError ''not_found''))
                 | Some (d, None) \<Rightarrow>
                     if m \<noteq> GET then (w, Answer 405 (PError ''method''))
                     else (w, Answer 200 (PPrefixList d (prefix_list d fs)))
                 | Some (d, Some n) \<Rightarrow>
                     (let (fs', r) = serve_artifact prefix_plan token m (rq_auth rq) d n (q ''sha256'') rid fs
                      in (w\<lparr>w_prefix := Some fs'\<rparr>, artifact_answer r))))
         else if \<not> prefix ''/v1/pads/'' p then (w, NotOurs)
         else case (w_ledger w, w_ship w) of
                (Some s, Some fs) \<Rightarrow>
                  if p = ''/v1/pads/key'' \<and> m = GET then (w, Answer 200 (PKey (pubKey (ledgerKey (mem s))) PADS_EPOCH))
                  else if p = ''/v1/pads/pvm'' \<and> m = GET then
                    (w, answer_option ''unknown_tunnel'' PConsumer (pads_pvm cr hb s (q ''name'')))
                  else if p = ''/v1/pads/ledger'' \<and> m = GET then
                    (w, answer_option ''unknown_seed'' PMark (pads_mark s (q ''seed_id'')))
                  else if p = ''/v1/pads/consumers'' \<and> m = GET then
                    (w, Answer 200 (PConsumers (pads_consumers cr hb s)))
                  else if p = ''/v1/pads/receipts'' \<and> m = GET then
                    (w, answer_option ''unknown_seed'' PReceipts (pads_receipts s (q ''seed_id'')))
                  else if p \<in> {''/v1/pads/seed'', ''/v1/pads/reserve'', ''/v1/pads/receipt''} \<and> m = POST then
                    (case rq_body rq of
                       TooLarge \<Rightarrow> (w, Answer 413 (PError ''bad_json''))
                     | BadJson \<Rightarrow> (w, Answer 400 (PError ''bad_json''))
                     | Parsed b \<Rightarrow>
                         (let (s', out) =
                            (if p = ''/v1/pads/seed'' then pads_seed cr hb esk bn io (b_name b) (b_nonce b) (b_sig b) s
                             else if p = ''/v1/pads/reserve'' then
                               pads_reserve cr hb now io (b_name b) (b_seed_id b) (b_want b) (b_nonce b) (b_sig b) s
                             else pads_receipt cr hb now io (b_name b) (b_seed_id b) (b_pads b) (b_tokens b)
                                    (b_nonce b) (b_sig b) s)
                          in (w\<lparr>w_ledger := Some s'\<rparr>, answer_outcome out)))
                  else if p = ''/v1/pads/shipments'' \<and> m = GET then
                    (w, Answer 200 (PShipList (q ''seed_id'') (ship_list (q ''seed_id'') fs)))
                  else (case ship_route p of
                          Some (sid, n) \<Rightarrow>
                            (let (fs', r) = serve_artifact ship_plan token m (rq_auth rq) sid n (q ''sha256'') rid fs
                             in (w\<lparr>w_ship := Some fs'\<rparr>, artifact_answer r))
                        | None \<Rightarrow> (w, Answer 404 (PError ''not_found'')))
              | _ \<Rightarrow> (w, Answer 503 (PError ''pads_disabled'')))"

section \<open>Properties\<close>

text \<open>
  what a store serves is what the dealer declared. From an empty store, over any interleaving
  of requests, upload chunks, completions, aborts and deletions in which no upload is opened while
  another of the same name is in flight, the bytes a GET answers have a SHA-256 that an upload of
  that very name declared under the dealer's bearer.
\<close>

theorem served_bytes_were_declared:
  assumes "plan = ship_plan \<or> plan = prefix_plan"
    and "exclusive plan token sha evs empty_fs"
    and "snd (serve_artifact plan token GET auth key n s rid (art_run plan token sha evs empty_fs)) = ArtBytes bs"
  shows "((key, n), sha bs) \<in> declared token evs"
  using assms ship_store.served_bytes_declared prefix_store.served_bytes_declared by metis

definition demo_digest :: string where
  "demo_digest = ''abababababababababababababababababababababababababababababababab''"

definition demo_put :: "nat \<Rightarrow> art_event" where
  "demo_put rid = ArtReq PUT ''Bearer tok'' demo_digest ''base.kv'' demo_digest rid"

lemma demo_prefix_plan [simp]: "prefix_plan demo_digest ''base.kv'' = Some (''.base.kv.part'', ''base.kv'')"
  by (simp add: prefix_plan_def prefix_parse_def strip_suffix_def suffix_def prefix_base_def is_lower_alnum_def
      is_prefix_char_def good_digest_def hex_str_def demo_digest_def is_hex_def tmp_name_def)

lemma demo_digest_ok [simp]: "good_digest demo_digest" "to_lower demo_digest = demo_digest"
  by (simp_all add: good_digest_def hex_str_def demo_digest_def is_hex_def to_lower_def lower_char_def Let_def)

definition demo_sha :: "nat list \<Rightarrow> string" where
  "demo_sha bs = (if bs = [5, 6] then demo_digest else ''00'')"

definition demo_upload :: "art_event list" where
  "demo_upload = [demo_put 0, ArtChunk 0 [5], ArtChunk 0 [6], ArtFinish 0]"

lemmas demo_store_defs = demo_upload_def demo_put_def serve_artifact_def dealer_ok_def open_trunc_def empty_fs_def
  put_chunk_def put_finish_def write_at_def tmp_name_def demo_sha_def read_path_def st_file_def Let_def

theorem served_bytes_were_declared_witness:
  "((demo_digest, ''base.kv''), demo_sha [5, 6]) \<in> declared ''tok'' demo_upload"
proof -
  have x: "exclusive prefix_plan ''tok'' demo_sha demo_upload empty_fs"
    by (simp add: demo_store_defs)
  have g: "snd (serve_artifact prefix_plan ''tok'' GET [] demo_digest ''base.kv'' [] 1
      (art_run prefix_plan ''tok'' demo_sha demo_upload empty_fs)) = ArtBytes [5, 6]"
    by (simp add: demo_store_defs)
  show ?thesis by (rule served_bytes_were_declared [OF _ x g]) simp
qed

text \<open>
  Without the no-overlap condition this fails: a second upload of the same name truncates the
  temporary file the first one is writing, and the first one's completion, whose digest covers the
  bytes it received, then renames the mixed file into place.
\<close>

theorem overlapping_uploads_mix:
  "let evs = [demo_put 0, ArtChunk 0 [5, 6], demo_put 1, ArtChunk 1 [9], ArtFinish 0];
       fs = art_run prefix_plan ''tok'' demo_sha evs empty_fs
   in snd (serve_artifact prefix_plan ''tok'' GET [] demo_digest ''base.kv'' [] 1 fs) = ArtBytes [9] \<and>
      demo_sha [9] \<noteq> demo_digest"
proof -
  have "''00'' \<noteq> demo_digest" by (simp add: demo_digest_def)
  then show ?thesis by (simp add: demo_store_defs)
qed

text \<open>
  a name can neither leave its directory nor name an upload in progress. Every name either
  store accepts is non-empty, has no slash and no leading dot, is its own final file name, and no
  temporary name of an upload is ever accepted, so a half-written file is never served, listed
  or removed.
\<close>

theorem accepted_names_stay_inside:
  assumes "plan = ship_plan \<or> plan = prefix_plan" "plan key n = Some (t, f)"
  shows "f = n \<and> t = ''.'' @ n @ ''.part'' \<and> n \<noteq> [] \<and> hd n \<noteq> CHR ''.'' \<and> CHR ''/'' \<notin> set n \<and>
         (\<forall>key' m. plan key' (tmp_name m) = None) \<and> t \<notin> set (map sh_name (ship_list key fs)) \<and>
         t \<notin> set (map fst (prefix_list key fs))"
proof -
  have t: "f = n" "t = tmp_name n" "n \<noteq> [] \<and> hd n \<noteq> CHR ''.'' \<and> CHR ''/'' \<notin> set n"
    using assms ship_store.plan_names prefix_store.plan_names
      ship_store.plan_segment [of key n] prefix_store.plan_segment [of key n] by auto
  have no: "plan key' (tmp_name m) = None" for key' m
    using assms(1) ship_store.tmp_not_planned prefix_store.tmp_not_planned by auto
  have s: "ship_parse (tmp_name n) = None"
  proof (rule ccontr)
    assume "ship_parse (tmp_name n) \<noteq> None"
    then obtain sid i c where p: "ship_parse (tmp_name n) = Some (sid, i, c)" by (cases "ship_parse (tmp_name n)") auto
    then have "ship_plan sid (tmp_name n) \<noteq> None"
      using ship_parse_shape [OF p] by (auto simp: ship_plan_def)
    with ship_store.tmp_not_planned show False by simp
  qed
  have r: "prefix_parse (tmp_name n) = None"
  proof (rule ccontr)
    assume "prefix_parse (tmp_name n) \<noteq> None"
    then have "prefix_plan demo_digest (tmp_name n) \<noteq> None" by (auto simp: prefix_plan_def)
    with prefix_store.tmp_not_planned show False by simp
  qed
  have "t \<notin> set (map sh_name (ship_list key fs))"
    using s t(2) by (auto simp: ship_list_def split: option.splits)
  moreover have "t \<notin> set (map fst (prefix_list key fs))"
    using r t(2) by (auto simp: prefix_list_def set_foldr_insert_name)
  ultimately show ?thesis using t no by (simp add: tmp_name_def)
qed

theorem accepted_names_stay_inside_witness:
  "prefix_plan demo_digest ''base.kv'' = Some (''.base.kv.part'', ''base.kv'') \<and>
   prefix_plan demo_digest (tmp_name ''base.kv'') = None"
  using accepted_names_stay_inside [of prefix_plan demo_digest "''base.kv''" "''.base.kv.part''" "''base.kv''" empty_fs]
  by simp

text \<open>
  a shipment's name carries its coordinates. The name the dealer builds from a seed id and two
  numbers is accepted under that seed and no other, and the store reads back the same index and
  count.
\<close>

theorem shipment_name_roundtrip:
  assumes "good_seed_id sid" "i \<le> 2 ^ 53" "c \<le> 2 ^ 53"
  shows "ship_parse (sid @ ''-'' @ show_nat i @ ''-'' @ show_nat c @ ''.pads'') = Some (sid, int i, int c) \<and>
         (ship_plan key (sid @ ''-'' @ show_nat i @ ''-'' @ show_nat c @ ''.pads'') \<noteq> None \<longleftrightarrow> key = sid)"
proof -
  have l: "length sid = 32" using assms(1) by (simp add: good_seed_id_def hex_str_def)
  have d: "takeWhile is_digit (show_nat k @ x # xs) = show_nat k \<and> dropWhile is_digit (show_nat k @ x # xs) = x # xs"
    if "\<not> is_digit x" for k x xs
    using that show_nat_digits [of k] by (simp add: takeWhile_append dropWhile_append list_all_iff)
  have nd: "\<not> is_digit CHR ''-''" "\<not> is_digit CHR ''.''" by (simp_all add: is_digit_def)
  have "int i \<le> 2 ^ 53" "int c \<le> 2 ^ 53"
    using assms(2,3) by (simp_all add: of_nat_le_iff [of _ "2 ^ 53", where 'a = int, symmetric] del: of_nat_le_iff)
  then have "ship_parse (sid @ ''-'' @ show_nat i @ ''-'' @ show_nat c @ ''.pads'') = Some (sid, int i, int c)"
    using assms(1) l d nd by (simp add: ship_parse_def Let_def)
  then show ?thesis using assms(1) by (auto simp: ship_plan_def)
qed

theorem shipment_name_roundtrip_witness:
  "ship_parse (demo_seed_id @ ''-'' @ show_nat 4096 @ ''-'' @ show_nat 12 @ ''.pads'') = Some (demo_seed_id, 4096, 12)"
  using shipment_name_roundtrip [of demo_seed_id 4096 12 demo_seed_id] by simp

end
