(* ===== verification/Billing_Orders.thy ===== *)
theory Billing_Orders
  imports Js_Prelude
begin

text \<open>
  The order service of \<open>relay/billing.js\<close>: the order record and its state machine
  (\<open>setOrderState\<close> is the only writer of the state), the tolerance policy, the indexer's
  payment callbacks, the Stripe webhook, the review queue, the expiry sweep, quoting, and the
  creation of spec orders and top-ups with their gates.

  Amounts are BigInts in USDC micro-units, here \<^typ>\<open>int\<close>; times are milliseconds.
  A handler returns the new service state and the ids it hands on (to the provisioner or to the
  settlement of a top-up). The result of \<open>screenAddress\<close>, the random ids and the clock are
  arguments.
\<close>

section \<open>Orders\<close>

datatype order_state =
    AwaitingPayment | PendingConfirmations | ConfirmedProvisioning | Crediting
  | Complete | UnderReview | Expired | Rejected

datatype order_kind = SpecOrder | Topup

record payment =
  py_tx :: string
  py_log :: int
  py_payer :: string
  py_amount :: int

datatype vault_step = Depositing | DepositFailed | DepositDone

record vault_rec =
  vr_step :: vault_step
  vr_tx :: "string option"
  vr_at :: int

datatype prov_step = Creating | Funding | ProvDone

record provision =
  pv_step :: prov_step
  pv_txCreate :: "string option"
  pv_id :: "string option"
  pv_txFund :: "string option"

record hop =
  hop_from :: order_state
  hop_to :: order_state
  hop_via :: string

record order =
  od_kind :: order_kind
  od_account :: string
  od_ref :: string
  od_state :: order_state
  od_flags :: "string list"
  od_amount6 :: int
  od_rate6 :: int
  od_seconds :: int
  od_created :: int
  od_expires :: int
  od_payments :: "payment list"
  od_total6 :: int
  od_screening :: "(string \<times> string) list"
  od_stripe_event :: "string option"
  od_session :: "string option"
  od_vault :: "vault_rec option"
  od_provision :: "provision option"
  od_review :: "string option"
  od_history :: "hop list"

record review_item =
  ri_order :: "string option"
  ri_reason :: string
  ri_resolution :: "string option"

record billing =
  bl_orders :: "(string \<times> order) list"
  bl_byRef :: "(string \<times> string) list"
  bl_reviews :: "(string \<times> review_item) list"
  bl_events :: "(string \<times> string option) list"

definition terminal :: "order_state \<Rightarrow> bool" where
  "terminal st \<longleftrightarrow> st \<in> {Complete, Expired, Rejected}"

definition set_order_state :: "order_state \<Rightarrow> string \<Rightarrow> order \<Rightarrow> order" where
  "set_order_state to via od =
     (if od_state od = to then od
      else if terminal (od_state od) \<and> \<not> (od_state od = Expired \<and> to = UnderReview) then od
      else od\<lparr>od_history := od_history od @ [\<lparr>hop_from = od_state od, hop_to = to, hop_via = via\<rparr>],
              od_state := to\<rparr>)"

definition add_flag :: "string \<Rightarrow> order \<Rightarrow> order" where
  "add_flag f od = (if f \<in> set (od_flags od) then od else od\<lparr>od_flags := od_flags od @ [f]\<rparr>)"

definition put_order :: "string \<Rightarrow> order \<Rightarrow> billing \<Rightarrow> billing" where
  "put_order oid od b = b\<lparr>bl_orders := AList.update oid od (bl_orders b)\<rparr>"

text \<open>\<open>openReview\<close> on the order \<open>oid\<close>, whose current record is \<open>od\<close>; \<open>rid\<close> is the fresh item id.\<close>

definition open_review :: "string \<Rightarrow> string \<Rightarrow> string \<Rightarrow> order \<Rightarrow> billing \<Rightarrow> billing" where
  "open_review rid reason oid od b =
     (let od1 = (if od_review od = None then od\<lparr>od_review := Some rid\<rparr> else od)
      in put_order oid (add_flag reason od1)
           (b\<lparr>bl_reviews := AList.update rid
                \<lparr>ri_order = Some oid, ri_reason = reason, ri_resolution = None\<rparr> (bl_reviews b)\<rparr>))"

section \<open>The tolerance policy\<close>

definition UNDERPAY_DUST_6 :: int where "UNDERPAY_DUST_6 = 50000"
definition UNDERPAY_DUST_BP :: int where "UNDERPAY_DUST_BP = 50"
definition OVERPAY_FLAG_6 :: int where "OVERPAY_FLAG_6 = 10000000"
definition OVERPAY_FLAG_BP :: int where "OVERPAY_FLAG_BP = 1000"
definition VAULT_CAP_6 :: int where "VAULT_CAP_6 = 2000000000"
definition TOPUP_MIN_6 :: int where "TOPUP_MIN_6 = 5000000"
definition MIN_SECONDS :: int where "MIN_SECONDS = 3600"
definition MAX_SECONDS :: int where "MAX_SECONDS = 7776000"
definition ORDER_TTL_MS :: int where "ORDER_TTL_MS = 86400000"

datatype verdict = Provision "string list" | Review string

definition dust :: "int \<Rightarrow> int" where
  "dust a = (let pct = big_div (a * UNDERPAY_DUST_BP) 10000
             in if pct > UNDERPAY_DUST_6 then pct else UNDERPAY_DUST_6)"

definition overflag :: "int \<Rightarrow> int" where
  "overflag a = (let pct = big_div (a * OVERPAY_FLAG_BP) 10000
                 in if pct > OVERPAY_FLAG_6 then pct else OVERPAY_FLAG_6)"

definition evaluate_payment :: "int \<Rightarrow> int \<Rightarrow> verdict" where
  "evaluate_payment amount6 total6 =
     (if total6 \<le> 0 then Review ''no_payment''
      else if amount6 - total6 > dust amount6 then Review ''underpayment''
      else Provision (if total6 - amount6 > overflag amount6 then [''large_overpayment''] else []))"

definition reserved_topup6 :: "(string \<times> order) list \<Rightarrow> int" where
  "reserved_topup6 os =
     sum_list (map (\<lambda>(i, od). if od_kind od = Topup \<and> \<not> terminal (od_state od) then od_amount6 od else 0) os)"

section \<open>The indexer's callbacks\<close>

datatype screen = Clear | Hit | Stale

definition screen_name :: "screen \<Rightarrow> string" where
  "screen_name sc = (case sc of Clear \<Rightarrow> ''clear'' | Hit \<Rightarrow> ''hit'' | Stale \<Rightarrow> ''stale'')"

record payment_log =
  pl_ref :: string
  pl_payer :: string
  pl_amount :: int
  pl_tx :: string
  pl_log :: int

definition HUMAN_ONLY :: "string list" where
  "HUMAN_ONLY = [''ofac_hit'', ''screening_stale'', ''payment_after_expiry'', ''partial_payment_expired'']"

definition record_payment :: "payment_log \<Rightarrow> order \<Rightarrow> order" where
  "record_payment l od =
     (let ps = od_payments od @ [\<lparr>py_tx = pl_tx l, py_log = pl_log l, py_payer = to_lower (pl_payer l),
                                   py_amount = pl_amount l\<rparr>]
      in od\<lparr>od_payments := ps, od_total6 := sum_list (map py_amount ps)\<rparr>)"

definition decide_payment :: "string \<Rightarrow> string \<Rightarrow> order \<Rightarrow> billing \<Rightarrow> billing \<times> string list" where
  "decide_payment rid oid od b =
     (case evaluate_payment (od_amount6 od) (od_total6 od) of
        Provision fs \<Rightarrow>
          (let od1 = foldl (\<lambda>acc f. add_flag f acc) od fs
           in if od_state od1 = UnderReview \<and> list_ex (\<lambda>f. f \<in> set HUMAN_ONLY) (od_flags od1)
              then (put_order oid od1 b, [])
              else let b1 = (if ''large_overpayment'' \<in> set fs then open_review rid ''large_overpayment'' oid od1 b
                             else put_order oid od1 b);
                       od2 = (case map_of (bl_orders b1) oid of Some o2 \<Rightarrow> o2 | None \<Rightarrow> od1)
                   in (put_order oid (set_order_state ConfirmedProvisioning ''indexer'' od2) b1, [oid]))
      | Review reason \<Rightarrow>
          if od_state od \<noteq> UnderReview
          then (open_review rid reason oid (set_order_state UnderReview ''indexer'' od) b, [])
          else (put_order oid od b, []))"

definition handle_confirmed_payment ::
  "int \<Rightarrow> string \<Rightarrow> (string \<Rightarrow> screen) \<Rightarrow> payment_log \<Rightarrow> billing \<Rightarrow> billing \<times> string list" where
  "handle_confirmed_payment now rid screenAddress l b =
     (case map_of (bl_byRef b) (to_lower (pl_ref l)) of
        None \<Rightarrow>
          (b\<lparr>bl_reviews := AList.update rid
               \<lparr>ri_order = None, ri_reason = ''unmatched_payment'', ri_resolution = None\<rparr> (bl_reviews b)\<rparr>, [])
      | Some oid \<Rightarrow>
          (case map_of (bl_orders b) oid of
             None \<Rightarrow> (b, [])
           | Some od0 \<Rightarrow>
               if list_ex (\<lambda>p. py_tx p = pl_tx l \<and> py_log p = pl_log l) (od_payments od0) then (b, [])
               else
                 let od = record_payment l od0
                 in if od_state od = Complete \<or> od_state od = Rejected
                    then (open_review rid ''payment_after_settlement'' oid od b, [])
                    else
                      let sc = screenAddress (pl_payer l);
                          od' = od\<lparr>od_screening :=
                                 AList.update (to_lower (pl_payer l)) (screen_name sc) (od_screening od)\<rparr>
                      in if sc = Hit
                         then (open_review rid ''ofac_hit'' oid (set_order_state UnderReview ''indexer'' od') b, [])
                         else if sc = Stale
                         then (open_review rid ''screening_stale'' oid (set_order_state UnderReview ''indexer'' od') b, [])
                         else if od_state od' = Expired \<or> od_expires od' < now - 300000
                         then (open_review rid ''payment_after_expiry'' oid
                                 (set_order_state UnderReview ''indexer'' od') b, [])
                         else if od_kind od' = Topup
                         then let od'' = set_order_state UnderReview ''indexer'' od'
                              in (if ''usdc_on_topup'' \<in> set (od_flags od'') then (put_order oid od'' b, [])
                                  else (open_review rid ''usdc_on_topup'' oid od'' b, []))
                         else decide_payment rid oid od' b))"

definition handle_pending_payment :: "string \<Rightarrow> billing \<Rightarrow> billing" where
  "handle_pending_payment ref b =
     (case map_of (bl_byRef b) (to_lower ref) of
        None \<Rightarrow> b
      | Some oid \<Rightarrow>
          (case map_of (bl_orders b) oid of
             None \<Rightarrow> b
           | Some od \<Rightarrow>
               if od_state od = AwaitingPayment
               then put_order oid (set_order_state PendingConfirmations ''indexer'' od) b else b))"

section \<open>The Stripe webhook\<close>

datatype stripe_type = CheckoutCompleted | AsyncSucceeded | AsyncFailed | OtherEvent

record stripe_event =
  se_id :: string
  se_type :: stripe_type
  se_order :: "string option"
  se_session :: string
  se_paid :: bool

definition stripe_webhook :: "stripe_event \<Rightarrow> billing \<Rightarrow> billing \<times> string list" where
  "stripe_webhook e b0 =
     (if map_of (bl_events b0) (se_id e) \<noteq> None then (b0, [])
      else
        let b = b0\<lparr>bl_events := AList.update (se_id e) None (bl_events b0)\<rparr>;
            hit = (case se_order e of None \<Rightarrow> None
                   | Some oid \<Rightarrow> map_option (\<lambda>od. (oid, od)) (map_of (bl_orders b) oid))
        in if se_type e = CheckoutCompleted \<or> se_type e = AsyncSucceeded then
             (case hit of
                Some (oid, od) \<Rightarrow>
                  if se_paid e \<and> \<not> terminal (od_state od) then
                    let od1 = od\<lparr>od_session := Some (se_session e), od_stripe_event := Some (se_id e)\<rparr>;
                        b1 = b\<lparr>bl_events := AList.update (se_id e) (Some oid) (bl_events b)\<rparr>
                    in (put_order oid
                          (set_order_state (if od_kind od = Topup then Crediting else ConfirmedProvisioning)
                             ''stripe_webhook'' od1) b1, [oid])
                  else (b, [])
              | None \<Rightarrow> (b, []))
           else if se_type e = AsyncFailed then
             (case hit of
                Some (oid, od) \<Rightarrow>
                  if od_state od = AwaitingPayment
                  then (put_order oid (set_order_state AwaitingPayment ''stripe_webhook'' od) b, [])
                  else (b, [])
              | None \<Rightarrow> (b, []))
           else (b, []))"

section \<open>The review queue\<close>

datatype billing_error = BillingError int string

definition clear_hashless :: "order \<Rightarrow> order" where
  "clear_hashless od =
     (case od_vault od of
        Some v \<Rightarrow> if vr_step v \<noteq> DepositDone \<and> vr_tx v = None then od\<lparr>od_vault := None\<rparr> else od
      | None \<Rightarrow> od)"

definition resolve_review ::
  "string \<Rightarrow> string \<Rightarrow> billing \<Rightarrow> billing_error + (billing \<times> string list)" where
  "resolve_review rid action b =
     (case map_of (bl_reviews b) rid of
        None \<Rightarrow> Inl (BillingError 404 ''not_found'')
      | Some it \<Rightarrow>
          if ri_resolution it \<noteq> None then Inl (BillingError 409 ''already_resolved'')
          else if action \<noteq> ''approve'' \<and> action \<noteq> ''reject'' then Inl (BillingError 422 ''bad_action'')
          else
            let b1 = b\<lparr>bl_reviews := AList.update rid (it\<lparr>ri_resolution := Some action\<rparr>) (bl_reviews b)\<rparr>
            in (case (case ri_order it of None \<Rightarrow> None
                      | Some oid \<Rightarrow> map_option (\<lambda>od. (oid, od)) (map_of (bl_orders b1) oid)) of
                  None \<Rightarrow> Inr (b1, [])
                | Some (oid, od) \<Rightarrow>
                    if od_kind od = Topup then
                      let od1 = od\<lparr>od_flags := filter (\<lambda>f. f \<noteq> ri_reason it) (od_flags od)\<rparr>
                      in if action = ''approve'' then
                           let od2 = clear_hashless od1;
                               od3 = (if od_state od2 = UnderReview
                                      then set_order_state Crediting ''reviewer'' od2 else od2)
                           in Inr (put_order oid od3 b1, [oid])
                         else if od_state od1 = UnderReview \<or> od_state od1 = Crediting
                         then Inr (put_order oid (set_order_state Rejected ''reviewer'' od1) b1, [])
                         else Inr (put_order oid od1 b1, [])
                    else if od_state od = UnderReview then
                      (if action = ''approve''
                       then Inr (put_order oid (set_order_state ConfirmedProvisioning ''reviewer'' od) b1, [oid])
                       else Inr (put_order oid (set_order_state Rejected ''reviewer'' od) b1, []))
                    else Inr (b1, [])))"

section \<open>The expiry sweep\<close>

text \<open>One order of the sweep; \<open>mk\<close> makes the fresh review id.\<close>

definition expire_order :: "int \<Rightarrow> (string \<Rightarrow> string) \<Rightarrow> string \<Rightarrow> billing \<Rightarrow> billing" where
  "expire_order now mk oid b =
     (case map_of (bl_orders b) oid of
        None \<Rightarrow> b
      | Some od \<Rightarrow>
          if od_state od \<noteq> AwaitingPayment \<and> od_state od \<noteq> PendingConfirmations then b
          else if od_expires od > now then b
          else if od_payments od \<noteq> [] \<or> od_stripe_event od \<noteq> None
          then open_review (mk oid) ''partial_payment_expired'' oid (set_order_state UnderReview ''expiry'' od) b
          else put_order oid (set_order_state Expired ''expiry'' od) b)"

definition expiry_sweep :: "int \<Rightarrow> (string \<Rightarrow> string) \<Rightarrow> billing \<Rightarrow> billing" where
  "expiry_sweep now mk b = foldl (\<lambda>acc oid. expire_order now mk oid acc) b (map fst (bl_orders b))"

section \<open>The order invariant\<close>

text \<open>
  \<open>legal_move\<close> is the contract of the state machine: a terminal state never moves, with the
  one exception the source names. An order is well formed when its history is an unbroken chain
  of legal moves from \<^const>\<open>AwaitingPayment\<close> to its state, no log entry is recorded twice,
  and the total is the sum of the recorded payments.
\<close>

definition legal_move :: "order_state \<Rightarrow> order_state \<Rightarrow> bool" where
  "legal_move f t \<longleftrightarrow> f \<noteq> t \<and> (\<not> terminal f \<or> (f = Expired \<and> t = UnderReview))"

fun hops_chain :: "order_state \<Rightarrow> hop list \<Rightarrow> order_state \<Rightarrow> bool" where
  "hops_chain s [] t \<longleftrightarrow> s = t"
| "hops_chain s (h # hs) t \<longleftrightarrow> hop_from h = s \<and> legal_move s (hop_to h) \<and> hops_chain (hop_to h) hs t"

definition payment_key :: "payment \<Rightarrow> string \<times> int" where
  "payment_key p = (py_tx p, py_log p)"

definition order_ok :: "order \<Rightarrow> bool" where
  "order_ok od \<longleftrightarrow> hops_chain AwaitingPayment (od_history od) (od_state od)
     \<and> distinct (map payment_key (od_payments od))
     \<and> od_total6 od = sum_list (map py_amount (od_payments od))"

definition billing_ok :: "billing \<Rightarrow> bool" where
  "billing_ok b \<longleftrightarrow> list_all (\<lambda>(i, od). order_ok od) (bl_orders b)"

lemma hops_chain_snoc:
  "hops_chain s hs t \<Longrightarrow> legal_move t u \<Longrightarrow>
   hops_chain s (hs @ [\<lparr>hop_from = t, hop_to = u, hop_via = v\<rparr>]) u"
  by (induction hs arbitrary: s) auto

lemma hops_chain_not_terminal:
  "hops_chain s hs t \<Longrightarrow> h \<in> set hs \<Longrightarrow> legal_move (hop_from h) (hop_to h)"
  by (induction hs arbitrary: s) auto

lemma set_order_state_simps [simp]:
  "od_flags (set_order_state t v od) = od_flags od"
  "od_payments (set_order_state t v od) = od_payments od"
  "od_total6 (set_order_state t v od) = od_total6 od"
  "od_amount6 (set_order_state t v od) = od_amount6 od"
  "od_kind (set_order_state t v od) = od_kind od"
  "od_vault (set_order_state t v od) = od_vault od"
  "od_provision (set_order_state t v od) = od_provision od"
  "od_review (set_order_state t v od) = od_review od"
  "od_expires (set_order_state t v od) = od_expires od"
  "od_screening (set_order_state t v od) = od_screening od"
  by (simp_all add: set_order_state_def)

lemma set_order_state_state:
  "od_state (set_order_state t v od) =
     (if terminal (od_state od) \<and> \<not> (od_state od = Expired \<and> t = UnderReview)
      then od_state od else t)"
  by (auto simp: set_order_state_def)

lemma add_flag_simps [simp]:
  "od_state (add_flag f od) = od_state od"
  "od_payments (add_flag f od) = od_payments od"
  "od_total6 (add_flag f od) = od_total6 od"
  "od_amount6 (add_flag f od) = od_amount6 od"
  "od_kind (add_flag f od) = od_kind od"
  "od_history (add_flag f od) = od_history od"
  "od_vault (add_flag f od) = od_vault od"
  "od_expires (add_flag f od) = od_expires od"
  "set (od_flags (add_flag f od)) = insert f (set (od_flags od))"
  by (auto simp: add_flag_def)

lemma order_ok_set_state [simp, intro]: "order_ok od \<Longrightarrow> order_ok (set_order_state t v od)"
  by (auto simp: order_ok_def set_order_state_def legal_move_def intro!: hops_chain_snoc)

lemma order_ok_add_flag [simp]: "order_ok (add_flag f od) = order_ok od"
  by (simp add: order_ok_def)

lemma order_ok_more [simp]:
  "order_ok (od\<lparr>od_review := r\<rparr>) = order_ok od"
  "order_ok (od\<lparr>od_flags := fs\<rparr>) = order_ok od"
  "order_ok (od\<lparr>od_vault := v\<rparr>) = order_ok od"
  "order_ok (od\<lparr>od_provision := p\<rparr>) = order_ok od"
  "order_ok (od\<lparr>od_screening := c\<rparr>) = order_ok od"
  "order_ok (od\<lparr>od_session := x\<rparr>) = order_ok od"
  "order_ok (od\<lparr>od_stripe_event := x\<rparr>) = order_ok od"
  by (simp_all add: order_ok_def)

lemma order_ok_record_payment:
  "order_ok od \<Longrightarrow> \<not> list_ex (\<lambda>p. py_tx p = pl_tx l \<and> py_log p = pl_log l) (od_payments od) \<Longrightarrow>
   order_ok (record_payment l od)"
  by (auto simp: order_ok_def record_payment_def payment_key_def list_ex_iff Let_def)

lemma order_ok_clear_hashless [simp]: "order_ok (clear_hashless od) = order_ok od"
  by (simp add: clear_hashless_def split: option.splits)

lemma foldl_add_flag_ok [simp]: "order_ok (foldl (\<lambda>acc f. add_flag f acc) od fs) = order_ok od"
  by (induction fs arbitrary: od) simp_all

lemma foldl_add_flag_simps [simp]:
  "od_state (foldl (\<lambda>acc f. add_flag f acc) od fs) = od_state od"
  "od_total6 (foldl (\<lambda>acc f. add_flag f acc) od fs) = od_total6 od"
  "od_amount6 (foldl (\<lambda>acc f. add_flag f acc) od fs) = od_amount6 od"
  "od_payments (foldl (\<lambda>acc f. add_flag f acc) od fs) = od_payments od"
  "od_kind (foldl (\<lambda>acc f. add_flag f acc) od fs) = od_kind od"
  "set (od_flags (foldl (\<lambda>acc f. add_flag f acc) od fs)) = set fs \<union> set (od_flags od)"
  by (induction fs arbitrary: od) auto

lemma put_order_simps [simp]:
  "bl_orders (put_order oid od b) = AList.update oid od (bl_orders b)"
  "bl_byRef (put_order oid od b) = bl_byRef b"
  "bl_reviews (put_order oid od b) = bl_reviews b"
  "bl_events (put_order oid od b) = bl_events b"
  by (simp_all add: put_order_def)

definition reviewed :: "string \<Rightarrow> string \<Rightarrow> order \<Rightarrow> order" where
  "reviewed rid reason od = add_flag reason (if od_review od = None then od\<lparr>od_review := Some rid\<rparr> else od)"

lemma open_review_simps [simp]:
  "bl_orders (open_review rid r oid od b) = AList.update oid (reviewed rid r od) (bl_orders b)"
  "bl_byRef (open_review rid r oid od b) = bl_byRef b"
  "bl_events (open_review rid r oid od b) = bl_events b"
  by (simp_all add: open_review_def reviewed_def Let_def)

lemma reviewed_simps [simp]:
  "order_ok (reviewed rid r od) = order_ok od"
  "od_state (reviewed rid r od) = od_state od"
  "od_payments (reviewed rid r od) = od_payments od"
  "od_total6 (reviewed rid r od) = od_total6 od"
  "od_amount6 (reviewed rid r od) = od_amount6 od"
  "od_kind (reviewed rid r od) = od_kind od"
  "od_vault (reviewed rid r od) = od_vault od"
  "od_history (reviewed rid r od) = od_history od"
  "set (od_flags (reviewed rid r od)) = insert r (set (od_flags od))"
  by (simp_all add: reviewed_def)

lemma record_payment_simps [simp]:
  "od_state (record_payment l od) = od_state od"
  "od_amount6 (record_payment l od) = od_amount6 od"
  "od_kind (record_payment l od) = od_kind od"
  "od_flags (record_payment l od) = od_flags od"
  "od_expires (record_payment l od) = od_expires od"
  "od_history (record_payment l od) = od_history od"
  by (simp_all add: record_payment_def Let_def)

lemma list_all_update:
  "list_all (\<lambda>(i, x). P x) m \<Longrightarrow> P v \<Longrightarrow> list_all (\<lambda>(i, x). P x) (AList.update k v m)"
  by (induction m) auto

lemma billing_okD: "billing_ok b \<Longrightarrow> map_of (bl_orders b) oid = Some od \<Longrightarrow> order_ok od"
  by (auto simp: billing_ok_def list_all_iff dest!: map_of_SomeD)

lemma billing_ok_put [intro!]: "billing_ok b \<Longrightarrow> order_ok od \<Longrightarrow> billing_ok (put_order oid od b)"
  by (simp add: billing_ok_def list_all_update)

lemma billing_ok_open [intro!]: "billing_ok b \<Longrightarrow> order_ok od \<Longrightarrow> billing_ok (open_review rid r oid od b)"
  by (simp add: billing_ok_def list_all_update)

lemma billing_ok_other [simp]:
  "billing_ok (b\<lparr>bl_reviews := x\<rparr>) = billing_ok b"
  "billing_ok (b\<lparr>bl_events := y\<rparr>) = billing_ok b"
  "billing_ok (b\<lparr>bl_byRef := z\<rparr>) = billing_ok b"
  by (simp_all add: billing_ok_def)

lemma decide_payment_ok:
  "billing_ok b \<Longrightarrow> order_ok od \<Longrightarrow> billing_ok (fst (decide_payment rid oid od b))"
  by (auto simp: decide_payment_def Let_def split: verdict.splits
      intro!: billing_ok_put billing_ok_open)

lemma handle_confirmed_ok:
  assumes "billing_ok b"
  shows "billing_ok (fst (handle_confirmed_payment now rid scr l b))"
  using assms billing_okD [OF assms]
  by (auto simp: handle_confirmed_payment_def Let_def order_ok_record_payment
      intro!: decide_payment_ok split: option.splits)

lemma handle_pending_ok: "billing_ok b \<Longrightarrow> billing_ok (handle_pending_payment ref b)"
  using billing_okD [of b] by (auto simp: handle_pending_payment_def split: option.splits)

lemma stripe_webhook_ok:
  assumes "billing_ok b"
  shows "billing_ok (fst (stripe_webhook e b))"
  using assms billing_okD [OF assms]
  by (auto simp: stripe_webhook_def Let_def split: option.splits)

lemma resolve_review_ok:
  assumes "billing_ok b" "resolve_review rid act b = Inr (b', ids)"
  shows "billing_ok b'"
  using assms billing_okD [OF assms(1)]
  by (auto simp: resolve_review_def Let_def split: option.splits if_splits)

lemma expire_order_ok: "billing_ok b \<Longrightarrow> billing_ok (expire_order now mk oid b)"
  using billing_okD [of b oid] by (auto simp: expire_order_def split: option.splits)

lemma expiry_sweep_ok:
  assumes "billing_ok b"
  shows "billing_ok (expiry_sweep now mk b)"
proof -
  have "billing_ok (foldl (\<lambda>acc oid. expire_order now mk oid acc) b ids)" for ids
    using assms by (induction ids arbitrary: b) (simp_all add: expire_order_ok)
  then show ?thesis by (simp add: expiry_sweep_def)
qed

section \<open>What the payment callback provisions\<close>

lemma decide_payment_ids:
  "decide_payment rid oid od b = (b', ids) \<Longrightarrow> ids \<noteq> [] \<Longrightarrow>
   ids = [oid] \<and> (\<exists>fs. evaluate_payment (od_amount6 od) (od_total6 od) = Provision fs)
   \<and> \<not> (od_state od = UnderReview \<and> (\<exists>f \<in> set (od_flags od). f \<in> set HUMAN_ONLY))"
  by (auto simp: decide_payment_def Let_def list_ex_iff split: verdict.splits if_splits)

lemma handle_confirmed_cases:
  assumes "handle_confirmed_payment now rid scr l b = (b', ids)"
  obtains
    (unmatched) "map_of (bl_byRef b) (to_lower (pl_ref l)) = None" "ids = []" "bl_orders b' = bl_orders b"
  | (dangling) oid where "map_of (bl_byRef b) (to_lower (pl_ref l)) = Some oid"
      "map_of (bl_orders b) oid = None" "ids = []" "b' = b"
  | (replay) oid od where "map_of (bl_byRef b) (to_lower (pl_ref l)) = Some oid"
      "map_of (bl_orders b) oid = Some od" "(pl_tx l, pl_log l) \<in> payment_key ` set (od_payments od)"
      "ids = []" "b' = b"
  | (held) oid od od' where "map_of (bl_byRef b) (to_lower (pl_ref l)) = Some oid"
      "map_of (bl_orders b) oid = Some od"
      "(pl_tx l, pl_log l) \<notin> payment_key ` set (od_payments od)" "ids = []"
      "map_of (bl_orders b') oid = Some od'"
      "od_state od' = (if od_state od = Complete \<or> od_state od = Rejected then od_state od else UnderReview)"
      "od_payments od' = od_payments (record_payment l od)"
      "od_state od = Complete \<or> od_state od = Rejected \<or> scr (pl_payer l) \<noteq> Clear
       \<or> od_state od = Expired \<or> od_expires od < now - 300000 \<or> od_kind od = Topup"
  | (decided) oid od where "map_of (bl_byRef b) (to_lower (pl_ref l)) = Some oid"
      "map_of (bl_orders b) oid = Some od"
      "(pl_tx l, pl_log l) \<notin> payment_key ` set (od_payments od)"
      "scr (pl_payer l) = Clear" "\<not> terminal (od_state od)" "od_kind od = SpecOrder"
      "od_expires od \<ge> now - 300000"
      "(b', ids) = decide_payment rid oid (record_payment l od
          \<lparr>od_screening := AList.update (to_lower (pl_payer l)) ''clear'' (od_screening od)\<rparr>) b"
proof -
  have scr_rec: "od_screening (record_payment l od) = od_screening od" for od
    by (simp add: record_payment_def Let_def)
  have key: "list_ex (\<lambda>p. py_tx p = pl_tx l \<and> py_log p = pl_log l) ps
      \<longleftrightarrow> (pl_tx l, pl_log l) \<in> payment_key ` set ps" for ps
    by (force simp: list_ex_iff payment_key_def image_iff)
  show thesis
  proof (cases "map_of (bl_byRef b) (to_lower (pl_ref l))")
    case None
    with assms show ?thesis by (intro unmatched) (auto simp: handle_confirmed_payment_def)
  next
    case oid: (Some oid)
    show ?thesis
    proof (cases "map_of (bl_orders b) oid")
      case None
      with assms oid show ?thesis by (intro dangling) (auto simp: handle_confirmed_payment_def)
    next
      case od: (Some od)
      note h = assms [unfolded handle_confirmed_payment_def oid option.case od key Let_def]
      consider (r) "(pl_tx l, pl_log l) \<in> payment_key ` set (od_payments od)"
        | (h) "(pl_tx l, pl_log l) \<notin> payment_key ` set (od_payments od)"
              "od_state od = Complete \<or> od_state od = Rejected \<or> scr (pl_payer l) \<noteq> Clear
               \<or> od_state od = Expired \<or> od_expires od < now - 300000 \<or> od_kind od = Topup"
        | (d) "(pl_tx l, pl_log l) \<notin> payment_key ` set (od_payments od)"
              "\<not> (od_state od = Complete \<or> od_state od = Rejected \<or> scr (pl_payer l) \<noteq> Clear
               \<or> od_state od = Expired \<or> od_expires od < now - 300000 \<or> od_kind od = Topup)"
        by blast
      then show ?thesis
      proof cases
        case r
        with h oid od show ?thesis by (intro replay) auto
      next
        case h': h
        with h oid od show ?thesis
          by (intro held [of oid od "the (map_of (bl_orders b') oid)"]; cases "scr (pl_payer l)")
            (auto simp: set_order_state_state terminal_def split: if_splits)
      next
        case d
        then have "scr (pl_payer l) = Clear" "\<not> terminal (od_state od)" "od_kind od = SpecOrder"
          by (auto simp: terminal_def) (metis order_kind.exhaust)+
        with d h oid od show ?thesis
          by (intro decided [of oid od]) (auto simp: screen_name_def scr_rec)
      qed
    qed
  qed
qed

lemma evaluate_payment_iff:
  "evaluate_payment a t = Provision fs \<longleftrightarrow>
     0 < t \<and> a - t \<le> dust a \<and> fs = (if t - a > overflag a then [''large_overpayment''] else [])"
  by (auto simp: evaluate_payment_def)

text \<open>
  C13: A payment log moves an order to provisioning only on the terms the source promises: the
  order is a spec order that is not terminal and not past its expiry grace, the payer screened
  clear, no human-only flag holds an order under review, this log entry was not recorded before,
  and the total of the recorded payments is positive and short of the quote by at most the
  larger of $0.05 and half a percent.
\<close>
theorem indexer_provisions_only_paid_orders:
  assumes "handle_confirmed_payment now rid scr l b = (b', ids)" and "oid \<in> set ids"
    and "billing_ok b"
  shows "\<exists>od. map_of (bl_byRef b) (to_lower (pl_ref l)) = Some oid \<and> map_of (bl_orders b) oid = Some od
     \<and> od_kind od = SpecOrder \<and> \<not> terminal (od_state od) \<and> od_expires od \<ge> now - 300000
     \<and> scr (pl_payer l) = Clear
     \<and> (od_state od = UnderReview \<longrightarrow> set (od_flags od) \<inter> set HUMAN_ONLY = {})
     \<and> (pl_tx l, pl_log l) \<notin> payment_key ` set (od_payments od)
     \<and> 0 < od_total6 od + pl_amount l
     \<and> od_amount6 od - (od_total6 od + pl_amount l)
         \<le> max UNDERPAY_DUST_6 (big_div (od_amount6 od * UNDERPAY_DUST_BP) 10000)"
  using assms(1)
proof (cases rule: handle_confirmed_cases)
  case (decided oid' od)
  have tot: "od_total6 (record_payment l od) = od_total6 od + pl_amount l"
    using billing_okD [OF assms(3) decided(2)] by (simp add: record_payment_def order_ok_def Let_def)
  have "ids \<noteq> []" using assms(2) by auto
  from decide_payment_ids [OF decided(8) [symmetric] this] decided assms(2) tot
  show ?thesis
    by (auto simp: evaluate_payment_iff dust_def Let_def split: if_splits)
qed (use assms(2) in auto)

definition demo_order :: order where
  "demo_order = \<lparr>od_kind = SpecOrder, od_account = ''acc'', od_ref = ''0xab'', od_state = AwaitingPayment,
     od_flags = [], od_amount6 = 36000000, od_rate6 = 10000, od_seconds = 3600, od_created = 0,
     od_expires = 86400000, od_payments = [], od_total6 = 0, od_screening = [], od_stripe_event = None,
     od_session = None, od_vault = None, od_provision = None, od_review = None, od_history = []\<rparr>"

definition demo_billing :: billing where
  "demo_billing = \<lparr>bl_orders = [(''ord'', demo_order)], bl_byRef = [(''0xab'', ''ord'')],
     bl_reviews = [], bl_events = []\<rparr>"

definition demo_log :: payment_log where
  "demo_log = \<lparr>pl_ref = ''0xAB'', pl_payer = ''0xc0'', pl_amount = 35900000, pl_tx = ''0x01'', pl_log = 4\<rparr>"

lemma demo_lower: "to_lower ''0xAB'' = ''0xab''" "to_lower ''0xc0'' = ''0xc0''"
  by code_simp+

lemma demo_run:
  "snd (handle_confirmed_payment 0 ''rev'' (\<lambda>_. Clear) demo_log demo_billing) = [''ord'']"
  by (simp add: handle_confirmed_payment_def demo_log_def demo_billing_def demo_order_def demo_lower
      record_payment_def Let_def decide_payment_def evaluate_payment_def dust_def overflag_def
      UNDERPAY_DUST_6_def UNDERPAY_DUST_BP_def OVERPAY_FLAG_6_def OVERPAY_FLAG_BP_def big_div_def)

lemma demo_ok: "billing_ok demo_billing"
  by (simp add: billing_ok_def demo_billing_def demo_order_def order_ok_def)

theorem indexer_provisions_only_paid_orders_witness:
  "snd (handle_confirmed_payment 0 ''rev'' (\<lambda>_. Clear) demo_log demo_billing) = [''ord''] \<and>
   0 < od_total6 demo_order + pl_amount demo_log"
proof -
  let ?r = "handle_confirmed_payment 0 ''rev'' (\<lambda>_. Clear) demo_log demo_billing"
  have m: "map_of (bl_orders demo_billing) ''ord'' = Some demo_order"
    by (simp add: demo_billing_def)
  have "''ord'' \<in> set (snd ?r)" by (simp add: demo_run)
  from indexer_provisions_only_paid_orders
    [where l = demo_log and oid = "''ord''" and b = demo_billing, OF prod.collapse [symmetric] this demo_ok] m
  show ?thesis by (auto simp: demo_run)
qed

end
