(* ===== verification/Billing_Sales.thy ===== *)
theory Billing_Sales
  imports Billing_Orders
begin

text \<open>
  Quoting and selling (\<open>relay/billing.js\<close>): the ledger's ceiling rate, \<open>validateDeploySpec\<close>,
  the creation of spec orders and of card top-ups with the float gate, card checkout, the vault
  prepare checks, the Stripe signature check, and the float sweep of \<open>relay/vaultsvc.js\<close> that
  must keep sold credit in the wallet.

  The JSON numbers of a request are given after the source's \<open>Math.round(Number(..))\<close> as a
  \<^typ>\<open>js_num\<close>. What the chain and
  the configuration answer (rates, balances, the publisher fee) are arguments; a failing read
  is \<^term>\<open>None\<close>.
\<close>

section \<open>The rate\<close>

record rates =
  rt_gpu :: int
  rt_cpu :: int
  rt_maxGpu :: int
  rt_rev :: int

definition rate6_for :: "rates \<Rightarrow> int \<Rightarrow> int \<Rightarrow> int" where
  "rate6_for r gpuMilli cpuMilli = big_div (rt_gpu r * gpuMilli + rt_cpu r * cpuMilli + 999) 1000"

record fleet_ask =
  fa_gpu :: "int option"
  fa_cpu :: "int option"

text \<open>
  \<open>ledgerRates\<close> (a cached answer aside): the ledger revision decides between the cheapest live
  enclave and the ledger's own price. \<open>schema\<close> and \<open>maxGpu\<close> have their defaults when the read fails.
\<close>

definition ledger_rates ::
  "bool \<Rightarrow> int option \<Rightarrow> int option \<Rightarrow> fleet_ask \<Rightarrow> (int \<times> int) option \<Rightarrow> rates option" where
  "ledger_rates known maxGpu schema ask onchain =
     (if \<not> known then None
      else let m = (case maxGpu of Some m \<Rightarrow> m | None \<Rightarrow> 1000);
               r = (case schema of Some r \<Rightarrow> r | None \<Rightarrow> 0)
           in if r \<ge> 8 then
                (case fa_cpu ask of
                   None \<Rightarrow> None
                 | Some c \<Rightarrow> if c = 0 then None
                     else Some \<lparr>rt_gpu = (case fa_gpu ask of Some g \<Rightarrow> g | None \<Rightarrow> 0), rt_cpu = c,
                                rt_maxGpu = m, rt_rev = r\<rparr>)
              else map_option (\<lambda>(p, c). \<lparr>rt_gpu = p, rt_cpu = c, rt_maxGpu = m, rt_rev = r\<rparr>) onchain)"

section \<open>Deploy specs\<close>

record deploy_request =
  dr_seconds :: js_num
  dr_cents :: js_num
  dr_gpu :: js_num
  dr_cpu :: js_num
  dr_appRef :: string
  dr_appPort :: js_num
  dr_ports :: string
  dr_configCid :: string

record deploy_spec =
  ds_appRef :: string
  ds_gpu :: int
  ds_cpu :: int
  ds_appPort :: int
  ds_ports :: string
  ds_configCid :: string
  ds_maxRate6 :: int

record quote =
  qt_spec :: deploy_spec
  qt_seconds :: int
  qt_rate6 :: int
  qt_amount6 :: int

text \<open>
  The duration: seconds when the request has them, otherwise what the dollar budget buys at the
  quoted rate (\<open>dr_cents\<close> is \<open>Math.round(fundUsd * 100)\<close>, \<^const>\<open>NaN\<close> when \<open>fundUsd\<close> is not finite and
  \<^const>\<open>Infinite\<close> when the product overflows). A zero rate, and an infinite number of cents, make
  the BigInt arithmetic throw, which is the error \<open>range_error\<close>.
\<close>

definition duration_for :: "rates \<Rightarrow> int \<Rightarrow> int \<Rightarrow> deploy_request \<Rightarrow> billing_error + js_num" where
  "duration_for r gpu cpu d =
     (case dr_seconds d of
        Fin s \<Rightarrow> Inr (Fin s)
      | x \<Rightarrow>
          (case dr_cents d of
             Fin cents \<Rightarrow>
               if cents > 0 then
                 (if rate6_for r gpu cpu = 0 then Inl (BillingError 500 ''range_error'')
                  else Inr (Fin (big_div (cents * 10000) (rate6_for r gpu cpu))))
               else Inr x
           | Infinite \<Rightarrow> Inl (BillingError 500 ''range_error'')
           | NaN \<Rightarrow> Inr x))"

definition validate_deploy_spec ::
  "rates option \<Rightarrow> (string \<Rightarrow> int option) \<Rightarrow> deploy_request \<Rightarrow> billing_error + quote" where
  "validate_deploy_spec ledger publisherFee6 d =
     (case ledger of
        None \<Rightarrow> Inl (BillingError 503 ''quote_unavailable'')
      | Some r \<Rightarrow>
          if dr_appRef d = [] \<or> length (dr_appRef d) > 100 then Inl (BillingError 422 ''bad_app_ref'')
          else if \<not> within 1 1000 (or_default 0 (dr_cpu d)) then Inl (BillingError 422 ''bad_cpu'')
          else if \<not> within 0 (rt_maxGpu r) (or_default 0 (dr_gpu d)) then Inl (BillingError 422 ''bad_gpu'')
          else let gpu = fin_val (or_default 0 (dr_gpu d)); cpu = fin_val (or_default 0 (dr_cpu d));
                   port = or_default 8080 (dr_appPort d) in
            if \<not> rt_rev r \<ge> 13 \<and> gpu > 0 \<and> gpu < cpu then Inl (BillingError 422 ''bad_shares'')
            else if \<not> within 1 65535 port then Inl (BillingError 422 ''bad_port'')
            else if length (dr_ports d) > 96 \<or> length (dr_configCid d) > 100
            then Inl (BillingError 422 ''bad_spec'')
            else (case duration_for r gpu cpu d of
                Inl e \<Rightarrow> Inl e
              | Inr secs \<Rightarrow>
                  if \<not> within MIN_SECONDS MAX_SECONDS secs then Inl (BillingError 422 ''bad_duration'')
                  else if (case publisherFee6 (dr_appRef d) of Some f \<Rightarrow> f > 0 | None \<Rightarrow> False)
                  then Inl (BillingError 422 ''publisher_fee_unsupported'')
                  else let rate6 = rate6_for r gpu cpu in
                    Inr \<lparr>qt_spec = \<lparr>ds_appRef = dr_appRef d, ds_gpu = gpu, ds_cpu = cpu,
                           ds_appPort = fin_val port, ds_ports = dr_ports d,
                           ds_configCid = dr_configCid d, ds_maxRate6 = rate6\<rparr>,
                         qt_seconds = fin_val secs, qt_rate6 = rate6, qt_amount6 = rate6 * fin_val secs\<rparr>))"

section \<open>Creating orders\<close>

definition new_order :: "order_kind \<Rightarrow> string \<Rightarrow> string \<Rightarrow> int \<Rightarrow> int \<Rightarrow> int \<Rightarrow> int \<Rightarrow> order" where
  "new_order kind account ref now rate6 secs amount6 =
     \<lparr>od_kind = kind, od_account = account, od_ref = ref, od_state = AwaitingPayment, od_flags = [],
      od_amount6 = amount6, od_rate6 = rate6, od_seconds = secs, od_created = now,
      od_expires = now + ORDER_TTL_MS, od_payments = [], od_total6 = 0, od_screening = [],
      od_stripe_event = None, od_session = None, od_vault = None, od_provision = None,
      od_review = None, od_history = []\<rparr>"

definition add_order :: "string \<Rightarrow> order \<Rightarrow> billing \<Rightarrow> billing" where
  "add_order oid od b =
     (put_order oid od b)\<lparr>bl_byRef := AList.update (to_lower (od_ref od)) oid (bl_byRef b)\<rparr>"

text \<open>\<open>POST /v1/billing/orders\<close>; \<open>oid\<close> and \<open>ref\<close> are the random ids.\<close>

definition create_order ::
  "int \<Rightarrow> bool \<Rightarrow> string \<Rightarrow> string \<Rightarrow> string \<Rightarrow> rates option \<Rightarrow> (string \<Rightarrow> int option) \<Rightarrow> deploy_request
   \<Rightarrow> billing \<Rightarrow> billing_error + billing" where
  "create_order now allowed oid ref account ledger fee d b =
     (if \<not> allowed then Inl (BillingError 429 ''rate_limited'')
      else (case validate_deploy_spec ledger fee d of
              Inl e \<Rightarrow> Inl e
            | Inr q \<Rightarrow> Inr (add_order oid
                (new_order SpecOrder account ref now (qt_rate6 q) (qt_seconds q) (qt_amount6 q)) b)))"

definition checkout_cents :: "int \<Rightarrow> int" where
  "checkout_cents amount6 = - ((- amount6) div 10000)"

text \<open>\<open>POST /v1/billing/orders/<id>/checkout\<close>: the card charge in cents.\<close>

definition checkout :: "bool \<Rightarrow> string \<Rightarrow> string \<Rightarrow> billing \<Rightarrow> billing_error + int" where
  "checkout stripe_on account oid b =
     (if \<not> stripe_on then Inl (BillingError 503 ''stripe_disabled'')
      else (case map_of (bl_orders b) oid of
              None \<Rightarrow> Inl (BillingError 404 ''not_found'')
            | Some od \<Rightarrow>
                if od_account od \<noteq> account then Inl (BillingError 404 ''not_found'')
                else if od_state od \<noteq> AwaitingPayment then Inl (BillingError 409 ''not_payable'')
                else if checkout_cents (od_amount6 od) < 50
                then Inl (BillingError 422 ''below_card_minimum'')
                else Inr (checkout_cents (od_amount6 od))))"

section \<open>Top-ups and the float gate\<close>

record topup_env =
  te_allowed :: bool
  te_stripe :: bool
  te_vault :: bool
  te_key :: bool
  te_balance6 :: "int option"
  te_float6 :: "int option"

definition create_topup ::
  "int \<Rightarrow> topup_env \<Rightarrow> string \<Rightarrow> string \<Rightarrow> string \<Rightarrow> js_num \<Rightarrow> billing \<Rightarrow> billing_error + billing" where
  "create_topup now env oid ref account cents b =
     (if \<not> te_allowed env then Inl (BillingError 429 ''rate_limited'')
      else if \<not> te_stripe env then Inl (BillingError 503 ''stripe_disabled'')
      else if \<not> te_vault env then Inl (BillingError 503 ''vault_disabled'')
      else if \<not> te_key env then Inl (BillingError 409 ''no_vault_key'')
      else (case cents of
              Fin c \<Rightarrow>
                if c \<le> 0 then Inl (BillingError 422 ''bad_amount'')
                else let amount6 = c * 10000 in
                  if amount6 < TOPUP_MIN_6 then Inl (BillingError 422 ''below_minimum'')
                  else (case te_balance6 env of
                      None \<Rightarrow> Inl (BillingError 502 ''vault_error'')
                    | Some bal \<Rightarrow>
                        if bal + amount6 > VAULT_CAP_6 then Inl (BillingError 422 ''over_cap'')
                        else (case te_float6 env of
                            None \<Rightarrow> Inl (BillingError 503 ''float_unavailable'')
                          | Some float6 \<Rightarrow>
                              if amount6 > float6 - reserved_topup6 (bl_orders b)
                              then Inl (BillingError 422 ''insufficient_float'')
                              else Inr (add_order oid (new_order Topup account ref now 0 0 amount6) b)))
            | _ \<Rightarrow> Inl (BillingError 422 ''bad_amount'')))"

text \<open>\<open>floatSweepAmount\<close> and the amount \<open>floatPass\<close> sends to the treasury.\<close>

definition FLOAT_TARGET_6 :: int where "FLOAT_TARGET_6 = 200000000"
definition FLOAT_CEILING_6 :: int where "FLOAT_CEILING_6 = 400000000"

definition float_sweep_amount :: "int \<Rightarrow> int \<Rightarrow> int \<Rightarrow> int \<Rightarrow> int" where
  "float_sweep_amount balance6 target6 ceiling6 reserved6 =
     (let keep6 = (if reserved6 > target6 then reserved6 else target6)
      in if balance6 > ceiling6 \<and> balance6 > keep6 then balance6 - keep6 else 0)"

text \<open>
  \<open>floatPass\<close>: a first reading decides whether to queue a transfer, a second one, taken when
  the serial queue gets to it, decides the amount. \<^term>\<open>None\<close>: no transfer.
\<close>

definition float_pass :: "int \<times> int option \<Rightarrow> int \<times> int \<Rightarrow> int option" where
  "float_pass before now =
     (case snd before of
        None \<Rightarrow> None
      | Some reserved6 \<Rightarrow>
          if float_sweep_amount (fst before) FLOAT_TARGET_6 FLOAT_CEILING_6 reserved6 = 0 then None
          else let excess = float_sweep_amount (fst now) FLOAT_TARGET_6 FLOAT_CEILING_6 (snd now)
               in if excess = 0 then None else Some excess)"

section \<open>Vault operations\<close>

text \<open>The amount checks of \<open>POST /v1/billing/vault/prepare\<close>: what may be signed for.\<close>

datatype vault_op =
    OpDeploy deploy_request
  | OpFund string js_num
  | OpRefund js_num
  | OpUnknown

definition hex64_id :: "string \<Rightarrow> bool" where
  "hex64_id s \<longleftrightarrow> take 2 s = ''0x'' \<and> hex_str 64 64 (to_lower (drop 2 s))"

definition vault_prepare ::
  "int \<Rightarrow> rates option \<Rightarrow> (string \<Rightarrow> int option) \<Rightarrow> vault_op \<Rightarrow> billing_error + int" where
  "vault_prepare balance6 ledger fee op =
     (case op of
        OpDeploy d \<Rightarrow>
          (case validate_deploy_spec ledger fee d of
             Inl e \<Rightarrow> Inl e
           | Inr q \<Rightarrow> if qt_amount6 q > balance6 then Inl (BillingError 422 ''insufficient_credit'')
                      else Inr (qt_amount6 q))
      | OpFund i cents \<Rightarrow>
          if \<not> hex64_id i \<or> \<not> (case cents of Fin c \<Rightarrow> c > 0 | _ \<Rightarrow> False)
          then Inl (BillingError 422 ''bad_params'')
          else if fin_val cents * 10000 > balance6 then Inl (BillingError 422 ''insufficient_credit'')
          else Inr (fin_val cents * 10000)
      | OpRefund cents \<Rightarrow>
          if \<not> (case cents of Fin c \<Rightarrow> c > 0 | _ \<Rightarrow> False) then Inl (BillingError 422 ''bad_params'')
          else if fin_val cents * 10000 > balance6 then Inl (BillingError 422 ''insufficient_credit'')
          else Inr (fin_val cents * 10000)
      | OpUnknown \<Rightarrow> Inl (BillingError 422 ''bad_op''))"

section \<open>The Stripe signature\<close>

text \<open>\<open>s.split("=", 2)\<close> keeps the first two pieces: a key and, when there is one, a value.\<close>

definition sig_field :: "string \<Rightarrow> string \<times> string option" where
  "sig_field s = (let ps = split_on (CHR ''='') s
                  in (hd ps, if length ps > 1 then Some (ps ! 1) else None))"

definition field_value :: "string \<Rightarrow> (string \<times> string option) list \<Rightarrow> string option" where
  "field_value k fs = (case find (\<lambda>f. fst f = k) fs of Some f \<Rightarrow> snd f | None \<Rightarrow> None)"

text \<open>
  \<open>hmac\<close> is HMAC-SHA256 in lower-case hexadecimal; \<open>now\<close> is the clock in milliseconds. A candidate
  of the right length is decoded as hexadecimal, in either case, and compared.
\<close>

definition verify_stripe_signature ::
  "(string \<Rightarrow> string \<Rightarrow> string) \<Rightarrow> string \<Rightarrow> string \<Rightarrow> string \<Rightarrow> int \<Rightarrow> bool" where
  "verify_stripe_signature hmac rawBody header secret now =
     (let fs = map sig_field (split_on (CHR '','') header)
      in (case Option.bind (field_value ''t'' fs) parse_int10 of
            None \<Rightarrow> False
          | Some t \<Rightarrow>
              \<not> \<bar>now - 1000 * t\<bar> > 300000 \<and>
              (let expected = hmac secret (show_int t @ ''.'' @ rawBody)
               in list_ex (\<lambda>(k, v). k = ''v1'' \<and>
                    (case v of None \<Rightarrow> False
                     | Some g \<Rightarrow> length g = length expected \<and> to_lower g = expected)) fs)))"

section \<open>What a sale promises\<close>

lemma validate_deploy_spec_cases:
  assumes "validate_deploy_spec ledger fee d = Inr q"
  obtains r gpu cpu port secs where "ledger = Some r" "dr_appRef d \<noteq> []" "length (dr_appRef d) \<le> 100"
    "or_default 0 (dr_gpu d) = Fin gpu" "or_default 0 (dr_cpu d) = Fin cpu"
    "or_default 8080 (dr_appPort d) = Fin port"
    "1 \<le> cpu" "cpu \<le> 1000" "0 \<le> gpu" "gpu \<le> rt_maxGpu r"
    "rt_rev r \<ge> 13 \<or> gpu = 0 \<or> cpu \<le> gpu" "1 \<le> port" "port \<le> 65535"
    "length (dr_ports d) \<le> 96" "length (dr_configCid d) \<le> 100"
    "duration_for r gpu cpu d = Inr (Fin secs)" "MIN_SECONDS \<le> secs" "secs \<le> MAX_SECONDS"
    "\<not> (\<exists>f > 0. fee (dr_appRef d) = Some f)"
    "q = \<lparr>qt_spec = \<lparr>ds_appRef = dr_appRef d, ds_gpu = gpu, ds_cpu = cpu, ds_appPort = port,
            ds_ports = dr_ports d, ds_configCid = dr_configCid d, ds_maxRate6 = rate6_for r gpu cpu\<rparr>,
          qt_seconds = secs, qt_rate6 = rate6_for r gpu cpu, qt_amount6 = rate6_for r gpu cpu * secs\<rparr>"
proof -
  obtain r where r: "ledger = Some r"
    using assms by (cases ledger) (simp_all add: validate_deploy_spec_def)
  note h = assms [unfolded validate_deploy_spec_def r option.case Let_def]
  from h have w: "within 1 1000 (or_default 0 (dr_cpu d))" "within 0 (rt_maxGpu r) (or_default 0 (dr_gpu d))"
    "within 1 65535 (or_default 8080 (dr_appPort d))"
    by (auto split: if_splits)
  then obtain cpu gpu port where n: "or_default 0 (dr_cpu d) = Fin cpu" "or_default 0 (dr_gpu d) = Fin gpu"
    "or_default 8080 (dr_appPort d) = Fin port" "1 \<le> cpu" "cpu \<le> 1000" "0 \<le> gpu" "gpu \<le> rt_maxGpu r"
    "1 \<le> port" "port \<le> 65535" by (elim within_cases) auto
  obtain secs where s: "duration_for r gpu cpu d = Inr secs"
    using h n by (cases "duration_for r gpu cpu d") (auto simp: fin_val_def split: if_splits)
  have "within MIN_SECONDS MAX_SECONDS secs"
    using h n s by (auto simp: fin_val_def split: if_splits)
  then obtain x where "secs = Fin x" "MIN_SECONDS \<le> x" "x \<le> MAX_SECONDS" by (elim within_cases)
  with h n s r show ?thesis
    by (intro that [of r gpu cpu port x])
      (auto simp: fin_val_def split: if_splits option.splits)
qed

lemma rate6_for_pos:
  assumes "0 \<le> rt_gpu r" "0 < rt_cpu r" "0 \<le> gpu" "1 \<le> cpu"
  shows "0 < rate6_for r gpu cpu"
    and "rt_gpu r * gpu + rt_cpu r * cpu \<le> 1000 * rate6_for r gpu cpu"
    and "1000 * rate6_for r gpu cpu < rt_gpu r * gpu + rt_cpu r * cpu + 1000"
proof -
  let ?n = "rt_gpu r * gpu + rt_cpu r * cpu"
  have "0 < rt_cpu r * cpu" "0 \<le> rt_gpu r * gpu" using assms by auto
  then have n: "0 < ?n" by linarith
  then have e: "rate6_for r gpu cpu = (?n + 999) div 1000"
    by (simp add: rate6_for_def big_div_nonneg)
  from n show "0 < rate6_for r gpu cpu" "?n \<le> 1000 * rate6_for r gpu cpu"
    "1000 * rate6_for r gpu cpu < ?n + 1000"
    unfolding e by linarith+
qed

lemma big_div_mult_le: "0 \<le> a \<Longrightarrow> 0 < b \<Longrightarrow> b * big_div a b \<le> a"
  by (simp add: big_div_nonneg minus_mod_eq_mult_div [symmetric])

text \<open>
  C40: A quote is exactly the price of what it sells. Whenever the ledger's prices are sane the
  quoted rate is the least whole micro-dollar rate that covers the ledger's per-second price for
  these shares, it is the ceiling written into the spec, the amount is the rate times the
  seconds, and a request given as a dollar budget is never quoted more than that budget. The
  spec obeys the ledger's own \<open>create()\<close> limits.
\<close>
theorem quote_is_exact:
  assumes "validate_deploy_spec (Some r) fee d = Inr q" and "0 \<le> rt_gpu r" "0 < rt_cpu r"
  shows "1000 * (qt_rate6 q - 1) < rt_gpu r * ds_gpu (qt_spec q) + rt_cpu r * ds_cpu (qt_spec q)
     \<and> rt_gpu r * ds_gpu (qt_spec q) + rt_cpu r * ds_cpu (qt_spec q) \<le> 1000 * qt_rate6 q
     \<and> ds_maxRate6 (qt_spec q) = qt_rate6 q \<and> qt_amount6 q = qt_rate6 q * qt_seconds q
     \<and> 0 < qt_amount6 q
     \<and> MIN_SECONDS \<le> qt_seconds q \<and> qt_seconds q \<le> MAX_SECONDS
     \<and> (rt_rev r < 13 \<and> 0 < ds_gpu (qt_spec q) \<longrightarrow> ds_cpu (qt_spec q) \<le> ds_gpu (qt_spec q))
     \<and> ds_gpu (qt_spec q) \<le> rt_maxGpu r
     \<and> ((\<forall>s. dr_seconds d \<noteq> Fin s) \<longrightarrow> (\<exists>c. dr_cents d = Fin c \<and> qt_amount6 q \<le> c * 10000))"
  using assms(1)
proof (cases rule: validate_deploy_spec_cases)
  case (1 r' gpu cpu port secs)
  then have r: "r' = r" by simp
  note pos = rate6_for_pos [OF assms(2,3) 1(9) 1(7)]
  have secs0: "0 < secs" using 1 by (simp add: MIN_SECONDS_def)
  have budget: "\<exists>c. dr_cents d = Fin c \<and> rate6_for r gpu cpu * secs \<le> c * 10000"
    if "\<forall>s. dr_seconds d \<noteq> Fin s"
    using 1(16) that pos(1) big_div_mult_le [of "fin_val (dr_cents d) * 10000" "rate6_for r gpu cpu"]
    by (auto simp: duration_for_def r fin_val_def split: js_num.splits if_splits)
  show ?thesis
    using 1 pos secs0 budget by (auto simp: r)
qed

definition demo_rates :: rates where
  "demo_rates = \<lparr>rt_gpu = 278, rt_cpu = 28, rt_maxGpu = 1000, rt_rev = 13\<rparr>"

definition demo_request :: deploy_request where
  "demo_request = \<lparr>dr_seconds = NaN, dr_cents = Fin 250, dr_gpu = Fin 250, dr_cpu = Fin 500,
     dr_appRef = ''catalog://x'', dr_appPort = NaN, dr_ports = [], dr_configCid = []\<rparr>"

lemma demo_quote:
  "validate_deploy_spec (Some demo_rates) (\<lambda>_. Some 0) demo_request =
     Inr \<lparr>qt_spec = \<lparr>ds_appRef = ''catalog://x'', ds_gpu = 250, ds_cpu = 500, ds_appPort = 8080,
            ds_ports = [], ds_configCid = [], ds_maxRate6 = 84\<rparr>,
          qt_seconds = 29761, qt_rate6 = 84, qt_amount6 = 2499924\<rparr>"
  by (simp add: validate_deploy_spec_def demo_rates_def demo_request_def within_def or_default_def
      fin_val_def duration_for_def rate6_for_def big_div_def Let_def MIN_SECONDS_def MAX_SECONDS_def)

theorem quote_is_exact_witness:
  "(2499924::int) \<le> 250 * 10000 \<and> MIN_SECONDS \<le> 29761"
  using quote_is_exact [OF demo_quote] by (simp add: demo_rates_def demo_request_def)

lemma checkout_cents_bounds:
  "a \<le> checkout_cents a * 10000" "checkout_cents a * 10000 < a + 10000"
  unfolding checkout_cents_def by linarith+

text \<open>Every admitted request of a vault operation is covered by the balance it was shown.\<close>

lemma vault_prepare_covered:
  assumes "vault_prepare balance6 ledger fee op = Inr amount6"
  shows "amount6 \<le> balance6"
  using assms by (auto simp: vault_prepare_def split: vault_op.splits sum.splits if_splits)

section \<open>The float gate\<close>

lemma reserved_update:
  assumes "map_of os oid = None"
  shows "reserved_topup6 (AList.update oid od os) = reserved_topup6 os
     + (if od_kind od = Topup \<and> \<not> terminal (od_state od) then od_amount6 od else 0)"
  using assms by (induction os) (auto simp: reserved_topup6_def split: if_splits)

lemma create_topup_cases:
  assumes "create_topup now env oid ref account cents b = Inr b'"
  obtains c bal float6 where "cents = Fin c" "0 < c" "TOPUP_MIN_6 \<le> c * 10000"
    "te_balance6 env = Some bal" "bal + c * 10000 \<le> VAULT_CAP_6"
    "te_float6 env = Some float6" "c * 10000 + reserved_topup6 (bl_orders b) \<le> float6"
    "te_stripe env" "te_vault env" "te_key env" "te_allowed env"
    "b' = add_order oid (new_order Topup account ref now 0 0 (c * 10000)) b"
proof -
  from assms obtain c where c: "cents = Fin c"
    by (cases cents) (auto simp: create_topup_def split: if_splits)
  from assms obtain bal where bal: "te_balance6 env = Some bal"
    by (cases "te_balance6 env") (auto simp: create_topup_def c Let_def split: if_splits)
  from assms obtain float6 where fl: "te_float6 env = Some float6"
    by (cases "te_float6 env") (auto simp: create_topup_def c bal Let_def split: if_splits)
  from assms show ?thesis
    by (intro that [OF c _ _ bal _ fl])
      (auto simp: create_topup_def c bal fl Let_def split: if_splits)
qed

text \<open>
  The float gate. A top-up is sold only for at least the minimum, only while the vault stays
  under the closed-loop cap, and only when every open top-up, the new one included, is backed by
  the relayer balance that was read; no sweep of the float then dips under what is reserved.
\<close>
theorem sold_credit_is_backed:
  assumes "create_topup now env oid ref account cents b = Inr b'"
    and "map_of (bl_orders b) oid = None" and "te_float6 env = Some float6"
  shows "reserved_topup6 (bl_orders b') \<le> float6
     \<and> (\<exists>od bal. map_of (bl_orders b') oid = Some od \<and> te_balance6 env = Some bal
          \<and> TOPUP_MIN_6 \<le> od_amount6 od \<and> bal + od_amount6 od \<le> VAULT_CAP_6
          \<and> reserved_topup6 (bl_orders b') = reserved_topup6 (bl_orders b) + od_amount6 od)
     \<and> float6 - float_sweep_amount float6 FLOAT_TARGET_6 FLOAT_CEILING_6 (reserved_topup6 (bl_orders b'))
         \<ge> reserved_topup6 (bl_orders b')"
  using assms(1)
proof (cases rule: create_topup_cases)
  case (1 c bal fl)
  have r: "reserved_topup6 (bl_orders b') = reserved_topup6 (bl_orders b) + c * 10000"
    using reserved_update [OF assms(2)] 1 by (simp add: add_order_def new_order_def terminal_def)
  moreover have "map_of (bl_orders b') oid = Some (new_order Topup account ref now 0 0 (c * 10000))"
    using 1 by (simp add: add_order_def)
  ultimately show ?thesis
    using 1 assms(3) by (auto simp: new_order_def float_sweep_amount_def Let_def)
qed

definition demo_env :: topup_env where
  "demo_env = \<lparr>te_allowed = True, te_stripe = True, te_vault = True, te_key = True,
     te_balance6 = Some 0, te_float6 = Some 60000000\<rparr>"

theorem sold_credit_is_backed_witness:
  "reserved_topup6 (bl_orders (add_order ''ord'' (new_order Topup ''acc'' ''0xab'' 0 0 0 50000000)
     \<lparr>bl_orders = [], bl_byRef = [], bl_reviews = [], bl_events = []\<rparr>)) \<le> 60000000"
proof -
  let ?b = "\<lparr>bl_orders = [], bl_byRef = [], bl_reviews = [], bl_events = []\<rparr>"
  have "create_topup 0 demo_env ''ord'' ''0xab'' ''acc'' (Fin 5000) ?b
      = Inr (add_order ''ord'' (new_order Topup ''acc'' ''0xab'' 0 0 0 50000000) ?b)"
    by (simp add: create_topup_def demo_env_def TOPUP_MIN_6_def VAULT_CAP_6_def reserved_topup6_def)
  from sold_credit_is_backed [OF this] show ?thesis by (simp add: demo_env_def)
qed

lemma float_pass_keeps_reserve:
  assumes "float_pass before now = Some amount6"
  shows "0 < amount6 \<and> snd now \<le> fst now - amount6 \<and> FLOAT_TARGET_6 \<le> fst now - amount6"
  using assms
  by (auto simp: float_pass_def float_sweep_amount_def Let_def split: option.splits if_splits)

section \<open>Signatures of the webhook\<close>

lemma list_ex_v1:
  "list_ex (\<lambda>(k, v). k = k0 \<and> (case v of None \<Rightarrow> False | Some g \<Rightarrow> Q g)) fs
     \<longleftrightarrow> (\<exists>g. (k0, Some g) \<in> set fs \<and> Q g)"
  by (induction fs) (auto split: option.splits)

text \<open>
  A webhook body is accepted exactly when its header carries a timestamp within five minutes
  of the clock and at least one \<open>v1\<close> candidate, wherever it stands among the others, that is the
  hexadecimal HMAC of this timestamp and this body: candidates signed with another secret, as
  Stripe sends while a secret is rolled, never hide the good one.
\<close>
theorem any_matching_signature_suffices:
  "verify_stripe_signature hmac rawBody header secret now \<longleftrightarrow>
     (let fs = map sig_field (split_on (CHR '','') header)
      in \<exists>t. Option.bind (field_value ''t'' fs) parse_int10 = Some t \<and> \<bar>now - 1000 * t\<bar> \<le> 300000
         \<and> (\<exists>g. (''v1'', Some g) \<in> set fs
              \<and> to_lower g = hmac secret (show_int t @ ''.'' @ rawBody)))"
proof -
  have len: "length g = length e \<and> to_lower g = e \<longleftrightarrow> to_lower g = e" for g e
    by (auto simp: to_lower_def)
  show ?thesis
    unfolding verify_stripe_signature_def Let_def list_ex_v1 len
    by (cases "Option.bind (field_value ''t'' (map sig_field (split_on (CHR '','') header))) parse_int10")
      (simp_all add: not_less)
qed

end
