(* ===== verification/Topup_Settlement.thy ===== *)
theory Topup_Settlement
  imports Billing_Orders
begin

text \<open>
  The settlement of a paid top-up (\<open>settleTopup\<close>, \<open>topupPlan\<close>, \<open>verifyDeposit\<close> of
  \<open>relay/billing.js\<close> with \<open>depositToVault\<close> of \<open>relay/vaultsvc.js\<close>): company USDC is
  transferred to the customer's vault, and the claim is that it is transferred once.

  The settlement of one order is a step relation. Its state is the order in memory, the order
  in the file (\<open>orders.flush()\<close> copies one to the other at once, \<open>saveSoon()\<close> some time later), the
  place of the running \<open>settleTopup\<close> call between two awaits (the \<open>_settling\<close> set admits one call
  per order, and a crash forgets it), and the deposits of this order the chain has seen.
\<close>

section \<open>The pure decisions\<close>

datatype settle_plan = PlanSettle | PlanVerify | PlanReview | PlanWait

definition topup_plan :: "vault_rec option \<Rightarrow> bool \<Rightarrow> settle_plan" where
  "topup_plan vault alreadyReviewed =
     (case vault of
        None \<Rightarrow> PlanSettle
      | Some v \<Rightarrow>
          if vr_step v = DepositFailed then PlanSettle
          else if vr_step v = Depositing then
            (if vr_tx v \<noteq> None then PlanVerify
             else if alreadyReviewed then PlanWait else PlanReview)
          else PlanWait)"

datatype tx_status = Pending | Mined | Reverted

definition flagged :: "order \<Rightarrow> bool" where
  "flagged od \<longleftrightarrow> ''topup_uncertain'' \<in> set (od_flags od)"

datatype verify_result = VDone | VRetry | VWait

text \<open>
  \<open>verifyDeposit\<close> on what the chain says of the recorded hash: \<open>Some st\<close> for a transaction it
  knows, \<open>None\<close> for one it has never seen; \<open>rid\<close> is the fresh id of a review.
\<close>

definition verify_deposit :: "int \<Rightarrow> string \<Rightarrow> tx_status option \<Rightarrow> order \<Rightarrow> order \<times> verify_result" where
  "verify_deposit now rid seen od =
     (case od_vault od of
        None \<Rightarrow> (od, VWait)
      | Some v \<Rightarrow>
          (case seen of
             Some Mined \<Rightarrow>
               (set_order_state Complete ''vault_deposit_verified''
                  (od\<lparr>od_vault := Some (v\<lparr>vr_step := DepositDone\<rparr>)\<rparr>), VDone)
           | Some Reverted \<Rightarrow> (od, VRetry)
           | Some Pending \<Rightarrow> (od, VWait)
           | None \<Rightarrow>
               if vr_at v < now - 15 * 60000 \<and> \<not> flagged od
               then (reviewed rid ''topup_uncertain'' od, VWait) else (od, VWait)))"

definition begin_deposit :: "int \<Rightarrow> order \<Rightarrow> order" where
  "begin_deposit now od = od\<lparr>od_vault := Some \<lparr>vr_step = Depositing, vr_tx = None, vr_at = now\<rparr>\<rparr>"

text \<open>
  The callback \<open>onBroadcast\<close>. On an order whose record is gone, the assignment throws; so does the
  handler of that error, and the call ends with the order as it is (\<^term>\<open>None\<close>).
\<close>

definition on_broadcast :: "string \<Rightarrow> order \<Rightarrow> order option" where
  "on_broadcast h od = map_option (\<lambda>v. od\<lparr>od_vault := Some (v\<lparr>vr_tx := Some h\<rparr>)\<rparr>) (od_vault od)"

definition deposit_done :: "string \<Rightarrow> order \<Rightarrow> order" where
  "deposit_done h od =
     set_order_state Complete ''vault_deposit''
       (od\<lparr>od_vault := Some \<lparr>vr_step = DepositDone, vr_tx = Some h,
             vr_at = (case od_vault od of Some v \<Rightarrow> vr_at v | None \<Rightarrow> 0)\<rparr>\<rparr>)"

text \<open>The error branch of \<open>settleTopup\<close>.\<close>

definition deposit_error :: "bool \<Rightarrow> order \<Rightarrow> order" where
  "deposit_error reverted od =
     (case od_vault od of
        Some v \<Rightarrow> if vr_tx v \<noteq> None \<and> \<not> reverted then od
                  else od\<lparr>od_vault := Some \<lparr>vr_step = DepositFailed, vr_tx = None, vr_at = 0\<rparr>\<rparr>
      | None \<Rightarrow> od)"

text \<open>What the review route does to a top-up (see \<open>resolve_review\<close>), the queue apart.\<close>

definition approve_topup :: "string \<Rightarrow> order \<Rightarrow> order" where
  "approve_topup reason od =
     (let od1 = clear_hashless (od\<lparr>od_flags := filter (\<lambda>f. f \<noteq> reason) (od_flags od)\<rparr>)
      in if od_state od1 = UnderReview then set_order_state Crediting ''reviewer'' od1 else od1)"

definition reject_topup :: "string \<Rightarrow> order \<Rightarrow> order" where
  "reject_topup reason od =
     (let od1 = od\<lparr>od_flags := filter (\<lambda>f. f \<noteq> reason) (od_flags od)\<rparr>
      in if od_state od1 = UnderReview \<or> od_state od1 = Crediting
         then set_order_state Rejected ''reviewer'' od1 else od1)"

section \<open>One order, the chain and the process\<close>

datatype call =
    Idle
  | Reading
  | Sending
  | Accepted string
  | Waiting string

record settlement =
  sm_mem :: order
  sm_disk :: order
  sm_call :: call
  sm_chain :: "(string \<times> tx_status) list"

definition live :: "(string \<times> tx_status) list \<Rightarrow> string set" where
  "live ch = fst ` set (filter (\<lambda>t. snd t \<noteq> Reverted) ch)"

definition flush :: "settlement \<Rightarrow> settlement" where
  "flush s = s\<lparr>sm_disk := sm_mem s\<rparr>"

text \<open>
  \<open>careful\<close> is the discipline the review runbook asks for and the process does not enforce: a
  record without a hash is approved away only when no call is running and no deposit of the order
  is live. \<open>surprise\<close> allows the one behaviour of the wallet client the code does not provide
  for: \<open>writeContract\<close> throwing after the node took the transaction.
\<close>

inductive settle_step :: "bool \<Rightarrow> bool \<Rightarrow> settlement \<Rightarrow> settlement \<Rightarrow> bool" for careful surprise where
  start: "sm_call s = Idle \<Longrightarrow> od_state (sm_mem s) = Crediting \<Longrightarrow>
      topup_plan (od_vault (sm_mem s)) (flagged (sm_mem s)) = PlanSettle \<Longrightarrow>
      settle_step careful surprise s (s\<lparr>sm_call := Reading\<rparr>)"
| hold: "sm_call s = Idle \<Longrightarrow> od_state (sm_mem s) = Crediting \<Longrightarrow>
      topup_plan (od_vault (sm_mem s)) (flagged (sm_mem s)) = PlanReview \<Longrightarrow>
      settle_step careful surprise s (s\<lparr>sm_mem := reviewed rid ''topup_uncertain'' (sm_mem s)\<rparr>)"
| verify: "sm_call s = Idle \<Longrightarrow> od_state (sm_mem s) = Crediting \<Longrightarrow>
      topup_plan (od_vault (sm_mem s)) (flagged (sm_mem s)) = PlanVerify \<Longrightarrow>
      od_vault (sm_mem s) = Some v \<Longrightarrow> vr_tx v = Some h \<Longrightarrow>
      verify_deposit now rid (map_of (sm_chain s) h) (sm_mem s) = (od, r) \<Longrightarrow> r \<noteq> VRetry \<Longrightarrow>
      settle_step careful surprise s (s\<lparr>sm_mem := od\<rparr>)"
| verify_retry: "sm_call s = Idle \<Longrightarrow> od_state (sm_mem s) = Crediting \<Longrightarrow>
      topup_plan (od_vault (sm_mem s)) (flagged (sm_mem s)) = PlanVerify \<Longrightarrow>
      od_vault (sm_mem s) = Some v \<Longrightarrow> vr_tx v = Some h \<Longrightarrow>
      verify_deposit now rid (map_of (sm_chain s) h) (sm_mem s) = (od, VRetry) \<Longrightarrow>
      settle_step careful surprise s (s\<lparr>sm_mem := od\<lparr>od_vault := None\<rparr>, sm_call := Reading\<rparr>)"
| give_up: "sm_call s = Reading \<Longrightarrow>
      settle_step careful surprise s (s\<lparr>sm_call := Idle\<rparr>)"
| refuse: "sm_call s = Reading \<Longrightarrow>
      settle_step careful surprise s (s\<lparr>sm_mem := reviewed rid reason (sm_mem s), sm_call := Idle\<rparr>)"
| deposit: "sm_call s = Reading \<Longrightarrow>
      settle_step careful surprise s (flush (s\<lparr>sm_mem := begin_deposit now (sm_mem s), sm_call := Sending\<rparr>))"
| not_sent: "sm_call s = Sending \<Longrightarrow>
      settle_step careful surprise s (s\<lparr>sm_mem := deposit_error False (sm_mem s), sm_call := Idle\<rparr>)"
| lost_answer: "surprise \<Longrightarrow> sm_call s = Sending \<Longrightarrow> h \<notin> fst ` set (sm_chain s) \<Longrightarrow>
      settle_step careful surprise s (s\<lparr>sm_mem := deposit_error False (sm_mem s), sm_call := Idle,
        sm_chain := sm_chain s @ [(h, Pending)]\<rparr>)"
| accepted: "sm_call s = Sending \<Longrightarrow> h \<notin> fst ` set (sm_chain s) \<Longrightarrow>
      settle_step careful surprise s (s\<lparr>sm_call := Accepted h, sm_chain := sm_chain s @ [(h, Pending)]\<rparr>)"
| broadcast: "sm_call s = Accepted h \<Longrightarrow> on_broadcast h (sm_mem s) = Some od \<Longrightarrow>
      settle_step careful surprise s (flush (s\<lparr>sm_mem := od, sm_call := Waiting h\<rparr>))"
| broadcast_throws: "sm_call s = Accepted h \<Longrightarrow> on_broadcast h (sm_mem s) = None \<Longrightarrow>
      settle_step careful surprise s (s\<lparr>sm_call := Idle\<rparr>)"
| receipt: "sm_call s = Waiting h \<Longrightarrow> map_of (sm_chain s) h = Some Mined \<Longrightarrow>
      settle_step careful surprise s (s\<lparr>sm_mem := deposit_done h (sm_mem s), sm_call := Idle\<rparr>)"
| receipt_reverted: "sm_call s = Waiting h \<Longrightarrow> map_of (sm_chain s) h = Some Reverted \<Longrightarrow>
      settle_step careful surprise s (s\<lparr>sm_mem := deposit_error True (sm_mem s), sm_call := Idle\<rparr>)"
| timeout: "sm_call s = Waiting h \<Longrightarrow>
      settle_step careful surprise s (s\<lparr>sm_mem := deposit_error False (sm_mem s), sm_call := Idle\<rparr>)"
| confirmed: "map_of (sm_chain s) h = Some Pending \<Longrightarrow> st \<in> {Mined, Reverted} \<Longrightarrow>
      settle_step careful surprise s (s\<lparr>sm_chain := AList.update h st (sm_chain s)\<rparr>)"
| dropped: "map_of (sm_chain s) h = Some Pending \<Longrightarrow>
      settle_step careful surprise s (s\<lparr>sm_chain := AList.delete h (sm_chain s)\<rparr>)"
| approve: "careful \<Longrightarrow> sm_call s = Idle \<Longrightarrow>
      (\<forall>v. od_vault (sm_mem s) = Some v \<and> vr_tx v = None \<longrightarrow> live (sm_chain s) = {}) \<Longrightarrow>
      settle_step careful surprise s (s\<lparr>sm_mem := approve_topup reason (sm_mem s)\<rparr>)"
| approve_blind: "\<not> careful \<Longrightarrow>
      settle_step careful surprise s (s\<lparr>sm_mem := approve_topup reason (sm_mem s)\<rparr>)"
| reject: "settle_step careful surprise s (s\<lparr>sm_mem := reject_topup reason (sm_mem s)\<rparr>)"
| saved: "settle_step careful surprise s (flush s)"
| crash: "settle_step careful surprise s (s\<lparr>sm_mem := sm_disk s, sm_call := Idle\<rparr>)"

inductive settle_reachable :: "bool \<Rightarrow> bool \<Rightarrow> order \<Rightarrow> settlement \<Rightarrow> bool" for careful surprise od where
  paid: "od_vault od = None \<Longrightarrow>
      settle_reachable careful surprise od \<lparr>sm_mem = od, sm_disk = od, sm_call = Idle, sm_chain = []\<rparr>"
| step: "settle_reachable careful surprise od s \<Longrightarrow> settle_step careful surprise s s' \<Longrightarrow>
      settle_reachable careful surprise od s'"

inductive_cases settle_stepE: "settle_step careful surprise s s'"

section \<open>At most one live deposit\<close>

text \<open>
  \<open>vault_safe v L\<close> is what a write-ahead record says of the live deposits: none when the record
  permits a fresh deposit, only the recorded one once the hash is there, and never two.
\<close>

definition vault_safe :: "vault_rec option \<Rightarrow> string set \<Rightarrow> bool" where
  "vault_safe vo L \<longleftrightarrow>
     (case vo of
        None \<Rightarrow> L = {}
      | Some v \<Rightarrow>
          (case vr_step v of
             DepositFailed \<Rightarrow> L = {}
           | Depositing \<Rightarrow> (case vr_tx v of Some h \<Rightarrow> L \<subseteq> {h} | None \<Rightarrow> \<exists>h. L \<subseteq> {h})
           | DepositDone \<Rightarrow> \<exists>h. L \<subseteq> {h}))"

definition sending :: "string option \<Rightarrow> vault_rec option \<Rightarrow> bool" where
  "sending h vo \<longleftrightarrow> (case vo of Some v \<Rightarrow> vr_step v = Depositing \<and> vr_tx v = h | None \<Rightarrow> False)"

definition call_safe :: "call \<Rightarrow> vault_rec option \<Rightarrow> vault_rec option \<Rightarrow> string set \<Rightarrow> bool" where
  "call_safe c vm vd L \<longleftrightarrow>
     (case c of
        Idle \<Rightarrow> True
      | Reading \<Rightarrow> L = {}
      | Sending \<Rightarrow> L = {} \<and> sending None vm \<and> sending None vd
      | Accepted h \<Rightarrow> L \<subseteq> {h} \<and> sending None vm
      | Waiting h \<Rightarrow> L \<subseteq> {h} \<and> sending (Some h) vm)"

definition settle_inv :: "settlement \<Rightarrow> bool" where
  "settle_inv s \<longleftrightarrow>
     vault_safe (od_vault (sm_mem s)) (live (sm_chain s)) \<and>
     vault_safe (od_vault (sm_disk s)) (live (sm_chain s)) \<and>
     distinct (map fst (sm_chain s)) \<and>
     call_safe (sm_call s) (od_vault (sm_mem s)) (od_vault (sm_disk s)) (live (sm_chain s))"

lemma live_snoc [simp]: "live (ch @ [(h, Pending)]) = insert h (live ch)"
  by (auto simp: live_def)

lemma live_update: "map_of ch h = Some Pending \<Longrightarrow> distinct (map fst ch) \<Longrightarrow>
    live (AList.update h st ch) \<subseteq> live ch"
  by (induction ch) (auto simp: live_def split: if_splits)

lemma live_reverted: "map_of ch h = Some Reverted \<Longrightarrow> distinct (map fst ch) \<Longrightarrow> h \<notin> live ch"
  by (induction ch) (auto simp: live_def image_iff split: if_splits)

lemma live_delete: "live (AList.delete h ch) \<subseteq> live ch"
  by (auto simp: live_def AList.delete_eq)

lemma vault_safe_mono: "vault_safe v L \<Longrightarrow> L' \<subseteq> L \<Longrightarrow> vault_safe v L'"
  by (auto simp: vault_safe_def split: option.splits vault_step.splits)

lemma vault_safe_one: "vault_safe v L \<Longrightarrow> \<exists>h. L \<subseteq> {h}"
  by (auto simp: vault_safe_def split: option.splits vault_step.splits)

lemma plan_settle_safe: "topup_plan v f = PlanSettle \<Longrightarrow> vault_safe v L \<Longrightarrow> L = {}"
  by (auto simp: topup_plan_def vault_safe_def split: option.splits if_splits vault_step.splits)

lemma approve_vault [simp]:
  "od_vault (approve_topup r od) = od_vault (clear_hashless od)"
  by (simp add: approve_topup_def Let_def clear_hashless_def split: option.splits)

lemma reject_vault [simp]: "od_vault (reject_topup r od) = od_vault od"
  by (simp add: reject_topup_def Let_def)

lemma verify_vault:
  "verify_deposit now rid seen od = (od', r) \<Longrightarrow> r \<noteq> VRetry \<Longrightarrow>
   od_vault od' = od_vault od \<or> (\<exists>v. od_vault od' = Some v \<and> vr_step v = DepositDone)"
  by (auto simp: verify_deposit_def split: option.splits tx_status.splits if_splits)

lemma begin_vault [simp]:
  "od_vault (begin_deposit now od) = Some \<lparr>vr_step = Depositing, vr_tx = None, vr_at = now\<rparr>"
  by (simp add: begin_deposit_def)

lemma done_vault: "\<exists>v. od_vault (deposit_done h od) = Some v \<and> vr_step v = DepositDone"
  by (simp add: deposit_done_def)

lemma vault_safe_done: "vr_step v = DepositDone \<Longrightarrow> vault_safe (Some v) L \<longleftrightarrow> (\<exists>h. L \<subseteq> {h})"
  by (simp add: vault_safe_def)

lemma error_vault:
  "sending None (od_vault od) \<or> r \<Longrightarrow> vault_safe (od_vault od) {} \<Longrightarrow> vault_safe (od_vault (deposit_error r od)) {}"
  "sending (Some h) (od_vault od) \<Longrightarrow> od_vault (deposit_error False od) = od_vault od"
  by (auto simp: deposit_error_def sending_def vault_safe_def split: option.splits)

lemma broadcast_vault:
  assumes "on_broadcast h od = Some od'" "sending None (od_vault od)"
  shows "sending (Some h) (od_vault od')"
  using assms by (auto simp: on_broadcast_def sending_def split: option.splits)

lemma sending_safe: "sending h vo \<Longrightarrow> vault_safe vo L \<longleftrightarrow> (case h of Some x \<Rightarrow> L \<subseteq> {x} | None \<Rightarrow> \<exists>x. L \<subseteq> {x})"
  by (cases vo) (simp_all add: sending_def vault_safe_def split: option.splits)

lemma fresh_vault:
  "vault_safe (Some \<lparr>vr_step = Depositing, vr_tx = None, vr_at = t\<rparr>) {}"
  "sending None (Some \<lparr>vr_step = Depositing, vr_tx = None, vr_at = t\<rparr>)"
  by (simp_all add: vault_safe_def sending_def)

lemma flush_simps [simp]:
  "sm_mem (flush s) = sm_mem s" "sm_disk (flush s) = sm_mem s"
  "sm_call (flush s) = sm_call s" "sm_chain (flush s) = sm_chain s"
  by (simp_all add: flush_def)

lemma call_safe_simps [simp]:
  "call_safe Idle vm vd L"
  "call_safe Reading vm vd L \<longleftrightarrow> L = {}"
  "call_safe Sending vm vd L \<longleftrightarrow> L = {} \<and> sending None vm \<and> sending None vd"
  "call_safe (Accepted h) vm vd L \<longleftrightarrow> L \<subseteq> {h} \<and> sending None vm"
  "call_safe (Waiting h) vm vd L \<longleftrightarrow> L \<subseteq> {h} \<and> sending (Some h) vm"
  by (simp_all add: call_safe_def)

lemma call_safe_saved: "call_safe c vm vd L \<Longrightarrow> call_safe c vm vm L"
  by (cases c) auto

lemma call_safe_mono: "call_safe c vm vd L \<Longrightarrow> L' \<subseteq> L \<Longrightarrow> call_safe c vm vd L'"
  by (cases c) auto

lemma settle_inv_step:
  assumes "settle_step True False s s'" "settle_inv s"
  shows "settle_inv s'"
  using assms
proof (induction rule: settle_step.induct)
  case (start s)
  then show ?case using plan_settle_safe by (fastforce simp: settle_inv_def)
next
  case (verify s v h now rid od r)
  then show ?case
    using verify_vault [OF verify(6,7)] vault_safe_one
    by (auto simp: settle_inv_def vault_safe_done)
next
  case (verify_retry s v h now rid od)
  then have od: "od = sm_mem s" and rev: "map_of (sm_chain s) h = Some Reverted"
    by (auto simp: verify_deposit_def split: option.splits tx_status.splits if_splits)
  have "vr_step v = Depositing"
    using verify_retry by (auto simp: topup_plan_def split: if_splits)
  with verify_retry have "live (sm_chain s) \<subseteq> {h}"
    by (auto simp: settle_inv_def vault_safe_def)
  moreover have "h \<notin> live (sm_chain s)"
    using rev verify_retry by (intro live_reverted) (simp_all add: settle_inv_def)
  ultimately have "live (sm_chain s) = {}" by auto
  with verify_retry od show ?case by (auto simp: settle_inv_def vault_safe_def)
next
  case (confirmed s h st)
  then have "live (AList.update h st (sm_chain s)) \<subseteq> live (sm_chain s)"
    by (intro live_update) (simp_all add: settle_inv_def)
  then show ?case
    using confirmed by (auto simp: settle_inv_def distinct_alist_update intro: vault_safe_mono call_safe_mono)
next
  case (dropped s h)
  then show ?case
    by (auto simp: settle_inv_def distinct_delete
        intro: vault_safe_mono [OF _ live_delete] call_safe_mono [OF _ live_delete])
next
  case (receipt_reverted s h)
  then have "h \<notin> live (sm_chain s)"
    by (intro live_reverted) (simp_all add: settle_inv_def)
  then have "live (sm_chain s) = {}" using receipt_reverted by (auto simp: settle_inv_def)
  then show ?case using receipt_reverted by (simp add: settle_inv_def error_vault)
next
  case (approve s reason)
  then show ?case
    by (auto simp: settle_inv_def clear_hashless_def vault_safe_def split: option.splits)
next
  case (not_sent s)
  then show ?case using error_vault(1) [of "sm_mem s" False] by (auto simp: settle_inv_def)
next
  case (timeout s h)
  then show ?case by (simp add: settle_inv_def error_vault(2) [of h])
next
  case (broadcast s h od)
  then have "sending (Some h) (od_vault od)"
    by (auto simp: settle_inv_def intro: broadcast_vault)
  then show ?case using broadcast by (simp add: settle_inv_def sending_safe)
next
  case (receipt s h)
  obtain v where "od_vault (deposit_done h (sm_mem s)) = Some v" "vr_step v = DepositDone"
    using done_vault by blast
  then show ?case using receipt by (auto simp: settle_inv_def vault_safe_done)
next
  case (accepted s h)
  then show ?case by (auto simp: settle_inv_def sending_safe)
next
  case (saved s)
  then show ?case by (auto simp: settle_inv_def intro: call_safe_saved)
qed (auto simp: settle_inv_def fresh_vault)

lemma settle_inv_reachable:
  "settle_reachable True False od s \<Longrightarrow> settle_inv s"
proof (induction rule: settle_reachable.induct)
  case paid
  then show ?case by (simp add: settle_inv_def vault_safe_def live_def)
next
  case (step s s')
  then show ?case by (blast intro: settle_inv_step)
qed

text \<open>
  C7: A paid top-up is credited at most once. Over any interleaving of settlement calls, sweeps,
  late and lost receipts, reverts, reviewer decisions, debounced saves and crashes, at most one
  deposit of the order is pending or mined, provided a review of a record without a hash is
  approved only when no deposit is live, and a transaction the wallet client reports as not sent
  was not sent.
\<close>
theorem topup_credited_at_most_once:
  assumes "settle_reachable True False od s"
  shows "\<exists>h. live (sm_chain s) \<subseteq> {h}"
  using settle_inv_reachable [OF assms] by (auto simp: settle_inv_def dest: vault_safe_one)

definition paid_order :: order where
  "paid_order = \<lparr>od_kind = Topup, od_account = ''acc'', od_ref = ''0xab'', od_state = Crediting,
     od_flags = [], od_amount6 = 50000000, od_rate6 = 0, od_seconds = 0, od_created = 0,
     od_expires = 86400000, od_payments = [], od_total6 = 0, od_screening = [],
     od_stripe_event = Some ''evt'', od_session = None, od_vault = None, od_provision = None,
     od_review = None, od_history = []\<rparr>"

definition after_deposit :: "order \<Rightarrow> settlement" where
  "after_deposit od = \<lparr>sm_mem = begin_deposit 7 od, sm_disk = begin_deposit 7 od, sm_call = Sending, sm_chain = []\<rparr>"

lemma deposit_run:
  assumes "od_vault od = None" "od_state od = Crediting"
  shows "settle_reachable careful surprise od (after_deposit od)"
proof -
  let ?s = "\<lparr>sm_mem = od, sm_disk = od, sm_call = Idle, sm_chain = []\<rparr>"
  have "settle_reachable careful surprise od ?s"
    by (rule settle_reachable.paid) (fact assms)
  then have "settle_reachable careful surprise od (?s\<lparr>sm_call := Reading\<rparr>)"
    by (rule settle_reachable.step) (rule settle_step.start; simp add: assms topup_plan_def)
  then have "settle_reachable careful surprise od
      (flush (?s\<lparr>sm_call := Reading, sm_mem := begin_deposit 7 od, sm_call := Sending\<rparr>))"
    by (rule settle_reachable.step)
      (use settle_step.deposit [of "?s\<lparr>sm_call := Reading\<rparr>" careful surprise 7] in simp)
  then show ?thesis by (simp add: flush_def after_deposit_def)
qed

lemma sent_run:
  assumes "od_vault od = None" "od_state od = Crediting"
  shows "settle_reachable careful surprise od
    (after_deposit od \<lparr>sm_call := Accepted ''0x01'', sm_chain := [(''0x01'', Pending)]\<rparr>)"
  using settle_reachable.step [OF deposit_run [OF assms]
      settle_step.accepted [of "after_deposit od" "''0x01''" careful surprise]]
  by (simp add: after_deposit_def)

theorem topup_credited_at_most_once_witness:
  "\<exists>s. settle_reachable True False paid_order s \<and> live (sm_chain s) = {''0x01''}
     \<and> (\<exists>h. live (sm_chain s) \<subseteq> {h})"
proof -
  let ?s = "after_deposit paid_order \<lparr>sm_call := Accepted ''0x01'', sm_chain := [(''0x01'', Pending)]\<rparr>"
  have "settle_reachable True False paid_order ?s"
    by (rule sent_run) (simp_all add: paid_order_def)
  moreover from topup_credited_at_most_once [OF this] have "\<exists>h. live (sm_chain ?s) \<subseteq> {h}" .
  ultimately show ?thesis by (intro exI [of _ ?s]) (auto simp: live_def)
qed

lemma interrupted_deposit_is_held:
  assumes "settle_step careful surprise s s'" "sm_call s = Idle"
    and "sending None (od_vault (sm_mem s))"
  shows "sm_call s' = Idle \<and> set (map fst (sm_chain s')) \<subseteq> set (map fst (sm_chain s))"
  using assms
  by (cases rule: settle_step.cases)
    (auto simp: topup_plan_def sending_def update_keys split: option.splits if_splits
      dest!: map_of_SomeD intro: rev_image_eqI simp: AList.delete_eq)

section \<open>What the discipline is needed for\<close>

text \<open>
  Without it the reviewer's approval of any open item of the order, such as the cap warning of an
  earlier sweep, clears the record of a deposit that is on its way: the callback throws, the order
  stays in crediting with no record, and the next sweep deposits again. The same double credit
  follows when the wallet client throws after the node has taken the transaction.
\<close>

lemma second_deposit:
  assumes "settle_reachable careful surprise od s" "sm_call s = Idle" "od_state (sm_mem s) = Crediting"
    and "topup_plan (od_vault (sm_mem s)) (flagged (sm_mem s)) = PlanSettle"
    and "sm_chain s = [(''0x01'', Pending)]"
  shows "\<exists>s'. settle_reachable careful surprise od s' \<and> live (sm_chain s') = {''0x01'', ''0x02''}"
proof -
  let ?s1 = "s\<lparr>sm_call := Reading\<rparr>"
  let ?s2 = "flush (?s1\<lparr>sm_mem := begin_deposit 9 (sm_mem ?s1), sm_call := Sending\<rparr>)"
  let ?s3 = "?s2\<lparr>sm_call := Accepted ''0x02'', sm_chain := sm_chain ?s2 @ [(''0x02'', Pending)]\<rparr>"
  have "settle_step careful surprise s ?s1"
    by (rule settle_step.start) (use assms in simp_all)
  moreover have "settle_step careful surprise ?s1 ?s2" by (rule settle_step.deposit) simp
  moreover have "settle_step careful surprise ?s2 ?s3"
    by (rule settle_step.accepted) (use assms in simp_all)
  ultimately have "settle_reachable careful surprise od ?s3"
    using assms(1) by (blast intro: settle_reachable.step)
  then show ?thesis using assms(5) by (intro exI [of _ ?s3]) (auto simp: live_def)
qed

theorem blind_approval_credits_twice:
  "\<exists>s. settle_reachable False False paid_order s \<and> live (sm_chain s) = {''0x01'', ''0x02''}"
proof -
  let ?s = "after_deposit paid_order \<lparr>sm_call := Accepted ''0x01'', sm_chain := [(''0x01'', Pending)]\<rparr>"
  let ?t = "?s\<lparr>sm_mem := approve_topup ''topup_over_cap'' (sm_mem ?s)\<rparr>"
  have gone: "od_vault (sm_mem ?t) = None" "od_state (sm_mem ?t) = Crediting"
    by (simp_all add: after_deposit_def begin_deposit_def clear_hashless_def approve_topup_def
        paid_order_def Let_def)
  have "settle_reachable False False paid_order ?s"
    by (rule sent_run) (simp_all add: paid_order_def)
  moreover have "settle_step False False ?s ?t" by (rule settle_step.approve_blind) simp
  moreover have "settle_step False False ?t (?t\<lparr>sm_call := Idle\<rparr>)"
    by (rule settle_step.broadcast_throws [where h = "''0x01''"]) (use gone in \<open>simp_all add: on_broadcast_def\<close>)
  ultimately have "settle_reachable False False paid_order (?t\<lparr>sm_call := Idle\<rparr>)"
    by (blast intro: settle_reachable.step)
  then show ?thesis
    by (rule second_deposit) (use gone in \<open>simp_all add: topup_plan_def\<close>)
qed

theorem lost_answer_credits_twice:
  "\<exists>s. settle_reachable True True paid_order s \<and> live (sm_chain s) = {''0x01'', ''0x02''}"
proof -
  let ?s = "after_deposit paid_order"
  let ?t = "?s\<lparr>sm_mem := deposit_error False (sm_mem ?s), sm_call := Idle, sm_chain := sm_chain ?s @ [(''0x01'', Pending)]\<rparr>"
  have "settle_reachable True True paid_order ?s"
    by (rule deposit_run) (simp_all add: paid_order_def)
  moreover have "settle_step True True ?s ?t"
    by (rule settle_step.lost_answer) (simp_all add: after_deposit_def)
  ultimately have "settle_reachable True True paid_order ?t"
    by (blast intro: settle_reachable.step)
  then show ?thesis
    by (rule second_deposit)
      (simp_all add: after_deposit_def deposit_error_def begin_deposit_def topup_plan_def paid_order_def)
qed

end
