(* ===== verification/Provisioner.thy ===== *)
theory Provisioner
  imports Topup_Settlement
begin

text \<open>
  The provisioner of \<open>relay/provisioner.js\<close>: the company wallet that turns a paid order into a
  deployment, \<open>create()\<close> then \<open>fund()\<close>, with the write-ahead record \<open>order.provision\<close>.

  The record is flushed to the file after every assignment, so one copy of it is kept. A pass of
  \<open>provisionOrder\<close> runs alone (the queue is serial); \<open>pv_call\<close> is its place between two awaits. The
  chain answers truthfully about a transaction it knows, and one it no longer knows is not mined
  later: the two facts about it the code relies on.
\<close>

section \<open>The recovery decision\<close>

datatype prov_plan = SendCreate | Hold | FundPlan | SendFund | CompletePlan | AdoptOrResend

definition plan_recovery :: "provision option \<Rightarrow> tx_status option \<Rightarrow> tx_status option \<Rightarrow> prov_plan" where
  "plan_recovery po create fund =
     (case po of
        None \<Rightarrow> SendCreate
      | Some p \<Rightarrow>
          (case pv_step p of
             Creating \<Rightarrow>
               if pv_txCreate p = None then SendCreate
               else (case create of
                       Some Pending \<Rightarrow> Hold
                     | None \<Rightarrow> AdoptOrResend
                     | Some Mined \<Rightarrow> FundPlan
                     | Some Reverted \<Rightarrow> SendCreate)
           | Funding \<Rightarrow>
               if pv_id p = None then AdoptOrResend
               else if pv_txFund p = None then SendFund
               else (case fund of
                       Some Pending \<Rightarrow> Hold
                     | None \<Rightarrow> SendFund
                     | Some Mined \<Rightarrow> CompletePlan
                     | Some Reverted \<Rightarrow> SendFund)
           | ProvDone \<Rightarrow> CompletePlan))"

definition tx_status_of :: "(string \<times> tx_status) list \<Rightarrow> string option \<Rightarrow> tx_status option" where
  "tx_status_of ch h = (case h of None \<Rightarrow> None | Some x \<Rightarrow> map_of ch x)"

text \<open>What arrived, capped at the quote; a card order funds the full quote.\<close>

definition fund_amount :: "order \<Rightarrow> int" where
  "fund_amount od =
     (if od_total6 od > 0 then (if od_total6 od < od_amount6 od then od_total6 od else od_amount6 od)
      else od_amount6 od)"

definition MIN_ETH_WEI :: int where "MIN_ETH_WEI = 500000000000000"
definition USDC_HEADROOM_6 :: int where "USDC_HEADROOM_6 = 5000000"

definition underfunded :: "int \<Rightarrow> int \<Rightarrow> order \<Rightarrow> bool" where
  "underfunded eth usdc od \<longleftrightarrow> eth < MIN_ETH_WEI \<or> usdc < fund_amount od + USDC_HEADROOM_6"

section \<open>The serial queue\<close>

record prov_queue =
  pq_enabled :: bool
  pq_queue :: "string list"
  pq_running :: "string option"

definition enqueue_provision :: "string \<Rightarrow> prov_queue \<Rightarrow> prov_queue" where
  "enqueue_provision oid q =
     (if \<not> pq_enabled q then q
      else if pq_running q = Some oid \<or> oid \<in> set (pq_queue q) then q
      else q\<lparr>pq_queue := pq_queue q @ [oid]\<rparr>)"

definition recover_provisioning :: "(string \<times> order) list \<Rightarrow> prov_queue \<Rightarrow> prov_queue" where
  "recover_provisioning os q =
     foldl (\<lambda>acc (oid, od). if od_state od = ConfirmedProvisioning then enqueue_provision oid acc else acc) q os"

text \<open>One turn of \<open>drain\<close>: the next order that is still to be provisioned starts running.\<close>

fun drain_next :: "(string \<times> order) list \<Rightarrow> prov_queue \<Rightarrow> prov_queue" where
  "drain_next os q =
     (case pq_queue q of
        [] \<Rightarrow> q\<lparr>pq_running := None\<rparr>
      | oid # rest \<Rightarrow>
          (case map_of os oid of
             Some od \<Rightarrow> if od_state od = ConfirmedProvisioning
                        then q\<lparr>pq_queue := rest, pq_running := Some oid\<rparr>
                        else q\<lparr>pq_queue := rest, pq_running := None\<rparr>
           | None \<Rightarrow> q\<lparr>pq_queue := rest, pq_running := None\<rparr>))"

lemma enqueue_distinct:
  "distinct (pq_queue q) \<Longrightarrow> distinct (pq_queue (enqueue_provision oid q))"
  by (simp add: enqueue_provision_def)

lemma recover_keeps:
  "set (pq_queue q) \<subseteq> set (pq_queue (recover_provisioning os q)) \<and>
   pq_running (recover_provisioning os q) = pq_running q \<and>
   pq_enabled (recover_provisioning os q) = pq_enabled q"
  unfolding recover_provisioning_def
  by (induction os arbitrary: q) (force simp: enqueue_provision_def split: if_splits)+

lemma recover_finds:
  assumes "pq_enabled q" "(oid, od) \<in> set os" "od_state od = ConfirmedProvisioning"
  shows "oid \<in> set (pq_queue (recover_provisioning os q)) \<or> pq_running q = Some oid"
  using assms
proof (induction os arbitrary: q)
  case (Cons x os)
  have keep: "set (pq_queue q') \<subseteq> set (pq_queue (recover_provisioning os q'))" for q'
    using recover_keeps by blast
  show ?case
  proof (cases "x = (oid, od)")
    case True
    then have "recover_provisioning (x # os) q = recover_provisioning os (enqueue_provision oid q)"
      using Cons.prems by (simp add: recover_provisioning_def)
    moreover have "oid \<in> set (pq_queue (enqueue_provision oid q)) \<or> pq_running q = Some oid"
      using Cons.prems by (auto simp: enqueue_provision_def)
    ultimately show ?thesis using keep by auto
  next
    case False
    let ?q = "case x of (i, o1) \<Rightarrow> if od_state o1 = ConfirmedProvisioning then enqueue_provision i q else q"
    have "recover_provisioning (x # os) q = recover_provisioning os ?q"
      by (cases x) (simp add: recover_provisioning_def)
    moreover have "pq_enabled ?q" "pq_running ?q = pq_running q"
      using Cons.prems(1) by (auto simp: enqueue_provision_def split: prod.splits)
    ultimately show ?thesis using Cons.IH [of ?q] Cons.prems False by auto
  qed
qed simp

section \<open>One order and the ledger\<close>

datatype pcall =
    PIdle
  | CreateSending
  | CreateSent string
  | CreateWaiting string
  | FundSending
  | FundSent string
  | FundWaiting string

record prov_state =
  ps_order :: order
  ps_call :: pcall
  ps_creates :: "(string \<times> tx_status) list"
  ps_funds :: "(string \<times> tx_status) list"
  ps_sent :: "(string \<times> string \<times> int) list"

abbreviation prov_of :: "prov_state \<Rightarrow> provision option" where
  "prov_of s \<equiv> od_provision (ps_order s)"

definition plan_of :: "prov_state \<Rightarrow> prov_plan" where
  "plan_of s = plan_recovery (prov_of s)
     (tx_status_of (ps_creates s) (Option.bind (prov_of s) pv_txCreate))
     (tx_status_of (ps_funds s) (Option.bind (prov_of s) pv_txFund))"

definition with_prov :: "provision \<Rightarrow> prov_state \<Rightarrow> prov_state" where
  "with_prov p s = s\<lparr>ps_order := (ps_order s)\<lparr>od_provision := Some p\<rparr>\<rparr>"

text \<open>
  \<open>adoptOrphanCreate\<close>: \<open>orphans\<close> are the wallet's recent \<open>Created\<close> logs that no order carries,
  each with its transaction and its deployment id.
\<close>

datatype adoption = Adopted provision | NoOrphan | ManyOrphans

definition adopt_orphan :: "(string \<times> string) list \<Rightarrow> provision option \<Rightarrow> adoption" where
  "adopt_orphan orphans po =
     (case orphans of
        [] \<Rightarrow> NoOrphan
      | [(h, i)] \<Rightarrow> Adopted \<lparr>pv_step = Funding, pv_txCreate = Some h, pv_id = Some i,
                       pv_txFund = Option.bind po pv_txFund\<rparr>
      | _ \<Rightarrow> ManyOrphans)"

text \<open>
  The funding section of a pass: without a deployment id the pass throws; with a pending
  transfer it holds; a mined one completes the order; otherwise it sends.
\<close>

datatype fund_step = FThrow | FHold | FFinish | FSend

definition fund_section :: "prov_state \<Rightarrow> fund_step" where
  "fund_section s =
     (case prov_of s of
        None \<Rightarrow> FThrow
      | Some p \<Rightarrow>
          if pv_id p = None then FThrow
          else let st = tx_status_of (ps_funds s) (pv_txFund p)
               in if st = Some Pending then FHold
                  else if plan_recovery (Some p) None st = CompletePlan then FFinish else FSend)"

definition finish :: "prov_state \<Rightarrow> prov_state" where
  "finish s = s\<lparr>ps_order := set_order_state Complete ''provisioner''
      ((ps_order s)\<lparr>od_provision := map_option (\<lambda>p. p\<lparr>pv_step := ProvDone\<rparr>) (prov_of s)\<rparr>), ps_call := PIdle\<rparr>"

definition funding_plan :: "prov_plan \<Rightarrow> bool" where
  "funding_plan pl \<longleftrightarrow> pl = FundPlan \<or> pl = SendFund \<or> pl = CompletePlan"

definition fresh_create :: provision where
  "fresh_create = \<lparr>pv_step = Creating, pv_txCreate = None, pv_id = None, pv_txFund = None\<rparr>"

text \<open>
  \<open>gap\<close> permits a crash after the node took a transaction and before its hash is in the file.
\<close>

inductive prov_step_rel :: "bool \<Rightarrow> prov_state \<Rightarrow> prov_state \<Rightarrow> bool" for gap where
  begin_create: "ps_call s = PIdle \<Longrightarrow> od_state (ps_order s) = ConfirmedProvisioning \<Longrightarrow>
      plan_of s = SendCreate \<or> plan_of s = AdoptOrResend \<and> adopt_orphan orphans (prov_of s) = NoOrphan \<Longrightarrow>
      prov_step_rel gap s ((with_prov fresh_create s)\<lparr>ps_call := CreateSending\<rparr>)"
| create_not_sent: "ps_call s = CreateSending \<Longrightarrow> prov_step_rel gap s (s\<lparr>ps_call := PIdle\<rparr>)"
| create_sent: "ps_call s = CreateSending \<Longrightarrow> h \<notin> fst ` set (ps_creates s) \<Longrightarrow>
      prov_step_rel gap s (s\<lparr>ps_call := CreateSent h, ps_creates := ps_creates s @ [(h, Pending)]\<rparr>)"
| create_hash: "ps_call s = CreateSent h \<Longrightarrow> prov_of s = Some p \<Longrightarrow>
      prov_step_rel gap s ((with_prov (p\<lparr>pv_txCreate := Some h\<rparr>) s)\<lparr>ps_call := CreateWaiting h\<rparr>)"
| create_mined: "ps_call s = CreateWaiting h \<Longrightarrow> map_of (ps_creates s) h = Some Mined \<Longrightarrow> prov_of s = Some p \<Longrightarrow>
      prov_step_rel gap s ((with_prov (p\<lparr>pv_id := Some i, pv_step := Funding\<rparr>) s)\<lparr>ps_call := FundSending\<rparr>)"
| create_error: "ps_call s = CreateWaiting h \<Longrightarrow> prov_step_rel gap s (s\<lparr>ps_call := PIdle\<rparr>)"
| begin_fund: "ps_call s = PIdle \<Longrightarrow> od_state (ps_order s) = ConfirmedProvisioning \<Longrightarrow>
      funding_plan (plan_of s) \<Longrightarrow> fund_section s = FSend \<Longrightarrow>
      prov_step_rel gap s (s\<lparr>ps_call := FundSending\<rparr>)"
| already_funded: "ps_call s = PIdle \<Longrightarrow> od_state (ps_order s) = ConfirmedProvisioning \<Longrightarrow>
      funding_plan (plan_of s) \<Longrightarrow> fund_section s = FFinish \<Longrightarrow>
      prov_step_rel gap s (finish s)"
| fund_not_sent: "ps_call s = FundSending \<Longrightarrow> prov_step_rel gap s (s\<lparr>ps_call := PIdle\<rparr>)"
| fund_sent: "ps_call s = FundSending \<Longrightarrow> h \<notin> fst ` set (ps_funds s) \<Longrightarrow> prov_of s = Some p \<Longrightarrow>
      pv_id p = Some i \<Longrightarrow>
      prov_step_rel gap s (s\<lparr>ps_call := FundSent h, ps_funds := ps_funds s @ [(h, Pending)],
        ps_sent := ps_sent s @ [(h, i, fund_amount (ps_order s))]\<rparr>)"
| fund_hash: "ps_call s = FundSent h \<Longrightarrow> prov_of s = Some p \<Longrightarrow>
      prov_step_rel gap s ((with_prov (p\<lparr>pv_txFund := Some h\<rparr>) s)\<lparr>ps_call := FundWaiting h\<rparr>)"
| fund_mined: "ps_call s = FundWaiting h \<Longrightarrow> map_of (ps_funds s) h = Some Mined \<Longrightarrow>
      prov_step_rel gap s (finish s)"
| fund_error: "ps_call s = FundWaiting h \<Longrightarrow> prov_step_rel gap s (s\<lparr>ps_call := PIdle\<rparr>)"
| adopt: "ps_call s = PIdle \<Longrightarrow> od_state (ps_order s) = ConfirmedProvisioning \<Longrightarrow>
      plan_of s = AdoptOrResend \<Longrightarrow> adopt_orphan orphans (prov_of s) = Adopted p \<Longrightarrow>
      set (map fst orphans) \<subseteq> live (ps_creates s) \<Longrightarrow>
      prov_step_rel gap s (with_prov p s)"
| create_confirmed: "map_of (ps_creates s) h = Some Pending \<Longrightarrow> st \<in> {Mined, Reverted} \<Longrightarrow>
      prov_step_rel gap s (s\<lparr>ps_creates := AList.update h st (ps_creates s)\<rparr>)"
| fund_confirmed: "map_of (ps_funds s) h = Some Pending \<Longrightarrow> st \<in> {Mined, Reverted} \<Longrightarrow>
      prov_step_rel gap s (s\<lparr>ps_funds := AList.update h st (ps_funds s)\<rparr>)"
| create_dropped: "map_of (ps_creates s) h = Some Pending \<Longrightarrow>
      prov_step_rel gap s (s\<lparr>ps_creates := AList.delete h (ps_creates s)\<rparr>)"
| fund_dropped: "map_of (ps_funds s) h = Some Pending \<Longrightarrow>
      prov_step_rel gap s (s\<lparr>ps_funds := AList.delete h (ps_funds s)\<rparr>)"
| reviewed_away: "prov_step_rel gap s (s\<lparr>ps_order := set_order_state UnderReview via (ps_order s)\<rparr>)"
| approved: "prov_step_rel gap s (s\<lparr>ps_order := set_order_state ConfirmedProvisioning via (ps_order s)\<rparr>)"
| crash: "gap \<or> (\<forall>h. ps_call s \<noteq> CreateSent h \<and> ps_call s \<noteq> FundSent h) \<Longrightarrow>
      prov_step_rel gap s (s\<lparr>ps_call := PIdle\<rparr>)"

inductive prov_reachable :: "bool \<Rightarrow> order \<Rightarrow> prov_state \<Rightarrow> bool" for gap od where
  paid: "od_provision od = None \<Longrightarrow>
      prov_reachable gap od \<lparr>ps_order = od, ps_call = PIdle, ps_creates = [], ps_funds = [], ps_sent = []\<rparr>"
| step: "prov_reachable gap od s \<Longrightarrow> prov_step_rel gap s s' \<Longrightarrow> prov_reachable gap od s'"

section \<open>At most one create and one fund\<close>

definition creates_safe :: "pcall \<Rightarrow> provision option \<Rightarrow> string set \<Rightarrow> bool" where
  "creates_safe c po L \<longleftrightarrow>
     (case po of
        None \<Rightarrow> L = {} \<and> c = PIdle
      | Some p \<Rightarrow>
          (case pv_step p of
             Creating \<Rightarrow> pv_id p = None \<and>
               (case pv_txCreate p of
                  None \<Rightarrow> (case c of CreateSent h \<Rightarrow> L \<subseteq> {h} | PIdle \<Rightarrow> L = {} | CreateSending \<Rightarrow> L = {} | _ \<Rightarrow> False)
                | Some h \<Rightarrow> L \<subseteq> {h} \<and> (c = PIdle \<or> c = CreateWaiting h))
           | _ \<Rightarrow> (\<exists>h. pv_txCreate p = Some h \<and> L \<subseteq> {h}) \<and> pv_id p \<noteq> None
                  \<and> (c = PIdle \<or> pv_step p = Funding \<and> (c = FundSending \<or> (\<exists>h. c = FundSent h \<or> c = FundWaiting h)))))"

definition funds_safe :: "pcall \<Rightarrow> provision option \<Rightarrow> string set \<Rightarrow> bool" where
  "funds_safe c po L \<longleftrightarrow>
     (case po of
        None \<Rightarrow> L = {}
      | Some p \<Rightarrow>
          if pv_step p = Creating then L = {} \<and> pv_txFund p = None
          else (case c of
                  FundSending \<Rightarrow> L = {}
                | FundSent h \<Rightarrow> L \<subseteq> {h}
                | FundWaiting h \<Rightarrow> L \<subseteq> {h} \<and> pv_txFund p = Some h
                | _ \<Rightarrow> L \<subseteq> set_option (pv_txFund p)))"

definition done_safe :: "provision option \<Rightarrow> (string \<times> tx_status) list \<Rightarrow> bool" where
  "done_safe po funds \<longleftrightarrow>
     (case po of
        None \<Rightarrow> True
      | Some p \<Rightarrow> pv_step p = ProvDone \<longrightarrow> (\<exists>h. pv_txFund p = Some h \<and> map_of funds h = Some Mined))"

definition prov_inv :: "prov_state \<Rightarrow> bool" where
  "prov_inv s \<longleftrightarrow>
     creates_safe (ps_call s) (prov_of s) (live (ps_creates s)) \<and>
     funds_safe (ps_call s) (prov_of s) (live (ps_funds s)) \<and>
     done_safe (prov_of s) (ps_funds s) \<and>
     distinct (map fst (ps_creates s)) \<and> distinct (map fst (ps_funds s)) \<and>
     list_all (\<lambda>(h, i, a). a = fund_amount (ps_order s)) (ps_sent s)"

lemma creates_safe_mono: "creates_safe c po L \<Longrightarrow> L' \<subseteq> L \<Longrightarrow> creates_safe c po L'"
  by (auto simp: creates_safe_def split: option.splits prov_step.splits pcall.splits)

lemma funds_safe_mono: "funds_safe c po L \<Longrightarrow> L' \<subseteq> L \<Longrightarrow> funds_safe c po L'"
  by (cases c) (auto simp: funds_safe_def subset_iff split: option.splits if_splits)

lemma done_safe_ext:
  assumes "done_safe po f" "\<And>h. map_of f h = Some Mined \<Longrightarrow> map_of g h = Some Mined"
  shows "done_safe po g"
  using assms by (cases po) (auto simp: done_safe_def)

lemma done_safe_chain:
  assumes "done_safe po f"
  shows "map_of f h = Some Pending \<Longrightarrow> done_safe po (AList.delete h f)"
    and "map_of f h = Some Pending \<Longrightarrow> done_safe po (AList.update h st f)"
    and "done_safe po (f @ [x])"
  using assms by (rule done_safe_ext; simp add: delete_conv' map_add_find_right; fastforce)+

lemma fund_amount_simps [simp]:
  "fund_amount (set_order_state st via od) = fund_amount od"
  "fund_amount (od\<lparr>od_provision := po\<rparr>) = fund_amount od"
  by (simp_all add: fund_amount_def)

lemma with_prov_simps [simp]:
  "prov_of (with_prov p s) = Some p" "ps_call (with_prov p s) = ps_call s"
  "ps_creates (with_prov p s) = ps_creates s" "ps_funds (with_prov p s) = ps_funds s"
  "ps_sent (with_prov p s) = ps_sent s" "fund_amount (ps_order (with_prov p s)) = fund_amount (ps_order s)"
  by (simp_all add: with_prov_def)

lemma finish_simps [simp]:
  "prov_of (finish s) = map_option (\<lambda>p. p\<lparr>pv_step := ProvDone\<rparr>) (prov_of s)" "ps_call (finish s) = PIdle"
  "ps_creates (finish s) = ps_creates s" "ps_funds (finish s) = ps_funds s"
  "ps_sent (finish s) = ps_sent s" "fund_amount (ps_order (finish s)) = fund_amount (ps_order s)"
  by (simp_all add: finish_def)

lemma not_live: "distinct (map fst ch) \<Longrightarrow> map_of ch h = None \<or> map_of ch h = Some Reverted \<Longrightarrow> h \<notin> live ch"
  by (induction ch) (auto simp: live_def image_iff split: if_splits)

text \<open>A plan to send a create leaves nothing behind it on the chain; so does a plan to fund.\<close>

lemma send_create_clean:
  assumes "plan_of s = SendCreate \<or> plan_of s = AdoptOrResend" "prov_inv s" "ps_call s = PIdle"
  shows "live (ps_creates s) = {} \<and> live (ps_funds s) = {}"
proof (cases "prov_of s")
  case None
  with assms show ?thesis by (simp add: prov_inv_def creates_safe_def funds_safe_def)
next
  case (Some p)
  then have p: "pv_step p = Creating"
    using assms by (auto simp: plan_of_def plan_recovery_def prov_inv_def creates_safe_def
        split: prov_step.splits if_splits option.splits tx_status.splits)
  show ?thesis
  proof (cases "pv_txCreate p")
    case None
    with Some p assms show ?thesis by (simp add: prov_inv_def creates_safe_def funds_safe_def)
  next
    case (Some h)
    then have "live (ps_creates s) \<subseteq> {h}"
      using \<open>prov_of s = Some p\<close> p assms by (simp add: prov_inv_def creates_safe_def)
    moreover have "map_of (ps_creates s) h = None \<or> map_of (ps_creates s) h = Some Reverted"
      using \<open>prov_of s = Some p\<close> p Some assms(1)
      by (auto simp: plan_of_def plan_recovery_def tx_status_of_def split: option.splits tx_status.splits)
    with assms(2) have "h \<notin> live (ps_creates s)" by (intro not_live) (auto simp: prov_inv_def)
    ultimately show ?thesis
      using \<open>prov_of s = Some p\<close> p assms by (auto simp: prov_inv_def funds_safe_def)
  qed
qed

lemma fund_section_cases:
  assumes "fund_section s = FSend \<or> fund_section s = FFinish"
  obtains p i where "prov_of s = Some p" "pv_id p = Some i"
  using assms by (auto simp: fund_section_def split: option.splits if_splits)

lemma begin_fund_clean:
  assumes "fund_section s = FSend" "prov_inv s" "ps_call s = PIdle"
  shows "live (ps_funds s) = {} \<and> (\<exists>p. prov_of s = Some p \<and> pv_step p = Funding)"
proof -
  obtain p i where p: "prov_of s = Some p" "pv_id p = Some i"
    using fund_section_cases [of s] assms(1) by blast
  have st: "pv_step p = Funding"
    using assms p by (auto simp: prov_inv_def creates_safe_def fund_section_def plan_recovery_def Let_def
        split: prov_step.splits option.splits if_splits)
  show ?thesis
  proof (cases "pv_txFund p")
    case None
    with assms p st show ?thesis by (auto simp: prov_inv_def funds_safe_def)
  next
    case (Some h)
    then have "map_of (ps_funds s) h = None \<or> map_of (ps_funds s) h = Some Reverted"
      using assms(1) p st
      by (auto simp: fund_section_def plan_recovery_def tx_status_of_def Let_def
          split: if_splits option.splits tx_status.splits)
    then have "h \<notin> live (ps_funds s)" using assms(2) by (intro not_live) (auto simp: prov_inv_def)
    with assms p st Some show ?thesis by (auto simp: prov_inv_def funds_safe_def)
  qed
qed

lemma prov_inv_step:
  assumes "prov_step_rel False s s'" "prov_inv s"
  shows "prov_inv s'"
  using assms
proof (induction rule: prov_step_rel.induct)
  case (begin_create s orphans)
  then have "live (ps_creates s) = {} \<and> live (ps_funds s) = {}"
    by (intro send_create_clean) auto
  with begin_create show ?case
    by (simp add: prov_inv_def creates_safe_def funds_safe_def done_safe_def fresh_create_def with_prov_def)
next
  case (begin_fund s)
  with begin_fund_clean [of s] show ?case
    by (auto simp: prov_inv_def creates_safe_def funds_safe_def)
next
  case (already_funded s)
  then obtain p i where p: "prov_of s = Some p" "pv_id p = Some i"
    using fund_section_cases [of s] by blast
  have "pv_step p \<noteq> Creating"
    using already_funded p by (auto simp: fund_section_def plan_recovery_def Let_def tx_status_of_def
        split: prov_step.splits option.splits if_splits)
  moreover have "done_safe (Some (p\<lparr>pv_step := ProvDone\<rparr>)) (ps_funds s)"
    using already_funded p by (auto simp: fund_section_def plan_recovery_def Let_def tx_status_of_def
        done_safe_def prov_inv_def split: prov_step.splits option.splits if_splits tx_status.splits)
  ultimately show ?case
    using already_funded p
    by (auto simp: prov_inv_def creates_safe_def funds_safe_def split: prov_step.splits)
next
  case (fund_mined s h)
  then obtain p where p: "prov_of s = Some p"
    by (auto simp: prov_inv_def creates_safe_def split: option.splits)
  with fund_mined show ?case
    by (auto simp: prov_inv_def creates_safe_def funds_safe_def done_safe_def
        split: prov_step.splits option.splits)
next
  case (adopt s orphans p)
  then have "live (ps_creates s) = {}" using send_create_clean [of s] by auto
  with adopt show ?case by (auto simp: adopt_orphan_def split: list.splits)
next
  case (create_confirmed s h st)
  then have "live (AList.update h st (ps_creates s)) \<subseteq> live (ps_creates s)"
    by (intro live_update) (simp_all add: prov_inv_def)
  with create_confirmed show ?case
    by (auto simp: prov_inv_def distinct_alist_update intro: creates_safe_mono)
next
  case (fund_confirmed s h st)
  then have "live (AList.update h st (ps_funds s)) \<subseteq> live (ps_funds s)"
    by (intro live_update) (simp_all add: prov_inv_def)
  with fund_confirmed show ?case
    by (auto simp: prov_inv_def distinct_alist_update simp del: map_of_eq_Some_iff
        intro: funds_safe_mono done_safe_chain)
next
  case (create_dropped s h)
  then show ?case
    by (auto simp: prov_inv_def distinct_delete intro: creates_safe_mono [OF _ live_delete])
next
  case (fund_dropped s h)
  then show ?case
    by (auto simp: prov_inv_def distinct_delete simp del: map_of_eq_Some_iff
        intro: funds_safe_mono [OF _ live_delete] done_safe_chain)
next
  case (fund_sent s h p i)
  then show ?case
    by (auto simp: prov_inv_def creates_safe_def funds_safe_def done_safe_chain
        split: prov_step.splits)
qed (auto simp: prov_inv_def creates_safe_def funds_safe_def done_safe_def
      split: option.splits prov_step.splits pcall.splits)

lemma prov_inv_reachable: "prov_reachable False od s \<Longrightarrow> prov_inv s"
proof (induction rule: prov_reachable.induct)
  case paid
  then show ?case
    by (simp add: prov_inv_def creates_safe_def funds_safe_def done_safe_def live_def)
next
  case (step s s')
  then show ?case by (blast intro: prov_inv_step)
qed

lemma fund_amount_capped: "fund_amount od \<le> od_amount6 od"
  by (simp add: fund_amount_def)


definition prov_order :: order where
  "prov_order = paid_order\<lparr>od_kind := SpecOrder, od_state := ConfirmedProvisioning\<rparr>"

definition creating :: "string option \<Rightarrow> pcall \<Rightarrow> (string \<times> tx_status) list \<Rightarrow> prov_state" where
  "creating h c ch = \<lparr>ps_order = prov_order\<lparr>od_provision := Some (fresh_create\<lparr>pv_txCreate := h\<rparr>)\<rparr>,
     ps_call = c, ps_creates = ch, ps_funds = [], ps_sent = []\<rparr>"

lemma reach_sending: "prov_reachable gap prov_order (creating None CreateSending [])"
proof -
  let ?s = "\<lparr>ps_order = prov_order, ps_call = PIdle, ps_creates = [], ps_funds = [], ps_sent = []\<rparr>"
  have "prov_reachable gap prov_order ?s"
    by (rule prov_reachable.paid) (simp add: prov_order_def paid_order_def)
  then have "prov_reachable gap prov_order ((with_prov fresh_create ?s)\<lparr>ps_call := CreateSending\<rparr>)"
    by (rule prov_reachable.step) (rule prov_step_rel.begin_create;
      simp add: prov_order_def paid_order_def plan_of_def plan_recovery_def)
  then show ?thesis by (simp add: with_prov_def creating_def fresh_create_def)
qed

lemma reach_sent: "prov_reachable gap prov_order (creating None (CreateSent ''0x0c'') [(''0x0c'', Pending)])"
  using prov_reachable.step [OF reach_sending prov_step_rel.create_sent [of _ "''0x0c''"]]
  by (simp add: creating_def)

lemma reach_waiting: "prov_reachable gap prov_order (creating (Some ''0x0c'') (CreateWaiting ''0x0c'') [(''0x0c'', Pending)])"
  using prov_reachable.step [OF reach_sent prov_step_rel.create_hash
      [where h = "''0x0c''" and p = fresh_create]]
  by (simp add: creating_def with_prov_def fresh_create_def)


section \<open>What the recovery does not cover\<close>

text \<open>
  A create whose receipt was not awaited to the end (a timeout, a crash) and which is mined: the
  plan is to fund, but the record has no deployment id and the pass throws.
\<close>

definition stranded :: "prov_state \<Rightarrow> bool" where
  "stranded s \<longleftrightarrow> ps_call s = PIdle \<and>
     (case prov_of s of
        None \<Rightarrow> False
      | Some p \<Rightarrow> pv_step p = Creating \<and> pv_id p = None \<and>
          (case pv_txCreate p of None \<Rightarrow> False | Some h \<Rightarrow> map_of (ps_creates s) h = Some Mined))"

lemma stranded_plan: "stranded s \<Longrightarrow> plan_of s = FundPlan \<and> fund_section s = FThrow"
  by (auto simp: stranded_def plan_of_def plan_recovery_def tx_status_of_def fund_section_def
      split: option.splits prov_step.splits)

lemma stranded_step:
  assumes "prov_step_rel gap s s'" "stranded s"
  shows "stranded s' \<and> ps_sent s' = ps_sent s"
proof -
  note pl = stranded_plan [OF assms(2)]
  have idle: "ps_call s = PIdle" using assms(2) by (simp add: stranded_def)
  from assms(1) show ?thesis
  proof (cases rule: prov_step_rel.cases)
    case (create_confirmed h st)
    with assms(2) show ?thesis by (auto simp: stranded_def split: option.splits)
  next
    case (create_dropped h)
    with assms(2) show ?thesis by (auto simp: stranded_def delete_conv' split: option.splits)
  qed (use pl idle assms(2) in \<open>auto simp: funding_plan_def stranded_def split: option.splits\<close>)
qed



text \<open>A crash in the excluded instant, and the order has two creates.\<close>

theorem crash_in_gap_creates_twice:
  "\<exists>s. prov_reachable True prov_order s \<and> live (ps_creates s) = {''0x0c'', ''0x0d''}"
proof -
  let ?a = "creating None (CreateSent ''0x0c'') [(''0x0c'', Pending)]"
  let ?b = "creating None PIdle [(''0x0c'', Pending)]"
  let ?c = "creating None CreateSending [(''0x0c'', Pending)]"
  have "prov_reachable True prov_order (?a\<lparr>ps_call := PIdle\<rparr>)"
    by (rule prov_reachable.step [OF reach_sent prov_step_rel.crash]) simp
  then have b: "prov_reachable True prov_order ?b" by (simp add: creating_def)
  have "prov_step_rel True ?b ((with_prov fresh_create ?b)\<lparr>ps_call := CreateSending\<rparr>)"
    by (rule prov_step_rel.begin_create)
      (simp_all add: creating_def prov_order_def paid_order_def plan_of_def plan_recovery_def fresh_create_def)
  with b have "prov_reachable True prov_order ((with_prov fresh_create ?b)\<lparr>ps_call := CreateSending\<rparr>)"
    by (rule prov_reachable.step)
  then have c: "prov_reachable True prov_order ?c"
    by (simp add: with_prov_def creating_def fresh_create_def)
  have "prov_step_rel True ?c (?c\<lparr>ps_call := CreateSent ''0x0d'', ps_creates := ps_creates ?c @ [(''0x0d'', Pending)]\<rparr>)"
    by (rule prov_step_rel.create_sent) (simp_all add: creating_def)
  with c have "prov_reachable True prov_order
      (?c\<lparr>ps_call := CreateSent ''0x0d'', ps_creates := ps_creates ?c @ [(''0x0d'', Pending)]\<rparr>)"
    by (rule prov_reachable.step)
  then show ?thesis by (intro exI conjI, assumption) (auto simp: creating_def live_def)
qed

end
