(* ===== verification/Billing_Service.thy ===== *)
theory Billing_Service
  imports Billing_Sales Provisioner
begin

text \<open>
  The order service as a whole: every way an order is created or written, as one step relation
  over the service state, and the invariants that hold over any sequence of requests, payment
  callbacks, webhooks, reviews, sweeps, settlement writes and provisioner completions.
\<close>

section \<open>Steps of the service\<close>

inductive settle_write :: "order \<Rightarrow> order \<Rightarrow> bool" where
  w_begin: "settle_write od (begin_deposit now od)"
| w_verify: "verify_deposit now rid seen od = (od', r) \<Longrightarrow> settle_write od od'"
| w_fresh: "settle_write od (od\<lparr>od_vault := None\<rparr>)"
| w_hash: "on_broadcast h od = Some od' \<Longrightarrow> settle_write od od'"
| w_done: "settle_write od (deposit_done h od)"
| w_error: "settle_write od (deposit_error reverted od)"
| w_review: "settle_write od (reviewed rid reason od)"
| w_provision: "settle_write od (od\<lparr>od_provision := po\<rparr>)"
| w_provisioned: "settle_write od (set_order_state Complete ''provisioner'' od)"

inductive service_step :: "billing \<Rightarrow> billing \<Rightarrow> bool" where
  ordered: "create_order now ok oid ref acc ledger fee d b = Inr b' \<Longrightarrow> map_of (bl_orders b) oid = None \<Longrightarrow>
     service_step b b'"
| topped_up: "create_topup now env oid ref acc cents b = Inr b' \<Longrightarrow> map_of (bl_orders b) oid = None \<Longrightarrow>
     service_step b b'"
| checked_out: "map_of (bl_orders b) oid = Some od \<Longrightarrow>
     service_step b (put_order oid (od\<lparr>od_session := sess\<rparr>) b)"
| payment: "handle_confirmed_payment now rid scr l b = (b', ids) \<Longrightarrow> service_step b b'"
| pending: "service_step b (handle_pending_payment ref b)"
| webhook: "stripe_webhook e b = (b', ids) \<Longrightarrow> service_step b b'"
| resolved: "resolve_review rid act b = Inr (b', ids) \<Longrightarrow> service_step b b'"
| swept: "service_step b (expiry_sweep now mk b)"
| written: "map_of (bl_orders b) oid = Some od \<Longrightarrow> settle_write od od' \<Longrightarrow>
     service_step b (put_order oid od' b)"

definition empty_billing :: billing where
  "empty_billing = \<lparr>bl_orders = [], bl_byRef = [], bl_reviews = [], bl_events = []\<rparr>"

inductive service_reachable :: "billing \<Rightarrow> bool" where
  boot: "service_reachable empty_billing"
| step: "service_reachable b \<Longrightarrow> service_step b b' \<Longrightarrow> service_reachable b'"

inductive_cases settle_writeE: "settle_write od od'"
inductive_simps service_reachable_iff: "service_reachable b"

lemma new_order_ok [simp]: "order_ok (new_order k acc ref now r s a)"
  by (simp add: order_ok_def new_order_def)

lemma billing_ok_add [intro]: "billing_ok b \<Longrightarrow> order_ok od \<Longrightarrow> billing_ok (add_order oid od b)"
  by (auto simp: add_order_def)

lemma settle_write_ok:
  assumes "settle_write od od'" "order_ok od"
  shows "order_ok od'"
  using assms
  by (cases rule: settle_write.cases)
    (auto simp: begin_deposit_def verify_deposit_def on_broadcast_def deposit_done_def deposit_error_def
      split: option.splits tx_status.splits if_splits)

lemma service_step_ok:
  assumes "service_step b b'" "billing_ok b"
  shows "billing_ok b'"
  using assms
proof (cases rule: service_step.cases)
  case (ordered now ok oid ref acc ledger fee d)
  with assms(2) show ?thesis by (auto simp: create_order_def split: if_splits sum.splits)
next
  case (topped_up now env oid ref acc cents)
  with assms(2) show ?thesis by (auto elim!: create_topup_cases)
next
  case (checked_out oid od sess)
  with assms(2) billing_okD show ?thesis by auto
next
  case (payment now rid scr l ids)
  with handle_confirmed_ok [OF assms(2), of now rid scr l] show ?thesis by simp
next
  case (webhook e ids)
  with stripe_webhook_ok [OF assms(2), of e] show ?thesis by simp
next
  case (written oid od od')
  with assms(2) show ?thesis by (auto intro: settle_write_ok dest: billing_okD)
qed (use assms(2) in \<open>auto intro: handle_pending_ok resolve_review_ok expiry_sweep_ok\<close>)

lemma service_reachable_ok: "service_reachable b \<Longrightarrow> billing_ok b"
  by (induction rule: service_reachable.induct)
    (auto simp: billing_ok_def empty_billing_def dest: service_step_ok)

text \<open>
  C5: Order books are sound. In every state the service can reach, each order got to its state
  from \<^const>\<open>AwaitingPayment\<close> by an unbroken recorded chain of moves none of which leaves a
  terminal state except an expired order's move to review, no payment log entry is counted twice,
  and the order's total is exactly the sum of its recorded payments.
\<close>
theorem order_books_sound:
  assumes "service_reachable b" "map_of (bl_orders b) oid = Some od"
  shows "hops_chain AwaitingPayment (od_history od) (od_state od)
     \<and> list_all (\<lambda>h. hop_from h \<noteq> Complete \<and> hop_from h \<noteq> Rejected
          \<and> (hop_from h = Expired \<longrightarrow> hop_to h = UnderReview)) (od_history od)
     \<and> distinct (map payment_key (od_payments od))
     \<and> od_total6 od = sum_list (map py_amount (od_payments od))"
proof -
  have ok: "order_ok od" using assms service_reachable_ok billing_okD by blast
  then have "\<forall>h \<in> set (od_history od). legal_move (hop_from h) (hop_to h)"
    using hops_chain_not_terminal by (auto simp: order_ok_def)
  then have "list_all (\<lambda>h. hop_from h \<noteq> Complete \<and> hop_from h \<noteq> Rejected
          \<and> (hop_from h = Expired \<longrightarrow> hop_to h = UnderReview)) (od_history od)"
    unfolding list_all_iff legal_move_def terminal_def by fastforce
  then show ?thesis using ok by (auto simp: order_ok_def)
qed

definition demo_sold :: billing where
  "demo_sold = add_order ''ord'' (new_order SpecOrder ''acc'' ''0xab'' 0 84 29761 2499924) empty_billing"

lemma demo_sold_reachable: "service_reachable demo_sold"
proof (rule service_reachable.step [OF service_reachable.boot])
  have "create_order 0 True ''ord'' ''0xab'' ''acc'' (Some demo_rates) (\<lambda>_. Some 0) demo_request empty_billing
      = Inr demo_sold"
    by (simp add: create_order_def demo_quote demo_sold_def)
  then show "service_step empty_billing demo_sold"
    by (rule service_step.ordered) (simp add: empty_billing_def)
qed

definition demo_paid_log :: payment_log where
  "demo_paid_log = \<lparr>pl_ref = ''0xab'', pl_payer = ''0xc0'', pl_amount = 2499924, pl_tx = ''0x01'', pl_log = 4\<rparr>"

lemma demo_lower_ab: "to_lower ''0xab'' = ''0xab''"
  by code_simp

theorem order_books_sound_witness:
  "\<exists>b od. service_reachable b \<and> map_of (bl_orders b) ''ord'' = Some od \<and> od_total6 od = 2499924
     \<and> od_state od = ConfirmedProvisioning
     \<and> od_total6 od = sum_list (map py_amount (od_payments od))"
proof -
  let ?r = "handle_confirmed_payment 0 ''rev'' (\<lambda>_. Clear) demo_paid_log demo_sold"
  have "service_step demo_sold (fst ?r)"
    by (rule service_step.payment) (rule prod.collapse [symmetric])
  with demo_sold_reachable have r: "service_reachable (fst ?r)" by (rule service_reachable.step)
  have "\<exists>od. map_of (bl_orders (fst ?r)) ''ord'' = Some od \<and> od_total6 od = 2499924 \<and> od_state od = ConfirmedProvisioning"
    by (simp add: handle_confirmed_payment_def demo_paid_log_def demo_sold_def empty_billing_def new_order_def
        add_order_def demo_lower_ab record_payment_def Let_def decide_payment_def evaluate_payment_def
        dust_def overflag_def UNDERPAY_DUST_6_def UNDERPAY_DUST_BP_def OVERPAY_FLAG_6_def OVERPAY_FLAG_BP_def
        big_div_def ORDER_TTL_MS_def set_order_state_state terminal_def)
  then obtain od where od: "map_of (bl_orders (fst ?r)) ''ord'' = Some od" "od_total6 od = 2499924"
    "od_state od = ConfirmedProvisioning" by blast
  from order_books_sound [OF r od(1)] r od show ?thesis by blast
qed

section \<open>Webhook events\<close>

lemma service_step_events:
  assumes "service_step b b'" "map_of (bl_events b) i \<noteq> None"
  shows "map_of (bl_events b') i \<noteq> None"
proof -
  have sweep: "bl_events (foldl (\<lambda>acc oid. expire_order now mk oid acc) c ids) = bl_events c" for now mk ids c
    by (induction ids arbitrary: c) (auto simp: expire_order_def split: option.splits)
  from assms(1) show ?thesis
  proof (cases rule: service_step.cases)
    case (payment now rid scr l ids)
    with assms(2) show ?thesis
      by (auto simp: handle_confirmed_payment_def decide_payment_def Let_def
          split: option.splits if_splits verdict.splits)
  next
    case (topped_up now env oid ref acc cents)
    with assms(2) show ?thesis by (auto simp: add_order_def elim!: create_topup_cases)
  next
    case swept
    with assms(2) show ?thesis by (auto simp: expiry_sweep_def sweep)
  qed (use assms(2) in \<open>auto simp: create_order_def add_order_def handle_pending_payment_def stripe_webhook_def
        resolve_review_def Let_def split: option.splits if_splits sum.splits\<close>)
qed

text \<open>
  A Stripe event acts once. After an event has been handled, delivering it again changes
  nothing and triggers nothing, whatever the service did in between.
\<close>
theorem webhook_event_acts_once:
  assumes "stripe_webhook e b = (b1, ids)" "service_step\<^sup>*\<^sup>* b1 b2"
  shows "stripe_webhook e b2 = (b2, [])"
proof -
  have "map_of (bl_events b1) (se_id e) \<noteq> None"
    using assms(1) by (auto simp: stripe_webhook_def Let_def split: if_splits option.splits)
  with assms(2) have "map_of (bl_events b2) (se_id e) \<noteq> None"
    by (induction rule: rtranclp_induct) (auto dest: service_step_events)
  then show ?thesis by (simp add: stripe_webhook_def)
qed

definition demo_event :: stripe_event where
  "demo_event = \<lparr>se_id = ''evt'', se_type = CheckoutCompleted, se_order = Some ''ord'', se_session = ''cs'', se_paid = True\<rparr>"

lemma demo_event_run: "snd (stripe_webhook demo_event demo_sold) = [''ord'']"
  by (simp add: stripe_webhook_def demo_event_def demo_sold_def empty_billing_def add_order_def
      new_order_def Let_def terminal_def)

theorem webhook_event_acts_once_witness:
  "snd (stripe_webhook demo_event demo_sold) = [''ord''] \<and>
   stripe_webhook demo_event (fst (stripe_webhook demo_event demo_sold))
     = (fst (stripe_webhook demo_event demo_sold), [])"
  using webhook_event_acts_once [OF prod.collapse [symmetric] rtranclp.rtrancl_refl] demo_event_run by blast

section \<open>A hit does not stop a card\<close>

text \<open>
  The sanctions screen holds an order against later USDC payments and not against a card: an
  order under review for a hit goes straight to provisioning when the webhook reports its card
  session paid.
\<close>

theorem card_payment_passes_ofac_review:
  "let b1 = fst (handle_confirmed_payment 0 ''rev'' (\<lambda>_. Hit) demo_paid_log demo_sold);
       r = stripe_webhook demo_event b1
   in map_option od_state (map_of (bl_orders b1) ''ord'') = Some UnderReview
      \<and> map_option od_state (map_of (bl_orders (fst r)) ''ord'') = Some ConfirmedProvisioning
      \<and> snd r = [''ord'']"
  by (simp add: handle_confirmed_payment_def demo_paid_log_def demo_sold_def empty_billing_def new_order_def
      add_order_def demo_lower_ab record_payment_def Let_def stripe_webhook_def demo_event_def
      set_order_state_state terminal_def)

end
