(* ===== verification/Store_Limits.thy ===== *)
theory Store_Limits
  imports Complex_Main Js_Prelude
begin

text \<open>
  The shared plumbing of \<open>relay/store.js\<close>: the JSON document store with its two write modes, and
  the per-key token bucket. Token counts are rationals, so a refill is exact; times are
  milliseconds.
\<close>

section \<open>The document store\<close>

record 'd json_store =
  js_data :: 'd
  js_disk :: "'d option"
  js_durable :: bool
  js_dirty :: bool

text \<open>
  \<open>atomicWriteJson\<close> writes a temporary file and renames it, so a write that fails leaves the old
  file; \<open>ok\<close> says whether it succeeded. The flag is cleared before the write.
\<close>

definition store_flush :: "bool \<Rightarrow> 'd json_store \<Rightarrow> 'd json_store" where
  "store_flush ok s =
     (let s1 = s\<lparr>js_dirty := False\<rparr> in if ok then s1\<lparr>js_disk := Some (js_data s1)\<rparr> else s1)"

definition save_soon :: "bool \<Rightarrow> 'd json_store \<Rightarrow> 'd json_store" where
  "save_soon ok s = (if js_durable s then store_flush ok s else s\<lparr>js_dirty := True\<rparr>)"

definition store_tick :: "bool \<Rightarrow> 'd json_store \<Rightarrow> 'd json_store" where
  "store_tick ok s = (if js_dirty s then store_flush ok s else s)"

text \<open>A new process: \<open>merge initial onDisk\<close> is \<open>{ ...initial, ...onDisk }\<close>.\<close>

definition open_store :: "('d \<Rightarrow> 'd \<Rightarrow> 'd) \<Rightarrow> 'd \<Rightarrow> bool \<Rightarrow> 'd option \<Rightarrow> 'd json_store" where
  "open_store merge initial durable disk =
     \<lparr>js_data = (case disk of Some d \<Rightarrow> merge initial d | None \<Rightarrow> initial),
      js_disk = disk, js_durable = durable, js_dirty = False\<rparr>"

text \<open>
  The contract the account and order services rely on: a saved change survives a crash.
  \<open>save\<close> writes, \<open>survives\<close> is what the next process finds.
\<close>

locale durable_writes =
  fixes save :: "'s \<Rightarrow> 's" and content :: "'s \<Rightarrow> 'd" and survives :: "'s \<Rightarrow> 'd option"
    and put :: "('d \<Rightarrow> 'd) \<Rightarrow> 's \<Rightarrow> 's"
  assumes save_survives: "survives (save s) = Some (content s)"
    and save_keeps: "content (save s) = content s"
    and put_content: "content (put f s) = f (content s)"
begin

lemma saved_change_survives: "survives (save (put f s)) = Some (f (content s))"
  by (simp add: save_survives put_content)

lemma saved_changes_accumulate:
  "survives (save (put g (save (put f s)))) = Some (g (f (content s)))"
  by (simp add: save_survives save_keeps put_content)

lemma saved_run:
  assumes "fs \<noteq> []"
  shows "survives (foldl (\<lambda>s f. save (put f s)) s fs) = Some (foldl (\<lambda>d f. f d) (content s) fs)"
  using assms
proof (induction fs rule: rev_induct)
  case (snoc f fs)
  have "content (foldl (\<lambda>s f. save (put f s)) s fs) = foldl (\<lambda>d f. f d) (content s) fs"
    by (induction fs arbitrary: s) (simp_all add: save_keeps put_content)
  then show ?case by (simp add: save_survives put_content)
qed simp

end

definition put_data :: "('d \<Rightarrow> 'd) \<Rightarrow> 'd json_store \<Rightarrow> 'd json_store" where
  "put_data f s = s\<lparr>js_data := f (js_data s)\<rparr>"

definition durable_save :: "'d json_store \<Rightarrow> 'd json_store" where
  "durable_save s = save_soon True (s\<lparr>js_durable := True\<rparr>)"

interpretation ds: durable_writes durable_save js_data js_disk put_data
  by unfold_locales (simp_all add: durable_save_def save_soon_def store_flush_def put_data_def Let_def)

interpretation fl: durable_writes "store_flush True" js_data js_disk put_data
  by unfold_locales (simp_all add: store_flush_def put_data_def Let_def)

lemma durable_save_eq: "js_durable s \<Longrightarrow> durable_save s = save_soon True s"
  by (cases s) (simp add: durable_save_def)

lemma put_durable [simp]: "js_durable (put_data f s) = js_durable s"
  by (simp add: put_data_def)

lemma save_durable [simp]: "js_durable (save_soon ok s) = js_durable s"
  by (simp add: save_soon_def store_flush_def Let_def)

text \<open>
  A durable store never loses an acknowledged change: after any number of changes, each
  followed by \<open>saveSoon\<close>, a process that dies at once and starts again finds all of them.
\<close>
theorem durable_changes_survive:
  assumes "js_durable s" "fs \<noteq> []" "\<And>d. merge initial d = d"
  shows "js_data (open_store merge initial True
      (js_disk (foldl (\<lambda>s f. save_soon True (put_data f s)) s fs))) = foldl (\<lambda>d f. f d) (js_data s) fs"
proof -
  have "foldl (\<lambda>s f. save_soon True (put_data f s)) s fs = foldl (\<lambda>s f. durable_save (put_data f s)) s fs"
    using assms(1) by (induction fs arbitrary: s) (simp_all add: durable_save_eq)
  then show ?thesis using ds.saved_run [OF assms(2)] assms(3) by (simp add: open_store_def)
qed

theorem durable_changes_survive_witness:
  "js_data (open_store (\<lambda>i d. d) (0::int) True
      (js_disk (foldl (\<lambda>s f. save_soon True (put_data f s)) (open_store (\<lambda>i d. d) 0 True None)
        [\<lambda>x. x + 5, \<lambda>x. x * 3]))) = 15"
  by (subst durable_changes_survive) (simp_all add: open_store_def)

section \<open>The token bucket\<close>

record bucket =
  bk_tokens :: rat
  bk_at :: int

type_synonym buckets = "(string \<times> bucket) list"

definition refilled :: "rat \<Rightarrow> rat \<Rightarrow> int \<Rightarrow> bucket \<Rightarrow> rat" where
  "refilled capacity refillPerSec now b =
     min capacity (bk_tokens b + of_int (now - bk_at b) / 1000 * refillPerSec)"

definition take_token ::
  "rat \<Rightarrow> rat \<Rightarrow> int \<Rightarrow> string \<Rightarrow> buckets \<Rightarrow> bool \<times> buckets" where
  "take_token capacity refillPerSec now k bs =
     (let b = (case map_of bs k of Some b \<Rightarrow> b | None \<Rightarrow> \<lparr>bk_tokens = capacity, bk_at = now\<rparr>);
          t = refilled capacity refillPerSec now b
      in if t < 1 then (False, AList.update k \<lparr>bk_tokens = t, bk_at = now\<rparr> bs)
         else (True, AList.update k \<lparr>bk_tokens = t - 1, bk_at = now\<rparr> bs))"

text \<open>The sweep that runs every minute forgets a bucket not touched for five.\<close>

definition sweep_buckets :: "int \<Rightarrow> buckets \<Rightarrow> buckets" where
  "sweep_buckets now bs = filter (\<lambda>(k, b). \<not> now - bk_at b > 300000) bs"

datatype limit_event = Take int string | Sweep int

fun limit_time :: "limit_event \<Rightarrow> int" where
  "limit_time (Take now k) = now"
| "limit_time (Sweep now) = now"

fun limit_run :: "rat \<Rightarrow> rat \<Rightarrow> string \<Rightarrow> limit_event list \<Rightarrow> buckets \<Rightarrow> nat \<times> buckets" where
  "limit_run capacity refill k [] bs = (0, bs)"
| "limit_run capacity refill k (Take now k' # es) bs =
     (let (ok, bs1) = take_token capacity refill now k' bs;
          (n, bs2) = limit_run capacity refill k es bs1
      in (n + (if ok \<and> k' = k then 1 else 0), bs2))"
| "limit_run capacity refill k (Sweep now # es) bs = limit_run capacity refill k es (sweep_buckets now bs)"

fun ordered_from :: "int \<Rightarrow> limit_event list \<Rightarrow> bool" where
  "ordered_from t [] = True"
| "ordered_from t (e # es) \<longleftrightarrow> t \<le> limit_time e \<and> ordered_from (limit_time e) es"

definition end_time :: "int \<Rightarrow> limit_event list \<Rightarrow> int" where
  "end_time t es = (if es = [] then t else limit_time (last es))"

text \<open>The tokens the key has at a time: those of its bucket, refilled, or a full bucket.\<close>

definition has_tokens :: "rat \<Rightarrow> rat \<Rightarrow> int \<Rightarrow> string \<Rightarrow> buckets \<Rightarrow> rat" where
  "has_tokens capacity refill now k bs =
     (case map_of bs k of Some b \<Rightarrow> refilled capacity refill now b | None \<Rightarrow> capacity)"

definition buckets_ok :: "int \<Rightarrow> buckets \<Rightarrow> bool" where
  "buckets_ok now bs \<longleftrightarrow> distinct (map fst bs) \<and> list_all (\<lambda>(k, b). 0 \<le> bk_tokens b \<and> bk_at b \<le> now) bs"

lemma end_time_Cons: "end_time t (e # es) = end_time (limit_time e) es"
  by (simp add: end_time_def)

lemma ordered_end: "ordered_from t es \<Longrightarrow> t \<le> end_time t es"
proof (induction es arbitrary: t)
  case Nil
  then show ?case by (simp add: end_time_def)
next
  case (Cons e es)
  then have "t \<le> limit_time e" "limit_time e \<le> end_time (limit_time e) es" by auto
  then show ?case by (simp add: end_time_Cons)
qed

definition gain :: "rat \<Rightarrow> int \<Rightarrow> rat" where
  "gain r dt = of_int dt / 1000 * r"

lemma gain_split: "gain r (a - c) = gain r (a - b) + gain r (b - c)"
  by (simp add: gain_def algebra_simps diff_divide_distrib)

lemma gain_nonneg: "0 \<le> r \<Longrightarrow> 0 \<le> dt \<Longrightarrow> 0 \<le> gain r dt"
  by (simp add: gain_def)

lemma refilled_gain: "refilled c r t b = min c (bk_tokens b + gain r (t - bk_at b))"
  by (simp only: refilled_def gain_def)

lemma refilled_later:
  assumes "0 \<le> r" "t \<le> t'"
  shows "refilled c r t' b \<le> refilled c r t b + gain r (t' - t)"
proof -
  have "0 \<le> gain r (t' - t)" using assms by (simp add: gain_nonneg)
  then have "min c (x + gain r (t' - t)) \<le> min c x + gain r (t' - t)" for x by (auto simp: min_def)
  from this [of "bk_tokens b + gain r (t - bk_at b)"] show ?thesis
    using gain_split [of r t' "bk_at b" t] by (simp add: refilled_gain algebra_simps)
qed

lemma has_tokens_later:
  assumes "0 \<le> r" "t \<le> t'"
  shows "has_tokens c r t' k bs \<le> has_tokens c r t k bs + gain r (t' - t)"
  using refilled_later [OF assms] gain_nonneg [of r "t' - t"] assms
  by (auto simp: has_tokens_def split: option.splits)

lemma refilled_bounds:
  assumes "0 \<le> c" "0 \<le> r" "0 \<le> bk_tokens b" "bk_at b \<le> now"
  shows "0 \<le> refilled c r now b" "refilled c r now b \<le> c"
  using assms by (auto simp: refilled_def min_def)

lemma refilled_now [simp]: "0 \<le> x \<Longrightarrow> x \<le> c \<Longrightarrow> refilled c r now \<lparr>bk_tokens = x, bk_at = now\<rparr> = x"
  by (simp add: refilled_def)

lemma has_tokens_bounds:
  assumes "0 \<le> c" "0 \<le> r" "buckets_ok now bs"
  shows "0 \<le> has_tokens c r now k bs" "has_tokens c r now k bs \<le> c"
  using assms refilled_bounds [OF assms(1,2)]
  by (auto simp: has_tokens_def buckets_ok_def list_all_iff split: option.splits dest!: map_of_SomeD)

lemma buckets_ok_later: "buckets_ok t bs \<Longrightarrow> t \<le> t' \<Longrightarrow> buckets_ok t' bs"
  by (auto simp: buckets_ok_def list_all_iff)

lemma take_token_spec:
  assumes "0 \<le> c" "0 \<le> r" "buckets_ok now bs" "take_token c r now k' bs = (ok, bs')"
  shows "buckets_ok now bs'"
    and "k' \<noteq> k \<Longrightarrow> has_tokens c r now k bs' = has_tokens c r now k bs"
    and "has_tokens c r now k' bs' = has_tokens c r now k' bs - (if ok then 1 else 0)"
proof -
  define b where "b = (case map_of bs k' of Some b \<Rightarrow> b | None \<Rightarrow> \<lparr>bk_tokens = c, bk_at = now\<rparr>)"
  define t where "t = refilled c r now b"
  have b: "0 \<le> bk_tokens b" "bk_at b \<le> now"
    using assms(1,3) by (auto simp: b_def buckets_ok_def list_all_iff split: option.splits dest!: map_of_SomeD)
  have t: "0 \<le> t" "t \<le> c" using refilled_bounds [OF assms(1,2) b] by (simp_all add: t_def)
  have h: "has_tokens c r now k' bs = t"
    using assms(1) by (simp add: has_tokens_def t_def b_def split: option.splits)
  have "ok = (\<not> t < 1)" and bs': "bs' = AList.update k' \<lparr>bk_tokens = t - (if ok then 1 else 0), bk_at = now\<rparr> bs"
    using assms(4) by (auto simp: take_token_def t_def b_def Let_def split: if_splits)
  then have u: "0 \<le> t - (if ok then 1 else 0)" "t - (if ok then 1 else 0) \<le> c" using t by auto
  show "buckets_ok now bs'"
    using assms(3) u by (auto simp: bs' buckets_ok_def distinct_update intro!: list_all_alist_update)
  show "k' \<noteq> k \<Longrightarrow> has_tokens c r now k bs' = has_tokens c r now k bs"
    by (simp add: has_tokens_def bs')
  show "has_tokens c r now k' bs' = has_tokens c r now k' bs - (if ok then 1 else 0)"
    using u h by (simp add: has_tokens_def bs')
qed

lemma sweep_spec:
  assumes "0 \<le> c" "0 \<le> r" "c \<le> 300 * r" "buckets_ok now bs"
  shows "buckets_ok now (sweep_buckets now bs)"
    and "has_tokens c r now k (sweep_buckets now bs) = has_tokens c r now k bs"
proof -
  show "buckets_ok now (sweep_buckets now bs)"
    using assms(4) by (auto simp: buckets_ok_def sweep_buckets_def distinct_map_filter list_all_iff)
  have d: "distinct (map fst bs)" using assms(4) by (simp add: buckets_ok_def)
  have m: "map_of (sweep_buckets now bs) k =
      (case map_of bs k of Some b \<Rightarrow> if now - bk_at b > 300000 then None else Some b | None \<Rightarrow> None)"
    using map_of_filter_value [OF d, of "\<lambda>b. \<not> now - bk_at b > 300000" k]
    by (simp add: sweep_buckets_def split: option.splits)
  have full: "refilled c r now b = c" if "now - bk_at b > 300000" "0 \<le> bk_tokens b" for b
  proof -
    have "(300::rat) \<le> of_int (now - bk_at b) / 1000" using that(1) by simp
    then have "300 * r \<le> of_int (now - bk_at b) / 1000 * r" using assms(2) by (rule mult_right_mono)
    then show ?thesis using that(2) assms(3) by (simp add: refilled_def min_def)
  qed
  show "has_tokens c r now k (sweep_buckets now bs) = has_tokens c r now k bs"
    using assms(4) full
    by (auto simp: has_tokens_def m buckets_ok_def list_all_iff split: option.splits dest!: map_of_SomeD)
qed

lemma limit_run_potential:
  assumes "0 \<le> c" "0 \<le> r" "c \<le> 300 * r" "buckets_ok t bs" "ordered_from t es"
    and "limit_run c r k es bs = (n, bs')"
  shows "of_nat n + has_tokens c r (end_time t es) k bs' \<le> has_tokens c r t k bs + gain r (end_time t es - t)
    \<and> buckets_ok (end_time t es) bs'"
  using assms(4-)
proof (induction es arbitrary: t bs n bs')
  case Nil
  then show ?case by (simp add: end_time_def gain_def)
next
  case (Cons e es)
  let ?t = "limit_time e" and ?e = "end_time t (e # es)"
  have e: "?e = end_time ?t es" by (simp add: end_time_Cons)
  have ord: "t \<le> ?t" "ordered_from ?t es" using Cons.prems(2) by auto
  have ok: "buckets_ok ?t bs" using Cons.prems(1) ord(1) by (rule buckets_ok_later)
  have later: "has_tokens c r ?t k bs \<le> has_tokens c r t k bs + gain r (?t - t)"
    using assms(2) ord(1) by (rule has_tokens_later)
  have sum: "gain r (?e - t) = gain r (?e - ?t) + gain r (?t - t)" by (rule gain_split)
  show ?case
  proof (cases e)
    case (Take now k')
    obtain a bs1 where a: "take_token c r now k' bs = (a, bs1)" by fastforce
    obtain m bs2 where m: "limit_run c r k es bs1 = (m, bs2)" by fastforce
    have n: "n = m + (if a \<and> k' = k then 1 else 0)" "bs' = bs2"
      using Cons.prems(3) by (simp_all add: Take a m)
    have now: "?t = now" by (simp add: Take)
    note s = take_token_spec [OF assms(1,2) ok [unfolded now] a]
    have "has_tokens c r ?t k bs1 = has_tokens c r ?t k bs - (if a \<and> k' = k then 1 else 0)"
      using s(2) [of k] s(3) by (cases "k' = k") (simp_all add: now)
    with Cons.IH [OF s(1) [folded now] ord(2) m] later sum show ?thesis
      by (auto simp: n e split: if_splits)
  next
    case (Sweep now)
    have now: "?t = now" by (simp add: Sweep)
    note s = sweep_spec [OF assms(1-3) ok [unfolded now]]
    have "limit_run c r k es (sweep_buckets ?t bs) = (n, bs')" using Cons.prems(3) by (simp add: Sweep)
    from Cons.IH [OF s(1) [folded now] ord(2) this] s(2) [of k] later sum show ?thesis
      by (simp add: now e)
  qed
qed

text \<open>
  The limiter limits. When a full bucket refills within the five minutes after which it is
  forgotten, a key is served, over any interleaving with other keys and sweeps, at most the
  capacity plus what the time since the first event refills.
\<close>
theorem rate_limit_bound:
  assumes "0 \<le> capacity" "0 \<le> refill" "capacity \<le> 300 * refill" "ordered_from t es"
  shows "of_nat (fst (limit_run capacity refill k es [])) \<le> capacity + of_int (end_time t es - t) / 1000 * refill"
proof -
  obtain n bs' where r: "limit_run capacity refill k es [] = (n, bs')" by fastforce
  have "buckets_ok t []" by (simp add: buckets_ok_def)
  from limit_run_potential [OF assms(1-3) this assms(4) r]
  have p: "of_nat n + has_tokens capacity refill (end_time t es) k bs'
      \<le> capacity + of_int (end_time t es - t) / 1000 * refill"
    and ok: "buckets_ok (end_time t es) bs'" by (simp_all add: has_tokens_def gain_def)
  have "0 \<le> has_tokens capacity refill (end_time t es) k bs'"
    using has_tokens_bounds(1) [OF assms(1,2) ok] .
  with p r show ?thesis by simp
qed

theorem rate_limit_bound_witness:
  "of_nat (fst (limit_run 2 1 ''a'' [Take 0 ''a'', Take 5 ''a'', Take 6 ''a'', Sweep 400000, Take 400000 ''a''] []))
    \<le> 2 + of_int (400000 - 0) / 1000 * (1::rat)"
  using rate_limit_bound [of 2 1 0 "[Take 0 ''a'', Take 5 ''a'', Take 6 ''a'', Sweep 400000, Take 400000 ''a'']" "''a''"]
  by (simp add: end_time_def)

text \<open>
  The order limiter does not meet that condition: ten tokens an hour, forgotten after five
  minutes. Ten orders, a pause of six minutes and ten more are all served, where the bucket
  alone would have served ten and refilled one.
\<close>

definition burst :: "int \<Rightarrow> limit_event list" where
  "burst t = replicate 10 (Take t ''acc'')"

theorem order_limit_resets_in_five_minutes:
  "fst (limit_run 10 (10 / 3600) ''acc'' (burst 0 @ [Sweep 360000] @ burst 360000) []) = 20"
  by (simp add: burst_def numeral_eq_Suc take_token_def refilled_def sweep_buckets_def Let_def)

end
