(* ===== verification/Indexer.thy ===== *)
theory Indexer
  imports Js_Prelude
begin

text \<open>
  The payment indexer of \<open>relay/indexer.js\<close>: the polling loop over confirmed blocks with its
  trailing re-scan, the in-memory dedup of transaction and log index, and the persisted cursor.

  \<open>getLogs\<close> is what the RPC pool answers for a block range (\<^term>\<open>None\<close>: the call fails);
  \<open>handled\<close> says whether the payment handler returns or throws. The logs handed to the handler are
  collected in the state.
\<close>

record chain_log =
  cl_tx :: string
  cl_log :: int
  cl_block :: int

record indexer =
  ix_cursor :: "int option"
  ix_seen :: "((string \<times> int) \<times> int) list"
  ix_given :: "chain_log list"
  ix_failed :: bool

definition CONFIRMATIONS :: int where "CONFIRMATIONS = 3"
definition RESCAN :: int where "RESCAN = 20"
definition CHUNK :: int where "CHUNK = 4000"
definition MAX_CATCHUP :: int where "MAX_CATCHUP = 200000"

definition log_key :: "chain_log \<Rightarrow> string \<times> int" where
  "log_key lg = (cl_tx lg, cl_log lg)"

text \<open>The inner loop over the logs of a chunk; a throwing handler ends the poll.\<close>

fun give_logs :: "(chain_log \<Rightarrow> bool) \<Rightarrow> chain_log list \<Rightarrow> indexer \<Rightarrow> indexer" where
  "give_logs handled [] s = s"
| "give_logs handled (lg # lgs) s =
     (if map_of (ix_seen s) (log_key lg) \<noteq> None then give_logs handled lgs s
      else let s1 = s\<lparr>ix_seen := AList.update (log_key lg) (cl_block lg) (ix_seen s),
                      ix_given := ix_given s @ [lg]\<rparr>
           in if handled lg then give_logs handled lgs s1 else s1\<lparr>ix_failed := True\<rparr>)"

definition scan_from :: "int \<Rightarrow> int" where
  "scan_from from = (if from > RESCAN then from - RESCAN else 0)"

definition chunk_to :: "int \<Rightarrow> int \<Rightarrow> int" where
  "chunk_to safe from =
     (let t = (if safe - scan_from from > CHUNK then scan_from from + CHUNK else safe)
      in if t < from then from else t)"

definition scan_chunk ::
  "(int \<Rightarrow> int \<Rightarrow> chain_log list option) \<Rightarrow> (chain_log \<Rightarrow> bool) \<Rightarrow> int \<Rightarrow> int \<Rightarrow> indexer \<Rightarrow> indexer" where
  "scan_chunk getLogs handled safe from s =
     (let s1 = s\<lparr>ix_seen := filter (\<lambda>(k, b). \<not> b < scan_from from) (ix_seen s)\<rparr>
      in (case getLogs (scan_from from) (chunk_to safe from) of
            None \<Rightarrow> s1\<lparr>ix_failed := True\<rparr>
          | Some lgs \<Rightarrow>
              let s2 = give_logs handled lgs s1
              in if ix_failed s2 then s2 else s2\<lparr>ix_cursor := Some (chunk_to safe from + 1)\<rparr>))"

lemma chunk_to_ge: "from \<le> chunk_to safe from" "- chunk_to safe from < 1 - from"
  by (simp_all add: chunk_to_def Let_def)

text \<open>The outer loop. It terminates because every chunk ends at or after its cursor.\<close>

function scan_loop ::
  "(int \<Rightarrow> int \<Rightarrow> chain_log list option) \<Rightarrow> (chain_log \<Rightarrow> bool) \<Rightarrow> int \<Rightarrow> int \<Rightarrow> indexer \<Rightarrow> indexer" where
  "scan_loop getLogs handled safe from s =
     (if from > safe then s
      else let s1 = scan_chunk getLogs handled safe from s
           in if ix_failed s1 then s1 else scan_loop getLogs handled safe (chunk_to safe from + 1) s1)"
  by pat_completeness auto

termination scan_loop
proof (relation "measure (\<lambda>(_, _, safe, from, _). nat (safe + 1 - from))")
qed (auto simp: chunk_to_ge)

declare scan_loop.simps [simp del]

definition poll :: "(int \<Rightarrow> int \<Rightarrow> chain_log list option) \<Rightarrow> (chain_log \<Rightarrow> bool) \<Rightarrow> int \<Rightarrow> indexer \<Rightarrow> indexer" where
  "poll getLogs handled tip s0 =
     (let safe = tip - CONFIRMATIONS; s = s0\<lparr>ix_failed := False\<rparr>
      in if safe < 0 then s
         else let (s1, from) = (case ix_cursor s of
                    None \<Rightarrow> (s\<lparr>ix_cursor := Some (safe + 1)\<rparr>, safe + 1)
                  | Some c \<Rightarrow> (s, c));
                  from' = (if safe - from > MAX_CATCHUP then safe - MAX_CATCHUP else from)
              in scan_loop getLogs handled safe from' s1)"

text \<open>A restart keeps the cursor only.\<close>

definition restart_indexer :: "indexer \<Rightarrow> indexer" where
  "restart_indexer s = s\<lparr>ix_seen := [], ix_failed := False\<rparr>"

section \<open>Exactly once, and nothing skipped\<close>

text \<open>
  \<open>honest L getLogs\<close>: an answered range holds exactly the logs of the chain \<open>L\<close> in that range.
\<close>

definition honest :: "chain_log list \<Rightarrow> (int \<Rightarrow> int \<Rightarrow> chain_log list option) \<Rightarrow> bool" where
  "honest L getLogs \<longleftrightarrow> (\<forall>a b lgs. getLogs a b = Some lgs \<longrightarrow>
     set lgs = {lg \<in> set L. a \<le> cl_block lg \<and> cl_block lg \<le> b})"

definition answer_range :: "chain_log list \<Rightarrow> int \<Rightarrow> int \<Rightarrow> chain_log list option" where
  "answer_range L a b = Some (filter (\<lambda>lg. a \<le> cl_block lg \<and> cl_block lg \<le> b) L)"

lemma answer_range_honest: "honest L (answer_range L)"
  by (auto simp: honest_def answer_range_def)

text \<open>
  What holds between chunks: no log was given twice, and the dedup still knows every given log
  that a later scan can return.
\<close>

definition seen_inv :: "chain_log list \<Rightarrow> int \<Rightarrow> indexer \<Rightarrow> bool" where
  "seen_inv L low s \<longleftrightarrow> distinct (map log_key (ix_given s)) \<and> set (ix_given s) \<subseteq> set L
     \<and> distinct (map fst (ix_seen s))
     \<and> (\<forall>k b. map_of (ix_seen s) k = Some b \<longrightarrow> (\<exists>lg \<in> set (ix_given s). log_key lg = k \<and> cl_block lg = b))
     \<and> (\<forall>lg \<in> set (ix_given s). low \<le> cl_block lg \<longrightarrow>
          map_of (ix_seen s) (log_key lg) = Some (cl_block lg))"

definition ix_inv :: "chain_log list \<Rightarrow> indexer \<Rightarrow> bool" where
  "ix_inv L s \<longleftrightarrow> (case ix_cursor s of
     Some c \<Rightarrow> seen_inv L (scan_from c) s
   | None \<Rightarrow> ix_given s = [] \<and> ix_seen s = [])"

lemma seen_inv_mono: "seen_inv L a s \<Longrightarrow> a \<le> b \<Longrightarrow> seen_inv L b s"
  by (auto simp: seen_inv_def)

lemma scan_from_mono: "a \<le> b \<Longrightarrow> scan_from a \<le> scan_from b"
  by (auto simp: scan_from_def RESCAN_def)

lemma give_logs_inv:
  assumes "seen_inv L low s" "set lgs \<subseteq> {lg \<in> set L. low \<le> cl_block lg}" "distinct (map log_key L)"
  shows "seen_inv L low (give_logs handled lgs s)
     \<and> ix_cursor (give_logs handled lgs s) = ix_cursor s
     \<and> set (ix_given s) \<subseteq> set (ix_given (give_logs handled lgs s))
     \<and> (\<not> ix_failed (give_logs handled lgs s) \<longrightarrow> set lgs \<subseteq> set (ix_given (give_logs handled lgs s)))"
  using assms(1,2)
proof (induction lgs arbitrary: s)
  case (Cons lg lgs)
  have inj: "x = y" if "x \<in> set L" "y \<in> set L" "log_key x = log_key y" for x y
    using assms(3) that by (auto simp: distinct_map inj_on_def)
  show ?case
  proof (cases "map_of (ix_seen s) (log_key lg)")
    case (Some b)
    then obtain g where "g \<in> set (ix_given s)" "log_key g = log_key lg"
      using Cons.prems(1) unfolding seen_inv_def by blast
    with Cons.prems inj have "lg \<in> set (ix_given s)" by (auto simp: seen_inv_def)
    with Some Cons.IH [of s] Cons.prems show ?thesis by auto
  next
    case None
    let ?s = "s\<lparr>ix_seen := AList.update (log_key lg) (cl_block lg) (ix_seen s), ix_given := ix_given s @ [lg]\<rparr>"
    have fresh: "log_key lg \<notin> log_key ` set (ix_given s)"
    proof
      assume "log_key lg \<in> log_key ` set (ix_given s)"
      then obtain g where g: "g \<in> set (ix_given s)" "log_key lg = log_key g" by auto
      with Cons.prems inj have "lg = g" by (auto simp: seen_inv_def)
      with None g Cons.prems show False by (auto simp: seen_inv_def)
    qed
    have inv: "seen_inv L low ?s"
      using Cons.prems fresh by (auto simp: seen_inv_def distinct_update image_iff)
    show ?thesis
    proof (cases "handled lg")
      case True
      with None Cons.IH [OF inv] Cons.prems show ?thesis by (auto simp: Let_def)
    next
      case False
      have "seen_inv L low (?s\<lparr>ix_failed := True\<rparr>)" using inv by (simp add: seen_inv_def)
      with None False show ?thesis by (auto simp: Let_def)
    qed
  qed
qed simp

lemma seen_inv_prune:
  assumes "seen_inv L low s" "low \<le> a"
  shows "seen_inv L a (s\<lparr>ix_seen := filter (\<lambda>(k, b). \<not> b < a) (ix_seen s)\<rparr>)"
  using assms map_of_filter_value [of "ix_seen s" "\<lambda>b. \<not> b < a"]
  by (auto simp: seen_inv_def distinct_map_filter split: option.splits)

lemma seen_inv_other [simp]:
  "seen_inv L low (s\<lparr>ix_cursor := c\<rparr>) = seen_inv L low s"
  "seen_inv L low (s\<lparr>ix_failed := f\<rparr>) = seen_inv L low s"
  by (simp_all add: seen_inv_def)

lemma scan_chunk_inv:
  assumes "seen_inv L low s" "low \<le> scan_from from" "honest L getLogs" "distinct (map log_key L)"
    and s'_def: "s' = scan_chunk getLogs handled safe from s"
  shows "seen_inv L (scan_from from) s'"
    and "set (ix_given s) \<subseteq> set (ix_given s')"
    and "ix_failed s' \<Longrightarrow> ix_cursor s' = ix_cursor s"
    and "\<not> ix_failed s' \<Longrightarrow> ix_cursor s' = Some (chunk_to safe from + 1)"
    and "\<not> ix_failed s' \<Longrightarrow> lg \<in> set L \<Longrightarrow> scan_from from \<le> cl_block lg \<Longrightarrow>
      cl_block lg \<le> chunk_to safe from \<Longrightarrow> lg \<in> set (ix_given s')"
proof -
  let ?s1 = "s\<lparr>ix_seen := filter (\<lambda>(k, b). \<not> b < scan_from from) (ix_seen s)\<rparr>"
  have inv1: "seen_inv L (scan_from from) ?s1" using assms(1,2) by (rule seen_inv_prune)
  have *: "seen_inv L (scan_from from) s' \<and> set (ix_given s) \<subseteq> set (ix_given s')
     \<and> (ix_failed s' \<longrightarrow> ix_cursor s' = ix_cursor s)
     \<and> (\<not> ix_failed s' \<longrightarrow> ix_cursor s' = Some (chunk_to safe from + 1)
         \<and> {lg \<in> set L. scan_from from \<le> cl_block lg \<and> cl_block lg \<le> chunk_to safe from} \<subseteq> set (ix_given s'))"
  proof (cases "getLogs (scan_from from) (chunk_to safe from)")
    case None
    with inv1 show ?thesis by (simp add: s'_def scan_chunk_def Let_def)
  next
    case (Some lgs)
    with assms(3) have lgs: "set lgs = {lg \<in> set L. scan_from from \<le> cl_block lg \<and> cl_block lg \<le> chunk_to safe from}"
      by (auto simp: honest_def)
    have "set lgs \<subseteq> {lg \<in> set L. scan_from from \<le> cl_block lg}" using lgs by auto
    from give_logs_inv [OF inv1 this assms(4), of handled] Some lgs show ?thesis
      by (auto simp: s'_def scan_chunk_def Let_def)
  qed
  from * show "seen_inv L (scan_from from) s'" "set (ix_given s) \<subseteq> set (ix_given s')"
    "ix_failed s' \<Longrightarrow> ix_cursor s' = ix_cursor s" "\<not> ix_failed s' \<Longrightarrow> ix_cursor s' = Some (chunk_to safe from + 1)"
    by auto
  from * show "\<not> ix_failed s' \<Longrightarrow> lg \<in> set L \<Longrightarrow> scan_from from \<le> cl_block lg \<Longrightarrow>
      cl_block lg \<le> chunk_to safe from \<Longrightarrow> lg \<in> set (ix_given s')" by auto
qed

text \<open>
  After the outer loop the invariant holds at the cursor, the cursor has not gone back, and every
  confirmed log from the first block on is given as far as the cursor says.
\<close>

definition given_until :: "chain_log list \<Rightarrow> int \<Rightarrow> int \<Rightarrow> indexer \<Rightarrow> bool" where
  "given_until L a b s \<longleftrightarrow> (\<forall>lg \<in> set L. a \<le> cl_block lg \<and> cl_block lg < b \<longrightarrow> lg \<in> set (ix_given s))"

definition ix_ok :: "chain_log list \<Rightarrow> int \<Rightarrow> indexer \<Rightarrow> bool" where
  "ix_ok L a s \<longleftrightarrow> (case ix_cursor s of
     Some c \<Rightarrow> a \<le> c \<and> seen_inv L (scan_from c) s \<and> given_until L a c s
   | None \<Rightarrow> False)"

lemma scan_from_le: "0 \<le> from \<Longrightarrow> scan_from from \<le> from"
  by (simp add: scan_from_def RESCAN_def)

lemma chunk_to_le: "from \<le> safe \<Longrightarrow> chunk_to safe from \<le> safe"
  by (auto simp: chunk_to_def Let_def)

lemma scan_loop_ok:
  assumes "ix_ok L a s" "ix_cursor s = Some from" "0 \<le> a"
    and "honest L getLogs" "distinct (map log_key L)"
  shows "ix_ok L a (scan_loop getLogs handled safe from s)
     \<and> (\<not> ix_failed (scan_loop getLogs handled safe from s) \<and> from \<le> safe \<longrightarrow>
          ix_cursor (scan_loop getLogs handled safe from s) = Some (safe + 1))"
  using assms
proof (induction getLogs handled safe "from" s rule: scan_loop.induct)
  case (1 getLogs handled safe "from" s)
  note unf = scan_loop.simps [of getLogs handled safe "from" s]
  show ?case
  proof (cases "from > safe")
    case True
    with 1 show ?thesis by (simp add: unf)
  next
    case False
    let ?s = "scan_chunk getLogs handled safe from s"
    have inv: "seen_inv L (scan_from from) s" "given_until L a from s" "a \<le> from"
      using 1 by (simp_all add: ix_ok_def)
    note sc = scan_chunk_inv [OF inv(1) order.refl 1(5,6) refl, of handled safe]
    show ?thesis
    proof (cases "ix_failed ?s")
      case True
      with sc(1-3) inv 1 have "ix_ok L a ?s"
        by (auto simp: ix_ok_def given_until_def)
      with True False show ?thesis by (simp add: unf Let_def)
    next
      case ok: False
      let ?n = "chunk_to safe from + 1"
      have ge: "from \<le> chunk_to safe from" by (rule chunk_to_ge)
      have low: "scan_from from \<le> from" using inv(3) 1(4) by (intro scan_from_le) simp
      have "given_until L a ?n ?s"
      proof -
        have "lg \<in> set (ix_given ?s)" if "lg \<in> set L" "a \<le> cl_block lg" "cl_block lg < ?n" for lg
          using that inv(2) sc(2) sc(5) [OF ok, of lg] low by (cases "cl_block lg < from") (auto simp: given_until_def)
        then show ?thesis by (simp add: given_until_def)
      qed
      moreover have "seen_inv L (scan_from ?n) ?s"
        by (rule seen_inv_mono [OF sc(1) scan_from_mono]) (use ge in simp)
      ultimately have k: "ix_ok L a ?s" using sc(4) [OF ok] inv(3) ge by (simp add: ix_ok_def)
      have "?n \<le> safe \<or> ?n = safe + 1" using chunk_to_le [of "from" safe] False by auto
      moreover have "scan_loop getLogs handled safe from s = scan_loop getLogs handled safe ?n ?s"
        using False ok by (simp add: unf Let_def)
      moreover have "scan_loop getLogs handled safe (safe + 1) ?s = ?s"
        by (simp add: scan_loop.simps)
      ultimately show ?thesis
        using "1.IH" [OF False refl ok k sc(4) [OF ok] 1(4-6)] sc(4) [OF ok] by auto
    qed
  qed
qed

inductive ix_reach :: "chain_log list \<Rightarrow> int \<Rightarrow> indexer \<Rightarrow> bool" for L a where
  boot: "ix_reach L a \<lparr>ix_cursor = Some a, ix_seen = [], ix_given = [], ix_failed = False\<rparr>"
| poll: "ix_reach L a s \<Longrightarrow> honest L getLogs \<Longrightarrow> ix_cursor s = Some c \<Longrightarrow>
      tip - CONFIRMATIONS - c \<le> MAX_CATCHUP \<Longrightarrow> ix_reach L a (poll getLogs handled tip s)"

lemma poll_ok:
  assumes "ix_ok L a s" "ix_cursor s = Some c" "0 \<le> a" "honest L getLogs" "distinct (map log_key L)"
    and "tip - CONFIRMATIONS - c \<le> MAX_CATCHUP"
  shows "ix_ok L a (poll getLogs handled tip s)
     \<and> (\<not> ix_failed (poll getLogs handled tip s) \<and> c \<le> tip - CONFIRMATIONS \<and> 0 \<le> tip - CONFIRMATIONS \<longrightarrow>
          ix_cursor (poll getLogs handled tip s) = Some (tip - CONFIRMATIONS + 1))"
proof -
  have k: "ix_ok L a (s\<lparr>ix_failed := False\<rparr>)" using assms(1,2) by (simp add: ix_ok_def given_until_def)
  have "poll getLogs handled tip s =
      (if tip - CONFIRMATIONS < 0 then s\<lparr>ix_failed := False\<rparr>
       else scan_loop getLogs handled (tip - CONFIRMATIONS) c (s\<lparr>ix_failed := False\<rparr>))"
    using assms(2,6) by (simp add: poll_def)
  with scan_loop_ok [OF k _ assms(3-5), of c handled "tip - CONFIRMATIONS"] k assms(2) show ?thesis
    by simp
qed

lemma ix_reach_ok:
  assumes "ix_reach L a s" "0 \<le> a" "distinct (map log_key L)"
  shows "ix_ok L a s"
  using assms(1)
proof (induction rule: ix_reach.induct)
  case boot
  then show ?case by (simp add: ix_ok_def seen_inv_def given_until_def)
next
  case (poll s getLogs c tip handled)
  then show ?case using poll_ok [OF _ _ assms(2)] assms(3) by blast
qed


definition demo_chain :: "chain_log list" where
  "demo_chain = [\<lparr>cl_tx = ''0x01'', cl_log = 5, cl_block = 60\<rparr>, \<lparr>cl_tx = ''0x02'', cl_log = 6, cl_block = 64\<rparr>]"

definition demo_start :: indexer where
  "demo_start = \<lparr>ix_cursor = Some 50, ix_seen = [], ix_given = [], ix_failed = False\<rparr>"

lemma demo_poll:
  "poll (answer_range demo_chain) (\<lambda>_. True) 65 demo_start =
     \<lparr>ix_cursor = Some 63, ix_seen = [((''0x01'', 5), 60)],
      ix_given = [\<lparr>cl_tx = ''0x01'', cl_log = 5, cl_block = 60\<rparr>], ix_failed = False\<rparr>"
  by (simp add: poll_def demo_start_def CONFIRMATIONS_def MAX_CATCHUP_def Let_def scan_loop.simps
      scan_chunk_def scan_from_def chunk_to_def RESCAN_def CHUNK_def answer_range_def demo_chain_def log_key_def)


section \<open>Two gaps\<close>

text \<open>
  A poll that finds itself more than the catch-up limit behind moves its start forward, and the
  logs before it are never handed over although the cursor passes them.
\<close>

theorem catch_up_clamp_skips_payments:
  "let s = poll (answer_range demo_chain) (\<lambda>_. True) 200200 demo_start
   in \<not> ix_failed s \<and> ix_cursor s = Some 200198 \<and> ix_given s = []"
  by code_simp

text \<open>
  A log whose handler throws is already marked as seen: the next poll passes over it and moves
  the cursor, so the payment is not retried before a restart and then not at all.
\<close>

theorem throwing_handler_is_not_retried:
  "let s1 = poll (answer_range demo_chain) (\<lambda>_. False) 65 demo_start;
       s2 = poll (answer_range demo_chain) (\<lambda>_. True) 65 s1
   in ix_failed s1 \<and> ix_cursor s1 = Some 50 \<and> \<not> ix_failed s2 \<and> ix_cursor s2 = Some 63
      \<and> ix_given s2 = ix_given s1"
  by (simp add: poll_def demo_start_def CONFIRMATIONS_def MAX_CATCHUP_def Let_def scan_loop.simps
      scan_chunk_def scan_from_def chunk_to_def RESCAN_def CHUNK_def answer_range_def demo_chain_def log_key_def)

end
