(* ===== verification/Ofac.thy ===== *)
theory Ofac
  imports Billing_Orders
begin

text \<open>
  The sanctions screen of \<open>relay/ofac.js\<close>: the scan of the SDN file for digital-currency
  addresses, the guarded refresh, and \<open>screenAddress\<close>. The regular expressions are the scanning
  functions below, left to right and first match, as the source's \<open>exec\<close> does.
\<close>

section \<open>Scanning\<close>

fun find_sub :: "string \<Rightarrow> string \<Rightarrow> string option" where
  "find_sub p s =
     (if prefix p s then Some (drop (length p) s)
      else (case s of [] \<Rightarrow> None | c # cs \<Rightarrow> find_sub p cs))"

fun text_until :: "string \<Rightarrow> string \<Rightarrow> (string \<times> string) option" where
  "text_until q s =
     (if prefix q s then Some ([], drop (length q) s)
      else (case s of [] \<Rightarrow> None
            | c # cs \<Rightarrow> map_option (\<lambda>(inner, rest). (c # inner, rest)) (text_until q cs)))"

declare find_sub.simps [simp del] text_until.simps [simp del]

lemma find_sub_length: "find_sub p s = Some r \<Longrightarrow> length r \<le> length s"
proof (induction s)
  case Nil
  then show ?case by (auto simp: find_sub.simps [of p "[]"] split: if_splits)
next
  case (Cons c s)
  then show ?case by (auto simp: find_sub.simps [of p "c # s"] split: if_splits)
qed

lemma text_until_length: "text_until q s = Some (a, r) \<Longrightarrow> length r + length q \<le> length s"
proof (induction s arbitrary: a)
  case Nil
  then show ?case by (auto simp: text_until.simps [of q "[]"] split: if_splits)
next
  case (Cons c s)
  then show ?case
    by (auto simp: text_until.simps [of q "c # s"] split: if_splits dest: Cons.IH dest!: prefix_length_le)
qed

text \<open>\<open>/<id>([\s\S]*?)<\/id>/g\<close>\<close>

function id_blocks :: "string \<Rightarrow> string list" where
  "id_blocks xml =
     (case find_sub ''<id>'' xml of
        None \<Rightarrow> []
      | Some r \<Rightarrow> (case text_until ''</id>'' r of
                     None \<Rightarrow> []
                   | Some (inner, rest) \<Rightarrow> inner # id_blocks rest))"
  by pat_completeness auto
termination
  by (relation "measure length") (auto dest!: find_sub_length text_until_length)

text \<open>The first place where \<open>open\<close>, a run of \<open>cls\<close> characters and \<open>close\<close> follow each other.\<close>

fun scan_tag :: "string \<Rightarrow> (char \<Rightarrow> bool) \<Rightarrow> nat \<Rightarrow> string \<Rightarrow> string \<Rightarrow> string option" where
  "scan_tag opn cls least cls_tag s =
     (let v = takeWhile cls (drop (length opn) s); r = dropWhile cls (drop (length opn) s)
      in if prefix opn s \<and> least \<le> length v \<and> prefix cls_tag r then Some v
         else (case s of [] \<Rightarrow> None | c # cs \<Rightarrow> scan_tag opn cls least cls_tag cs))"

lemma scan_tag_code [code]:
  "scan_tag opn cls least cls_tag s =
     (if prefix opn s \<and> (let r = drop (length opn) s in least \<le> length (takeWhile cls r) \<and> prefix cls_tag (dropWhile cls r))
      then Some (takeWhile cls (drop (length opn) s))
      else (case s of [] \<Rightarrow> None | c # cs \<Rightarrow> scan_tag opn cls least cls_tag cs))"
  by (subst scan_tag.simps) (simp add: Let_def)

definition asset_char :: "char \<Rightarrow> bool" where
  "asset_char c \<longleftrightarrow> is_digit c \<or> c = CHR ''.'' \<or> (let n = (of_char c :: nat) in 65 \<le> n \<and> n \<le> 90)"

definition evm_address :: "string \<Rightarrow> bool" where
  "evm_address a \<longleftrightarrow> take 2 a = ''0x'' \<and> hex_str 40 40 (drop 2 a)"

definition set_add :: "'a \<Rightarrow> 'a list \<Rightarrow> 'a list" where
  "set_add x xs = (if x \<in> set xs then xs else xs @ [x])"

record sdn =
  sd_eth :: "string list"
  sd_other :: "string list"
  sd_publish :: string

definition add_block :: "sdn \<Rightarrow> string \<Rightarrow> sdn" where
  "add_block p b =
     (case scan_tag ''<idType>Digital Currency Address - '' asset_char 1 ''</idType>'' b of
        None \<Rightarrow> p
      | Some t \<Rightarrow>
          (case scan_tag ''<idNumber>'' (\<lambda>c. c \<noteq> CHR ''<'') 0 ''</idNumber>'' b of
             None \<Rightarrow> p
           | Some n \<Rightarrow>
               let addr = to_lower (js_trim n)
               in if addr = [] then p
                  else if evm_address addr then p\<lparr>sd_eth := set_add addr (sd_eth p)\<rparr>
                  else p\<lparr>sd_other := set_add (t @ '':'' @ addr) (sd_other p)\<rparr>))"

definition parse_sdn :: "string \<Rightarrow> sdn" where
  "parse_sdn xml =
     (foldl add_block \<lparr>sd_eth = [], sd_other = [], sd_publish = []\<rparr> (id_blocks xml))
       \<lparr>sd_publish := (case scan_tag ''<Publish_Date>'' (\<lambda>c. c \<noteq> CHR ''<'') 1 ''</Publish_Date>'' xml of
                          Some d \<Rightarrow> d | None \<Rightarrow> [])\<rparr>"

section \<open>Refresh and screen\<close>

record sdn_cache =
  sc_fetched :: int
  sc_data :: sdn

definition MAX_AGE_SEC :: int where "MAX_AGE_SEC = 172800"

definition accept_sdn :: "int \<Rightarrow> sdn \<Rightarrow> sdn_cache option \<Rightarrow> sdn_cache option" where
  "accept_sdn now p old =
     (if sd_eth p = [] then None
      else if (case old of Some c \<Rightarrow> 2 * length (sd_eth p) < length (sd_eth (sc_data c)) | None \<Rightarrow> False) then None
      else Some \<lparr>sc_fetched = now, sc_data = p\<rparr>)"

text \<open>\<open>refreshSdn\<close>: what each source answered (\<^term>\<open>None\<close>: it failed or was too large), in order.\<close>

fun refresh_sdn :: "int \<Rightarrow> string option list \<Rightarrow> sdn_cache option \<Rightarrow> bool \<times> sdn_cache option" where
  "refresh_sdn now [] old = (False, old)"
| "refresh_sdn now (a # as) old =
     (case a of
        None \<Rightarrow> refresh_sdn now as old
      | Some xml \<Rightarrow> (case accept_sdn now (parse_sdn xml) old of
                       Some c \<Rightarrow> (True, Some c)
                     | None \<Rightarrow> refresh_sdn now as old))"

definition screen_address :: "int \<Rightarrow> sdn_cache option \<Rightarrow> string \<Rightarrow> screen" where
  "screen_address now cache addr =
     (case cache of
        None \<Rightarrow> Stale
      | Some c \<Rightarrow>
          if \<not> (now - sc_fetched c) div 1000 < MAX_AGE_SEC then Stale
          else if to_lower addr \<in> set (sd_eth (sc_data c)) then Hit else Clear)"

section \<open>The screen fails closed\<close>

lemma refresh_sdn_result:
  assumes "refresh_sdn now as old = (ok, new)"
  shows "(ok \<longrightarrow> (\<exists>xml c. Some xml \<in> set as \<and> new = Some c \<and> accept_sdn now (parse_sdn xml) old = Some c))
     \<and> (\<not> ok \<longrightarrow> new = old)"
  using assms by (induction as) (auto split: option.splits, metis+)

text \<open>Refreshes at increasing times, each with what the sources answered.\<close>

definition refresh_run :: "(int \<times> string option list) list \<Rightarrow> sdn_cache option \<Rightarrow> sdn_cache option" where
  "refresh_run rs old = foldl (\<lambda>c (now, as). snd (refresh_sdn now as c)) old rs"

definition cache_from :: "(int \<times> string option list) list \<Rightarrow> sdn_cache option \<Rightarrow> bool" where
  "cache_from rs co \<longleftrightarrow> (case co of None \<Rightarrow> True
     | Some c \<Rightarrow> sd_eth (sc_data c) \<noteq> [] \<and>
         list_ex (\<lambda>(now, as). sc_fetched c = now \<and>
           list_ex (\<lambda>a. case a of Some xml \<Rightarrow> parse_sdn xml = sc_data c | None \<Rightarrow> False) as) rs)"

lemma refresh_run_from:
  "cache_from rs (refresh_run rs None)"
proof (induction rs rule: rev_induct)
  case Nil
  then show ?case by (simp add: refresh_run_def cache_from_def)
next
  case (snoc x rs)
  obtain now as where x: "x = (now, as)" by (cases x)
  let ?old = "refresh_run rs None"
  obtain ok new where r: "refresh_sdn now as ?old = (ok, new)" by fastforce
  have run: "refresh_run (rs @ [x]) None = new" using r by (simp add: refresh_run_def x)
  from refresh_sdn_result [OF r] show ?case
  proof (cases ok)
    case True
    then obtain xml c where "Some xml \<in> set as" "new = Some c" "accept_sdn now (parse_sdn xml) ?old = Some c"
      using refresh_sdn_result [OF r] by auto
    then show ?thesis
      unfolding run by (auto simp: cache_from_def accept_sdn_def x list_ex_iff split: if_splits intro!: bexI)
  next
    case False
    with refresh_sdn_result [OF r] snoc show ?thesis
      unfolding run by (auto simp: cache_from_def split: option.splits)
  qed
qed

text \<open>
  The screen fails closed. Whatever the sources answered, torn or empty downloads included, a
  payer is clear only against a non-empty list parsed from one answer fetched less than two days
  ago and only if the list does not have the address in any letter case; and an accepted list is
  never less than half the size of the one it replaces.
\<close>
theorem clear_means_screened:
  assumes "screen_address now (refresh_run rs None) payer = Clear"
  shows "\<exists>t as xml. (t, as) \<in> set rs \<and> Some xml \<in> set as \<and> now - t < 172800000
     \<and> sd_eth (parse_sdn xml) \<noteq> [] \<and> to_lower payer \<notin> set (sd_eth (parse_sdn xml))"
proof -
  obtain c where c: "refresh_run rs None = Some c" "(now - sc_fetched c) div 1000 < MAX_AGE_SEC"
    "to_lower payer \<notin> set (sd_eth (sc_data c))"
    using assms by (auto simp: screen_address_def split: option.splits if_splits)
  from refresh_run_from [of rs] c obtain t as xml where m: "(t, as) \<in> set rs" "sc_fetched c = t"
    "Some xml \<in> set as" "parse_sdn xml = sc_data c" "sd_eth (sc_data c) \<noteq> []"
    by (auto simp: cache_from_def list_ex_iff split: option.splits)
  have "now - t < 172800000" using c(2) m(2) unfolding MAX_AGE_SEC_def by linarith
  with m c(3) show ?thesis by metis
qed

definition demo_xml :: string where
  "demo_xml = ''<id><idNumber>0x'' @ replicate 40 (CHR ''A'') @ ''</idNumber><uid>7</uid>'' @
     ''<idType>Digital Currency Address - ETH</idType></id>''"

lemma demo_parse: "sd_eth (parse_sdn demo_xml) = [''0x'' @ replicate 40 (CHR ''a'')]"
  by code_simp

lemma demo_bb: "to_lower ''0xbb'' \<noteq> ''0x'' @ replicate 40 (CHR ''a'')"
  by code_simp

lemma demo_clear:
  "screen_address 5000 (refresh_run [(4000, [None, Some demo_xml])] None) ''0xbb'' = Clear"
  using demo_bb by (simp add: refresh_run_def accept_sdn_def demo_parse screen_address_def MAX_AGE_SEC_def)

theorem clear_means_screened_witness:
  "sd_eth (parse_sdn demo_xml) \<noteq> [] \<and> to_lower ''0xbb'' \<notin> set (sd_eth (parse_sdn demo_xml))"
  using clear_means_screened [OF demo_clear] by auto

lemma refresh_keeps_half:
  assumes "refresh_sdn now as (Some old) = (ok, Some new)"
  shows "length (sd_eth (sc_data old)) \<le> 2 * length (sd_eth (sc_data new))"
  using refresh_sdn_result [OF assms] by (auto simp: accept_sdn_def split: if_splits)

end
