(* ===== verification/Conn_Log.thy ===== *)
theory Conn_Log
  imports Js_Prelude
begin

text \<open>
  The connection log of \<open>relay/connlog.mjs\<close>: a bounded table of bounded row lists, keyed by the
  short name of a deployment. A row is handed back to its caller and closed later through that
  reference, so rows carry an identity (\<open>cr_id\<close>, a counter) here.
\<close>

datatype direction = DirIn | DirOut

record conn_row =
  cr_id :: nat
  cr_t :: int
  cr_dir :: direction
  cr_addr :: string
  cr_port :: int
  cr_end :: "(int \<times> int \<times> int) option"

record conn_log =
  cn_next :: nat
  cn_rows :: "(string \<times> conn_row list) list"

definition MAX_PER_DEP :: nat where "MAX_PER_DEP = 500"
definition MAX_DEPS :: nat where "MAX_DEPS = 256"
definition MAX_AGE_MS :: int where "MAX_AGE_MS = 1800000"

section \<open>Names and addresses\<close>

definition dotted_quad :: "string \<Rightarrow> bool" where
  "dotted_quad s \<longleftrightarrow> (let ps = split_on (CHR ''.'') s
     in length ps = 4 \<and> list_all (\<lambda>p. p \<noteq> [] \<and> length p \<le> 3 \<and> list_all is_digit p) ps)"

definition norm_addr :: "string \<Rightarrow> string" where
  "norm_addr a =
     (let s = js_trim a
      in if s = [] then []
         else take 64 (to_lower (if to_lower (take 7 s) = ''::ffff:'' \<and> dotted_quad (drop 7 s)
                                 then drop 7 s else s)))"

definition dep_key :: "string \<Rightarrow> string" where
  "dep_key dep =
     (let l = to_lower dep;
          raw = take 80 (case strip_prefix ''0x'' l of Some r \<Rightarrow> r | None \<Rightarrow> l)
      in if length raw \<ge> 8 \<and> list_all is_hex raw then take 8 raw else raw)"

section \<open>The table\<close>

definition make_room :: "(string \<times> conn_row list) list \<Rightarrow> (string \<times> conn_row list) list" where
  "make_room m = (if length m \<ge> MAX_DEPS then tl m else m)"

definition note_conn :: "int \<Rightarrow> string \<Rightarrow> direction \<Rightarrow> string \<Rightarrow> int \<Rightarrow> conn_log \<Rightarrow> conn_log \<times> nat option" where
  "note_conn now dep dir addr port s =
     (let key = dep_key dep; a = norm_addr addr
      in if key = [] \<or> a = [] then (s, None)
         else let m = (if map_of (cn_rows s) key = None then make_room (cn_rows s) @ [(key, [])] else cn_rows s);
                  row = \<lparr>cr_id = cn_next s, cr_t = now, cr_dir = dir, cr_addr = a, cr_port = port, cr_end = None\<rparr>;
                  rows = (case map_of m key of Some rs \<Rightarrow> rs | None \<Rightarrow> []) @ [row]
              in (\<lparr>cn_next = Suc (cn_next s), cn_rows = AList.update key (keep_last MAX_PER_DEP rows) m\<rparr>,
                  Some (cn_next s)))"

definition close_row :: "int \<Rightarrow> int \<Rightarrow> int \<Rightarrow> conn_row \<Rightarrow> conn_row" where
  "close_row now up down r =
     (case cr_end r of Some e \<Rightarrow> r | None \<Rightarrow> r\<lparr>cr_end := Some (now, max 0 up, max 0 down)\<rparr>)"

definition done_row :: "int \<Rightarrow> nat \<Rightarrow> int \<Rightarrow> int \<Rightarrow> conn_log \<Rightarrow> conn_log" where
  "done_row now i up down s =
     s\<lparr>cn_rows := map (\<lambda>(k, rs). (k, map (\<lambda>r. if cr_id r = i then close_row now up down r else r) rs))
         (cn_rows s)\<rparr>"

definition read_rows :: "int \<Rightarrow> string \<Rightarrow> int \<Rightarrow> conn_log \<Rightarrow> conn_row list" where
  "read_rows now dep since s =
     (case map_of (cn_rows s) (dep_key dep) of
        None \<Rightarrow> []
      | Some rs \<Rightarrow> filter (\<lambda>r. cr_t r \<ge> max (now - MAX_AGE_MS) since) rs)"

definition snapshot :: "int \<Rightarrow> conn_log \<Rightarrow> conn_log" where
  "snapshot now s =
     s\<lparr>cn_rows := filter (\<lambda>(k, rs). rs \<noteq> [])
         (map (\<lambda>(k, rs). (k, filter (\<lambda>r. cr_t r \<ge> now - MAX_AGE_MS) rs)) (cn_rows s))\<rparr>"

text \<open>
  \<open>collect\<close> over the answers of the collectors (\<^term>\<open>None\<close>: one that is not running); \<open>sort_key\<close> is
  the stable sort by opening time.
\<close>

definition collect_rows :: "int \<Rightarrow> string \<Rightarrow> int \<Rightarrow> (string \<times> conn_row list) list option list \<Rightarrow> conn_row list" where
  "collect_rows now dep since answers =
     (let floor = max (now - MAX_AGE_MS) since;
          rows = concat (map (\<lambda>j. case j of
                    None \<Rightarrow> []
                  | Some deps \<Rightarrow> (case map_of deps (dep_key dep) of
                       None \<Rightarrow> [] | Some rs \<Rightarrow> filter (\<lambda>r. cr_t r \<ge> floor) rs)) answers)
      in keep_last MAX_PER_DEP (sort_key cr_t rows))"

section \<open>Bounds\<close>

datatype conn_event =
    Note int string direction string int
  | Done int nat int int
  | Snapshot int

fun conn_step :: "conn_event \<Rightarrow> conn_log \<Rightarrow> conn_log" where
  "conn_step (Note now dep dir addr port) s = fst (note_conn now dep dir addr port s)"
| "conn_step (Done now i up down) s = done_row now i up down s"
| "conn_step (Snapshot now) s = snapshot now s"

definition max_rows :: "conn_log \<Rightarrow> nat" where
  "max_rows s = foldr max (map (length \<circ> snd) (cn_rows s)) 0"

definition empty_log :: conn_log where
  "empty_log = \<lparr>cn_next = 0, cn_rows = []\<rparr>"

lemma max_rows_le: "max_rows s \<le> n \<longleftrightarrow> (\<forall>(k, rs) \<in> set (cn_rows s). length rs \<le> n)"
proof -
  have "foldr max (map (length \<circ> snd) m) 0 \<le> n \<longleftrightarrow> (\<forall>(k, rs) \<in> set m. length rs \<le> n)"
    for m :: "(string \<times> conn_row list) list"
    by (induction m) auto
  then show ?thesis by (simp add: max_rows_def)
qed

lemma set_alist_update: "set (AList.update k v m) \<subseteq> insert (k, v) (set m)"
  by (induction m) auto

lemma length_make_room: "length m \<le> MAX_DEPS \<Longrightarrow> length (make_room m) < MAX_DEPS"
  by (auto simp: make_room_def MAX_DEPS_def)

lemma make_room_sub: "set (make_room m) \<subseteq> set m"
  by (cases m) (auto simp: make_room_def)

lemma conn_step_tables: "length (cn_rows s) \<le> MAX_DEPS \<Longrightarrow> length (cn_rows (conn_step e s)) \<le> MAX_DEPS"
proof (cases e)
  case (Note now dep dir addr port)
  assume l: "length (cn_rows s) \<le> MAX_DEPS"
  show ?thesis
  proof (cases "map_of (cn_rows s) (dep_key dep)")
    case None
    with Note l length_make_room [OF l] show ?thesis
      by (auto simp: note_conn_def Let_def length_alist_update)
  next
    case (Some rs)
    then have "dep_key dep \<in> alist_dom (cn_rows s)" by (auto dest: map_of_SomeD intro: rev_image_eqI)
    with Note l Some show ?thesis by (auto simp: note_conn_def Let_def length_alist_update)
  qed
qed (auto simp: done_row_def snapshot_def intro: order_trans [OF length_filter_le])

lemma conn_step_rows: "max_rows s \<le> MAX_PER_DEP \<Longrightarrow> max_rows (conn_step e s) \<le> MAX_PER_DEP"
proof (cases e)
  case (Note now dep dir addr port)
  assume l: "max_rows s \<le> MAX_PER_DEP"
  then have r: "\<forall>(k, rs) \<in> set (make_room (cn_rows s)). length rs \<le> MAX_PER_DEP"
    using make_room_sub by (fastforce simp: max_rows_le)
  with Note l set_alist_update show ?thesis
    by (fastforce simp: note_conn_def Let_def max_rows_le split: option.splits)
qed (fastforce simp: done_row_def snapshot_def max_rows_le intro: order_trans [OF length_filter_le])+

interpretation conn_tables: bounded_log conn_step "\<lambda>s. length (cn_rows s)" MAX_DEPS
  by unfold_locales (rule conn_step_tables)

interpretation conn_rows: bounded_log conn_step max_rows MAX_PER_DEP
  by unfold_locales (rule conn_step_rows)

lemma read_last:
  assumes "note_conn now dep dir addr port s = (s', Some i)" "now \<le> now'" "now' - now \<le> MAX_AGE_MS"
  shows "\<exists>rs r. read_rows now' dep since s' = rs \<and> (since \<le> now \<longrightarrow> rs \<noteq> [] \<and> last rs = r \<and>
      cr_id r = i \<and> cr_addr r = norm_addr addr \<and> cr_dir r = dir \<and> cr_t r = now)"
proof -
  from assms(1) have k: "dep_key dep \<noteq> []" "norm_addr addr \<noteq> []"
    by (auto simp: note_conn_def Let_def split: if_splits)
  then obtain rs where m: "map_of (cn_rows s') (dep_key dep) = Some (keep_last MAX_PER_DEP (rs @
      [\<lparr>cr_id = i, cr_t = now, cr_dir = dir, cr_addr = norm_addr addr, cr_port = port, cr_end = None\<rparr>]))"
    using assms(1) by (auto simp: note_conn_def Let_def)
  have "keep_last MAX_PER_DEP (rs @ [x]) = keep_last (MAX_PER_DEP - 1) rs @ [x]" for x
    by (rule keep_last_snoc) (simp add: MAX_PER_DEP_def)
  with m assms(2,3) show ?thesis by (auto simp: read_rows_def)
qed

text \<open>
  The log is bounded and still current. Whatever is noted, closed and snapshotted, there are
  at most 256 deployments with at most 500 rows each; and a connection just noted is the newest
  row read for its deployment, under its long id or its label, for the next half hour.
\<close>
theorem connection_log_bounded_and_current:
  assumes "s = foldl (\<lambda>s e. conn_step e s) empty_log es"
    and "note_conn now dep dir addr port s = (s', Some i)" "now \<le> now'" "now' - now \<le> MAX_AGE_MS"
    and "dep_key dep' = dep_key dep"
  shows "length (cn_rows s') \<le> MAX_DEPS \<and> (\<forall>(k, rs) \<in> set (cn_rows s'). length rs \<le> MAX_PER_DEP)
    \<and> (0 \<le> now \<longrightarrow> (let r = last (read_rows now' dep' 0 s')
         in cr_id r = i \<and> cr_addr r = norm_addr addr \<and> cr_dir r = dir \<and> cr_t r = now))"
proof -
  have s': "s' = foldl (\<lambda>s e. conn_step e s) empty_log (es @ [Note now dep dir addr port])"
    using assms(1,2) by simp
  have "length (cn_rows s') \<le> MAX_DEPS"
    unfolding s' by (rule conn_tables.run_bound) (simp add: empty_log_def)
  moreover have "max_rows s' \<le> MAX_PER_DEP"
    unfolding s' by (rule conn_rows.run_bound) (simp add: empty_log_def max_rows_def)
  moreover have "read_rows now' dep' 0 s' = read_rows now' dep 0 s'"
    using assms(5) by (simp add: read_rows_def)
  ultimately show ?thesis
    using read_last [OF assms(2-4), of 0] by (auto simp: max_rows_le Let_def)
qed

lemma demo_names:
  "dep_key ''0xABCDEF0123456789'' = ''abcdef01''" "dep_key ''abcdef01'' = ''abcdef01''"
  "norm_addr ''::FFFF:1.2.3.4'' = ''1.2.3.4''"
  by code_simp+

theorem connection_log_bounded_and_current_witness:
  "let s' = fst (note_conn 5 ''0xABCDEF0123456789'' DirIn ''::FFFF:1.2.3.4'' 443 empty_log)
   in cr_addr (last (read_rows 9 ''abcdef01'' 0 s')) = ''1.2.3.4'' \<and> length (cn_rows s') \<le> MAX_DEPS"
proof -
  let ?n = "note_conn 5 ''0xABCDEF0123456789'' DirIn ''::FFFF:1.2.3.4'' 443 empty_log"
  have "snd ?n = Some 0"
    by (simp add: note_conn_def demo_names empty_log_def Let_def)
  then have "?n = (fst ?n, Some 0)" by (metis prod.collapse)
  from connection_log_bounded_and_current [of empty_log "[]", OF _ this, of 9 "''abcdef01''"]
  have "length (cn_rows (fst ?n)) \<le> MAX_DEPS"
    and "(0::int) \<le> 5 \<longrightarrow> cr_addr (last (read_rows 9 ''abcdef01'' 0 (fst ?n))) = norm_addr ''::FFFF:1.2.3.4''"
    by (simp_all only: demo_names MAX_AGE_MS_def Let_def foldl_Nil) simp_all
  then show ?thesis by (simp add: demo_names Let_def)
qed

lemma close_row_once: "close_row t2 u2 d2 (close_row t1 u1 d1 r) = close_row t1 u1 d1 r"
  by (simp add: close_row_def split: option.splits)

lemma collect_rows_sorted: "sorted (map cr_t (collect_rows now dep since answers))"
  by (simp add: collect_rows_def Let_def keep_last_def drop_map [symmetric] sorted_wrt_drop)

end
