(* ===== verification/Net_Guard.thy ===== *)
theory Net_Guard
  imports Js_Prelude "HOL-Library.Word"
begin

text \<open>
  The destination classifier of \<open>net-guard.mjs\<close>: parsing of IP literals, the blocked ranges, the
  egress gate \<open>isBlockedHost\<close>, and the gate on addresses a relay is told to bind. An IPv4 address
  is a \<^typ>\<open>32 word\<close>, an IPv6 address (a BigInt below \<open>2 ^ 128\<close> in the source) a \<^typ>\<open>128 word\<close>.
\<close>

unbundle bit_operations_syntax

section \<open>Ranges\<close>

definition v4mask :: "nat \<Rightarrow> 32 word" where
  "v4mask bits = (if bits = 0 then 0 else push_bit (32 - bits) (- 1))"

definition in_v4 :: "32 word \<Rightarrow> 32 word \<Rightarrow> nat \<Rightarrow> bool" where
  "in_v4 n cidr bits \<longleftrightarrow> n AND v4mask bits = cidr AND v4mask bits"

definition blocked_ranges :: "(32 word \<times> nat) list" where
  "blocked_ranges =
    [(0x00000000, 8),  (0x0a000000, 8),  (0x64400000, 10), (0x7f000000, 8),
     (0xa9fe0000, 16), (0xac100000, 12), (0xc0000000, 24), (0xc0000200, 24),
     (0xc0586300, 24), (0xc0a80000, 16), (0xc6120000, 15), (0xc6336400, 24),
     (0xcb007100, 24), (0xe0000000, 4),  (0xf0000000, 4)]"

definition blocked_v4 :: "32 word \<Rightarrow> bool" where
  "blocked_v4 n \<longleftrightarrow> list_ex (\<lambda>(c, b). in_v4 n c b) blocked_ranges"

definition v6mask :: "nat \<Rightarrow> 128 word" where
  "v6mask bits = (if bits = 0 then 0 else push_bit (128 - bits) (- 1))"

definition in_v6 :: "128 word \<Rightarrow> 128 word \<Rightarrow> nat \<Rightarrow> bool" where
  "in_v6 n p bits \<longleftrightarrow> n AND v6mask bits = p AND v6mask bits"

definition blocked_v6 :: "128 word \<Rightarrow> bool" where
  "blocked_v6 n \<longleftrightarrow>
     (if n = 0 \<or> n = 1 then True
      else if n < push_bit 96 1 then True
      else if in_v6 n (push_bit 64 0x0064ff9b) 96 then blocked_v4 (ucast (n AND 0xffffffff))
      else if in_v6 n (push_bit 112 0x0100) 64 then True
      else if in_v6 n (push_bit 96 0x20010db8) 32 then True
      else if in_v6 n (push_bit 112 0xfc00) 7 then True
      else if in_v6 n (push_bit 112 0xfe80) 10 then True
      else if in_v6 n (push_bit 112 0xff00) 8 then True
      else False)"

section \<open>Literals\<close>

datatype ip = V4 "32 word" | V6 "128 word"

definition octets :: "nat \<Rightarrow> nat \<Rightarrow> nat \<Rightarrow> nat \<Rightarrow> 32 word" where
  "octets a b c d = push_bit 24 (of_nat a) OR push_bit 16 (of_nat b) OR push_bit 8 (of_nat c) OR of_nat d"

definition unbracket :: "string \<Rightarrow> string" where
  "unbracket s = (if s \<noteq> [] \<and> hd s = CHR ''['' \<and> last s = CHR '']'' then butlast (tl s) else s)"

text \<open>The IPv4 branch: \<open>None\<close> when the literal has not the shape, \<open>Some None\<close> for an octet above 255.\<close>

definition v4_literal :: "string \<Rightarrow> 32 word option option" where
  "v4_literal s =
     (let ps = split_on (CHR ''.'') s
      in if length ps = 4 \<and> list_all (\<lambda>p. p \<noteq> [] \<and> length p \<le> 3 \<and> list_all is_digit p) ps
         then Some (if list_ex (\<lambda>p. digits_val p > 255) ps then None
                    else Some (octets (digits_val (ps ! 0)) (digits_val (ps ! 1))
                                 (digits_val (ps ! 2)) (digits_val (ps ! 3))))
         else None)"

definition hex_digit_char :: "nat \<Rightarrow> char" where
  "hex_digit_char d = ''0123456789abcdef'' ! d"

fun show_hex :: "nat \<Rightarrow> string" where
  "show_hex n = (if n < 16 then [hex_digit_char n] else show_hex (n div 16) @ [hex_digit_char (n mod 16)])"

definition hex_digit_val :: "char \<Rightarrow> nat" where
  "hex_digit_val c = (let n = (of_char (lower_char c) :: nat) in if n < 58 then n - 48 else n - 87)"

definition hex_group :: "string \<Rightarrow> bool" where
  "hex_group g \<longleftrightarrow> g \<noteq> [] \<and> length g \<le> 4 \<and> list_all (\<lambda>c. is_hex (lower_char c)) g"

definition hex_group_val :: "string \<Rightarrow> nat" where
  "hex_group_val g = foldl (\<lambda>acc c. 16 * acc + hex_digit_val c) 0 g"

fun split_double :: "string \<Rightarrow> string list" where
  "split_double [] = [[]]"
| "split_double [c] = [[c]]"
| "split_double (c # d # cs) =
     (if c = CHR '':'' \<and> d = CHR '':'' then [] # split_double cs
      else (case split_double (d # cs) of y # ys \<Rightarrow> (c # y) # ys | [] \<Rightarrow> [[c]]))"

definition pieces :: "string \<Rightarrow> string list" where
  "pieces s = filter (\<lambda>p. p \<noteq> []) (split_on (CHR '':'') s)"

text \<open>The part after the last colon, and everything up to and including it.\<close>

definition last_piece :: "string \<Rightarrow> string \<times> string" where
  "last_piece s =
     (let t = rev (takeWhile (\<lambda>c. c \<noteq> CHR '':'') (rev s)) in (take (length s - length t) s, t))"

definition v6_groups :: "string \<Rightarrow> string list option" where
  "v6_groups s =
     (let dbl = split_double s
      in if length dbl > 2 then None
         else let h = pieces (dbl ! 0)
              in if length dbl = 1 then (if length h = 8 then Some h else None)
                 else let r = pieces (dbl ! 1)
                      in if length h + length r > 8 then None
                         else Some (h @ replicate (8 - length h - length r) ''0'' @ r))"

definition v6_of_groups :: "string list \<Rightarrow> 128 word" where
  "v6_of_groups gs = foldl (\<lambda>n g. push_bit 16 n OR of_nat (hex_group_val g)) 0 gs"

definition v6_literal :: "string \<Rightarrow> 128 word option" where
  "v6_literal s0 =
     (let (pre, tail) = last_piece s0;
          s = (if CHR ''.'' \<in> set tail
               then (case v4_literal (unbracket (js_trim tail)) of
                       Some (Some v) \<Rightarrow> Some (pre @ show_hex (unat (drop_bit 16 v)) @ '':'' @ show_hex (unat (v AND 0xffff)))
                     | _ \<Rightarrow> None)
               else Some s0)
      in (case Option.bind s v6_groups of
            None \<Rightarrow> None
          | Some gs \<Rightarrow> if list_all hex_group gs then Some (v6_of_groups gs) else None))"

definition parse_ip :: "string \<Rightarrow> ip option" where
  "parse_ip s0 =
     (let s = unbracket (js_trim s0)
      in (case v4_literal s of
            Some r \<Rightarrow> map_option V4 r
          | None \<Rightarrow> if CHR '':'' \<in> set s then map_option V6 (v6_literal s) else None))"

section \<open>The gates\<close>

definition strip_dot :: "string \<Rightarrow> string" where
  "strip_dot s = (if s \<noteq> [] \<and> last s = CHR ''.'' then butlast s else s)"

definition blocked_ip :: "ip \<Rightarrow> bool" where
  "blocked_ip i = (case i of V4 n \<Rightarrow> blocked_v4 n | V6 n \<Rightarrow> blocked_v6 n)"

definition is_blocked_host :: "string \<Rightarrow> bool" where
  "is_blocked_host host \<longleftrightarrow>
     (if host = [] then True
      else (case parse_ip host of
              Some i \<Rightarrow> blocked_ip i
            | None \<Rightarrow> let h = strip_dot (to_lower host) in h = ''localhost'' \<or> suffix ''.localhost'' h))"

record v6_gate =
  g_constrained :: bool
  g_net :: "128 word"
  g_mask :: "128 word"

text \<open>\<open>v6PrefixGate\<close>; \<^term>\<open>None\<close>: the declaration is malformed and the relay does not start.\<close>

definition v6_prefix_gate :: "string \<Rightarrow> v6_gate option" where
  "v6_prefix_gate cidr =
     (let raw = js_trim cidr; ps = split_on (CHR ''/'') raw;
          len = (if length ps > 1 \<and> ps ! 1 \<noteq> [] then parse_int10 (ps ! 1) else Some 64)
      in if raw = [] then Some \<lparr>g_constrained = False, g_net = 0, g_mask = 0\<rparr>
         else (case (parse_ip (js_trim (ps ! 0)), len) of
                 (Some (V6 v), Some l) \<Rightarrow>
                   if 0 \<le> l \<and> l \<le> 128
                   then Some \<lparr>g_constrained = True, g_net = v AND v6mask (nat l), g_mask = v6mask (nat l)\<rparr>
                   else None
               | _ \<Rightarrow> None))"

definition gate_check :: "v6_gate \<Rightarrow> string \<Rightarrow> bool" where
  "gate_check g a \<longleftrightarrow> \<not> g_constrained g \<or>
     (case parse_ip a of Some (V6 v) \<Rightarrow> v AND g_mask g = g_net g | _ \<Rightarrow> False)"

definition bare_char :: "char \<Rightarrow> bool" where
  "bare_char c \<longleftrightarrow> c \<notin> set ''[]%/'' \<and> \<not> is_space c"

definition bind_refusal :: "string \<Rightarrow> v6_gate option \<Rightarrow> string" where
  "bind_refusal address gate =
     (let a = js_trim address
      in if a = [] then ''empty address''
         else if a \<noteq> address \<or> \<not> list_all bare_char a then ''not a bare IP literal''
         else (case parse_ip a of
                 None \<Rightarrow> ''not an IP literal''
               | Some (V4 n) \<Rightarrow> ''not IPv6''
               | Some (V6 v) \<Rightarrow>
                   if v = 0 then ''the unspecified address''
                   else (case gate of
                           Some g \<Rightarrow>
                             if g_constrained g then (if gate_check g a then [] else ''outside this box's prefix'')
                             else if is_blocked_host a then ''not a global unicast address'' else []
                         | None \<Rightarrow> if is_blocked_host a then ''not a global unicast address'' else [])))"

declare show_hex.simps [simp del]

section \<open>What the ranges are\<close>

lemma in_v4_drop: "bits \<le> 32 \<Longrightarrow> in_v4 n c bits \<longleftrightarrow> drop_bit (32 - bits) n = drop_bit (32 - bits) c"
proof -
  assume "bits \<le> 32"
  have mask: "n AND v4mask bits = push_bit (32 - bits) (drop_bit (32 - bits) n)" for n
    using \<open>bits \<le> 32\<close> by (cases "bits = 0") (auto simp: v4mask_def bit_simps intro!: bit_word_eqI)
  have "drop_bit (32 - bits) (push_bit (32 - bits) (drop_bit (32 - bits) n)) = drop_bit (32 - bits) n" for n :: "32 word"
    by (rule bit_word_eqI) (auto simp: bit_simps dest: bit_imp_le_length)
  then show ?thesis unfolding in_v4_def mask by metis
qed

lemma in_v6_drop: "bits \<le> 128 \<Longrightarrow> in_v6 n c bits \<longleftrightarrow> drop_bit (128 - bits) n = drop_bit (128 - bits) c"
proof -
  assume "bits \<le> 128"
  have mask: "n AND v6mask bits = push_bit (128 - bits) (drop_bit (128 - bits) n)" for n
    using \<open>bits \<le> 128\<close> by (cases "bits = 0") (auto simp: v6mask_def bit_simps intro!: bit_word_eqI)
  have "drop_bit (128 - bits) (push_bit (128 - bits) (drop_bit (128 - bits) n)) = drop_bit (128 - bits) n" for n :: "128 word"
    by (rule bit_word_eqI) (auto simp: bit_simps dest: bit_imp_le_length)
  then show ?thesis unfolding in_v6_def mask by metis
qed

lemma octet_bit: "b < 256 \<Longrightarrow> bit (of_nat b :: 32 word) n \<Longrightarrow> n < 8"
proof (rule ccontr)
  assume b: "b < 256" "bit (of_nat b :: 32 word) n" and "\<not> n < 8"
  then have "b div 2 ^ n = 0"
    by (intro div_less) (rule less_le_trans [of b "2 ^ 8"], simp, rule power_increasing, simp_all)
  moreover have "bit b n" using b(2) by (simp add: bit_simps)
  ultimately show False by (simp add: bit_iff_odd)
qed

lemma octets_unat:
  assumes "a < 256" "b < 256" "c < 256" "d < 256"
  shows "unat (octets a b c d) = a * 2 ^ 24 + b * 2 ^ 16 + c * 2 ^ 8 + d"
proof -
  let ?a = "push_bit 24 (of_nat a) :: 32 word" and ?b = "push_bit 16 (of_nat b) :: 32 word"
    and ?c = "push_bit 8 (of_nat c) :: 32 word" and ?d = "of_nat d :: 32 word"
  have 1: "(?a OR ?b OR ?c) AND ?d = 0" "?a AND (?b OR ?c) = 0" "?b AND ?c = 0"
    using octet_bit [OF assms(2)] octet_bit [OF assms(3)] octet_bit [OF assms(4)]
    by (auto simp: bit_push_bit_iff bit_and_iff bit_or_iff intro!: bit_word_eqI) fastforce+
  have "octets a b c d = (?a OR (?b OR ?c)) OR ?d" by (simp add: octets_def or.assoc)
  also have "\<dots> = ?a + (?b + ?c) + ?d"
    using 1 by (simp add: disjunctive_add_eq_or or.assoc)
  also have "\<dots> = of_nat (a * 2 ^ 24 + b * 2 ^ 16 + c * 2 ^ 8 + d)"
    by (simp add: push_bit_eq_mult)
  finally have w: "octets a b c d = of_nat (a * 2 ^ 24 + b * 2 ^ 16 + c * 2 ^ 8 + d)" .
  have "a * 2 ^ 24 + b * 2 ^ 16 + c * 2 ^ 8 + d < 2 ^ LENGTH(32)" using assms by simp
  then show ?thesis unfolding w by (simp only: unat_of_nat mod_less)
qed

lemma in_v4_div: "bits \<le> 32 \<Longrightarrow> in_v4 n c bits \<longleftrightarrow> unat n div 2 ^ (32 - bits) = unat c div 2 ^ (32 - bits)"
  by (simp only: in_v4_drop word_unat_eq_iff unat_drop_bit_eq) (simp only: drop_bit_eq_div)

lemma in_v6_div: "bits \<le> 128 \<Longrightarrow> in_v6 n c bits \<longleftrightarrow> unat n div 2 ^ (128 - bits) = unat c div 2 ^ (128 - bits)"
  by (simp only: in_v6_drop word_unat_eq_iff unat_drop_bit_eq) (simp only: drop_bit_eq_div)

lemma blocked_v4_div:
  assumes "unat n = N"
  shows "blocked_v4 n \<longleftrightarrow> N div 2 ^ 24 = 0 \<or> N div 2 ^ 24 = 10 \<or> N div 2 ^ 22 = 401 \<or> N div 2 ^ 24 = 127
      \<or> N div 2 ^ 16 = 43518 \<or> N div 2 ^ 20 = 2753 \<or> N div 2 ^ 8 = 12582912
      \<or> N div 2 ^ 8 = 12582914 \<or> N div 2 ^ 8 = 12605539 \<or> N div 2 ^ 16 = 49320
      \<or> N div 2 ^ 17 = 25353 \<or> N div 2 ^ 8 = 12989284
      \<or> N div 2 ^ 8 = 13303921 \<or> N div 2 ^ 28 = 14 \<or> N div 2 ^ 28 = 15"
  by (simp add: blocked_v4_def blocked_ranges_def in_v4_div assms)

lemma two_digits: "y < k \<Longrightarrow> a * k + y = x \<longleftrightarrow> a = x div k \<and> y = x mod (k::nat)"
  by auto

lemma three_digits:
  assumes "b < 256" "c < 256"
  shows "a * 65536 + b * 256 + c = x \<longleftrightarrow> a = x div 256 div 256 \<and> b = x div 256 mod 256 \<and> c = x mod (256::nat)"
proof -
  have "a * 65536 + b * 256 + c = (a * 256 + b) * 256 + c" by simp
  then show ?thesis using two_digits [OF assms(2), of "a * 256 + b" x] two_digits [OF assms(1), of a "x div 256"]
    by auto
qed

text \<open>
  The blocked IPv4 addresses are exactly the private, loopback, link-local, shared,
  documentation, benchmark, multicast and reserved ranges, read by their octets.
\<close>
theorem blocked_v4_ranges:
  assumes "a < 256" "b < 256" "c < 256" "d < 256"
  shows "blocked_v4 (octets a b c d) \<longleftrightarrow>
     a = 0 \<or> a = 10 \<or> (a = 100 \<and> 64 \<le> b \<and> b < 128) \<or> a = 127 \<or> (a = 169 \<and> b = 254)
     \<or> (a = 172 \<and> 16 \<le> b \<and> b < 32) \<or> (a = 192 \<and> b = 0 \<and> c = 0) \<or> (a = 192 \<and> b = 0 \<and> c = 2) \<or> (a = 192 \<and> b = 88 \<and> c = 99)
     \<or> (a = 192 \<and> b = 168) \<or> (a = 198 \<and> (b = 18 \<or> b = 19)) \<or> (a = 198 \<and> b = 51 \<and> c = 100)
     \<or> (a = 203 \<and> b = 0 \<and> c = 113) \<or> 224 \<le> a"
proof -
  let ?n = "a * 2 ^ 24 + b * 2 ^ 16 + c * 2 ^ 8 + d"
  have "?n div 2 ^ 24 = a" "?n div 2 ^ 16 = a * 256 + b" "?n div 2 ^ 8 = a * 65536 + b * 256 + c"
    "?n div 2 ^ 28 = a div 16" "?n div 2 ^ 22 = a * 4 + b div 64" "?n div 2 ^ 20 = a * 16 + b div 16"
    "?n div 2 ^ 17 = a * 128 + b div 2"
    using assms by simp_all
  note q = this
  have d: "b div 64 < 4" "b div 16 < 16" "b div 2 < 128" using assms(2) by auto
  have e: "a * 4 + b div 64 = 401 \<longleftrightarrow> a = 100 \<and> 64 \<le> b \<and> b < 128"
    "a * 16 + b div 16 = 2753 \<longleftrightarrow> a = 172 \<and> 16 \<le> b \<and> b < 32"
    "a * 128 + b div 2 = 25353 \<longleftrightarrow> a = 198 \<and> (b = 18 \<or> b = 19)"
    unfolding two_digits [OF d(1)] two_digits [OF d(2)] two_digits [OF d(3)] by (simp; arith)+
  have h: "a div 16 = 14 \<or> a div 16 = 15 \<longleftrightarrow> 224 \<le> a" using assms(1) by arith
  have f: "a * 256 + b = 43518 \<longleftrightarrow> a = 169 \<and> b = 254" "a * 256 + b = 49320 \<longleftrightarrow> a = 192 \<and> b = 168"
    unfolding two_digits [OF assms(2)] by simp_all
  have g: "a * 65536 + b * 256 + c = 12582912 \<longleftrightarrow> a = 192 \<and> b = 0 \<and> c = 0"
    "a * 65536 + b * 256 + c = 12582914 \<longleftrightarrow> a = 192 \<and> b = 0 \<and> c = 2"
    "a * 65536 + b * 256 + c = 12605539 \<longleftrightarrow> a = 192 \<and> b = 88 \<and> c = 99"
    "a * 65536 + b * 256 + c = 12989284 \<longleftrightarrow> a = 198 \<and> b = 51 \<and> c = 100"
    "a * 65536 + b * 256 + c = 13303921 \<longleftrightarrow> a = 203 \<and> b = 0 \<and> c = 113"
    unfolding three_digits [OF assms(2,3)] by simp_all
  have "blocked_v4 (octets a b c d) \<longleftrightarrow> a = 0 \<or> a = 10 \<or> a * 4 + b div 64 = 401 \<or> a = 127
      \<or> a * 256 + b = 43518 \<or> a * 16 + b div 16 = 2753 \<or> a * 65536 + b * 256 + c = 12582912
      \<or> a * 65536 + b * 256 + c = 12582914 \<or> a * 65536 + b * 256 + c = 12605539 \<or> a * 256 + b = 49320
      \<or> a * 128 + b div 2 = 25353 \<or> a * 65536 + b * 256 + c = 12989284
      \<or> a * 65536 + b * 256 + c = 13303921 \<or> a div 16 = 14 \<or> a div 16 = 15"
    unfolding blocked_v4_div [OF octets_unat [OF assms]] q ..
  also have "\<dots> \<longleftrightarrow> a = 0 \<or> a = 10 \<or> (a = 100 \<and> 64 \<le> b \<and> b < 128) \<or> a = 127 \<or> (a = 169 \<and> b = 254)
     \<or> (a = 172 \<and> 16 \<le> b \<and> b < 32) \<or> (a = 192 \<and> b = 0 \<and> c = 0) \<or> (a = 192 \<and> b = 0 \<and> c = 2) \<or> (a = 192 \<and> b = 88 \<and> c = 99)
     \<or> (a = 192 \<and> b = 168) \<or> (a = 198 \<and> (b = 18 \<or> b = 19)) \<or> (a = 198 \<and> b = 51 \<and> c = 100)
     \<or> (a = 203 \<and> b = 0 \<and> c = 113) \<or> 224 \<le> a"
    unfolding e f g h ..
  finally show ?thesis .
qed

lemma blocked_v6_iff:
  "blocked_v6 n \<longleftrightarrow> n = 0 \<or> n = 1 \<or> n < push_bit 96 1
     \<or> (in_v6 n (push_bit 64 0x0064ff9b) 96 \<and> blocked_v4 (ucast (n AND 0xffffffff)))
     \<or> \<not> in_v6 n (push_bit 64 0x0064ff9b) 96 \<and> (in_v6 n (push_bit 112 0x0100) 64
     \<or> in_v6 n (push_bit 96 0x20010db8) 32 \<or> in_v6 n (push_bit 112 0xfc00) 7
     \<or> in_v6 n (push_bit 112 0xfe80) 10 \<or> in_v6 n (push_bit 112 0xff00) 8)"
  unfolding blocked_v6_def by (simp only: if_bool_eq_disj) blast

text \<open>The branch for NAT64 compares with an address below \<open>2 ^ 96\<close>: it is never reached.\<close>

lemma nat64_branch_dead: "in_v6 n (push_bit 64 0x0064ff9b) 96 \<Longrightarrow> n < push_bit 96 1"
proof -
  assume "in_v6 n (push_bit 64 0x0064ff9b) 96"
  then have "unat n div 2 ^ 32 = unat (push_bit 64 0x0064ff9b :: 128 word) div 2 ^ 32"
    by (simp add: in_v6_div)
  also have "\<dots> = 0x0064ff9b * 2 ^ 32" by (simp add: push_bit_eq_mult)
  finally have "unat n < 2 ^ 96" by simp
  then show ?thesis by (simp add: word_less_nat_alt push_bit_eq_mult)
qed

lemma v6_constants:
  "unat (push_bit 112 0x0100 :: 128 word) div 2 ^ 64 = 0x0100 * 2 ^ 48"
  "unat (push_bit 96 0x20010db8 :: 128 word) div 2 ^ 96 = 0x20010db8"
  "unat (push_bit 112 0xfc00 :: 128 word) div 2 ^ 121 = 126"
  "unat (push_bit 112 0xfe80 :: 128 word) div 2 ^ 118 = 1018"
  "unat (push_bit 112 0xff00 :: 128 word) div 2 ^ 120 = 255"
  by (simp_all add: push_bit_eq_mult)

lemma in_v6_ranges:
  "in_v6 n (push_bit 112 0x0100) 64 \<longleftrightarrow> unat n div 2 ^ 64 = 0x0100 * 2 ^ 48"
  "in_v6 n (push_bit 96 0x20010db8) 32 \<longleftrightarrow> unat n div 2 ^ 96 = 0x20010db8"
  "in_v6 n (push_bit 112 0xfc00) 7 \<longleftrightarrow> unat n div 2 ^ 121 = 126"
  "in_v6 n (push_bit 112 0xfe80) 10 \<longleftrightarrow> unat n div 2 ^ 118 = 1018"
  "in_v6 n (push_bit 112 0xff00) 8 \<longleftrightarrow> unat n div 2 ^ 120 = 255"
  using in_v6_div [of 64 n] in_v6_div [of 32 n] in_v6_div [of 7 n] in_v6_div [of 10 n] in_v6_div [of 8 n]
  by (simp_all only: v6_constants [symmetric]) simp_all

lemma allowed_v6:
  assumes "\<not> blocked_v6 n"
  shows "2 ^ 96 \<le> unat n \<and> unat n div 2 ^ 121 \<noteq> 126 \<and> unat n div 2 ^ 118 \<noteq> 1018
    \<and> unat n div 2 ^ 120 \<noteq> 255 \<and> unat n div 2 ^ 96 \<noteq> 0x20010db8 \<and> unat n div 2 ^ 64 \<noteq> 0x0100 * 2 ^ 48"
proof -
  have n: "\<not> n < push_bit 96 1" using assms unfolding blocked_v6_iff by blast
  then have "2 ^ 96 \<le> unat n" by (simp add: word_less_nat_alt push_bit_eq_mult)
  moreover have "\<not> in_v6 n (push_bit 64 0x0064ff9b) 96" using n nat64_branch_dead by blast
  with assms have "\<not> in_v6 n (push_bit 112 0x0100) 64" "\<not> in_v6 n (push_bit 96 0x20010db8) 32"
    "\<not> in_v6 n (push_bit 112 0xfc00) 7" "\<not> in_v6 n (push_bit 112 0xfe80) 10" "\<not> in_v6 n (push_bit 112 0xff00) 8"
    by (simp_all only: blocked_v6_iff) blast+
  ultimately show ?thesis unfolding in_v6_ranges by blast
qed

section \<open>What may be bound\<close>

lemma bind_refusal_empty:
  assumes "bind_refusal a gate = []"
  shows "a \<noteq> [] \<and> list_all bare_char a \<and> (\<exists>v. parse_ip a = Some (V6 v) \<and> v \<noteq> 0 \<and>
     (case gate of Some g \<Rightarrow> if g_constrained g then gate_check g a else \<not> is_blocked_host a
        | None \<Rightarrow> \<not> is_blocked_host a))"
proof (cases "js_trim a \<noteq> [] \<and> js_trim a = a \<and> list_all bare_char a")
  case True
  with assms show ?thesis
    unfolding bind_refusal_def Let_def
    by (cases "parse_ip a") (simp_all split: ip.splits option.splits if_split_asm)
next
  case False
  with assms show ?thesis by (simp add: bind_refusal_def Let_def split: if_split_asm)
qed

text \<open>
  An address is bound only if it is a bare IPv6 literal, not the unspecified one, and inside
  the declared prefix when there is one; with no prefix declared it is at or above \<open>2 ^ 96\<close> and
  outside the unique-local, link-local, multicast, documentation and discard ranges.
\<close>
theorem bound_address_is_ours:
  assumes "bind_refusal address gate = []"
  shows "\<exists>v. parse_ip address = Some (V6 v) \<and> v \<noteq> 0 \<and> list_all bare_char address
     \<and> (case gate of
          Some g \<Rightarrow> g_constrained g \<longrightarrow> v AND g_mask g = g_net g
        | None \<Rightarrow> True)
     \<and> ((case gate of Some g \<Rightarrow> \<not> g_constrained g | None \<Rightarrow> True) \<longrightarrow>
          2 ^ 96 \<le> unat v \<and> unat v div 2 ^ 121 \<noteq> 126 \<and> unat v div 2 ^ 118 \<noteq> 1018
          \<and> unat v div 2 ^ 120 \<noteq> 255 \<and> unat v div 2 ^ 96 \<noteq> 0x20010db8)"
proof -
  from bind_refusal_empty [OF assms] obtain v where v: "address \<noteq> []" "list_all bare_char address"
    "parse_ip address = Some (V6 v)" "v \<noteq> 0"
    "case gate of Some g \<Rightarrow> if g_constrained g then gate_check g address else \<not> is_blocked_host address
       | None \<Rightarrow> \<not> is_blocked_host address" by blast
  have "\<not> blocked_v6 v" if "case gate of Some g \<Rightarrow> \<not> g_constrained g | None \<Rightarrow> True"
    using v that by (cases gate) (simp_all add: is_blocked_host_def blocked_ip_def)
  note open_case = allowed_v6 [OF this]
  have "case gate of Some g \<Rightarrow> g_constrained g \<longrightarrow> v AND g_mask g = g_net g | None \<Rightarrow> True"
    using v by (cases gate) (auto simp: gate_check_def)
  with v open_case show ?thesis by blast
qed

lemma replicate_4: "replicate 4 x = [x, x, x, x]" "replicate 3 x = [x, x, x]"
  by (simp_all add: numeral_eq_Suc)

lemmas parse_defs = parse_ip_def js_trim_def is_space_def unbracket_def v4_literal_def v6_literal_def
  last_piece_def v6_groups_def pieces_def Let_def hex_group_def is_hex_def v6_of_groups_def
  hex_group_val_def hex_digit_val_def lower_char_def push_bit_eq_mult replicate_4
  is_digit_def digits_val_def digit_val_def octets_def

lemma demo_parses:
  "parse_ip ''64:ff9b::7f00:1'' = Some (V6 0x0064ff9b00000000000000007f000001)"
  "parse_ip ''127.0.0.1'' = Some (V4 0x7f000001)"
  "parse_ip ''2a01:4f8:c17:abcd::5'' = Some (V6 0x2a0104f80c17abcd0000000000000005)"
  "parse_ip ''2a01:4f8:c17:abcd::'' = Some (V6 0x2a0104f80c17abcd0000000000000000)"
  by (simp_all add: parse_defs)

lemma demo_gate:
  "v6_prefix_gate ''2a01:4f8:c17:abcd::/64'' = Some \<lparr>g_constrained = True,
     g_net = 0x2a0104f80c17abcd0000000000000000, g_mask = v6mask 64\<rparr>"
  by (simp add: v6_prefix_gate_def js_trim_def is_space_def Let_def demo_parses parse_int10_def is_digit_def
      digits_val_def digit_val_def) (simp add: v6mask_def push_bit_eq_mult)

lemma demo_bind:
  "bind_refusal ''2a01:4f8:c17:abcd::5'' (v6_prefix_gate ''2a01:4f8:c17:abcd::/64'') = []"
  by (simp add: bind_refusal_def demo_gate js_trim_def is_space_def Let_def demo_parses bare_char_def
      gate_check_def) (simp add: v6mask_def push_bit_eq_mult)

theorem bound_address_is_ours_witness:
  "\<exists>v. parse_ip ''2a01:4f8:c17:abcd::5'' = Some (V6 v) \<and> v \<noteq> 0"
  using bound_address_is_ours [OF demo_bind] by blast

theorem blocked_v4_ranges_witness: "blocked_v4 (octets 172 31 0 5) \<and> \<not> blocked_v4 (octets 172 32 0 5)"
  by (subst (1 2) blocked_v4_ranges) simp_all

text \<open>
  A NAT64 literal whose embedded address is loopback passes the gate, although the header promises
  that such literals are judged by the embedded address.
\<close>

theorem nat64_loopback_passes:
  "\<not> is_blocked_host ''64:ff9b::7f00:1'' \<and> is_blocked_host ''127.0.0.1''"
  by (simp add: is_blocked_host_def demo_parses blocked_ip_def blocked_v4_def blocked_ranges_def in_v4_def
      v4mask_def push_bit_eq_mult blocked_v6_def in_v6_def v6mask_def)

end
