(* ===== verification/Relay_Routing.thy ===== *)
theory Relay_Routing
  imports Js_Prelude "HOL-Library.Word"
begin

text \<open>
  The public TCP relay of \<open>relay/relay.js\<close>: the SNI parser over the bytes of a ClientHello, the
  routing of a hostname to the deployment and enclave that serve it, and the answer to plaintext
  HTTP on the redirect port. A byte is an \<^typ>\<open>8 word\<close>.
\<close>

section \<open>The SNI parser\<close>

datatype sni = NeedMore | Reject | Sni string

definition byte_at :: "8 word list \<Rightarrow> nat \<Rightarrow> nat option" where
  "byte_at d k = (if k < length d then Some (unat (d ! k)) else None)"

lemma unat_byte_less: "unat (b :: 8 word) < 256"
  using unsigned_less [of b] by simp

text \<open>\<open>readUInt16BE\<close>; out of range it throws.\<close>

definition u16_at :: "8 word list \<Rightarrow> nat \<Rightarrow> nat option" where
  "u16_at d k = (if k + 1 < length d then Some (256 * unat (d ! k) + unat (d ! (k + 1))) else None)"

text \<open>\<open>toString("ascii")\<close> clears the high bit.\<close>

definition ascii_of :: "8 word list \<Rightarrow> string" where
  "ascii_of bs = map (\<lambda>b. char_of (unat b mod 128)) bs"

definition server_name :: "8 word list \<Rightarrow> nat \<Rightarrow> sni" where
  "server_name d k =
     (let p = k + 2
      in if byte_at d p \<noteq> Some 0 then Reject
         else (case u16_at d (p + 1) of
                 None \<Rightarrow> Reject
               | Some n \<Rightarrow> Sni (to_lower (ascii_of (take n (drop (p + 3) d))))))"

function ext_scan :: "8 word list \<Rightarrow> nat \<Rightarrow> nat \<Rightarrow> sni" where
  "ext_scan d extEnd k =
     (if k + 4 \<le> extEnd \<and> k + 4 \<le> length d then
        (if u16_at d k = Some 0 then server_name d (k + 4)
         else ext_scan d extEnd (k + 4 + the (u16_at d (k + 2))))
      else Reject)"
  by pat_completeness auto
termination by (relation "measure (\<lambda>(d, e, k). length d - k)") auto

declare ext_scan.simps [simp del]

definition sni_record :: "8 word list \<Rightarrow> sni" where
  "sni_record d =
     (if byte_at d 0 \<noteq> Some 1 then Reject
      else (case byte_at d 38 of
              None \<Rightarrow> Reject
            | Some sid \<Rightarrow>
                (case u16_at d (39 + sid) of
                   None \<Rightarrow> Reject
                 | Some cs \<Rightarrow>
                     (case byte_at d (41 + sid + cs) of
                        None \<Rightarrow> Reject
                      | Some cm \<Rightarrow>
                          let k = 42 + sid + cs + cm
                          in if k \<ge> length d then Reject
                             else (case u16_at d k of
                                     None \<Rightarrow> Reject
                                   | Some el \<Rightarrow> ext_scan d (k + 2 + el) (k + 2))))))"

definition sni_from_client_hello :: "8 word list \<Rightarrow> sni" where
  "sni_from_client_hello buf =
     (if length buf < 5 then NeedMore
      else if unat (buf ! 0) \<noteq> 0x16 then Reject
      else let recLen = the (u16_at buf 3)
           in if recLen > 18432 then Reject
              else if length buf < 5 + recLen then NeedMore
              else sni_record (take recLen (drop 5 buf)))"

section \<open>Parsing what a client sends\<close>

definition enc16 :: "nat \<Rightarrow> 8 word list" where
  "enc16 n = [of_nat (n div 256), of_nat (n mod 256)]"

record hello =
  h_head :: "8 word list"
  h_session :: "8 word list"
  h_ciphers :: "8 word list"
  h_compress :: "8 word list"
  h_before :: "(nat \<times> 8 word list) list"
  h_name :: "8 word list"
  h_after :: "8 word list"

definition enc_ext :: "nat \<times> 8 word list \<Rightarrow> 8 word list" where
  "enc_ext e = enc16 (fst e) @ enc16 (length (snd e)) @ snd e"

definition enc_name_body :: "8 word list \<Rightarrow> 8 word list" where
  "enc_name_body nm = enc16 (length nm + 3) @ [0] @ enc16 (length nm) @ nm"

definition hello_exts :: "hello \<Rightarrow> 8 word list" where
  "hello_exts h = concat (map enc_ext (h_before h)) @ enc_ext (0, enc_name_body (h_name h)) @ h_after h"

definition hello_body :: "hello \<Rightarrow> 8 word list" where
  "hello_body h =
     [1] @ h_head h @ [of_nat (length (h_session h))] @ h_session h
     @ enc16 (length (h_ciphers h)) @ h_ciphers h
     @ [of_nat (length (h_compress h))] @ h_compress h
     @ enc16 (length (hello_exts h)) @ hello_exts h"

definition hello_record :: "hello \<Rightarrow> 8 word list" where
  "hello_record h = [0x16, 3, 1] @ enc16 (length (hello_body h)) @ hello_body h"

definition good_hello :: "hello \<Rightarrow> bool" where
  "good_hello h \<longleftrightarrow> length (h_head h) = 37 \<and> length (h_session h) < 256 \<and> length (h_compress h) < 256
     \<and> list_all (\<lambda>(t, b). 0 < t \<and> t < 65536) (h_before h) \<and> length (hello_body h) \<le> 18432"

lemma unat_byte: "n < 256 \<Longrightarrow> unat (of_nat n :: 8 word) = n"
  by (simp add: unat_of_nat)

lemma byte_at_append [simp]: "byte_at (xs @ ys) (length xs + k) = byte_at ys k"
  by (simp add: byte_at_def nth_append)

lemma u16_at_append [simp]: "u16_at (xs @ ys) (length xs + k) = u16_at ys k"
  by (simp add: u16_at_def nth_append)

lemma byte_at_0 [simp]: "byte_at (b # ys) 0 = Some (unat b)"
  by (simp add: byte_at_def)

lemma u16_at_enc [simp]: "n < 65536 \<Longrightarrow> u16_at (enc16 n @ ys) 0 = Some n"
  by (simp add: u16_at_def enc16_def unat_byte less_mult_imp_div_less)

lemma length_enc16 [simp]: "length (enc16 n) = 2"
  by (simp add: enc16_def)

lemma ext_scan_name:
  assumes "length nm + 5 < 65536"
    and "extEnd = length p + length (enc_ext (0, enc_name_body nm)) + m"
  shows "ext_scan (p @ enc_ext (0, enc_name_body nm) @ q) extEnd (length p) = Sni (to_lower (ascii_of nm))"
proof -
  let ?d = "p @ enc_ext (0, enc_name_body nm) @ q"
  let ?p4 = "p @ enc16 0 @ enc16 (length (enc_name_body nm))"
  let ?p6 = "?p4 @ enc16 (length nm + 3)" and ?p7 = "?p4 @ enc16 (length nm + 3) @ [0]"
  have d4: "?d = ?p6 @ [0] @ enc16 (length nm) @ nm @ q"
    by (simp add: enc_ext_def enc_name_body_def)
  have u0: "u16_at ?d (length p) = Some 0"
    using u16_at_append [of p _ 0] by (simp add: enc_ext_def)
  have b: "byte_at ?d (length p + 6) = Some 0"
    using byte_at_append [of ?p6 "[0] @ enc16 (length nm) @ nm @ q" 0] unfolding d4 by simp
  have d7: "?d = ?p7 @ enc16 (length nm) @ nm @ q"
    by (simp add: enc_ext_def enc_name_body_def)
  have u: "u16_at ?d (length p + 7) = Some (length nm)"
    using u16_at_append [of ?p7 "enc16 (length nm) @ nm @ q" 0] assms(1) unfolding d7 by simp
  have n: "take (length nm) (drop (length p + 9) ?d) = nm"
    unfolding d7 by simp
  have "server_name D (length p + 4) = Sni (to_lower (ascii_of nm))"
    if "byte_at D (length p + 6) = Some 0" "u16_at D (length p + 7) = Some (length nm)"
      "take (length nm) (drop (length p + 9) D) = nm" for D
    using that by (simp add: server_name_def Let_def eval_nat_numeral)
  from this [OF b u n] have "server_name ?d (length p + 4) = Sni (to_lower (ascii_of nm))" .
  then show ?thesis
    using u0 assms(2) by (subst ext_scan.simps) (simp add: enc_ext_def)
qed

lemma ext_scan_skip:
  assumes "0 < t" "t < 65536" "length body < 65536" "extEnd \<ge> length p + length (enc_ext (t, body))"
  shows "ext_scan (p @ enc_ext (t, body) @ q) extEnd (length p) =
    ext_scan (p @ enc_ext (t, body) @ q) extEnd (length (p @ enc_ext (t, body)))"
proof -
  let ?d = "p @ enc_ext (t, body) @ q"
  have u0: "u16_at ?d (length p) = Some t"
    using u16_at_append [of p _ 0] assms(2) by (simp add: enc_ext_def)
  have d2: "?d = (p @ enc16 t) @ enc16 (length body) @ body @ q"
    by (simp add: enc_ext_def)
  have u2: "u16_at ?d (length p + 2) = Some (length body)"
    using u16_at_append [of "p @ enc16 t" "enc16 (length body) @ body @ q" 0] assms(3) unfolding d2 by simp
  have "length (p @ enc_ext (t, body)) = length p + 4 + length body" by (simp add: enc_ext_def)
  moreover have "length p + 4 \<le> extEnd \<and> length p + 4 \<le> length ?d"
    using assms(4) by (simp add: enc_ext_def)
  ultimately show ?thesis
    using u0 u2 assms(1) by (subst ext_scan.simps) (simp add: add.assoc)
qed

lemma ext_scan_exts:
  assumes "list_all (\<lambda>(t, b). 0 < t \<and> t < 65536 \<and> length b < 65536) es" "length nm + 5 < 65536"
    and "extEnd = length p + length (concat (map enc_ext es)) + length (enc_ext (0, enc_name_body nm)) + m"
  shows "ext_scan (p @ concat (map enc_ext es) @ enc_ext (0, enc_name_body nm) @ q) extEnd (length p)
    = Sni (to_lower (ascii_of nm))"
  using assms(1,3)
proof (induction es arbitrary: p)
  case Nil
  then show ?case using ext_scan_name [OF assms(2)] by simp
next
  case (Cons e es)
  obtain t body where e: "e = (t, body)" by (cases e)
  let ?q = "concat (map enc_ext es) @ enc_ext (0, enc_name_body nm) @ q"
  have "ext_scan (p @ enc_ext e @ ?q) extEnd (length p) = ext_scan (p @ enc_ext e @ ?q) extEnd (length (p @ enc_ext e))"
    using Cons.prems by (simp only: e) (rule ext_scan_skip; simp)
  also have "\<dots> = Sni (to_lower (ascii_of nm))"
    using Cons.IH [of "p @ enc_ext e"] Cons.prems by (simp add: add.assoc)
  finally show ?case by simp
qed

text \<open>
  C30: Every ClientHello a client may send is routed by its name. For any session id, cipher
  suites, compression methods and extensions before and after, the parser returns the lower-case
  server name of the record, whatever bytes follow it.
\<close>
theorem sni_of_client_hello:
  assumes "good_hello h"
  shows "sni_from_client_hello (hello_record h @ rest) = Sni (to_lower (ascii_of (h_name h)))"
proof -
  let ?d = "hello_body h" and ?e = "hello_exts h"
  have len: "length ?d \<le> 18432" using assms by (simp add: good_hello_def)
  have sizes: "length (h_session h) < 256" "length (h_compress h) < 256" "length (h_head h) = 37"
    "length (h_ciphers h) < 65536" "length ?e < 65536" "length (h_name h) + 5 < 65536"
    using assms by (auto simp: good_hello_def hello_body_def hello_exts_def enc_ext_def enc_name_body_def)
  have small: "length b < 65536" if "(t, b) \<in> set (h_before h)" for t b
  proof -
    have "length b \<le> length (enc_ext (t, b))" by (simp add: enc_ext_def)
    also have "\<dots> \<le> length (concat (map enc_ext (h_before h)))"
      using that by (auto simp: length_concat intro!: member_le_sum_list)
    finally show ?thesis using sizes(5) by (simp add: hello_exts_def)
  qed
  then have exts: "list_all (\<lambda>(t, b). 0 < t \<and> t < 65536 \<and> length b < 65536) (h_before h)"
    using assms by (auto simp: good_hello_def list_all_iff)
  define p1 where "p1 = [1] @ h_head h"
  define p2 where "p2 = p1 @ [of_nat (length (h_session h))] @ h_session h"
  define p3 where "p3 = p2 @ enc16 (length (h_ciphers h)) @ h_ciphers h"
  define p4 where "p4 = p3 @ [of_nat (length (h_compress h))] @ h_compress h"
  define p5 where "p5 = p4 @ enc16 (length ?e)"
  have l: "length p1 = 38" "length p2 = 39 + length (h_session h)"
    "length p3 = 41 + length (h_session h) + length (h_ciphers h)"
    "length p4 = 42 + length (h_session h) + length (h_ciphers h) + length (h_compress h)"
    "length p5 = length p4 + 2"
    using sizes(3) by (simp_all add: p1_def p2_def p3_def p4_def p5_def)
  have d: "?d = p1 @ [of_nat (length (h_session h))] @ h_session h @ enc16 (length (h_ciphers h)) @ h_ciphers h
        @ [of_nat (length (h_compress h))] @ h_compress h @ enc16 (length ?e) @ ?e"
    "?d = p2 @ enc16 (length (h_ciphers h)) @ h_ciphers h @ [of_nat (length (h_compress h))] @ h_compress h @ enc16 (length ?e) @ ?e"
    "?d = p3 @ [of_nat (length (h_compress h))] @ h_compress h @ enc16 (length ?e) @ ?e"
    "?d = p4 @ enc16 (length ?e) @ ?e" "?d = p5 @ ?e"
    by (simp_all add: hello_body_def p1_def p2_def p3_def p4_def p5_def)
  have b0: "byte_at ?d 0 = Some 1" by (simp add: hello_body_def)
  have b1: "byte_at ?d 38 = Some (length (h_session h))"
    using byte_at_append [of p1 _ 0] sizes(1) by (subst d(1)) (simp add: l unat_byte)
  have b2: "u16_at ?d (39 + length (h_session h)) = Some (length (h_ciphers h))"
    using u16_at_append [of p2 _ 0] sizes(4) by (subst d(2)) (simp add: l)
  have b3: "byte_at ?d (41 + length (h_session h) + length (h_ciphers h)) = Some (length (h_compress h))"
    using byte_at_append [of p3 _ 0] sizes(2) by (subst d(3)) (simp add: l unat_byte)
  have b4: "u16_at ?d (length p4) = Some (length ?e)"
    using u16_at_append [of p4 _ 0] sizes(5) by (subst d(4)) simp
  have lt: "length p4 < length ?d" by (subst d(4)) simp
  have "ext_scan ?d (length p4 + 2 + length ?e) (length p4 + 2) = Sni (to_lower (ascii_of (h_name h)))"
    using ext_scan_exts [OF exts sizes(6), of "length p5 + length ?e" p5 "length (h_after h)" "h_after h"]
    by (subst d(5)) (simp add: hello_exts_def l add.assoc)
  then have r: "sni_record ?d = Sni (to_lower (ascii_of (h_name h)))"
    using b0 b1 b2 b3 b4 lt by (simp add: sni_record_def Let_def l)
  have u: "u16_at (hello_record h @ rest) 3 = Some (length ?d)"
    using u16_at_append [of "[0x16, 3, 1]" "enc16 (length ?d) @ ?d @ rest" 0] len
    by (simp add: hello_record_def numeral_3_eq_3)
  have t: "take (length ?d) (drop 5 (hello_record h @ rest)) = ?d"
    by (simp add: hello_record_def enc16_def)
  show ?thesis
    using u t r len by (simp add: sni_from_client_hello_def hello_record_def enc16_def)
qed

definition demo_hello :: hello where
  "demo_hello = \<lparr>h_head = replicate 37 9, h_session = [5, 6], h_ciphers = [7, 8], h_compress = [0],
     h_before = [(43, [5, 6, 7])], h_name = [65, 46, 98], h_after = []\<rparr>"

theorem sni_of_client_hello_witness:
  "sni_from_client_hello (hello_record demo_hello @ [5]) = Sni ''a.b''"
proof -
  have "good_hello demo_hello"
    by (simp add: good_hello_def demo_hello_def hello_body_def hello_exts_def enc_ext_def enc_name_body_def)
  moreover have "to_lower (ascii_of (h_name demo_hello)) = ''a.b''"
    by code_simp
  ultimately show ?thesis using sni_of_client_hello [of demo_hello "[5]"] by simp
qed

text \<open>A verdict once reached does not change when more bytes arrive.\<close>

lemma sni_verdict_stable:
  assumes "sni_from_client_hello buf \<noteq> NeedMore"
  shows "sni_from_client_hello (buf @ rest) = sni_from_client_hello buf"
proof -
  have l: "5 \<le> length buf" using assms by (simp add: sni_from_client_hello_def split: if_splits)
  have u: "u16_at (buf @ rest) 3 = u16_at buf 3" "(buf @ rest) ! 0 = buf ! 0"
    using l by (auto simp: u16_at_def nth_append)
  show ?thesis
  proof (cases "unat (buf ! 0) \<noteq> 0x16 \<or> the (u16_at buf 3) > 18432")
    case True
    with l u show ?thesis by (auto simp: sni_from_client_hello_def Let_def)
  next
    case False
    then have "5 + the (u16_at buf 3) \<le> length buf"
      using assms l by (auto simp: sni_from_client_hello_def Let_def split: if_splits)
    with False l u show ?thesis by (auto simp: sni_from_client_hello_def Let_def)
  qed
qed

section \<open>From a hostname to an enclave\<close>

text \<open>
  The fleet index: each live origin with the deployments of its last answered \<open>/v1/net-map\<close> and
  their declared TCP ports. An answer is \<^term>\<open>None\<close> when the enclave could not be reached.
\<close>

type_synonym fleet_index = "(string \<times> (string \<times> nat list) list) list"

definition poll_fleet ::
  "(string \<times> (bool \<times> (string \<times> nat list) list) option) list \<Rightarrow> fleet_index \<Rightarrow> fleet_index" where
  "poll_fleet answers idx =
     filter (\<lambda>(o0, deps). o0 \<in> set (map fst answers))
       (foldl (\<lambda>acc (o0, a). case a of
            None \<Rightarrow> acc
          | Some (enabled, deps) \<Rightarrow> AList.update o0 (if enabled then deps else []) acc) idx answers)"

definition strip_dep :: "string \<Rightarrow> string" where
  "strip_dep l = (case strip_prefix ''dep_'' l of Some r \<Rightarrow> r
     | None \<Rightarrow> (case strip_prefix ''dep-'' l of Some r \<Rightarrow> r | None \<Rightarrow> l))"

definition strip_0x :: "string \<Rightarrow> string" where
  "strip_0x l = (case strip_prefix ''0x'' l of Some r \<Rightarrow> r | None \<Rightarrow> l)"

definition names_id :: "string \<Rightarrow> string \<Rightarrow> bool" where
  "names_id label i \<longleftrightarrow>
     (let l = strip_0x (strip_dep (to_lower label)); n = strip_0x (to_lower i)
      in to_lower i = to_lower label \<or> n = l \<or> ''dep_'' @ l = to_lower i \<or> (6 \<le> length l \<and> prefix l n))"

type_synonym target = "string \<times> string \<times> nat list"

fun resolve_in :: "string \<Rightarrow> target option \<Rightarrow> target list \<Rightarrow> target option" where
  "resolve_in label hit [] = hit"
| "resolve_in label hit ((o0, i, tcp) # ts) =
     (if names_id label i then
        (case hit of
           Some (o1, j, t1) \<Rightarrow> if j \<noteq> i then None else resolve_in label (Some (o0, i, tcp)) ts
         | None \<Rightarrow> resolve_in label (Some (o0, i, tcp)) ts)
      else resolve_in label hit ts)"

definition targets :: "fleet_index \<Rightarrow> target list" where
  "targets idx = concat (map (\<lambda>(o0, deps). map (\<lambda>(i, tcp). (o0, i, tcp)) deps) idx)"

definition resolve :: "fleet_index \<Rightarrow> string \<Rightarrow> target option" where
  "resolve idx label = resolve_in label None (targets idx)"

record relay_cfg =
  rc_custom :: "(string \<times> string) list"
  rc_apps :: "string list"
  rc_domains :: "string list"
  rc_index :: fleet_index

definition host_char :: "char \<Rightarrow> bool" where
  "host_char c \<longleftrightarrow> c \<in> set ''abcdefghijklmnopqrstuvwxyz0123456789.-''"

definition host_name :: "string \<Rightarrow> bool" where
  "host_name h \<longleftrightarrow> h \<noteq> [] \<and> length h \<le> 253 \<and> list_all host_char h"

definition in_zone :: "string \<Rightarrow> string \<Rightarrow> bool" where
  "in_zone h d \<longleftrightarrow> suffix (CHR ''.'' # d) h"

definition strip_dots :: "string \<Rightarrow> string" where
  "strip_dots h = rev (dropWhile (\<lambda>c. c = CHR ''.'') (rev h))"

definition dep_id :: "string \<Rightarrow> bool" where
  "dep_id i \<longleftrightarrow> (take 2 i = ''0x'' \<and> hex_str 64 64 (drop 2 i)) \<or>
     (take 4 i = ''dep_'' \<and> drop 4 i \<noteq> [] \<and> list_all (\<lambda>c. c \<in> set ''abcdefghijklmnopqrstuvwxyz0123456789'') (drop 4 i))"

text \<open>\<open>pollDomains\<close>: the map that was read replaces the old one, less the names it may not hold.\<close>

definition custom_entry :: "string list \<Rightarrow> string \<times> string \<Rightarrow> bool" where
  "custom_entry zones e \<longleftrightarrow> (let h = strip_dots (to_lower (fst e))
     in host_name h \<and> dep_id (to_lower (snd e)) \<and> \<not> list_ex (\<lambda>d. h = d \<or> in_zone h d) zones)"

definition poll_domains :: "(string \<times> string) list option \<Rightarrow> relay_cfg \<Rightarrow> relay_cfg" where
  "poll_domains answer c =
     (case answer of
        None \<Rightarrow> c
      | Some m \<Rightarrow> c\<lparr>rc_custom := foldl (\<lambda>acc e. AList.update (strip_dots (to_lower (fst e))) (to_lower (snd e)) acc) []
            (filter (custom_entry (rc_apps c @ rc_domains c)) m)\<rparr>)"

datatype route =
    Refuse
  | TlsSplice string string nat
  | HttpsBridge string

definition label_char :: "char \<Rightarrow> bool" where
  "label_char c \<longleftrightarrow> c \<in> set ''abcdefghijklmnopqrstuvwxyz0123456789-''"

definition app_dep :: "string \<Rightarrow> string" where
  "app_dep label = (if hex_str 8 64 label then ''0x'' @ label
     else (case strip_prefix ''dep-'' label of Some r \<Rightarrow> ''dep_'' @ r | None \<Rightarrow> label))"

definition legacy_label :: "string \<Rightarrow> string" where
  "legacy_label l0 = (case strip_prefix ''dep-'' l0 of Some r \<Rightarrow> ''dep_'' @ r | None \<Rightarrow> l0)"

definition owned_or_bridge :: "relay_cfg \<Rightarrow> string \<Rightarrow> string \<Rightarrow> nat \<Rightarrow> route" where
  "owned_or_bridge c label dep port =
     (case resolve (rc_index c) label of
        Some (o0, i, tcp) \<Rightarrow>
          if port \<in> set tcp then TlsSplice o0 i port
          else if port \<noteq> 443 then Refuse else HttpsBridge dep
      | None \<Rightarrow> if port \<noteq> 443 then Refuse else HttpsBridge dep)"

text \<open>
  The routing part of \<open>handle\<close>, on the name the parser returned. \<open>HttpsBridge dep\<close> is the lookup of
  the enclave that runs \<open>dep\<close> and a splice to its \<open>/x/dep/https\<close> path.
\<close>

definition route_name :: "relay_cfg \<Rightarrow> string \<Rightarrow> nat \<Rightarrow> route" where
  "route_name c h port =
     (case map_of (rc_custom c) h of
        Some customId \<Rightarrow>
          owned_or_bridge c (case strip_prefix ''0x'' customId of Some r \<Rightarrow> take 8 r | None \<Rightarrow> strip_dep customId)
            customId port
      | None \<Rightarrow>
          (case find (in_zone h) (rc_apps c) of
             Some d \<Rightarrow>
               let label = take (length h - (length d + 1)) h
               in if label = [] \<or> length label > 64 \<or> \<not> list_all label_char label then Refuse
                  else owned_or_bridge c label (app_dep label) port
           | None \<Rightarrow>
               (case find (in_zone h) (rc_domains c) of
                  Some d \<Rightarrow>
                    let label = legacy_label (take (length h - (length d + 1)) h)
                    in if label = [] \<or> length label > 64 \<or> \<not> list_all (\<lambda>c. label_char c \<or> c = CHR ''_'') label
                       then Refuse
                       else (case resolve (rc_index c) label of
                               Some (o0, i, tcp) \<Rightarrow> TlsSplice o0 i port
                             | None \<Rightarrow> Refuse)
                | None \<Rightarrow> Refuse)))"

definition route_hello :: "relay_cfg \<Rightarrow> 8 word list \<Rightarrow> nat \<Rightarrow> route option" where
  "route_hello c buf port =
     (case sni_from_client_hello buf of
        NeedMore \<Rightarrow> if length buf > 20000 then Some Refuse else None
      | Reject \<Rightarrow> Some Refuse
      | Sni h \<Rightarrow> Some (route_name c h port))"

lemma resolve_in_sound:
  assumes "resolve_in label hit ts = Some (o0, i, tcp)"
  shows "(hit = Some (o0, i, tcp) \<or> (o0, i, tcp) \<in> set ts \<and> names_id label i)
     \<and> (\<forall>(o1, j, t1) \<in> set ts. names_id label j \<longrightarrow> j = i) \<and> (\<forall>h. hit = Some h \<longrightarrow> fst (snd h) = i)"
  using assms
proof (induction ts arbitrary: hit)
  case (Cons t ts)
  obtain o1 j t1 where t: "t = (o1, j, t1)" by (cases t)
  show ?case
  proof (cases "names_id label j")
    case True
    with Cons.prems have h: "hit = None \<or> (\<exists>o2 t2. hit = Some (o2, j, t2))"
      and r: "resolve_in label (Some (o1, j, t1)) ts = Some (o0, i, tcp)"
      by (auto simp: t split: option.splits if_splits)
    from Cons.IH [OF r] True h show ?thesis by (auto simp: t)
  next
    case False
    with Cons.prems Cons.IH [of hit] show ?thesis by (auto simp: t)
  qed
qed simp

lemma resolve_sound:
  assumes "resolve idx label = Some (o0, i, tcp)"
  shows "(o0, i, tcp) \<in> set (targets idx) \<and> names_id label i
     \<and> (\<forall>(o1, j, t1) \<in> set (targets idx). names_id label j \<longrightarrow> j = i)"
  using resolve_in_sound [OF assms [unfolded resolve_def]] by auto

lemma owned_or_bridge_cases:
  "owned_or_bridge c label dep port = TlsSplice o0 i p \<Longrightarrow>
     p = port \<and> (\<exists>tcp. port \<in> set tcp \<and> resolve (rc_index c) label = Some (o0, i, tcp))"
  "owned_or_bridge c label dep port = HttpsBridge d \<Longrightarrow> port = 443 \<and> d = dep"
  by (auto simp: owned_or_bridge_def split: option.splits if_splits)

lemma poll_domains_keys:
  assumes "c = poll_domains (Some m) c0" "map_of (rc_custom c) h = Some i"
  shows "host_name h \<and> dep_id i \<and> \<not> (\<exists>d \<in> set (rc_apps c0) \<union> set (rc_domains c0). h = d \<or> in_zone h d)"
proof -
  let ?good = "\<lambda>(h, i). host_name h \<and> dep_id i \<and> \<not> list_ex (\<lambda>d. h = d \<or> in_zone h d) (rc_apps c0 @ rc_domains c0)"
  have step: "list_all ?good (foldl (\<lambda>acc e. AList.update (strip_dots (to_lower (fst e))) (to_lower (snd e)) acc) acc es)"
    if "list_all ?good acc" "list_all (custom_entry (rc_apps c0 @ rc_domains c0)) es" for acc es
    using that
    by (induction es arbitrary: acc) (auto simp: custom_entry_def Let_def intro!: list_all_alist_update)
  have "list_all ?good (rc_custom c)"
    using step [of "[]" "filter (custom_entry (rc_apps c0 @ rc_domains c0)) m"] assms(1)
    by (simp add: poll_domains_def list_all_iff)
  with assms(2) show ?thesis by (auto simp: list_all_iff list_ex_iff dest!: map_of_SomeD)
qed


definition demo_relay :: relay_cfg where
  "demo_relay = \<lparr>rc_custom = [], rc_apps = [''app.io''], rc_domains = [''tcp.io''],
     rc_index = [(''E1'', [(''dep_a1'', [443])])]\<rparr>"


text \<open>
  A custom domain is held for one full id, but the owner is looked up by its first eight hex
  digits. A deployment announcing an id with the same eight digits and a declared port 443 gets the
  domain's connections, while the owner, which declared no port, is not in the index.
\<close>

definition victim_id :: string where
  "victim_id = ''0x'' @ replicate 8 (CHR ''a'') @ replicate 56 (CHR ''1'')"

definition twin_id :: string where
  "twin_id = ''0x'' @ replicate 8 (CHR ''a'') @ replicate 56 (CHR ''2'')"

lemma custom_domain_twin:
  "route_name \<lparr>rc_custom = [(''me.x'', victim_id)], rc_apps = [], rc_domains = [],
     rc_index = [(''E2'', [(twin_id, [443])])]\<rparr> ''me.x'' 443 = TlsSplice ''E2'' twin_id 443
   \<and> twin_id \<noteq> victim_id \<and> dep_id victim_id"
  by code_simp

section \<open>Plaintext on the redirect port\<close>

definition CR :: char where "CR = CHR 0x0D"
definition LF :: char where "LF = CHR 0x0A"

fun split_crlf :: "string \<Rightarrow> string list" where
  "split_crlf [] = [[]]"
| "split_crlf [c] = [[c]]"
| "split_crlf (c # d # cs) =
     (if c = CR \<and> d = LF then [] # split_crlf cs
      else (case split_crlf (d # cs) of y # ys \<Rightarrow> (c # y) # ys | [] \<Rightarrow> [[c]]))"

definition crlf :: string where "crlf = [CR, LF]"

definition http_reply :: "string \<Rightarrow> string \<Rightarrow> string \<Rightarrow> string" where
  "http_reply status extra body =
     ''HTTP/1.1 '' @ status @ crlf @ ''Connection: close'' @ crlf
     @ ''Content-Type: text/plain; charset=utf-8'' @ crlf
     @ ''Content-Length: '' @ show_nat (length body) @ crlf
     @ ''Cache-Control: no-store'' @ crlf @ extra @ crlf @ body"

definition upper_char :: "char \<Rightarrow> bool" where
  "upper_char c \<longleftrightarrow> (let n = (of_char c :: nat) in 65 \<le> n \<and> n \<le> 90)"

definition printable :: "char \<Rightarrow> bool" where
  "printable c \<longleftrightarrow> (let n = (of_char c :: nat) in 33 \<le> n \<and> n \<le> 126)"

definition header_host :: "string \<Rightarrow> string option" where
  "header_host l =
     (let n = takeWhile (\<lambda>c. c \<noteq> CHR '':'') l
      in if n \<noteq> [] \<and> length n < length l \<and> to_lower (js_trim n) = ''host''
         then Some (to_lower (js_trim (drop (length n + 1) l))) else None)"

definition strip_port :: "string \<Rightarrow> string" where
  "strip_port h =
     (let r = rev h; ds = takeWhile is_digit r; t = dropWhile is_digit r
      in if ds \<noteq> [] \<and> t \<noteq> [] \<and> hd t = CHR '':'' then rev (tl t) else h)"

definition nth_word :: "string list \<Rightarrow> nat \<Rightarrow> string" where
  "nth_word ws n = (if n < length ws then ws ! n else [])"

text \<open>\<open>body421\<close> is the fixed text told to an unrouted hostname.\<close>

definition https_redirect :: "string \<Rightarrow> relay_cfg \<Rightarrow> string \<Rightarrow> string" where
  "https_redirect body421 c head =
     (let ls = split_crlf head; ws = split_on (CHR '' '') (hd ls);
          method = nth_word ws 0; target = nth_word ws 1; version = nth_word ws 2;
          host0 = (case find (\<lambda>l. header_host l \<noteq> None) (tl ls) of Some l \<Rightarrow> the (header_host l) | None \<Rightarrow> []);
          host = strip_dots (strip_port host0)
      in if \<not> (3 \<le> length method \<and> length method \<le> 10 \<and> list_all upper_char method)
            \<or> \<not> (version = ''HTTP/1.0'' \<or> version = ''HTTP/1.1'') then http_reply ''400 Bad Request'' [] []
         else if target = [] \<or> hd target \<noteq> CHR ''/'' \<or> \<not> list_all printable target
         then http_reply ''400 Bad Request'' [] []
         else if \<not> host_name host then http_reply ''400 Bad Request'' [] []
         else if map_of (rc_custom c) host = None \<and> \<not> list_ex (in_zone host) (rc_apps c @ rc_domains c)
         then http_reply ''421 Misdirected Request'' [] body421
         else http_reply ''301 Moved Permanently'' (''Location: https://'' @ host @ target @ crlf) [])"

definition line_breaks :: "string \<Rightarrow> nat" where
  "line_breaks s = length (filter (\<lambda>c. c = CR \<or> c = LF) s)"

lemma line_breaks_append [simp]: "line_breaks (s @ t) = line_breaks s + line_breaks t"
  by (simp add: line_breaks_def)

lemma line_breaks_none: "list_all (\<lambda>c. c \<noteq> CR \<and> c \<noteq> LF) s \<Longrightarrow> line_breaks s = 0"
  by (induction s) (auto simp: line_breaks_def)

lemma line_breaks_crlf [simp]: "line_breaks crlf = 2"
  by (simp add: line_breaks_def crlf_def)

lemma line_breaks_words [simp]:
  "line_breaks ''HTTP/1.1 '' = 0" "line_breaks ''Connection: close'' = 0"
  "line_breaks ''Content-Type: text/plain; charset=utf-8'' = 0" "line_breaks ''Content-Length: '' = 0"
  "line_breaks ''Cache-Control: no-store'' = 0" "line_breaks ''Location: https://'' = 0"
  "line_breaks ''400 Bad Request'' = 0" "line_breaks ''421 Misdirected Request'' = 0"
  "line_breaks ''301 Moved Permanently'' = 0" "line_breaks [] = 0"
  by (simp_all add: line_breaks_def CR_def LF_def)

lemma not_breaks: "\<not> host_char CR" "\<not> host_char LF" "\<not> printable CR" "\<not> printable LF" "\<not> is_digit CR" "\<not> is_digit LF"
  by (simp_all add: host_char_def printable_def is_digit_def CR_def LF_def)

lemma line_breaks_class: "list_all P s \<Longrightarrow> \<not> P CR \<Longrightarrow> \<not> P LF \<Longrightarrow> line_breaks s = 0"
  by (rule line_breaks_none) (auto simp: list_all_iff)

lemma line_breaks_parts [simp]:
  "line_breaks (show_nat n) = 0"
  "host_name h \<Longrightarrow> line_breaks h = 0"
  "list_all printable t \<Longrightarrow> line_breaks t = 0"
  using line_breaks_class [OF show_nat_digits] line_breaks_class [of host_char h] line_breaks_class [of printable t]
    not_breaks by (auto simp: host_name_def)

lemma http_reply_breaks: "line_breaks (http_reply st ex b) = 12 + line_breaks st + line_breaks ex + line_breaks b"
  by (simp only: http_reply_def line_breaks_append line_breaks_crlf line_breaks_words line_breaks_parts)

lemma https_redirect_cases:
  obtains "https_redirect body421 c head = http_reply ''400 Bad Request'' [] []"
  | "https_redirect body421 c head = http_reply ''421 Misdirected Request'' [] body421"
  | host target where
    "https_redirect body421 c head = http_reply ''301 Moved Permanently'' (''Location: https://'' @ host @ target @ crlf) []"
    "host_name host" "list_all printable target" "hd target = CHR ''/''"
    "map_of (rc_custom c) host \<noteq> None \<or> list_ex (in_zone host) (rc_apps c @ rc_domains c)"
proof -
  define ws where "ws = split_on (CHR '' '') (hd (split_crlf head))"
  define host where "host = strip_dots (strip_port (case find (\<lambda>l. header_host l \<noteq> None) (tl (split_crlf head)) of
      Some l \<Rightarrow> the (header_host l) | None \<Rightarrow> []))"
  define bad1 where "bad1 \<longleftrightarrow> \<not> (3 \<le> length (nth_word ws 0) \<and> length (nth_word ws 0) \<le> 10 \<and> list_all upper_char (nth_word ws 0))
      \<or> \<not> (nth_word ws 2 = ''HTTP/1.0'' \<or> nth_word ws 2 = ''HTTP/1.1'')"
  define bad2 where "bad2 \<longleftrightarrow> nth_word ws 1 = [] \<or> hd (nth_word ws 1) \<noteq> CHR ''/'' \<or> \<not> list_all printable (nth_word ws 1)"
  define lost where "lost \<longleftrightarrow> map_of (rc_custom c) host = None \<and> \<not> list_ex (in_zone host) (rc_apps c @ rc_domains c)"
  note d = https_redirect_def [of body421 c head, unfolded Let_def, folded ws_def, folded host_def,
      folded bad1_def bad2_def lost_def]
  consider "bad1 \<or> bad2 \<or> \<not> host_name host" | "\<not> bad1" "\<not> bad2" "host_name host" lost
    | "\<not> bad1" "\<not> bad2" "host_name host" "\<not> lost" by blast
  then show ?thesis
  proof cases
    case 1
    then show ?thesis using that(1) unfolding d by (auto split: if_split_asm)
  next
    case 2
    then show ?thesis using that(2) unfolding d by (simp only: if_True if_False simp_thms)
  next
    case 3
    have "https_redirect body421 c head =
        http_reply ''301 Moved Permanently'' (''Location: https://'' @ host @ nth_word ws 1 @ crlf) []"
      unfolding d using 3 by (simp only: if_True if_False simp_thms)
    then show ?thesis by (rule that(3)) (use 3 in \<open>auto simp: bad2_def lost_def\<close>)
  qed
qed

text \<open>
  No request writes its own response headers. Whatever bytes the request head holds, the
  answer has exactly the header lines the source writes, six with a redirect and five without,
  and nothing of the request outside them.
\<close>
theorem redirect_answer_not_injectable:
  "line_breaks (https_redirect body421 c head) \<in> {12, 14, 12 + line_breaks body421}
   \<and> (\<exists>status extra b. https_redirect body421 c head = http_reply status extra b
        \<and> line_breaks status = 0 \<and> line_breaks extra = (if status = ''301 Moved Permanently'' then 2 else 0))"
proof (cases rule: https_redirect_cases [of body421 c head])
  case 1
  have "\<exists>status extra b. https_redirect body421 c head = http_reply status extra b
        \<and> line_breaks status = 0 \<and> line_breaks extra = (if status = ''301 Moved Permanently'' then 2 else 0)"
    unfolding 1 by (intro exI conjI, rule refl, simp, simp)
  then show ?thesis by (simp add: 1 http_reply_breaks)
next
  case 2
  have "\<exists>status extra b. https_redirect body421 c head = http_reply status extra b
        \<and> line_breaks status = 0 \<and> line_breaks extra = (if status = ''301 Moved Permanently'' then 2 else 0)"
    unfolding 2 by (intro exI conjI, rule refl, simp, simp)
  then show ?thesis by (simp add: 2 http_reply_breaks)
next
  case (3 host target)
  let ?loc = "''Location: https://'' @ host @ target @ crlf"
  have b: "line_breaks ?loc = 2"
    using 3(2,3) by (simp only: line_breaks_append line_breaks_words line_breaks_crlf line_breaks_parts)
  have "\<exists>status extra b. https_redirect body421 c head = http_reply status extra b
        \<and> line_breaks status = 0 \<and> line_breaks extra = (if status = ''301 Moved Permanently'' then 2 else 0)"
    unfolding 3(1) by (intro exI conjI, rule refl, simp only: line_breaks_words, simp only: b refl if_True)
  then show ?thesis by (simp only: 3(1) http_reply_breaks b line_breaks_words) simp
qed

section \<open>A client connection\<close>

text \<open>
  \<open>onData\<close> of \<open>handle\<close>: the bytes so far grow by a chunk and a decision is taken as soon as there
  is one. \<open>buf.toString("latin1")\<close> is one character per byte.
\<close>

datatype action = Routed route | Replied string

definition latin1 :: "8 word list \<Rightarrow> string" where
  "latin1 bs = map (\<lambda>b. char_of (unat b)) bs"

fun head_end :: "string \<Rightarrow> string option" where
  "head_end s = (if take 4 s = crlf @ crlf then Some []
     else case s of [] \<Rightarrow> None | c # cs \<Rightarrow> map_option (Cons c) (head_end cs))"

declare head_end.simps [simp del]

definition plain_http :: "nat \<Rightarrow> nat \<Rightarrow> 8 word list \<Rightarrow> bool" where
  "plain_http rport port buf \<longleftrightarrow> rport \<noteq> 0 \<and> port = rport \<and> buf \<noteq> [] \<and> unat (buf ! 0) \<noteq> 0x16"

definition on_data :: "string \<Rightarrow> nat \<Rightarrow> relay_cfg \<Rightarrow> nat \<Rightarrow> 8 word list \<Rightarrow> action option" where
  "on_data body421 rport c port buf =
     (if plain_http rport port buf then
        if length buf > 8192 then Some (Routed Refuse)
        else map_option (\<lambda>head. Replied (https_redirect body421 c head)) (head_end (latin1 buf))
      else map_option Routed (route_hello c buf port))"

fun connection :: "string \<Rightarrow> nat \<Rightarrow> relay_cfg \<Rightarrow> nat \<Rightarrow> 8 word list \<Rightarrow> 8 word list list \<Rightarrow> action option" where
  "connection body421 rport c port buf [] = None"
| "connection body421 rport c port buf (x # xs) =
     (case on_data body421 rport c port (buf @ x) of
        Some a \<Rightarrow> Some a
      | None \<Rightarrow> connection body421 rport c port (buf @ x) xs)"

lemma sni_record_decides: "sni_record d \<noteq> NeedMore"
proof -
  have "ext_scan d e k \<noteq> NeedMore" for e k
    by (induction d e k rule: ext_scan.induct)
      (subst ext_scan.simps, simp add: server_name_def Let_def split: option.splits)
  then show ?thesis by (auto simp: sni_record_def Let_def split: option.splits)
qed

lemma need_more_short: "sni_from_client_hello buf = NeedMore \<Longrightarrow> length buf < 18437"
  by (auto simp: sni_record_decides sni_from_client_hello_def Let_def split: if_splits)

lemma route_hello_None: "route_hello c buf port = None \<longleftrightarrow> sni_from_client_hello buf = NeedMore"
  using need_more_short [of buf] by (auto simp: route_hello_def split: sni.splits)

lemma route_hello_stable:
  "route_hello c buf port \<noteq> None \<Longrightarrow> route_hello c (buf @ rest) port = route_hello c buf port"
  using sni_verdict_stable [of buf rest] unfolding route_hello_None
  by (auto simp: route_hello_def split: sni.splits)

lemma connection_tls:
  assumes "buf @ concat xs = [] \<or> unat ((buf @ concat xs) ! 0) = 0x16 \<or> port \<noteq> rport"
    "route_hello c buf port = None"
  shows "connection body421 rport c port buf xs = map_option Routed (route_hello c (buf @ concat xs) port)"
  using assms
proof (induction xs arbitrary: buf)
  case (Cons x xs)
  have "(buf @ x) = [] \<or> unat ((buf @ x) ! 0) = 0x16 \<or> port \<noteq> rport"
    using Cons.prems(1) by (cases "buf @ x") (auto simp flip: append_assoc)
  then have d: "on_data body421 rport c port (buf @ x) = map_option Routed (route_hello c (buf @ x) port)"
    by (auto simp: on_data_def plain_http_def)
  show ?case
  proof (cases "route_hello c (buf @ x) port")
    case None
    with Cons.IH [of "buf @ x"] Cons.prems(1) d show ?thesis by simp
  next
    case (Some r)
    with route_hello_stable [of c "buf @ x" port "concat xs"] d show ?thesis by simp
  qed
qed simp

text \<open>
  How TCP cuts a ClientHello into segments does not matter. Over any chunks of a connection
  that is not plaintext HTTP, the relay takes the decision the whole byte string gets, and the
  20000-byte guard never fires, since the parser has decided by byte 18437.
\<close>
theorem segmentation_is_irrelevant:
  assumes "concat xs = [] \<or> unat (concat xs ! 0) = 0x16 \<or> port \<noteq> rport"
  shows "connection body421 rport c port [] xs = map_option Routed (route_hello c (concat xs) port)
   \<and> (18437 \<le> length (concat xs) \<longrightarrow> connection body421 rport c port [] xs \<noteq> None)"
proof -
  have "route_hello c [] port = None" by (simp add: route_hello_def sni_from_client_hello_def)
  with connection_tls [of "[]" xs port rport c body421] assms
  have "connection body421 rport c port [] xs = map_option Routed (route_hello c (concat xs) port)"
    by simp
  moreover have "18437 \<le> length (concat xs) \<Longrightarrow> route_hello c (concat xs) port \<noteq> None"
    using need_more_short [of "concat xs"] unfolding route_hello_None by linarith
  ultimately show ?thesis by simp
qed

theorem segmentation_is_irrelevant_witness:
  "connection ''no'' 80 demo_relay 443 [] [[0x16], [3, 1, 0], [1, 9]] = Some (Routed Refuse)"
proof -
  have "route_hello demo_relay [0x16, 3, 1, 0, 1, 9] 443 = Some Refuse" by code_simp
  then show ?thesis
    using segmentation_is_irrelevant [of "[[0x16], [3, 1, 0], [1, 9]]" 443 80 "''no''" demo_relay] by simp
qed

section \<open>Which enclave serves an app name\<close>

text \<open>
  \<open>appOwnerOf\<close>. A lookup sees the time in ms, the live origins, the endpoint of the on-chain lease
  holder, whether the label is an ambiguous prefix on the ledger and which origins answer other
  than 404 for the label. The cache keeps the origin, the time and whether it came by lease.
\<close>

record owner_query =
  oq_label :: string
  oq_now :: int
  oq_origins :: "string list"
  oq_lease :: "string option"
  oq_ambiguous :: bool
  oq_answers :: "string \<Rightarrow> bool"

type_synonym owner_cache = "string \<rightharpoonup> string \<times> int \<times> bool"

definition APP_OWNER_TTL_MS :: int where "APP_OWNER_TTL_MS = 5 * 60000"

definition probe_owner :: "owner_query \<Rightarrow> owner_cache \<Rightarrow> string option \<times> owner_cache" where
  "probe_owner q cache =
     (if oq_ambiguous q then (None, cache)
      else (case find (oq_answers q) (oq_origins q) of
              Some o0 \<Rightarrow> (Some o0, cache(oq_label q \<mapsto> (o0, oq_now q, False)))
            | None \<Rightarrow> (None, cache)))"

definition lookup_owner :: "owner_query \<Rightarrow> owner_cache \<Rightarrow> string option \<times> owner_cache" where
  "lookup_owner q cache =
     (case oq_lease q of
        Some o0 \<Rightarrow> (Some o0, cache(oq_label q \<mapsto> (o0, oq_now q, o0 \<notin> set (oq_origins q))))
      | None \<Rightarrow> probe_owner q cache)"

definition app_owner_of :: "owner_query \<Rightarrow> owner_cache \<Rightarrow> string option \<times> owner_cache" where
  "app_owner_of q cache =
     (case cache (oq_label q) of
        Some (o0, at, byLease) \<Rightarrow>
          if oq_now q - at < APP_OWNER_TTL_MS \<and> (byLease \<or> o0 \<in> set (oq_origins q)) then (Some o0, cache)
          else lookup_owner q cache
      | None \<Rightarrow> lookup_owner q cache)"

text \<open>What entitles an origin to a label at a lookup.\<close>

definition entitled :: "owner_query \<Rightarrow> string \<Rightarrow> bool" where
  "entitled q o0 \<longleftrightarrow> oq_lease q = Some o0
     \<or> oq_lease q = None \<and> \<not> oq_ambiguous q \<and> o0 \<in> set (oq_origins q) \<and> oq_answers q o0"

definition backed :: "owner_query list \<Rightarrow> owner_cache \<Rightarrow> bool" where
  "backed qs cache \<longleftrightarrow> (\<forall>l o0 at b. cache l = Some (o0, at, b) \<longrightarrow>
     (\<exists>q \<in> set qs. oq_label q = l \<and> oq_now q = at \<and> entitled q o0))"

lemma lookup_owner_entitled:
  assumes "backed qs cache" "lookup_owner q cache = (r, cache')"
  shows "backed (qs @ [q]) cache' \<and> (\<forall>o0. r = Some o0 \<longrightarrow> entitled q o0)"
proof -
  have "entitled q o0" if "r = Some o0" for o0
    using that assms(2)
    by (auto simp: lookup_owner_def probe_owner_def entitled_def find_Some_iff split: option.splits if_splits)
  moreover have "cache' = cache \<or> (\<exists>o0 b. r = Some o0 \<and> cache' = cache(oq_label q \<mapsto> (o0, oq_now q, b)))"
  proof (cases "oq_lease q")
    case None
    have "lookup_owner q cache = (None, cache) \<or>
        (\<exists>o0. lookup_owner q cache = (Some o0, cache(oq_label q \<mapsto> (o0, oq_now q, False))))"
      by (simp add: None lookup_owner_def probe_owner_def split: option.split)
    then show ?thesis unfolding assms(2) by (metis prod.inject)
  next
    case (Some o0)
    then have "lookup_owner q cache = (Some o0, cache(oq_label q \<mapsto> (o0, oq_now q, o0 \<notin> set (oq_origins q))))"
      by (simp add: lookup_owner_def)
    then show ?thesis unfolding assms(2) by blast
  qed
  ultimately show ?thesis
    using assms(1) unfolding backed_def by (elim disjE exE conjE) (auto split: if_splits; blast)+
qed

lemma app_owner_of_backed:
  assumes "backed qs cache"
  shows "backed (qs @ [q]) (snd (app_owner_of q cache))
     \<and> (\<forall>o0. fst (app_owner_of q cache) = Some o0 \<longrightarrow> entitled q o0 \<or>
          (\<exists>q0 \<in> set qs. oq_label q0 = oq_label q \<and> oq_now q - oq_now q0 < APP_OWNER_TTL_MS \<and> entitled q0 o0))"
proof -
  have w: "backed (qs @ [q]) cache" using assms by (auto simp: backed_def; blast)
  obtain r cache' where l: "lookup_owner q cache = (r, cache')" by (cases "lookup_owner q cache")
  show ?thesis
  proof (cases "app_owner_of q cache = lookup_owner q cache")
    case True
    with lookup_owner_entitled [OF assms l] l show ?thesis by simp
  next
    case False
    then obtain o0 at b where e: "cache (oq_label q) = Some (o0, at, b)" "oq_now q - at < APP_OWNER_TTL_MS"
      and a: "app_owner_of q cache = (Some o0, cache)"
      by (auto simp: app_owner_of_def split: option.splits if_splits)
    from assms e obtain q0 where "q0 \<in> set qs" "oq_label q0 = oq_label q" "oq_now q0 = at" "entitled q0 o0"
      unfolding backed_def by blast
    with a e(2) w show ?thesis by auto
  qed
qed

definition owner_cache_after :: "owner_query list \<Rightarrow> owner_cache" where
  "owner_cache_after qs = foldl (\<lambda>cache q. snd (app_owner_of q cache)) (\<lambda>_. None) qs"

lemma owner_cache_backed: "backed qs (owner_cache_after qs)"
proof (induction qs rule: rev_induct)
  case Nil
  then show ?case by (simp add: owner_cache_after_def backed_def)
next
  case (snoc q qs)
  from app_owner_of_backed [OF snoc, of q] show ?case by (simp add: owner_cache_after_def)
qed

text \<open>
  The enclave a name is spliced to earned it within five minutes. After any lookups, an origin
  returned for a label held the on-chain lease, or, with no lease and an unambiguous label, was a
  live fleet origin that answered for it, at this lookup or at one of the same label less than five
  minutes before. A prefix that names two deployments is never settled by the probe.
\<close>
theorem app_owner_is_entitled:
  assumes "fst (app_owner_of q (owner_cache_after qs)) = Some o0"
  shows "\<exists>q0 \<in> set (qs @ [q]). oq_label q0 = oq_label q \<and> oq_now q - oq_now q0 < 300000
     \<and> (oq_lease q0 = Some o0 \<or> oq_lease q0 = None \<and> \<not> oq_ambiguous q0 \<and> o0 \<in> set (oq_origins q0) \<and> oq_answers q0 o0)"
  using app_owner_of_backed [OF owner_cache_backed, of qs q] assms
  by (auto simp: entitled_def APP_OWNER_TTL_MS_def; blast)

definition demo_query :: "int \<Rightarrow> bool \<Rightarrow> owner_query" where
  "demo_query t amb = \<lparr>oq_label = ''0xaaaaaaaa'', oq_now = t, oq_origins = [''E1'', ''E2''], oq_lease = None,
     oq_ambiguous = amb, oq_answers = (\<lambda>o0. o0 = ''E2'')\<rparr>"

theorem app_owner_is_entitled_witness:
  "fst (app_owner_of (demo_query 1000 True) (owner_cache_after [demo_query 0 False])) = Some ''E2''
   \<and> (\<exists>q0 \<in> {demo_query 0 False, demo_query 1000 True}. \<not> oq_ambiguous q0)"
proof -
  have r: "fst (app_owner_of (demo_query 1000 True) (owner_cache_after [demo_query 0 False])) = Some ''E2''"
    by (simp add: owner_cache_after_def app_owner_of_def lookup_owner_def probe_owner_def demo_query_def
        APP_OWNER_TTL_MS_def)
  moreover have "oq_lease q0 = None" if "q0 \<in> set [demo_query 0 False, demo_query 1000 True]" for q0
    using that by (auto simp: demo_query_def)
  ultimately show ?thesis
    using app_owner_is_entitled [OF r] by auto
qed

section \<open>The ports to listen on\<close>

text \<open>An entry of \<open>RELAY_PORTS\<close> is \<open>lo-hi\<close> or \<open>public[:logical]\<close>; a bad entry is fatal, here \<^term>\<open>None\<close>.\<close>

record port_entry =
  pe_public :: nat
  pe_logical :: nat
  pe_quiet :: bool

definition port_digits :: "string \<Rightarrow> bool" where
  "port_digits s \<longleftrightarrow> digit_str s \<and> length s \<le> 5"

definition entry_ports :: "nat list \<Rightarrow> string \<Rightarrow> port_entry list option" where
  "entry_ports exclude s =
     (case map js_trim (split_on (CHR ''-'') s) of
        [a, b] \<Rightarrow>
          if port_digits a \<and> port_digits b then
            Some (map (\<lambda>p. \<lparr>pe_public = p, pe_logical = p, pe_quiet = True\<rparr>)
              (filter (\<lambda>p. p \<notin> set exclude) [digits_val a..<Suc (digits_val b)]))
          else None
      | _ \<Rightarrow>
          (case split_on (CHR '':'') (js_trim s) of
             [a] \<Rightarrow> if port_digits a then Some [\<lparr>pe_public = digits_val a, pe_logical = digits_val a, pe_quiet = False\<rparr>]
                     else None
           | [a, b] \<Rightarrow> if port_digits a \<and> port_digits b
                        then Some [\<lparr>pe_public = digits_val a, pe_logical = digits_val b, pe_quiet = False\<rparr>] else None
           | _ \<Rightarrow> None))"

definition relay_ports :: "nat list \<Rightarrow> string \<Rightarrow> port_entry list option" where
  "relay_ports exclude s =
     (let es = map (entry_ports exclude) (split_on (CHR '','') s)
      in if list_all (\<lambda>e. e \<noteq> None) es then Some (concat (map the es)) else None)"

lemma ranges_skip_excluded:
  assumes "relay_ports exclude s = Some ps" "p \<in> set ps" "pe_quiet p"
  shows "pe_public p \<notin> set exclude \<and> pe_logical p = pe_public p"
proof -
  from assms(1,2) obtain e qs where e: "entry_ports exclude e = Some qs" "p \<in> set qs"
    by (fastforce simp: relay_ports_def Let_def list_all_iff split: if_splits)
  with assms(3) show ?thesis
    by (auto simp: entry_ports_def split: list.splits if_splits)
qed

end
