(* ===== verification/Autoscale.thy ===== *)
theory Autoscale
  imports Js_Prelude Complex_Main
begin

text \<open>
  The demand-driven fleet scaler of \<open>scripts/autoscale.mjs\<close>: the demand read from the ledger and
  the relay, the planner \<open>decide\<close>, the filter \<open>plan\<close> runs on its actions, and \<open>apply\<close>. Shares and
  dollars are exact rationals here and doubles in the code; ages are seconds, \<^term>\<open>None\<close> standing
  for \<open>Infinity\<close>. The controlplane, the relay and GitHub answer as arguments.
\<close>

section \<open>The snapshot\<close>

datatype flavor = Gpu | Cpu | Gpu8

definition flavor_name :: "flavor \<Rightarrow> string" where
  "flavor_name f = (case f of Gpu \<Rightarrow> ''gpu'' | Cpu \<Rightarrow> ''cpu'' | Gpu8 \<Rightarrow> ''gpu8'')"

record scale_cfg =
  sc_dwell :: int
  sc_minFunded :: int
  sc_minUsd :: "flavor \<Rightarrow> rat"
  sc_minUnmet :: "flavor \<Rightarrow> rat"
  sc_horizon :: int
  sc_maxAuto :: "flavor \<Rightarrow> nat"
  sc_allowCreate :: bool
  sc_quota :: nat
  sc_cooldown :: int
  sc_idleStop :: int
  sc_hintMax :: nat
  sc_consolidate :: bool
  sc_evacMin :: int
  sc_bootTimeout :: int
  sc_trustTimeout :: int

definition CFG :: scale_cfg where
  "CFG = \<lparr>sc_dwell = 600, sc_minFunded = 3600, sc_minUsd = (\<lambda>f. if f = Gpu then 4 else 3 / 2),
     sc_minUnmet = (\<lambda>f. if f = Gpu then 1 / 10 else 1 / 4), sc_horizon = 86400, sc_maxAuto = (\<lambda>_. 1),
     sc_allowCreate = False, sc_quota = 10, sc_cooldown = 1800, sc_idleStop = 2700, sc_hintMax = 10,
     sc_consolidate = True, sc_evacMin = 1800, sc_bootTimeout = 1500, sc_trustTimeout = 420\<rparr>"

text \<open>A ledger record, the fields the scaler reads.\<close>

record ledger_row =
  lr_id :: string
  lr_gpuMilli :: nat
  lr_cpuMilli :: nat
  lr_active :: bool
  lr_createdAt :: int
  lr_rate :: int
  lr_balance6 :: int
  lr_runner :: string
  lr_leaseUntil :: int

record candidate =
  cd_id :: string
  cd_flavor :: flavor
  cd_gpu :: rat
  cd_cpu :: rat
  cd_rate :: int
  cd_funded :: int
  cd_age :: int
  cd_structural :: bool
  cd_inflight :: bool

definition row_flavor :: "ledger_row \<Rightarrow> flavor" where
  "row_flavor d = (if lr_gpuMilli d > 0 then Gpu else Cpu)"

definition milli :: "nat \<Rightarrow> rat" where
  "milli n = of_nat n / 1000"

definition to_candidate :: "int \<Rightarrow> ledger_row \<Rightarrow> candidate option" where
  "to_candidate now d =
     (if \<not> lr_active d \<or> lr_rate d \<le> 0 then None
      else if lr_balance6 d < lr_rate d then None
      else if lr_leaseUntil d \<ge> now then None
      else Some \<lparr>cd_id = lr_id d, cd_flavor = row_flavor d, cd_gpu = milli (lr_gpuMilli d),
        cd_cpu = milli (lr_cpuMilli d), cd_rate = lr_rate d, cd_funded = lr_balance6 d div lr_rate d,
        cd_age = max 0 (now - lr_createdAt d), cd_structural = False, cd_inflight = False\<rparr>)"

text \<open>A row of the relay's \<open>/enclaves\<close> and the capacity it counts for. \<open>rid\<close> is the registry id of an endpoint.\<close>

record relay_row =
  rr_endpoint :: string
  rr_claimEnabled :: "bool option"
  rr_tunnel :: bool
  rr_gpu :: bool
  rr_gpuFree :: rat
  rr_cpuFree :: rat

record capacity =
  cp_gpu :: bool
  cp_gpuFree :: rat
  cp_cpuFree :: rat
  cp_endpoint :: string
  cp_runner :: "string option"

definition claims :: "relay_row \<Rightarrow> bool" where
  "claims e \<longleftrightarrow> rr_claimEnabled e \<noteq> Some False \<and> (\<not> rr_tunnel e \<or> rr_claimEnabled e = Some True)"

definition capacities :: "(string \<Rightarrow> string) \<Rightarrow> relay_row list \<Rightarrow> capacity list" where
  "capacities rid rows =
     map (\<lambda>e. \<lparr>cp_gpu = rr_gpu e, cp_gpuFree = rr_gpuFree e, cp_cpuFree = rr_cpuFree e,
        cp_endpoint = rr_endpoint e,
        cp_runner = (if rr_endpoint e \<noteq> [] then Some (to_lower (rid (rr_endpoint e))) else None)\<rparr>)
       (filter claims rows)"

record container =
  ct_name :: string
  ct_status :: string
  ct_tag :: string
  ct_domain :: string
  ct_staging :: bool
  ct_flavor :: "flavor option"
  ct_auto :: bool
  ct_createdAgo :: "int option"
  ct_runner :: "string option"

definition auto_number :: "string \<Rightarrow> string \<Rightarrow> bool" where
  "auto_number pre n \<longleftrightarrow> (case strip_prefix pre n of Some ds \<Rightarrow> digit_str ds | None \<Rightarrow> False)"

definition auto_flavor :: "string \<Rightarrow> flavor option" where
  "auto_flavor n = (if auto_number ''auto-gpu-'' n then Some Gpu
     else if auto_number ''auto-cpu-'' n then Some Cpu else None)"

definition flavor_of_tag :: "string \<Rightarrow> flavor option" where
  "flavor_of_tag t = (if t = [] then None else if suffix ''-cpu'' t then Some Cpu
     else if suffix ''-gpu8'' t then Some Gpu8 else Some Gpu)"

definition to_container ::
  "(string \<Rightarrow> string) \<Rightarrow> int \<Rightarrow> string \<Rightarrow> string \<Rightarrow> string \<Rightarrow> string \<Rightarrow> bool \<Rightarrow> int option \<Rightarrow> container" where
  "to_container rid now n status tag domain staging createdAt =
     \<lparr>ct_name = n, ct_status = to_lower status, ct_tag = tag, ct_domain = domain, ct_staging = staging,
      ct_flavor = (if auto_flavor n \<noteq> None then auto_flavor n else flavor_of_tag tag),
      ct_auto = (auto_flavor n \<noteq> None),
      ct_createdAgo = map_option (\<lambda>t. max 0 (now - t)) createdAt,
      ct_runner = (if domain \<noteq> [] then Some (to_lower (rid (''https://'' @ domain))) else None)\<rparr>"

record tenancy =
  tn_id :: string
  tn_runner :: string
  tn_flavor :: flavor
  tn_gpu :: rat
  tn_cpu :: rat
  tn_remaining :: int

definition to_tenancy :: "int \<Rightarrow> ledger_row \<Rightarrow> tenancy" where
  "to_tenancy now d =
     \<lparr>tn_id = lr_id d, tn_runner = to_lower (lr_runner d), tn_flavor = row_flavor d,
      tn_gpu = milli (lr_gpuMilli d), tn_cpu = milli (lr_cpuMilli d),
      tn_remaining = (lr_leaseUntil d - now)
        + (if lr_rate d > 0 then lr_balance6 d div lr_rate d else 0)\<rparr>"

definition hosted_rows :: "int \<Rightarrow> ledger_row list \<Rightarrow> tenancy list" where
  "hosted_rows now rows = map (to_tenancy now) (filter (\<lambda>d. lr_active d \<and> lr_leaseUntil d > now) rows)"

text \<open>What \<open>/v1/claim-hint\<close> said of a candidate.\<close>

datatype hint = Accepted | Reason string | NoHint

definition js_includes :: "string \<Rightarrow> string \<Rightarrow> bool" where
  "js_includes s t \<longleftrightarrow> list_ex (\<lambda>k. take (length t) (drop k s) = t) [0..<Suc (length s)]"

definition structural_reason :: "string \<Rightarrow> bool" where
  "structural_reason r \<longleftrightarrow> list_ex (js_includes (to_lower r))
     [''below the app's minimum'', ''deactivated'', ''configcid is retired'', ''deployment options refused'',
      ''not deployable'', ''port spec is not servable'', ''out of funded time'',
      ''under-declares the app's publisher fee'', ''charges a publisher fee'']"

definition hinted :: "hint \<Rightarrow> candidate \<Rightarrow> candidate" where
  "hinted h c = (case h of Accepted \<Rightarrow> c\<lparr>cd_inflight := True\<rparr>
     | Reason r \<Rightarrow> if structural_reason r then c\<lparr>cd_structural := True\<rparr> else c
     | NoHint \<Rightarrow> c)"

definition past_gates :: "scale_cfg \<Rightarrow> candidate \<Rightarrow> bool" where
  "past_gates cfg c \<longleftrightarrow> cd_age c \<ge> sc_dwell cfg \<and> cd_funded c \<ge> sc_minFunded cfg"

text \<open>At most \<open>hintMax\<close> of the gated candidates are asked about.\<close>

fun classify_by_hint :: "scale_cfg \<Rightarrow> (string \<Rightarrow> hint) \<Rightarrow> nat \<Rightarrow> candidate list \<Rightarrow> candidate list" where
  "classify_by_hint cfg hints n [] = []"
| "classify_by_hint cfg hints n (c # cs) =
     (if past_gates cfg c \<and> n > 0
      then hinted (hints (cd_id c)) c # classify_by_hint cfg hints (n - 1) cs
      else c # classify_by_hint cfg hints n cs)"

record fleet_view =
  sn_now :: int
  sn_candidates :: "candidate list"
  sn_enclaves :: "capacity list"
  sn_containers :: "container list"
  sn_health :: "string \<Rightarrow> int option option"
  sn_relayDomains :: "string list"
  sn_relayOk :: bool
  sn_leases :: "(string \<times> int) list"
  sn_lastAction :: "flavor \<Rightarrow> int option"
  sn_hosted :: "tenancy list"

text \<open>
  \<open>buildSnapshot\<close>: the relay's answer is \<^term>\<open>None\<close> when it could not be reached. \<open>health\<close> is the
  answer of each running auto container and \<open>stamps\<close> the stamped time of the last action.
\<close>

definition build_snapshot ::
  "scale_cfg \<Rightarrow> (string \<Rightarrow> string) \<Rightarrow> int \<Rightarrow> ledger_row list \<Rightarrow> relay_row list option \<Rightarrow> (string \<Rightarrow> hint)
   \<Rightarrow> container list \<Rightarrow> (string \<Rightarrow> int option option) \<Rightarrow> (flavor \<Rightarrow> int) \<Rightarrow> fleet_view" where
  "build_snapshot cfg rid now rows relay hints cts health stamps =
     (let enclaves = (case relay of None \<Rightarrow> [] | Some rs \<Rightarrow> capacities rid rs);
          cands = List.map_filter (to_candidate now) rows
      in \<lparr>sn_now = now,
          sn_candidates = (if enclaves \<noteq> [] then classify_by_hint cfg hints (sc_hintMax cfg) cands else cands),
          sn_enclaves = enclaves, sn_containers = cts, sn_health = health,
          sn_relayDomains = filter (\<lambda>d. d \<noteq> []) (map (\<lambda>e. to_lower (cp_endpoint e)) enclaves),
          sn_relayOk = (relay \<noteq> None),
          sn_leases = map (\<lambda>d. (to_lower (lr_runner d), lr_leaseUntil d)) rows,
          sn_lastAction = (\<lambda>f. if stamps f > 0 then Some (max 0 (now - stamps f)) else None),
          sn_hosted = hosted_rows now rows\<rparr>)"

section \<open>The planner\<close>

definition servable :: "fleet_view \<Rightarrow> candidate \<Rightarrow> bool" where
  "servable s c \<longleftrightarrow>
     (if cd_flavor c = Gpu
      then list_ex (\<lambda>e. cp_gpu e \<and> cp_gpuFree e \<ge> cd_gpu c \<and> cp_cpuFree e \<ge> cd_cpu c) (sn_enclaves s)
      else list_ex (\<lambda>e. cp_cpuFree e \<ge> cd_cpu c) (sn_enclaves s))"

definition unserved :: "scale_cfg \<Rightarrow> fleet_view \<Rightarrow> candidate \<Rightarrow> bool" where
  "unserved cfg s c \<longleftrightarrow> past_gates cfg c \<and> \<not> cd_structural c \<and> \<not> cd_inflight c \<and> \<not> servable s c"

definition demand_rows :: "scale_cfg \<Rightarrow> fleet_view \<Rightarrow> flavor \<Rightarrow> candidate list" where
  "demand_rows cfg s f = filter (\<lambda>c. cd_flavor c = f) (filter (unserved cfg s) (sn_candidates s))"

record demand =
  dm_count :: nat
  dm_unmet :: rat
  dm_usd :: rat
  dm_ids :: "string list"

definition want_share :: "flavor \<Rightarrow> candidate \<Rightarrow> rat" where
  "want_share f c = (if f = Gpu then cd_gpu c else cd_cpu c)"

definition committed6 :: "scale_cfg \<Rightarrow> candidate \<Rightarrow> int" where
  "committed6 cfg c = min (cd_funded c) (sc_horizon cfg) * cd_rate c"

definition demand_of :: "scale_cfg \<Rightarrow> fleet_view \<Rightarrow> flavor \<Rightarrow> demand" where
  "demand_of cfg s f =
     (let rows = demand_rows cfg s f
      in \<lparr>dm_count = length rows, dm_unmet = foldl (\<lambda>a c. a + want_share f c) 0 rows,
          dm_usd = of_int (foldl (\<lambda>a c. a + committed6 cfg c) 0 rows) / 1000000, dm_ids = map cd_id rows\<rparr>)"

definition halted :: "string \<Rightarrow> bool" where
  "halted st \<longleftrightarrow> st = ''stopped'' \<or> st = ''stopping'' \<or> st = ''failed''"

definition auto_of :: "fleet_view \<Rightarrow> flavor \<Rightarrow> container list" where
  "auto_of s f = filter (\<lambda>c. ct_auto c \<and> \<not> ct_staging c \<and> ct_flavor c = Some f) (sn_containers s)"

definition running_of :: "fleet_view \<Rightarrow> flavor \<Rightarrow> container list" where
  "running_of s f = filter (\<lambda>c. \<not> halted (ct_status c)) (auto_of s f)"

text \<open>Ages with \<open>Infinity\<close>.\<close>

definition min_age :: "int option \<Rightarrow> int option \<Rightarrow> int option" where
  "min_age a b = (case a of None \<Rightarrow> b | Some x \<Rightarrow> (case b of None \<Rightarrow> Some x | Some y \<Rightarrow> Some (min x y)))"

definition cool_age :: "fleet_view \<Rightarrow> flavor \<Rightarrow> int option" where
  "cool_age s f = foldl min_age (sn_lastAction s f) (map ct_createdAgo (auto_of s f))"

definition cooling :: "scale_cfg \<Rightarrow> fleet_view \<Rightarrow> flavor \<Rightarrow> bool" where
  "cooling cfg s f \<longleftrightarrow> (case cool_age s f of Some a \<Rightarrow> a < sc_cooldown cfg | None \<Rightarrow> False)"

definition want_up :: "scale_cfg \<Rightarrow> fleet_view \<Rightarrow> flavor \<Rightarrow> bool" where
  "want_up cfg s f \<longleftrightarrow> sn_relayOk s \<and> dm_unmet (demand_of cfg s f) \<ge> sc_minUnmet cfg f
     \<and> dm_usd (demand_of cfg s f) \<ge> sc_minUsd cfg f"

definition tagged_running :: "container \<Rightarrow> bool" where
  "tagged_running c \<longleftrightarrow> \<not> halted (ct_status c) \<and> ct_tag c \<noteq> []"

definition fleet_tag :: "container list \<Rightarrow> flavor \<Rightarrow> string option \<times> bool" where
  "fleet_tag cts f =
     (case (case find (\<lambda>c. ct_flavor c = Some f \<and> \<not> ct_auto c \<and> tagged_running c) cts of
              Some c \<Rightarrow> Some c
            | None \<Rightarrow> find (\<lambda>c. ct_flavor c = Some f \<and> tagged_running c) cts) of
        Some c \<Rightarrow> (Some (ct_tag c), False)
      | None \<Rightarrow>
          (if f = Cpu
           then (case find (\<lambda>c. ct_flavor c = Some Gpu \<and> tagged_running c) cts of
                   Some g \<Rightarrow> (Some (ct_tag g @ ''-cpu''), True)
                 | None \<Rightarrow> (None, False))
           else (None, False)))"

datatype scale_action =
    Start string flavor "string option" bool
  | Create string flavor "string option" bool
  | Stop string flavor
  | Evacuate string flavor "string list" string

datatype scale_warning =
    RelayUnreachable
  | CoolingDown flavor
  | CapReached flavor
  | CreateDisabled flavor
  | OrgQuota flavor
  | BelowThresholds flavor
  | Untrusted string
  | NoContainers flavor
  | NoBaselineTag scale_action
  | TagNotReleased scale_action

primrec action_flavor :: "scale_action \<Rightarrow> flavor" where
  "action_flavor (Start n f t d) = f"
| "action_flavor (Create n f t d) = f"
| "action_flavor (Stop n f) = f"
| "action_flavor (Evacuate n f m t) = f"

text \<open>\<open>name.match(/-(\d+)$/)\<close>, 0 without a match.\<close>

definition trailing_number :: "string \<Rightarrow> nat" where
  "trailing_number n =
     (let r = rev n; ds = takeWhile is_digit r; t = dropWhile is_digit r
      in if ds \<noteq> [] \<and> t \<noteq> [] \<and> hd t = CHR ''-'' then digits_val (rev ds) else 0)"

definition next_name :: "fleet_view \<Rightarrow> flavor \<Rightarrow> string" where
  "next_name s f = ''auto-'' @ flavor_name f @ ''-''
     @ show_nat (1 + foldl max 0 (map (\<lambda>c. trailing_number (ct_name c)) (auto_of s f)))"

definition scale_up :: "scale_cfg \<Rightarrow> fleet_view \<Rightarrow> flavor \<Rightarrow> scale_action list \<times> scale_warning list" where
  "scale_up cfg s f =
     (if want_up cfg s f then
        if cooling cfg s f then ([], [CoolingDown f])
        else if length (running_of s f) \<ge> sc_maxAuto cfg f then ([], [CapReached f])
        else let (tag, derived) = fleet_tag (sn_containers s) f
             in (case find (\<lambda>c. ct_status c = ''stopped'') (auto_of s f) of
                   Some c \<Rightarrow> ([Start (ct_name c) f tag derived], [])
                 | None \<Rightarrow>
                     if \<not> sc_allowCreate cfg then ([], [CreateDisabled f])
                     else if length (sn_containers s) \<ge> sc_quota cfg then ([], [OrgQuota f])
                     else ([Create (next_name s f) f tag derived], []))
      else ([], if dm_count (demand_of cfg s f) > 0 then [BelowThresholds f] else []))"

definition last_lease :: "fleet_view \<Rightarrow> container \<Rightarrow> int" where
  "last_lease s c = foldl max 0 (map snd (filter (\<lambda>l. Some (fst l) = ct_runner c) (sn_leases s)))"

definition idle_age :: "fleet_view \<Rightarrow> container \<Rightarrow> int option" where
  "idle_age s c = (if last_lease s c > 0 then Some (sn_now s - last_lease s c) else ct_createdAgo c)"

definition idle :: "scale_cfg \<Rightarrow> fleet_view \<Rightarrow> container \<Rightarrow> bool" where
  "idle cfg s c \<longleftrightarrow> sn_health s (ct_name c) = Some (Some 0)
     \<and> (case idle_age s c of Some a \<Rightarrow> a \<ge> sc_idleStop cfg | None \<Rightarrow> True)"

definition scale_down :: "scale_cfg \<Rightarrow> fleet_view \<Rightarrow> flavor \<Rightarrow> scale_action list" where
  "scale_down cfg s f =
     (if sn_relayOk s \<and> \<not> want_up cfg s f \<and> dm_count (demand_of cfg s f) = 0 \<and> sn_relayDomains s \<noteq> []
         \<and> \<not> cooling cfg s f
      then map (\<lambda>c. Stop (ct_name c) f) (filter (idle cfg s) (running_of s f)) else [])"

definition tenants_of :: "fleet_view \<Rightarrow> container \<Rightarrow> tenancy list" where
  "tenants_of s c = filter (\<lambda>h. Some (tn_runner h) = ct_runner c \<and> tn_flavor h \<noteq> Gpu8) (sn_hosted s)"

definition need :: "(tenancy \<Rightarrow> rat) \<Rightarrow> tenancy list \<Rightarrow> rat" where
  "need g ts = foldl (\<lambda>a t. a + g t) 0 ts"

definition fits :: "flavor \<Rightarrow> container \<Rightarrow> tenancy list \<Rightarrow> capacity \<Rightarrow> bool" where
  "fits f src ts e \<longleftrightarrow> cp_runner e \<noteq> None \<and> cp_runner e \<noteq> ct_runner src
     \<and> (f \<noteq> Gpu \<or> cp_gpu e \<and> cp_gpuFree e \<ge> need tn_gpu ts + 1 / 100)
     \<and> cp_cpuFree e \<ge> need tn_cpu ts + 1 / 100"

fun evacuation :: "scale_cfg \<Rightarrow> fleet_view \<Rightarrow> flavor \<Rightarrow> container list \<Rightarrow> scale_action list" where
  "evacuation cfg s f [] = []"
| "evacuation cfg s f (src # srcs) =
     (let ts = tenants_of s src
      in if ts = [] then evacuation cfg s f srcs
         else if list_ex (\<lambda>t. tn_remaining t < sc_evacMin cfg) ts then evacuation cfg s f srcs
         else (case find (fits f src ts) (sn_enclaves s) of
                 None \<Rightarrow> evacuation cfg s f srcs
               | Some e \<Rightarrow> [Evacuate (ct_name src) f (map tn_id ts) (cp_endpoint e)]))"

definition consolidation :: "scale_cfg \<Rightarrow> fleet_view \<Rightarrow> flavor \<Rightarrow> scale_action list \<Rightarrow> scale_action list" where
  "consolidation cfg s f acts =
     (if sc_consolidate cfg \<and> sn_relayOk s \<and> \<not> want_up cfg s f \<and> dm_count (demand_of cfg s f) = 0
         \<and> \<not> cooling cfg s f \<and> \<not> list_ex (\<lambda>a. action_flavor a = f) acts
      then evacuation cfg s f (running_of s f) else [])"

definition trust_warnings :: "fleet_view \<Rightarrow> flavor \<Rightarrow> scale_warning list" where
  "trust_warnings s f =
     map (\<lambda>c. Untrusted (ct_name c))
       (filter (\<lambda>c. ct_domain c \<noteq> [] \<and> sn_relayDomains s \<noteq> []
            \<and> \<not> list_ex (\<lambda>d. js_includes d (to_lower (ct_domain c))) (sn_relayDomains s)) (running_of s f))"

definition decide_flavor ::
  "scale_cfg \<Rightarrow> fleet_view \<Rightarrow> scale_action list \<times> scale_warning list \<Rightarrow> flavor \<Rightarrow> scale_action list \<times> scale_warning list" where
  "decide_flavor cfg s aw f =
     (let (acts, warns) = aw; (up, w1) = scale_up cfg s f;
          acts2 = acts @ up @ scale_down cfg s f;
          acts3 = acts2 @ consolidation cfg s f acts2;
          warns2 = warns @ w1 @ trust_warnings s f
      in (acts3,
          if list_ex (\<lambda>c. ct_flavor c = Some f \<and> \<not> ct_staging c) (sn_containers s)
             \<or> dm_count (demand_of cfg s f) = 0 \<or> list_ex (\<lambda>a. action_flavor a = f) acts3
          then warns2 else warns2 @ [NoContainers f]))"

definition decide :: "scale_cfg \<Rightarrow> fleet_view \<Rightarrow> scale_action list \<times> scale_warning list" where
  "decide cfg s = foldl (decide_flavor cfg s) ([], if sn_relayOk s then [] else [RelayUnreachable]) [Gpu, Cpu]"

section \<open>What the planner guarantees\<close>

lemma foldl_plus_sum: "foldl (\<lambda>a x. a + g x) (z :: 'a :: comm_monoid_add) xs = z + sum_list (map g xs)"
  by (induction xs arbitrary: z) (simp_all add: add.assoc)

lemma foldl_max_ge: "(x :: nat) \<in> set xs \<or> x \<le> z \<Longrightarrow> x \<le> foldl max z xs"
  by (induction xs arbitrary: z) (simp, fastforce)

lemma trailing_number_dash: "trailing_number (p @ CHR ''-'' # show_nat k) = k"
proof -
  have d: "\<forall>x \<in> set (rev (show_nat k)). is_digit x"
    using show_nat_digits [of k] by (simp add: list_all_iff)
  have n: "\<not> is_digit (CHR ''-'')" by (simp add: is_digit_def)
  have "show_nat k \<noteq> []"
    by (subst show_nat.simps) simp
  moreover have "takeWhile is_digit (rev (show_nat k) @ CHR ''-'' # rev p) = rev (show_nat k)"
    "dropWhile is_digit (rev (show_nat k) @ CHR ''-'' # rev p) = CHR ''-'' # rev p"
    using takeWhile_append2 [of "rev (show_nat k)" is_digit "CHR ''-'' # rev p"]
      dropWhile_append2 [of "rev (show_nat k)" is_digit "CHR ''-'' # rev p"] d n by simp_all
  ultimately show ?thesis using n by (simp add: trailing_number_def Let_def)
qed

lemma trailing_number_next: "trailing_number (''auto-'' @ flavor_name f @ ''-'' @ show_nat k) = k"
  using trailing_number_dash [of "''auto-'' @ flavor_name f" k] by simp

lemma next_name_fresh: "c \<in> set (auto_of s f) \<Longrightarrow> ct_name c \<noteq> next_name s f"
proof
  assume c: "c \<in> set (auto_of s f)" and e: "ct_name c = next_name s f"
  let ?m = "foldl max 0 (map (\<lambda>c. trailing_number (ct_name c)) (auto_of s f))"
  have "trailing_number (ct_name c) \<le> ?m" using c by (intro foldl_max_ge) auto
  moreover have "trailing_number (ct_name c) = 1 + ?m"
    unfolding e next_name_def by (rule trailing_number_next)
  ultimately show False by simp
qed

text \<open>The acts of one flavor's turn.\<close>

lemma scale_up_cases:
  obtains "fst (scale_up cfg s f) = []"
  | c t d where "fst (scale_up cfg s f) = [Start (ct_name c) f t d]" "c \<in> set (auto_of s f)" "ct_status c = ''stopped''"
      "want_up cfg s f" "\<not> cooling cfg s f" "length (running_of s f) < sc_maxAuto cfg f"
  | t d where "fst (scale_up cfg s f) = [Create (next_name s f) f t d]" "sc_allowCreate cfg"
      "want_up cfg s f" "\<not> cooling cfg s f" "length (running_of s f) < sc_maxAuto cfg f"
      "length (sn_containers s) < sc_quota cfg" "\<forall>c \<in> set (auto_of s f). ct_status c \<noteq> ''stopped''"
proof (cases "want_up cfg s f \<and> \<not> cooling cfg s f \<and> length (running_of s f) < sc_maxAuto cfg f")
  case False
  then show ?thesis by (intro that(1)) (auto simp: scale_up_def)
next
  case up: True
  obtain t d where t: "fleet_tag (sn_containers s) f = (t, d)" by (cases "fleet_tag (sn_containers s) f")
  show ?thesis
  proof (cases "find (\<lambda>c. ct_status c = ''stopped'') (auto_of s f)")
    case (Some c)
    then have "c \<in> set (auto_of s f)" "ct_status c = ''stopped''" by (auto simp: find_Some_iff)
    with Some up t show ?thesis by (intro that(2) [of c t d]) (auto simp: scale_up_def)
  next
    case None
    then have "\<forall>c \<in> set (auto_of s f). ct_status c \<noteq> ''stopped''" by (auto simp: find_None_iff)
    with None up t show ?thesis
      by (cases "sc_allowCreate cfg \<and> length (sn_containers s) < sc_quota cfg")
        (rule that(3) [of t d], auto simp: scale_up_def intro: that(1))
  qed
qed

lemma scale_down_acts:
  "scale_down cfg s f = [] \<or>
   (scale_down cfg s f = map (\<lambda>c. Stop (ct_name c) f) (filter (idle cfg s) (running_of s f))
     \<and> sn_relayOk s \<and> \<not> want_up cfg s f \<and> dm_count (demand_of cfg s f) = 0 \<and> \<not> cooling cfg s f)"
  by (simp add: scale_down_def)

lemma evacuation_acts:
  "evacuation cfg s f srcs = [] \<or>
   (\<exists>src \<in> set srcs. \<exists>e \<in> set (sn_enclaves s). evacuation cfg s f srcs
       = [Evacuate (ct_name src) f (map tn_id (tenants_of s src)) (cp_endpoint e)]
     \<and> tenants_of s src \<noteq> [] \<and> fits f src (tenants_of s src) e)"
proof (induction srcs)
  case (Cons src srcs)
  show ?case
  proof (cases "tenants_of s src = [] \<or> list_ex (\<lambda>t. tn_remaining t < sc_evacMin cfg) (tenants_of s src)
      \<or> find (fits f src (tenants_of s src)) (sn_enclaves s) = None")
    case True
    then have "evacuation cfg s f (src # srcs) = evacuation cfg s f srcs"
      by (elim disjE) (simp_all add: Let_def)
    with Cons.IH show ?thesis by simp blast
  next
    case False
    then obtain e where e: "find (fits f src (tenants_of s src)) (sn_enclaves s) = Some e" by auto
    then have "e \<in> set (sn_enclaves s)" "fits f src (tenants_of s src) e" by (auto simp: find_Some_iff)
    with e False show ?thesis by auto
  qed
qed simp

lemma consolidation_acts:
  "consolidation cfg s f acts = [] \<or>
   (\<exists>src \<in> set (running_of s f). \<exists>e \<in> set (sn_enclaves s). consolidation cfg s f acts
       = [Evacuate (ct_name src) f (map tn_id (tenants_of s src)) (cp_endpoint e)]
     \<and> fits f src (tenants_of s src) e \<and> sn_relayOk s \<and> \<not> want_up cfg s f
     \<and> dm_count (demand_of cfg s f) = 0 \<and> \<not> cooling cfg s f \<and> \<not> list_ex (\<lambda>a. action_flavor a = f) acts)"
  using evacuation_acts [of cfg s f "running_of s f"] unfolding consolidation_def by auto

definition turn_acts :: "scale_cfg \<Rightarrow> fleet_view \<Rightarrow> flavor \<Rightarrow> scale_action list \<Rightarrow> scale_action list" where
  "turn_acts cfg s f acts =
     (let two = fst (scale_up cfg s f) @ scale_down cfg s f in two @ consolidation cfg s f (acts @ two))"

lemma decide_flavor_acts: "fst (decide_flavor cfg s aw f) = fst aw @ turn_acts cfg s f (fst aw)"
  by (simp add: decide_flavor_def turn_acts_def Let_def split: prod.split)

text \<open>What a turn may do: nothing, one start or create, stops of idle boxes, or one evacuation.\<close>

definition turn_ok :: "scale_cfg \<Rightarrow> fleet_view \<Rightarrow> flavor \<Rightarrow> scale_action list \<Rightarrow> bool" where
  "turn_ok cfg s f acts \<longleftrightarrow> acts = [] \<or>
     (sn_relayOk s \<and> \<not> cooling cfg s f \<and>
      ((want_up cfg s f \<and> length (running_of s f) < sc_maxAuto cfg f \<and>
         ((\<exists>c \<in> set (auto_of s f). \<exists>t d. ct_status c = ''stopped'' \<and> acts = [Start (ct_name c) f t d])
          \<or> (sc_allowCreate cfg \<and> length (sn_containers s) < sc_quota cfg \<and>
             (\<exists>t d. acts = [Create (next_name s f) f t d]))))
       \<or> (dm_count (demand_of cfg s f) = 0 \<and>
         (acts = map (\<lambda>c. Stop (ct_name c) f) (filter (idle cfg s) (running_of s f))
          \<or> (\<exists>src \<in> set (running_of s f). \<exists>e \<in> set (sn_enclaves s). fits f src (tenants_of s src) e \<and>
               acts = [Evacuate (ct_name src) f (map tn_id (tenants_of s src)) (cp_endpoint e)])))))"

lemma want_up_relay: "want_up cfg s f \<Longrightarrow> sn_relayOk s"
  by (simp add: want_up_def)

lemma turn_acts_ok: "turn_ok cfg s f (turn_acts cfg s f acts)"
proof -
  let ?up = "fst (scale_up cfg s f)" and ?dn = "scale_down cfg s f"
  let ?co = "consolidation cfg s f (acts @ ?up @ ?dn)"
  have t: "turn_acts cfg s f acts = ?up @ ?dn @ ?co" by (simp add: turn_acts_def Let_def)
  show ?thesis
  proof (cases "want_up cfg s f")
    case True
    then have e: "turn_acts cfg s f acts = ?up"
      by (simp add: t scale_down_def consolidation_def)
    show ?thesis
      by (cases rule: scale_up_cases [of cfg s f])
        (use want_up_relay [of cfg s f] e in \<open>auto simp: turn_ok_def\<close>)
  next
    case False
    then have u: "?up = []" by (simp add: scale_up_def)
    show ?thesis
    proof (cases "?dn = []")
      case dn: True
      have "turn_acts cfg s f acts = consolidation cfg s f acts" using t u dn by simp
      then show ?thesis using consolidation_acts [of cfg s f acts] by (auto simp: turn_ok_def)
    next
      case dn: False
      then have "hd ?dn \<in> set ?dn" by simp
      moreover from this have "action_flavor (hd ?dn) = f"
        using scale_down_acts [of cfg s f] by (metis (no_types, lifting) action_flavor.simps(3) dn imageE list.set_map)
      ultimately obtain a where "a \<in> set ?dn" "action_flavor a = f" by blast
      then have "?co = []" by (auto simp: consolidation_def u list_ex_iff)
      then have "turn_acts cfg s f acts = ?dn" using t u by simp
      with scale_down_acts [of cfg s f] dn show ?thesis by (auto simp: turn_ok_def)
    qed
  qed
qed

lemma decide_turns:
  "fst (decide cfg s) = turn_acts cfg s Gpu [] @ turn_acts cfg s Cpu (turn_acts cfg s Gpu [])"
  by (simp add: decide_def decide_flavor_acts)

lemma turn_flavor: "turn_ok cfg s f acts \<Longrightarrow> a \<in> set acts \<Longrightarrow> action_flavor a = f"
  unfolding turn_ok_def by fastforce

definition money6 :: "scale_cfg \<Rightarrow> candidate list \<Rightarrow> int" where
  "money6 cfg rows = sum_list (map (committed6 cfg) rows)"

lemma want_up_backed:
  assumes "want_up cfg s f"
  shows "sc_minUsd cfg f * 1000000 \<le> of_int (money6 cfg (demand_rows cfg s f))
     \<and> sc_minUnmet cfg f \<le> sum_list (map (want_share f) (demand_rows cfg s f))"
  using assms by (simp add: want_up_def demand_of_def Let_def foldl_plus_sum money6_def field_simps)




lemma CFG_fields [simp]:
  "sc_dwell CFG = 600" "sc_minFunded CFG = 3600" "sc_minUsd CFG f = (if f = Gpu then 4 else 3 / 2)"
  "sc_minUnmet CFG f = (if f = Gpu then 1 / 10 else 1 / 4)" "sc_horizon CFG = 86400" "sc_maxAuto CFG f = 1"
  "sc_allowCreate CFG = False" "sc_quota CFG = 10" "sc_cooldown CFG = 1800" "sc_idleStop CFG = 2700"
  by (simp_all add: CFG_def)

definition demo_candidate :: candidate where
  "demo_candidate = \<lparr>cd_id = ''0xd1'', cd_flavor = Cpu, cd_gpu = 0, cd_cpu = 1 / 2, cd_rate = 50, cd_funded = 90000,
     cd_age = 700, cd_structural = False, cd_inflight = False\<rparr>"

definition demo_box :: "string \<Rightarrow> container" where
  "demo_box st = \<lparr>ct_name = ''auto-cpu-1'', ct_status = st, ct_tag = ''v1-cpu'', ct_domain = ''b.x'', ct_staging = False,
     ct_flavor = Some Cpu, ct_auto = True, ct_createdAgo = Some 9000, ct_runner = Some ''r1''\<rparr>"

definition demo_snapshot :: "string \<Rightarrow> fleet_view" where
  "demo_snapshot st = \<lparr>sn_now = 100000, sn_candidates = [demo_candidate], sn_enclaves = [], sn_containers = [demo_box st],
     sn_health = (\<lambda>_. None), sn_relayDomains = [], sn_relayOk = True, sn_leases = [], sn_lastAction = (\<lambda>_. None),
     sn_hosted = []\<rparr>"

lemma demo_boxes:
  "auto_of (demo_snapshot st) Cpu = [demo_box st]" "sn_containers (demo_snapshot st) = [demo_box st]"
  "running_of (demo_snapshot st) Cpu = (if halted st then [] else [demo_box st])"
  "ct_name (demo_box st) = ''auto-cpu-1''" "ct_status (demo_box st) = st"
  "halted st \<Longrightarrow> fleet_tag [demo_box st] Cpu = (None, False)" "halted ''stopped''" "halted ''failed''"
  by (simp_all add: running_of_def auto_of_def demo_snapshot_def demo_box_def halted_def fleet_tag_def tagged_running_def)

lemma demo_demand:
  "demand_rows CFG (demo_snapshot st) f = (if f = Cpu then [demo_candidate] else [])"
  by (simp add: demand_rows_def demo_snapshot_def demo_candidate_def unserved_def past_gates_def servable_def)

lemma demo_not_cooling: "\<not> cooling CFG (demo_snapshot st) f"
  by (cases f) (simp_all add: cooling_def cool_age_def min_age_def auto_of_def demo_snapshot_def demo_box_def)

lemma demo_want_up: "want_up cfg (demo_snapshot st) f \<longleftrightarrow>
    sc_minUnmet cfg f \<le> dm_unmet (demand_of cfg (demo_snapshot st) f) \<and>
    sc_minUsd cfg f \<le> dm_usd (demand_of cfg (demo_snapshot st) f)"
  by (auto simp: want_up_def demo_snapshot_def)

lemma demo_wants: "want_up CFG (demo_snapshot st) f \<longleftrightarrow> f = Cpu"
  unfolding demo_want_up
  by (cases f) (simp_all add: demand_of_def demo_demand demo_candidate_def Let_def want_share_def committed6_def)


text \<open>
  The cap counts running boxes only: with its one auto box failed to boot, a flavor gets a second,
  up to the quota of the organisation.
\<close>

lemma failed_box_is_not_counted:
  "Create ''auto-cpu-2'' Cpu None False
     \<in> set (fst (decide (CFG\<lparr>sc_allowCreate := True\<rparr>) (demo_snapshot ''failed'')))"
proof -
  let ?cfg = "CFG\<lparr>sc_allowCreate := True\<rparr>"
  have "want_up ?cfg (demo_snapshot ''failed'') Cpu"
    using demo_wants [of "''failed''" Cpu]
    by (simp add: want_up_def demand_of_def demand_rows_def unserved_def past_gates_def committed6_def)
  moreover have "\<not> cooling ?cfg (demo_snapshot ''failed'') Cpu"
    using demo_not_cooling [of "''failed''" Cpu] by (simp add: cooling_def split: option.splits)
  moreover have n: "next_name (demo_snapshot ''failed'') Cpu = ''auto-cpu-2''"
    by (simp add: next_name_def auto_of_def demo_snapshot_def demo_box_def flavor_name_def) code_simp
  ultimately have "scale_up ?cfg (demo_snapshot ''failed'') Cpu = ([Create ''auto-cpu-2'' Cpu None False], [])"
    by (simp add: scale_up_def n demo_boxes)
  then show ?thesis by (simp add: decide_turns turn_acts_def Let_def)
qed

section \<open>The reviewed plan\<close>

primrec action_tag :: "scale_action \<Rightarrow> string option" where
  "action_tag (Start n f t d) = t"
| "action_tag (Create n f t d) = t"
| "action_tag (Stop n f) = None"
| "action_tag (Evacuate n f m t) = None"

primrec tag_derived :: "scale_action \<Rightarrow> bool" where
  "tag_derived (Start n f t d) = d"
| "tag_derived (Create n f t d) = d"
| "tag_derived (Stop n f) = False"
| "tag_derived (Evacuate n f m t) = False"

definition is_stop :: "scale_action \<Rightarrow> bool" where
  "is_stop a \<longleftrightarrow> (case a of Stop n f \<Rightarrow> True | _ \<Rightarrow> False)"

definition no_tag :: "scale_action \<Rightarrow> bool" where
  "no_tag a \<longleftrightarrow> action_tag a = None \<or> action_tag a = Some []"

fun resolve_tags ::
  "(string \<Rightarrow> bool) \<Rightarrow> scale_action list \<Rightarrow> scale_action list \<times> scale_warning list" where
  "resolve_tags released [] = ([], [])"
| "resolve_tags released (a # as) =
     (let (keep, warns) = resolve_tags released as
      in if \<not> is_stop a \<and> no_tag a then (keep, NoBaselineTag a # warns)
         else if tag_derived a \<and> \<not> released (the (action_tag a)) then (keep, TagNotReleased a # warns)
         else (a # keep, warns))"

definition plan :: "scale_cfg \<Rightarrow> (string \<Rightarrow> bool) \<Rightarrow> fleet_view \<Rightarrow> scale_action list \<times> scale_warning list" where
  "plan cfg released s =
     (let (acts, warns) = decide cfg s; (keep, w) = resolve_tags released acts in (keep, warns @ w))"

lemma resolve_tags_keeps:
  "set (fst (resolve_tags released acts)) =
     {a \<in> set acts. (is_stop a \<or> \<not> no_tag a) \<and> (tag_derived a \<longrightarrow> released (the (action_tag a)))}"
proof (induction acts)
  case (Cons a as)
  obtain keep w where k: "resolve_tags released as = (keep, w)" by (cases "resolve_tags released as")
  have "fst (resolve_tags released (a # as)) =
      (if (is_stop a \<or> \<not> no_tag a) \<and> (tag_derived a \<longrightarrow> released (the (action_tag a))) then a # keep else keep)"
    by (simp add: k)
  with Cons.IH show ?case by (auto simp: k)
qed simp

text \<open>
  An evacuation carries no tag and is not a stop, so the tag check drops every one: no plan ever
  consolidates.
\<close>

lemma plan_never_evacuates: "Evacuate n f ids t \<notin> set (fst (plan cfg released s))"
proof -
  have "set (fst (plan cfg released s)) = set (fst (resolve_tags released (fst (decide cfg s))))"
    by (simp add: plan_def Let_def split: prod.split)
  then show ?thesis by (simp add: resolve_tags_keeps is_stop_def no_tag_def)
qed

lemma plan_from_decide: "a \<in> set (fst (plan cfg released s)) \<Longrightarrow> a \<in> set (fst (decide cfg s))"
proof -
  assume a: "a \<in> set (fst (plan cfg released s))"
  have "set (fst (plan cfg released s)) = set (fst (resolve_tags released (fst (decide cfg s))))"
    by (simp add: plan_def Let_def split: prod.split)
  with a show ?thesis by (simp add: resolve_tags_keeps)
qed


section \<open>Applying a plan\<close>

text \<open>
  The secret names of a flavor's \<open>tinfoil-config.yml\<close>: the list items under each \<open>secrets:\<close> line. A
  line is given without its trailing white space; \<^term>\<open>None\<close> is the error for no name at all.
\<close>

definition rstrip :: "string \<Rightarrow> string" where
  "rstrip s = rev (dropWhile is_space (rev s))"

definition lstrip :: "string \<Rightarrow> string" where
  "lstrip s = dropWhile is_space s"

definition upper_letter :: "char \<Rightarrow> bool" where
  "upper_letter c \<longleftrightarrow> c \<in> set ''ABCDEFGHIJKLMNOPQRSTUVWXYZ''"

definition secret_char :: "char \<Rightarrow> bool" where
  "secret_char c \<longleftrightarrow> upper_letter c \<or> is_digit c \<or> c = CHR ''_''"

definition rest_comment :: "string \<Rightarrow> bool" where
  "rest_comment s \<longleftrightarrow> lstrip s = [] \<or> hd (lstrip s) = CHR ''#''"

definition secrets_header :: "string \<Rightarrow> bool" where
  "secrets_header l \<longleftrightarrow> (case strip_prefix ''secrets:'' (lstrip l) of Some r \<Rightarrow> rest_comment r | None \<Rightarrow> False)"

definition secret_item :: "string \<Rightarrow> string option" where
  "secret_item l =
     (case strip_prefix ''-'' (lstrip l) of
        None \<Rightarrow> None
      | Some r \<Rightarrow>
          (let t = lstrip r; n = takeWhile secret_char t
           in if n \<noteq> [] \<and> upper_letter (hd n) \<and> rest_comment (drop (length n) t) then Some n else None))"

fun secret_names :: "bool \<Rightarrow> string list \<Rightarrow> string list" where
  "secret_names inside [] = []"
| "secret_names inside (raw # ls) =
     (let l = rstrip raw
      in if secrets_header l then secret_names True ls
         else if inside then
           (case secret_item l of
              Some n \<Rightarrow> n # secret_names True ls
            | None \<Rightarrow> secret_names (take 1 (lstrip l) = ''#'' \<or> lstrip l = []) ls)
         else secret_names False ls)"

definition config_secrets :: "string list \<Rightarrow> string list option" where
  "config_secrets ls = (let ns = secret_names False ls in if ns = [] then None else Some (remdups ns))"

text \<open>
  The waits poll until a verdict. A poll is its time in seconds since the wait began and what it
  saw; the list is the polls of one run, and \<open>Waiting\<close> is the wait that has not returned by its end.
\<close>

datatype wait = Waiting | Up | Down string

fun wait_status :: "string \<Rightarrow> int \<Rightarrow> (int \<times> string) list \<Rightarrow> wait" where
  "wait_status n deadline [] = Waiting"
| "wait_status n deadline ((t, st) # ps) =
     (let s = to_lower st
      in if s = ''ready'' \<or> s = ''running'' then Up
         else if s = ''failed'' then Down (n @ '' failed to boot'')
         else if t > deadline then Down (n @ '' did not reach Running'')
         else wait_status n deadline ps)"

fun wait_answer :: "string \<Rightarrow> int \<Rightarrow> (int \<times> bool) list \<Rightarrow> wait" where
  "wait_answer m deadline [] = Waiting"
| "wait_answer m deadline ((t, ok) # ps) =
     (if ok then Up else if t > deadline then Down m else wait_answer m deadline ps)"

lemma wait_answer_returns:
  "\<exists>(t, ok) \<in> set ps. t > deadline \<Longrightarrow> wait_answer m deadline ps \<noteq> Waiting"
  by (induction m deadline ps rule: wait_answer.induct) auto

datatype tool =
    StopBox string
  | StartBox string "string option"
  | RelaunchBox string "string option"
  | CreateBox string "string option" "string list" "(string \<times> string) list"
  | ReleaseTenant string string

datatype release_answer = Released | EndpointMissing | ReleaseError string

record apply_env =
  ae_containers :: "container list"
  ae_health :: "string \<Rightarrow> int option option"
  ae_run :: "tool \<Rightarrow> string option"
  ae_status :: "string \<Rightarrow> (int \<times> string) list"
  ae_healthy :: "string \<Rightarrow> (int \<times> bool) list"
  ae_listed :: "string \<Rightarrow> (int \<times> bool) list"
  ae_admin :: bool
  ae_release :: "string \<Rightarrow> release_answer"
  ae_config :: "flavor \<Rightarrow> string list option"
  ae_variables :: "string \<Rightarrow> (string \<times> string) list"

record apply_state =
  ap_tools :: "tool list"
  ap_failures :: "string list"
  ap_quota :: "string list"
  ap_stuck :: bool

definition action_key :: "scale_action \<Rightarrow> string" where
  "action_key a = (case a of Start n f t d \<Rightarrow> ''start '' @ n | Create n f t d \<Rightarrow> ''create '' @ n
     | Stop n f \<Rightarrow> ''stop '' @ n | Evacuate n f m t \<Rightarrow> ''evacuate '' @ n)"

definition is_create :: "scale_action \<Rightarrow> bool" where
  "is_create a \<longleftrightarrow> (case a of Create n f t d \<Rightarrow> True | _ \<Rightarrow> False)"

text \<open>The \<open>catch\<close> of an action.\<close>

definition failed_with :: "scale_action \<Rightarrow> string \<Rightarrow> apply_state \<Rightarrow> apply_state" where
  "failed_with a m st =
     (if is_create a \<and> js_includes (to_lower m) ''quota reached''
      then st\<lparr>ap_quota := ap_quota st @ [m]\<rparr>
      else st\<lparr>ap_failures := ap_failures st @ [action_key a @ '': '' @ m]\<rparr>)"

definition ran :: "tool \<Rightarrow> apply_state \<Rightarrow> apply_state" where
  "ran t st = st\<lparr>ap_tools := ap_tools st @ [t]\<rparr>"

text \<open>\<open>waitRelayTrust\<close>, with the rollback of a box the relay never lists.\<close>

definition await_trust :: "scale_cfg \<Rightarrow> apply_env \<Rightarrow> scale_action \<Rightarrow> string \<Rightarrow> apply_state \<Rightarrow> apply_state" where
  "await_trust cfg env a n st =
     (case wait_answer (n @ '' rolled back: relay never trusted it'') (sc_trustTimeout cfg) (ae_listed env n) of
        Up \<Rightarrow> st
      | Waiting \<Rightarrow> st\<lparr>ap_stuck := True\<rparr>
      | Down m \<Rightarrow> failed_with a (case ae_run env (StopBox n) of Some e \<Rightarrow> e | None \<Rightarrow> m) (ran (StopBox n) st))"

definition await_serving :: "scale_cfg \<Rightarrow> apply_env \<Rightarrow> scale_action \<Rightarrow> string \<Rightarrow> apply_state \<Rightarrow> apply_state" where
  "await_serving cfg env a n st =
     (case wait_status n (sc_bootTimeout cfg) (ae_status env n) of
        Waiting \<Rightarrow> st\<lparr>ap_stuck := True\<rparr>
      | Down m \<Rightarrow> failed_with a m st
      | Up \<Rightarrow>
          (case wait_answer (n @ '': /v1/health never answered'') (sc_bootTimeout cfg) (ae_healthy env n) of
             Waiting \<Rightarrow> st\<lparr>ap_stuck := True\<rparr>
           | Down m \<Rightarrow> failed_with a m st
           | Up \<Rightarrow> await_trust cfg env a n st))"

definition run_and_serve ::
  "scale_cfg \<Rightarrow> apply_env \<Rightarrow> scale_action \<Rightarrow> string \<Rightarrow> tool \<Rightarrow> apply_state \<Rightarrow> apply_state" where
  "run_and_serve cfg env a n t st =
     (case ae_run env t of
        Some e \<Rightarrow> failed_with a e (ran t st)
      | None \<Rightarrow> await_serving cfg env a n (ran t st))"

fun release_all :: "apply_env \<Rightarrow> string \<Rightarrow> string \<Rightarrow> string list \<Rightarrow> apply_state \<Rightarrow> apply_state" where
  "release_all env n host [] st = st"
| "release_all env n host (i # is) st =
     (let st1 = ran (ReleaseTenant host i) st
      in case ae_release env i of
           EndpointMissing \<Rightarrow> st1
         | Released \<Rightarrow> release_all env n host is st1
         | ReleaseError m \<Rightarrow> release_all env n host is
             (st1\<lparr>ap_failures := ap_failures st1 @ [''evacuate '' @ n @ '' '' @ take 10 i @ '': '' @ m]\<rparr>))"

definition baseline :: "container list \<Rightarrow> flavor \<Rightarrow> container option" where
  "baseline cts f =
     (case find (\<lambda>c. ct_flavor c = Some f \<and> \<not> ct_auto c \<and> \<not> halted (ct_status c)) cts of
        Some c \<Rightarrow> Some c
      | None \<Rightarrow> find (\<lambda>c. ct_flavor c = Some Gpu \<and> \<not> ct_auto c \<and> \<not> halted (ct_status c)) cts)"

definition create_tool :: "apply_env \<Rightarrow> string \<Rightarrow> flavor \<Rightarrow> string option \<Rightarrow> tool option" where
  "create_tool env n f tag =
     (case ae_config env f of
        None \<Rightarrow> None
      | Some ls \<Rightarrow>
          map_option (\<lambda>secrets. CreateBox n tag secrets
              (case baseline (ae_containers env) f of Some c \<Rightarrow> ae_variables env (ct_name c) | None \<Rightarrow> []))
            (config_secrets ls))"

definition apply_one :: "scale_cfg \<Rightarrow> apply_env \<Rightarrow> apply_state \<Rightarrow> scale_action \<Rightarrow> apply_state" where
  "apply_one cfg env st a =
     (if ap_stuck st then st
      else case a of
        Stop n f \<Rightarrow>
          (case find (\<lambda>c. ct_name c = n) (ae_containers env) of
             None \<Rightarrow> st
           | Some c \<Rightarrow>
               if ct_status c = ''stopped'' \<or> ct_status c = ''stopping'' then st
               else if ct_domain c = [] \<or> ae_health env (ct_domain c) \<noteq> Some (Some 0) then st
               else (case ae_run env (StopBox n) of
                       Some e \<Rightarrow> failed_with a e (ran (StopBox n) st)
                     | None \<Rightarrow> ran (StopBox n) st))
      | Start n f tag d \<Rightarrow>
          (case find (\<lambda>c. ct_name c = n) (ae_containers env) of
             None \<Rightarrow> st
           | Some c \<Rightarrow>
               if ct_status c = ''stopped'' then run_and_serve cfg env a n (StartBox n tag) st
               else if ct_status c = ''failed'' then run_and_serve cfg env a n (RelaunchBox n tag) st
               else st)
      | Evacuate n f ids t \<Rightarrow>
          (case find (\<lambda>c. ct_name c = n) (ae_containers env) of
             None \<Rightarrow> st
           | Some c \<Rightarrow>
               if halted (ct_status c) \<or> \<not> ae_admin env then st
               else release_all env n (ct_domain c) ids st)
      | Create n f tag d \<Rightarrow>
          if \<not> sc_allowCreate cfg then st
          else (case find (\<lambda>c. ct_name c = n) (ae_containers env) of
             Some c \<Rightarrow> st
           | None \<Rightarrow>
               (case create_tool env n f tag of
                  None \<Rightarrow> failed_with a ''no secret names'' st
                | Some t \<Rightarrow> run_and_serve cfg env a n t st)))"

definition apply_plan :: "scale_cfg \<Rightarrow> apply_env \<Rightarrow> scale_action list \<Rightarrow> apply_state" where
  "apply_plan cfg env acts =
     foldl (apply_one cfg env) \<lparr>ap_tools = [], ap_failures = [], ap_quota = [], ap_stuck = False\<rparr> acts"

text \<open>The flavors whose cooldown clock is stamped after the run.\<close>

definition stamped :: "scale_action list \<Rightarrow> apply_state \<Rightarrow> flavor list" where
  "stamped acts st =
     remdups (map action_flavor (filter (\<lambda>a. \<not> list_ex (prefix (action_key a)) (ap_failures st)) acts))"

section \<open>What applying a plan guarantees\<close>

definition tool_ok :: "scale_cfg \<Rightarrow> apply_env \<Rightarrow> scale_action list \<Rightarrow> tool \<Rightarrow> bool" where
  "tool_ok cfg env acts t \<longleftrightarrow>
     (case t of
        StopBox n \<Rightarrow>
          (\<exists>c f. Stop n f \<in> set acts \<and> find (\<lambda>c. ct_name c = n) (ae_containers env) = Some c
             \<and> ct_status c \<noteq> ''stopped'' \<and> ct_status c \<noteq> ''stopping'' \<and> ae_health env (ct_domain c) = Some (Some 0))
          \<or> (\<exists>f tag d m. (Start n f tag d \<in> set acts \<or> Create n f tag d \<in> set acts)
               \<and> wait_answer (n @ '' rolled back: relay never trusted it'') (sc_trustTimeout cfg) (ae_listed env n) = Down m)
      | StartBox n tag \<Rightarrow> (\<exists>c. find (\<lambda>c. ct_name c = n) (ae_containers env) = Some c \<and> ct_status c = ''stopped'')
      | RelaunchBox n tag \<Rightarrow> (\<exists>c. find (\<lambda>c. ct_name c = n) (ae_containers env) = Some c \<and> ct_status c = ''failed'')
      | CreateBox n tag ss vs \<Rightarrow> sc_allowCreate cfg \<and> find (\<lambda>c. ct_name c = n) (ae_containers env) = None \<and> ss \<noteq> []
      | ReleaseTenant host i \<Rightarrow> ae_admin env \<and> (\<exists>n f ids t. Evacuate n f ids t \<in> set acts \<and> i \<in> set ids
          \<and> (\<exists>c. find (\<lambda>c. ct_name c = n) (ae_containers env) = Some c \<and> \<not> halted (ct_status c) \<and> ct_domain c = host)))"


lemma failed_with_tools [simp]: "ap_tools (failed_with a m st) = ap_tools st"
  by (simp add: failed_with_def)

lemma ran_tools [simp]: "ap_tools (ran t st) = ap_tools st @ [t]"
  by (simp add: ran_def)

lemma await_trust_tools:
  assumes "t \<in> set (ap_tools (await_trust cfg env a n st))"
  shows "t \<in> set (ap_tools st) \<or> (t = StopBox n \<and> (\<exists>m.
    wait_answer (n @ '' rolled back: relay never trusted it'') (sc_trustTimeout cfg) (ae_listed env n) = Down m))"
  using assms unfolding await_trust_def by (auto split: wait.splits)

lemma run_and_serve_tools:
  assumes "t \<in> set (ap_tools (run_and_serve cfg env a n t0 st))"
  shows "t \<in> set (ap_tools st) \<or> t = t0 \<or> (t = StopBox n \<and> (\<exists>m.
    wait_answer (n @ '' rolled back: relay never trusted it'') (sc_trustTimeout cfg) (ae_listed env n) = Down m))"
proof (cases "ap_tools (run_and_serve cfg env a n t0 st) = ap_tools st @ [t0]")
  case True
  with assms show ?thesis by auto
next
  case False
  then have "run_and_serve cfg env a n t0 st = await_trust cfg env a n (ran t0 st)"
    by (auto simp: run_and_serve_def await_serving_def split: option.splits wait.splits)
  with assms await_trust_tools [of t cfg env a n "ran t0 st"] show ?thesis by auto
qed

lemma release_all_tools:
  "t \<in> set (ap_tools (release_all env n host is st)) \<Longrightarrow>
     t \<in> set (ap_tools st) \<or> (\<exists>i \<in> set is. t = ReleaseTenant host i)"
  by (induction env n host "is" st rule: release_all.induct)
    (fastforce simp: Let_def split: release_answer.splits)+

lemma create_tool_cases:
  assumes "create_tool env n f tag = Some t"
  obtains ss vs where "t = CreateBox n tag ss vs" "ss \<noteq> []"
proof -
  from assms obtain ls ss where "config_secrets ls = Some ss"
    "t = CreateBox n tag ss (case baseline (ae_containers env) f of Some c \<Rightarrow> ae_variables env (ct_name c) | None \<Rightarrow> [])"
    by (auto simp: create_tool_def split: option.splits)
  moreover from this(1) have "ss \<noteq> []" by (auto simp: config_secrets_def Let_def split: if_splits)
  ultimately show ?thesis using that by blast
qed

lemma apply_one_tools:
  assumes "t \<in> set (ap_tools (apply_one cfg env st a))" "a \<in> set acts"
  shows "t \<in> set (ap_tools st) \<or> tool_ok cfg env acts t"
proof (cases "ap_stuck st \<or> t \<in> set (ap_tools st)")
  case True
  with assms(1) show ?thesis by (auto simp: apply_one_def)
next
  case False
  then have ns: "\<not> ap_stuck st" and new: "t \<notin> set (ap_tools st)" by auto
  show ?thesis
  proof (cases a)
    case (Stop n f)
    with assms ns new have "t = StopBox n \<and> (\<exists>c. find (\<lambda>c. ct_name c = n) (ae_containers env) = Some c
        \<and> ct_status c \<noteq> ''stopped'' \<and> ct_status c \<noteq> ''stopping'' \<and> ae_health env (ct_domain c) = Some (Some 0))"
      unfolding apply_one_def by (simp split: option.splits if_splits)
    with Stop assms(2) show ?thesis by (auto simp: tool_ok_def)
  next
    case (Start n f tag d)
    with assms(1) ns new obtain c t0 where c: "find (\<lambda>c. ct_name c = n) (ae_containers env) = Some c"
      and t0: "ct_status c = ''stopped'' \<and> t0 = StartBox n tag \<or> ct_status c = ''failed'' \<and> t0 = RelaunchBox n tag"
      and r: "t \<in> set (ap_tools (run_and_serve cfg env a n t0 st))"
      unfolding apply_one_def by (simp split: option.splits if_splits)
    have a: "Start n f tag d \<in> set acts" using Start assms(2) by simp
    from run_and_serve_tools [OF r] new show ?thesis
      using c t0 unfolding tool_ok_def by (elim disjE) (use a in auto)
  next
    case (Evacuate n f ids tg)
    with assms(1) ns new obtain c where c: "find (\<lambda>c. ct_name c = n) (ae_containers env) = Some c"
      "\<not> halted (ct_status c)" "ae_admin env" and r: "t \<in> set (ap_tools (release_all env n (ct_domain c) ids st))"
      unfolding apply_one_def by (simp split: option.splits if_splits)
    from release_all_tools [OF r] new obtain i where "i \<in> set ids" "t = ReleaseTenant (ct_domain c) i" by blast
    moreover have "Evacuate n f ids tg \<in> set acts" using Evacuate assms(2) by simp
    ultimately show ?thesis using c unfolding tool_ok_def by (simp only: tool.case) blast
  next
    case (Create n f tag d)
    with assms(1) ns new obtain t0 where c: "sc_allowCreate cfg" "find (\<lambda>c. ct_name c = n) (ae_containers env) = None"
      "create_tool env n f tag = Some t0" and r: "t \<in> set (ap_tools (run_and_serve cfg env a n t0 st))"
      unfolding apply_one_def by (simp split: option.splits if_splits)
    from create_tool_cases [OF c(3)] obtain ss vs where t0: "t0 = CreateBox n tag ss vs" "ss \<noteq> []" by blast
    have a: "Create n f tag d \<in> set acts" using Create assms(2) by simp
    from run_and_serve_tools [OF r] new show ?thesis
      using c t0 unfolding tool_ok_def by (elim disjE) (use a in auto)
  qed
qed

lemma apply_fold_ok:
  "set as \<subseteq> set acts \<Longrightarrow> t \<in> set (ap_tools (foldl (apply_one cfg env) st as)) \<Longrightarrow>
     t \<in> set (ap_tools st) \<or> tool_ok cfg env acts t"
proof (induction as arbitrary: st)
  case (Cons a as)
  from Cons.IH [of "apply_one cfg env st a"] Cons.prems apply_one_tools [of t cfg env st a acts]
  show ?case by auto
qed simp

text \<open>
  Applying is safe whatever the plan says, a stale or hand-edited one included. A box is stopped
  only if it is up and reports no deployments at that moment, or because this run brought it up and
  the relay never listed it; started only if it is stopped, relaunched only if it failed; created
  only with the switch on, under an unused name and with the secrets its configuration names; and a
  tenant is released only off a running box with the operator's token.
\<close>
theorem apply_rechecks_every_action:
  assumes "t \<in> set (ap_tools (apply_plan cfg env acts))"
  shows "case t of
      StopBox n \<Rightarrow>
        (\<exists>c f. Stop n f \<in> set acts \<and> find (\<lambda>c. ct_name c = n) (ae_containers env) = Some c
           \<and> \<not> (ct_status c = ''stopped'' \<or> ct_status c = ''stopping'') \<and> ae_health env (ct_domain c) = Some (Some 0))
        \<or> (\<exists>f tag d m. (Start n f tag d \<in> set acts \<or> Create n f tag d \<in> set acts)
             \<and> wait_answer (n @ '' rolled back: relay never trusted it'') (sc_trustTimeout cfg) (ae_listed env n) = Down m)
    | StartBox n tag \<Rightarrow> (\<exists>c \<in> set (ae_containers env). ct_name c = n \<and> ct_status c = ''stopped'')
    | RelaunchBox n tag \<Rightarrow> (\<exists>c \<in> set (ae_containers env). ct_name c = n \<and> ct_status c = ''failed'')
    | CreateBox n tag ss vs \<Rightarrow> sc_allowCreate cfg \<and> (\<forall>c \<in> set (ae_containers env). ct_name c \<noteq> n) \<and> ss \<noteq> []
    | ReleaseTenant host i \<Rightarrow> ae_admin env
        \<and> (\<exists>c \<in> set (ae_containers env). \<not> halted (ct_status c) \<and> ct_domain c = host)"
proof -
  have ok: "tool_ok cfg env acts t"
    using apply_fold_ok [OF subset_refl assms [unfolded apply_plan_def]] by simp
  show ?thesis
  proof (cases t)
    case (StopBox n)
    with ok show ?thesis unfolding tool_ok_def by simp
  qed (use ok in \<open>auto simp: tool_ok_def find_Some_iff find_None_iff dest: nth_mem\<close>)
qed


definition demo_apply_env :: apply_env where
  "demo_apply_env = \<lparr>ae_containers = [demo_box ''running''], ae_health = (\<lambda>_. Some (Some 0)), ae_run = (\<lambda>_. None),
     ae_status = (\<lambda>_. [(5, ''running'')]), ae_healthy = (\<lambda>_. [(6, True)]), ae_listed = (\<lambda>_. [(10, True)]),
     ae_admin = False, ae_release = (\<lambda>_. Released), ae_config = (\<lambda>_. None), ae_variables = (\<lambda>_. [])\<rparr>"

theorem apply_rechecks_every_action_witness:
  "StopBox ''auto-cpu-1'' \<in> set (ap_tools (apply_plan CFG demo_apply_env [Stop ''auto-cpu-1'' Cpu]))
   \<and> ae_health demo_apply_env ''b.x'' = Some (Some 0)"
proof -
  have d: "ct_domain (demo_box st) = ''b.x''" for st by (simp add: demo_box_def)
  have i: "StopBox ''auto-cpu-1'' \<in> set (ap_tools (apply_plan CFG demo_apply_env [Stop ''auto-cpu-1'' Cpu]))"
    by (simp add: apply_plan_def apply_one_def demo_apply_env_def demo_boxes d)
  from apply_rechecks_every_action [OF i]
  have "\<exists>c. find (\<lambda>c. ct_name c = ''auto-cpu-1'') (ae_containers demo_apply_env) = Some c \<and> ae_health demo_apply_env (ct_domain c) = Some (Some 0)"
    by simp blast
  with i show ?thesis by (simp add: demo_apply_env_def d)
qed

text \<open>
  The cooldown clock is stamped for every action that did not fail, one that was skipped included:
  a plan whose only box had already stopped runs nothing and still holds off the flavor.
\<close>

lemma skipped_action_stamps_cooldown:
  "let acts = [Stop ''auto-cpu-1'' Cpu]; st = apply_plan CFG (demo_apply_env\<lparr>ae_containers := [demo_box ''stopped'']\<rparr>) acts
   in ap_tools st = [] \<and> stamped acts st = [Cpu]"
  by (simp add: apply_plan_def apply_one_def demo_boxes stamped_def Let_def)

end
