(* ===== verification/Gpu_Pools.thy ===== *)
theory Gpu_Pools
  imports Js_Prelude Complex_Main
begin

text \<open>
  The resource pools of an enclave (\<open>supervisor.js\<close>): the free VRAM and compute of each card, the
  node's CPU pool, the requests quantized to whole percents, best-fit allocation, release, the
  reconciliation of the pools with the records, and the adoption of a probed card size. Shares and
  gigabytes are exact rationals here and doubles in the code, whose tolerances are kept.
\<close>

section \<open>State\<close>

record card =
  gc_vramFree :: rat
  gc_computeFree :: rat
  gc_vramTotal :: "rat option"
  gc_shielded :: bool
  gc_available :: bool
  gc_proofFree :: rat

text \<open>A slice of a card as a handle holds it; a handle restored from an old state file has no \<open>_needV\<close>.\<close>

record slice =
  sl_card :: nat
  sl_vram :: rat
  sl_compute :: rat
  sl_need :: "rat option"

datatype handle =
    CpuHandle rat
  | GpuHandle "slice list" rat

record pools =
  pl_cpuFree :: rat
  pl_cards :: "card list"
  pl_cardVram :: rat
  pl_isGpu :: bool
  pl_shielded :: bool
  pl_pool :: "nat list option"

definition CTX_OVERHEAD_GB :: rat where "CTX_OVERHEAD_GB = 1 / 2"
definition GRANULARITY_GB :: rat where "GRANULARITY_GB = 1 / 10"
definition MIN_COMPUTE_PCT :: int where "MIN_COMPUTE_PCT = 1"
definition eps :: rat where "eps = 1 / 1000000000"

definition card_vram :: "pools \<Rightarrow> card \<Rightarrow> rat" where
  "card_vram P c = (case gc_vramTotal c of Some t \<Rightarrow> t | None \<Rightarrow> pl_cardVram P)"

definition card_free_vram :: "card \<Rightarrow> rat" where
  "card_free_vram c =
     (if gc_shielded c then (if gc_available c then min (gc_vramFree c) (gc_proofFree c) else 0) else gc_vramFree c)"

definition ctx_overhead :: "pools \<Rightarrow> rat" where
  "ctx_overhead P = (if pl_shielded P then 0 else CTX_OVERHEAD_GB)"

definition round_up :: "rat \<Rightarrow> rat" where
  "round_up v = of_int \<lceil>v / GRANULARITY_GB\<rceil> * GRANULARITY_GB"

section \<open>Requests\<close>

definition quantize_pct :: "rat \<Rightarrow> int" where
  "quantize_pct share = min 100 (max MIN_COMPUTE_PCT \<lfloor>share * 100 + 1 / 2\<rfloor>)"

definition normalize_cpu_req :: "rat \<Rightarrow> rat" where
  "normalize_cpu_req share = of_int (quantize_pct share) / 100"

text \<open>The VRAM cap, the GPU share and the CPU share of a request.\<close>

definition normalize_gpu_req :: "pools \<Rightarrow> rat \<Rightarrow> rat \<Rightarrow> rat \<times> rat \<times> rat" where
  "normalize_gpu_req P gpuShare cpuShare =
     (let g = of_int (quantize_pct gpuShare) / 100; c = of_int (quantize_pct cpuShare) / 100;
          v = (if pl_pool P \<noteq> None then g * pl_cardVram P else round_up (g * pl_cardVram P))
      in (v, g, c))"

section \<open>Allocation\<close>

definition alloc_cpu :: "pools \<Rightarrow> rat \<Rightarrow> (handle \<times> pools) option" where
  "alloc_cpu P share =
     (if pl_cpuFree P < share - eps then None
      else Some (CpuHandle share, P\<lparr>pl_cpuFree := pl_cpuFree P - share\<rparr>))"

definition card_need :: "pools \<Rightarrow> rat \<Rightarrow> rat \<Rightarrow> card \<Rightarrow> rat" where
  "card_need P vram compute c =
     (if gc_shielded c then max vram (round_up (compute * card_vram P c)) else vram + ctx_overhead P)"

definition take_slice :: "card list \<Rightarrow> slice \<Rightarrow> card list" where
  "take_slice cs s =
     (let c = cs ! sl_card s
      in cs[sl_card s := c\<lparr>gc_vramFree := gc_vramFree c - the (sl_need s),
                           gc_computeFree := gc_computeFree c - sl_compute s\<rparr>])"

definition pool_slice :: "pools \<Rightarrow> rat \<Rightarrow> nat \<Rightarrow> slice" where
  "pool_slice P compute i =
     (let v = compute * card_vram P (pl_cards P ! i)
      in \<lparr>sl_card = i, sl_vram = v, sl_compute = compute, sl_need = Some v\<rparr>)"

definition slice_fits :: "pools \<Rightarrow> slice \<Rightarrow> bool" where
  "slice_fits P s \<longleftrightarrow>
     card_free_vram (pl_cards P ! sl_card s) \<ge> the (sl_need s) - eps
     \<and> gc_computeFree (pl_cards P ! sl_card s) \<ge> sl_compute s - eps"

text \<open>The branch of the shielded pool: every one of its cards gives the same share, or none does.\<close>

definition alloc_pooled :: "pools \<Rightarrow> nat list \<Rightarrow> rat \<Rightarrow> rat \<Rightarrow> (handle \<times> pools) option" where
  "alloc_pooled P ids compute cpu =
     (if \<not> compute > 0 \<or> pl_cpuFree P < cpu - eps then None
      else let ss = map (pool_slice P compute) ids
           in if \<not> list_all (slice_fits P) ss then None
              else Some (GpuHandle ss cpu,
                P\<lparr>pl_cards := foldl take_slice (pl_cards P) ss, pl_cpuFree := pl_cpuFree P - cpu\<rparr>))"

text \<open>Best fit: the card that the slice leaves with the least free VRAM, the first of equals.\<close>

definition fitting :: "pools \<Rightarrow> rat \<Rightarrow> rat \<Rightarrow> nat list" where
  "fitting P vram compute =
     sort_key (\<lambda>i. card_free_vram (pl_cards P ! i) - card_need P vram compute (pl_cards P ! i))
       (filter (\<lambda>i. card_free_vram (pl_cards P ! i) \<ge> card_need P vram compute (pl_cards P ! i) - eps
            \<and> gc_computeFree (pl_cards P ! i) \<ge> compute - eps) [0..<length (pl_cards P)])"

definition alloc_gpu :: "pools \<Rightarrow> rat \<Rightarrow> rat \<Rightarrow> rat \<Rightarrow> (handle \<times> pools) option" where
  "alloc_gpu P vram compute cpu =
     (case pl_pool P of
        Some ids \<Rightarrow> alloc_pooled P ids compute cpu
      | None \<Rightarrow>
          if pl_cpuFree P < cpu - eps then None
          else (case fitting P vram compute of
                  [] \<Rightarrow> None
                | i # _ \<Rightarrow>
                    let c = pl_cards P ! i; nv = card_need P vram compute c;
                        s = \<lparr>sl_card = i, sl_vram = (if gc_shielded c then nv else vram), sl_compute = compute,
                             sl_need = Some nv\<rparr>
                    in Some (GpuHandle [s] cpu,
                         P\<lparr>pl_cards := take_slice (pl_cards P) s, pl_cpuFree := pl_cpuFree P - cpu\<rparr>)))"

definition give_back :: "pools \<Rightarrow> card list \<Rightarrow> slice \<Rightarrow> card list" where
  "give_back P cs s =
     (if sl_card s < length cs then
        let c = cs ! sl_card s
        in cs[sl_card s := c\<lparr>gc_vramFree := min (card_vram P c) (gc_vramFree c + the (sl_need s)),
                             gc_computeFree := min 1 (gc_computeFree c + sl_compute s)\<rparr>]
      else cs)"

primrec release_gpu :: "pools \<Rightarrow> handle \<Rightarrow> pools" where
  "release_gpu P (CpuHandle share) = P\<lparr>pl_cpuFree := min 1 (pl_cpuFree P + share)\<rparr>"
| "release_gpu P (GpuHandle ss cpu) =
     P\<lparr>pl_cpuFree := min 1 (pl_cpuFree P + cpu), pl_cards := foldl (give_back P) (pl_cards P) ss\<rparr>"

text \<open>What is advertised as free.\<close>

definition max_free_cpu :: "pools \<Rightarrow> rat" where
  "max_free_cpu P = max 0 (min 1 (pl_cpuFree P))"

definition card_share_free :: "pools \<Rightarrow> card \<Rightarrow> rat" where
  "card_share_free P c = min (gc_computeFree c) ((card_free_vram c - ctx_overhead P) / card_vram P c)"

definition max_free_gpu_share :: "pools \<Rightarrow> rat" where
  "max_free_gpu_share P =
     (if \<not> pl_isGpu P \<or> pl_cards P = [] then 0
      else max 0 ((if pl_pool P \<noteq> None then Min else Max) (set (map (card_share_free P) (pl_cards P)))))"

section \<open>Records and reconciliation\<close>

type_synonym held_record = "string \<times> handle option"

definition ended :: "string \<Rightarrow> bool" where
  "ended st \<longleftrightarrow> st \<in> {''expired'', ''failed'', ''terminated'', ''stopping''}"

definition live_handles :: "held_record list \<Rightarrow> handle list" where
  "live_handles rs = List.map_filter (\<lambda>(st, h). if ended st then None else h) rs"

primrec handle_cpu :: "handle \<Rightarrow> rat" where
  "handle_cpu (CpuHandle share) = share"
| "handle_cpu (GpuHandle ss cpu) = cpu"

primrec handle_slices :: "handle \<Rightarrow> slice list" where
  "handle_slices (CpuHandle share) = []"
| "handle_slices (GpuHandle ss cpu) = ss"

definition slice_need :: "pools \<Rightarrow> slice \<Rightarrow> rat" where
  "slice_need P s = (case sl_need s of Some v \<Rightarrow> v | None \<Rightarrow> sl_vram s + ctx_overhead P)"

definition held_cpu :: "handle list \<Rightarrow> rat" where
  "held_cpu hs = sum_list (map handle_cpu hs)"

definition slices_on :: "nat \<Rightarrow> handle list \<Rightarrow> slice list" where
  "slices_on i hs = filter (\<lambda>s. sl_card s = i) (concat (map handle_slices hs))"

definition held_vram :: "pools \<Rightarrow> nat \<Rightarrow> handle list \<Rightarrow> rat" where
  "held_vram P i hs = sum_list (map (slice_need P) (slices_on i hs))"

definition held_compute :: "nat \<Rightarrow> handle list \<Rightarrow> rat" where
  "held_compute i hs = sum_list (map sl_compute (slices_on i hs))"

text \<open>A drift of at most 1e-6 is left alone.\<close>

definition settle :: "rat \<Rightarrow> rat \<Rightarrow> rat" where
  "settle v want = (if \<bar>v - want\<bar> \<le> 1 / 1000000 then v else want)"

definition reconcile_card :: "pools \<Rightarrow> handle list \<Rightarrow> nat \<Rightarrow> card" where
  "reconcile_card P hs i =
     (let c = pl_cards P ! i; t = card_vram P c
      in c\<lparr>gc_vramFree := settle (gc_vramFree c) (max 0 (min t (t - held_vram P i hs))),
           gc_computeFree := settle (gc_computeFree c) (max 0 (min 1 (1 - held_compute i hs)))\<rparr>)"

definition reconcile_pools :: "pools \<Rightarrow> held_record list \<Rightarrow> pools \<times> held_record list" where
  "reconcile_pools P rs =
     (let hs = live_handles rs
      in (P\<lparr>pl_cpuFree := settle (pl_cpuFree P) (max 0 (min 1 (1 - held_cpu hs))),
            pl_cards := map (reconcile_card P hs) [0..<length (pl_cards P)]\<rparr>,
          map (\<lambda>(st, h). (st, if ended st then None else h)) rs))"

text \<open>\<open>adoptCardVram\<close>: the probed size replaces the configured one and the free pools move by the difference.\<close>

definition adopt_card_vram :: "pools \<Rightarrow> rat \<Rightarrow> pools" where
  "adopt_card_vram P gb =
     (if \<not> pl_isGpu P \<or> \<not> gb > 0 \<or> \<bar>gb - pl_cardVram P\<bar> < 5 / 100 then P
      else let delta = gb - pl_cardVram P
           in P\<lparr>pl_cards := map (\<lambda>c. c\<lparr>gc_vramFree := max 0 (gc_vramFree c + delta)\<rparr>) (pl_cards P),
                pl_cardVram := gb\<rparr>)"

text \<open>\<open>loadState\<close> reserves again what the restored records hold; a terminal one drops its handle.\<close>

definition reserve_slice :: "card list \<Rightarrow> slice \<Rightarrow> card list" where
  "reserve_slice cs s = (if sl_card s < length cs then take_slice cs s else cs)"

primrec reserve_handle :: "pools \<Rightarrow> handle \<Rightarrow> pools" where
  "reserve_handle P (CpuHandle share) = P\<lparr>pl_cpuFree := max 0 (pl_cpuFree P - share)\<rparr>"
| "reserve_handle P (GpuHandle ss cpu) =
     P\<lparr>pl_cpuFree := max 0 (pl_cpuFree P - cpu), pl_cards := foldl reserve_slice (pl_cards P) ss\<rparr>"

definition restored_status :: "string \<Rightarrow> string" where
  "restored_status st =
     (if st = ''stopping'' then ''terminated''
      else if \<not> ended st \<and> st \<noteq> ''running'' \<and> st \<noteq> ''awaiting_payment'' then ''expired''
      else st)"

definition load_state :: "pools \<Rightarrow> held_record list \<Rightarrow> pools \<times> held_record list" where
  "load_state P rs =
     (let rs' = map (\<lambda>(st, h). (restored_status st, if ended (restored_status st) then None else h)) rs
      in (foldl reserve_handle P (live_handles rs'), rs'))"

section \<open>The life of the pools\<close>

datatype pool_event =
    TakeGpu rat rat
  | TakeCpu rat
  | Drop nat
  | Resize nat rat rat
  | Lose nat
  | Reconcile

text \<open>
  A request adds a running record with its slice; \<open>Drop\<close> is a terminal flip, which releases in the
  same block; \<open>Resize\<close> is the swap of \<open>switchTenantVersion\<close>, which releases, allocates at the new size
  and evicts when that does not fit; \<open>Lose\<close> is a flip whose release was missed.
\<close>

definition request :: "pools \<Rightarrow> rat \<Rightarrow> rat \<Rightarrow> (handle \<times> pools) option" where
  "request P gpuShare cpuShare =
     (if gpuShare > 0 then (case normalize_gpu_req P gpuShare cpuShare of (v, g, c) \<Rightarrow> alloc_gpu P v g c)
      else alloc_cpu P (normalize_cpu_req cpuShare))"

definition held_at :: "held_record list \<Rightarrow> nat \<Rightarrow> handle option" where
  "held_at rs k = (if k < length rs \<and> \<not> ended (fst (rs ! k)) then snd (rs ! k) else None)"

definition resize :: "pools \<Rightarrow> held_record list \<Rightarrow> nat \<Rightarrow> handle \<Rightarrow> rat \<Rightarrow> rat \<Rightarrow> pools \<times> held_record list" where
  "resize P rs k h g c =
     (case request (release_gpu P h) g c of
        None \<Rightarrow> (release_gpu P h, rs[k := (''expired'', None)])
      | Some (h', P') \<Rightarrow> (P', rs[k := (''claimed'', Some h')]))"

definition attach :: "held_record list \<Rightarrow> (handle \<times> pools) option \<Rightarrow> pools \<Rightarrow> pools \<times> held_record list" where
  "attach rs r P = (case r of None \<Rightarrow> (P, rs) | Some (h, P') \<Rightarrow> (P', rs @ [(''running'', Some h)]))"

primrec pool_step :: "pools \<times> held_record list \<Rightarrow> pool_event \<Rightarrow> pools \<times> held_record list" where
  "pool_step PR (TakeGpu g c) = attach (snd PR) (request (fst PR) g c) (fst PR)"
| "pool_step PR (TakeCpu c) = attach (snd PR) (request (fst PR) 0 c) (fst PR)"
| "pool_step PR (Drop k) =
     (case held_at (snd PR) k of
        Some h \<Rightarrow> (release_gpu (fst PR) h, (snd PR)[k := (''terminated'', None)])
      | None \<Rightarrow> PR)"
| "pool_step PR (Resize k g c) =
     (case held_at (snd PR) k of Some h \<Rightarrow> resize (fst PR) (snd PR) k h g c | None \<Rightarrow> PR)"
| "pool_step PR (Lose k) =
     (if k < length (snd PR) then (fst PR, (snd PR)[k := (''failed'', snd (snd PR ! k))]) else PR)"
| "pool_step PR Reconcile = reconcile_pools (fst PR) (snd PR)"

definition fresh_pools :: "rat \<Rightarrow> nat \<Rightarrow> pools" where
  "fresh_pools gb n = \<lparr>pl_cpuFree = 1,
     pl_cards = replicate n \<lparr>gc_vramFree = gb, gc_computeFree = 1, gc_vramTotal = None, gc_shielded = False,
       gc_available = False, gc_proofFree = 0\<rparr>,
     pl_cardVram = gb, pl_isGpu = (n > 0), pl_shielded = False, pl_pool = None\<rparr>"

definition pool_run :: "pools \<times> held_record list \<Rightarrow> pool_event list \<Rightarrow> pools \<times> held_record list" where
  "pool_run PR es = foldl pool_step PR es"


section \<open>Nothing is sold twice\<close>

definition good_handle :: "pools \<Rightarrow> handle \<Rightarrow> bool" where
  "good_handle P h \<longleftrightarrow> 0 \<le> handle_cpu h \<and>
     (\<forall>s \<in> set (handle_slices h). sl_card s < length (pl_cards P) \<and> 0 \<le> sl_compute s \<and> (\<exists>v \<ge> 0. sl_need s = Some v))"

definition pool_ok :: "pools \<Rightarrow> bool" where
  "pool_ok P \<longleftrightarrow> 1 \<le> pl_cardVram P \<and>
     (case pl_pool P of None \<Rightarrow> True | Some ids \<Rightarrow> distinct ids \<and> (\<forall>i \<in> set ids. i < length (pl_cards P)))"

definition card_ok :: "pools \<Rightarrow> handle list \<Rightarrow> nat \<Rightarrow> bool" where
  "card_ok P hs i \<longleftrightarrow> (let c = pl_cards P ! i
     in 1 \<le> card_vram P c \<and> - eps \<le> gc_vramFree c \<and> gc_vramFree c + held_vram P i hs \<le> card_vram P c
        \<and> - eps \<le> gc_computeFree c \<and> gc_computeFree c + held_compute i hs \<le> 1)"

definition sound :: "pools \<Rightarrow> handle list \<Rightarrow> bool" where
  "sound P hs \<longleftrightarrow> pool_ok P \<and> - eps \<le> pl_cpuFree P \<and> pl_cpuFree P + held_cpu hs \<le> 1
     \<and> (\<forall>i < length (pl_cards P). card_ok P hs i) \<and> (\<forall>h \<in> set hs. good_handle P h)"

lemma held_insert:
  "held_cpu (xs @ h # ys) = handle_cpu h + held_cpu (xs @ ys)"
  "held_vram P i (xs @ h # ys) = held_vram P i [h] + held_vram P i (xs @ ys)"
  "held_compute i (xs @ h # ys) = held_compute i [h] + held_compute i (xs @ ys)"
  by (simp_all add: held_cpu_def held_vram_def held_compute_def slices_on_def)

lemma good_nonneg:
  assumes "good_handle P h"
  shows "0 \<le> handle_cpu h" "0 \<le> held_vram Q i [h]" "0 \<le> held_compute i [h]"
proof -
  have "\<forall>s \<in> set (handle_slices h). 0 \<le> slice_need Q s \<and> 0 \<le> sl_compute s"
    using assms by (auto simp: good_handle_def slice_need_def)
  then show "0 \<le> held_vram Q i [h]" "0 \<le> held_compute i [h]"
    by (auto simp: held_vram_def held_compute_def slices_on_def intro!: sum_list_nonneg)
  show "0 \<le> handle_cpu h" using assms by (simp add: good_handle_def)
qed

text \<open>Taking and giving back slices, card by card.\<close>

definition same_card :: "card \<Rightarrow> card \<Rightarrow> bool" where
  "same_card c d \<longleftrightarrow> gc_vramTotal c = gc_vramTotal d \<and> gc_shielded c = gc_shielded d \<and> gc_available c = gc_available d
     \<and> gc_proofFree c = gc_proofFree d"

lemma same_card_vram: "same_card c d \<Longrightarrow> pl_cardVram P = pl_cardVram Q \<Longrightarrow> card_vram P c = card_vram Q d"
  by (auto simp: same_card_def card_vram_def split: option.split)

lemma take_slice_nth:
  assumes "sl_card s < length cs"
  shows "length (take_slice cs s) = length cs"
    "same_card (take_slice cs s ! i) (cs ! i)"
    "gc_vramFree (take_slice cs s ! i) = gc_vramFree (cs ! i) - (if sl_card s = i then the (sl_need s) else 0)"
    "gc_computeFree (take_slice cs s ! i) = gc_computeFree (cs ! i) - (if sl_card s = i then sl_compute s else 0)"
  using assms by (auto simp: take_slice_def Let_def same_card_def nth_list_update)

lemma take_slices_nth:
  assumes "\<forall>s \<in> set ss. sl_card s < length cs"
  shows "length (foldl take_slice cs ss) = length cs
    \<and> same_card (foldl take_slice cs ss ! i) (cs ! i)
    \<and> gc_vramFree (foldl take_slice cs ss ! i)
        = gc_vramFree (cs ! i) - sum_list (map (\<lambda>s. the (sl_need s)) (filter (\<lambda>s. sl_card s = i) ss))
    \<and> gc_computeFree (foldl take_slice cs ss ! i)
        = gc_computeFree (cs ! i) - sum_list (map sl_compute (filter (\<lambda>s. sl_card s = i) ss))"
  using assms
proof (induction ss arbitrary: cs)
  case Nil
  then show ?case by (simp add: same_card_def)
next
  case (Cons s ss)
  have l: "sl_card s < length cs" "length (take_slice cs s) = length cs"
    using Cons.prems take_slice_nth(1) by auto
  from Cons.IH [of "take_slice cs s"] Cons.prems l(2) take_slice_nth(2-4) [OF l(1), of i]
  show ?case by (auto simp: l(2) same_card_def)
qed

lemma give_back_nth:
  assumes "0 \<le> the (sl_need s)" "0 \<le> sl_compute s" "i < length cs"
  shows "same_card (give_back P cs s ! i) (cs ! i)"
    "gc_vramFree (give_back P cs s ! i) \<le> gc_vramFree (cs ! i) + (if sl_card s = i then the (sl_need s) else 0)"
    "gc_computeFree (give_back P cs s ! i) \<le> gc_computeFree (cs ! i) + (if sl_card s = i then sl_compute s else 0)"
    "min (card_vram P (cs ! i)) (gc_vramFree (cs ! i)) \<le> gc_vramFree (give_back P cs s ! i)"
    "min 1 (gc_computeFree (cs ! i)) \<le> gc_computeFree (give_back P cs s ! i)"
  using assms by (auto simp: give_back_def Let_def same_card_def nth_list_update min_def)

lemma give_back_length [simp]: "length (give_back P cs s) = length cs"
  by (simp add: give_back_def Let_def)

lemma give_backs_nth:
  assumes "\<forall>s \<in> set ss. 0 \<le> the (sl_need s) \<and> 0 \<le> sl_compute s" "i < length cs"
  shows "length (foldl (give_back P) cs ss) = length cs
    \<and> same_card (foldl (give_back P) cs ss ! i) (cs ! i)
    \<and> gc_vramFree (foldl (give_back P) cs ss ! i)
        \<le> gc_vramFree (cs ! i) + sum_list (map (\<lambda>s. the (sl_need s)) (filter (\<lambda>s. sl_card s = i) ss))
    \<and> gc_computeFree (foldl (give_back P) cs ss ! i)
        \<le> gc_computeFree (cs ! i) + sum_list (map sl_compute (filter (\<lambda>s. sl_card s = i) ss))
    \<and> min (card_vram P (cs ! i)) (gc_vramFree (cs ! i)) \<le> gc_vramFree (foldl (give_back P) cs ss ! i)
    \<and> min 1 (gc_computeFree (cs ! i)) \<le> gc_computeFree (foldl (give_back P) cs ss ! i)"
  using assms
proof (induction ss arbitrary: cs)
  case Nil
  then show ?case by (simp add: same_card_def)
next
  case (Cons s ss)
  let ?d = "give_back P cs s"
  have s: "0 \<le> the (sl_need s)" "0 \<le> sl_compute s" using Cons.prems by auto
  note n = give_back_nth [OF s Cons.prems(2), of P]
  have t: "card_vram P (?d ! i) = card_vram P (cs ! i)" by (rule same_card_vram [OF n(1) refl])
  have IH: "length (foldl (give_back P) ?d ss) = length ?d"
    "same_card (foldl (give_back P) ?d ss ! i) (?d ! i)"
    "gc_vramFree (foldl (give_back P) ?d ss ! i)
        \<le> gc_vramFree (?d ! i) + sum_list (map (\<lambda>s. the (sl_need s)) (filter (\<lambda>s. sl_card s = i) ss))"
    "gc_computeFree (foldl (give_back P) ?d ss ! i)
        \<le> gc_computeFree (?d ! i) + sum_list (map sl_compute (filter (\<lambda>s. sl_card s = i) ss))"
    "min (card_vram P (cs ! i)) (gc_vramFree (?d ! i)) \<le> gc_vramFree (foldl (give_back P) ?d ss ! i)"
    "min 1 (gc_computeFree (?d ! i)) \<le> gc_computeFree (foldl (give_back P) ?d ss ! i)"
    using Cons.IH [of ?d] Cons.prems unfolding t by auto
  have "min (card_vram P (cs ! i)) (gc_vramFree (cs ! i)) \<le> gc_vramFree (foldl (give_back P) ?d ss ! i)"
    by (rule order_trans [OF _ IH(5)]) (use n(4) in simp)
  moreover have "min 1 (gc_computeFree (cs ! i)) \<le> gc_computeFree (foldl (give_back P) ?d ss ! i)"
    by (rule order_trans [OF _ IH(6)]) (use n(5) in simp)
  moreover have "same_card (foldl (give_back P) ?d ss ! i) (cs ! i)"
    using IH(2) n(1) by (simp add: same_card_def)
  ultimately show ?case using IH(1,3,4) n(2,3) by (simp split: if_splits)
qed

lemma sound_release:
  assumes "sound P (xs @ h # ys)"
  shows "sound (release_gpu P h) (xs @ ys)"
proof -
  have g: "good_handle P h" and cpu: "0 \<le> handle_cpu h" using assms good_nonneg(1) by (auto simp: sound_def)
  have fr: "pl_cardVram (release_gpu P h) = pl_cardVram P \<and> pl_shielded (release_gpu P h) = pl_shielded P
      \<and> pl_pool (release_gpu P h) = pl_pool P \<and> pl_cpuFree (release_gpu P h) = min 1 (pl_cpuFree P + handle_cpu h)
      \<and> pl_cards (release_gpu P h) = foldl (give_back P) (pl_cards P) (handle_slices h)"
    by (cases h) auto
  have nn: "\<forall>s \<in> set (handle_slices h). 0 \<le> the (sl_need s) \<and> 0 \<le> sl_compute s"
    using g by (auto simp: good_handle_def)
  note b = give_backs_nth [OF nn, of _ "pl_cards P" P]
  have len: "length (pl_cards (release_gpu P h)) = length (pl_cards P)"
  proof (cases "pl_cards P = []")
    case True
    have "length (foldl (give_back P) cs ss) = length cs" for cs ss
      by (induction ss arbitrary: cs) auto
    then show ?thesis using fr by simp
  qed (use b [of 0] fr in auto)
  have hv: "held_vram Q i hs = held_vram P i hs" if "pl_shielded Q = pl_shielded P" for Q i hs
  proof -
    have "slice_need Q = slice_need P" using that by (intro ext) (simp add: slice_need_def ctx_overhead_def split: option.split)
    then show ?thesis by (simp add: held_vram_def)
  qed
  have need_h: "held_vram P i [h] = sum_list (map (\<lambda>s. the (sl_need s)) (filter (\<lambda>s. sl_card s = i) (handle_slices h)))" for i
    unfolding held_vram_def slices_on_def
    by (rule arg_cong [of _ _ sum_list], rule map_cong) (use g in \<open>auto simp: good_handle_def slice_need_def\<close>)
  have comp_h: "held_compute i [h] = sum_list (map sl_compute (filter (\<lambda>s. sl_card s = i) (handle_slices h)))" for i
    by (simp add: held_compute_def slices_on_def)
  have "card_ok (release_gpu P h) (xs @ ys) i" if i: "i < length (pl_cards P)" for i
  proof -
    have cv: "card_vram (release_gpu P h) (pl_cards (release_gpu P h) ! i) = card_vram P (pl_cards P ! i)"
      using b [OF i] fr by (intro same_card_vram) auto
    from assms i have ok: "card_ok P (xs @ h # ys) i" by (simp add: sound_def)
    with b [OF i] show ?thesis
      unfolding card_ok_def Let_def cv hv [of "release_gpu P h", OF conjunct1 [OF conjunct2 [OF fr]]]
      by (auto simp: fr held_insert need_h comp_h eps_def min_def split: if_splits)
  qed
  moreover have "pool_ok (release_gpu P h)" using assms fr len by (auto simp: sound_def pool_ok_def split: option.splits)
  moreover have "- eps \<le> pl_cpuFree (release_gpu P h)" "pl_cpuFree (release_gpu P h) + held_cpu (xs @ ys) \<le> 1"
    using assms cpu by (auto simp: sound_def fr held_insert(1) [of xs h ys] eps_def min_def)
  moreover have "\<forall>k \<in> set (xs @ ys). good_handle (release_gpu P h) k"
    using assms len by (auto simp: sound_def good_handle_def)
  ultimately show ?thesis using len by (simp add: sound_def)
qed


lemma held_vram_cong: "pl_shielded Q = pl_shielded P \<Longrightarrow> held_vram Q i hs = held_vram P i hs"
proof -
  assume "pl_shielded Q = pl_shielded P"
  then have "slice_need Q = slice_need P"
    by (intro ext) (simp add: slice_need_def ctx_overhead_def split: option.split)
  then show ?thesis by (simp add: held_vram_def)
qed

lemma held_one:
  assumes "\<forall>s \<in> set ss. sl_need s \<noteq> None"
  shows "held_vram P i [GpuHandle ss cpu] = sum_list (map (\<lambda>s. the (sl_need s)) (filter (\<lambda>s. sl_card s = i) ss))"
    "held_compute i [GpuHandle ss cpu] = sum_list (map sl_compute (filter (\<lambda>s. sl_card s = i) ss))"
proof -
  show "held_vram P i [GpuHandle ss cpu] = sum_list (map (\<lambda>s. the (sl_need s)) (filter (\<lambda>s. sl_card s = i) ss))"
    unfolding held_vram_def slices_on_def
    by (rule arg_cong [of _ _ sum_list], rule map_cong) (use assms in \<open>auto simp: slice_need_def\<close>)
qed (simp add: held_compute_def slices_on_def)

lemma one_per_card:
  assumes "distinct (map sl_card ss)"
  shows "filter (\<lambda>s. sl_card s = i) ss = [] \<or> (\<exists>s \<in> set ss. sl_card s = i \<and> filter (\<lambda>s. sl_card s = i) ss = [s])"
  using assms
proof (induction ss)
  case (Cons s ss)
  show ?case
  proof (cases "sl_card s = i")
    case True
    with Cons.prems have "\<forall>x \<in> set ss. sl_card x \<noteq> i" by (metis distinct.simps(2) image_eqI list.set_map list.simps(9))
    then have "filter (\<lambda>s. sl_card s = i) ss = []" by (simp add: filter_empty_conv)
    with True show ?thesis by simp
  qed (use Cons in auto)
qed simp

lemma sound_take:
  assumes s: "sound P (xs @ ys)" and cpu: "0 \<le> cpu" "cpu - eps \<le> pl_cpuFree P"
    and d: "distinct (map sl_card ss)"
    and ss: "\<forall>s \<in> set ss. sl_card s < length (pl_cards P) \<and> 0 \<le> sl_compute s \<and> (\<exists>v. sl_need s = Some v \<and> eps < v) \<and> slice_fits P s"
  shows "sound (P\<lparr>pl_cards := foldl take_slice (pl_cards P) ss, pl_cpuFree := pl_cpuFree P - cpu\<rparr>) (xs @ GpuHandle ss cpu # ys)"
proof -
  let ?Q = "P\<lparr>pl_cards := foldl take_slice (pl_cards P) ss, pl_cpuFree := pl_cpuFree P - cpu\<rparr>"
  have lt: "\<forall>s \<in> set ss. sl_card s < length (pl_cards P)" and some: "\<forall>s \<in> set ss. sl_need s \<noteq> None" using ss by auto
  note t = take_slices_nth [OF lt]
  note h1 = held_one [OF some]
  have "card_ok ?Q (xs @ GpuHandle ss cpu # ys) i" if i: "i < length (pl_cards P)" for i
  proof -
    let ?c = "pl_cards P ! i"
    have ok: "card_ok P (xs @ ys) i" using s i by (simp add: sound_def)
    have cv: "card_vram ?Q (foldl take_slice (pl_cards P) ss ! i) = card_vram P ?c"
      using t [of i] by (intro same_card_vram) auto
    have low: "- eps \<le> gc_vramFree ?c - sum_list (map (\<lambda>s. the (sl_need s)) (filter (\<lambda>s. sl_card s = i) ss))
        \<and> - eps \<le> gc_computeFree ?c - sum_list (map sl_compute (filter (\<lambda>s. sl_card s = i) ss))"
      using one_per_card [OF d, of i]
    proof
      assume "\<exists>s \<in> set ss. sl_card s = i \<and> filter (\<lambda>s. sl_card s = i) ss = [s]"
      then obtain s1 where s1: "s1 \<in> set ss" "sl_card s1 = i" "filter (\<lambda>s. sl_card s = i) ss = [s1]" by blast
      with ss obtain v where "sl_need s1 = Some v" "eps < v" "slice_fits P s1" by blast
      then have "v - eps \<le> card_free_vram ?c" "sl_compute s1 - eps \<le> gc_computeFree ?c"
        using s1(2) by (simp_all add: slice_fits_def)
      moreover from this(1) \<open>eps < v\<close> have "card_free_vram ?c \<le> gc_vramFree ?c"
        by (auto simp: card_free_vram_def)
      ultimately show ?thesis using \<open>sl_need s1 = Some v\<close> by (simp add: s1(3))
    qed (use ok in \<open>simp add: card_ok_def Let_def\<close>)
    show ?thesis
      using ok low t [of i] unfolding card_ok_def Let_def
      by (simp add: cv held_insert h1 held_vram_cong [of ?Q P])
  qed
  moreover have "good_handle ?Q (GpuHandle ss cpu)"
    using cpu ss t [of 0] by (fastforce simp: good_handle_def eps_def)
  moreover have "length (pl_cards ?Q) = length (pl_cards P)" using t [of 0] by simp
  moreover from this s have "pool_ok ?Q" by (auto simp: sound_def pool_ok_def split: option.splits)
  ultimately show ?thesis
    using s cpu by (auto simp: sound_def held_insert good_handle_def)
qed

lemma sound_take_cpu:
  assumes "sound P (xs @ ys)" "0 \<le> share" "share - eps \<le> pl_cpuFree P"
  shows "sound (P\<lparr>pl_cpuFree := pl_cpuFree P - share\<rparr>) (xs @ CpuHandle share # ys)"
proof -
  let ?Q = "P\<lparr>pl_cpuFree := pl_cpuFree P - share\<rparr>"
  have "held_vram P i [CpuHandle share] = 0" "held_compute i [CpuHandle share] = 0" for i
    by (simp_all add: held_vram_def held_compute_def slices_on_def)
  moreover have "card_vram ?Q c = card_vram P c" for c
    by (simp add: card_vram_def split: option.split)
  ultimately have "card_ok ?Q (xs @ CpuHandle share # ys) i \<longleftrightarrow> card_ok P (xs @ ys) i" for i
    by (simp add: card_ok_def Let_def held_insert held_vram_cong [of ?Q P])
  moreover have "pool_ok ?Q" using assms(1) by (auto simp: sound_def pool_ok_def split: option.splits)
  ultimately show ?thesis using assms by (auto simp: sound_def good_handle_def held_insert)
qed

text \<open>A quantized request asks for at least one percent, so a slice is never within the tolerance.\<close>

lemma quantize_bounds: "1 \<le> quantize_pct x" "quantize_pct x \<le> 100"
  by (auto simp: quantize_pct_def MIN_COMPUTE_PCT_def)

lemma round_up_ge: "v \<le> round_up v"
proof -
  have "v / GRANULARITY_GB \<le> of_int \<lceil>v / GRANULARITY_GB\<rceil>" by (rule le_of_int_ceiling)
  then show ?thesis by (simp add: round_up_def GRANULARITY_GB_def field_simps)
qed

lemma percent_positive: "eps < of_int (quantize_pct x) / 100"
  "1 \<le> (t :: rat) \<Longrightarrow> eps < of_int (quantize_pct x) / 100 * t"
proof -
  have q: "(1 :: rat) \<le> of_int (quantize_pct x)" using quantize_bounds(1) [of x] by simp
  show "eps < of_int (quantize_pct x) / 100" using q by (simp add: eps_def)
  assume "1 \<le> t"
  have "1 / 100 * 1 \<le> of_int (quantize_pct x) / 100 * t"
    by (rule mult_mono) (use q \<open>1 \<le> t\<close> in auto)
  then show "eps < of_int (quantize_pct x) / 100 * t" by (simp add: eps_def)
qed

lemma sound_pooled:
  assumes s: "sound P (xs @ ys)" and ids: "pl_pool P = Some ids" and g: "g = of_int (quantize_pct x) / 100"
    and c: "0 \<le> c" and a: "alloc_pooled P ids g c = Some (h, P')"
  shows "sound P' (xs @ h # ys)"
proof -
  let ?ss = "map (pool_slice P g) ids"
  from a have cpu: "c - eps \<le> pl_cpuFree P" and fit: "list_all (slice_fits P) ?ss"
    and h: "h = GpuHandle ?ss c" "P' = P\<lparr>pl_cards := foldl take_slice (pl_cards P) ?ss, pl_cpuFree := pl_cpuFree P - c\<rparr>"
    by (auto simp: alloc_pooled_def Let_def split: if_splits)
  from s ids have ok: "distinct ids" "\<forall>i \<in> set ids. i < length (pl_cards P)" by (auto simp: sound_def pool_ok_def)
  have "map sl_card ?ss = ids" by (simp add: pool_slice_def Let_def comp_def)
  moreover have "eps < g * card_vram P (pl_cards P ! i)" if "i \<in> set ids" for i
    unfolding g by (rule percent_positive(2)) (use s ok(2) that in \<open>auto simp: sound_def card_ok_def Let_def\<close>)
  moreover have "0 \<le> g" using percent_positive(1) [of x] g by (simp add: eps_def)
  ultimately show ?thesis
    unfolding h using fit ok c cpu by (intro sound_take [OF s]) (auto simp: pool_slice_def Let_def list_all_iff)
qed

lemma best_fit_cases:
  assumes "pl_pool P = None" "alloc_gpu P v g c = Some (h, P')"
  obtains s nv where "h = GpuHandle [s] c"
    "P' = P\<lparr>pl_cards := foldl take_slice (pl_cards P) [s], pl_cpuFree := pl_cpuFree P - c\<rparr>"
    "c - eps \<le> pl_cpuFree P" "sl_card s < length (pl_cards P)" "sl_compute s = g" "sl_need s = Some nv" "v \<le> nv"
    "slice_fits P s"
proof -
  from assms obtain i js where cpu: "c - eps \<le> pl_cpuFree P" and f: "fitting P v g = i # js"
    by (auto simp: alloc_gpu_def split: if_splits list.splits)
  define nv where "nv = card_need P v g (pl_cards P ! i)"
  define s where "s = \<lparr>sl_card = i, sl_vram = (if gc_shielded (pl_cards P ! i) then nv else v), sl_compute = g, sl_need = Some nv\<rparr>"
  have h: "h = GpuHandle [s] c" "P' = P\<lparr>pl_cards := foldl take_slice (pl_cards P) [s], pl_cpuFree := pl_cpuFree P - c\<rparr>"
    using assms f cpu by (auto simp: alloc_gpu_def Let_def nv_def s_def)
  have "i \<in> set (fitting P v g)" by (simp add: f)
  then have "i < length (pl_cards P)" "slice_fits P s"
    by (auto simp: fitting_def nv_def s_def slice_fits_def)
  moreover have "v \<le> nv" by (auto simp: nv_def card_need_def ctx_overhead_def CTX_OVERHEAD_GB_def)
  ultimately show ?thesis using h cpu by (intro that [of s nv]) (simp_all add: s_def)
qed

lemma sound_best_fit:
  assumes s: "sound P (xs @ ys)" and no: "pl_pool P = None" and g: "0 \<le> g" and v: "eps < v" and c: "0 \<le> c"
    and a: "alloc_gpu P v g c = Some (h, P')"
  shows "sound P' (xs @ h # ys)"
proof -
  from best_fit_cases [OF no a] obtain sl nv where h: "h = GpuHandle [sl] c"
    "P' = P\<lparr>pl_cards := foldl take_slice (pl_cards P) [sl], pl_cpuFree := pl_cpuFree P - c\<rparr>"
    and sl: "c - eps \<le> pl_cpuFree P" "sl_card sl < length (pl_cards P)" "sl_compute sl = g" "sl_need sl = Some nv"
      "v \<le> nv" "slice_fits P sl" by metis
  show ?thesis
    unfolding h by (rule sound_take [OF s]) (use sl g v c in auto)
qed

lemma sound_request:
  assumes s: "sound P (xs @ ys)" and r: "request P g c = Some (h, P')"
  shows "sound P' (xs @ h # ys)"
proof (cases "g > 0")
  case False
  from percent_positive(1) [of c] have n: "0 \<le> normalize_cpu_req c" by (simp add: normalize_cpu_req_def eps_def)
  from False r have "h = CpuHandle (normalize_cpu_req c)" "normalize_cpu_req c - eps \<le> pl_cpuFree P"
    "P' = P\<lparr>pl_cpuFree := pl_cpuFree P - normalize_cpu_req c\<rparr>"
    by (auto simp: request_def alloc_cpu_def split: if_splits)
  with sound_take_cpu [OF s n] show ?thesis by simp
next
  case True
  let ?g = "of_int (quantize_pct g) / 100 :: rat" and ?c = "of_int (quantize_pct c) / 100 :: rat"
  have nn: "0 \<le> ?g" "0 \<le> ?c" using percent_positive(1) [of g] percent_positive(1) [of c] by (simp_all add: eps_def)
  have t: "1 \<le> pl_cardVram P" using s by (simp add: sound_def pool_ok_def)
  show ?thesis
  proof (cases "pl_pool P")
    case (Some ids)
    with r True have "alloc_pooled P ids ?g ?c = Some (h, P')"
      by (simp add: request_def normalize_gpu_req_def alloc_gpu_def Let_def)
    from sound_pooled [OF s Some refl nn(2) this] show ?thesis .
  next
    case None
    with r True have a: "alloc_gpu P (round_up (?g * pl_cardVram P)) ?g ?c = Some (h, P')"
      by (simp add: request_def normalize_gpu_req_def Let_def)
    have "eps < round_up (?g * pl_cardVram P)"
      using percent_positive(2) [OF t, of g] round_up_ge [of "?g * pl_cardVram P"] by linarith
    from sound_best_fit [OF s None nn(1) this nn(2) a] show ?thesis .
  qed
qed


section \<open>Records\<close>

lemma live_simps [simp]:
  "live_handles [] = []"
  "live_handles ((st, h) # rs) = (if ended st \<or> h = None then [] else [the h]) @ live_handles rs"
  "live_handles (xs @ ys) = live_handles xs @ live_handles ys"
  by (auto simp: live_handles_def List.map_filter_def)

lemma status_terminal [simp]:
  "\<not> ended ''running''" "\<not> ended ''claimed''" "ended ''terminated''" "ended ''expired''" "ended ''failed''"
  by (simp_all add: ended_def)

lemma record_split:
  "k < length rs \<Longrightarrow> \<exists>xs ys. rs = xs @ rs ! k # ys \<and> (\<forall>r. rs[k := r] = xs @ r # ys)"
  by (metis id_take_nth_drop upd_conv_take_nth_drop)

lemma held_at_split:
  assumes "held_at rs k = Some h"
  obtains xs ys where "live_handles rs = xs @ h # ys"
    "\<And>st. live_handles (rs[k := (st, None)]) = xs @ ys"
    "\<And>st h'. \<not> ended st \<Longrightarrow> live_handles (rs[k := (st, Some h')]) = xs @ h' # ys"
proof -
  from assms have k: "k < length rs" and t: "\<not> ended (fst (rs ! k))" "snd (rs ! k) = Some h"
    by (auto simp: held_at_def split: if_splits)
  from record_split [OF k] obtain us vs where u: "rs = us @ rs ! k # vs" "\<And>r. rs[k := r] = us @ r # vs" by blast
  have r: "rs ! k = (fst (rs ! k), Some h)" using t(2) by (metis prod.collapse)
  have "live_handles rs = live_handles us @ h # live_handles vs"
    by (subst u(1), subst r) (simp add: t)
  then show ?thesis by (rule that) (simp_all add: u(2))
qed

lemma lose_split:
  assumes "k < length rs"
  shows "live_handles (rs[k := (''failed'', snd (rs ! k))]) = live_handles rs
    \<or> (\<exists>xs h ys. live_handles rs = xs @ h # ys \<and> live_handles (rs[k := (''failed'', snd (rs ! k))]) = xs @ ys)"
proof -
  from record_split [OF assms] obtain us vs where u: "rs = us @ rs ! k # vs" "\<And>r. rs[k := r] = us @ r # vs" by blast
  obtain st h where r: "rs ! k = (st, h)" by (cases "rs ! k")
  have l: "live_handles (rs[k := (''failed'', snd (rs ! k))]) = live_handles us @ live_handles vs"
    by (simp add: u(2))
  have "live_handles rs = live_handles us @ (if ended st \<or> h = None then [] else [the h]) @ live_handles vs"
    by (subst u(1), subst r) simp
  with l show ?thesis by (cases "ended st \<or> h = None") auto
qed

section \<open>Reconciliation\<close>

lemma live_reconciled [simp]: "live_handles (snd (reconcile_pools P rs)) = live_handles rs"
proof -
  have "live_handles (map (\<lambda>(st, h). (st, if ended st then None else h)) rs) = live_handles rs"
    by (induction rs) auto
  then show ?thesis by (simp add: reconcile_pools_def Let_def)
qed

lemma settle_close: "\<bar>settle v want - want\<bar> \<le> 1 / 1000000"
  by (simp add: settle_def)

lemma settle_close_scaled: "\<bar>settle v want - want\<bar> * 1000000 \<le> 1"
  using settle_close [of v want] by simp

lemma settle_settle: "settle (settle v want) want = settle v want"
  by (simp add: settle_def)

lemma settle_ok:
  assumes "- eps \<le> v" "v + held \<le> t" "0 \<le> held"
  shows "- eps \<le> settle v (max 0 (min t (t - held))) \<and> settle v (max 0 (min t (t - held))) + held \<le> t"
  using assms by (cases "held \<le> t") (auto simp: settle_def eps_def min_def max_def abs_if split: if_splits)

text \<open>What a step leaves alone: the hardware of every card and the pool's settings.\<close>

definition frame :: "pools \<Rightarrow> pools \<Rightarrow> bool" where
  "frame P Q \<longleftrightarrow> pl_cardVram P = pl_cardVram Q \<and> pl_shielded P = pl_shielded Q \<and> pl_pool P = pl_pool Q
     \<and> pl_isGpu P = pl_isGpu Q \<and> length (pl_cards P) = length (pl_cards Q)
     \<and> (\<forall>i < length (pl_cards Q). same_card (pl_cards P ! i) (pl_cards Q ! i))"

lemma frame_refl: "frame P P"
  by (simp add: frame_def same_card_def)

lemma frame_trans: "frame P Q \<Longrightarrow> frame Q R \<Longrightarrow> frame P R"
  by (auto simp: frame_def same_card_def)

lemma frame_vram: "frame P Q \<Longrightarrow> i < length (pl_cards Q) \<Longrightarrow> card_vram P (pl_cards P ! i) = card_vram Q (pl_cards Q ! i)"
  by (rule same_card_vram) (auto simp: frame_def)

lemma frame_held: "frame P Q \<Longrightarrow> held_vram P i hs = held_vram Q i hs"
  by (rule held_vram_cong) (simp add: frame_def)

lemma frame_reconcile: "frame (fst (reconcile_pools P rs)) P"
  by (simp add: frame_def reconcile_pools_def Let_def reconcile_card_def same_card_def)

lemma frame_good: "frame P Q \<Longrightarrow> good_handle P h = good_handle Q h"
  by (simp add: frame_def good_handle_def)

lemma frame_pool_ok: "frame P Q \<Longrightarrow> pool_ok P = pool_ok Q"
  by (auto simp: frame_def pool_ok_def split: option.split)

lemma held_nonneg:
  assumes "\<forall>h \<in> set hs. good_handle P h"
  shows "0 \<le> held_cpu hs" "0 \<le> held_vram Q i hs" "0 \<le> held_compute i hs"
proof -
  have "0 \<le> held_cpu hs \<and> 0 \<le> held_vram Q i hs \<and> 0 \<le> held_compute i hs"
    using assms
  proof (induction hs)
    case Nil
    show ?case by (simp add: held_cpu_def held_vram_def held_compute_def slices_on_def)
  next
    case (Cons h hs)
    then have g: "good_handle P h" by simp
    from Cons held_insert(1) [of "[]" h hs] held_insert(2) [of Q i "[]" h hs] held_insert(3) [of i "[]" h hs] good_nonneg [OF g]
    show ?case by auto
  qed
  then show "0 \<le> held_cpu hs" "0 \<le> held_vram Q i hs" "0 \<le> held_compute i hs" by auto
qed

lemma reconcile_fields:
  "pl_cpuFree (fst (reconcile_pools P rs)) = settle (pl_cpuFree P) (max 0 (min 1 (1 - held_cpu (live_handles rs))))"
  "length (pl_cards (fst (reconcile_pools P rs))) = length (pl_cards P)"
  "i < length (pl_cards P) \<Longrightarrow> pl_cards (fst (reconcile_pools P rs)) ! i = reconcile_card P (live_handles rs) i"
  by (simp_all add: reconcile_pools_def Let_def)

lemma sound_reconcile:
  assumes "sound P (live_handles rs)"
  shows "sound (fst (reconcile_pools P rs)) (live_handles rs)"
proof -
  let ?hs = "live_handles rs" and ?Q = "fst (reconcile_pools P rs)"
  have g: "\<forall>h \<in> set ?hs. good_handle P h" using assms by (simp add: sound_def)
  note nn = held_nonneg [OF g]
  have "card_ok ?Q ?hs i" if i: "i < length (pl_cards P)" for i
  proof -
    have ok: "card_ok P ?hs i" using assms i by (simp add: sound_def)
    have cv: "card_vram ?Q (reconcile_card P ?hs i) = card_vram P (pl_cards P ! i)"
      using frame_vram [OF frame_reconcile i, of rs] i by (simp add: reconcile_fields)
    have f: "gc_vramFree (reconcile_card P ?hs i) = settle (gc_vramFree (pl_cards P ! i))
          (max 0 (min (card_vram P (pl_cards P ! i)) (card_vram P (pl_cards P ! i) - held_vram P i ?hs)))"
      "gc_computeFree (reconcile_card P ?hs i) = settle (gc_computeFree (pl_cards P ! i)) (max 0 (min 1 (1 - held_compute i ?hs)))"
      by (simp_all add: reconcile_card_def Let_def)
    show ?thesis
      using ok settle_ok [of "gc_vramFree (pl_cards P ! i)" "held_vram P i ?hs" "card_vram P (pl_cards P ! i)"]
        settle_ok [of "gc_computeFree (pl_cards P ! i)" "held_compute i ?hs" 1] nn(2) [of P i] nn(3) [of i]
      unfolding card_ok_def Let_def reconcile_fields(3) [OF i] cv f frame_held [OF frame_reconcile] by blast
  qed
  moreover have "- eps \<le> pl_cpuFree ?Q \<and> pl_cpuFree ?Q + held_cpu ?hs \<le> 1"
    unfolding reconcile_fields by (rule settle_ok) (use assms nn(1) in \<open>simp_all add: sound_def\<close>)
  ultimately show ?thesis
    using assms g by (simp add: sound_def reconcile_fields frame_good [OF frame_reconcile] frame_pool_ok [OF frame_reconcile])
qed

text \<open>
  Reconciliation heals any drift in one pass. Whatever the pools hold, after a pass every pool is
  within 1e-6 of what the hardware leaves beside the live records, no ended record holds a handle, the
  live ones keep theirs, and a second pass changes nothing.
\<close>
theorem reconciliation_heals_drift:
  "let PR = reconcile_pools P rs; hs = live_handles rs
   in reconcile_pools (fst PR) (snd PR) = PR
    \<and> live_handles (snd PR) = hs
    \<and> list_all (\<lambda>r. snd r = None) (filter (\<lambda>r. ended (fst r)) (snd PR))
    \<and> \<bar>pl_cpuFree (fst PR) - max 0 (min 1 (1 - held_cpu hs))\<bar> \<le> 1 / 1000000
    \<and> list_all (\<lambda>i. let c = pl_cards (fst PR) ! i; t = card_vram P (pl_cards P ! i)
         in \<bar>gc_vramFree c - max 0 (min t (t - held_vram P i hs))\<bar> \<le> 1 / 1000000
            \<and> \<bar>gc_computeFree c - max 0 (min 1 (1 - held_compute i hs))\<bar> \<le> 1 / 1000000)
        [0..<length (pl_cards P)]"
proof -
  let ?PR = "reconcile_pools P rs" and ?hs = "live_handles rs"
  let ?Q = "fst ?PR"
  have rs: "snd ?PR = map (\<lambda>(st, h). (st, if ended st then None else h)) rs"
    by (simp add: reconcile_pools_def Let_def)
  have cards: "reconcile_card ?Q ?hs i = pl_cards ?Q ! i" if i: "i < length (pl_cards P)" for i
  proof -
    have "card_vram ?Q (pl_cards ?Q ! i) = card_vram P (pl_cards P ! i)" by (rule frame_vram [OF frame_reconcile i])
    then show ?thesis
      using i by (simp add: reconcile_card_def Let_def reconcile_fields frame_held [OF frame_reconcile] settle_settle)
  qed
  have twice: "reconcile_pools ?Q (snd ?PR) = ?PR"
  proof (rule prod_eqI)
    show "fst (reconcile_pools ?Q (snd ?PR)) = fst ?PR"
      by (rule pools.equality)
        (auto simp: reconcile_pools_def [of ?Q] Let_def reconcile_fields settle_settle cards intro!: nth_equalityI)
    show "snd (reconcile_pools ?Q (snd ?PR)) = snd ?PR"
      by (simp add: reconcile_pools_def [of ?Q] Let_def rs comp_def case_prod_unfold)
  qed
  have "list_all (\<lambda>r. snd r = None) (filter (\<lambda>r. ended (fst r)) (snd ?PR))"
    unfolding rs by (induction rs) auto
  moreover have "list_all (\<lambda>i. let c = pl_cards ?Q ! i; t = card_vram P (pl_cards P ! i)
         in \<bar>gc_vramFree c - max 0 (min t (t - held_vram P i ?hs))\<bar> \<le> 1 / 1000000
            \<and> \<bar>gc_computeFree c - max 0 (min 1 (1 - held_compute i ?hs))\<bar> \<le> 1 / 1000000)
        [0..<length (pl_cards P)]"
    by (simp add: list_all_iff reconcile_fields reconcile_card_def Let_def settle_close_scaled)
  ultimately show ?thesis
    unfolding Let_def using twice settle_close [of "pl_cpuFree P"] by (simp add: reconcile_fields)
qed


section \<open>The pools over any life of the enclave\<close>

lemma sound_drop: "sound P (xs @ h # ys) \<Longrightarrow> sound P (xs @ ys)"
proof -
  assume s: "sound P (xs @ h # ys)"
  then have g: "good_handle P h" by (simp add: sound_def)
  note nn = good_nonneg [OF g]
  have "card_ok P (xs @ ys) i" if "i < length (pl_cards P)" for i
    using s that nn(2) [of P i] nn(3) [of i] by (fastforce simp: sound_def card_ok_def Let_def held_insert)
  then show ?thesis using s nn(1) by (auto simp: sound_def held_insert)
qed

lemma frame_take_slices:
  assumes "\<forall>s \<in> set ss. sl_card s < length (pl_cards P)"
  shows "frame (P\<lparr>pl_cards := foldl take_slice (pl_cards P) ss, pl_cpuFree := c\<rparr>) P"
  using take_slices_nth [OF assms] by (simp add: frame_def)

lemma frame_request:
  assumes s: "sound P hs" and r: "request P g c = Some (h, P')"
  shows "frame P' P"
proof (cases "g > 0")
  case False
  with r show ?thesis by (auto simp: request_def alloc_cpu_def frame_def same_card_def split: if_splits)
next
  case True
  obtain v g1 c1 where a: "alloc_gpu P v g1 c1 = Some (h, P')"
    using r True by (auto simp: request_def split: prod.splits)
  show ?thesis
  proof (cases "pl_pool P")
    case (Some ids)
    with s have "\<forall>i \<in> set ids. i < length (pl_cards P)" by (simp add: sound_def pool_ok_def)
    then have "\<forall>x \<in> set (map (pool_slice P g1) ids). sl_card x < length (pl_cards P)"
      by (auto simp: pool_slice_def Let_def)
    with a Some frame_take_slices show ?thesis
      by (auto simp: alloc_gpu_def alloc_pooled_def Let_def split: if_splits)
  next
    case None
    from best_fit_cases [OF None a] obtain s1 nv where
      "P' = P\<lparr>pl_cards := foldl take_slice (pl_cards P) [s1], pl_cpuFree := pl_cpuFree P - c1\<rparr>"
      "sl_card s1 < length (pl_cards P)" by metis
    with frame_take_slices [of "[s1]" P] show ?thesis by simp
  qed
qed

lemma frame_release:
  assumes "good_handle P h"
  shows "frame (release_gpu P h) P"
proof (cases h)
  case (GpuHandle ss cpu)
  have nn: "\<forall>s \<in> set ss. 0 \<le> the (sl_need s) \<and> 0 \<le> sl_compute s"
    using assms by (auto simp: good_handle_def GpuHandle)
  have l: "length (foldl (give_back P) cs ss) = length cs" for cs
    by (induction ss arbitrary: cs) auto
  with give_backs_nth [OF nn] show ?thesis by (simp add: frame_def GpuHandle)
qed (simp add: frame_def same_card_def)

definition pools_inv :: "pools \<Rightarrow> pools \<times> held_record list \<Rightarrow> bool" where
  "pools_inv P0 PR \<longleftrightarrow> frame (fst PR) P0 \<and> sound (fst PR) (live_handles (snd PR))"

lemma attach_inv:
  assumes "pools_inv P0 (P, rs)"
  shows "pools_inv P0 (attach rs (request P g c) P)"
proof (cases "request P g c")
  case (Some hP)
  then obtain h P' where r: "request P g c = Some (h, P')" by (cases hP) auto
  from assms have s: "sound P (live_handles rs)" "frame P P0" by (auto simp: pools_inv_def)
  from sound_request [of P "live_handles rs" "[]"] frame_request [OF s(1) r] s r
  show ?thesis by (auto simp: attach_def pools_inv_def intro: frame_trans)
qed (use assms in \<open>simp add: attach_def\<close>)

lemma resize_inv:
  assumes inv: "pools_inv P0 (P, rs)" and h: "held_at rs k = Some h"
  shows "pools_inv P0 (resize P rs k h g c)"
proof -
  obtain xs ys where l: "live_handles rs = xs @ h # ys"
    "\<And>st. live_handles (rs[k := (st, None)]) = xs @ ys"
    "\<And>st h'. \<not> ended st \<Longrightarrow> live_handles (rs[k := (st, Some h')]) = xs @ h' # ys"
    using held_at_split [OF h] by metis
  have s: "sound P (xs @ h # ys)" and f: "frame P P0" using inv l(1) by (auto simp: pools_inv_def)
  then have r: "sound (release_gpu P h) (xs @ ys)" and fr: "frame (release_gpu P h) P0"
    using sound_release frame_trans [OF frame_release f] by (auto simp: sound_def)
  show ?thesis
  proof (cases "request (release_gpu P h) g c")
    case None
    with r fr l(2) show ?thesis by (simp add: resize_def pools_inv_def)
  next
    case (Some hP)
    then obtain h' P' where q: "request (release_gpu P h) g c = Some (h', P')" by (cases hP) auto
    from sound_request [OF r q] frame_trans [OF frame_request [OF r q] fr] q l(3)
    show ?thesis by (simp add: resize_def pools_inv_def)
  qed
qed

lemma pool_step_inv: "pools_inv P0 PR \<Longrightarrow> pools_inv P0 (pool_step PR e)"
proof -
  assume inv: "pools_inv P0 PR"
  obtain P rs where PR: "PR = (P, rs)" by (cases PR)
  show ?thesis
  proof (cases e)
    case (TakeGpu g c)
    with inv PR attach_inv show ?thesis by simp
  next
    case (TakeCpu c)
    with inv PR attach_inv show ?thesis by simp
  next
    case (Drop k)
    show ?thesis
    proof (cases "held_at rs k")
      case (Some h)
      obtain xs ys where l: "live_handles rs = xs @ h # ys" "live_handles (rs[k := (''terminated'', None)]) = xs @ ys"
        using held_at_split [OF Some] by metis
      with inv PR have s: "sound P (xs @ h # ys)" and f: "frame P P0" by (auto simp: pools_inv_def)
      with sound_release [OF s] frame_trans [OF frame_release f, of h] l Drop PR Some show ?thesis
        by (auto simp: pools_inv_def sound_def)
    qed (use Drop inv PR in simp)
  next
    case (Resize k g c)
    show ?thesis
    proof (cases "held_at rs k")
      case (Some h)
      with Resize PR resize_inv [OF inv [unfolded PR] Some] show ?thesis by simp
    qed (use Resize inv PR in simp)
  next
    case (Lose k)
    show ?thesis
    proof (cases "k < length rs")
      case True
      from lose_split [OF True] inv sound_drop show ?thesis
        by (auto simp: Lose PR pools_inv_def)
    qed (use Lose inv PR in simp)
  next
    case Reconcile
    with inv PR sound_reconcile [of P rs] frame_trans [OF frame_reconcile] show ?thesis
      by (auto simp: pools_inv_def)
  qed
qed

lemma pool_run_inv: "pools_inv P0 PR \<Longrightarrow> pools_inv P0 (pool_run PR es)"
  unfolding pool_run_def
proof (induction es arbitrary: PR)
  case (Cons e es)
  from Cons.IH [OF pool_step_inv [OF Cons.prems, of e]] show ?case by simp
qed simp

lemma fresh_inv:
  assumes "1 \<le> gb"
  shows "pools_inv (fresh_pools gb n) (fresh_pools gb n, [])"
  using assms
  by (simp add: pools_inv_def frame_refl sound_def pool_ok_def fresh_pools_def eps_def held_cpu_def card_ok_def
      held_vram_def held_compute_def slices_on_def card_vram_def)

text \<open>
  C4: Nothing is sold twice. Over any requests, releases, resizes, missed releases and reconciliation
  passes of an enclave, the CPU the live records hold is at most the node, and on every card their
  VRAM is at most the card and their compute at most one, each up to the tolerance of 1e-9 the
  allocator allows, and the pools never show more free than is left.
\<close>
theorem pools_never_oversold:
  assumes "1 \<le> gb" "pool_run (fresh_pools gb n, []) es = (P, rs)" "i < n"
  shows "held_cpu (live_handles rs) \<le> 1 + 1 / 1000000000
    \<and> pl_cpuFree P \<le> 1 - held_cpu (live_handles rs)
    \<and> held_vram P i (live_handles rs) \<le> gb + 1 / 1000000000
    \<and> gc_vramFree (pl_cards P ! i) \<le> gb - held_vram P i (live_handles rs)
    \<and> held_compute i (live_handles rs) \<le> 1 + 1 / 1000000000
    \<and> gc_computeFree (pl_cards P ! i) \<le> 1 - held_compute i (live_handles rs)"
proof -
  have inv: "frame P (fresh_pools gb n)" "sound P (live_handles rs)"
    using pool_run_inv [OF fresh_inv [OF assms(1)], of n es] assms(2) by (auto simp: pools_inv_def)
  then have i: "i < length (pl_cards P)" using assms(3) by (simp add: frame_def fresh_pools_def)
  have "card_vram P (pl_cards P ! i) = gb"
    using frame_vram [OF inv(1), of i] assms(3) by (simp add: fresh_pools_def card_vram_def)
  with inv(2) i show ?thesis by (auto simp: sound_def card_ok_def Let_def eps_def)
qed


definition demo_pool_run :: "pools \<times> held_record list" where
  "demo_pool_run = pool_run (fresh_pools 10 1, []) [TakeCpu (1 / 2)]"

lemma demo_pool_run_value:
  "demo_pool_run = ((fresh_pools 10 1)\<lparr>pl_cpuFree := 1 / 2\<rparr>, [(''running'', Some (CpuHandle (1 / 2)))])"
proof -
  have "quantize_pct (1 / 2) = 50" by (simp add: quantize_pct_def MIN_COMPUTE_PCT_def) (simp add: floor_eq_iff)
  then show ?thesis
    by (simp add: demo_pool_run_def pool_run_def request_def normalize_cpu_req_def alloc_cpu_def attach_def fresh_pools_def eps_def)
qed

theorem pools_never_oversold_witness:
  "held_cpu (live_handles (snd demo_pool_run)) \<le> 1 + 1 / 1000000000
   \<and> gc_vramFree (pl_cards (fst demo_pool_run) ! 0) \<le> 10 - held_vram (fst demo_pool_run) 0 (live_handles (snd demo_pool_run))"
  using pools_never_oversold [of 10 1 "[TakeCpu (1 / 2)]" "fst demo_pool_run" "snd demo_pool_run" 0]
  by (simp add: demo_pool_run_def)

text \<open>
  The exact account: what is free is what the live records leave. It is the specification the
  incremental bookkeeping implements as long as no release is missed.
\<close>

definition ideal_card :: "pools \<Rightarrow> handle list \<Rightarrow> nat \<Rightarrow> card" where
  "ideal_card P hs i = (let c = pl_cards P ! i
     in c\<lparr>gc_vramFree := card_vram P c - held_vram P i hs, gc_computeFree := 1 - held_compute i hs\<rparr>)"

definition ideal :: "pools \<Rightarrow> handle list \<Rightarrow> pools" where
  "ideal P hs = P\<lparr>pl_cpuFree := 1 - held_cpu hs, pl_cards := map (ideal_card P hs) [0..<length (pl_cards P)]\<rparr>"

definition exact :: "pools \<Rightarrow> handle list \<Rightarrow> bool" where
  "exact P hs \<longleftrightarrow> pl_cpuFree P = 1 - held_cpu hs \<and>
     (\<forall>i < length (pl_cards P). gc_vramFree (pl_cards P ! i) = card_vram P (pl_cards P ! i) - held_vram P i hs
        \<and> gc_computeFree (pl_cards P ! i) = 1 - held_compute i hs)"

lemma exact_ideal: "exact P hs \<Longrightarrow> frame P P0 \<Longrightarrow> P = ideal P0 hs"
proof -
  assume e: "exact P hs" and f: "frame P P0"
  have "pl_cards P ! i = ideal_card P0 hs i" if "i < length (pl_cards P)" for i
  proof (rule card.equality)
  qed (use e f that frame_vram [OF f, of i] frame_held [OF f, of i hs] in
      \<open>simp_all add: ideal_card_def Let_def exact_def frame_def same_card_def\<close>)
  moreover have "length (pl_cards P) = length (pl_cards P0)" using f by (simp add: frame_def)
  ultimately have "pl_cards P = map (ideal_card P0 hs) [0..<length (pl_cards P0)]" by (intro nth_equalityI) auto
  with e f show ?thesis by (intro pools.equality) (simp_all add: ideal_def exact_def frame_def)
qed

lemma give_backs_exact:
  assumes "\<forall>s \<in> set ss. 0 \<le> the (sl_need s) \<and> 0 \<le> sl_compute s \<and> sl_card s < length cs" "i < length cs"
    "gc_vramFree (cs ! i) + sum_list (map (\<lambda>s. the (sl_need s)) (filter (\<lambda>s. sl_card s = i) ss)) \<le> card_vram P (cs ! i)"
    "gc_computeFree (cs ! i) + sum_list (map sl_compute (filter (\<lambda>s. sl_card s = i) ss)) \<le> 1"
  shows "gc_vramFree (foldl (give_back P) cs ss ! i)
        = gc_vramFree (cs ! i) + sum_list (map (\<lambda>s. the (sl_need s)) (filter (\<lambda>s. sl_card s = i) ss))
    \<and> gc_computeFree (foldl (give_back P) cs ss ! i)
        = gc_computeFree (cs ! i) + sum_list (map sl_compute (filter (\<lambda>s. sl_card s = i) ss))"
  using assms
proof (induction ss arbitrary: cs)
  case (Cons s ss)
  let ?d = "give_back P cs s"
  let ?v = "sum_list (map (\<lambda>s. the (sl_need s)) (filter (\<lambda>s. sl_card s = i) ss))"
  let ?c = "sum_list (map sl_compute (filter (\<lambda>s. sl_card s = i) ss))"
  have nn: "0 \<le> ?v" "0 \<le> ?c" using Cons.prems(1) by (auto intro!: sum_list_nonneg)
  have s: "0 \<le> the (sl_need s)" "0 \<le> sl_compute s" "sl_card s < length cs" using Cons.prems(1) by auto
  have t: "card_vram P (?d ! i) = card_vram P (cs ! i)"
    by (rule same_card_vram [OF give_back_nth(1) [OF s(1,2) Cons.prems(2)] refl])
  have d: "gc_vramFree (?d ! i) = gc_vramFree (cs ! i) + (if sl_card s = i then the (sl_need s) else 0)"
    "gc_computeFree (?d ! i) = gc_computeFree (cs ! i) + (if sl_card s = i then sl_compute s else 0)"
    using Cons.prems(2-4) s nn by (auto simp: give_back_def Let_def)
  have "gc_vramFree (?d ! i) + ?v \<le> card_vram P (?d ! i)" "gc_computeFree (?d ! i) + ?c \<le> 1"
    using Cons.prems(3,4) unfolding t d by (auto split: if_splits)
  with Cons.IH [of ?d] Cons.prems(1,2) d show ?case by (auto split: if_splits)
qed simp

lemma exact_release:
  assumes e: "exact P (xs @ h # ys)" and s: "sound P (xs @ h # ys)"
  shows "exact (release_gpu P h) (xs @ ys)"
proof -
  have g: "good_handle P h" and gs: "\<forall>k \<in> set (xs @ ys). good_handle P k" using s by (auto simp: sound_def)
  note nn = held_nonneg [OF gs]
  note fr = frame_release [OF g]
  show ?thesis
  proof (cases h)
    case (CpuHandle share)
    have z: "held_vram Q i [CpuHandle share] = 0" "held_compute i [CpuHandle share] = 0" for Q i
      by (simp_all add: held_vram_def held_compute_def slices_on_def)
    show ?thesis
      using e nn(1) frame_vram [OF fr] frame_held [OF fr]
      by (auto simp: exact_def CpuHandle held_insert z)
  next
    case (GpuHandle ss cpu)
    have ss: "\<forall>s \<in> set ss. 0 \<le> the (sl_need s) \<and> 0 \<le> sl_compute s \<and> sl_card s < length (pl_cards P)"
      and some: "\<forall>s \<in> set ss. sl_need s \<noteq> None"
      using g by (auto simp: good_handle_def GpuHandle)
    have "gc_vramFree (pl_cards (release_gpu P h) ! i)
          = card_vram (release_gpu P h) (pl_cards (release_gpu P h) ! i) - held_vram (release_gpu P h) i (xs @ ys)
        \<and> gc_computeFree (pl_cards (release_gpu P h) ! i) = 1 - held_compute i (xs @ ys)"
      if i: "i < length (pl_cards P)" for i
    proof -
      have "gc_vramFree (pl_cards P ! i) + held_vram P i [h] = card_vram P (pl_cards P ! i) - held_vram P i (xs @ ys)"
        "gc_computeFree (pl_cards P ! i) + held_compute i [h] = 1 - held_compute i (xs @ ys)"
        using e i by (simp_all add: exact_def held_insert)
      with give_backs_exact [OF ss i, of P] nn(2) [of P i] nn(3) [of i]
      have "gc_vramFree (pl_cards (release_gpu P h) ! i) = card_vram P (pl_cards P ! i) - held_vram P i (xs @ ys)"
        "gc_computeFree (pl_cards (release_gpu P h) ! i) = 1 - held_compute i (xs @ ys)"
        by (simp_all add: GpuHandle held_one [OF some])
      then show ?thesis using frame_vram [OF fr i] frame_held [OF fr] by simp
    qed
    moreover have "pl_cpuFree (release_gpu P h) = 1 - held_cpu (xs @ ys)"
      using e nn(1) by (simp add: exact_def GpuHandle held_insert)
    ultimately show ?thesis using fr by (simp add: exact_def frame_def)
  qed
qed


lemma request_shape:
  assumes s: "sound P hs" and r: "request P g c = Some (h, P')"
  obtains share where "h = CpuHandle share" "P' = P\<lparr>pl_cpuFree := pl_cpuFree P - share\<rparr>"
  | ss cpu where "h = GpuHandle ss cpu"
      "P' = P\<lparr>pl_cards := foldl take_slice (pl_cards P) ss, pl_cpuFree := pl_cpuFree P - cpu\<rparr>"
      "\<forall>s \<in> set ss. sl_card s < length (pl_cards P) \<and> sl_need s \<noteq> None"
proof (cases "g > 0")
  case False
  with r show ?thesis by (intro that(1)) (auto simp: request_def alloc_cpu_def split: if_splits)
next
  case True
  obtain v g1 c1 where a: "alloc_gpu P v g1 c1 = Some (h, P')"
    using r True by (auto simp: request_def split: prod.splits)
  show ?thesis
  proof (cases "pl_pool P")
    case (Some ids)
    with s have "\<forall>i \<in> set ids. i < length (pl_cards P)" by (simp add: sound_def pool_ok_def)
    with a Some show ?thesis
      by (intro that(2) [of "map (pool_slice P g1) ids" c1])
        (auto simp: alloc_gpu_def alloc_pooled_def pool_slice_def Let_def split: if_splits)
  next
    case None
    from best_fit_cases [OF None a] that(2) show ?thesis
      by (metis empty_iff empty_set option.distinct(1) set_ConsD)
  qed
qed

lemma exact_request:
  assumes e: "exact P (xs @ ys)" and s: "sound P (xs @ ys)" and r: "request P g c = Some (h, P')"
  shows "exact P' (xs @ h # ys)"
proof -
  note fr = frame_request [OF s r]
  from s r show ?thesis
  proof (cases rule: request_shape)
    case (1 share)
    have z: "held_vram Q i [CpuHandle share] = 0" "held_compute i [CpuHandle share] = 0" for Q i
      by (simp_all add: held_vram_def held_compute_def slices_on_def)
    show ?thesis
      using e frame_vram [OF fr] frame_held [OF fr] by (auto simp: exact_def 1 held_insert z)
  next
    case (2 ss cpu)
    then have lt: "\<forall>s \<in> set ss. sl_card s < length (pl_cards P)" and some: "\<forall>s \<in> set ss. sl_need s \<noteq> None" by auto
    show ?thesis
      using e take_slices_nth [OF lt] frame_vram [OF fr] frame_held [OF fr] held_one [OF some]
      by (auto simp: exact_def 2(1,2) held_insert)
  qed
qed

lemma exact_reconcile:
  assumes e: "exact P (live_handles rs)" and s: "sound P (live_handles rs)"
  shows "exact (fst (reconcile_pools P rs)) (live_handles rs)"
proof -
  let ?hs = "live_handles rs" and ?Q = "fst (reconcile_pools P rs)"
  have g: "\<forall>h \<in> set ?hs. good_handle P h" using s by (simp add: sound_def)
  note nn = held_nonneg [OF g]
  have same: "settle (t - held) (max 0 (min t (t - held))) = t - held" if "- eps \<le> t - held" "0 \<le> held" for t held
    using that by (auto simp: settle_def eps_def min_def max_def abs_if)
  have "gc_vramFree (pl_cards ?Q ! i) = card_vram ?Q (pl_cards ?Q ! i) - held_vram ?Q i ?hs
      \<and> gc_computeFree (pl_cards ?Q ! i) = 1 - held_compute i ?hs" if i: "i < length (pl_cards P)" for i
  proof -
    let ?t = "card_vram P (pl_cards P ! i)"
    have v: "gc_vramFree (pl_cards P ! i) = ?t - held_vram P i ?hs" "gc_computeFree (pl_cards P ! i) = 1 - held_compute i ?hs"
      using e i by (simp_all add: exact_def)
    have "card_ok P ?hs i" using s i by (simp add: sound_def)
    then have low: "- eps \<le> ?t - held_vram P i ?hs" "- eps \<le> 1 - held_compute i ?hs"
      by (simp_all add: card_ok_def Let_def v)
    have "gc_vramFree (reconcile_card P ?hs i) = ?t - held_vram P i ?hs"
      "gc_computeFree (reconcile_card P ?hs i) = 1 - held_compute i ?hs"
      using same [OF low(1) nn(2)] same [OF low(2) nn(3)]
      by (simp_all only: reconcile_card_def Let_def v) simp_all
    then show ?thesis
      using frame_vram [OF frame_reconcile i, of rs] frame_held [OF frame_reconcile, of P rs i ?hs]
      by (simp add: reconcile_fields(3) [OF i])
  qed
  moreover have "pl_cpuFree ?Q = 1 - held_cpu ?hs"
    unfolding reconcile_fields using e s same [of 1 "held_cpu ?hs", OF _ nn(1)] by (simp only: exact_def sound_def)
  ultimately show ?thesis by (simp add: exact_def reconcile_fields)
qed

definition no_leak :: "pool_event \<Rightarrow> bool" where
  "no_leak e \<longleftrightarrow> (case e of Lose k \<Rightarrow> False | _ \<Rightarrow> True)"

definition pools_exact :: "pools \<Rightarrow> pools \<times> held_record list \<Rightarrow> bool" where
  "pools_exact P0 PR \<longleftrightarrow> pools_inv P0 PR \<and> exact (fst PR) (live_handles (snd PR))"

lemma attach_exact:
  "pools_exact P0 (P, rs) \<Longrightarrow> exact (fst (attach rs (request P g c) P)) (live_handles (snd (attach rs (request P g c) P)))"
proof -
  assume "pools_exact P0 (P, rs)"
  then have e: "exact P (live_handles rs @ [])" and s: "sound P (live_handles rs @ [])"
    by (auto simp: pools_exact_def pools_inv_def)
  show ?thesis
  proof (cases "request P g c")
    case (Some hP)
    then obtain h P' where r: "request P g c = Some (h, P')" by (cases hP) auto
    with exact_request [OF e s r] show ?thesis by (simp add: attach_def)
  qed (use e in \<open>simp add: attach_def\<close>)
qed

lemma pool_step_exact:
  assumes "pools_exact P0 PR" "no_leak e"
  shows "pools_exact P0 (pool_step PR e)"
proof -
  obtain P rs where PR: "PR = (P, rs)" by (cases PR)
  have inv: "pools_inv P0 (P, rs)" and ex: "exact P (live_handles rs)" using assms(1) PR by (auto simp: pools_exact_def)
  have released: "exact (release_gpu P h) (xs @ ys) \<and> sound (release_gpu P h) (xs @ ys)"
    if "live_handles rs = xs @ h # ys" for h xs ys
    using that inv ex exact_release sound_release by (auto simp: pools_inv_def)
  have "exact (fst (pool_step PR e)) (live_handles (snd (pool_step PR e)))"
  proof (cases e)
    case (Drop k)
    show ?thesis
    proof (cases "held_at rs k")
      case (Some h)
      obtain xs ys where "live_handles rs = xs @ h # ys" "live_handles (rs[k := (''terminated'', None)]) = xs @ ys"
        using held_at_split [OF Some] by metis
      with released Drop PR Some show ?thesis by simp
    qed (use Drop PR ex in simp)
  next
    case (Resize k g c)
    show ?thesis
    proof (cases "held_at rs k")
      case (Some h)
      obtain xs ys where l: "live_handles rs = xs @ h # ys" "live_handles (rs[k := (''expired'', None)]) = xs @ ys"
        "\<And>h'. live_handles (rs[k := (''claimed'', Some h')]) = xs @ h' # ys"
        using held_at_split [OF Some] status_terminal(2) by metis
      note r = released [OF l(1)]
      show ?thesis
      proof (cases "request (release_gpu P h) g c")
        case None
        with r l(2) Resize PR Some show ?thesis by (simp add: resize_def)
      next
        case q: (Some hP)
        then obtain h' P' where q: "request (release_gpu P h) g c = Some (h', P')" by (cases hP) auto
        with exact_request [OF conjunct1 [OF r] conjunct2 [OF r] q] l(3) Resize PR Some show ?thesis
          by (simp add: resize_def)
      qed
    qed (use Resize PR ex in simp)
  next
    case (Lose k)
    with assms(2) show ?thesis by (simp add: no_leak_def)
  qed (use PR assms(1) attach_exact exact_reconcile inv ex in \<open>auto simp: pools_inv_def\<close>)
  with pool_step_inv [of P0 PR e] assms(1) show ?thesis by (simp add: pools_exact_def)
qed

lemma pool_run_exact: "pools_exact P0 PR \<Longrightarrow> list_all no_leak es \<Longrightarrow> pools_exact P0 (pool_run PR es)"
  unfolding pool_run_def
proof (induction es arbitrary: PR)
  case (Cons e es)
  then have "pools_exact P0 (pool_step PR e)" using pool_step_exact by simp
  with Cons show ?case by simp
qed simp



section \<open>Two behaviours to know\<close>

text \<open>
  When the probed card is smaller than the configured one by more than what is free, the free pool is
  clamped to 0 and the next release gives back its whole slice: 11 GB held of a 10 GB card, 2 of them
  released, show 2 free where 1 is left, until the next reconciliation.
\<close>

definition overbooked :: "pools \<times> held_record list" where
  "overbooked = (let s = \<lambda>v. \<lparr>sl_card = 0, sl_vram = v, sl_compute = 1 / 4, sl_need = Some v\<rparr>
     in ((fresh_pools 11 1)\<lparr>pl_cards := [\<lparr>gc_vramFree = 0, gc_computeFree = 1 / 2, gc_vramTotal = None,
           gc_shielded = False, gc_available = False, gc_proofFree = 0\<rparr>]\<rparr>,
         [(''running'', Some (GpuHandle [s 9] 0)), (''running'', Some (GpuHandle [s 2] 0))]))"

lemma shrunk_card_oversells_after_release:
  "let P1 = adopt_card_vram (fst overbooked) 10; (P2, rs2) = pool_step (P1, snd overbooked) (Drop 1)
   in gc_vramFree (pl_cards P2 ! 0) = 2 \<and> card_vram P2 (pl_cards P2 ! 0) - held_vram P2 0 (live_handles rs2) = 1"
  by (simp add: overbooked_def Let_def fresh_pools_def adopt_card_vram_def held_at_def give_back_def card_vram_def
      held_vram_def slices_on_def slice_need_def)

text \<open>
  A resize to a record with GPU share on an enclave without a card always evicts: the allocation that
  follows the release has no card to fit. The optional-card flag is not asked at this point.
\<close>

lemma resize_without_card_evicts:
  assumes "pl_cards P = []" "pl_pool P = None" "held_at rs k = Some h" "0 < g"
  shows "pool_step (P, rs) (Resize k g c) = (release_gpu P h, rs[k := (''expired'', None)])"
proof -
  have "pl_cards (release_gpu P h) = []" "pl_pool (release_gpu P h) = None"
  proof -
    have "foldl (give_back P) [] ss = []" for ss by (induction ss) (auto simp: give_back_def)
    then show "pl_cards (release_gpu P h) = []" "pl_pool (release_gpu P h) = None"
      using assms by (cases h; simp)+
  qed
  then have "request (release_gpu P h) g c = None"
    using assms(4) by (simp add: request_def normalize_gpu_req_def alloc_gpu_def fitting_def Let_def)
  with assms(3) show ?thesis by (simp add: resize_def)
qed

end
