(* ===== verification/Js_Json.thy ===== *)
theory Js_Json
  imports Js_Prelude Complex_Main
begin

text \<open>
  JSON documents as the sources read them with \<open>JSON.parse\<close>. An object is its own enumerable keys
  in insertion order (a repeated key keeps its first place and its last value). Numbers are the exact
  decimal they spell, where the code rounds to binary64; a \<open>\u\<close> escape above \<open>0xFF\<close> is outside
  the byte strings used here and reads as a syntax error. \<open>js_number\<close> is the conversion
  \<open>Number(v)\<close> of a parsed value, \<open>None\<close> for \<open>NaN\<close> and the infinities.
\<close>

datatype json = JNull | JBool bool | JNum rat | JStr string | JArr "json list" | JObj "(string \<times> json) list"

section \<open>Numerals\<close>

definition pow10 :: "int \<Rightarrow> rat" where
  "pow10 e = (if 0 \<le> e then 10 ^ nat e else 1 / 10 ^ nat (- e))"

definition scan_digits :: "string \<Rightarrow> string \<times> string" where
  "scan_digits s = (takeWhile is_digit s, dropWhile is_digit s)"

text \<open>The optional exponent; without digits the letter is not part of the numeral.\<close>

definition scan_exp :: "string \<Rightarrow> int \<times> string" where
  "scan_exp s =
     (case s of
        c # t \<Rightarrow>
          (if c = CHR ''e'' \<or> c = CHR ''E'' then
             (let (neg, u) = (case t of d # v \<Rightarrow> if d = CHR ''-'' then (True, v) else if d = CHR ''+'' then (False, v) else (False, t)
                              | [] \<Rightarrow> (False, []));
                  (ds, rest) = scan_digits u
              in if ds = [] then (0, s) else ((if neg then - int (digits_val ds) else int (digits_val ds)), rest))
           else (0, s))
      | [] \<Rightarrow> (0, []))"

definition scan_frac :: "string \<Rightarrow> string \<times> string" where
  "scan_frac s =
     (case s of
        c # t \<Rightarrow> (if c = CHR ''.'' \<and> fst (scan_digits t) \<noteq> [] then scan_digits t else ([], s))
      | [] \<Rightarrow> ([], []))"

definition decimal :: "string \<Rightarrow> string \<Rightarrow> int \<Rightarrow> rat" where
  "decimal whole fr e = of_nat (digits_val (whole @ fr)) * pow10 (e - int (length fr))"

definition json_number :: "string \<Rightarrow> (rat \<times> string) option" where
  "json_number s =
     (let (neg, t) = (case s of c # u \<Rightarrow> if c = CHR ''-'' then (True, u) else (False, s) | [] \<Rightarrow> (False, []));
          (whole, u) = (case t of c # v \<Rightarrow> if c = CHR ''0'' then ([c], v) else scan_digits t | [] \<Rightarrow> ([], []));
          (fr, v) = scan_frac u;
          (e, rest) = scan_exp v
      in if whole = [] then None
         else Some ((if neg then - 1 else 1) * decimal whole fr e, rest))"

section \<open>Strings\<close>

definition hex_val :: "char \<Rightarrow> nat option" where
  "hex_val c =
     (let n = (of_char c :: nat)
      in if 48 \<le> n \<and> n \<le> 57 then Some (n - 48)
         else if 97 \<le> n \<and> n \<le> 102 then Some (n - 87)
         else if 65 \<le> n \<and> n \<le> 70 then Some (n - 55) else None)"

definition hex4 :: "char \<Rightarrow> char \<Rightarrow> char \<Rightarrow> char \<Rightarrow> char option" where
  "hex4 a b c d =
     (case (hex_val a, hex_val b, hex_val c, hex_val d) of
        (Some 0, Some 0, Some x, Some y) \<Rightarrow> Some (char_of (16 * x + y))
      | _ \<Rightarrow> None)"

definition simple_escape :: "char \<Rightarrow> char option" where
  "simple_escape c =
     map_of [(CHR 0x22, CHR 0x22), (CHR 0x5C, CHR 0x5C), (CHR ''/'', CHR ''/''), (CHR ''b'', CHR 0x08),
             (CHR ''f'', CHR 0x0C), (CHR ''n'', CHR 0x0A), (CHR ''r'', CHR 0x0D), (CHR ''t'', CHR 0x09)] c"

text \<open>The characters of a string literal, after its opening quote.\<close>

fun json_chars :: "string \<Rightarrow> (string \<times> string) option" where
  "json_chars [] = None"
| "json_chars (c # s) =
     (if c = CHR 0x22 then Some ([], s)
      else if c = CHR 0x5C then
        (case s of
           [] \<Rightarrow> None
         | e # t \<Rightarrow>
             (case simple_escape e of
                Some x \<Rightarrow> (case json_chars t of Some (cs, rest) \<Rightarrow> Some (x # cs, rest) | None \<Rightarrow> None)
              | None \<Rightarrow>
                  (case t of
                     h1 # h2 # h3 # h4 # u \<Rightarrow>
                       (if e = CHR ''u'' then
                          (case hex4 h1 h2 h3 h4 of
                             Some x \<Rightarrow> (case json_chars u of Some (cs, rest) \<Rightarrow> Some (x # cs, rest) | None \<Rightarrow> None)
                           | None \<Rightarrow> None)
                        else None)
                   | _ \<Rightarrow> None)))
      else if (of_char c :: nat) < 32 then None
      else (case json_chars s of Some (cs, rest) \<Rightarrow> Some (c # cs, rest) | None \<Rightarrow> None))"

section \<open>Values\<close>

definition json_space :: "char \<Rightarrow> bool" where
  "json_space c \<longleftrightarrow> c \<in> {CHR '' '', CHR 0x09, CHR 0x0A, CHR 0x0D}"

abbreviation skip_ws :: "string \<Rightarrow> string" where
  "skip_ws s \<equiv> dropWhile json_space s"

lemma skip_ws_length: "length (skip_ws s) \<le> length s"
  by (rule length_dropWhile_le)

text \<open>
  A value, the elements of an array from the first one on, and the members of an object. Every call
  reads a shorter text; the tests \<open>length r < length s\<close> state it for the recursion.
\<close>

function (sequential) json_value :: "string \<Rightarrow> (json \<times> string) option"
  and json_elems :: "string \<Rightarrow> (json list \<times> string) option"
  and json_members :: "string \<Rightarrow> ((string \<times> json) list \<times> string) option" where
  "json_value s =
     (case skip_ws s of
        [] \<Rightarrow> None
      | c # t \<Rightarrow>
          if c = CHR ''{'' then
            (case skip_ws t of
               [] \<Rightarrow> None
             | d # u \<Rightarrow>
                 if d = CHR ''}'' then Some (JObj [], u)
                 else map_option (\<lambda>(ms, r). (JObj (foldl (\<lambda>o' (k, v). AList.update k v o') [] ms), r)) (json_members (d # u)))
          else if c = CHR ''['' then
            (case skip_ws t of
               [] \<Rightarrow> None
             | d # u \<Rightarrow>
                 if d = CHR '']'' then Some (JArr [], u)
                 else map_option (\<lambda>(vs, r). (JArr vs, r)) (json_elems (d # u)))
          else if c = CHR 0x22 then map_option (\<lambda>(x, r). (JStr x, r)) (json_chars t)
          else if prefix ''null'' (c # t) then Some (JNull, drop 4 (c # t))
          else if prefix ''true'' (c # t) then Some (JBool True, drop 4 (c # t))
          else if prefix ''false'' (c # t) then Some (JBool False, drop 5 (c # t))
          else map_option (\<lambda>(x, r). (JNum x, r)) (json_number (c # t)))"
| "json_elems s =
     (case json_value s of
        None \<Rightarrow> None
      | Some (v, r) \<Rightarrow>
          (case skip_ws r of
             [] \<Rightarrow> None
           | d # u \<Rightarrow>
               if d = CHR '']'' then Some ([v], u)
               else if d = CHR '','' \<and> length u < length s then
                 map_option (\<lambda>(vs, r'). (v # vs, r')) (json_elems u)
               else None))"
| "json_members s =
     (case skip_ws s of
        [] \<Rightarrow> None
      | q # t \<Rightarrow>
          if q \<noteq> CHR 0x22 then None
          else (case json_chars t of
            None \<Rightarrow> None
          | Some (k, r) \<Rightarrow>
              (case skip_ws r of
                 [] \<Rightarrow> None
               | d # u \<Rightarrow>
                   if d = CHR '':'' \<and> length u < length s then
                     (case json_value u of
                        None \<Rightarrow> None
                      | Some (v, r') \<Rightarrow>
                          (case skip_ws r' of
                             [] \<Rightarrow> None
                           | e # w \<Rightarrow>
                               if e = CHR ''}'' then Some ([(k, v)], w)
                               else if e = CHR '','' \<and> length w < length s then
                                 map_option (\<lambda>(ms, r''). ((k, v) # ms, r'')) (json_members w)
                               else None))
                   else None)))"
  by pat_completeness auto

termination
proof (relation "measure (\<lambda>x. case x of Inl s \<Rightarrow> 2 * length s | Inr (Inl s) \<Rightarrow> 2 * length s + 1 | Inr (Inr s) \<Rightarrow> 2 * length s + 1)",
       goal_cases)
  case (2 s c t d u)
  have "length (skip_ws s) \<le> length s" "length (skip_ws t) \<le> length t" by (rule skip_ws_length)+
  with 2 show ?case by simp
next
  case (3 s c t d u)
  have "length (skip_ws s) \<le> length s" "length (skip_ws t) \<le> length t" by (rule skip_ws_length)+
  with 3 show ?case by simp
qed simp_all

definition json_parse :: "string \<Rightarrow> json option" where
  "json_parse s = (case json_value s of Some (v, r) \<Rightarrow> if skip_ws r = [] then Some v else None | None \<Rightarrow> None)"

section \<open>Access and conversion\<close>

definition json_get :: "string \<Rightarrow> json \<Rightarrow> json option" where
  "json_get k v = (case v of JObj o' \<Rightarrow> map_of o' k | _ \<Rightarrow> None)"

definition json_truthy :: "json \<Rightarrow> bool" where
  "json_truthy v =
     (case v of JNull \<Rightarrow> False | JBool b \<Rightarrow> b | JNum n \<Rightarrow> n \<noteq> 0 | JStr s \<Rightarrow> s \<noteq> [] | _ \<Rightarrow> True)"

text \<open>\<open>String(v)\<close> of a parsed value. A number is left as the empty text: no reader below accepts either.\<close>

function js_text :: "json \<Rightarrow> string" where
  "js_text (JStr s) = s"
| "js_text JNull = ''null''"
| "js_text (JBool b) = (if b then ''true'' else ''false'')"
| "js_text (JNum n) = []"
| "js_text (JObj m) = ''[object Object]''"
| "js_text (JArr vs) = (case vs of [] \<Rightarrow> [] | [v] \<Rightarrow> (if v = JNull then [] else js_text v) | _ \<Rightarrow> '','')"
  by pat_completeness auto
termination by (relation "measure size") auto

definition text_or_empty :: "json option \<Rightarrow> string" where
  "text_or_empty v = (case v of Some x \<Rightarrow> if json_truthy x then js_text x else [] | None \<Rightarrow> [])"

text \<open>
  \<open>parseInt(v, 10)\<close> of a parsed value: the digits its text starts with. A number is written with an
  exponent from \<open>10 ^ 21\<close> on and below \<open>10 ^ -6\<close>, where only its first digit is read.
\<close>

fun lead_digit :: "nat \<Rightarrow> nat" where
  "lead_digit n = (if n < 10 then n else lead_digit (n div 10))"

declare lead_digit.simps [simp del]

definition number_int :: "rat \<Rightarrow> int" where
  "number_int r =
     (let a = \<bar>r\<bar>; s = (if r < 0 then - 1 else 1)
      in if a = 0 then 0
         else if 10 ^ 21 \<le> a then s * int (lead_digit (nat \<lfloor>a\<rfloor>))
         else if a < 1 / 10 ^ 6 then s * int (lead_digit (nat \<lfloor>a * 10 ^ bit_count (nat (snd (quotient_of a)))\<rfloor>))
         else s * \<lfloor>a\<rfloor>)"

fun json_int :: "json \<Rightarrow> int option" where
  "json_int (JStr s) = parse_int10 s"
| "json_int (JNum r) = Some (number_int r)"
| "json_int (JArr (v # vs)) = json_int v"
| "json_int _ = None"

definition json_int_at :: "string \<Rightarrow> json \<Rightarrow> int option" where
  "json_int_at k body = Option.bind (json_get k body) json_int"

text \<open>\<open>Number(s)\<close> of a string: a decimal numeral with optional sign, a hexadecimal, octal or binary integer.\<close>

definition radix_value :: "nat \<Rightarrow> string \<Rightarrow> rat option" where
  "radix_value b s =
     (if s \<noteq> [] \<and> list_all (\<lambda>c. case hex_val c of Some d \<Rightarrow> d < b | None \<Rightarrow> False) s
      then Some (of_nat (foldl (\<lambda>a c. b * a + the (hex_val c)) 0 s)) else None)"

definition plain_number :: "string \<Rightarrow> rat option" where
  "plain_number s =
     (let (neg, t) = (case s of c # u \<Rightarrow> if c = CHR ''-'' then (True, u) else if c = CHR ''+'' then (False, u) else (False, s)
                      | [] \<Rightarrow> (False, []));
          (whole, u) = scan_digits t;
          (fr, v) = (case u of c # w \<Rightarrow> if c = CHR ''.'' then scan_digits w else ([], u) | [] \<Rightarrow> ([], []));
          (e, rest) = scan_exp v
      in if whole = [] \<and> fr = [] \<or> rest \<noteq> [] then None
         else Some ((if neg then - 1 else 1) * decimal whole fr e))"

definition string_number :: "string \<Rightarrow> rat option" where
  "string_number s =
     (let t = js_trim s
      in if t = [] then Some 0
         else if prefix ''0x'' t \<or> prefix ''0X'' t then radix_value 16 (drop 2 t)
         else if prefix ''0o'' t \<or> prefix ''0O'' t then radix_value 8 (drop 2 t)
         else if prefix ''0b'' t \<or> prefix ''0B'' t then radix_value 2 (drop 2 t)
         else plain_number t)"

text \<open>An array converts through its text: only an empty array, or nested arrays around one number, string or null, is a number.\<close>

fun array_number :: "json \<Rightarrow> rat option" where
  "array_number JNull = Some 0"
| "array_number (JNum n) = Some n"
| "array_number (JStr s) = string_number s"
| "array_number (JArr []) = Some 0"
| "array_number (JArr [v]) = array_number v"
| "array_number _ = None"

definition js_number :: "json \<Rightarrow> rat option" where
  "js_number v = (case v of JBool b \<Rightarrow> Some (if b then 1 else 0) | _ \<Rightarrow> array_number v)"

section \<open>Text a document starts with\<close>

lemma json_value_object:
  assumes "json_value s = Some (v, r)" "skip_ws s = CHR ''{'' # t"
  shows "\<exists>m. v = JObj m"
  using assms by (subst (asm) json_value.simps) (auto split: list.splits if_splits)

lemma json_parse_demo:
  "json_parse ''{\"a\": [1, 2.5e1, -0.5], \"b\": {\"c\": null}, \"a\": true}''
     = Some (JObj [(''a'', JBool True), (''b'', JObj [(''c'', JNull)])])"
  "json_parse ''{\"a\":1,}'' = None"
  "json_parse ''[2.5e1, -5]'' = Some (JArr [JNum 25, JNum (-5)])"
  by code_simp+

end
