(* ===== verification/Dep_Options.thy ===== *)
theory Dep_Options
  imports Js_Json
begin

text \<open>
  The deployment options envelope (\<open>supervisor.js\<close>): the strict parser of the JSON a deployment
  carries on chain (\<open>parseDepOptions\<close>), what it contributes to the configuration a guest receives
  (\<open>overrideConfigFields\<close>), the verdict on an owner's edit of a serving deployment
  (\<open>envelopeEditVerdict\<close>), the routing flags of a version's configuration, and the path rules
  of the request guard (\<open>wafPathBlocked\<close>). A thrown error is a value of \<open>opt_error\<close>.
\<close>

section \<open>Errors and options\<close>

datatype opt_error =
    TooLong | CidRetired | NotJson | NotObject | UnknownNamespace
  | NetworkShape | UnknownNetwork | RelayName
  | GpuShape | UnknownGpu | GpuOptionalType | GpuOptionalNoShare
  | CidShape | ConfigShape | ConfigMedia | ManifestKeys
  | WafShape | UnknownWaf | WafNumber string | BurstNeedsRps | WafList string | WafEntry string
  | ScannersType | WafNothing

record waf =
  waf_rps :: "rat option"
  waf_burst :: "rat option"
  waf_maxConcurrent :: "rat option"
  waf_maxBodyMb :: "rat option"
  waf_methods :: "string list option"
  waf_pathBlock :: "string list option"
  waf_uaBlock :: "string list option"
  waf_blockScanners :: bool

record dep_options =
  do_relay :: "string option"
  do_gpuOptional :: "bool option"
  do_configCid :: "string option"
  do_config :: "json option"
  do_waf :: "waf option"

definition no_options :: dep_options where
  "no_options = \<lparr>do_relay = None, do_gpuOptional = None, do_configCid = None, do_config = None, do_waf = None\<rparr>"

section \<open>Names and keys\<close>

definition DEP_OPTIONS_MAX_BYTES :: nat where "DEP_OPTIONS_MAX_BYTES = 4096"

definition NAMESPACES :: "string list" where
  "NAMESPACES = [''waf'', ''config'', ''configCid'', ''gpu'', ''network'']"

definition WAF_KEYS :: "string list" where
  "WAF_KEYS = [''rps'', ''burst'', ''maxConcurrent'', ''maxBodyMb'', ''methods'', ''pathBlock'', ''blockScanners'', ''uaBlock'']"

definition DEP_MANIFEST_KEYS :: "string list" where
  "DEP_MANIFEST_KEYS = [''volumes'']"

definition lower_letter :: "char \<Rightarrow> bool" where
  "lower_letter c \<longleftrightarrow> 97 \<le> (of_char c :: nat) \<and> (of_char c :: nat) \<le> 122"

definition capital_letter :: "char \<Rightarrow> bool" where
  "capital_letter c \<longleftrightarrow> 65 \<le> (of_char c :: nat) \<and> (of_char c :: nat) \<le> 90"

definition cid_shape :: "string \<Rightarrow> bool" where
  "cid_shape s \<longleftrightarrow> 10 \<le> length s \<and> length s \<le> 100
     \<and> list_all (\<lambda>c. lower_letter c \<or> capital_letter c \<or> is_digit c) s"

definition relay_shape :: "string \<Rightarrow> bool" where
  "relay_shape s \<longleftrightarrow>
     (case s of [] \<Rightarrow> False
      | c # t \<Rightarrow> (lower_letter c \<or> is_digit c) \<and> length t \<le> 62
                  \<and> list_all (\<lambda>x. lower_letter x \<or> is_digit x \<or> x = CHR ''-'') t)"

definition method_shape :: "string \<Rightarrow> bool" where
  "method_shape s \<longleftrightarrow> 3 \<le> length s \<and> length s \<le> 10 \<and> list_all (\<lambda>c. lower_letter c \<or> capital_letter c) s"

definition capital_of :: "char \<Rightarrow> char" where
  "capital_of c = (let n = (of_char c :: nat) in if 97 \<le> n \<and> n \<le> 122 then char_of (n - 32) else c)"

definition to_upper :: "string \<Rightarrow> string" where
  "to_upper s = map capital_of s"

text \<open>\<open>[...new Set(xs)]\<close>.\<close>

definition unique :: "'a list \<Rightarrow> 'a list" where
  "unique xs = rev (remdups (rev xs))"

lemma unique_props [simp]: "set (unique xs) = set xs" "distinct (unique xs)" "unique xs = [] \<longleftrightarrow> xs = []"
  by (simp_all add: unique_def)

lemma length_unique: "length (unique xs) \<le> length xs"
  by (metis length_remdups_leq length_rev unique_def)

definition object_of :: "'e \<Rightarrow> json \<Rightarrow> 'e + (string \<times> json) list" where
  "object_of e v = (case v of JObj m \<Rightarrow> Inr m | _ \<Rightarrow> Inl e)"

lemma object_of_Inr [simp]: "object_of e v = Inr m \<longleftrightarrow> v = JObj m"
  by (cases v) (auto simp: object_of_def)

definition unknown_keys :: "string list \<Rightarrow> (string \<times> json) list \<Rightarrow> bool" where
  "unknown_keys known m \<longleftrightarrow> filter (\<lambda>k. k \<notin> set known) (map fst m) \<noteq> []"

lemma no_unknown_keys: "\<not> unknown_keys known m \<longleftrightarrow> fst ` set m \<subseteq> set known"
  by (auto simp: unknown_keys_def filter_empty_conv)

text \<open>A member that is absent or null.\<close>

definition given :: "(string \<times> json) list \<Rightarrow> string \<Rightarrow> json option" where
  "given m k = (case map_of m k of Some JNull \<Rightarrow> None | x \<Rightarrow> x)"

section \<open>The namespaces of an envelope\<close>

definition parse_network :: "json \<Rightarrow> opt_error + string option" where
  "parse_network v =
     and_then (object_of NetworkShape v) (\<lambda>n.
     and_then (reject_if (unknown_keys [''relay''] n) UnknownNetwork) (\<lambda>_.
       case map_of n ''relay'' of
         None \<Rightarrow> Inr None
       | Some JNull \<Rightarrow> Inr (Some [])
       | Some (JStr r) \<Rightarrow> if r = [] then Inr (Some []) else if relay_shape r then Inr (Some r) else Inl RelayName
       | Some _ \<Rightarrow> Inl RelayName))"

definition parse_gpu :: "int option \<Rightarrow> json \<Rightarrow> opt_error + bool option" where
  "parse_gpu gpuMilli v =
     and_then (object_of GpuShape v) (\<lambda>g.
     and_then (reject_if (unknown_keys [''optional''] g) UnknownGpu) (\<lambda>_.
       case map_of g ''optional'' of
         None \<Rightarrow> Inr None
       | Some (JBool b) \<Rightarrow>
           (case gpuMilli of
              Some milli \<Rightarrow> if b \<and> milli \<le> 0 then Inl GpuOptionalNoShare else Inr (Some b)
            | None \<Rightarrow> Inr (Some b))
       | Some _ \<Rightarrow> Inl GpuOptionalType))"

definition parse_cid :: "json \<Rightarrow> opt_error + string" where
  "parse_cid v = (case v of JStr s \<Rightarrow> if cid_shape s then Inr s else Inl CidShape | _ \<Rightarrow> Inl CidShape)"

definition parse_config :: "string option \<Rightarrow> json \<Rightarrow> opt_error + json" where
  "parse_config cid v =
     and_then (object_of ConfigShape v) (\<lambda>c.
     and_then (reject_if (map_of c ''_media'' \<noteq> None) ConfigMedia) (\<lambda>_.
     and_then (reject_if (cid \<noteq> None \<and> unknown_keys DEP_MANIFEST_KEYS c) ManifestKeys) (\<lambda>_.
       Inr v)))"

definition waf_number :: "(string \<times> json) list \<Rightarrow> string \<Rightarrow> rat \<Rightarrow> rat \<Rightarrow> bool \<Rightarrow> opt_error + rat option" where
  "waf_number w k lo hi whole =
     (case given w k of
        None \<Rightarrow> Inr None
      | Some v \<Rightarrow>
          (case js_number v of
             Some x \<Rightarrow> if x < lo \<or> hi < x \<or> (whole \<and> of_int \<lfloor>x\<rfloor> \<noteq> x) then Inl (WafNumber k) else Inr (Some x)
           | None \<Rightarrow> Inl (WafNumber k)))"

definition waf_entry :: "nat \<Rightarrow> (string \<Rightarrow> bool) \<Rightarrow> json \<Rightarrow> string option" where
  "waf_entry max_len ok v =
     (case v of
        JStr x \<Rightarrow> if js_trim x = [] \<or> max_len < length x \<or> \<not> ok (js_trim x) then None else Some (js_trim x)
      | _ \<Rightarrow> None)"

definition waf_strings ::
  "(string \<times> json) list \<Rightarrow> string \<Rightarrow> nat \<Rightarrow> nat \<Rightarrow> (string \<Rightarrow> bool) \<Rightarrow> opt_error + string list option" where
  "waf_strings w k most max_len ok =
     (case given w k of
        None \<Rightarrow> Inr None
      | Some (JArr xs) \<Rightarrow>
          if length xs < 1 \<or> most < length xs then Inl (WafList k)
          else (case those (map (waf_entry max_len ok) xs) of None \<Rightarrow> Inl (WafEntry k) | Some ys \<Rightarrow> Inr (Some ys))
      | Some _ \<Rightarrow> Inl (WafList k))"

text \<open>The burst defaults to about four seconds of headroom; given alone it is refused.\<close>

definition burst_of :: "rat option \<Rightarrow> rat option \<Rightarrow> opt_error + rat option" where
  "burst_of rps burst =
     (case burst of
        Some b \<Rightarrow> if rps = None then Inl BurstNeedsRps else Inr (Some b)
      | None \<Rightarrow> Inr (map_option (\<lambda>r. max 5 (of_int \<lceil>r * 4\<rceil>)) rps))"

definition scanners_of :: "(string \<times> json) list \<Rightarrow> opt_error + bool" where
  "scanners_of w =
     (case given w ''blockScanners'' of None \<Rightarrow> Inr False | Some (JBool b) \<Rightarrow> Inr b | Some _ \<Rightarrow> Inl ScannersType)"

definition waf_enables_nothing :: "waf \<Rightarrow> bool" where
  "waf_enables_nothing w \<longleftrightarrow> waf_rps w = None \<and> waf_burst w = None \<and> waf_maxConcurrent w = None
     \<and> waf_maxBodyMb w = None \<and> waf_methods w = None \<and> waf_pathBlock w = None \<and> waf_uaBlock w = None
     \<and> \<not> waf_blockScanners w"

definition parse_waf :: "json \<Rightarrow> opt_error + waf" where
  "parse_waf v =
     and_then (object_of WafShape v) (\<lambda>w.
     and_then (reject_if (unknown_keys WAF_KEYS w) UnknownWaf) (\<lambda>_.
     and_then (waf_number w ''rps'' (1 / 10) 10000 False) (\<lambda>rps.
     and_then (waf_number w ''burst'' 1 100000 True) (\<lambda>b.
     and_then (burst_of rps b) (\<lambda>burst.
     and_then (waf_number w ''maxConcurrent'' 1 10000 True) (\<lambda>conc.
     and_then (waf_number w ''maxBodyMb'' (1 / 1000) 1024 False) (\<lambda>body.
     and_then (waf_strings w ''methods'' 10 10 method_shape) (\<lambda>methods.
     and_then (waf_strings w ''pathBlock'' 64 200 (prefix ''/'')) (\<lambda>paths.
     and_then (waf_strings w ''uaBlock'' 32 100 (\<lambda>x. 3 \<le> length x)) (\<lambda>uas.
     and_then (scanners_of w) (\<lambda>scan.
       let out = \<lparr>waf_rps = rps, waf_burst = burst, waf_maxConcurrent = conc, waf_maxBodyMb = body,
                  waf_methods = map_option (\<lambda>ms. unique (map to_upper ms)) methods,
                  waf_pathBlock = map_option (\<lambda>ps. unique (map to_lower ps)) paths,
                  waf_uaBlock = map_option (\<lambda>us. unique (map to_lower us)) uas,
                  waf_blockScanners = scan\<rparr>
       in and_then (reject_if (waf_enables_nothing out) WafNothing) (\<lambda>_. Inr out))))))))))))"

text \<open>A namespace is read when its key is present, whatever its value.\<close>

definition optional_member ::
  "(string \<times> json) list \<Rightarrow> string \<Rightarrow> (json \<Rightarrow> opt_error + 'a option) \<Rightarrow> opt_error + 'a option" where
  "optional_member m k p = (case map_of m k of None \<Rightarrow> Inr None | Some v \<Rightarrow> p v)"

definition present :: "(json \<Rightarrow> opt_error + 'a) \<Rightarrow> json \<Rightarrow> opt_error + 'a option" where
  "present p v = and_then (p v) (\<lambda>x. Inr (Some x))"

definition parse_namespaces :: "int option \<Rightarrow> (string \<times> json) list \<Rightarrow> opt_error + dep_options" where
  "parse_namespaces gpuMilli m =
     and_then (reject_if (unknown_keys NAMESPACES m) UnknownNamespace) (\<lambda>_.
     and_then (optional_member m ''network'' parse_network) (\<lambda>relay.
     and_then (optional_member m ''gpu'' (parse_gpu gpuMilli)) (\<lambda>gpu.
     and_then (optional_member m ''configCid'' (present parse_cid)) (\<lambda>cid.
     and_then (optional_member m ''config'' (present (parse_config cid))) (\<lambda>config.
     and_then (optional_member m ''waf'' (present parse_waf)) (\<lambda>w.
       Inr \<lparr>do_relay = relay, do_gpuOptional = gpu, do_configCid = cid, do_config = config, do_waf = w\<rparr>))))))"

definition parse_dep_options :: "string \<Rightarrow> int option \<Rightarrow> opt_error + dep_options" where
  "parse_dep_options raw gpuMilli =
     (let s = js_trim raw
      in if s = [] then Inr no_options
         else if DEP_OPTIONS_MAX_BYTES < length s then Inl TooLong
         else if \<not> prefix ''{'' s \<and> \<not> prefix ''['' s then Inl CidRetired
         else case json_parse s of
                None \<Rightarrow> Inl NotJson
              | Some v \<Rightarrow> and_then (object_of NotObject v) (parse_namespaces gpuMilli))"

section \<open>What the guest receives\<close>

text \<open>A configuration text: a version's own string, or the serialised override.\<close>

datatype config_text = VersionText string | Override json | EmptyOverride

record config_fields =
  cf_config :: config_text
  cf_cid :: string
  cf_override :: bool

definition override_config_fields :: "dep_options \<Rightarrow> (string \<times> string) option \<Rightarrow> config_fields" where
  "override_config_fields o' g =
     (if do_config o' = None \<and> do_configCid o' = None
      then \<lparr>cf_config = VersionText (case g of Some (c, _) \<Rightarrow> c | None \<Rightarrow> []),
            cf_cid = (case g of Some (_, c) \<Rightarrow> c | None \<Rightarrow> []), cf_override = False\<rparr>
      else \<lparr>cf_config = (case do_config o' of Some c \<Rightarrow> Override c | None \<Rightarrow> EmptyOverride),
            cf_cid = (case do_configCid o' of Some c \<Rightarrow> c | None \<Rightarrow> []), cf_override = True\<rparr>)"

datatype edit_verdict = EditSkip | EditStamp | EditWaf | EditRestart | EditError

definition config_identity :: "dep_options \<Rightarrow> (string \<times> json) option" where
  "config_identity o' =
     (if do_config o' = None \<and> do_configCid o' = None then None
      else Some (case do_configCid o' of Some c \<Rightarrow> c | None \<Rightarrow> [], case do_config o' of Some c \<Rightarrow> c | None \<Rightarrow> JNull))"

definition envelope_edit_verdict :: "bool \<Rightarrow> bool \<Rightarrow> string option \<Rightarrow> string \<Rightarrow> edit_verdict" where
  "envelope_edit_verdict onchain running envelope cur =
     (if \<not> onchain \<or> \<not> running then EditSkip
      else case envelope of
        None \<Rightarrow> EditStamp
      | Some old \<Rightarrow>
          if old = cur then EditSkip
          else (let oldO = (case parse_dep_options old None of Inr x \<Rightarrow> x | Inl _ \<Rightarrow> no_options)
                in case parse_dep_options cur None of
                     Inl _ \<Rightarrow> EditError
                   | Inr newO \<Rightarrow> if config_identity newO = config_identity oldO then EditWaf else EditRestart))"

section \<open>Routing flags of a version's configuration\<close>

definition config_doc :: "string \<Rightarrow> json option" where
  "config_doc cfg = json_parse (if cfg = [] then ''{}'' else cfg)"

definition config_flag :: "string \<Rightarrow> string \<Rightarrow> bool" where
  "config_flag k cfg = (case config_doc cfg of Some v \<Rightarrow> json_get k v = Some (JBool True) | None \<Rightarrow> False)"

definition gpu_optional_of_config :: "string \<Rightarrow> bool" where
  "gpu_optional_of_config cfg = config_flag ''gpuOptional'' cfg"

definition threads_of_config :: "string \<Rightarrow> bool" where
  "threads_of_config cfg = config_flag ''threads'' cfg"

definition set_of_config :: "string \<Rightarrow> bool" where
  "set_of_config cfg = config_flag ''set'' cfg"

definition mem64_of_config :: "string \<Rightarrow> bool" where
  "mem64_of_config cfg = config_flag ''mem64'' cfg"

definition wasi_of_config :: "string \<Rightarrow> string" where
  "wasi_of_config cfg =
     (case config_doc cfg of Some v \<Rightarrow> if json_get ''wasi'' v = Some (JStr ''0.3'') then ''0.3'' else ''0.2'' | None \<Rightarrow> ''0.2'')"

section \<open>Path rules\<close>

definition hex_byte :: "char \<Rightarrow> char \<Rightarrow> nat option" where
  "hex_byte a b = (case (hex_val a, hex_val b) of (Some x, Some y) \<Rightarrow> Some (16 * x + y) | _ \<Rightarrow> None)"

text \<open>\<open>decodeURIComponent\<close> over UTF-8 bytes: the escapes of a character beyond ASCII must form one well-formed sequence.\<close>

fun continuation :: "nat \<Rightarrow> string \<Rightarrow> (nat list \<times> string) option" where
  "continuation 0 s = Some ([], s)"
| "continuation (Suc n) (p # a # b # s) =
     (if p = CHR ''%'' then
        (case hex_byte a b of
           Some x \<Rightarrow> if 128 \<le> x \<and> x < 192 then map_option (\<lambda>(xs, r). (x # xs, r)) (continuation n s) else None
         | None \<Rightarrow> None)
      else None)"
| "continuation (Suc n) s = None"

definition utf8_tail :: "nat \<Rightarrow> nat option" where
  "utf8_tail b = (if 192 \<le> b \<and> b < 224 then Some 1 else if 224 \<le> b \<and> b < 240 then Some 2
                  else if 240 \<le> b \<and> b < 248 then Some 3 else None)"

definition utf8_value :: "nat \<Rightarrow> nat list \<Rightarrow> nat" where
  "utf8_value b bs = foldl (\<lambda>a x. 64 * a + (x - 128)) (b mod 2 ^ (6 - length bs)) bs"

definition utf8_valid :: "nat \<Rightarrow> nat list \<Rightarrow> bool" where
  "utf8_valid b bs =
     (let v = utf8_value b bs
      in (if length bs = 1 then 128 \<le> v else if length bs = 2 then 2048 \<le> v \<and> \<not> (55296 \<le> v \<and> v \<le> 57343)
          else 65536 \<le> v \<and> v \<le> 1114111))"

lemma continuation_length: "continuation n s = Some (xs, r) \<Longrightarrow> length r \<le> length s"
  by (induction n s arbitrary: xs r rule: continuation.induct)
    (fastforce split: if_splits option.splits intro: le_SucI)+

function uri_decode :: "string \<Rightarrow> string option" where
  "uri_decode [] = Some []"
| "uri_decode (c # t) =
     (if c \<noteq> CHR ''%'' then map_option ((#) c) (uri_decode t)
      else case t of
        a # b # u \<Rightarrow>
          (case hex_byte a b of
             None \<Rightarrow> None
           | Some x \<Rightarrow>
               if x < 128 then map_option ((#) (char_of x)) (uri_decode u)
               else (case utf8_tail x of
                  None \<Rightarrow> None
                | Some n \<Rightarrow>
                    (case continuation n u of
                       None \<Rightarrow> None
                     | Some (xs, r) \<Rightarrow>
                         if utf8_valid x xs \<and> length r \<le> length u
                         then map_option (\<lambda>z. char_of x # map char_of xs @ z) (uri_decode r)
                         else None)))
      | _ \<Rightarrow> None)"
  by pat_completeness auto

termination
  by (relation "measure length") auto

definition WAF_SCANNER_PATHS :: "string list" where
  "WAF_SCANNER_PATHS =
     [''/.env'', ''/.git'', ''/.svn'', ''/.aws'', ''/.ssh'', ''/.htaccess'', ''/.htpasswd'',
      ''/.ds_store'', ''/.vscode'', ''/.idea'', ''/wp-admin'', ''/wp-login.php'', ''/wp-includes'',
      ''/wp-content'', ''/xmlrpc.php'', ''/phpmyadmin'', ''/phpinfo'', ''/cgi-bin'',
      ''/vendor/phpunit'', ''/server-status'', ''/actuator'', ''/web.config'', ''/appsettings.json'',
      ''/id_rsa'', ''/backup.sql'', ''/dump.sql'', ''/config.php'']"

definition guarded_path :: "string \<Rightarrow> string" where
  "guarded_path url =
     (let p = hd (split_on (CHR ''?'') (if url = [] then ''/'' else url));
          q = (case uri_decode p of Some d \<Rightarrow> d | None \<Rightarrow> p)
      in to_lower (CHR ''/'' # dropWhile (\<lambda>c. c = CHR ''/'') q))"

definition waf_path_blocked :: "waf \<Rightarrow> string \<Rightarrow> bool" where
  "waf_path_blocked w url =
     (let p = guarded_path url
      in (waf_blockScanners w \<and> list_ex (\<lambda>x. prefix x p) WAF_SCANNER_PATHS)
         \<or> list_ex (\<lambda>x. prefix x p) (case waf_pathBlock w of Some ps \<Rightarrow> ps | None \<Rightarrow> []))"


section \<open>Well-formed options\<close>

definition list_ok :: "nat \<Rightarrow> (string \<Rightarrow> bool) \<Rightarrow> string list \<Rightarrow> bool" where
  "list_ok most ok xs \<longleftrightarrow> xs \<noteq> [] \<and> length xs \<le> most \<and> distinct xs \<and> list_all ok xs"

definition waf_ok :: "waf \<Rightarrow> bool" where
  "waf_ok w \<longleftrightarrow>
     pred_option (\<lambda>r. 1 / 10 \<le> r \<and> r \<le> 10000) (waf_rps w)
     \<and> pred_option (\<lambda>b. 1 \<le> b \<and> b \<le> 100000 \<and> of_int \<lfloor>b\<rfloor> = b) (waf_burst w)
     \<and> (waf_burst w = None \<longleftrightarrow> waf_rps w = None)
     \<and> pred_option (\<lambda>c. 1 \<le> c \<and> c \<le> 10000 \<and> of_int \<lfloor>c\<rfloor> = c) (waf_maxConcurrent w)
     \<and> pred_option (\<lambda>b. 1 / 1000 \<le> b \<and> b \<le> 1024) (waf_maxBodyMb w)
     \<and> pred_option (list_ok 10 (\<lambda>m. 3 \<le> length m \<and> length m \<le> 10 \<and> list_all capital_letter m)) (waf_methods w)
     \<and> pred_option (list_ok 64 (\<lambda>p. prefix ''/'' p \<and> length p \<le> 200 \<and> to_lower p = p)) (waf_pathBlock w)
     \<and> pred_option (list_ok 32 (\<lambda>u. 3 \<le> length u \<and> length u \<le> 100 \<and> to_lower u = u)) (waf_uaBlock w)
     \<and> \<not> waf_enables_nothing w"

definition config_ok :: "string option \<Rightarrow> json \<Rightarrow> bool" where
  "config_ok cid v =
     (case v of
        JObj c \<Rightarrow> map_of c ''_media'' = None \<and> (cid = None \<or> fst ` set c \<subseteq> set DEP_MANIFEST_KEYS)
      | _ \<Rightarrow> False)"

definition options_ok :: "int option \<Rightarrow> dep_options \<Rightarrow> bool" where
  "options_ok gpuMilli o' \<longleftrightarrow>
     pred_option (\<lambda>r. r = [] \<or> relay_shape r) (do_relay o')
     \<and> (do_gpuOptional o' = Some True \<and> gpuMilli \<noteq> None \<longrightarrow> 0 < the gpuMilli)
     \<and> pred_option cid_shape (do_configCid o')
     \<and> pred_option (config_ok (do_configCid o')) (do_config o')
     \<and> pred_option waf_ok (do_waf o')"

lemma lower_char_idem [simp]: "lower_char (lower_char c) = lower_char c"
  by (auto simp: lower_char_def Let_def of_char_of mod_less)

lemma to_lower_idem [simp]: "to_lower (to_lower s) = to_lower s"
  by (simp add: to_lower_def)

lemma length_to_lower [simp]: "length (to_lower s) = length s"
  by (simp add: to_lower_def)

lemma length_to_upper [simp]: "length (to_upper s) = length s"
  by (simp add: to_upper_def)

lemma length_js_trim: "length (js_trim s) \<le> length s"
proof -
  have "length (dropWhile is_space (rev (dropWhile is_space s))) \<le> length (dropWhile is_space s)"
    by (metis length_dropWhile_le length_rev)
  also have "\<dots> \<le> length s" by (rule length_dropWhile_le)
  finally show ?thesis by (simp add: js_trim_def)
qed

lemma capital_of_letter:
  assumes "lower_letter c \<or> capital_letter c"
  shows "capital_letter (capital_of c)"
  using assms by (auto simp: lower_letter_def capital_letter_def capital_of_def Let_def of_char_of mod_less)

lemma method_upper: "method_shape m \<Longrightarrow> 3 \<le> length (to_upper m) \<and> length (to_upper m) \<le> 10 \<and> list_all capital_letter (to_upper m)"
  by (auto simp: method_shape_def to_upper_def list_all_iff intro: capital_of_letter)

lemma lower_slash: "prefix ''/'' p \<Longrightarrow> prefix ''/'' (to_lower p)"
  by (cases p) (auto simp: to_lower_def lower_char_def)

lemma waf_number_ok:
  assumes "waf_number w k lo hi whole = Inr r"
  shows "pred_option (\<lambda>x. lo \<le> x \<and> x \<le> hi \<and> (whole \<longrightarrow> of_int \<lfloor>x\<rfloor> = x)) r"
proof (cases r)
  case (Some x)
  then obtain v where v: "given w k = Some v"
    using assms by (cases "given w k") (simp_all add: waf_number_def)
  then obtain y where y: "js_number v = Some y"
    using assms by (cases "js_number v") (simp_all add: waf_number_def)
  then have "\<not> (y < lo \<or> hi < y \<or> (whole \<and> of_int \<lfloor>y\<rfloor> \<noteq> y))" "y = x"
    using assms v Some by (simp_all only: waf_number_def option.case split: if_split_asm) simp_all
  then show ?thesis using Some by simp
qed simp

lemma waf_entries_ok:
  "those (map (waf_entry n ok) xs) = Some ys \<Longrightarrow> length ys = length xs \<and> list_all (\<lambda>y. ok y \<and> length y \<le> n) ys"
proof (induction xs arbitrary: ys)
  case (Cons x xs)
  then obtain y zs where y: "waf_entry n ok x = Some y" and zs: "those (map (waf_entry n ok) xs) = Some zs" "ys = y # zs"
    by (auto split: option.splits)
  from y obtain z where "y = js_trim z" "length z \<le> n" "ok y"
    by (cases x) (auto simp: waf_entry_def split: if_splits)
  with length_js_trim [of z] have "ok y \<and> length y \<le> n" by simp
  with Cons.IH [OF zs(1)] zs(2) show ?case by simp
qed simp

lemma waf_strings_ok:
  assumes "waf_strings w k most n ok = Inr r"
  shows "pred_option (\<lambda>ys. ys \<noteq> [] \<and> length ys \<le> most \<and> list_all (\<lambda>y. ok y \<and> length y \<le> n) ys) r"
proof (cases r)
  case (Some ys)
  with assms obtain xs where xs: "given w k = Some (JArr xs)"
    by (auto simp: waf_strings_def split: option.splits json.splits)
  with assms Some have "xs \<noteq> []" "length xs \<le> most" "those (map (waf_entry n ok) xs) = Some ys"
    by (auto simp: waf_strings_def split: if_splits option.splits)
  with waf_entries_ok [of n ok xs ys] Some show ?thesis by auto
qed simp

lemma list_ok_unique:
  assumes "pred_option (\<lambda>ys. ys \<noteq> [] \<and> length ys \<le> most \<and> list_all P ys) r" "\<And>y. P y \<Longrightarrow> Q (f y)"
  shows "pred_option (list_ok most Q) (map_option (\<lambda>ys. unique (map f ys)) r)"
proof (cases r)
  case (Some ys)
  have "length (unique (map f ys)) \<le> length ys" using length_unique [of "map f ys"] by simp
  with assms Some show ?thesis by (auto simp: list_ok_def list_all_iff)
qed simp

lemma burst_of_ok:
  assumes "burst_of rps b = Inr r" "pred_option (\<lambda>x. x \<le> 10000) rps"
    "pred_option (\<lambda>x. 1 \<le> x \<and> x \<le> 100000 \<and> of_int \<lfloor>x\<rfloor> = x) b"
  shows "pred_option (\<lambda>x. 1 \<le> x \<and> x \<le> 100000 \<and> of_int \<lfloor>x\<rfloor> = x) r \<and> (r = None \<longleftrightarrow> rps = None)"
proof (cases b)
  case None
  show ?thesis
  proof (cases rps)
    case (Some x)
    have "\<lceil>x * 4\<rceil> \<le> 40000" using assms(2) Some by (simp add: ceiling_le_iff)
    then have "(of_int \<lceil>x * 4\<rceil> :: rat) \<le> 40000" by linarith
    moreover have "of_int \<lfloor>max 5 (of_int \<lceil>x * 4\<rceil>) :: rat\<rfloor> = (max 5 (of_int \<lceil>x * 4\<rceil>) :: rat)"
      by (simp add: max_def)
    moreover have "r = Some (max 5 (of_int \<lceil>x * 4\<rceil>))" using assms(1) None Some by (simp add: burst_of_def)
    moreover have "1 \<le> (max 5 (of_int \<lceil>x * 4\<rceil>) :: rat)" by (rule max.coboundedI1) simp
    ultimately show ?thesis using Some by (simp only: option.pred_inject option.distinct) simp
  qed (use assms(1) None in \<open>simp add: burst_of_def\<close>)
next
  case (Some x)
  with assms show ?thesis by (auto simp: burst_of_def split: if_splits)
qed

lemma parse_waf_cases:
  assumes "parse_waf v = Inr out"
  obtains w rps b burst conc body ms ps us scan where
    "v = JObj w" "\<not> unknown_keys WAF_KEYS w"
    "waf_number w ''rps'' (1 / 10) 10000 False = Inr rps" "waf_number w ''burst'' 1 100000 True = Inr b"
    "burst_of rps b = Inr burst" "waf_number w ''maxConcurrent'' 1 10000 True = Inr conc"
    "waf_number w ''maxBodyMb'' (1 / 1000) 1024 False = Inr body" "waf_strings w ''methods'' 10 10 method_shape = Inr ms"
    "waf_strings w ''pathBlock'' 64 200 (prefix ''/'') = Inr ps" "waf_strings w ''uaBlock'' 32 100 (\<lambda>x. 3 \<le> length x) = Inr us"
    "scanners_of w = Inr scan"
    "out = \<lparr>waf_rps = rps, waf_burst = burst, waf_maxConcurrent = conc, waf_maxBodyMb = body,
            waf_methods = map_option (\<lambda>ms. unique (map to_upper ms)) ms,
            waf_pathBlock = map_option (\<lambda>ps. unique (map to_lower ps)) ps,
            waf_uaBlock = map_option (\<lambda>us. unique (map to_lower us)) us, waf_blockScanners = scan\<rparr>"
    "\<not> waf_enables_nothing out"
  using assms unfolding parse_waf_def Let_def
  by (simp only: and_then_Inr reject_if_Inr object_of_Inr sum.inject) blast

lemma parse_waf_ok:
  assumes "parse_waf v = Inr out"
  shows "waf_ok out"
  using assms
proof (cases rule: parse_waf_cases)
  case (1 w rps b burst conc body ms ps us scan)
  have rps: "pred_option (\<lambda>x. 1 / 10 \<le> x \<and> x \<le> 10000) rps" using waf_number_ok [OF 1(3)] by simp
  have b: "pred_option (\<lambda>x. 1 \<le> x \<and> x \<le> 100000 \<and> of_int \<lfloor>x\<rfloor> = x) b" using waf_number_ok [OF 1(4)] by simp
  have "pred_option (\<lambda>x. x \<le> 10000) rps" using rps by (cases rps) auto
  note burst = burst_of_ok [OF 1(5) this b]
  have ms: "pred_option (list_ok 10 (\<lambda>m. 3 \<le> length m \<and> length m \<le> 10 \<and> list_all capital_letter m)) (waf_methods out)"
    unfolding 1(12) by (simp, rule list_ok_unique [OF waf_strings_ok [OF 1(8)]]) (use method_upper in auto)
  have ps: "pred_option (list_ok 64 (\<lambda>p. prefix ''/'' p \<and> length p \<le> 200 \<and> to_lower p = p)) (waf_pathBlock out)"
    unfolding 1(12) by (simp, rule list_ok_unique [OF waf_strings_ok [OF 1(9)]]) (use lower_slash in auto)
  have us: "pred_option (list_ok 32 (\<lambda>u. 3 \<le> length u \<and> length u \<le> 100 \<and> to_lower u = u)) (waf_uaBlock out)"
    unfolding 1(12) by (simp, rule list_ok_unique [OF waf_strings_ok [OF 1(10)]]) auto
  show ?thesis
    using rps burst waf_number_ok [OF 1(6)] waf_number_ok [OF 1(7)] ms ps us 1(12,13) by (simp add: waf_ok_def)
qed

lemma parse_network_cases:
  assumes "parse_network v = Inr r"
  obtains m where "v = JObj m" "fst ` set m \<subseteq> {''relay''}" "map_of m ''relay'' = None" "r = None"
  | m x where "v = JObj m" "fst ` set m \<subseteq> {''relay''}" "map_of m ''relay'' = Some x"
      "x = JNull \<and> r = Some [] \<or> (\<exists>s. x = JStr s \<and> r = Some s \<and> (s = [] \<or> relay_shape s))"
proof -
  from assms obtain m where m: "v = JObj m" "fst ` set m \<subseteq> {''relay''}"
    unfolding parse_network_def by (auto simp: no_unknown_keys)
  then have "\<not> unknown_keys [''relay''] m" by (simp add: no_unknown_keys)
  with assms m have r: "(case map_of m ''relay'' of
         None \<Rightarrow> Inr None
       | Some JNull \<Rightarrow> Inr (Some [])
       | Some (JStr r) \<Rightarrow> if r = [] then Inr (Some []) else if relay_shape r then Inr (Some r) else Inl RelayName
       | Some _ \<Rightarrow> Inl RelayName) = Inr r"
    by (simp add: parse_network_def object_of_def reject_if_def)
  show thesis
  proof (cases "map_of m ''relay''")
    case None
    with r m that(1) show thesis by simp
  next
    case (Some x)
    with r have "x = JNull \<and> r = Some [] \<or> (\<exists>s. x = JStr s \<and> r = Some s \<and> (s = [] \<or> relay_shape s))"
      by (cases x) (simp_all split: if_split_asm)
    with Some m that(2) show thesis by blast
  qed
qed

lemma parse_network_ok: "parse_network v = Inr r \<Longrightarrow> pred_option (\<lambda>r. r = [] \<or> relay_shape r) r"
  by (erule parse_network_cases) auto

lemma parse_gpu_cases:
  assumes "parse_gpu milli v = Inr r"
  obtains m where "v = JObj m" "fst ` set m \<subseteq> {''optional''}" "map_of m ''optional'' = None" "r = None"
  | m b where "v = JObj m" "fst ` set m \<subseteq> {''optional''}" "map_of m ''optional'' = Some (JBool b)" "r = Some b"
      "\<not> (b \<and> (\<exists>n. milli = Some n \<and> n \<le> 0))"
proof -
  from assms obtain m where m: "v = JObj m" "fst ` set m \<subseteq> {''optional''}"
    unfolding parse_gpu_def by (auto simp: no_unknown_keys)
  then have "\<not> unknown_keys [''optional''] m" by (simp add: no_unknown_keys)
  with assms m have r: "(case map_of m ''optional'' of
         None \<Rightarrow> Inr None
       | Some (JBool b) \<Rightarrow>
           (case milli of
              Some milli \<Rightarrow> if b \<and> milli \<le> 0 then Inl GpuOptionalNoShare else Inr (Some b)
            | None \<Rightarrow> Inr (Some b))
       | Some _ \<Rightarrow> Inl GpuOptionalType) = Inr r"
    by (simp add: parse_gpu_def object_of_def reject_if_def)
  show thesis
  proof (cases "map_of m ''optional''")
    case None
    with r m that(1) show thesis by simp
  next
    case (Some x)
    with r obtain b where "x = JBool b" "r = Some b" "\<not> (b \<and> (\<exists>n. milli = Some n \<and> n \<le> 0))"
      by (cases x; cases milli) (simp_all split: if_split_asm)
    with Some m that(2) show thesis by blast
  qed
qed

lemma parse_gpu_ok: "parse_gpu milli v = Inr r \<Longrightarrow> r = Some True \<Longrightarrow> milli = Some n \<Longrightarrow> 0 < n"
  by (erule parse_gpu_cases) auto

lemma parse_config_ok: "parse_config cid v = Inr c \<Longrightarrow> c = v \<and> config_ok cid v"
  by (auto simp: parse_config_def config_ok_def no_unknown_keys)

lemma parse_cid_ok: "parse_cid v = Inr s \<Longrightarrow> cid_shape s \<and> v = JStr s"
  by (auto simp: parse_cid_def split: json.splits if_splits)

lemma optional_member_cases:
  assumes "optional_member m k p = Inr r"
  obtains "map_of m k = None" "r = None" | v where "map_of m k = Some v" "p v = Inr r"
  using assms by (auto simp: optional_member_def split: option.splits)

lemma optional_present_cases:
  assumes "optional_member m k (present p) = Inr r"
  obtains "map_of m k = None" "r = None" | v x where "map_of m k = Some v" "p v = Inr x" "r = Some x"
  using assms by (auto simp: optional_member_def present_def split: option.splits)

lemma parse_namespaces_cases:
  assumes "parse_namespaces milli m = Inr o'"
  obtains relay gpu cid config w where
    "\<not> unknown_keys NAMESPACES m" "optional_member m ''network'' parse_network = Inr relay"
    "optional_member m ''gpu'' (parse_gpu milli) = Inr gpu" "optional_member m ''configCid'' (present parse_cid) = Inr cid"
    "optional_member m ''config'' (present (parse_config cid)) = Inr config" "optional_member m ''waf'' (present parse_waf) = Inr w"
    "o' = \<lparr>do_relay = relay, do_gpuOptional = gpu, do_configCid = cid, do_config = config, do_waf = w\<rparr>"
  using assms unfolding parse_namespaces_def by auto

lemma parse_namespaces_ok:
  assumes "parse_namespaces milli m = Inr o'"
  shows "options_ok milli o'"
  using assms
proof (cases rule: parse_namespaces_cases)
  case (1 relay gpu cid config w)
  have "pred_option (\<lambda>r. r = [] \<or> relay_shape r) relay"
    using 1(2) by (cases rule: optional_member_cases) (auto dest: parse_network_ok)
  moreover have "gpu = Some True \<and> milli \<noteq> None \<longrightarrow> 0 < the milli"
    using 1(3) by (cases rule: optional_member_cases) (auto dest: parse_gpu_ok)
  moreover have "pred_option cid_shape cid"
    using 1(4) by (cases rule: optional_present_cases) (auto dest: parse_cid_ok)
  moreover have "pred_option (config_ok cid) config"
    using 1(5) by (cases rule: optional_present_cases) (auto dest: parse_config_ok)
  moreover have "pred_option waf_ok w"
    using 1(6) by (cases rule: optional_present_cases) (auto dest: parse_waf_ok)
  ultimately show ?thesis using 1(7) by (simp add: options_ok_def)
qed

lemma parse_dep_options_cases:
  assumes "parse_dep_options raw milli = Inr o'"
  obtains "js_trim raw = []" "o' = no_options"
  | m where "js_trim raw \<noteq> []" "length (js_trim raw) \<le> DEP_OPTIONS_MAX_BYTES" "json_parse (js_trim raw) = Some (JObj m)"
      "parse_namespaces milli m = Inr o'"
  using assms unfolding parse_dep_options_def Let_def
  by (auto split: if_splits option.splits)

section \<open>Demonstration\<close>

definition demo_envelope :: string where
  "demo_envelope = ''{\"waf\":{\"rps\":2,\"pathBlock\":[\"/Admin\"]},\"gpu\":{\"optional\":true}}''"

lemma demo_options_parse:
  "parse_dep_options demo_envelope (Some 500) =
     Inr \<lparr>do_relay = None, do_gpuOptional = Some True, do_configCid = None, do_config = None,
          do_waf = Some \<lparr>waf_rps = Some 2, waf_burst = Some 8, waf_maxConcurrent = None, waf_maxBodyMb = None,
                         waf_methods = None, waf_pathBlock = Some [''/admin''], waf_uaBlock = None, waf_blockScanners = False\<rparr>\<rparr>"
  by code_simp

lemma demo_refused_at_claim: "parse_dep_options demo_envelope (Some 0) = Inl GpuOptionalNoShare"
  by code_simp

text \<open>The watch parses the edit without the bought share, so it applies what every later claim refuses.\<close>

lemma edit_accepts_what_claim_refuses:
  "envelope_edit_verdict True True (Some []) demo_envelope = EditWaf
   \<and> parse_dep_options demo_envelope (Some 0) = Inl GpuOptionalNoShare"
  by code_simp

text \<open>One undecodable escape makes the rule match the raw bytes, where encoded letters hide the prefix.\<close>

lemma undecodable_tail_dodges:
  "\<exists>w. waf_path_blocked w ''/%61dmin'' \<and> \<not> waf_path_blocked w ''/%61dmin/%ff''"
proof -
  let ?w = "\<lparr>waf_rps = None, waf_burst = None, waf_maxConcurrent = None, waf_maxBodyMb = None, waf_methods = None,
             waf_pathBlock = Some [''/admin''], waf_uaBlock = None, waf_blockScanners = False\<rparr>"
  have "waf_path_blocked ?w ''/%61dmin'' \<and> \<not> waf_path_blocked ?w ''/%61dmin/%ff''" by code_simp
  then show ?thesis by blast
qed


section \<open>Percent-encoding and the path rules\<close>

text \<open>\<open>encodes p e\<close>: \<open>e\<close> spells the ASCII path \<open>p\<close>, any of its characters percent-encoded.\<close>

inductive encodes :: "string \<Rightarrow> string \<Rightarrow> bool" where
  encodes_nil: "encodes [] []"
| encodes_plain: "encodes p e \<Longrightarrow> c \<noteq> CHR ''%'' \<Longrightarrow> c \<noteq> CHR ''?'' \<Longrightarrow> encodes (c # p) (c # e)"
| encodes_escape: "encodes p e \<Longrightarrow> hex_byte a b = Some (of_char c) \<Longrightarrow> (of_char c :: nat) < 128
    \<Longrightarrow> encodes (c # p) (CHR ''%'' # a # b # e)"

inductive_simps encodes_simps: "encodes [] e" "encodes (c # p) e"

code_pred (modes: i \<Rightarrow> i \<Rightarrow> bool) encodes .

definition is_query :: "string \<Rightarrow> bool" where
  "is_query q \<longleftrightarrow> q = [] \<or> prefix ''?'' q"

lemma hex_byte_not_mark: "hex_byte a b = Some n \<Longrightarrow> a \<noteq> CHR ''?'' \<and> b \<noteq> CHR ''?''"
  by (auto simp: hex_byte_def hex_val_def Let_def split: option.splits if_splits)

lemma encodes_no_mark: "encodes p e \<Longrightarrow> CHR ''?'' \<notin> set e"
  by (induction rule: encodes.induct) (auto dest: hex_byte_not_mark)

lemma encodes_decode: "encodes p e \<Longrightarrow> uri_decode e = Some p"
  by (induction rule: encodes.induct) auto

lemma split_before_query: "CHR ''?'' \<notin> set e \<Longrightarrow> is_query q \<Longrightarrow> hd (split_on (CHR ''?'') (e @ q)) = e"
proof (induction e)
  case Nil
  then show ?case by (cases q) (auto simp: is_query_def)
next
  case (Cons c e)
  have "split_on (CHR ''?'') (e @ q) \<noteq> []" by (cases "e @ q") (auto split: list.splits)
  with Cons show ?case by (auto split: list.splits)
qed

lemma guarded_path_encoded:
  assumes "encodes p e" "is_query q"
  shows "guarded_path (e @ q) = to_lower (CHR ''/'' # dropWhile (\<lambda>c. c = CHR ''/'') p)"
proof (cases "e @ q = []")
  case True
  with assms(1) have "p = []" by (cases rule: encodes.cases) auto
  with True show ?thesis by (simp add: guarded_path_def)
next
  case False
  with assms show ?thesis
    by (auto simp: guarded_path_def Let_def split_before_query encodes_no_mark encodes_decode)
qed

lemma parsed_options_ok: "parse_dep_options raw milli = Inr o' \<Longrightarrow> options_ok milli o'"
  by (erule parse_dep_options_cases) (auto simp: options_ok_def no_options_def dest: parse_namespaces_ok)

section \<open>Properties\<close>

text \<open>What an accepted envelope says, member by member.\<close>

definition relay_text :: "json \<Rightarrow> string" where
  "relay_text v = (case v of JStr s \<Rightarrow> s | _ \<Rightarrow> [])"

definition waf_honours :: "(string \<times> json) list \<Rightarrow> waf \<Rightarrow> bool" where
  "waf_honours w out \<longleftrightarrow>
     fst ` set w \<subseteq> set WAF_KEYS
     \<and> Option.bind (given w ''rps'') js_number = waf_rps out \<and> (given w ''rps'' = None \<longleftrightarrow> waf_rps out = None)
     \<and> (given w ''burst'' = None \<or> Option.bind (given w ''burst'') js_number = waf_burst out)
     \<and> Option.bind (given w ''maxConcurrent'') js_number = waf_maxConcurrent out
     \<and> Option.bind (given w ''maxBodyMb'') js_number = waf_maxBodyMb out
     \<and> (given w ''methods'' = None \<longleftrightarrow> waf_methods out = None)
     \<and> (given w ''pathBlock'' = None \<longleftrightarrow> waf_pathBlock out = None)
     \<and> (given w ''uaBlock'' = None \<longleftrightarrow> waf_uaBlock out = None)
     \<and> (given w ''blockScanners'' = Some (JBool True) \<longleftrightarrow> waf_blockScanners out)"

definition honours :: "(string \<times> json) list \<Rightarrow> dep_options \<Rightarrow> bool" where
  "honours m o' \<longleftrightarrow>
     fst ` set m \<subseteq> set NAMESPACES
     \<and> map_of m ''config'' = do_config o'
     \<and> map_of m ''configCid'' = map_option JStr (do_configCid o')
     \<and> (case map_of m ''network'' of
          None \<Rightarrow> do_relay o' = None
        | Some v \<Rightarrow> \<exists>n. v = JObj n \<and> fst ` set n \<subseteq> {''relay''} \<and> do_relay o' = map_option relay_text (map_of n ''relay''))
     \<and> (case map_of m ''gpu'' of
          None \<Rightarrow> do_gpuOptional o' = None
        | Some v \<Rightarrow> \<exists>g. v = JObj g \<and> fst ` set g \<subseteq> {''optional''} \<and> map_of g ''optional'' = map_option JBool (do_gpuOptional o'))
     \<and> (case map_of m ''waf'' of
          None \<Rightarrow> do_waf o' = None
        | Some v \<Rightarrow> \<exists>w out. v = JObj w \<and> do_waf o' = Some out \<and> waf_honours w out)"

lemma waf_number_value:
  "waf_number w k lo hi whole = Inr r \<Longrightarrow> Option.bind (given w k) js_number = r \<and> (given w k = None \<longleftrightarrow> r = None)"
proof (cases "given w k")
  case (Some v)
  assume "waf_number w k lo hi whole = Inr r"
  with Some show ?thesis
    by (cases "js_number v") (auto simp: waf_number_def split: if_split_asm, metis+)
qed (simp add: waf_number_def)

lemma waf_strings_given: "waf_strings w k n l ok = Inr r \<Longrightarrow> given w k = None \<longleftrightarrow> r = None"
proof (cases "given w k")
  case (Some v)
  assume r: "waf_strings w k n l ok = Inr r"
  with Some obtain xs where "v = JArr xs" by (cases v) (simp_all add: waf_strings_def)
  with Some r show ?thesis
    by (cases "those (map (waf_entry l ok) xs)") (auto simp: waf_strings_def split: if_split_asm, metis+)
qed (simp add: waf_strings_def)

lemma scanners_of_value: "scanners_of w = Inr b \<Longrightarrow> given w ''blockScanners'' = Some (JBool True) \<longleftrightarrow> b"
  by (cases "given w ''blockScanners''") (auto simp: scanners_of_def split: json.splits)

lemma burst_of_value: "burst_of rps b = Inr r \<Longrightarrow> b = None \<or> b = r"
  by (auto simp: burst_of_def split: option.splits if_splits)

lemma parse_waf_honours:
  assumes "parse_waf v = Inr out"
  shows "\<exists>w. v = JObj w \<and> waf_honours w out"
  using assms
proof (cases rule: parse_waf_cases)
  case (1 w rps b burst conc body ms ps us scan)
  have burst: "given w ''burst'' = None \<or> Option.bind (given w ''burst'') js_number = burst"
    using waf_number_value [OF 1(4)] burst_of_value [OF 1(5)] by auto
  show ?thesis
    using 1(1,2) waf_number_value [OF 1(3)] waf_number_value [OF 1(6)] waf_number_value [OF 1(7)]
      waf_strings_given [OF 1(8)] waf_strings_given [OF 1(9)] waf_strings_given [OF 1(10)] scanners_of_value [OF 1(11)] burst
    unfolding 1(12) by (simp add: waf_honours_def no_unknown_keys)
qed

lemma parse_namespaces_honours:
  assumes "parse_namespaces milli m = Inr o'"
  shows "honours m o'"
  using assms
proof (cases rule: parse_namespaces_cases)
  case (1 relay gpu cid config w)
  have "case map_of m ''network'' of None \<Rightarrow> relay = None
        | Some v \<Rightarrow> \<exists>n. v = JObj n \<and> fst ` set n \<subseteq> {''relay''} \<and> relay = map_option relay_text (map_of n ''relay'')"
    using 1(2) by (cases rule: optional_member_cases) (auto elim!: parse_network_cases simp: relay_text_def)
  moreover have "case map_of m ''gpu'' of None \<Rightarrow> gpu = None
        | Some v \<Rightarrow> \<exists>g. v = JObj g \<and> fst ` set g \<subseteq> {''optional''} \<and> map_of g ''optional'' = map_option JBool gpu"
    using 1(3) by (cases rule: optional_member_cases) (auto elim!: parse_gpu_cases)
  moreover have "map_of m ''configCid'' = map_option JStr cid"
    using 1(4) by (cases rule: optional_present_cases) (auto dest: parse_cid_ok)
  moreover have "map_of m ''config'' = config"
    using 1(5) by (cases rule: optional_present_cases) (auto dest: parse_config_ok)
  moreover have "case map_of m ''waf'' of None \<Rightarrow> w = None
        | Some v \<Rightarrow> \<exists>x out. v = JObj x \<and> w = Some out \<and> waf_honours x out"
    using 1(6) by (cases rule: optional_present_cases) (auto dest: parse_waf_honours)
  ultimately show ?thesis
    using 1(1) unfolding honours_def 1(7) dep_options.select_convs no_unknown_keys by (intro conjI)
qed

text \<open>
  C26: Options are well formed whenever an envelope is accepted: every rate, burst, concurrency and body
  limit is a number within its bounds, a burst exists exactly with a rate, the lists are non-empty,
  bounded, without repetition and in normal form, the guard enables something, the relay is a legal
  name or the default, a softened card needs a bought share, the configuration never holds the
  catalog's media and, beside a pinned document, names only routing keys.
\<close>

theorem accepted_options_well_formed:
  assumes "parse_dep_options raw milli = Inr o'"
  shows "options_ok milli o'"
  using assms by (rule parsed_options_ok)

theorem accepted_options_well_formed_witness:
  "\<exists>o'. parse_dep_options demo_envelope (Some 500) = Inr o' \<and> do_gpuOptional o' = Some True \<and> options_ok (Some 500) o'"
  using accepted_options_well_formed [OF demo_options_parse] demo_options_parse by simp

text \<open>
  C33: Nothing an owner writes is ignored: an accepted envelope is one JSON object whose members all
  belong to known namespaces, every member of every namespace is a known key, and each is reflected
  in the options the enclave acts on; whatever is not so is refused.
\<close>

theorem accepted_envelope_is_fully_honoured:
  assumes "parse_dep_options raw milli = Inr o'" and "js_trim raw \<noteq> []"
  shows "\<exists>m. json_parse (js_trim raw) = Some (JObj m) \<and> honours m o'"
  using assms by (auto elim!: parse_dep_options_cases intro: parse_namespaces_honours)

theorem accepted_envelope_is_fully_honoured_witness:
  "\<exists>m o'. parse_dep_options demo_envelope (Some 500) = Inr o' \<and> json_parse (js_trim demo_envelope) = Some (JObj m) \<and> honours m o'"
proof -
  have "js_trim demo_envelope \<noteq> []" by code_simp
  with accepted_envelope_is_fully_honoured [OF demo_options_parse] demo_options_parse show ?thesis by blast
qed

text \<open>
  Percent-encoding does not dodge a path rule: two spellings of the same ASCII path, each with any
  of its characters encoded and with any query, get the same verdict under every guard.
\<close>

theorem encoding_does_not_dodge:
  assumes "encodes p e" and "encodes p e'" and "is_query q" and "is_query q'"
  shows "waf_path_blocked w (e @ q) = waf_path_blocked w (e' @ q')"
  using assms by (simp add: waf_path_blocked_def guarded_path_encoded)

theorem encoding_does_not_dodge_witness:
  "\<exists>w. waf_path_blocked w ''/%61dmin'' \<and> waf_path_blocked w (''/%61dmin'' @ []) = waf_path_blocked w (''/admin'' @ ''?x=1'')"
proof -
  have "encodes ''/admin'' ''/%61dmin''" "encodes ''/admin'' ''/admin''" "is_query []" "is_query ''?x=1''"
    by code_simp+
  with undecodable_tail_dodges encoding_does_not_dodge show ?thesis by blast
qed

end
