(* ===== verification/App_Gate.thy ===== *)
theory App_Gate
  imports Dep_Options Gpu_Pools
begin

text \<open>
  The gates one application version must pass on an enclave (\<open>supervisor.js\<close>): the schema
  revision of a contract as it is sniffed and cached (\<open>catSchemaRev\<close>, \<open>registryRev\<close>,
  \<open>depsAbi\<close>), the approval of a catalog reference (\<open>gateAppReference\<close>, \<open>approvalVerdict\<close>), the port list
  of a version (\<open>parseFirewall\<close>), the minimum shares its declared needs come to on this hardware
  (\<open>minSharesOf\<close>, \<open>gpuRouting\<close>), and the price (\<open>hostRate6\<close>, \<open>capVerdict\<close>, \<open>priceFloorRefusal\<close>, \<open>feeGate\<close>).
  A chain read is a value of \<open>chain_read\<close>; sizes and shares are exact rationals with the code's
  tolerances.
\<close>

section \<open>Schema revisions\<close>

text \<open>The answer to a schema getter: a number, a revert (no such getter), or trouble on the way.\<close>

datatype chain_answer = Answered int | Reverted | NoAnswer

type_synonym rev_cache = "(string \<times> int) option"

definition cat_schema_rev :: "string \<Rightarrow> chain_answer \<Rightarrow> rev_cache \<Rightarrow> int option \<times> rev_cache" where
  "cat_schema_rev addr a cache =
     (if addr = [] then (None, cache)
      else case cache of
        Some (k, r) \<Rightarrow> if k = addr then (Some r, cache)
                        else (case a of Answered n \<Rightarrow> (Some n, Some (addr, n)) | Reverted \<Rightarrow> (Some 2, Some (addr, 2)) | NoAnswer \<Rightarrow> (None, cache))
      | None \<Rightarrow> (case a of Answered n \<Rightarrow> (Some n, Some (addr, n)) | Reverted \<Rightarrow> (Some 2, Some (addr, 2)) | NoAnswer \<Rightarrow> (None, cache)))"

text \<open>A registry answers at least 1; trouble is thrown (\<open>None\<close>).\<close>

definition registry_rev :: "string \<Rightarrow> chain_answer \<Rightarrow> rev_cache \<Rightarrow> int option \<times> rev_cache" where
  "registry_rev addr a cache =
     (let on = to_lower addr;
          sniff = (case a of
             Answered n \<Rightarrow> (let r = (if n = 0 then 1 else n) in (Some r, Some (on, r)))
           | Reverted \<Rightarrow> (Some 1, Some (on, 1))
           | NoAnswer \<Rightarrow> (None, cache))
      in case cache of Some (k, r) \<Rightarrow> if r \<noteq> 0 \<and> k = on then (Some r, cache) else sniff | None \<Rightarrow> sniff)"

text \<open>The ledger's shape always answers: the last known revision (1 at first) when a sniff fails.\<close>

definition deps_rev :: "string \<Rightarrow> chain_answer \<Rightarrow> rev_cache \<Rightarrow> int \<times> rev_cache" where
  "deps_rev addr a cache =
     (let known = (case cache of Some (_, r) \<Rightarrow> r | None \<Rightarrow> 1)
      in if addr = [] \<or> (\<exists>r. cache = Some (addr, r)) then (known, cache)
         else case a of
           Answered n \<Rightarrow> (n, Some (addr, n))
         | Reverted \<Rightarrow> (1, Some (addr, 1))
         | NoAnswer \<Rightarrow> (known, cache))"

lemma deps_cached_code [code_unfold]:
  "(\<exists>r. cache = Some (addr, r)) \<longleftrightarrow> (case cache of Some (k, _) \<Rightarrow> k = addr | None \<Rightarrow> False)"
  by (auto split: option.splits)

text \<open>
  What the three caches share: a revision is stored under an address only when the contract there
  answered it or reverted. Under a truthful chain no sequence of sniffs, failures and address
  changes included, leaves a wrong revision in the cache.
\<close>

locale schema_cache =
  fixes sniff :: "string \<Rightarrow> chain_answer \<Rightarrow> rev_cache \<Rightarrow> rev_cache"
    and key :: "string \<Rightarrow> string" and base :: int and norm :: "int \<Rightarrow> int"
  assumes sniff_source: "sniff addr a cache = Some (k, r) \<Longrightarrow>
      cache = Some (k, r) \<or> (k = key addr \<and> (\<forall>n. a = Answered n \<longrightarrow> r = norm n) \<and> a \<noteq> NoAnswer \<and> (a = Reverted \<longrightarrow> r = base))"
begin

definition truthful :: "(string \<Rightarrow> int) \<Rightarrow> string \<times> chain_answer \<Rightarrow> bool" where
  "truthful rev' x \<longleftrightarrow> (case snd x of Answered n \<Rightarrow> rev' (key (fst x)) = norm n | Reverted \<Rightarrow> rev' (key (fst x)) = base | NoAnswer \<Rightarrow> True)"

definition right :: "(string \<Rightarrow> int) \<Rightarrow> rev_cache \<Rightarrow> bool" where
  "right rev' cache \<longleftrightarrow> (case cache of Some (k, r) \<Rightarrow> rev' k = r | None \<Rightarrow> True)"

lemma sniff_right:
  assumes "right rev' cache" "truthful rev' (addr, a)"
  shows "right rev' (sniff addr a cache)"
proof (cases "sniff addr a cache")
  case (Some x)
  obtain k r where x: "x = (k, r)" by (cases x)
  with Some sniff_source have "cache = Some (k, r) \<or>
      (k = key addr \<and> (\<forall>n. a = Answered n \<longrightarrow> r = norm n) \<and> a \<noteq> NoAnswer \<and> (a = Reverted \<longrightarrow> r = base))"
    by blast
  then have "rev' k = r"
    using assms by (elim disjE; cases a) (simp_all add: right_def truthful_def)
  then show ?thesis using Some x by (simp add: right_def)
qed (simp add: right_def)

lemma run_right:
  "right rev' cache \<Longrightarrow> list_all (truthful rev') xs \<Longrightarrow> right rev' (foldl (\<lambda>c x. sniff (fst x) (snd x) c) cache xs)"
proof (induction xs arbitrary: cache)
  case (Cons x xs)
  then show ?case using sniff_right [of rev' cache "fst x" "snd x"] by simp
qed simp

end

interpretation catalog_cache: schema_cache "\<lambda>addr a c. snd (cat_schema_rev addr a c)" "\<lambda>a. a" 2 "\<lambda>n. n"
  by unfold_locales (auto simp: cat_schema_rev_def split: option.splits if_splits chain_answer.splits)

interpretation registry_cache: schema_cache "\<lambda>addr a c. snd (registry_rev addr a c)" to_lower 1 "\<lambda>n. if n = 0 then 1 else n"
  by unfold_locales (auto simp: registry_rev_def Let_def split: option.splits if_splits chain_answer.splits)

interpretation ledger_cache: schema_cache "\<lambda>addr a c. snd (deps_rev addr a c)" "\<lambda>a. a" 1 "\<lambda>n. n"
  by unfold_locales (auto simp: deps_rev_def Let_def split: option.splits if_splits chain_answer.splits)

section \<open>The catalog gate\<close>

datatype 'a chain_read = Failed | Got 'a

record catalog_app =
  ca_exists :: bool
  ca_slug :: string
  ca_publisher :: string
  ca_versions :: int
  ca_active :: bool

record catalog_version =
  cv_cid :: string
  cv_name :: string
  cv_yanked :: bool
  cv_approval :: int
  cv_ports :: string
  cv_config :: string
  cv_vramMb :: rat
  cv_gpuGflops :: rat
  cv_memMb :: rat
  cv_cpuGflops :: rat

record catalog =
  ct_configured :: bool
  ct_app :: "string \<Rightarrow> catalog_app chain_read"
  ct_version :: "string \<Rightarrow> nat \<Rightarrow> catalog_version chain_read"
  ct_rev :: "int option"
  ct_fee :: "string \<Rightarrow> nat \<Rightarrow> int chain_read"
  ct_configCid :: "string \<Rightarrow> nat \<Rightarrow> string chain_read"

record min_spec =
  ms_vramMb :: rat
  ms_gpuGflops :: rat
  ms_memMb :: rat
  ms_cpuGflops :: rat
  ms_gpuOptional :: bool

record app_version =
  av_ref :: string
  av_wasmRef :: string
  av_config :: string
  av_configCid :: string
  av_ports :: string
  av_fee6 :: int
  av_pending :: bool
  av_publisher :: string
  av_min :: min_spec

datatype approval_refusal = Delisted | Yanked | Rejected | AwaitingApproval

datatype gate_error =
    BadReference | NoCatalog | CatalogUnreachable | UnknownApp | NoSuchVersion | NotApproved approval_refusal

definition approval_verdict :: "bool \<Rightarrow> bool \<Rightarrow> int \<Rightarrow> bool \<Rightarrow> approval_refusal option" where
  "approval_verdict active yanked approval forPrivate =
     (if \<not> active then Some Delisted
      else if yanked then Some Yanked
      else if approval = 2 then Some Rejected
      else if approval \<noteq> 1 \<and> \<not> forPrivate then Some AwaitingApproval
      else None)"

definition any_hex :: "char \<Rightarrow> bool" where
  "any_hex c \<longleftrightarrow> Js_Json.hex_val c \<noteq> None"

text \<open>\<open>catalog://0x<64 hex>/<1 to 9 digits>\<close>.\<close>

definition catalog_ref :: "string \<Rightarrow> (string \<times> nat) option" where
  "catalog_ref s =
     (case strip_prefix ''catalog://'' s of
        None \<Rightarrow> None
      | Some t \<Rightarrow>
          (let appId = take 66 t; r = drop 66 t
           in if length appId = 66 \<and> prefix ''0x'' appId \<and> list_all any_hex (drop 2 appId)
                 \<and> prefix ''/'' r \<and> digit_str (drop 1 r) \<and> length (drop 1 r) \<le> 9
              then Some (appId, digits_val (drop 1 r)) else None))"

definition min_of_version :: "catalog_version \<Rightarrow> min_spec" where
  "min_of_version v = \<lparr>ms_vramMb = cv_vramMb v, ms_gpuGflops = cv_gpuGflops v, ms_memMb = cv_memMb v,
     ms_cpuGflops = cv_cpuGflops v, ms_gpuOptional = gpu_optional_of_config (cv_config v)\<rparr>"

definition side_read :: "bool \<Rightarrow> 'a \<Rightarrow> 'a chain_read \<Rightarrow> gate_error + 'a" where
  "side_read asked d r = (if \<not> asked then Inr d else case r of Got x \<Rightarrow> Inr x | Failed \<Rightarrow> Inl CatalogUnreachable)"

definition gate_app_reference :: "catalog \<Rightarrow> string \<Rightarrow> bool \<Rightarrow> gate_error + app_version" where
  "gate_app_reference C reference forPrivate =
     (case catalog_ref (js_trim reference) of
        None \<Rightarrow> Inl BadReference
      | Some (appId, index) \<Rightarrow>
          if \<not> ct_configured C then Inl NoCatalog
          else (case ct_app C appId of
            Failed \<Rightarrow> Inl CatalogUnreachable
          | Got a \<Rightarrow>
              if \<not> ca_exists a then Inl UnknownApp
              else if ca_versions a \<le> int index then Inl NoSuchVersion
              else (case ct_version C appId index of
                Failed \<Rightarrow> Inl CatalogUnreachable
              | Got v \<Rightarrow>
                  (case approval_verdict (ca_active a) (cv_yanked v) (cv_approval v) forPrivate of
                     Some w \<Rightarrow> Inl (NotApproved w)
                   | None \<Rightarrow>
                       (case ct_rev C of
                          None \<Rightarrow> Inl CatalogUnreachable
                        | Some rev' \<Rightarrow>
                            and_then (side_read (5 \<le> rev') 0 (ct_fee C appId index)) (\<lambda>fee.
                            and_then (side_read (7 \<le> rev') [] (ct_configCid C appId index)) (\<lambda>cid.
                              Inr \<lparr>av_ref = js_trim reference, av_wasmRef = ''ipfs://'' @ cv_cid v, av_config = cv_config v,
                                   av_configCid = cid, av_ports = cv_ports v, av_fee6 = fee, av_pending = (cv_approval v \<noteq> 1),
                                   av_publisher = ca_publisher a, av_min = min_of_version v\<rparr>)))))))"

section \<open>Ports\<close>

definition FW_MIN :: nat where "FW_MIN = 1"
definition FW_MAX :: nat where "FW_MAX = 49999"
definition FW_RESERVED :: "nat list" where "FW_RESERVED = [1080, 8080, 8090, 8091]"

datatype fw_error = TooManyEntries | BadEntry string | PortNotAllowed nat | TwoHttp

type_synonym fw_entry = "string \<times> nat"

definition fw_entry_of :: "string \<Rightarrow> fw_error + fw_entry option" where
  "fw_entry_of e =
     (let s = to_lower (js_trim e)
      in if s = [] \<or> s = ''http'' then Inr None
         else case filter (\<lambda>p. prefix (p @ '':'') s) [''http'', ''tcp'', ''udp''] of
           p # _ \<Rightarrow>
             (let ds = drop (Suc (length p)) s
              in if \<not> digit_str ds \<or> 5 < length ds then Inl (BadEntry e)
                 else (let n = digits_val ds
                       in if n < FW_MIN \<or> FW_MAX < n \<or> n \<in> set FW_RESERVED then Inl (PortNotAllowed n)
                          else Inr (Some (p, n))))
         | [] \<Rightarrow> Inl (BadEntry e))"

fun fw_entries :: "string list \<Rightarrow> fw_entry list \<Rightarrow> fw_error + fw_entry list" where
  "fw_entries [] out = Inr out"
| "fw_entries (e # es) out =
     (case fw_entry_of e of
        Inl err \<Rightarrow> Inl err
      | Inr None \<Rightarrow> fw_entries es out
      | Inr (Some x) \<Rightarrow> fw_entries es (if x \<in> set out then out else out @ [x]))"

definition parse_firewall :: "string list \<Rightarrow> fw_error + fw_entry list" where
  "parse_firewall raw =
     (if 8 < length raw then Inl TooManyEntries
      else and_then (fw_entries raw []) (\<lambda>out.
        if 1 < length (filter (\<lambda>x. fst x = ''http'') out) then Inl TwoHttp else Inr out))"

definition fw_ports :: "string \<Rightarrow> fw_entry list \<Rightarrow> nat list" where
  "fw_ports proto fw = map snd (filter (\<lambda>x. fst x = proto) fw)"

text \<open>The port the app serves on: its \<open>http:N\<close> entry, 8080 without one.\<close>

definition app_port :: "fw_entry list \<Rightarrow> nat" where
  "app_port fw = (case fw_ports ''http'' fw of n # _ \<Rightarrow> n | [] \<Rightarrow> 8080)"

definition version_firewall :: "string \<Rightarrow> fw_error + fw_entry list" where
  "version_firewall ports = parse_firewall (if ports = [] then [] else split_on (CHR '','') ports)"

section \<open>Sizing\<close>

record box_spec =
  bs_ramGb :: rat
  bs_gflops :: rat
  bs_cardGb :: rat
  bs_cardTflops :: rat
  bs_isGpu :: bool
  bs_shielded :: bool

record min_shares =
  sh_gpu :: rat
  sh_gpuFloor :: rat
  sh_cpu :: rat
  sh_gpuOptional :: bool

definition pct_ceil :: "rat \<Rightarrow> int" where
  "pct_ceil x = max MIN_COMPUTE_PCT \<lceil>x * 100 - eps\<rceil>"

definition gpu_share_of :: "box_spec \<Rightarrow> rat \<Rightarrow> rat \<Rightarrow> rat" where
  "gpu_share_of B vramGb tflops =
     (if 0 < vramGb \<or> 0 < tflops then of_int (pct_ceil (max (vramGb / bs_cardGb B) (tflops / bs_cardTflops B))) / 100 else 0)"

definition cpu_share_of :: "box_spec \<Rightarrow> rat \<Rightarrow> rat \<Rightarrow> rat" where
  "cpu_share_of B memMb gflops =
     of_int (pct_ceil (max (memMb / (bs_ramGb B * 1024)) (gflops / bs_gflops B))) / 100"

definition min_shares_of :: "box_spec \<Rightarrow> min_spec \<Rightarrow> rat \<Rightarrow> min_shares" where
  "min_shares_of B m volGb =
     (let cpu = (if ms_memMb m \<noteq> 0 \<or> ms_cpuGflops m \<noteq> 0 then cpu_share_of B (ms_memMb m) (ms_cpuGflops m) else 0);
          vramGb = (if 0 < ms_vramMb m then max (ms_vramMb m / 1024) (max 0 volGb) else 0);
          gpu = (if 0 < vramGb \<or> ms_gpuGflops m \<noteq> 0 then gpu_share_of B vramGb (ms_gpuGflops m / 1000) else 0)
      in \<lparr>sh_gpu = gpu, sh_gpuFloor = (if ms_gpuOptional m then 0 else gpu), sh_cpu = cpu, sh_gpuOptional = ms_gpuOptional m\<rparr>)"

datatype gpu_route = OnCard | OnCores | CannotServe

definition declares_gpu :: "min_spec \<Rightarrow> bool" where
  "declares_gpu m \<longleftrightarrow> 0 < ms_vramMb m \<or> 0 < ms_gpuGflops m"

definition gpu_routing :: "box_spec \<Rightarrow> min_shares \<Rightarrow> bool \<Rightarrow> bool \<Rightarrow> gpu_route" where
  "gpu_routing B mins declaresGpu envelopeOptional =
     (if bs_isGpu B \<and> (bs_shielded B \<or> sh_gpu mins \<le> 1 + eps) then OnCard
      else if sh_gpuOptional mins \<or> (envelopeOptional \<and> \<not> declaresGpu) then OnCores
      else CannotServe)"

section \<open>Price\<close>

record seller =
  se_gpuPrice6 :: int
  se_cpuPrice6 :: int
  se_explicit :: bool
  se_payout :: "string option"

text \<open>The ledger as the gates read it: its revision, a deployment's fee snapshot and its cap.\<close>

record ledger_view =
  lv_rev :: int
  lv_registryRev :: "int option"
  lv_feeOf :: "(string \<times> int) chain_read"
  lv_capOf :: "int chain_read"

definition host_rate6 :: "seller \<Rightarrow> int \<Rightarrow> int \<Rightarrow> int" where
  "host_rate6 S gpuMilli cpuMilli = - ((- (se_gpuPrice6 S * gpuMilli + se_cpuPrice6 S * cpuMilli)) div 1000)"

definition host_charge_waived :: "seller \<Rightarrow> ledger_view \<Rightarrow> string \<Rightarrow> bool" where
  "host_charge_waived S L owner \<longleftrightarrow>
     (case (se_payout S, lv_registryRev L) of
        (Some p, Some r) \<Rightarrow> owner \<noteq> [] \<and> 4 \<le> r \<and> 12 \<le> lv_rev L \<and> to_lower owner = to_lower p
      | _ \<Rightarrow> False)"

datatype price_refusal = OverCap int int | OutOfFunds int | CapUnreadable | BelowAsk int int

definition cap_verdict :: "int \<Rightarrow> int \<Rightarrow> int \<Rightarrow> int \<Rightarrow> price_refusal option" where
  "cap_verdict mine6 fee6 cap6 balance6 =
     (let total6 = mine6 + fee6
      in if 0 < cap6 \<and> cap6 < total6 then Some (OverCap total6 cap6)
         else if balance6 < total6 then Some (OutOfFunds total6)
         else None)"

definition price_floor_refusal :: "seller \<Rightarrow> ledger_view \<Rightarrow> int \<Rightarrow> int \<Rightarrow> int \<Rightarrow> price_refusal option" where
  "price_floor_refusal S L rate gpuMilli cpuMilli =
     (let ask6 = host_rate6 S gpuMilli cpuMilli;
          fee6 = (if 4 \<le> lv_rev L then (case lv_feeOf L of Got (_, f) \<Rightarrow> f | Failed \<Rightarrow> 0) else 0);
          share6 = max 0 (rate - fee6)
      in if \<not> se_explicit S \<or> ask6 \<le> 0 \<or> ask6 \<le> share6 then None else Some (BelowAsk share6 ask6))"

definition rate_cap_refusal :: "seller \<Rightarrow> ledger_view \<Rightarrow> string \<Rightarrow> int \<Rightarrow> int \<Rightarrow> int \<Rightarrow> int \<Rightarrow> int \<Rightarrow> price_refusal option" where
  "rate_cap_refusal S L owner rate balance6 gpuMilli cpuMilli fee6 =
     (if lv_rev L < 8 then price_floor_refusal S L rate gpuMilli cpuMilli
      else case lv_capOf L of
        Failed \<Rightarrow> Some CapUnreadable
      | Got cap6 \<Rightarrow>
          cap_verdict (if host_charge_waived S L owner then 0 else host_rate6 S gpuMilli cpuMilli) fee6 cap6 balance6)"

datatype fee_refusal = FeeUnsupported | FeeUnreadable | FeeUnderdeclared

definition fee_gate :: "ledger_view \<Rightarrow> app_version \<Rightarrow> fee_refusal option" where
  "fee_gate L g =
     (if \<not> 0 < av_fee6 g then None
      else if lv_rev L < 4 then Some FeeUnsupported
      else case lv_feeOf L of
        Failed \<Rightarrow> Some FeeUnreadable
      | Got (recipient, fee6) \<Rightarrow>
          if fee6 < av_fee6 g \<or> to_lower recipient \<noteq> to_lower (av_publisher g) then Some FeeUnderdeclared else None)"

end
