(* ===== verification/Claim_Gate.thy ===== *)
theory Claim_Gate
  imports App_Gate
begin

text \<open>
  The claim gauntlet (\<open>supervisor.js\<close>): the cooldown of an id that failed to provision here, the
  model volumes an app mounts, and \<open>considerClaim\<close>, which either names the reason a ledger row is not
  this enclave's work or hands a slice to the claim. A read of the manager's \<open>/health\<close> is made anew
  at each gate, so the environment answers per gate. The result carries the cooldown table, which a
  consideration may update.
\<close>

section \<open>The provision cooldown\<close>

record backoff =
  bk_n :: nat
  bk_until :: int
  bk_ref :: "string option"
  bk_stage :: "string option"
  bk_why :: "string option"
  bk_cid :: "string option"
  bk_probedAt :: int
  bk_probeClears :: nat

type_synonym backoffs = "(string \<times> backoff) list"

definition cooldown_ms :: "nat \<Rightarrow> int" where
  "cooldown_ms n = min (60 * 60000) (5 * 60000 * 2 ^ (n - 1))"

definition or_else :: "'a option \<Rightarrow> 'a option \<Rightarrow> 'a option" where
  "or_else x y = (case x of Some v \<Rightarrow> Some v | None \<Rightarrow> y)"

definition note_provision_failure ::
  "int \<Rightarrow> string \<Rightarrow> string option \<Rightarrow> string option \<Rightarrow> string option \<Rightarrow> string option \<Rightarrow> backoffs \<Rightarrow> backoffs" where
  "note_provision_failure now i ref stage why cid m =
     (let prev = map_of m i;
          n = (case prev of Some p \<Rightarrow> bk_n p | None \<Rightarrow> 0) + 1;
          old = (\<lambda>f. Option.bind prev f)
      in AList.update i
           \<lparr>bk_n = n, bk_until = now + cooldown_ms n, bk_ref = or_else ref (old bk_ref), bk_stage = or_else stage (old bk_stage),
            bk_why = (case why of Some (c # cs) \<Rightarrow> Some (take 200 (c # cs)) | _ \<Rightarrow> old bk_why), bk_cid = or_else cid (old bk_cid),
            bk_probedAt = (case prev of Some p \<Rightarrow> bk_probedAt p | None \<Rightarrow> 0),
            bk_probeClears = (case prev of Some p \<Rightarrow> bk_probeClears p | None \<Rightarrow> 0)\<rparr> m)"

definition provision_backoff_holds :: "backoff option \<Rightarrow> int \<Rightarrow> string \<Rightarrow> bool" where
  "provision_backoff_holds entry now appRef =
     (case entry of
        None \<Rightarrow> False
      | Some e \<Rightarrow> now < bk_until e \<and> (case bk_ref e of None \<Rightarrow> True | Some r \<Rightarrow> r = [] \<or> r = appRef))"

definition prefetch_probe_due :: "backoff \<Rightarrow> int \<Rightarrow> bool" where
  "prefetch_probe_due e now \<longleftrightarrow> bk_stage e = Some ''prefetch'' \<and> bk_cid e \<noteq> None \<and> bk_cid e \<noteq> Some []
     \<and> bk_probeClears e < 3 \<and> 60000 \<le> now - bk_probedAt e"

section \<open>Ledger row, manager and enclave\<close>

record dep_row =
  dr_id :: string
  dr_owner :: string
  dr_active :: bool
  dr_leaseUntil :: int
  dr_runner :: string
  dr_runnerOperator :: string
  dr_balance6 :: int
  dr_rate :: int
  dr_configCid :: string
  dr_gpuMilli :: int
  dr_cpuMilli :: int
  dr_appRef :: string
  dr_isPublic :: bool
  dr_createdAt :: int

text \<open>A row of the manager's volume list is a named volume with its size, or a bare name.\<close>

datatype volume_row = SizedVolume string rat | BareVolume string

record health =
  he_p3 :: bool
  he_configCid :: bool
  he_coopThreads :: bool
  he_set :: bool
  he_mem64 :: bool
  he_volumes :: "volume_row list"
  he_nnProbe :: "string option"
  he_shieldedPool :: bool
  he_devFreeGb :: "rat option"

datatype health_read = AtSizing | AtWasi | AtConfigCid | AtThreads | AtSet | AtMem64

record claim_env =
  ce_now :: int
  ce_enclaveId :: string
  ce_tripped :: bool
  ce_records :: "(string \<times> string) list"
  ce_backoffs :: backoffs
  ce_evacuated :: "(string \<times> int) list"
  ce_gatewayServes :: "string \<Rightarrow> bool"
  ce_pools :: pools
  ce_ramGb :: rat
  ce_gflops :: rat
  ce_cardTflops :: rat
  ce_seller :: seller
  ce_ledger :: "string \<Rightarrow> ledger_view"
  ce_catalog :: catalog
  ce_health :: "health_read \<Rightarrow> health option"
  ce_shielded :: "string option"
  ce_graceSec :: int
  ce_secretsCapable :: bool
  ce_hasSecrets :: "string \<Rightarrow> bool option"

definition box_of :: "claim_env \<Rightarrow> box_spec" where
  "box_of E = \<lparr>bs_ramGb = ce_ramGb E, bs_gflops = ce_gflops E, bs_cardGb = pl_cardVram (ce_pools E),
     bs_cardTflops = ce_cardTflops E, bs_isGpu = pl_isGpu (ce_pools E), bs_shielded = pl_shielded (ce_pools E)\<rparr>"

datatype decline =
    AlreadyServing string | Unreachable | Deactivated | LeasedElsewhere | OutOfTime | OptionsRefused opt_error
  | BackingOff | EvacuatedFromHere | NotDeployable gate_error | GpuCannotServe | ManagerUnreachable | GpuNotReady string
  | ShieldedNoEndpoint | ShieldedNotReady | NoGpuCapacity | DeviceLacksVram | CpuFirstGrace | NoCpuCapacity | BelowMinimum
  | CannotAsk health_read | NotCapable health_read | PortsRefused fw_error | FeeRefused fee_refusal | PriceRefused price_refusal
  | VolumesUnknown | VolumesMissing "string list" | HasSecrets | SecretsUnknown

section \<open>Model volumes\<close>

definition volume_name :: "json \<Rightarrow> string" where
  "volume_name v =
     (case v of
        JStr s \<Rightarrow> s
      | JNum n \<Rightarrow> show_int \<lfloor>n\<rfloor>
      | JBool b \<Rightarrow> if b then ''true'' else ''false''
      | JNull \<Rightarrow> ''null''
      | JObj _ \<Rightarrow> ''[object Object]''
      | JArr _ \<Rightarrow> [])"

definition volumes_in_config :: "json option \<Rightarrow> string list" where
  "volumes_in_config c = (case Option.bind c (json_get ''volumes'') of Some (JArr vs) \<Rightarrow> map volume_name vs | _ \<Rightarrow> [])"

definition needed_volumes :: "dep_row \<Rightarrow> app_version \<Rightarrow> string list" where
  "needed_volumes d g =
     (case parse_dep_options (dr_configCid d) (Some (dr_gpuMilli d)) of
        Inl _ \<Rightarrow> volumes_in_config (config_doc (av_config g))
      | Inr o' \<Rightarrow>
          (case do_config o' of
             Some c \<Rightarrow> volumes_in_config (Some c)
           | None \<Rightarrow> if do_configCid o' \<noteq> None then [] else volumes_in_config (config_doc (av_config g))))"

primrec row_size :: "volume_row \<Rightarrow> (string \<times> rat) option" where
  "row_size (SizedVolume n b) = (if n = [] then None else Some (n, b))"
| "row_size (BareVolume n) = None"

primrec row_name :: "volume_row \<Rightarrow> string" where
  "row_name (SizedVolume n b) = n"
| "row_name (BareVolume n) = n"

definition volume_gb :: "string list \<Rightarrow> health option \<Rightarrow> rat" where
  "volume_gb need h =
     (let rows = (case h of Some x \<Rightarrow> rev (List.map_filter row_size (he_volumes x)) | None \<Rightarrow> [])
      in sum_list (map (\<lambda>n. case map_of rows n of Some b \<Rightarrow> b | None \<Rightarrow> 0) need) / 1000000000)"

definition volume_gate :: "string list \<Rightarrow> health option \<Rightarrow> decline option" where
  "volume_gate need h =
     (if need = [] then None
      else case h of
        None \<Rightarrow> Some VolumesUnknown
      | Some x \<Rightarrow>
          (let missing = filter (\<lambda>n. n \<notin> set (map row_name (he_volumes x))) need
           in if missing = [] then None else Some (VolumesMissing missing)))"

section \<open>The gauntlet\<close>

datatype claim_slice = CpuSlice rat | GpuSlice rat rat rat

definition refuse :: "decline option \<Rightarrow> decline + unit" where
  "refuse r = (case r of Some x \<Rightarrow> Inl x | None \<Rightarrow> Inr ())"

lemma refuse_Inr [simp]: "refuse r = Inr u \<longleftrightarrow> r = None"
  by (cases r) (simp_all add: refuse_def)

definition row_lease_live :: "claim_env \<Rightarrow> dep_row \<Rightarrow> bool" where
  "row_lease_live E d \<longleftrightarrow> ce_now E < dr_leaseUntil d * 1000"

definition row_resumes :: "claim_env \<Rightarrow> dep_row \<Rightarrow> bool" where
  "row_resumes E d \<longleftrightarrow> row_lease_live E d \<and> dr_runner d = ce_enclaveId E"

definition row_waived :: "claim_env \<Rightarrow> dep_row \<Rightarrow> bool" where
  "row_waived E d = host_charge_waived (ce_seller E) (ce_ledger E (dr_id d)) (dr_owner d)"

definition row_options :: "dep_row \<Rightarrow> opt_error + dep_options" where
  "row_options d = parse_dep_options (dr_configCid d) (Some (dr_gpuMilli d))"

definition serving_status :: "claim_env \<Rightarrow> string \<Rightarrow> string option" where
  "serving_status E i = (case map_of (ce_records E) i of Some st \<Rightarrow> if ended st then None else Some st | None \<Rightarrow> None)"

text \<open>What is checked before the cooldown.\<close>

definition early_checks :: "claim_env \<Rightarrow> dep_row \<Rightarrow> decline + unit" where
  "early_checks E d =
     and_then (refuse (map_option AlreadyServing (serving_status E (dr_id d)))) (\<lambda>_.
     and_then (reject_if (ce_tripped E) Unreachable) (\<lambda>_.
     and_then (reject_if (\<not> dr_active d) Deactivated) (\<lambda>_.
     and_then (reject_if (row_lease_live E d \<and> \<not> row_resumes E d) LeasedElsewhere) (\<lambda>_.
     and_then (reject_if (\<not> row_resumes E d \<and> dr_balance6 d < dr_rate d \<and> \<not> row_waived E d) OutOfTime) (\<lambda>_.
       case row_options d of Inl e \<Rightarrow> Inl (OptionsRefused e) | Inr _ \<Rightarrow> Inr ())))))"

text \<open>
  The cooldown: a held id is declined unless the hint is forced; a prefetch hold may clear itself when
  the gateway serves the bytes again, which keeps the failure count.
\<close>

definition backoff_stage :: "claim_env \<Rightarrow> dep_row \<Rightarrow> bool \<Rightarrow> bool \<times> backoffs" where
  "backoff_stage E d forced =
     (case map_of (ce_backoffs E) (dr_id d) of
        None \<Rightarrow> (False, ce_backoffs E)
      | Some pf \<Rightarrow>
          if \<not> provision_backoff_holds (Some pf) (ce_now E) (dr_appRef d) then (False, ce_backoffs E)
          else if \<not> forced \<and> prefetch_probe_due pf (ce_now E) then
            (if ce_gatewayServes E (the (bk_cid pf))
             then (False, AList.update (dr_id d)
                     (pf\<lparr>bk_probedAt := ce_now E, bk_until := 0, bk_probeClears := bk_probeClears pf + 1\<rparr>) (ce_backoffs E))
             else (True, AList.update (dr_id d) (pf\<lparr>bk_probedAt := ce_now E\<rparr>) (ce_backoffs E)))
          else (\<not> forced, ce_backoffs E))"

definition evacuated :: "claim_env \<Rightarrow> string \<Rightarrow> bool" where
  "evacuated E i = (case map_of (ce_evacuated E) i of Some t \<Rightarrow> t \<noteq> 0 \<and> ce_now E < t | None \<Rightarrow> False)"

definition share_milli :: "int \<Rightarrow> rat" where
  "share_milli n = of_int n / 1000"

definition row_mins :: "claim_env \<Rightarrow> dep_row \<Rightarrow> app_version \<Rightarrow> min_shares" where
  "row_mins E d g =
     (let need = needed_volumes d g
      in min_shares_of (box_of E) (av_min g) (if need = [] then 0 else volume_gb need (ce_health E AtSizing)))"

definition owner_optional :: "dep_row \<Rightarrow> bool" where
  "owner_optional d = (case row_options d of Inr o' \<Rightarrow> do_gpuOptional o' = Some True | Inl _ \<Rightarrow> False)"

text \<open>Whether the row is served on a card: \<open>None\<close> when neither a card nor the cores may serve it.\<close>

definition row_on_card :: "claim_env \<Rightarrow> dep_row \<Rightarrow> app_version \<Rightarrow> bool option" where
  "row_on_card E d g =
     (if 0 < dr_gpuMilli d then
        (case gpu_routing (box_of E) (row_mins E d g) (declares_gpu (av_min g)) (owner_optional d) of
           OnCard \<Rightarrow> Some True | OnCores \<Rightarrow> Some False | CannotServe \<Rightarrow> None)
      else Some False)"

definition max_free_vram :: "pools \<Rightarrow> rat" where
  "max_free_vram P =
     (if pl_pool P \<noteq> None then max_free_gpu_share P * pl_cardVram P
      else Max (insert 0 (set (map (\<lambda>c. card_free_vram c - ctx_overhead P) (pl_cards P)))))"

definition card_slice :: "claim_env \<Rightarrow> dep_row \<Rightarrow> decline + claim_slice" where
  "card_slice E d =
     (case ce_health E AtSizing of
        None \<Rightarrow> Inl ManagerUnreachable
      | Some h \<Rightarrow>
          and_then (refuse (case (ce_shielded E, he_nnProbe h) of
              (None, Some st) \<Rightarrow> if st \<noteq> [] \<and> st \<noteq> ''ok'' then Some (GpuNotReady st) else None | _ \<Rightarrow> None)) (\<lambda>_.
          and_then (reject_if (ce_shielded E = Some []) ShieldedNoEndpoint) (\<lambda>_.
          and_then (reject_if (pl_pool (ce_pools E) \<noteq> None \<and> \<not> he_shieldedPool h) ShieldedNotReady) (\<lambda>_.
            case normalize_gpu_req (ce_pools E) (share_milli (dr_gpuMilli d)) (share_milli (dr_cpuMilli d)) of
              (v, g, c) \<Rightarrow>
                and_then (reject_if (max_free_vram (ce_pools E) + eps < v \<or> max_free_cpu (ce_pools E) + eps < c) NoGpuCapacity) (\<lambda>_.
                and_then (reject_if (\<exists>f \<in> set_option (he_devFreeGb h). f + eps < v + CTX_OVERHEAD_GB) DeviceLacksVram) (\<lambda>_.
                  Inr (GpuSlice v g c)))))))"

definition core_slice :: "claim_env \<Rightarrow> dep_row \<Rightarrow> bool \<Rightarrow> decline + claim_slice" where
  "core_slice E d hinted =
     and_then (reject_if (pl_isGpu (ce_pools E) \<and> \<not> hinted \<and> \<not> row_resumes E d
         \<and> ce_now E < (max (dr_createdAt d) (dr_leaseUntil d) + ce_graceSec E) * 1000) CpuFirstGrace) (\<lambda>_.
     and_then (reject_if (max_free_cpu (ce_pools E) + eps < normalize_cpu_req (share_milli (dr_cpuMilli d))) NoCpuCapacity) (\<lambda>_.
       Inr (CpuSlice (normalize_cpu_req (share_milli (dr_cpuMilli d))))))"

definition below_minimum :: "min_shares \<Rightarrow> bool \<Rightarrow> rat \<Rightarrow> rat \<Rightarrow> bool" where
  "below_minimum mins onCard gpuShare cpuShare \<longleftrightarrow>
     gpuShare < (if onCard then sh_gpuFloor mins else 0) - eps \<or> cpuShare < sh_cpu mins - eps"

definition capability :: "claim_env \<Rightarrow> bool \<Rightarrow> health_read \<Rightarrow> (health \<Rightarrow> bool) \<Rightarrow> decline + unit" where
  "capability E asked r can =
     (if \<not> asked then Inr ()
      else case ce_health E r of None \<Rightarrow> Inl (CannotAsk r) | Some h \<Rightarrow> if can h then Inr () else Inl (NotCapable r))"

lemma capability_Inr [simp]:
  "capability E asked r can = Inr u \<longleftrightarrow> (asked \<longrightarrow> (\<exists>h. ce_health E r = Some h \<and> can h))"
  by (auto simp: capability_def split: option.splits)

definition capability_checks :: "claim_env \<Rightarrow> app_version \<Rightarrow> decline + unit" where
  "capability_checks E g =
     and_then (capability E (wasi_of_config (av_config g) = ''0.3'') AtWasi he_p3) (\<lambda>_.
     and_then (capability E (av_configCid g \<noteq> []) AtConfigCid he_configCid) (\<lambda>_.
     and_then (capability E (threads_of_config (av_config g)) AtThreads he_coopThreads) (\<lambda>_.
     and_then (capability E (set_of_config (av_config g)) AtSet he_set) (\<lambda>_.
       capability E (mem64_of_config (av_config g)) AtMem64 he_mem64))))"

definition secrets_check :: "claim_env \<Rightarrow> string \<Rightarrow> decline option" where
  "secrets_check E i =
     (if ce_secretsCapable E then None
      else case ce_hasSecrets E i of Some False \<Rightarrow> None | Some True \<Rightarrow> Some HasSecrets | None \<Rightarrow> Some SecretsUnknown)"

definition price_check :: "claim_env \<Rightarrow> dep_row \<Rightarrow> app_version \<Rightarrow> decline option" where
  "price_check E d g =
     (if row_resumes E d then None
      else map_option PriceRefused (rate_cap_refusal (ce_seller E) (ce_ledger E (dr_id d)) (dr_owner d) (dr_rate d)
             (dr_balance6 d) (dr_gpuMilli d) (dr_cpuMilli d) (av_fee6 g)))"

record attempt =
  at_slice :: claim_slice
  at_firewall :: "fw_entry list"
  at_version :: app_version
  at_resume :: bool

text \<open>The checks that do not depend on the slice: ports, publisher fee, price, volumes, secrets.\<close>

definition final_checks :: "claim_env \<Rightarrow> dep_row \<Rightarrow> app_version \<Rightarrow> claim_slice \<Rightarrow> decline + attempt" where
  "final_checks E d g slice =
     (case version_firewall (av_ports g) of
        Inl e \<Rightarrow> Inl (PortsRefused e)
      | Inr fw \<Rightarrow>
          and_then (refuse (map_option FeeRefused (fee_gate (ce_ledger E (dr_id d)) g))) (\<lambda>_.
          and_then (refuse (price_check E d g)) (\<lambda>_.
          and_then (refuse (volume_gate (needed_volumes d g) (ce_health E AtSizing))) (\<lambda>_.
          and_then (refuse (secrets_check E (dr_id d))) (\<lambda>_.
            Inr \<lparr>at_slice = slice, at_firewall = fw, at_version = g, at_resume = row_resumes E d\<rparr>)))))"

definition sized_checks :: "claim_env \<Rightarrow> dep_row \<Rightarrow> bool \<Rightarrow> app_version \<Rightarrow> bool \<Rightarrow> decline + attempt" where
  "sized_checks E d hinted g onCard =
     and_then (if onCard then card_slice E d else core_slice E d hinted) (\<lambda>slice.
     and_then (reject_if (below_minimum (row_mins E d g) onCard (share_milli (dr_gpuMilli d)) (share_milli (dr_cpuMilli d))) BelowMinimum) (\<lambda>_.
     and_then (capability_checks E g) (\<lambda>_.
       final_checks E d g slice)))"

definition late_checks :: "claim_env \<Rightarrow> dep_row \<Rightarrow> bool \<Rightarrow> decline + attempt" where
  "late_checks E d hinted =
     and_then (reject_if (evacuated E (dr_id d)) EvacuatedFromHere) (\<lambda>_.
     case gate_app_reference (ce_catalog E) (dr_appRef d) (\<not> dr_isPublic d) of
       Inl e \<Rightarrow> Inl (NotDeployable e)
     | Inr g \<Rightarrow>
         (case row_on_card E d g of
            None \<Rightarrow> Inl GpuCannotServe
          | Some onCard \<Rightarrow> sized_checks E d hinted g onCard))"

definition consider_claim :: "claim_env \<Rightarrow> dep_row \<Rightarrow> bool \<Rightarrow> bool \<Rightarrow> (decline + attempt) \<times> backoffs" where
  "consider_claim E d hinted forced =
     (case early_checks E d of
        Inl r \<Rightarrow> (Inl r, ce_backoffs E)
      | Inr _ \<Rightarrow>
          (case backoff_stage E d forced of
             (True, bk) \<Rightarrow> (Inl BackingOff, bk)
           | (False, bk) \<Rightarrow> (late_checks E d hinted, bk)))"


section \<open>What an attempt rests on\<close>

lemma early_checks_Inr:
  assumes "early_checks E d = Inr u"
  shows "serving_status E (dr_id d) = None" "\<not> ce_tripped E" "dr_active d"
    "row_lease_live E d \<Longrightarrow> row_resumes E d"
    "row_resumes E d \<or> dr_rate d \<le> dr_balance6 d \<or> row_waived E d"
    "\<exists>o'. row_options d = Inr o'"
proof -
  from assms have "serving_status E (dr_id d) = None \<and> \<not> ce_tripped E \<and> dr_active d \<and> (row_lease_live E d \<longrightarrow> row_resumes E d)
    \<and> (row_resumes E d \<or> dr_rate d \<le> dr_balance6 d \<or> row_waived E d) \<and> (\<exists>o'. row_options d = Inr o')"
    unfolding early_checks_def by (cases "row_options d") auto
  then show "serving_status E (dr_id d) = None" "\<not> ce_tripped E" "dr_active d"
    "row_lease_live E d \<Longrightarrow> row_resumes E d"
    "row_resumes E d \<or> dr_rate d \<le> dr_balance6 d \<or> row_waived E d" "\<exists>o'. row_options d = Inr o'"
    by auto
qed

lemma late_checks_cases:
  assumes "late_checks E d hinted = Inr a"
  obtains g onCard where
    "\<not> evacuated E (dr_id d)" "gate_app_reference (ce_catalog E) (dr_appRef d) (\<not> dr_isPublic d) = Inr g"
    "row_on_card E d g = Some onCard" "(if onCard then card_slice E d else core_slice E d hinted) = Inr (at_slice a)"
    "\<not> below_minimum (row_mins E d g) onCard (share_milli (dr_gpuMilli d)) (share_milli (dr_cpuMilli d))"
    "capability_checks E g = Inr ()" "version_firewall (av_ports g) = Inr (at_firewall a)"
    "fee_gate (ce_ledger E (dr_id d)) g = None" "price_check E d g = None"
    "volume_gate (needed_volumes d g) (ce_health E AtSizing) = None" "secrets_check E (dr_id d) = None"
    "at_version a = g" "at_resume a = row_resumes E d"
proof -
  from assms have ev: "\<not> evacuated E (dr_id d)" unfolding late_checks_def by simp
  with assms obtain g where g: "gate_app_reference (ce_catalog E) (dr_appRef d) (\<not> dr_isPublic d) = Inr g"
    unfolding late_checks_def by (cases "gate_app_reference (ce_catalog E) (dr_appRef d) (\<not> dr_isPublic d)") auto
  with assms ev obtain onCard where oc: "row_on_card E d g = Some onCard"
    unfolding late_checks_def by (cases "row_on_card E d g") auto
  from assms ev g oc have "sized_checks E d hinted g onCard = Inr a"
    by (simp add: late_checks_def reject_if_def)
  then obtain slice where slice: "(if onCard then card_slice E d else core_slice E d hinted) = Inr slice"
    and min: "\<not> below_minimum (row_mins E d g) onCard (share_milli (dr_gpuMilli d)) (share_milli (dr_cpuMilli d))"
    and can: "capability_checks E g = Inr ()" and rest: "final_checks E d g slice = Inr a"
    unfolding sized_checks_def by (simp only: and_then_Inr reject_if_Inr) auto
  from rest obtain fw where fw: "version_firewall (av_ports g) = Inr fw"
    by (cases "version_firewall (av_ports g)") (simp_all add: final_checks_def)
  with rest have r: "fee_gate (ce_ledger E (dr_id d)) g = None" "price_check E d g = None"
    "volume_gate (needed_volumes d g) (ce_health E AtSizing) = None" "secrets_check E (dr_id d) = None"
    "a = \<lparr>at_slice = slice, at_firewall = fw, at_version = g, at_resume = row_resumes E d\<rparr>"
    by (simp_all add: final_checks_def)
  show thesis
    by (rule that [OF ev g oc _ min can _ r(1-4)]) (simp_all only: r(5) attempt.select_convs slice fw)
qed

lemma consider_claim_attempt:
  assumes "consider_claim E d hinted forced = (Inr a, bk)"
  shows "early_checks E d = Inr ()" "backoff_stage E d forced = (False, bk)" "late_checks E d hinted = Inr a"
proof -
  from assms obtain u where u: "early_checks E d = Inr u" unfolding consider_claim_def by (cases "early_checks E d") auto
  with assms have "backoff_stage E d forced = (False, bk) \<and> late_checks E d hinted = Inr a"
    unfolding consider_claim_def by (cases "backoff_stage E d forced") (auto split: if_splits bool.splits)
  with u show "early_checks E d = Inr ()" "backoff_stage E d forced = (False, bk)" "late_checks E d hinted = Inr a"
    by simp_all
qed

lemma pct_ceil_ge: "x \<le> of_int (pct_ceil x) / 100 + eps"
proof -
  have "x * 100 - eps \<le> of_int \<lceil>x * 100 - eps\<rceil>" by (rule le_of_int_ceiling)
  also have "\<dots> \<le> of_int (pct_ceil x)" by (simp add: pct_ceil_def)
  finally show ?thesis by (simp add: eps_def field_simps)
qed

text \<open>A share at the floor covers what the app declared, up to the tolerances.\<close>

lemma cpu_floor_covers:
  assumes "sh_cpu (min_shares_of B m volGb) - eps \<le> share" "0 < bs_ramGb B" "0 < bs_gflops B" "0 \<le> share"
  shows "ms_memMb m \<le> (share + 2 * eps) * (bs_ramGb B * 1024)" "ms_cpuGflops m \<le> (share + 2 * eps) * bs_gflops B"
proof -
  have e: "0 \<le> eps" by (simp add: eps_def)
  have "ms_memMb m \<le> (share + 2 * eps) * (bs_ramGb B * 1024) \<and> ms_cpuGflops m \<le> (share + 2 * eps) * bs_gflops B"
  proof (cases "ms_memMb m \<noteq> 0 \<or> ms_cpuGflops m \<noteq> 0")
    case True
    let ?x = "max (ms_memMb m / (bs_ramGb B * 1024)) (ms_cpuGflops m / bs_gflops B)"
    have "of_int (pct_ceil ?x) / 100 - eps \<le> share"
      using assms(1) True by (simp add: min_shares_of_def Let_def cpu_share_of_def)
    with pct_ceil_ge [of ?x] have "?x \<le> share + 2 * eps" by linarith
    then have "ms_memMb m / (bs_ramGb B * 1024) \<le> share + 2 * eps" "ms_cpuGflops m / bs_gflops B \<le> share + 2 * eps" by simp_all
    with assms(2,3) show ?thesis by (simp add: pos_divide_le_eq)
  next
    case False
    with assms e show ?thesis by simp
  qed
  then show "ms_memMb m \<le> (share + 2 * eps) * (bs_ramGb B * 1024)" "ms_cpuGflops m \<le> (share + 2 * eps) * bs_gflops B" by auto
qed

lemma gpu_floor_covers:
  assumes "sh_gpuFloor (min_shares_of B m volGb) - eps \<le> share" "\<not> ms_gpuOptional m" "0 < ms_vramMb m"
    "0 < bs_cardGb B" "0 < bs_cardTflops B"
  shows "max (ms_vramMb m / 1024) volGb \<le> (share + 2 * eps) * bs_cardGb B"
    "ms_gpuGflops m / 1000 \<le> (share + 2 * eps) * bs_cardTflops B"
proof -
  let ?v = "max (ms_vramMb m / 1024) (max 0 volGb)"
  let ?x = "max (?v / bs_cardGb B) (ms_gpuGflops m / 1000 / bs_cardTflops B)"
  have v: "0 < ?v" using assms(3) by (simp add: less_max_iff_disj)
  then have "sh_gpuFloor (min_shares_of B m volGb) = of_int (pct_ceil ?x) / 100"
    using assms(2,3) by (simp add: min_shares_of_def Let_def gpu_share_of_def)
  with assms(1) pct_ceil_ge [of ?x] have "?x \<le> share + 2 * eps" by linarith
  then have "?v / bs_cardGb B \<le> share + 2 * eps" "ms_gpuGflops m / 1000 / bs_cardTflops B \<le> share + 2 * eps" by simp_all
  then have "?v \<le> (share + 2 * eps) * bs_cardGb B" "ms_gpuGflops m / 1000 \<le> (share + 2 * eps) * bs_cardTflops B"
    using assms(4,5) by (simp_all only: pos_divide_le_eq)
  then show "max (ms_vramMb m / 1024) volGb \<le> (share + 2 * eps) * bs_cardGb B"
    "ms_gpuGflops m / 1000 \<le> (share + 2 * eps) * bs_cardTflops B" by auto
qed

lemma gate_accepts:
  assumes "gate_app_reference C ref forPrivate = Inr g"
  obtains appId index a v where "catalog_ref (js_trim ref) = Some (appId, index)" "ct_app C appId = Got a"
    "ct_version C appId index = Got v" "ca_active a" "\<not> cv_yanked v" "cv_approval v = 1 \<or> forPrivate \<and> cv_approval v \<noteq> 2"
    "av_config g = cv_config v" "av_min g = min_of_version v" "av_wasmRef g = ''ipfs://'' @ cv_cid v"
proof -
  from assms obtain appId index where r: "catalog_ref (js_trim ref) = Some (appId, index)"
    unfolding gate_app_reference_def by (cases "catalog_ref (js_trim ref)") auto
  from assms r obtain a where a: "ct_app C appId = Got a"
    unfolding gate_app_reference_def by (cases "ct_app C appId") (auto split: if_splits)
  from assms r a obtain v where v: "ct_version C appId index = Got v"
    unfolding gate_app_reference_def by (cases "ct_version C appId index") (auto split: if_splits)
  from assms r a v have ok: "approval_verdict (ca_active a) (cv_yanked v) (cv_approval v) forPrivate = None"
    unfolding gate_app_reference_def
    by (cases "approval_verdict (ca_active a) (cv_yanked v) (cv_approval v) forPrivate") (auto split: if_splits)
  from assms r a v ok have "av_config g = cv_config v \<and> av_min g = min_of_version v \<and> av_wasmRef g = ''ipfs://'' @ cv_cid v"
    unfolding gate_app_reference_def by (cases "ct_rev C") (auto split: if_splits)
  moreover from ok have "ca_active a" "\<not> cv_yanked v" "cv_approval v = 1 \<or> forPrivate \<and> cv_approval v \<noteq> 2"
    by (auto simp: approval_verdict_def split: if_splits)
  ultimately show thesis using r a v that by blast
qed


section \<open>The contract of an attempt\<close>

text \<open>
  What a tenant, a publisher, a buyer and the fleet may rely on when a claim is attempted: the lease
  is free or ours and nothing is served twice, the version is approved, the slice is within the free
  pools and the shares bought cover what the app declares, the runtime has every capability and volume
  it needs, the publisher's fee is snapshotted, and the charge is within the owner's cap and balance.
\<close>

definition free_to_take :: "claim_env \<Rightarrow> dep_row \<Rightarrow> bool" where
  "free_to_take E d \<longleftrightarrow> serving_status E (dr_id d) = None \<and> \<not> ce_tripped E \<and> dr_active d
     \<and> (dr_leaseUntil d * 1000 \<le> ce_now E \<or> dr_runner d = ce_enclaveId E)
     \<and> (\<exists>o'. row_options d = Inr o' \<and> options_ok (Some (dr_gpuMilli d)) o')"

definition approved_version :: "claim_env \<Rightarrow> dep_row \<Rightarrow> app_version \<Rightarrow> bool" where
  "approved_version E d g \<longleftrightarrow>
     (\<exists>appId index a v. catalog_ref (js_trim (dr_appRef d)) = Some (appId, index) \<and> ct_app (ce_catalog E) appId = Got a
        \<and> ct_version (ce_catalog E) appId index = Got v \<and> ca_active a \<and> \<not> cv_yanked v
        \<and> (cv_approval v = 1 \<or> \<not> dr_isPublic d \<and> cv_approval v \<noteq> 2)
        \<and> av_wasmRef g = ''ipfs://'' @ cv_cid v \<and> av_config g = cv_config v \<and> av_min g = min_of_version v)"

definition covers_cpu :: "claim_env \<Rightarrow> dep_row \<Rightarrow> app_version \<Rightarrow> bool" where
  "covers_cpu E d g \<longleftrightarrow>
     ms_memMb (av_min g) \<le> (share_milli (dr_cpuMilli d) + 2 * eps) * (ce_ramGb E * 1024)
     \<and> ms_cpuGflops (av_min g) \<le> (share_milli (dr_cpuMilli d) + 2 * eps) * ce_gflops E"

definition covers_card :: "claim_env \<Rightarrow> dep_row \<Rightarrow> app_version \<Rightarrow> bool" where
  "covers_card E d g \<longleftrightarrow>
     ms_gpuOptional (av_min g) \<or> ms_vramMb (av_min g) \<le> 0
     \<or> (ms_vramMb (av_min g) / 1024 \<le> (share_milli (dr_gpuMilli d) + 2 * eps) * pl_cardVram (ce_pools E)
        \<and> volume_gb (needed_volumes d g) (ce_health E AtSizing) \<le> (share_milli (dr_gpuMilli d) + 2 * eps) * pl_cardVram (ce_pools E)
        \<and> ms_gpuGflops (av_min g) / 1000 \<le> (share_milli (dr_gpuMilli d) + 2 * eps) * ce_cardTflops E)"

fun slice_justified :: "claim_env \<Rightarrow> dep_row \<Rightarrow> app_version \<Rightarrow> claim_slice \<Rightarrow> bool" where
  "slice_justified E d g (CpuSlice c) \<longleftrightarrow>
     c \<le> max_free_cpu (ce_pools E) + eps
     \<and> (dr_gpuMilli d \<le> 0 \<or> ms_gpuOptional (av_min g) \<or> owner_optional d \<and> \<not> declares_gpu (av_min g))"
| "slice_justified E d g (GpuSlice v s c) \<longleftrightarrow>
     0 < dr_gpuMilli d \<and> pl_isGpu (ce_pools E) \<and> c \<le> max_free_cpu (ce_pools E) + eps \<and> v \<le> max_free_vram (ce_pools E) + eps
     \<and> (\<exists>h. ce_health E AtSizing = Some h \<and> (\<forall>f. he_devFreeGb h = Some f \<longrightarrow> v + CTX_OVERHEAD_GB \<le> f + eps))
     \<and> covers_card E d g"

definition capable :: "claim_env \<Rightarrow> app_version \<Rightarrow> bool" where
  "capable E g \<longleftrightarrow>
     (wasi_of_config (av_config g) = ''0.3'' \<longrightarrow> (\<exists>h. ce_health E AtWasi = Some h \<and> he_p3 h))
     \<and> (av_configCid g \<noteq> [] \<longrightarrow> (\<exists>h. ce_health E AtConfigCid = Some h \<and> he_configCid h))
     \<and> (threads_of_config (av_config g) \<longrightarrow> (\<exists>h. ce_health E AtThreads = Some h \<and> he_coopThreads h))
     \<and> (set_of_config (av_config g) \<longrightarrow> (\<exists>h. ce_health E AtSet = Some h \<and> he_set h))
     \<and> (mem64_of_config (av_config g) \<longrightarrow> (\<exists>h. ce_health E AtMem64 = Some h \<and> he_mem64 h))"

definition volumes_here :: "claim_env \<Rightarrow> dep_row \<Rightarrow> app_version \<Rightarrow> bool" where
  "volumes_here E d g \<longleftrightarrow> needed_volumes d g = []
     \<or> (\<exists>h. ce_health E AtSizing = Some h \<and> set (needed_volumes d g) \<subseteq> row_name ` set (he_volumes h))"

definition fee_covered :: "ledger_view \<Rightarrow> app_version \<Rightarrow> bool" where
  "fee_covered L g \<longleftrightarrow> av_fee6 g \<le> 0
     \<or> (\<exists>r f. lv_feeOf L = Got (r, f) \<and> av_fee6 g \<le> f \<and> to_lower r = to_lower (av_publisher g))"

definition charge6 :: "claim_env \<Rightarrow> dep_row \<Rightarrow> app_version \<Rightarrow> int" where
  "charge6 E d g = (if row_waived E d then 0 else host_rate6 (ce_seller E) (dr_gpuMilli d) (dr_cpuMilli d)) + av_fee6 g"

definition affordable :: "claim_env \<Rightarrow> dep_row \<Rightarrow> app_version \<Rightarrow> bool" where
  "affordable E d g \<longleftrightarrow> row_resumes E d \<or> lv_rev (ce_ledger E (dr_id d)) < 8
     \<or> (charge6 E d g \<le> dr_balance6 d
        \<and> (\<exists>cap. lv_capOf (ce_ledger E (dr_id d)) = Got cap \<and> (cap \<le> 0 \<or> charge6 E d g \<le> cap)))"

definition justified :: "claim_env \<Rightarrow> dep_row \<Rightarrow> attempt \<Rightarrow> bool" where
  "justified E d a \<longleftrightarrow>
     free_to_take E d \<and> at_resume a = row_resumes E d \<and> \<not> evacuated E (dr_id d)
     \<and> approved_version E d (at_version a) \<and> slice_justified E d (at_version a) (at_slice a) \<and> covers_cpu E d (at_version a)
     \<and> capable E (at_version a) \<and> fee_covered (ce_ledger E (dr_id d)) (at_version a) \<and> affordable E d (at_version a)
     \<and> volumes_here E d (at_version a) \<and> (ce_secretsCapable E \<or> ce_hasSecrets E (dr_id d) = Some False)"

lemma max_free_bound: "\<not> max_free_vram P + eps < v \<Longrightarrow> v \<le> max_free_vram P + eps"
  by simp

lemma card_slice_Inr:
  assumes "card_slice E d = Inr slice"
  obtains h v g c where "ce_health E AtSizing = Some h" "slice = GpuSlice v g c"
    "normalize_gpu_req (ce_pools E) (share_milli (dr_gpuMilli d)) (share_milli (dr_cpuMilli d)) = (v, g, c)"
    "v \<le> max_free_vram (ce_pools E) + eps" "c \<le> max_free_cpu (ce_pools E) + eps"
    "\<And>f. he_devFreeGb h = Some f \<Longrightarrow> v + CTX_OVERHEAD_GB \<le> f + eps"
proof -
  from assms obtain h where h: "ce_health E AtSizing = Some h"
    unfolding card_slice_def by (cases "ce_health E AtSizing") simp_all
  obtain v g c where n: "normalize_gpu_req (ce_pools E) (share_milli (dr_gpuMilli d)) (share_milli (dr_cpuMilli d)) = (v, g, c)"
    by (cases "normalize_gpu_req (ce_pools E) (share_milli (dr_gpuMilli d)) (share_milli (dr_cpuMilli d))")
  from assms h have "\<not> (max_free_vram (ce_pools E) + eps < v \<or> max_free_cpu (ce_pools E) + eps < c)
      \<and> \<not> (\<exists>f \<in> set_option (he_devFreeGb h). f + eps < v + CTX_OVERHEAD_GB) \<and> slice = GpuSlice v g c"
    unfolding card_slice_def by (simp only: option.case prod.case n and_then_Inr reject_if_Inr) auto
  with h n that show thesis by (metis linorder_not_less option.set_intros)
qed

lemma core_slice_Inr:
  assumes "core_slice E d hinted = Inr slice"
  shows "slice = CpuSlice (normalize_cpu_req (share_milli (dr_cpuMilli d)))"
    "normalize_cpu_req (share_milli (dr_cpuMilli d)) \<le> max_free_cpu (ce_pools E) + eps"
  using assms unfolding core_slice_def by auto

lemma row_on_card_cases:
  assumes "row_on_card E d g = Some b"
  shows "b \<Longrightarrow> 0 < dr_gpuMilli d \<and> pl_isGpu (ce_pools E)"
    "\<not> b \<Longrightarrow> dr_gpuMilli d \<le> 0 \<or> ms_gpuOptional (av_min g) \<or> owner_optional d \<and> \<not> declares_gpu (av_min g)"
  using assms
  by (auto simp: row_on_card_def gpu_routing_def box_of_def row_mins_def min_shares_of_def Let_def split: if_splits)

lemma price_check_None:
  assumes "price_check E d g = None"
  shows "affordable E d g"
proof (cases "row_resumes E d \<or> lv_rev (ce_ledger E (dr_id d)) < 8")
  case False
  let ?L = "ce_ledger E (dr_id d)"
  from assms False have r: "rate_cap_refusal (ce_seller E) ?L (dr_owner d) (dr_rate d) (dr_balance6 d) (dr_gpuMilli d) (dr_cpuMilli d) (av_fee6 g) = None"
    by (simp add: price_check_def)
  with False obtain cap where cap: "lv_capOf ?L = Got cap"
    by (cases "lv_capOf ?L") (simp_all add: rate_cap_refusal_def)
  have "charge6 E d g = (if host_charge_waived (ce_seller E) ?L (dr_owner d) then 0
      else host_rate6 (ce_seller E) (dr_gpuMilli d) (dr_cpuMilli d)) + av_fee6 g"
    by (simp add: charge6_def row_waived_def)
  with r False cap have "\<not> (0 < cap \<and> cap < charge6 E d g)" "\<not> dr_balance6 d < charge6 E d g"
    by (simp_all only: rate_cap_refusal_def cap_verdict_def Let_def chain_read.case if_False not_less split: if_splits) simp_all
  with cap False show ?thesis by (auto simp: affordable_def)
qed (auto simp: affordable_def)

lemma fee_gate_None: "fee_gate L g = None \<Longrightarrow> fee_covered L g"
  by (cases "lv_feeOf L") (auto simp: fee_gate_def fee_covered_def split: if_splits prod.splits)

lemma volume_gate_None: "volume_gate (needed_volumes d g) (ce_health E AtSizing) = None \<Longrightarrow> volumes_here E d g"
  by (auto simp: volume_gate_def volumes_here_def Let_def filter_empty_conv split: if_splits option.splits)

text \<open>
  C2: A claim is attempted only when it is justified: no lease is taken that another enclave holds or
  that is already served here, the version is deployable, the slice fits and covers the declared
  needs on the hardware that will serve it, every capability, volume and secret precondition was
  affirmed, the publisher is paid, and the owner's cap and balance cover the charge.
\<close>

theorem claim_attempt_is_justified:
  assumes "consider_claim E d hinted forced = (Inr a, bk)"
    and "0 < ce_ramGb E" "0 < ce_gflops E" "0 < pl_cardVram (ce_pools E)" "0 < ce_cardTflops E" "0 \<le> dr_cpuMilli d"
  shows "justified E d a"
proof -
  note early = early_checks_Inr [OF consider_claim_attempt(1) [OF assms(1)]]
  from consider_claim_attempt(3) [OF assms(1)] show ?thesis
  proof (cases rule: late_checks_cases)
    case (1 g onCard)
    have free: "free_to_take E d"
    proof -
      have "dr_leaseUntil d * 1000 \<le> ce_now E \<or> dr_runner d = ce_enclaveId E"
        using early(4) by (cases "row_lease_live E d") (auto simp: row_lease_live_def row_resumes_def)
      with early parsed_options_ok show ?thesis by (auto simp: free_to_take_def row_options_def)
    qed
    have app: "approved_version E d g"
      using 1(2) by (elim gate_accepts) (auto simp: approved_version_def)
    have mins: "\<not> share_milli (dr_gpuMilli d) < (if onCard then sh_gpuFloor (row_mins E d g) else 0) - eps"
      "\<not> share_milli (dr_cpuMilli d) < sh_cpu (row_mins E d g) - eps"
      using 1(5) by (auto simp: below_minimum_def)
    have cpu: "covers_cpu E d g"
      using mins(2) assms(2,3,6) cpu_floor_covers [of "box_of E" "av_min g" _ "share_milli (dr_cpuMilli d)"]
      by (auto simp: covers_cpu_def row_mins_def Let_def box_of_def share_milli_def not_less)
    have slice: "slice_justified E d g (at_slice a)"
    proof (cases onCard)
      case True
      let ?vol = "if needed_volumes d g = [] then 0 else volume_gb (needed_volumes d g) (ce_health E AtSizing)"
      have vol: "volume_gb (needed_volumes d g) (ce_health E AtSizing) \<le> ?vol"
        by (simp add: volume_gb_def)
      have "covers_card E d g"
      proof (cases "ms_gpuOptional (av_min g) \<or> ms_vramMb (av_min g) \<le> 0")
        case False
        with gpu_floor_covers [of "box_of E" "av_min g" ?vol "share_milli (dr_gpuMilli d)"] mins(1) True assms(4,5) vol
        show ?thesis by (auto simp: covers_card_def row_mins_def Let_def box_of_def not_less split: if_splits)
      qed (auto simp: covers_card_def)
      with True 1(3,4) row_on_card_cases(1) [OF 1(3)] show ?thesis
        by (auto elim!: card_slice_Inr)
    next
      case False
      with 1(4) have "core_slice E d hinted = Inr (at_slice a)" by simp
      note c = core_slice_Inr [OF this]
      from False row_on_card_cases(2) [OF 1(3)] c(2) show ?thesis by (simp add: c(1))
    qed
    have "capable E g" using 1(6) by (auto simp: capability_checks_def capable_def)
    with free app cpu slice 1 fee_gate_None price_check_None volume_gate_None show ?thesis
      by (auto simp: justified_def secrets_check_def split: option.splits if_splits bool.splits)
  qed
qed


section \<open>Demonstration\<close>

definition demo_app_id :: string where
  "demo_app_id = ''0x'' @ replicate 64 (CHR ''0'')"

definition demo_row :: dep_row where
  "demo_row = \<lparr>dr_id = ''0xd'', dr_owner = ''0xb'', dr_active = True, dr_leaseUntil = 0, dr_runner = [], dr_runnerOperator = [], dr_balance6 = 5000,
     dr_rate = 100, dr_configCid = [], dr_gpuMilli = 500, dr_cpuMilli = 100, dr_appRef = ''catalog://'' @ demo_app_id @ ''/0'',
     dr_isPublic = True, dr_createdAt = 0\<rparr>"

definition demo_version :: catalog_version where
  "demo_version = \<lparr>cv_cid = ''Qm'', cv_name = ''1'', cv_yanked = False, cv_approval = 1, cv_ports = ''http:8000'', cv_config = [],
     cv_vramMb = 4096, cv_gpuGflops = 0, cv_memMb = 1024, cv_cpuGflops = 0\<rparr>"

definition demo_catalog :: catalog where
  "demo_catalog = \<lparr>ct_configured = True,
     ct_app = (\<lambda>_. Got \<lparr>ca_exists = True, ca_slug = ''a'', ca_publisher = ''0xc'', ca_versions = 1, ca_active = True\<rparr>),
     ct_version = (\<lambda>_ _. Got demo_version), ct_rev = Some 4, ct_fee = (\<lambda>_ _. Failed), ct_configCid = (\<lambda>_ _. Failed)\<rparr>"

definition demo_health :: health where
  "demo_health = \<lparr>he_p3 = False, he_configCid = False, he_coopThreads = False, he_set = False, he_mem64 = False,
     he_volumes = [], he_nnProbe = Some ''ok'', he_shieldedPool = False, he_devFreeGb = None\<rparr>"

definition demo_claim_env :: "pools \<Rightarrow> claim_env" where
  "demo_claim_env P = \<lparr>ce_now = 1000000, ce_enclaveId = ''0xe'', ce_tripped = False, ce_records = [], ce_backoffs = [],
     ce_evacuated = [], ce_gatewayServes = (\<lambda>_. False), ce_pools = P, ce_ramGb = 64, ce_gflops = 1000, ce_cardTflops = 100,
     ce_seller = \<lparr>se_gpuPrice6 = 1667, se_cpuPrice6 = 834, se_explicit = False, se_payout = None\<rparr>,
     ce_ledger = (\<lambda>_. \<lparr>lv_rev = 8, lv_registryRev = Some 3, lv_feeOf = Failed, lv_capOf = Got 2000\<rparr>),
     ce_catalog = demo_catalog, ce_health = (\<lambda>_. Some demo_health), ce_shielded = None, ce_graceSec = 120,
     ce_secretsCapable = True, ce_hasSecrets = (\<lambda>_. None)\<rparr>"

definition demo_attempt :: attempt where
  "demo_attempt = \<lparr>at_slice = GpuSlice 5 (1 / 2) (1 / 10), at_firewall = [(''http'', 8000)],
     at_version = \<lparr>av_ref = ''catalog://'' @ demo_app_id @ ''/0'', av_wasmRef = ''ipfs://Qm'', av_config = [], av_configCid = [],
       av_ports = ''http:8000'', av_fee6 = 0, av_pending = False, av_publisher = ''0xc'', av_min = min_of_version demo_version\<rparr>,
     at_resume = False\<rparr>"

abbreviation demo_app :: app_version where
  "demo_app \<equiv> at_version demo_attempt"

lemma demo_fw: "version_firewall ''http:8000'' = Inr [(''http'', 8000)]"
proof -
  have "split_on (CHR '','') ''http:8000'' = [''http:8000'']" "to_lower (js_trim ''http:8000'') = ''http:8000''"
    "digit_str ''8000''"
    by code_simp+
  moreover have "digits_val ''8000'' = 8000" by (simp add: digits_val_def digit_val_def)
  ultimately show ?thesis
    by (simp add: version_firewall_def parse_firewall_def fw_entry_of_def FW_MIN_def FW_MAX_def FW_RESERVED_def)
qed

lemma demo_app_id_props: "length demo_app_id = 66" "prefix ''0x'' demo_app_id" "list_all any_hex (drop 2 demo_app_id)"
  by (simp_all add: demo_app_id_def any_hex_def Js_Json.hex_val_def list_all_iff)

lemma demo_ref: "js_trim (dr_appRef demo_row) = dr_appRef demo_row" "catalog_ref (dr_appRef demo_row) = Some (demo_app_id, 0)"
proof -
  show "js_trim (dr_appRef demo_row) = dr_appRef demo_row"
    by (simp add: js_trim_def demo_row_def is_space_def)
  have "digits_val ''0'' = 0" "digit_str ''0''" by code_simp+
  then show "catalog_ref (dr_appRef demo_row) = Some (demo_app_id, 0)"
    using demo_app_id_props by (simp add: catalog_ref_def strip_prefix_def demo_row_def Let_def)
qed

lemma demo_app_gate: "gate_app_reference demo_catalog (dr_appRef demo_row) False = Inr demo_app"
  by (simp add: gate_app_reference_def demo_ref demo_catalog_def approval_verdict_def demo_version_def side_read_def demo_attempt_def)
    (simp add: demo_row_def)

lemma demo_early: "early_checks (demo_claim_env P) demo_row = Inr ()"
  by code_simp

lemma demo_backoff: "backoff_stage (demo_claim_env P) demo_row False = (False, [])"
  by code_simp

definition demo_pools :: pools where
  "demo_pools = (fresh_pools 10 1)\<lparr>pl_cpuFree := 1 / 2\<rparr>"

lemma demo_on_card: "row_on_card (demo_claim_env demo_pools) demo_row demo_app = Some True"
  by code_simp

lemma demo_slice: "card_slice (demo_claim_env demo_pools) demo_row = Inr (GpuSlice 5 (1 / 2) (1 / 10))"
  by code_simp

lemma demo_minimum: "\<not> below_minimum (row_mins (demo_claim_env demo_pools) demo_row demo_app) True (share_milli 500) (share_milli 100)"
  by code_simp

lemma demo_can: "capability_checks (demo_claim_env P) demo_app = Inr ()"
  by code_simp

lemma demo_volumes: "needed_volumes demo_row demo_app = []"
  by code_simp

lemma demo_final: "final_checks (demo_claim_env P) demo_row demo_app (GpuSlice 5 (1 / 2) (1 / 10)) = Inr demo_attempt"
proof -
  have "price_check (demo_claim_env P) demo_row demo_app = None" by code_simp
  moreover have "fee_gate L demo_app = None" for L by (simp add: fee_gate_def demo_attempt_def)
  moreover have "secrets_check (demo_claim_env P) i = None" for i by (simp add: secrets_check_def demo_claim_env_def)
  moreover have "\<not> row_resumes (demo_claim_env P) demo_row" by code_simp
  moreover have "av_ports demo_app = ''http:8000''" by (simp add: demo_attempt_def)
  ultimately show ?thesis
    by (simp add: final_checks_def demo_fw demo_volumes volume_gate_def refuse_def) (simp add: demo_attempt_def)
qed

lemma demo_sized: "sized_checks (demo_claim_env demo_pools) demo_row False demo_app True = Inr demo_attempt"
proof -
  have "dr_gpuMilli demo_row = 500" "dr_cpuMilli demo_row = 100" by (simp_all add: demo_row_def)
  with demo_slice demo_minimum demo_can demo_final show ?thesis by (simp add: sized_checks_def reject_if_def)
qed

lemma demo_claim: "consider_claim (demo_claim_env (fst demo_pool_run)) demo_row False False = (Inr demo_attempt, [])"
proof -
  have "late_checks (demo_claim_env demo_pools) demo_row False = Inr demo_attempt"
    using demo_app_gate demo_on_card demo_sized
    by (simp add: late_checks_def evacuated_def demo_claim_env_def) (simp add: demo_row_def)
  then show ?thesis
    by (simp add: consider_claim_def demo_early demo_backoff demo_pool_run_value demo_pools_def)
qed

theorem claim_attempt_is_justified_witness:
  "justified (demo_claim_env (fst demo_pool_run)) demo_row demo_attempt"
  by (rule claim_attempt_is_justified [OF demo_claim])
    (simp_all add: demo_claim_env_def demo_row_def demo_pool_run_value fresh_pools_def)

end
