(* ===== verification/Claim_Loop.thy ===== *)
theory Claim_Loop
  imports Claim_Gate
begin

text \<open>
  The claim loop of an enclave (\<open>supervisor.js\<close>): adoption of a claimed row (\<open>tryClaim\<close>, \<open>adopt\<close>), the
  sweep (\<open>claimSweep\<close>, \<open>sweepPartition\<close>), renewals (\<open>renewLeases\<close>), the audit (\<open>auditClaims\<close>) with the in-place
  version switch (\<open>switchTenantVersion\<close>) and envelope edit (\<open>applyEnvelopeEdit\<close>), the teardown of a retired ledger
  (\<open>ledgerMoveSweep\<close>), of a yanked version (\<open>yankSweep\<close>) and of an unreachable box (\<open>reachStep\<close>, \<open>abandonClaims\<close>). The
  chain and the manager answer through \<open>loop_env\<close>; what the box sends to the ledger is logged in its state.
\<close>

section \<open>State\<close>

record tenant =
  te_status :: string
  te_gpu :: "handle option"
  te_onchain :: bool
  te_ledger :: "string option"
  te_leaseUntil :: int
  te_balance6 :: int
  te_rate6 :: int
  te_owner :: string
  te_ref :: string
  te_shares :: "(int \<times> int) option"
  te_gpuShare :: rat
  te_cpuShare :: rat
  te_envelope :: "string option"
  te_config :: config_fields
  te_waf :: "waf option"
  te_firewall :: "fw_entry list"
  te_strikes :: nat
  te_deaths :: nat
  te_busy :: bool
  te_renewBackoff :: int
  te_capBlocked :: bool
  te_versionChange :: bool
  te_configChange :: bool

datatype chain_call = SendClaim string | SendRenew string | SendRelease string

record box =
  bx_pools :: pools
  bx_tenants :: "(string \<times> tenant) list"
  bx_backoffs :: backoffs
  bx_sent :: "chain_call list"

text \<open>A transaction fails or reverts, or confirms: with the lease its event carries, or without the event.\<close>

datatype tx_result = TxFailed | NoEvent | Leased int

fun leased :: "tx_result \<Rightarrow> int option" where
  "leased (Leased until) = Some until"
| "leased _ = None"

record loop_env =
  le_claim :: claim_env
  le_operator :: string
  le_ledger :: string
  le_backend :: bool
  le_bond :: bool
  le_open :: "string \<Rightarrow> bool"
  le_claimTx :: "string \<Rightarrow> tx_result"
  le_renewTx :: "string \<Rightarrow> tx_result"
  le_overCap :: "string \<Rightarrow> bool"
  le_prefetch :: "string \<Rightarrow> bool"
  le_provision :: "string \<Rightarrow> bool"
  le_error :: "string \<Rightarrow> string"
  le_alive :: "string \<Rightarrow> bool"
  le_stops :: "string \<Rightarrow> bool"
  le_marginSec :: int
  le_maxPerSweep :: nat

text \<open>The gauntlet reads the box's own state.\<close>

definition env_of :: "loop_env \<Rightarrow> box \<Rightarrow> claim_env" where
  "env_of L B = (le_claim L)\<lparr>ce_pools := bx_pools B, ce_records := map (\<lambda>(i, t). (i, te_status t)) (bx_tenants B),
     ce_backoffs := bx_backoffs B\<rparr>"

abbreviation now_ms :: "loop_env \<Rightarrow> int" where
  "now_ms L \<equiv> ce_now (le_claim L)"

definition send :: "chain_call \<Rightarrow> box \<Rightarrow> box" where
  "send c B = B\<lparr>bx_sent := bx_sent B @ [c]\<rparr>"

definition put_tenant :: "string \<Rightarrow> tenant \<Rightarrow> box \<Rightarrow> box" where
  "put_tenant i t B = B\<lparr>bx_tenants := AList.update i t (bx_tenants B)\<rparr>"

definition note_failure ::
  "loop_env \<Rightarrow> string \<Rightarrow> string \<Rightarrow> string option \<Rightarrow> string option \<Rightarrow> string option \<Rightarrow> box \<Rightarrow> box" where
  "note_failure L i ref stage why cid B =
     B\<lparr>bx_backoffs := note_provision_failure (now_ms L) i (Some ref) stage why cid (bx_backoffs B)\<rparr>"

definition live_status :: "string \<Rightarrow> bool" where
  "live_status st \<longleftrightarrow> st = ''running'' \<or> st = ''claimed''"

text \<open>Stop, release the slice, then the flip: what every teardown does to a record.\<close>

definition drop_slice :: "string \<Rightarrow> tenant \<Rightarrow> box \<Rightarrow> box" where
  "drop_slice i t B =
     (case te_gpu t of
        None \<Rightarrow> put_tenant i t B
      | Some h \<Rightarrow> put_tenant i (t\<lparr>te_gpu := None\<rparr>) (B\<lparr>bx_pools := release_gpu (bx_pools B) h\<rparr>))"

definition end_tenant :: "string \<Rightarrow> string \<Rightarrow> tenant \<Rightarrow> box \<Rightarrow> box" where
  "end_tenant st i t B = drop_slice i (t\<lparr>te_status := st\<rparr>) B"

text \<open>\<open>provisionTenant\<close>: the launch, which on failure fails the record and gives the slice back.\<close>

definition provision_tenant :: "loop_env \<Rightarrow> string \<Rightarrow> tenant \<Rightarrow> box \<Rightarrow> box" where
  "provision_tenant L i t B =
     (if le_provision L i then put_tenant i (t\<lparr>te_status := ''running''\<rparr>) B else end_tenant ''failed'' i t B)"

section \<open>Adoption\<close>

definition slice_alloc :: "pools \<Rightarrow> claim_slice \<Rightarrow> (handle \<times> pools) option" where
  "slice_alloc P s = (case s of CpuSlice c \<Rightarrow> alloc_cpu P c | GpuSlice v g c \<Rightarrow> alloc_gpu P v g c)"

definition slice_shares :: "claim_slice \<Rightarrow> rat \<times> rat" where
  "slice_shares s = (case s of CpuSlice c \<Rightarrow> (0, c) | GpuSlice v g c \<Rightarrow> (g, c))"

definition row_config :: "dep_row \<Rightarrow> app_version \<Rightarrow> config_fields \<times> waf option" where
  "row_config d g =
     (case row_options d of
        Inr o' \<Rightarrow> (override_config_fields o' (Some (av_config g, av_configCid g)), do_waf o')
      | Inl _ \<Rightarrow> (\<lparr>cf_config = VersionText (av_config g), cf_cid = av_configCid g, cf_override = False\<rparr>, None))"

definition new_tenant :: "loop_env \<Rightarrow> dep_row \<Rightarrow> int \<Rightarrow> attempt \<Rightarrow> handle \<Rightarrow> tenant" where
  "new_tenant L d until a h =
     \<lparr>te_status = ''claimed'', te_gpu = Some h, te_onchain = True, te_ledger = Some (le_ledger L), te_leaseUntil = until,
      te_balance6 = dr_balance6 d, te_rate6 = dr_rate d, te_owner = dr_owner d, te_ref = av_ref (at_version a),
      te_shares = Some (dr_gpuMilli d, dr_cpuMilli d), te_gpuShare = fst (slice_shares (at_slice a)),
      te_cpuShare = snd (slice_shares (at_slice a)), te_envelope = Some (dr_configCid d),
      te_config = fst (row_config d (at_version a)), te_waf = snd (row_config d (at_version a)),
      te_firewall = at_firewall a, te_strikes = 0, te_deaths = 0, te_busy = False, te_renewBackoff = 0,
      te_capBlocked = False, te_versionChange = False, te_configChange = False\<rparr>"

definition is_serving :: "box \<Rightarrow> string \<Rightarrow> bool" where
  "is_serving B i \<longleftrightarrow> (case map_of (bx_tenants B) i of Some t \<Rightarrow> \<not> ended (te_status t) | None \<Rightarrow> False)"

text \<open>A leftover record that has ended is dropped with any slice it still holds; a live one stays.\<close>

definition clear_leftover :: "string \<Rightarrow> box \<Rightarrow> box" where
  "clear_leftover i B =
     (case map_of (bx_tenants B) i of
        None \<Rightarrow> B
      | Some t \<Rightarrow> (drop_slice i t B)\<lparr>bx_tenants := AList.delete i (bx_tenants (drop_slice i t B))\<rparr>)"

definition adopt :: "loop_env \<Rightarrow> dep_row \<Rightarrow> int \<Rightarrow> attempt \<Rightarrow> box \<Rightarrow> box" where
  "adopt L d until a B =
     (let i = dr_id d
      in if is_serving B i then B
         else (let B1 = clear_leftover i B
               in case slice_alloc (bx_pools B1) (at_slice a) of
                    None \<Rightarrow> send (SendRelease i) B1
                  | Some (h, P) \<Rightarrow>
                      (let t = new_tenant L d until a h; B2 = put_tenant i t (B1\<lparr>bx_pools := P\<rparr>)
                       in if le_provision L i
                          then (provision_tenant L i t B2)\<lparr>bx_backoffs := AList.delete i (bx_backoffs B2)\<rparr>
                          else send (SendRelease i) (note_failure L i (te_ref t) (Some ''provision'') (Some (le_error L i)) None (provision_tenant L i t B2)))))"

definition try_claim :: "loop_env \<Rightarrow> dep_row \<Rightarrow> attempt \<Rightarrow> box \<Rightarrow> box" where
  "try_claim L d a B =
     (let i = dr_id d; wasm = av_wasmRef (at_version a)
      in if \<not> at_resume a \<and> \<not> le_bond L then B
         else if prefix ''ipfs://'' wasm \<and> \<not> le_prefetch L i
         then note_failure L i (dr_appRef d) (Some ''prefetch'') (Some (le_error L i)) (Some (drop 7 wasm)) B
         else if at_resume a then adopt L d (dr_leaseUntil d) a B
         else if \<not> le_open L i then B
         else (case le_claimTx L i of
                 TxFailed \<Rightarrow> send (SendClaim i) B
               | NoEvent \<Rightarrow> send (SendRelease i) (send (SendClaim i) B)
               | Leased until \<Rightarrow> adopt L d until a (send (SendClaim i) B)))"

section \<open>The sweep\<close>

definition own_row :: "loop_env \<Rightarrow> box \<Rightarrow> dep_row \<Rightarrow> bool" where
  "own_row L B d \<longleftrightarrow> dr_active d \<and> now_ms L < dr_leaseUntil d * 1000 \<and> dr_runner d = ce_enclaveId (le_claim L)
     \<and> \<not> is_serving B (dr_id d)"

definition sweep_partition :: "loop_env \<Rightarrow> box \<Rightarrow> dep_row list \<Rightarrow> dep_row list \<times> dep_row list" where
  "sweep_partition L B ledger = (filter (own_row L B) ledger, filter (\<lambda>d. \<not> own_row L B d) ledger)"

text \<open>One own lease: resumed and awaited; the flag is whether it was declined.\<close>

definition resume_one :: "loop_env \<Rightarrow> dep_row \<Rightarrow> box \<times> bool \<Rightarrow> box \<times> bool" where
  "resume_one L d S =
     (case S of (B, hold) \<Rightarrow>
        (case consider_claim (env_of L B) d False False of
           (Inl _, bk) \<Rightarrow> (B\<lparr>bx_backoffs := bk\<rparr>, True)
         | (Inr a, bk) \<Rightarrow> (try_claim L d a (B\<lparr>bx_backoffs := bk\<rparr>), hold)))"

text \<open>A running lease inside half the renew margin: the transaction queue belongs to renewals.\<close>

definition pressed :: "loop_env \<Rightarrow> box \<Rightarrow> bool" where
  "pressed L B \<longleftrightarrow> list_ex (\<lambda>(i, t). te_onchain t \<and> te_status t = ''running''
     \<and> te_leaseUntil t * 1000 - now_ms L < le_marginSec L * 500) (bx_tenants B)"

text \<open>New work is started in the background, so the attempts are handed on and not awaited.\<close>

fun start_new :: "loop_env \<Rightarrow> dep_row list \<Rightarrow> nat \<Rightarrow> box \<Rightarrow> box \<times> (dep_row \<times> attempt) list" where
  "start_new L [] started B = (B, [])"
| "start_new L (d # ds) started B =
     (if le_maxPerSweep L \<le> started then (B, [])
      else case consider_claim (env_of L B) d False False of
        (Inl _, bk) \<Rightarrow> start_new L ds started (B\<lparr>bx_backoffs := bk\<rparr>)
      | (Inr a, bk) \<Rightarrow>
          (case start_new L ds (Suc started) (B\<lparr>bx_backoffs := bk\<rparr>) of (B', jobs) \<Rightarrow> (B', (d, a) # jobs)))"

definition claim_sweep :: "loop_env \<Rightarrow> dep_row list \<Rightarrow> box \<Rightarrow> box \<times> (dep_row \<times> attempt) list" where
  "claim_sweep L ledger B =
     (if \<not> le_backend L then (B, [])
      else (case sweep_partition L B ledger of (own, rest) \<Rightarrow>
             (case foldl (\<lambda>S d. resume_one L d S) (B, False) own of (B1, hold) \<Rightarrow>
                if hold \<or> pressed L B1 then (B1, []) else start_new L rest 0 B1)))"

section \<open>Renewals\<close>

definition renew_one :: "loop_env \<Rightarrow> string \<Rightarrow> tenant \<Rightarrow> box \<Rightarrow> box" where
  "renew_one L i t B =
     (if \<not> te_onchain t \<or> te_status t \<noteq> ''running'' \<or> te_leaseUntil t * 1000 - now_ms L > le_marginSec L * 1000
         \<or> now_ms L < te_renewBackoff t then B
      else (let lapsed = te_leaseUntil t * 1000 \<le> now_ms L;
                r = leased (if lapsed then le_claimTx L i else le_renewTx L i);
                B1 = send (if lapsed then SendClaim i else SendRenew i) B
            in case r of
                 Some until \<Rightarrow>
                   put_tenant i (t\<lparr>te_balance6 := max 0 (te_balance6 t - max 0 (until - te_leaseUntil t) * te_rate6 t),
                     te_leaseUntil := until, te_renewBackoff := 0, te_capBlocked := False\<rparr>) B1
               | None \<Rightarrow>
                   if le_overCap L i then put_tenant i (t\<lparr>te_capBlocked := True, te_renewBackoff := now_ms L + 300000\<rparr>) B1
                   else put_tenant i (t\<lparr>te_renewBackoff := now_ms L + 60000\<rparr>) B1))"

text \<open>A pass over the records as they were at its start, each as it is when its turn comes.\<close>

definition for_tenants :: "(string \<Rightarrow> tenant \<Rightarrow> box \<Rightarrow> box) \<Rightarrow> box \<Rightarrow> box" where
  "for_tenants f B =
     foldl (\<lambda>B i. case map_of (bx_tenants B) i of Some t \<Rightarrow> f i t B | None \<Rightarrow> B) B (map fst (bx_tenants B))"

definition renew_leases :: "loop_env \<Rightarrow> box \<Rightarrow> box" where
  "renew_leases L B = (if ce_tripped (le_claim L) then B else for_tenants (renew_one L) B)"

section \<open>Reachability\<close>

datatype doh = Resolves | Gone | DohError

text \<open>\<open>dohVerdict\<close> of a status and the number of answers of a parsed body.\<close>

definition doh_verdict :: "(int \<times> nat) option \<Rightarrow> doh" where
  "doh_verdict body =
     (case body of
        None \<Rightarrow> DohError
      | Some (status, answers) \<Rightarrow>
          if status = 0 \<and> 0 < answers then Resolves else if status = 0 \<or> status = 3 then Gone else DohError)"

definition resolver_verdict :: "doh \<Rightarrow> doh \<Rightarrow> doh" where
  "resolver_verdict a aaaa =
     (if a = Resolves \<or> aaaa = Resolves then Resolves else if a = Gone \<and> aaaa = Gone then Gone else DohError)"

definition reach_step :: "nat \<times> bool \<Rightarrow> doh list \<Rightarrow> nat \<Rightarrow> nat \<times> bool" where
  "reach_step st verdicts strikes =
     (if verdicts = [] \<or> Resolves \<in> set verdicts then (0, False)
      else if list_all (\<lambda>v. v = Gone) verdicts then (fst st + 1, snd st \<or> strikes \<le> fst st + 1)
      else st)"

definition abandon_claims :: "box \<Rightarrow> box" where
  "abandon_claims B =
     for_tenants (\<lambda>i t B. if te_onchain t \<and> live_status (te_status t) then send (SendRelease i) (end_tenant ''expired'' i t B) else B) B"

text \<open>A zero threshold switches the watchdog off; the trip abandons everything once.\<close>

definition reach_tick :: "nat \<Rightarrow> doh list \<Rightarrow> nat \<times> bool \<Rightarrow> box \<Rightarrow> (nat \<times> bool) \<times> box" where
  "reach_tick strikes verdicts st B =
     (if strikes = 0 then (st, B)
      else (let st' = reach_step st verdicts strikes
            in (st', if snd st' \<and> \<not> snd st then abandon_claims B else B)))"

section \<open>Retired ledgers and yanked versions\<close>

datatype move_verdict = MoveSkip | MoveStamp | MoveTeardown

definition ledger_move_verdict :: "tenant \<Rightarrow> string \<Rightarrow> move_verdict" where
  "ledger_move_verdict t current =
     (if current = [] \<or> \<not> te_onchain t \<or> \<not> live_status (te_status t) then MoveSkip
      else case te_ledger t of
        None \<Rightarrow> MoveStamp
      | Some l \<Rightarrow> if l = [] then MoveStamp else if to_lower l = to_lower current then MoveSkip else MoveTeardown)"

definition ledger_move_sweep :: "loop_env \<Rightarrow> box \<Rightarrow> box" where
  "ledger_move_sweep L B =
     for_tenants (\<lambda>i t B. case ledger_move_verdict t (le_ledger L) of
        MoveSkip \<Rightarrow> B
      | MoveStamp \<Rightarrow> put_tenant i (t\<lparr>te_ledger := Some (le_ledger L)\<rparr>) B
      | MoveTeardown \<Rightarrow> end_tenant ''terminated'' i t B) B"

definition yank_teardown_plan :: "(string \<times> tenant) list \<Rightarrow> string list \<Rightarrow> string list" where
  "yank_teardown_plan ts yanked = map fst (filter (\<lambda>(i, t). live_status (te_status t) \<and> te_ref t \<in> set yanked) ts)"

text \<open>A reference whose version cannot be read is not yanked: only a positive answer tears down.\<close>

definition yanked_ref :: "catalog \<Rightarrow> string \<Rightarrow> bool" where
  "yanked_ref C ref \<longleftrightarrow>
     (case catalog_ref ref of
        Some (appId, index) \<Rightarrow> (case ct_version C appId index of Got v \<Rightarrow> cv_yanked v | Failed \<Rightarrow> False)
      | None \<Rightarrow> False)"

definition yank_sweep :: "loop_env \<Rightarrow> box \<Rightarrow> box" where
  "yank_sweep L B =
     (let C = ce_catalog (le_claim L);
          live = filter (\<lambda>(i, t). te_onchain t \<and> live_status (te_status t) \<and> catalog_ref (te_ref t) \<noteq> None) (bx_tenants B);
          plan = yank_teardown_plan live (filter (yanked_ref C) (map (te_ref \<circ> snd) live))
      in if \<not> ct_configured C then B
         else for_tenants (\<lambda>i t B. if i \<in> set plan then send (SendRelease i) (end_tenant ''terminated'' i t B) else B) B)"


section \<open>The audit\<close>

definition needs_version_switch :: "string \<Rightarrow> string \<Rightarrow> string \<Rightarrow> bool" where
  "needs_version_switch status localRef chainRef \<longleftrightarrow>
     status = ''running'' \<and> chainRef \<noteq> [] \<and> localRef \<noteq> [] \<and> chainRef \<noteq> localRef"

datatype resize_verdict = ResizeSkip | ResizeStamp | ResizeNow

definition share_resize_verdict :: "string \<Rightarrow> (int \<times> int) option \<Rightarrow> int \<Rightarrow> int \<Rightarrow> resize_verdict" where
  "share_resize_verdict status shares gpuMilli cpuMilli =
     (if status \<noteq> ''running'' then ResizeSkip
      else case shares of None \<Rightarrow> ResizeStamp | Some s \<Rightarrow> if s = (gpuMilli, cpuMilli) then ResizeSkip else ResizeNow)"

definition transient_gate :: "gate_error \<Rightarrow> bool" where
  "transient_gate e \<longleftrightarrow> e = NoCatalog \<or> e = CatalogUnreachable"

definition evict :: "string \<Rightarrow> tenant \<Rightarrow> box \<Rightarrow> box" where
  "evict i t B = send (SendRelease i) (end_tenant ''expired'' i (t\<lparr>te_versionChange := False\<rparr>) B)"

text \<open>
  What a switch must pass before the old instance is touched: the version with its ports, or the
  refusal, which is transient or structural.
\<close>

definition switch_gate :: "loop_env \<Rightarrow> dep_row \<Rightarrow> tenant \<Rightarrow> box \<Rightarrow> bool + (app_version \<times> fw_entry list)" where
  "switch_gate L d t B =
     (let E = env_of L B
      in case gate_app_reference (ce_catalog E) (dr_appRef d) (\<not> dr_isPublic d) of
           Inl e \<Rightarrow> Inl (transient_gate e)
         | Inr g \<Rightarrow>
             if below_minimum (row_mins E d g) (0 < te_gpuShare t) (share_milli (dr_gpuMilli d)) (share_milli (dr_cpuMilli d)) then Inl False
             else (case version_firewall (av_ports g) of
                Inl _ \<Rightarrow> Inl False
              | Inr fw \<Rightarrow>
                  (case fee_gate (ce_ledger E (dr_id d)) g of
                     Some r \<Rightarrow> Inl (r = FeeUnreadable)
                   | None \<Rightarrow>
                       if prefix ''ipfs://'' (av_wasmRef g) \<and> \<not> le_prefetch L (dr_id d) then Inl True
                       else if \<not> le_stops L (dr_id d) then Inl True
                       else Inr (g, fw))))"

definition swap_slice :: "dep_row \<Rightarrow> tenant \<Rightarrow> box \<Rightarrow> (tenant \<times> box) option" where
  "swap_slice d t B =
     (let g = share_milli (dr_gpuMilli d); c = share_milli (dr_cpuMilli d);
          P = (case te_gpu t of Some h \<Rightarrow> release_gpu (bx_pools B) h | None \<Rightarrow> bx_pools B)
      in case request P g c of
           None \<Rightarrow> None
         | Some (h, P') \<Rightarrow>
             Some (t\<lparr>te_gpu := Some h, te_gpuShare := (if 0 < g then of_int (quantize_pct g) / 100 else 0),
                     te_cpuShare := normalize_cpu_req c, te_shares := Some (dr_gpuMilli d, dr_cpuMilli d), te_rate6 := dr_rate d\<rparr>,
                   B\<lparr>bx_pools := P'\<rparr>))"

definition relaunch :: "loop_env \<Rightarrow> string \<Rightarrow> string \<Rightarrow> tenant \<Rightarrow> box \<Rightarrow> box" where
  "relaunch L i ref t B =
     (let B1 = provision_tenant L i (t\<lparr>te_status := ''claimed''\<rparr>) B
      in if le_provision L i then B1 else send (SendRelease i) (note_failure L i ref None None None B1))"

definition switch_version :: "loop_env \<Rightarrow> dep_row \<Rightarrow> string \<Rightarrow> tenant \<Rightarrow> box \<Rightarrow> box" where
  "switch_version L d i t B =
     (let resize = (share_resize_verdict (te_status t) (te_shares t) (dr_gpuMilli d) (dr_cpuMilli d) = ResizeNow)
      in if resize \<and> 0 < dr_gpuMilli d \<and> \<not> pl_isGpu (bx_pools B) \<and> \<not> owner_optional d then evict i t B
         else case switch_gate L d t B of
           Inl transient \<Rightarrow>
             if resize \<and> \<not> transient then evict i t B else put_tenant i (t\<lparr>te_versionChange := True\<rparr>) B
         | Inr (g, fw) \<Rightarrow>
             (case (if resize then swap_slice d t B else Some (t, B)) of
                None \<Rightarrow> evict i t B
              | Some (t1, B1) \<Rightarrow>
                  relaunch L i (dr_appRef d)
                    (t1\<lparr>te_ref := av_ref g,
                        te_config := (case row_options d of Inr _ \<Rightarrow> fst (row_config d g)
                                      | Inl _ \<Rightarrow> (fst (row_config d g))\<lparr>cf_override := cf_override (te_config t1)\<rparr>),
                        te_envelope := (case row_options d of Inr _ \<Rightarrow> Some (dr_configCid d) | Inl _ \<Rightarrow> te_envelope t1),
                        te_firewall := fw, te_deaths := 0, te_versionChange := False\<rparr>) B1))"

definition apply_envelope_edit :: "loop_env \<Rightarrow> dep_row \<Rightarrow> string \<Rightarrow> tenant \<Rightarrow> edit_verdict \<Rightarrow> box \<Rightarrow> box" where
  "apply_envelope_edit L d i t verdict B =
     (case parse_dep_options (dr_configCid d) None of
        Inl _ \<Rightarrow> put_tenant i (t\<lparr>te_configChange := True\<rparr>) B
      | Inr o' \<Rightarrow>
          (let t1 = t\<lparr>te_waf := do_waf o'\<rparr>
           in if verdict = EditError then put_tenant i (t\<lparr>te_configChange := True\<rparr>) B
              else if verdict = EditWaf then put_tenant i (t1\<lparr>te_envelope := Some (dr_configCid d), te_configChange := False\<rparr>) B
              else (case (if do_config o' = None \<and> do_configCid o' = None
                          then map_option (\<lambda>g. Some (av_config g, av_configCid g))
                                 (case gate_app_reference (ce_catalog (le_claim L)) (dr_appRef d) (\<not> dr_isPublic d) of
                                    Inr g \<Rightarrow> Some g | Inl _ \<Rightarrow> None)
                          else Some None) of
                      None \<Rightarrow> put_tenant i (t1\<lparr>te_configChange := True\<rparr>) B
                    | Some g \<Rightarrow>
                        relaunch L i (te_ref t1)
                          (t1\<lparr>te_config := override_config_fields o' g, te_envelope := Some (dr_configCid d),
                              te_configChange := False, te_deaths := 0\<rparr>) B)))"

definition mirror_row :: "dep_row \<Rightarrow> tenant \<Rightarrow> tenant" where
  "mirror_row d t = t\<lparr>te_balance6 := dr_balance6 d, te_rate6 := dr_rate d, te_owner := dr_owner d\<rparr>"

text \<open>The chain does not show a live lease of ours.\<close>

definition audit_lost :: "loop_env \<Rightarrow> dep_row \<Rightarrow> string \<Rightarrow> tenant \<Rightarrow> box \<Rightarrow> box" where
  "audit_lost L d i t B =
     (let me = ce_enclaveId (le_claim L);
          opMine = (dr_runner d = me \<or> (me \<noteq> [] \<and> to_lower (dr_runnerOperator d) = to_lower (le_operator L)));
          leaseLive = (now_ms L < dr_leaseUntil d * 1000);
          retry = (opMine \<and> \<not> leaseLive \<and> te_status t = ''running'');
          B1 = (if retry then send (SendClaim i) B else B)
      in case (if retry then leased (le_claimTx L i) else None) of
           Some until \<Rightarrow> put_tenant i (t\<lparr>te_leaseUntil := until, te_strikes := 0\<rparr>) B1
         | None \<Rightarrow>
             (let t1 = t\<lparr>te_strikes := te_strikes t + 1\<rparr>
              in if te_strikes t1 < 2 then put_tenant i t1 B1 else end_tenant ''expired'' i t1 B1))"

definition audit_alive :: "loop_env \<Rightarrow> string \<Rightarrow> tenant \<Rightarrow> box \<Rightarrow> box" where
  "audit_alive L i t B =
     (if te_status t \<noteq> ''running'' \<or> le_alive L i then put_tenant i t B
      else (let t1 = t\<lparr>te_deaths := te_deaths t + 1\<rparr>
            in if 3 < te_deaths t1
               then send (SendRelease i) (note_failure L i (te_ref t1) None None None (end_tenant ''failed'' i t1 B))
               else relaunch L i (te_ref t1) t1 B))"

definition audit_serving :: "loop_env \<Rightarrow> dep_row \<Rightarrow> string \<Rightarrow> tenant \<Rightarrow> box \<Rightarrow> box" where
  "audit_serving L d i t B =
     (let sv = share_resize_verdict (te_status t) (te_shares t) (dr_gpuMilli d) (dr_cpuMilli d);
          t1 = (if sv = ResizeStamp
                then t\<lparr>te_shares := Some (\<lfloor>te_gpuShare t * 1000 + 1 / 2\<rfloor>, \<lfloor>te_cpuShare t * 1000 + 1 / 2\<rfloor>)\<rparr> else t)
      in if needs_version_switch (te_status t1) (te_ref t1) (dr_appRef d) \<or> sv = ResizeNow
         then switch_version L d i t1 B
         else (let t2 = t1\<lparr>te_versionChange := False\<rparr>;
                   ev = envelope_edit_verdict (te_onchain t2) (te_status t2 = ''running'') (te_envelope t2) (dr_configCid d)
               in case ev of
                    EditStamp \<Rightarrow> audit_alive L i (t2\<lparr>te_envelope := Some (dr_configCid d)\<rparr>) B
                  | EditSkip \<Rightarrow> audit_alive L i (t2\<lparr>te_configChange := False\<rparr>) B
                  | EditRestart \<Rightarrow> apply_envelope_edit L d i t2 ev B
                  | _ \<Rightarrow> (let B1 = apply_envelope_edit L d i t2 ev B
                          in case map_of (bx_tenants B1) i of Some t3 \<Rightarrow> audit_alive L i t3 B1 | None \<Rightarrow> B1)))"

definition audit_one :: "loop_env \<Rightarrow> (string \<times> dep_row) list \<Rightarrow> string \<Rightarrow> tenant \<Rightarrow> box \<Rightarrow> box" where
  "audit_one L ledger i t0 B =
     (if \<not> te_onchain t0 \<or> \<not> live_status (te_status t0) \<or> te_busy t0 then B
      else case map_of ledger (to_lower i) of
        None \<Rightarrow> B
      | Some d \<Rightarrow>
          (let t = mirror_row d t0;
               mine = (dr_runner d = ce_enclaveId (le_claim L) \<and> now_ms L < dr_leaseUntil d * 1000)
           in if \<not> dr_active d
              then (let B1 = end_tenant ''terminated'' i t B in if mine then send (SendRelease i) B1 else B1)
              else if \<not> mine then audit_lost L d i t B
              else if te_status t = ''claimed'' then relaunch L i (te_ref t) (t\<lparr>te_strikes := 0\<rparr>) B
              else audit_serving L d i (t\<lparr>te_strikes := 0\<rparr>) B))"

definition audit_claims :: "loop_env \<Rightarrow> (string \<times> dep_row) list \<Rightarrow> box \<Rightarrow> box" where
  "audit_claims L ledger B = for_tenants (audit_one L ledger) B"

end
