(* ===== verification/Claim_Safety.thy ===== *)
theory Claim_Safety
  imports Claim_Loop
begin

text \<open>
  What the claim loop keeps, whatever the chain and the manager answer and however its passes and the
  claims started in the background interleave: one record per id, no slice on a record that has ended,
  and pools that never show more than the live records leave.
\<close>

section \<open>Handles of the records\<close>

definition tenant_handles :: "(string \<times> tenant) list \<Rightarrow> handle list" where
  "tenant_handles ts = List.map_filter (\<lambda>x. te_gpu (snd x)) ts"

definition opt_list :: "'a option \<Rightarrow> 'a list" where
  "opt_list x = (case x of Some v \<Rightarrow> [v] | None \<Rightarrow> [])"

lemma opt_list_simps [simp]: "opt_list None = []" "opt_list (Some v) = [v]"
  by (simp_all add: opt_list_def)

lemma tenant_handles_simps [simp]:
  "tenant_handles [] = []" "tenant_handles (x # ts) = opt_list (te_gpu (snd x)) @ tenant_handles ts"
  "tenant_handles (ts @ us) = tenant_handles ts @ tenant_handles us"
  by (auto simp: tenant_handles_def List.map_filter_def opt_list_def split: option.splits)

lemma update_split:
  assumes "map_of ts i = Some t"
  obtains xs ys where "ts = xs @ (i, t) # ys" "\<And>u. AList.update i u ts = xs @ (i, u) # ys" "i \<notin> fst ` set xs"
proof -
  from assms have "\<exists>xs ys. ts = xs @ (i, t) # ys \<and> (\<forall>u. AList.update i u ts = xs @ (i, u) # ys) \<and> i \<notin> fst ` set xs"
  proof (induction ts)
    case (Cons x ts)
    obtain k v where x: "x = (k, v)" by (cases x)
    show ?case
    proof (cases "k = i")
      case True
      with Cons.prems x show ?thesis by (intro exI [of _ "[]"] exI [of _ ts]) auto
    next
      case False
      with Cons.prems x Cons.IH obtain xs ys where
        "ts = xs @ (i, t) # ys" "\<forall>u. AList.update i u ts = xs @ (i, u) # ys" "i \<notin> fst ` set xs" by auto
      with False x show ?thesis by (intro exI [of _ "x # xs"] exI [of _ ys]) auto
    qed
  qed simp
  with that show thesis by blast
qed

lemma update_fresh: "map_of ts i = None \<Longrightarrow> AList.update i u ts = ts @ [(i, u)]"
  by (induction ts) (auto split: if_splits)

definition loop_inv :: "pools \<Rightarrow> box \<Rightarrow> bool" where
  "loop_inv P0 B \<longleftrightarrow> distinct (map fst (bx_tenants B))
     \<and> list_all (\<lambda>x. ended (te_status (snd x)) \<longrightarrow> te_gpu (snd x) = None) (bx_tenants B)
     \<and> frame (bx_pools B) P0 \<and> sound (bx_pools B) (tenant_handles (bx_tenants B))"

lemma loop_inv_other [simp]:
  "loop_inv P0 (B\<lparr>bx_backoffs := x\<rparr>) = loop_inv P0 B" "loop_inv P0 (B\<lparr>bx_sent := y\<rparr>) = loop_inv P0 B"
  "loop_inv P0 (send c B) = loop_inv P0 B" "loop_inv P0 (note_failure L i ref st w cid B) = loop_inv P0 B"
  by (simp_all add: loop_inv_def send_def note_failure_def)

lemma other_fields [simp]:
  "bx_tenants (send c B) = bx_tenants B" "bx_pools (send c B) = bx_pools B"
  "bx_tenants (note_failure L i ref st w cid B) = bx_tenants B" "bx_pools (note_failure L i ref st w cid B) = bx_pools B"
  "bx_tenants (put_tenant i t B) = AList.update i t (bx_tenants B)" "bx_pools (put_tenant i t B) = bx_pools B"
  by (simp_all add: send_def note_failure_def put_tenant_def)

text \<open>\<open>held B i t\<close>: the record of \<open>i\<close> holds the slice that \<open>t\<close> says it holds.\<close>

definition held_as :: "box \<Rightarrow> string \<Rightarrow> tenant \<Rightarrow> bool" where
  "held_as B i t \<longleftrightarrow> (\<exists>t0. map_of (bx_tenants B) i = Some t0 \<and> te_gpu t = te_gpu t0)"

lemma held_as_simps [simp]:
  "held_as (send c B) i t = held_as B i t" "held_as (note_failure L j ref st w cid B) i t = held_as B i t"
  "held_as (B\<lparr>bx_backoffs := x\<rparr>) i t = held_as B i t" "held_as (B\<lparr>bx_sent := y\<rparr>) i t = held_as B i t"
  by (simp_all add: held_as_def)

lemma put_tenant_inv:
  assumes inv: "loop_inv P0 B" and h: "held_as B i t" and e: "ended (te_status t) \<Longrightarrow> te_gpu t = None"
  shows "loop_inv P0 (put_tenant i t B)"
proof -
  from h obtain t0 where t0: "map_of (bx_tenants B) i = Some t0" "te_gpu t = te_gpu t0" by (auto simp: held_as_def)
  from t0(1) obtain xs ys where u: "bx_tenants B = xs @ (i, t0) # ys" "\<And>u. AList.update i u (bx_tenants B) = xs @ (i, u) # ys"
    by (rule update_split) blast
  from inv u t0(2) e show ?thesis by (simp add: loop_inv_def)
qed

lemma drop_slice_inv:
  assumes inv: "loop_inv P0 B" and h: "held_as B i t"
  shows "loop_inv P0 (drop_slice i t B)"
proof -
  from h obtain t0 where t0: "map_of (bx_tenants B) i = Some t0" "te_gpu t = te_gpu t0" by (auto simp: held_as_def)
  from t0(1) obtain xs ys where u: "bx_tenants B = xs @ (i, t0) # ys" "\<And>u. AList.update i u (bx_tenants B) = xs @ (i, u) # ys"
    by (rule update_split) blast
  show ?thesis
  proof (cases "te_gpu t")
    case None
    with put_tenant_inv [OF inv h] show ?thesis by (simp add: drop_slice_def)
  next
    case (Some hd)
    with t0(2) have "te_gpu t0 = Some hd" by simp
    with inv u have s: "sound (bx_pools B) (tenant_handles xs @ hd # tenant_handles ys)" by (simp add: loop_inv_def)
    then have "frame (release_gpu (bx_pools B) hd) (bx_pools B)" by (intro frame_release) (simp add: sound_def)
    with sound_release [OF s] inv u Some show ?thesis
      by (auto simp: drop_slice_def loop_inv_def intro: frame_trans)
  qed
qed

lemma end_tenant_inv: "loop_inv P0 B \<Longrightarrow> held_as B i t \<Longrightarrow> loop_inv P0 (end_tenant st i t B)"
  unfolding end_tenant_def by (rule drop_slice_inv) (simp_all add: held_as_def)

lemma provision_tenant_inv:
  assumes "loop_inv P0 B" "held_as B i t"
  shows "loop_inv P0 (provision_tenant L i t B)"
  using assms put_tenant_inv [of P0 B i "t\<lparr>te_status := ''running''\<rparr>"] end_tenant_inv
  by (auto simp: provision_tenant_def held_as_def)

lemma relaunch_inv:
  assumes "loop_inv P0 B" "held_as B i t"
  shows "loop_inv P0 (relaunch L i ref t B)"
  using assms provision_tenant_inv [of P0 B i "t\<lparr>te_status := ''claimed''\<rparr>"]
  by (simp add: relaunch_def Let_def held_as_def)

section \<open>Passes over the records\<close>

lemma for_tenants_inv:
  assumes "loop_inv P0 B" "\<And>i t B. loop_inv P0 B \<Longrightarrow> map_of (bx_tenants B) i = Some t \<Longrightarrow> loop_inv P0 (f i t B)"
  shows "loop_inv P0 (for_tenants f B)"
proof -
  have "loop_inv P0 (foldl (\<lambda>B i. case map_of (bx_tenants B) i of Some t \<Rightarrow> f i t B | None \<Rightarrow> B) B is)" for "is"
    using assms(1) by (induction "is" arbitrary: B) (auto intro: assms(2) split: option.splits)
  then show ?thesis by (simp add: for_tenants_def)
qed

lemma not_ended_inv: "loop_inv P0 B \<Longrightarrow> map_of (bx_tenants B) i = Some t \<Longrightarrow> ended (te_status t) \<Longrightarrow> te_gpu t = None"
  by (auto simp: loop_inv_def list_all_iff dest: map_of_SomeD)

lemma held_as_self: "map_of (bx_tenants B) i = Some t \<Longrightarrow> te_gpu t' = te_gpu t \<Longrightarrow> held_as B i t'"
  by (simp add: held_as_def)

lemma renew_one_inv:
  assumes "loop_inv P0 B" "map_of (bx_tenants B) i = Some t"
  shows "loop_inv P0 (renew_one L i t B)"
  using assms unfolding renew_one_def Let_def
  by (auto split: option.splits intro!: put_tenant_inv held_as_self dest: not_ended_inv)

lemma renew_leases_inv: "loop_inv P0 B \<Longrightarrow> loop_inv P0 (renew_leases L B)"
  by (simp add: renew_leases_def for_tenants_inv renew_one_inv)

lemma abandon_claims_inv: "loop_inv P0 B \<Longrightarrow> loop_inv P0 (abandon_claims B)"
  unfolding abandon_claims_def by (rule for_tenants_inv) (auto intro: end_tenant_inv held_as_self)

lemma reach_tick_inv: "loop_inv P0 B \<Longrightarrow> loop_inv P0 (snd (reach_tick n vs st B))"
  by (simp add: reach_tick_def Let_def abandon_claims_inv)

lemma ledger_move_inv: "loop_inv P0 B \<Longrightarrow> loop_inv P0 (ledger_move_sweep L B)"
  unfolding ledger_move_sweep_def
  by (rule for_tenants_inv) (auto intro!: end_tenant_inv put_tenant_inv held_as_self dest: not_ended_inv split: move_verdict.splits)

lemma yank_sweep_inv: "loop_inv P0 B \<Longrightarrow> loop_inv P0 (yank_sweep L B)"
  unfolding yank_sweep_def Let_def
  by (auto intro!: for_tenants_inv end_tenant_inv simp: held_as_def)

section \<open>The audit\<close>

lemma live_not_ended: "live_status st \<Longrightarrow> \<not> ended st"
  by (auto simp: live_status_def)

lemma evict_inv: "loop_inv P0 B \<Longrightarrow> held_as B i t \<Longrightarrow> loop_inv P0 (evict i t B)"
  by (simp add: evict_def end_tenant_inv held_as_def)

lemma swap_slice_inv:
  assumes inv: "loop_inv P0 B" and t: "map_of (bx_tenants B) i = Some t0" "te_gpu t = te_gpu t0"
    and s: "swap_slice d t B = Some (t1, B1)" and e: "\<not> ended (te_status t2)" "te_gpu t2 = te_gpu t1"
  shows "loop_inv P0 (put_tenant i t2 B1)"
proof -
  from t(1) obtain xs ys where u: "bx_tenants B = xs @ (i, t0) # ys" "\<And>u. AList.update i u (bx_tenants B) = xs @ (i, u) # ys"
    by (rule update_split) blast
  define P where "P = (case te_gpu t of Some h \<Rightarrow> release_gpu (bx_pools B) h | None \<Rightarrow> bx_pools B)"
  have P: "sound P (tenant_handles xs @ tenant_handles ys) \<and> frame P P0"
  proof (cases "te_gpu t")
    case None
    with inv u t(2) show ?thesis by (simp add: P_def loop_inv_def)
  next
    case (Some hd)
    with t(2) have "te_gpu t0 = Some hd" by simp
    with inv u have s: "sound (bx_pools B) (tenant_handles xs @ hd # tenant_handles ys)" by (simp add: loop_inv_def)
    then have "frame (release_gpu (bx_pools B) hd) (bx_pools B)" by (intro frame_release) (simp add: sound_def)
    with sound_release [OF s] inv Some show ?thesis by (auto simp: P_def loop_inv_def intro: frame_trans)
  qed
  from s obtain h P' where r: "request P (share_milli (dr_gpuMilli d)) (share_milli (dr_cpuMilli d)) = Some (h, P')"
    and B1: "B1 = B\<lparr>bx_pools := P'\<rparr>" "te_gpu t1 = Some h"
    unfolding swap_slice_def Let_def P_def [symmetric] by (auto split: option.splits)
  have "sound P' (tenant_handles xs @ h # tenant_handles ys)" using sound_request [OF conjunct1 [OF P] r] .
  moreover have "frame P' P0" using frame_request [OF conjunct1 [OF P] r] P by (auto intro: frame_trans)
  ultimately show ?thesis using inv u B1 e by (simp add: loop_inv_def)
qed


text \<open>Only the last version of a record counts.\<close>

lemma absorb [simp]:
  "put_tenant i t (put_tenant i t' B) = put_tenant i t B"
  "drop_slice i t (put_tenant i t' B) = drop_slice i t B"
  "end_tenant st i t (put_tenant i t' B) = end_tenant st i t B"
  "provision_tenant L i t (put_tenant i t' B) = provision_tenant L i t B"
  "relaunch L i ref t (put_tenant i t' B) = relaunch L i ref t B"
proof -
  show p: "put_tenant i t (put_tenant i t' B) = put_tenant i t B" for t
    by (simp add: put_tenant_def update_last)
  show d: "drop_slice i t (put_tenant i t' B) = drop_slice i t B" for t
    by (simp add: drop_slice_def put_tenant_def update_last split: option.split)
  show e: "end_tenant st i t (put_tenant i t' B) = end_tenant st i t B" for st t
    by (simp add: end_tenant_def d)
  show pr: "provision_tenant L i t (put_tenant i t' B) = provision_tenant L i t B" for t
    by (simp add: provision_tenant_def p e)
  show "relaunch L i ref t (put_tenant i t' B) = relaunch L i ref t B"
    by (simp add: relaunch_def pr)
qed

lemma relaunch_put_inv:
  assumes "loop_inv P0 (put_tenant i t' B)" "te_gpu t = te_gpu t'"
  shows "loop_inv P0 (relaunch L i ref t B)"
proof -
  have "held_as (put_tenant i t' B) i t" using assms(2) by (simp add: held_as_def)
  from relaunch_inv [OF assms(1) this] show ?thesis by simp
qed

lemma switch_version_inv:
  assumes inv: "loop_inv P0 B" and t: "map_of (bx_tenants B) i = Some t0" "te_gpu t = te_gpu t0" "\<not> ended (te_status t)"
  shows "loop_inv P0 (switch_version L d i t B)"
proof -
  have h: "held_as B i t'" if "te_gpu t' = te_gpu t" for t' using t that by (simp add: held_as_def)
  have put: "loop_inv P0 (put_tenant i t' B)" if "te_gpu t' = te_gpu t" "\<not> ended (te_status t')" for t'
    using inv h that by (intro put_tenant_inv) auto
  have swap: "loop_inv P0 (put_tenant i t1 B1)" if "swap_slice d t B = Some (t1, B1)" for t1 B1
  proof (rule swap_slice_inv [OF inv t(1,2) that])
    show "\<not> ended (te_status t1)"
      using that t(3) unfolding swap_slice_def Let_def by (auto split: option.splits)
  qed simp
  let ?resize = "share_resize_verdict (te_status t) (te_shares t) (dr_gpuMilli d) (dr_cpuMilli d) = ResizeNow"
  have ev: "loop_inv P0 (evict i t B)" by (rule evict_inv [OF inv h]) simp
  show ?thesis
  proof (cases "switch_gate L d t B")
    case (Inl transient)
    with ev put show ?thesis by (simp add: switch_version_def Let_def t(3))
  next
    case (Inr gf)
    obtain g fw where gf: "gf = (g, fw)" by (cases gf)
    show ?thesis
    proof (cases "if ?resize then swap_slice d t B else Some (t, B)")
      case None
      with Inr gf ev show ?thesis by (simp add: switch_version_def Let_def)
    next
      case (Some tB)
      obtain t1 B1 where tB: "tB = (t1, B1)" by (cases tB)
      have "loop_inv P0 (put_tenant i t1 B1)"
        using Some tB swap put t(3) by (cases ?resize) auto
      then have "loop_inv P0 (relaunch L i ref t2 B1)" if "te_gpu t2 = te_gpu t1" for ref t2
        using that by (rule relaunch_put_inv)
      with Inr gf Some tB ev show ?thesis by (simp add: switch_version_def Let_def)
    qed
  qed
qed

lemma apply_envelope_edit_inv:
  assumes inv: "loop_inv P0 B" and t: "map_of (bx_tenants B) i = Some t0" "te_gpu t = te_gpu t0" "\<not> ended (te_status t)"
  shows "loop_inv P0 (apply_envelope_edit L d i t v B)"
    "\<exists>t1. map_of (bx_tenants (apply_envelope_edit L d i t EditWaf B)) i = Some t1 \<and> te_gpu t1 = te_gpu t \<and> te_status t1 = te_status t"
    "\<exists>t1. map_of (bx_tenants (apply_envelope_edit L d i t EditError B)) i = Some t1 \<and> te_gpu t1 = te_gpu t \<and> te_status t1 = te_status t"
proof -
  have h: "held_as B i t'" if "te_gpu t' = te_gpu t" for t' using t that by (simp add: held_as_def)
  have put: "loop_inv P0 (put_tenant i t' B)" if "te_gpu t' = te_gpu t" "\<not> ended (te_status t')" for t'
    using inv h that by (intro put_tenant_inv) auto
  show "loop_inv P0 (apply_envelope_edit L d i t v B)"
    unfolding apply_envelope_edit_def Let_def
    by (auto split: sum.splits option.splits intro!: put relaunch_inv inv h simp: t(3))
  show "\<exists>t1. map_of (bx_tenants (apply_envelope_edit L d i t EditWaf B)) i = Some t1 \<and> te_gpu t1 = te_gpu t \<and> te_status t1 = te_status t"
    "\<exists>t1. map_of (bx_tenants (apply_envelope_edit L d i t EditError B)) i = Some t1 \<and> te_gpu t1 = te_gpu t \<and> te_status t1 = te_status t"
    unfolding apply_envelope_edit_def Let_def by (auto split: sum.splits)
qed

lemma audit_alive_inv:
  assumes inv: "loop_inv P0 B" and h: "held_as B i t" and e: "\<not> ended (te_status t)"
  shows "loop_inv P0 (audit_alive L i t B)"
proof -
  have h': "held_as B i t'" if "te_gpu t' = te_gpu t" for t' using h that by (auto simp: held_as_def)
  show ?thesis
    unfolding audit_alive_def Let_def
    using inv e by (auto intro!: put_tenant_inv end_tenant_inv relaunch_inv h')
qed

lemma audit_lost_inv:
  assumes inv: "loop_inv P0 B" and h: "held_as B i t" and e: "\<not> ended (te_status t)"
  shows "loop_inv P0 (audit_lost L d i t B)"
proof -
  have h': "held_as B i t'" if "te_gpu t' = te_gpu t" for t' using h that by (auto simp: held_as_def)
  show ?thesis
    unfolding audit_lost_def Let_def
    using inv e by (auto intro!: put_tenant_inv end_tenant_inv h' split: option.splits)
qed


lemma audit_serving_inv:
  assumes inv: "loop_inv P0 B" and t: "map_of (bx_tenants B) i = Some t0" "te_gpu t = te_gpu t0" "\<not> ended (te_status t)"
  shows "loop_inv P0 (audit_serving L d i t B)"
proof -
  define sv where "sv = share_resize_verdict (te_status t) (te_shares t) (dr_gpuMilli d) (dr_cpuMilli d)"
  define t1 where "t1 = (if sv = ResizeStamp
    then t\<lparr>te_shares := Some (\<lfloor>te_gpuShare t * 1000 + 1 / 2\<rfloor>, \<lfloor>te_cpuShare t * 1000 + 1 / 2\<rfloor>)\<rparr> else t)"
  define t2 where "t2 = t1\<lparr>te_versionChange := False\<rparr>"
  define ev where "ev = envelope_edit_verdict (te_onchain t2) (te_status t2 = ''running'') (te_envelope t2) (dr_configCid d)"
  have t1: "te_gpu t1 = te_gpu t0" "\<not> ended (te_status t1)" using t by (simp_all add: t1_def)
  have t2: "te_gpu t2 = te_gpu t0" "\<not> ended (te_status t2)" using t1 by (simp_all add: t2_def)
  note edit = apply_envelope_edit_inv [OF inv t(1) t2]
  show ?thesis
  proof (cases "needs_version_switch (te_status t1) (te_ref t1) (dr_appRef d) \<or> sv = ResizeNow")
    case True
    then have "audit_serving L d i t B = switch_version L d i t1 B"
      by (simp add: audit_serving_def sv_def [symmetric] t1_def [symmetric] Let_def)
    with switch_version_inv [OF inv t(1) t1] show ?thesis by simp
  next
    case False
    then have a: "audit_serving L d i t B = (case ev of
        EditStamp \<Rightarrow> audit_alive L i (t2\<lparr>te_envelope := Some (dr_configCid d)\<rparr>) B
      | EditSkip \<Rightarrow> audit_alive L i (t2\<lparr>te_configChange := False\<rparr>) B
      | EditRestart \<Rightarrow> apply_envelope_edit L d i t2 ev B
      | _ \<Rightarrow> (let B1 = apply_envelope_edit L d i t2 ev B
              in case map_of (bx_tenants B1) i of Some t3 \<Rightarrow> audit_alive L i t3 B1 | None \<Rightarrow> B1))"
      unfolding audit_serving_def Let_def sv_def [symmetric] t1_def [symmetric] t2_def [symmetric] ev_def [symmetric]
      by (simp only: if_False)
    have alive: "loop_inv P0 (audit_alive L i t' B)" if "te_gpu t' = te_gpu t0" "\<not> ended (te_status t')" for t'
      using inv t(1) that by (intro audit_alive_inv) (auto simp: held_as_def)
    have after: "loop_inv P0 (case map_of (bx_tenants B1) i of Some t3 \<Rightarrow> audit_alive L i t3 B1 | None \<Rightarrow> B1)"
      if "B1 = apply_envelope_edit L d i t2 v B" "v = EditWaf \<or> v = EditError" for B1 v
    proof -
      from that edit(2) [of L d] edit(3) [of L d] obtain t3 where t3: "map_of (bx_tenants B1) i = Some t3" "te_status t3 = te_status t2" by auto
      have "loop_inv P0 (audit_alive L i t3 B1)"
        using edit(1) [of L d v] that(1) t3 t2(2) by (intro audit_alive_inv) (auto simp: held_as_def)
      with t3(1) show ?thesis by simp
    qed
    show ?thesis
      unfolding a using edit(1) alive t2 after by (cases ev) (simp_all add: Let_def)
  qed
qed

lemma audit_one_inv:
  assumes inv: "loop_inv P0 B" and t: "map_of (bx_tenants B) i = Some t"
  shows "loop_inv P0 (audit_one L ledger i t B)"
proof (cases "\<not> te_onchain t \<or> \<not> live_status (te_status t) \<or> te_busy t")
  case True
  with inv show ?thesis by (auto simp: audit_one_def)
next
  case False
  then have e: "\<not> ended (te_status t)" using live_not_ended by blast
  show ?thesis
  proof (cases "map_of ledger (to_lower i)")
    case None
    with inv show ?thesis by (simp add: audit_one_def)
  next
    case (Some d)
    let ?t = "mirror_row d t"
    have m: "te_gpu ?t = te_gpu t" "te_status ?t = te_status t" by (simp_all add: mirror_row_def)
    have h: "held_as B i t'" if "te_gpu t' = te_gpu t" for t' using t that by (simp add: held_as_def)
    have "loop_inv P0 (end_tenant ''terminated'' i ?t B)" "loop_inv P0 (audit_lost L d i ?t B)"
      "loop_inv P0 (relaunch L i ref (?t\<lparr>te_strikes := 0\<rparr>) B)" "loop_inv P0 (audit_serving L d i (?t\<lparr>te_strikes := 0\<rparr>) B)" for ref
      using inv h m e t by (auto intro!: end_tenant_inv audit_lost_inv relaunch_inv audit_serving_inv)
    with Some False inv show ?thesis by (auto simp: audit_one_def Let_def)
  qed
qed

lemma audit_claims_inv: "loop_inv P0 B \<Longrightarrow> loop_inv P0 (audit_claims L ledger B)"
  by (simp add: audit_claims_def for_tenants_inv audit_one_inv)

section \<open>Adoption and the sweep\<close>

text \<open>A slice as the gauntlet sizes it: percents of the node, and of a card with its VRAM.\<close>

definition sized_slice :: "pools \<Rightarrow> claim_slice \<Rightarrow> bool" where
  "sized_slice P s \<longleftrightarrow>
     (\<exists>c. s = CpuSlice (normalize_cpu_req c))
     \<or> (\<exists>g c. 0 < g \<and> s = (case normalize_gpu_req P g c of (v, g', c') \<Rightarrow> GpuSlice v g' c'))"

lemma sized_slice_frame: "frame P Q \<Longrightarrow> sized_slice P s = sized_slice Q s"
proof -
  assume "frame P Q"
  then have "normalize_gpu_req P = normalize_gpu_req Q" by (simp add: fun_eq_iff normalize_gpu_req_def frame_def Let_def)
  then show ?thesis by (simp add: sized_slice_def)
qed

lemma sized_slice_request:
  assumes "sized_slice P s"
  obtains g c where "slice_alloc P s = request P g c"
proof -
  from assms consider c where "s = CpuSlice (normalize_cpu_req c)"
    | g c where "0 < g" "s = (case normalize_gpu_req P g c of (v, g', c') \<Rightarrow> GpuSlice v g' c')"
    by (auto simp: sized_slice_def)
  then show thesis
  proof cases
    case 1
    then show thesis by (intro that [of 0 c]) (simp add: slice_alloc_def request_def)
  next
    case (2 g c)
    then show thesis by (intro that [of g c]) (simp add: slice_alloc_def request_def split: prod.split)
  qed
qed

lemma late_checks_sized:
  assumes "late_checks E d hinted = Inr a"
  shows "sized_slice (ce_pools E) (at_slice a)"
  using assms
proof (cases rule: late_checks_cases)
  case (1 g onCard)
  show ?thesis
  proof (cases onCard)
    case True
    with 1(3,4) row_on_card_cases(1) [OF 1(3)] have "0 < share_milli (dr_gpuMilli d)" "card_slice E d = Inr (at_slice a)"
      by (simp_all add: share_milli_def)
    then obtain v g' c where "at_slice a = GpuSlice v g' c"
      "normalize_gpu_req (ce_pools E) (share_milli (dr_gpuMilli d)) (share_milli (dr_cpuMilli d)) = (v, g', c)"
      by (auto elim!: card_slice_Inr)
    with \<open>0 < share_milli (dr_gpuMilli d)\<close> show ?thesis
      unfolding sized_slice_def
      by (intro disjI2 exI [of _ "share_milli (dr_gpuMilli d)"] exI [of _ "share_milli (dr_cpuMilli d)"]) simp
  next
    case False
    with 1(4) have "core_slice E d hinted = Inr (at_slice a)" by simp
    from core_slice_Inr(1) [OF this] show ?thesis by (auto simp: sized_slice_def)
  qed
qed

lemma consider_claim_sized: "consider_claim E d hinted forced = (Inr a, bk) \<Longrightarrow> sized_slice (ce_pools E) (at_slice a)"
  by (blast dest: consider_claim_attempt(3) late_checks_sized)

lemma env_of_pools [simp]: "ce_pools (env_of L B) = bx_pools B"
  by (simp add: env_of_def)

lemma delete_fresh [simp]: "map_of (AList.delete i m) i = None"
  by (simp add: delete_conv')

lemma clear_leftover_inv:
  assumes inv: "loop_inv P0 B" and e: "\<And>t. map_of (bx_tenants B) i = Some t \<Longrightarrow> ended (te_status t)"
  shows "loop_inv P0 (clear_leftover i B) \<and> map_of (bx_tenants (clear_leftover i B)) i = None"
proof (cases "map_of (bx_tenants B) i")
  case (Some t)
  with inv e have g: "te_gpu t = None" by (auto dest: not_ended_inv)
  from Some obtain xs ys where u: "bx_tenants B = xs @ (i, t) # ys" "\<And>u. AList.update i u (bx_tenants B) = xs @ (i, u) # ys"
    by (rule update_split) blast
  with inv have fresh: "i \<notin> fst ` set xs" "i \<notin> fst ` set ys" by (auto simp: loop_inv_def)
  have away: "i \<notin> fst ` set zs \<Longrightarrow> filter (\<lambda>(k, _). i \<noteq> k) zs = zs" for zs :: "(string \<times> tenant) list"
    by (rule filter_True) force
  have "AList.delete i (xs @ (i, t) # ys) = xs @ ys"
    using away [OF fresh(1)] away [OF fresh(2)] by (simp add: AList.delete_eq)
  with inv u g fresh Some show ?thesis by (auto simp: clear_leftover_def drop_slice_def loop_inv_def map_of_eq_None_iff)
qed (simp add: clear_leftover_def inv)

lemma adopt_inv:
  assumes inv: "loop_inv P0 B" and s: "sized_slice P0 (at_slice a)"
  shows "loop_inv P0 (adopt L d until a B)"
proof (cases "is_serving B (dr_id d)")
  case True
  with inv show ?thesis by (simp add: adopt_def)
next
  case False
  define B1 where "B1 = clear_leftover (dr_id d) B"
  have "ended (te_status t)" if "map_of (bx_tenants B) (dr_id d) = Some t" for t
    using False that by (simp add: is_serving_def)
  then have B1: "loop_inv P0 B1" "map_of (bx_tenants B1) (dr_id d) = None"
    using clear_leftover_inv [OF inv, of "dr_id d"] by (simp_all add: B1_def)
  note adopt = adopt_def [of L d until a B, unfolded Let_def if_not_P [OF False], folded B1_def]
  show ?thesis
  proof (cases "slice_alloc (bx_pools B1) (at_slice a)")
    case None
    with B1 show ?thesis by (simp add: adopt)
  next
    case (Some hP)
    obtain h P where hP: "hP = (h, P)" by (cases hP)
    let ?t = "new_tenant L d until a h"
    have fr: "frame (bx_pools B1) P0" and so: "sound (bx_pools B1) (tenant_handles (bx_tenants B1) @ [])"
      using B1 by (simp_all add: loop_inv_def)
    obtain g c where rq: "request (bx_pools B1) g c = Some (h, P)"
      using sized_slice_request sized_slice_frame [OF fr] s Some hP by metis
    have "sound P (tenant_handles (bx_tenants B1) @ [h])" using sound_request [OF so rq] .
    moreover have "frame P P0" using frame_request [OF so [simplified] rq] fr by (rule frame_trans)
    ultimately have put: "loop_inv P0 (put_tenant (dr_id d) ?t (B1\<lparr>bx_pools := P\<rparr>))"
      using B1 by (auto simp: loop_inv_def update_fresh new_tenant_def map_of_eq_None_iff)
    have "loop_inv P0 (provision_tenant L (dr_id d) ?t (put_tenant (dr_id d) ?t (B1\<lparr>bx_pools := P\<rparr>)))"
      by (rule provision_tenant_inv [OF put]) (simp add: held_as_def)
    with Some hP put show ?thesis by (simp add: adopt)
  qed
qed

lemma try_claim_inv: "loop_inv P0 B \<Longrightarrow> sized_slice P0 (at_slice a) \<Longrightarrow> loop_inv P0 (try_claim L d a B)"
  by (auto simp: try_claim_def Let_def adopt_inv split: tx_result.splits)

lemma considered_sized:
  "loop_inv P0 B \<Longrightarrow> consider_claim (env_of L B) d h f = (Inr a, bk) \<Longrightarrow> sized_slice P0 (at_slice a)"
  using consider_claim_sized sized_slice_frame by (fastforce simp: loop_inv_def)

lemma resume_one_inv: "loop_inv P0 (fst S) \<Longrightarrow> loop_inv P0 (fst (resume_one L d S))"
  unfolding resume_one_def
  by (auto split: prod.splits sum.splits intro!: try_claim_inv dest: considered_sized)

lemma resumes_inv: "loop_inv P0 (fst S) \<Longrightarrow> loop_inv P0 (fst (foldl (\<lambda>S d. resume_one L d S) S ds))"
proof (induction ds arbitrary: S)
  case (Cons d ds)
  then show ?case using resume_one_inv [of P0 S L d] by simp
qed simp

lemma start_new_inv:
  "loop_inv P0 B \<Longrightarrow> loop_inv P0 (fst (start_new L ds n B)) \<and> list_all (\<lambda>j. sized_slice P0 (at_slice (snd j))) (snd (start_new L ds n B))"
proof (induction ds arbitrary: n B)
  case (Cons d ds)
  obtain r bk where c: "consider_claim (env_of L B) d False False = (r, bk)" by (cases "consider_claim (env_of L B) d False False")
  show ?case
  proof (cases r)
    case (Inl x)
    with Cons c show ?thesis by simp
  next
    case (Inr a)
    obtain B' jobs where j: "start_new L ds (Suc n) (B\<lparr>bx_backoffs := bk\<rparr>) = (B', jobs)"
      by (cases "start_new L ds (Suc n) (B\<lparr>bx_backoffs := bk\<rparr>)")
    with Inr Cons.IH [of "B\<lparr>bx_backoffs := bk\<rparr>" "Suc n"] Cons.prems c considered_sized [OF Cons.prems, of L d False False a bk]
    show ?thesis by simp
  qed
qed simp

lemma claim_sweep_inv:
  assumes "loop_inv P0 B"
  shows "loop_inv P0 (fst (claim_sweep L ledger B)) \<and> list_all (\<lambda>j. sized_slice P0 (at_slice (snd j))) (snd (claim_sweep L ledger B))"
proof -
  obtain own rest where p: "sweep_partition L B ledger = (own, rest)" by (cases "sweep_partition L B ledger")
  obtain B1 hold where f: "foldl (\<lambda>S d. resume_one L d S) (B, False) own = (B1, hold)"
    by (cases "foldl (\<lambda>S d. resume_one L d S) (B, False) own")
  have "loop_inv P0 B1" using resumes_inv [of P0 "(B, False)" L own] assms f by simp
  with assms p f start_new_inv [of P0 B1 L rest 0] show ?thesis by (simp add: claim_sweep_def)
qed

section \<open>The life of the loop\<close>

text \<open>
  The passes of the two clocks and the background claims, in any order, under any answers. Claims that
  a sweep started are pending jobs; each runs once, whenever it gets its turn.
\<close>

type_synonym loop_state = "box \<times> (dep_row \<times> attempt) list"

inductive loop_reachable :: "pools \<Rightarrow> loop_state \<Rightarrow> bool" for P0 where
  loop_start: "loop_reachable P0 (\<lparr>bx_pools = P0, bx_tenants = [], bx_backoffs = [], bx_sent = []\<rparr>, [])"
| loop_sweep: "loop_reachable P0 (B, jobs) \<Longrightarrow> claim_sweep L ledger B = (B', new) \<Longrightarrow> loop_reachable P0 (B', jobs @ new)"
| loop_job: "loop_reachable P0 (B, js @ (d, a) # ks) \<Longrightarrow> loop_reachable P0 (try_claim L d a B, js @ ks)"
| loop_renew: "loop_reachable P0 (B, jobs) \<Longrightarrow> loop_reachable P0 (renew_leases L B, jobs)"
| loop_audit: "loop_reachable P0 (B, jobs) \<Longrightarrow> loop_reachable P0 (audit_claims L ledger' B, jobs)"
| loop_move: "loop_reachable P0 (B, jobs) \<Longrightarrow> loop_reachable P0 (ledger_move_sweep L B, jobs)"
| loop_yank: "loop_reachable P0 (B, jobs) \<Longrightarrow> loop_reachable P0 (yank_sweep L B, jobs)"
| loop_reach: "loop_reachable P0 (B, jobs) \<Longrightarrow> loop_reachable P0 (snd (reach_tick n verdicts st B), jobs)"

inductive_cases loop_reachable_cases: "loop_reachable P0 S"

lemma loop_reachable_inv:
  assumes "loop_reachable P0 S" "sound P0 []"
  shows "loop_inv P0 (fst S) \<and> list_all (\<lambda>j. sized_slice P0 (at_slice (snd j))) (snd S)"
  using assms(1)
proof (induction rule: loop_reachable.induct)
  case loop_start
  with assms(2) show ?case by (simp add: loop_inv_def frame_refl)
next
  case (loop_sweep B jobs L ledger B' new)
  then show ?case using claim_sweep_inv [of P0 B L ledger] by simp
next
  case (loop_job B js d a ks L)
  then show ?case by (simp add: try_claim_inv)
qed (simp_all add: renew_leases_inv audit_claims_inv ledger_move_inv yank_sweep_inv reach_tick_inv)



section \<open>Demonstration\<close>

definition demo_fresh :: pools where
  "demo_fresh = fresh_pools 10 1"

definition demo_idle :: box where
  "demo_idle = \<lparr>bx_pools = demo_fresh, bx_tenants = [], bx_backoffs = [], bx_sent = []\<rparr>"

definition demo_loop :: loop_env where
  "demo_loop = \<lparr>le_claim = demo_claim_env (demo_fresh), le_operator = ''0xf'', le_ledger = ''0x1'', le_backend = True, le_bond = True,
     le_open = (\<lambda>_. True), le_claimTx = (\<lambda>_. Leased 3000), le_renewTx = (\<lambda>_. TxFailed), le_overCap = (\<lambda>_. False),
     le_prefetch = (\<lambda>_. True), le_provision = (\<lambda>_. True), le_error = (\<lambda>_. []), le_alive = (\<lambda>_. True),
     le_stops = (\<lambda>_. True), le_marginSec = 600, le_maxPerSweep = 3\<rparr>"

lemma demo_env: "env_of demo_loop demo_idle = demo_claim_env (demo_fresh)"
  by (simp add: env_of_def demo_loop_def demo_idle_def demo_claim_env_def)

lemma demo_fresh_record: "demo_fresh = demo_pools\<lparr>pl_cpuFree := 1\<rparr>"
  by (simp add: demo_fresh_def demo_pools_def fresh_pools_def)

lemma demo_fresh_slice:
  "row_on_card (demo_claim_env demo_fresh) demo_row demo_app = Some True"
  "card_slice (demo_claim_env demo_fresh) demo_row = Inr (GpuSlice 5 (1 / 2) (1 / 10))"
  "\<not> below_minimum (row_mins (demo_claim_env demo_fresh) demo_row demo_app) True (share_milli 500) (share_milli 100)"
proof -
  have box: "box_of (demo_claim_env demo_fresh) = box_of (demo_claim_env demo_pools)"
    by (simp add: box_of_def demo_claim_env_def demo_fresh_record)
  then have mins: "row_mins (demo_claim_env demo_fresh) demo_row demo_app = row_mins (demo_claim_env demo_pools) demo_row demo_app"
    by (simp add: row_mins_def Let_def demo_volumes)
  show "row_on_card (demo_claim_env demo_fresh) demo_row demo_app = Some True"
    using demo_on_card unfolding row_on_card_def box mins .
  show "\<not> below_minimum (row_mins (demo_claim_env demo_fresh) demo_row demo_app) True (share_milli 500) (share_milli 100)"
    using demo_minimum by (simp add: mins)
  have req: "normalize_gpu_req demo_fresh g c = normalize_gpu_req demo_pools g c" for g c
    by (simp add: normalize_gpu_req_def demo_fresh_record demo_pools_def fresh_pools_def)
  have "max_free_vram demo_fresh = max_free_vram demo_pools" "pl_pool demo_fresh = None"
    by (simp_all add: max_free_vram_def ctx_overhead_def demo_fresh_record demo_pools_def fresh_pools_def)
  moreover have "max_free_cpu demo_pools \<le> max_free_cpu demo_fresh" "pl_pool demo_pools = None"
    by (simp_all add: max_free_cpu_def demo_fresh_record demo_pools_def fresh_pools_def)
  moreover note demo_slice
  ultimately show "card_slice (demo_claim_env demo_fresh) demo_row = Inr (GpuSlice 5 (1 / 2) (1 / 10))"
    by (auto simp: card_slice_def demo_claim_env_def req reject_if_def split: prod.splits if_splits)
qed

lemma demo_fresh_claim: "consider_claim (demo_claim_env (demo_fresh)) demo_row False False = (Inr demo_attempt, [])"
proof -
  have "dr_gpuMilli demo_row = 500" "dr_cpuMilli demo_row = 100" by (simp_all add: demo_row_def)
  with demo_fresh_slice demo_can demo_final
  have "sized_checks (demo_claim_env (demo_fresh)) demo_row False demo_app True = Inr demo_attempt"
    by (simp add: sized_checks_def reject_if_def)
  then have "late_checks (demo_claim_env (demo_fresh)) demo_row False = Inr demo_attempt"
    using demo_app_gate demo_fresh_slice(1)
    by (simp add: late_checks_def evacuated_def demo_claim_env_def) (simp add: demo_row_def)
  then show ?thesis by (simp add: consider_claim_def demo_early demo_backoff)
qed

lemma demo_sweep: "claim_sweep demo_loop [demo_row] demo_idle = (demo_idle, [(demo_row, demo_attempt)])"
proof -
  have "\<not> own_row demo_loop demo_idle demo_row" by (simp add: own_row_def demo_loop_def demo_claim_env_def demo_row_def)
  moreover have "\<not> pressed demo_loop demo_idle" by (simp add: pressed_def demo_idle_def)
  moreover have "le_backend demo_loop" "le_maxPerSweep demo_loop = 3" by (simp_all add: demo_loop_def)
  moreover have "demo_idle\<lparr>bx_backoffs := []\<rparr> = demo_idle" by (simp add: demo_idle_def)
  ultimately show ?thesis
    by (simp add: claim_sweep_def sweep_partition_def demo_env demo_fresh_claim)
qed

lemma demo_reached: "loop_reachable (demo_fresh) (try_claim demo_loop demo_row demo_attempt demo_idle, [])"
proof -
  have "loop_reachable (demo_fresh) (demo_idle, [])" unfolding demo_idle_def by (rule loop_start)
  from loop_sweep [OF this demo_sweep]
  have "loop_reachable (demo_fresh) (demo_idle, [] @ (demo_row, demo_attempt) # [])" by simp
  from loop_job [OF this] show ?thesis by simp
qed

lemma demo_adopted: "map (\<lambda>x. (fst x, te_status (snd x))) (bx_tenants (try_claim demo_loop demo_row demo_attempt demo_idle)) = [(''0xd'', ''running'')]"
proof -
  have "slice_alloc demo_fresh (GpuSlice 5 (1 / 2) (1 / 10)) \<noteq> None"
    unfolding demo_fresh_def fresh_pools_def by code_simp
  then obtain h P where a: "slice_alloc demo_fresh (GpuSlice 5 (1 / 2) (1 / 10)) = Some (h, P)" by auto
  have t: "map_of (bx_tenants demo_idle) i = None" "bx_pools demo_idle = demo_fresh" "bx_tenants demo_idle = []" for i
    by (simp_all add: demo_idle_def)
  have d: "dr_id demo_row = ''0xd''" "at_slice demo_attempt = GpuSlice 5 (1 / 2) (1 / 10)" "\<not> at_resume demo_attempt"
    by (simp_all add: demo_row_def demo_attempt_def)
  show ?thesis
    by (simp add: try_claim_def d demo_loop_def adopt_def is_serving_def clear_leftover_def t a provision_tenant_def
        put_tenant_def send_def new_tenant_def Let_def)
qed


end
