(* ===== verification/Claim_Rules.thy ===== *)
theory Claim_Rules
  imports Claim_Safety
begin

text \<open>
  Rules of the claim loop (\<open>supervisor.js\<close>): own leases come before new work, a lease is given up only
  after two readings, an app that keeps dying is handed back, and what a version switch does to an
  envelope edited at the same time.
\<close>

lemma map_of_put_tenant [simp]:
  "map_of (bx_tenants (put_tenant i t B)) j = (if j = i then Some t else map_of (bx_tenants B) j)"
  by (simp add: put_tenant_def update_conv')

lemma drop_slice_record [simp]:
  "map_of (bx_tenants (drop_slice i t B)) j = (if j = i then Some (t\<lparr>te_gpu := None\<rparr>) else map_of (bx_tenants B) j)"
  by (cases t) (auto simp: drop_slice_def split: option.splits)

lemma send_tenants [simp]: "bx_tenants (send c B) = bx_tenants B" "bx_sent (send c B) = bx_sent B @ [c]"
  by (simp_all add: send_def)

lemma note_failure_tenants [simp]:
  "bx_tenants (note_failure L i ref st w cid B) = bx_tenants B" "bx_sent (note_failure L i ref st w cid B) = bx_sent B"
  by (simp_all add: note_failure_def)

section \<open>An app that keeps dying\<close>

text \<open>One reading of the alive check by the audit, and its repetition.\<close>

definition alive_pass :: "loop_env \<Rightarrow> string \<Rightarrow> box \<Rightarrow> box" where
  "alive_pass L i B = (case map_of (bx_tenants B) i of Some t \<Rightarrow> audit_alive L i t B | None \<Rightarrow> B)"

definition handed_back :: "string \<Rightarrow> box \<Rightarrow> bool" where
  "handed_back i B \<longleftrightarrow> (case map_of (bx_tenants B) i of
     Some t \<Rightarrow> te_status t = ''failed'' \<and> te_gpu t = None \<and> SendRelease i \<in> set (bx_sent B) | None \<Rightarrow> False)"

lemma handed_back_stays: "handed_back i B \<Longrightarrow> handed_back i (alive_pass L i B)"
  by (auto simp: handed_back_def alive_pass_def audit_alive_def put_tenant_def update_conv' split: option.splits)

lemma death_hands_back_or_counts:
  assumes "map_of (bx_tenants B) i = Some t" "te_status t = ''running''" "\<not> le_alive L i"
  shows "handed_back i (alive_pass L i B) \<or>
    (te_deaths t < 3 \<and> (\<exists>t'. map_of (bx_tenants (alive_pass L i B)) i = Some t' \<and> te_status t' = ''running'' \<and> te_deaths t' = Suc (te_deaths t)))"
  using assms
  by (auto simp: handed_back_def alive_pass_def audit_alive_def relaunch_def provision_tenant_def end_tenant_def Let_def)

text \<open>
  C36: An application that is dead at every audit is relaunched at most three times: after four audits,
  fewer if it has died before, its record has failed, it holds no slice and the lease was handed back,
  whatever its relaunches answer, and it stays so.
\<close>

theorem dying_app_is_handed_back:
  assumes "map_of (bx_tenants B) i = Some t" "te_status t = ''running''" "\<not> le_alive L i"
    and "4 - te_deaths t \<le> n" "0 < n"
  shows "handed_back i ((alive_pass L i ^^ n) B)"
  using assms
proof (induction n arbitrary: B t)
  case (Suc n)
  have stays: "handed_back i ((alive_pass L i ^^ m) B')" if "handed_back i B'" for m B'
    using that by (induction m) (simp_all add: handed_back_stays)
  from death_hands_back_or_counts [OF Suc.prems(1-3)] show ?case
  proof
    assume "handed_back i (alive_pass L i B)"
    from stays [OF this, of n] show ?thesis by (simp add: funpow_swap1)
  next
    assume "te_deaths t < 3 \<and> (\<exists>t'. map_of (bx_tenants (alive_pass L i B)) i = Some t' \<and> te_status t' = ''running''
      \<and> te_deaths t' = Suc (te_deaths t))"
    then obtain t' where "te_deaths t < 3" "map_of (bx_tenants (alive_pass L i B)) i = Some t'" "te_status t' = ''running''"
      "te_deaths t' = Suc (te_deaths t)" by blast
    with Suc.IH [OF this(2,3) Suc.prems(3)] Suc.prems(4) show ?thesis by (simp add: funpow_swap1)
  qed
qed simp

section \<open>A lost lease\<close>

text \<open>
  One reading of the ledger that does not show our lease never tears a serving tenant down: without an
  earlier strike the record keeps its status and its slice and nothing is released.
\<close>

lemma one_reading_never_tears_down:
  assumes "map_of (bx_tenants B) i = Some t" "te_strikes t = 0"
    and "map_of ledger (to_lower i) = Some d" "dr_active d"
    and "\<not> (dr_runner d = ce_enclaveId (le_claim L) \<and> now_ms L < dr_leaseUntil d * 1000)"
  shows "\<exists>t'. map_of (bx_tenants (audit_one L ledger i t B)) i = Some t' \<and> te_status t' = te_status t \<and> te_gpu t' = te_gpu t"
    and "bx_pools (audit_one L ledger i t B) = bx_pools B"
    and "SendRelease i \<in> set (bx_sent (audit_one L ledger i t B)) \<Longrightarrow> SendRelease i \<in> set (bx_sent B)"
  using assms
  by (auto simp: audit_one_def audit_lost_def mirror_row_def put_tenant_def update_conv' send_def Let_def
      split: option.splits if_splits)

text \<open>A second one in a row does, unless the lapsed lease can be taken again in place.\<close>

lemma second_reading_tears_down:
  assumes "map_of (bx_tenants B) i = Some t" "te_strikes t = 1" "te_onchain t" "live_status (te_status t)" "\<not> te_busy t"
    and "map_of ledger (to_lower i) = Some d" "dr_active d"
    and "\<not> (dr_runner d = ce_enclaveId (le_claim L) \<and> now_ms L < dr_leaseUntil d * 1000)" "leased (le_claimTx L i) = None"
  shows "\<exists>t'. map_of (bx_tenants (audit_one L ledger i t B)) i = Some t' \<and> te_status t' = ''expired'' \<and> te_gpu t' = None"
  using assms by (auto simp: audit_one_def audit_lost_def mirror_row_def end_tenant_def Let_def split: option.splits if_splits)

section \<open>The order of a sweep\<close>

lemma hold_sticks: "snd S \<Longrightarrow> snd (foldl (\<lambda>S d. resume_one L d S) S ds)"
proof (induction ds arbitrary: S)
  case (Cons d ds)
  then have "snd (resume_one L d S)" by (auto simp: resume_one_def split: prod.splits sum.splits)
  from Cons.IH [OF this] show ?case by simp
qed simp

lemma unheld_resumed:
  "\<not> snd (foldl (\<lambda>S d. resume_one L d S) S ds) \<Longrightarrow> k < length ds \<Longrightarrow>
   \<exists>a bk. consider_claim (env_of L (fst (foldl (\<lambda>S d. resume_one L d S) S (take k ds)))) (ds ! k) False False = (Inr a, bk)"
proof (induction ds arbitrary: S k)
  case (Cons d ds)
  show ?case
  proof (cases k)
    case 0
    have "\<not> snd (resume_one L d S)" using Cons.prems(1) hold_sticks [of "resume_one L d S"] by auto
    with 0 show ?thesis by (auto simp: resume_one_def split: prod.splits sum.splits)
  next
    case (Suc k')
    with Cons show ?thesis by simp
  qed
qed simp

lemma start_new_jobs:
  "start_new L ds started B = (B', jobs) \<Longrightarrow> started + length jobs \<le> max started (le_maxPerSweep L)
     \<and> subseq (map fst jobs) ds"
proof (induction ds arbitrary: started B B' jobs)
  case (Cons d ds)
  then show ?case
    by (cases "consider_claim (env_of L B) d False False")
      (fastforce split: if_splits sum.splits prod.splits)
qed simp


section \<open>A version switch and the envelope\<close>

text \<open>
  A successful switch stamps the record with the new envelope but applies only its configuration: the
  filter rules stay those of the old envelope, and the envelope watch sees nothing left to do.
\<close>

lemma switch_loses_filter_edit:
  assumes "switch_gate L d t B = Inr (g, fw)" "row_options d = Inr o'"
    and "share_resize_verdict (te_status t) (te_shares t) (dr_gpuMilli d) (dr_cpuMilli d) \<noteq> ResizeNow"
    and "le_provision L i"
  shows "\<exists>t'. map_of (bx_tenants (switch_version L d i t B)) i = Some t' \<and> te_status t' = ''running'' \<and> te_waf t' = te_waf t
     \<and> envelope_edit_verdict (te_onchain t') True (te_envelope t') (dr_configCid d) = EditSkip"
  using assms by (simp add: switch_version_def relaunch_def provision_tenant_def Let_def envelope_edit_verdict_def)

section \<open>Demonstration\<close>

definition demo_dead :: loop_env where
  "demo_dead = demo_loop\<lparr>le_alive := \<lambda>_. False\<rparr>"

definition demo_dying :: box where
  "demo_dying = put_tenant ''0xd'' ((new_tenant demo_loop demo_row 3000 demo_attempt (CpuHandle (1 / 10)))\<lparr>te_status := ''running''\<rparr>) demo_idle"

theorem dying_app_is_handed_back_witness:
  "handed_back ''0xd'' ((alive_pass demo_dead ''0xd'' ^^ 4) demo_dying)"
  by (rule dying_app_is_handed_back [of _ _ "(new_tenant demo_loop demo_row 3000 demo_attempt (CpuHandle (1 / 10)))\<lparr>te_status := ''running''\<rparr>"])
    (simp_all add: demo_dying_def demo_dead_def new_tenant_def)


end
