(* ===== verification/Share_Pricing.thy ===== *)
theory Share_Pricing
  imports Claim_Gate "HOL-Library.Multiset"
begin

text \<open>
  The console's share arithmetic (\<open>site/js/core/pricing.js\<close>): posted prices, the hardware the dials divide
  by, minimum shares, what a row of the fleet table is, and the ranking of the enclaves that could host an
  app. A number of a payload is a field that may be absent or unreadable; the two values the module keeps
  between calls, the adopted price and hardware, are passed and returned.
\<close>

section \<open>Payloads\<close>

datatype num_field = Absent | Junk | Num rat

record shielded_card =
  sc_id :: string
  sc_vramGb :: rat
  sc_vramBudgetGb :: rat
  sc_vramFreeGb :: rat
  sc_vramReservedGb :: num_field
  sc_pooled :: bool

record avail =
  al_gpu :: bool
  al_claimEnabled :: "bool option"
  al_askGpu6 :: num_field
  al_askCpu6 :: num_field
  al_askShielded6 :: num_field
  al_cheapestGpu6 :: num_field
  al_cheapestCpu6 :: num_field
  al_cardVramGb :: num_field
  al_cardTflops :: num_field
  al_nodeVcpus :: num_field
  al_nodeRamGb :: num_field
  al_nodeGflops :: num_field
  al_specCardVramGb :: num_field
  al_specCardTflops :: num_field
  al_specNodeVcpus :: num_field
  al_specNodeRamGb :: num_field
  al_specNodeGflops :: num_field
  al_volumes :: "volume_row list"
  al_gpuShareFree :: num_field
  al_cpuShareFree :: num_field
  al_shielded :: "shielded_card option"
  al_shieldedCards :: "(string \<times> num_field) list"
  al_teeCpu :: string

record fleet_row =
  fr_id :: string
  fr_name :: string
  fr_endpoint :: string
  fr_tunnel :: bool
  fr_mode :: string
  fr_serving :: "bool option"
  fr_payout :: string
  fr_availability :: "avail option"

text \<open>\<open>Number\<close> of a field where the code then takes only a positive finite value.\<close>

definition positive_of :: "num_field \<Rightarrow> rat option" where
  "positive_of f = (case f of Num v \<Rightarrow> if 0 < v then Some v else None | _ \<Rightarrow> None)"

definition nullish :: "num_field \<Rightarrow> num_field \<Rightarrow> num_field" where
  "nullish a b = (if a = Absent then b else a)"

section \<open>Posted prices\<close>

record price =
  pr_full :: rat
  pr_node :: rat

definition FALLBACK_FULL_RATE :: rat where "FALLBACK_FULL_RATE = 16667 / 10000000"
definition FALLBACK_CPU_NODE_RATE :: rat where "FALLBACK_CPU_NODE_RATE = 834 / 1000000"

definition fleet_price :: "price option \<Rightarrow> price" where
  "fleet_price P = (case P of Some p \<Rightarrow> p | None \<Rightarrow> \<lparr>pr_full = FALLBACK_FULL_RATE, pr_node = FALLBACK_CPU_NODE_RATE\<rparr>)"

definition per_sec :: "num_field \<Rightarrow> rat" where
  "per_sec f = (case positive_of f of Some v \<Rightarrow> v / 1000000 | None \<Rightarrow> 0)"

definition adopt_fleet_price :: "price option \<Rightarrow> avail option \<Rightarrow> price option \<times> bool" where
  "adopt_fleet_price P payload =
     (case payload of
        None \<Rightarrow> (P, False)
      | Some a \<Rightarrow>
          (let full = per_sec (nullish (al_cheapestGpu6 a) (al_askGpu6 a));
               node = per_sec (nullish (al_cheapestCpu6 a) (al_askCpu6 a));
               old = (case P of Some p \<Rightarrow> if pr_full p \<noteq> 0 then pr_full p else FALLBACK_FULL_RATE | None \<Rightarrow> FALLBACK_FULL_RATE);
               new = \<lparr>pr_full = (if full \<noteq> 0 then full else old), pr_node = node\<rparr>
           in if node = 0 then (P, False) else (Some new, P \<noteq> Some new)))"

text \<open>The ledger's waiver as the console mirrors it: the row's own declared wallet against the owner.\<close>

definition is_address :: "string \<Rightarrow> bool" where
  "is_address a \<longleftrightarrow> length a = 42 \<and> prefix ''0x'' a
     \<and> list_all (\<lambda>c. is_digit c \<or> c \<in> set ''abcdef'') (drop 2 a) \<and> \<not> list_all (\<lambda>c. c = CHR ''0'') (drop 2 a)"

definition host_waives :: "fleet_row \<Rightarrow> string \<Rightarrow> bool" where
  "host_waives row owner \<longleftrightarrow> is_address (to_lower owner) \<and> to_lower (fr_payout row) = to_lower owner"

definition free_enclaves_for :: "string \<Rightarrow> fleet_row list \<Rightarrow> fleet_row list" where
  "free_enclaves_for address rows = filter (\<lambda>e. fr_serving e \<noteq> Some False \<and> host_waives e address) rows"

section \<open>Hardware\<close>

record server_spec =
  sp_cardVramGb :: rat
  sp_cardTflops :: rat
  sp_nodeVcpus :: rat
  sp_nodeRamGb :: rat
  sp_nodeGflops :: rat

definition FALLBACK_SPEC :: server_spec where
  "FALLBACK_SPEC = \<lparr>sp_cardVramGb = 1404 / 10, sp_cardTflops = 989, sp_nodeVcpus = 16, sp_nodeRamGb = 64, sp_nodeGflops = 1000\<rparr>"

definition server_spec_of :: "server_spec option \<Rightarrow> server_spec" where
  "server_spec_of live = (case live of Some s \<Rightarrow> s | None \<Rightarrow> FALLBACK_SPEC)"

definition adopt_axis :: "num_field \<Rightarrow> num_field \<Rightarrow> rat \<Rightarrow> rat" where
  "adopt_axis spec key cur = (case positive_of (nullish spec key) of Some v \<Rightarrow> v | None \<Rightarrow> cur)"

definition adopt_server_spec :: "server_spec option \<Rightarrow> avail option \<Rightarrow> server_spec option \<times> bool" where
  "adopt_server_spec live payload =
     (case payload of
        None \<Rightarrow> (live, False)
      | Some a \<Rightarrow>
          (let s = server_spec_of live;
               new = \<lparr>sp_cardVramGb = adopt_axis (al_specCardVramGb a) (al_cardVramGb a) (sp_cardVramGb s),
                      sp_cardTflops = adopt_axis (al_specCardTflops a) (al_cardTflops a) (sp_cardTflops s),
                      sp_nodeVcpus = adopt_axis (al_specNodeVcpus a) (al_nodeVcpus a) (sp_nodeVcpus s),
                      sp_nodeRamGb = adopt_axis (al_specNodeRamGb a) (al_nodeRamGb a) (sp_nodeRamGb s),
                      sp_nodeGflops = adopt_axis (al_specNodeGflops a) (al_nodeGflops a) (sp_nodeGflops s)\<rparr>
           in if new \<noteq> s \<or> live = None then (Some new, True) else (live, False)))"

definition enclave_spec_of :: "fleet_row \<Rightarrow> server_spec" where
  "enclave_spec_of row =
     (case fr_availability row of
        None \<Rightarrow> FALLBACK_SPEC
      | Some a \<Rightarrow>
          \<lparr>sp_cardVramGb = adopt_axis Absent (al_cardVramGb a) (sp_cardVramGb FALLBACK_SPEC),
           sp_cardTflops = adopt_axis Absent (al_cardTflops a) (sp_cardTflops FALLBACK_SPEC),
           sp_nodeVcpus = adopt_axis Absent (al_nodeVcpus a) (sp_nodeVcpus FALLBACK_SPEC),
           sp_nodeRamGb = adopt_axis Absent (al_nodeRamGb a) (sp_nodeRamGb FALLBACK_SPEC),
           sp_nodeGflops = adopt_axis Absent (al_nodeGflops a) (sp_nodeGflops FALLBACK_SPEC)\<rparr>)"

section \<open>Minimum shares\<close>

text \<open>An app as the console sizes it: the version's axes and volumes, the deployment's own softening.\<close>

record app_need =
  an_min :: min_spec
  an_volumes :: "volume_row list"
  an_depOptional :: bool
  an_gpuMilli :: int

record min_pcts =
  mp_gpu :: int
  mp_need :: int
  mp_cpu :: int

definition console_pct :: "rat \<Rightarrow> int" where
  "console_pct x = max MIN_COMPUTE_PCT \<lceil>x * 100 - 1 / 1000000000\<rceil>"

definition volume_text :: "volume_row \<Rightarrow> string" where
  "volume_text x = (case x of SizedVolume n b \<Rightarrow> if n = [] then ''[object Object]'' else n | BareVolume n \<Rightarrow> n)"

definition vol_gb_of :: "avail \<Rightarrow> string list \<Rightarrow> rat" where
  "vol_gb_of a want =
     (let rows = rev (List.map_filter row_size (al_volumes a))
      in sum_list (map (\<lambda>n. case map_of rows n of Some b \<Rightarrow> b | None \<Rightarrow> 0) want) / 1000000000)"

fun first_uses :: "'a list \<Rightarrow> 'a list \<Rightarrow> 'a list" where
  "first_uses [] seen = []"
| "first_uses (x # xs) seen = (if x \<in> set seen then first_uses xs seen else x # first_uses xs (x # seen))"

definition vols_wanted :: "app_need \<Rightarrow> string list" where
  "vols_wanted v = first_uses (filter (\<lambda>n. n \<noteq> []) (map volume_text (an_volumes v))) []"

definition volumes_of_config :: "json option \<Rightarrow> string list" where
  "volumes_of_config cfg = first_uses (filter (\<lambda>n. n \<noteq> []) (volumes_in_config cfg)) []"

definition has_volumes :: "avail \<Rightarrow> string list \<Rightarrow> bool" where
  "has_volumes a want \<longleftrightarrow> want = [] \<or> list_all (\<lambda>n. n \<in> set (map volume_text (al_volumes a))) want"

definition min_pcts_of :: "min_spec \<Rightarrow> server_spec \<Rightarrow> rat \<Rightarrow> min_pcts" where
  "min_pcts_of m s volGb =
     (let vol = max 0 volGb;
          cpu = (if 0 < ms_memMb m \<or> 0 < ms_cpuGflops m
                 then console_pct (max (ms_memMb m / (sp_nodeRamGb s * 1024)) (ms_cpuGflops m / sp_nodeGflops s)) else 1);
          vramGb = (if 0 < ms_vramMb m then max (ms_vramMb m / 1024) vol else 0);
          need = (if 0 < vramGb \<or> 0 < ms_gpuGflops m
                  then console_pct (max (vramGb / sp_cardVramGb s) (ms_gpuGflops m / 1000 / sp_cardTflops s)) else 0)
      in \<lparr>mp_gpu = (if ms_gpuOptional m then 0 else need), mp_need = need, mp_cpu = cpu\<rparr>)"

definition SPLIT_SHARES_REV :: int where "SPLIT_SHARES_REV = 13"

definition lift_shares_for_ledger :: "int \<times> int \<Rightarrow> int \<Rightarrow> int \<times> int" where
  "lift_shares_for_ledger s ledgerRev = (if SPLIT_SHARES_REV \<le> ledgerRev \<or> \<not> 0 < fst s \<or> snd s \<le> fst s then s else (snd s, snd s))"

definition shares_legal_on :: "int \<Rightarrow> int \<Rightarrow> int \<Rightarrow> bool" where
  "shares_legal_on gpuPct cpuPct ledgerRev \<longleftrightarrow> SPLIT_SHARES_REV \<le> ledgerRev \<or> \<not> 0 < gpuPct \<or> cpuPct \<le> gpuPct"

definition wanted_gpu_pct :: "min_spec \<Rightarrow> server_spec \<Rightarrow> int" where
  "wanted_gpu_pct m s =
     (if \<not> ms_gpuOptional m \<or> (ms_vramMb m \<le> 0 \<and> ms_gpuGflops m \<le> 0) then 0
      else console_pct (max (ms_vramMb m / 1024 / sp_cardVramGb s) (ms_gpuGflops m / 1000 / sp_cardTflops s)))"

definition start_shares_for :: "min_spec \<Rightarrow> server_spec \<Rightarrow> rat \<Rightarrow> int \<times> int" where
  "start_shares_for m s cap =
     (let mins = min_pcts_of m s 0; w = wanted_gpu_pct m s;
          want = (if 0 < cap then min w \<lfloor>cap\<rfloor> else w)
      in (if mp_gpu mins < want then want else mp_gpu mins, mp_cpu mins))"

record share_buy =
  sb_rate :: rat
  sb_gpuPct :: int
  sb_cpuPct :: int
  sb_vramGb :: rat
  sb_tflops :: rat
  sb_ramGb :: rat
  sb_vcpus :: rat
  sb_gflops :: rat

definition share_rates :: "rat \<Rightarrow> rat \<Rightarrow> server_spec \<Rightarrow> price \<Rightarrow> share_buy" where
  "share_rates gpuPct cpuPct s p =
     (let g = min 100 (max 0 \<lfloor>gpuPct + 1 / 2\<rfloor>); c = min 100 (max MIN_COMPUTE_PCT \<lfloor>cpuPct + 1 / 2\<rfloor>);
          gs = of_int g / 100; cs = of_int c / 100
      in \<lparr>sb_rate = gs * pr_full p + cs * pr_node p, sb_gpuPct = g, sb_cpuPct = c, sb_vramGb = gs * sp_cardVramGb s,
          sb_tflops = gs * sp_cardTflops s, sb_ramGb = cs * sp_nodeRamGb s, sb_vcpus = cs * sp_nodeVcpus s,
          sb_gflops = cs * sp_nodeGflops s\<rparr>)"

section \<open>Rows of the fleet table\<close>

definition enclave_price_of :: "price option \<Rightarrow> fleet_row \<Rightarrow> price \<times> rat option" where
  "enclave_price_of P row =
     (let f = fleet_price P;
          per = (\<lambda>x. map_option (\<lambda>v. v / 1000000) (positive_of x))
      in case fr_availability row of
           None \<Rightarrow> (f, None)
         | Some a \<Rightarrow>
             (\<lparr>pr_full = (case per (al_askGpu6 a) of Some v \<Rightarrow> v | None \<Rightarrow> pr_full f),
               pr_node = (case per (al_askCpu6 a) of Some v \<Rightarrow> v | None \<Rightarrow> pr_node f)\<rparr>,
              per (al_askShielded6 a)))"

datatype box_kind = ShieldedGpu | TeeGpu | CpuOnly

definition enclave_class_of :: "fleet_row \<Rightarrow> box_kind" where
  "enclave_class_of row =
     (case fr_availability row of
        None \<Rightarrow> CpuOnly
      | Some a \<Rightarrow>
          if (case al_shielded a of Some sh \<Rightarrow> 0 < sc_vramGb sh | None \<Rightarrow> False) then ShieldedGpu
          else if al_gpu a then TeeGpu else CpuOnly)"

primrec card_in_tee :: "box_kind \<Rightarrow> bool" where
  "card_in_tee ShieldedGpu = False"
| "card_in_tee TeeGpu = True"
| "card_in_tee CpuOnly = False"

definition CPU_TEE_TECHNOLOGIES :: "(string \<times> string) list" where
  "CPU_TEE_TECHNOLOGIES = [(''amd-sev-snp'', ''AMD SEV-SNP''), (''intel-tdx'', ''Intel TDX''),
     (''android-avf-pvm'', ''Android protected VM'')]"

datatype tee_source = FromAttestation | FromRelay

record tee_verdict =
  tv_real :: bool
  tv_known :: bool
  tv_technology :: "string option"
  tv_source :: "tee_source option"

definition tee_cpu_of :: "fleet_row \<Rightarrow> tee_verdict" where
  "tee_cpu_of row =
     (let tech = (case fr_availability row of Some a \<Rightarrow> if al_teeCpu a = [] then None else Some (al_teeCpu a) | None \<Rightarrow> None);
          known = (\<lambda>r t src. \<lparr>tv_real = r, tv_known = True, tv_technology = Some t, tv_source = Some src\<rparr>)
      in case tech of
           Some t \<Rightarrow>
             if map_of CPU_TEE_TECHNOLOGIES t \<noteq> None then known True t FromAttestation
             else if fr_tunnel row \<and> fr_mode row = ''snp'' then known True ''amd-sev-snp'' FromRelay
             else if fr_tunnel row \<and> fr_mode row = ''avf'' then known True ''android-avf-pvm'' FromRelay
             else known False t FromAttestation
         | None \<Rightarrow>
             if fr_tunnel row \<and> fr_mode row = ''snp'' then known True ''amd-sev-snp'' FromRelay
             else if fr_tunnel row \<and> fr_mode row = ''avf'' then known True ''android-avf-pvm'' FromRelay
             else \<lparr>tv_real = False, tv_known = False, tv_technology = None, tv_source = None\<rparr>)"

record shielded_pool =
  sl_total :: rat
  sl_freeGb :: rat
  sl_reservedGb :: rat
  sl_vramFrac :: rat
  sl_frac :: rat
  sl_leasableGb :: rat

definition unit_clamp :: "rat \<Rightarrow> rat" where
  "unit_clamp v = max 0 (min 1 v)"

text \<open>A pooled card, or a row without a card list, is read at the row's own free share.\<close>

definition lease_field :: "avail \<Rightarrow> shielded_card \<Rightarrow> num_field" where
  "lease_field a sh =
     (if sc_pooled sh then al_gpuShareFree a
      else case map_of (al_shieldedCards a) (sc_id sh) of Some f \<Rightarrow> f | None \<Rightarrow> al_gpuShareFree a)"

definition shielded_pool_of :: "fleet_row \<Rightarrow> shielded_pool option" where
  "shielded_pool_of row =
     (case Option.bind (fr_availability row) (\<lambda>a. map_option (Pair a) (al_shielded a)) of
        None \<Rightarrow> None
      | Some (a, sh) \<Rightarrow>
          if \<not> 0 < sc_vramGb sh then None
          else (let total = (if 0 < sc_vramBudgetGb sh then sc_vramBudgetGb sh else sc_vramGb sh);
                    freeGb = min (sc_vramFreeGb sh) total;
                    reserved = (case sc_vramReservedGb sh of Num r \<Rightarrow> max 0 (min total r) | _ \<Rightarrow> 0);
                    vramFrac = (if 0 < total then unit_clamp (freeGb / total) else 0);
                    frac = (case lease_field a sh of Num l \<Rightarrow> unit_clamp l | _ \<Rightarrow> vramFrac)
                in Some \<lparr>sl_total = total, sl_freeGb = freeGb, sl_reservedGb = reserved, sl_vramFrac = vramFrac,
                         sl_frac = frac, sl_leasableGb = total * frac\<rparr>))"

definition strip_scheme :: "string \<Rightarrow> string" where
  "strip_scheme e =
     (let w = takeWhile (\<lambda>c. c \<in> set ''abcdefghijklmnopqrstuvwxyz'') e
      in if w \<noteq> [] \<and> prefix ''://'' (drop (length w) e) then drop (length w + 3) e else e)"

definition name_of :: "fleet_row \<Rightarrow> string" where
  "name_of row =
     (let host = takeWhile (\<lambda>c. c \<noteq> CHR ''.'') (strip_scheme (fr_endpoint row))
      in if fr_name row \<noteq> [] then fr_name row else if host \<noteq> [] then host else ''enclave'')"

section \<open>Ranking\<close>

record box_candidate =
  cd_row :: fleet_row
  cd_spec :: server_spec
  cd_mins :: min_pcts
  cd_freeGpu :: int
  cd_freeCpu :: int
  cd_gpu :: bool
  cd_fits :: bool
  cd_now :: bool
  cd_minRate :: rat
  cd_weightsOnCores :: bool

record ranked =
  rk_cand :: box_candidate
  rk_queued :: bool
  rk_cpuNn :: bool

definition hard_gpu :: "app_need \<Rightarrow> bool" where
  "hard_gpu v \<longleftrightarrow> declares_gpu (an_min v) \<and> \<not> ms_gpuOptional (an_min v)"

definition soft_gpu :: "app_need \<Rightarrow> bool" where
  "soft_gpu v \<longleftrightarrow> \<not> hard_gpu v
     \<and> ((ms_gpuOptional (an_min v) \<and> declares_gpu (an_min v)) \<or> (an_depOptional v \<and> 0 < an_gpuMilli v))"

definition row_takes_work :: "fleet_row \<Rightarrow> avail \<Rightarrow> bool" where
  "row_takes_work e a \<longleftrightarrow> al_claimEnabled a = Some True \<or> (al_claimEnabled a = None \<and> \<not> fr_tunnel e)"

text \<open>The relay's verdict on a row outranks the row's own flag.\<close>

definition claiming_rows :: "fleet_row list \<Rightarrow> (fleet_row \<times> avail) list" where
  "claiming_rows rows = List.map_filter (\<lambda>e. case fr_availability e of
     None \<Rightarrow> None
   | Some a \<Rightarrow>
       if (case fr_serving e of Some b \<Rightarrow> b | None \<Rightarrow> row_takes_work e a) then Some (e, a) else None) rows"

definition box_fits :: "app_need \<Rightarrow> fleet_row \<Rightarrow> avail \<Rightarrow> bool" where
  "box_fits v row a \<longleftrightarrow>
     (let m = an_min v; s = enclave_spec_of row
      in (hard_gpu v \<longrightarrow> al_gpu a \<and> ms_vramMb m / 1024 \<le> sp_cardVramGb s \<and> ms_gpuGflops m / 1000 \<le> sp_cardTflops s)
         \<and> ms_memMb m \<le> sp_nodeRamGb s * 1024 \<and> ms_cpuGflops m \<le> sp_nodeGflops s \<and> has_volumes a (vols_wanted v))"

definition free_pct :: "num_field \<Rightarrow> int" where
  "free_pct f = (case f of Num x \<Rightarrow> \<lfloor>x * 100\<rfloor> | _ \<Rightarrow> 0)"

definition candidate_of :: "price option \<Rightarrow> app_need \<Rightarrow> fleet_row \<times> avail \<Rightarrow> box_candidate" where
  "candidate_of P v ra =
     (let row = fst ra; a = snd ra; s = enclave_spec_of row; fits = box_fits v row a;
          mins = min_pcts_of (an_min v) s (vol_gb_of a (vols_wanted v));
          fg = free_pct (al_gpuShareFree a); fc = free_pct (al_cpuShareFree a)
      in \<lparr>cd_row = row, cd_spec = s, cd_mins = mins, cd_freeGpu = fg, cd_freeCpu = fc, cd_gpu = al_gpu a, cd_fits = fits,
          cd_now = (fits \<and> (hard_gpu v \<longrightarrow> mp_gpu mins \<le> fg) \<and> mp_cpu mins \<le> fc),
          cd_minRate = sb_rate (share_rates (of_int (mp_gpu mins)) (of_int (mp_cpu mins)) s (fst (enclave_price_of P row))),
          cd_weightsOnCores = (if hard_gpu v then False else if soft_gpu v then \<not> (al_gpu a \<and> mp_need mins \<le> 100) else True)\<rparr>)"

text \<open>The comparison of two candidates is lexicographic, so it is the order of a key.\<close>

datatype rank_key = RankKey nat rat int nat int

instantiation rank_key :: linorder
begin

fun less_eq_rank_key :: "rank_key \<Rightarrow> rank_key \<Rightarrow> bool" where
  "RankKey a b c d e \<le> RankKey a' b' c' d' e' \<longleftrightarrow>
     a < a' \<or> a = a' \<and> (b < b' \<or> b = b' \<and> (c < c' \<or> c = c' \<and> (d < d' \<or> d = d' \<and> e \<le> e')))"

definition less_rank_key :: "rank_key \<Rightarrow> rank_key \<Rightarrow> bool" where
  "less_rank_key x y \<longleftrightarrow> x \<le> y \<and> \<not> y \<le> x"

instance
proof
  fix x y z :: rank_key
  show "(x < y) = (x \<le> y \<and> \<not> y \<le> x)" by (rule less_rank_key_def)
  show "x \<le> x" by (cases x) simp
  show "x \<le> y \<Longrightarrow> y \<le> z \<Longrightarrow> x \<le> z" by (cases x; cases y; cases z) auto
  show "x \<le> y \<Longrightarrow> y \<le> x \<Longrightarrow> x = y" by (cases x; cases y) auto
  show "x \<le> y \<or> y \<le> x" by (cases x; cases y) auto
qed

end

definition demoted :: "app_need \<Rightarrow> box_candidate \<Rightarrow> nat" where
  "demoted v c =
     (if soft_gpu v then (if cd_gpu c then 0 else 1)
      else if vols_wanted v \<noteq> [] \<and> \<not> hard_gpu v \<and> cd_gpu c then 1 else 0)"

definition rank_key_of :: "app_need \<Rightarrow> box_candidate \<Rightarrow> rank_key" where
  "rank_key_of v c =
     (if hard_gpu v then RankKey (demoted v c) (cd_minRate c) (mp_gpu (cd_mins c)) 0 (- cd_freeGpu c)
      else RankKey (demoted v c) (cd_minRate c) (mp_cpu (cd_mins c)) (if cd_gpu c then 1 else 0) (- cd_freeCpu c))"

definition on_cores :: "app_need \<Rightarrow> box_candidate \<Rightarrow> bool" where
  "on_cores v c = (if soft_gpu v then cd_weightsOnCores c else vols_wanted v \<noteq> [] \<and> \<not> hard_gpu v \<and> cd_gpu c)"

definition rank_enclaves_for :: "price option \<Rightarrow> app_need \<Rightarrow> fleet_row list \<Rightarrow> ranked list" where
  "rank_enclaves_for P v rows =
     (let cand = filter (\<lambda>c. cd_fits c \<and> (hard_gpu v \<longrightarrow> cd_gpu c)) (map (candidate_of P v) (claiming_rows rows));
          ranks = (\<lambda>q cs. map (\<lambda>c. \<lparr>rk_cand = c, rk_queued = q, rk_cpuNn = on_cores v c\<rparr>) (sort_key (rank_key_of v) cs))
      in ranks False (filter cd_now cand) @ ranks True (filter (\<lambda>c. \<not> cd_now c) cand))"

section \<open>Choosing and moving\<close>

definition lease_host_of :: "string \<Rightarrow> int \<Rightarrow> fleet_row list \<Rightarrow> int \<Rightarrow> (fleet_row \<times> server_spec) option" where
  "lease_host_of runner0 leaseUntil rows now =
     (let runner = to_lower runner0
      in if \<not> (length runner = 66 \<and> prefix ''0x'' runner \<and> list_all (\<lambda>c. is_digit c \<or> c \<in> set ''abcdef'') (drop 2 runner))
            \<or> list_all (\<lambda>c. c = CHR ''0'') (drop 2 runner) then None
         else if \<not> now < leaseUntil * 1000 then None
         else (case find (\<lambda>e. to_lower (fr_id e) = runner) rows of
                 Some row \<Rightarrow> if fr_availability row = None then None else Some (row, enclave_spec_of row)
               | None \<Rightarrow> None))"

datatype no_enclave =
    NoneTakingWork | NoVolume "string list" | NoSingleCarrier "string list" | CarriersHaveNoGpu | CarriersTooSmall
  | NoGpuAnywhere | HardwareTooSmall

definition willing_rows :: "fleet_row list \<Rightarrow> (fleet_row \<times> avail) list" where
  "willing_rows rows = List.map_filter (\<lambda>e. case fr_availability e of
     None \<Rightarrow> None | Some a \<Rightarrow> if row_takes_work e a then Some (e, a) else None) rows"

definition pick_enclave_for :: "price option \<Rightarrow> app_need \<Rightarrow> fleet_row list \<Rightarrow> no_enclave + ranked" where
  "pick_enclave_for P v rows =
     (let claiming = willing_rows rows; want = vols_wanted v
      in if claiming = [] then Inl NoneTakingWork
         else case rank_enclaves_for P v rows of
           r # _ \<Rightarrow> Inr r
         | [] \<Rightarrow>
             (let missing = filter (\<lambda>n. \<not> list_ex (\<lambda>(e, a). has_volumes a [n]) claiming) want;
                  carriers = filter (\<lambda>(e, a). has_volumes a want) claiming;
                  noGpu = (\<lambda>rs. declares_gpu (an_min v) \<and> \<not> list_ex (\<lambda>(e, a). al_gpu a) rs)
              in if missing \<noteq> [] then Inl (NoVolume missing)
                 else if carriers = [] then Inl (NoSingleCarrier want)
                 else if want \<noteq> [] \<and> length carriers \<noteq> length claiming
                      then Inl (if noGpu carriers then CarriersHaveNoGpu else CarriersTooSmall)
                 else Inl (if noGpu claiming then NoGpuAnywhere else HardwareTooSmall)))"

definition move_targets_for :: "price option \<Rightarrow> app_need \<Rightarrow> fleet_row list \<Rightarrow> string \<Rightarrow> ranked list" where
  "move_targets_for P v rows current =
     filter (\<lambda>r. to_lower (fr_id (cd_row (rk_cand r))) \<noteq> to_lower current) (rank_enclaves_for P v rows)"

datatype move_block = NoOtherEnclave | NoOtherCarrier "string list" | NoOtherFits

definition other_rows :: "fleet_row list \<Rightarrow> string \<Rightarrow> (fleet_row \<times> avail) list" where
  "other_rows rows current = List.map_filter (\<lambda>e. case fr_availability e of
     None \<Rightarrow> None
   | Some a \<Rightarrow>
       if to_lower (fr_id e) \<noteq> to_lower current
          \<and> (case fr_serving e of Some b \<Rightarrow> b | None \<Rightarrow> al_claimEnabled a \<noteq> Some False) then Some (e, a) else None) rows"

definition move_block_reason :: "app_need \<Rightarrow> fleet_row list \<Rightarrow> string \<Rightarrow> move_block" where
  "move_block_reason v rows current =
     (let others = other_rows rows current;
          missing = filter (\<lambda>n. \<not> list_ex (\<lambda>(e, a). has_volumes a [n]) others) (vols_wanted v)
      in if others = [] then NoOtherEnclave else if missing \<noteq> [] then NoOtherCarrier missing else NoOtherFits)"

definition pct_of_milli :: "int \<Rightarrow> int" where
  "pct_of_milli m = max 1 \<lfloor>of_int m / (10 :: rat) + 1 / 2\<rfloor>"

definition gpu_downgrade_for_move :: "box_candidate option \<Rightarrow> int \<Rightarrow> int \<Rightarrow> (int \<times> int) option" where
  "gpu_downgrade_for_move target gpuMilli cpuMilli =
     (case target of
        None \<Rightarrow> None
      | Some c \<Rightarrow> if cd_gpu c then None else if \<not> 0 < gpuMilli then None else Some (0, pct_of_milli cpuMilli))"

definition gpu_upgrade_for_move :: "min_spec \<Rightarrow> box_candidate option \<Rightarrow> int \<Rightarrow> int \<Rightarrow> (int \<times> int) option" where
  "gpu_upgrade_for_move m target gpuMilli cpuMilli =
     (case target of
        None \<Rightarrow> None
      | Some c \<Rightarrow>
          if \<not> cd_gpu c then None else if 0 < gpuMilli then None else if \<not> ms_gpuOptional m then None
          else (let want = wanted_gpu_pct m (cd_spec c)
                in if \<not> 0 < want then None else Some (want, pct_of_milli cpuMilli)))"

section \<open>The floors are the runner's\<close>

text \<open>The hardware a row advertises, as the runner behind it divides by it.\<close>

definition same_hardware :: "server_spec \<Rightarrow> box_spec \<Rightarrow> bool" where
  "same_hardware s B \<longleftrightarrow> bs_ramGb B = sp_nodeRamGb s \<and> bs_gflops B = sp_nodeGflops s
     \<and> bs_cardGb B = sp_cardVramGb s \<and> bs_cardTflops B = sp_cardTflops s"

definition declared_axes :: "min_spec \<Rightarrow> bool" where
  "declared_axes m \<longleftrightarrow> 0 \<le> ms_vramMb m \<and> 0 \<le> ms_gpuGflops m \<and> 0 \<le> ms_memMb m \<and> 0 \<le> ms_cpuGflops m"

lemma console_pct_is_runner: "console_pct x = pct_ceil x"
  by (simp add: console_pct_def pct_ceil_def eps_def)

lemma pct_ceil_pos: "1 \<le> pct_ceil x"
  by (simp add: pct_ceil_def MIN_COMPUTE_PCT_def)

lemma pct_ceil_mono: "x \<le> y \<Longrightarrow> pct_ceil x \<le> pct_ceil y"
  unfolding pct_ceil_def by (intro max.mono ceiling_mono) auto

lemma floors_agree:
  assumes "same_hardware s B" "declared_axes m"
  shows "sh_gpu (min_shares_of B m vol) = of_int (mp_need (min_pcts_of m s vol)) / 100"
    "sh_gpuFloor (min_shares_of B m vol) = of_int (mp_gpu (min_pcts_of m s vol)) / 100"
    "sh_cpu (min_shares_of B m vol) = (if ms_memMb m = 0 \<and> ms_cpuGflops m = 0 then 0 else of_int (mp_cpu (min_pcts_of m s vol)) / 100)"
  using assms
  by (auto simp: min_shares_of_def min_pcts_of_def same_hardware_def declared_axes_def Let_def
      console_pct_is_runner gpu_share_of_def cpu_share_of_def max.commute)

lemma whole_percent: "(of_int g :: rat) / 100 < of_int f / 100 - 1 / 1000000000 \<longleftrightarrow> g < f"
proof
  assume "g < f"
  then have "of_int (g + 1) \<le> (of_int f :: rat)" by (simp only: of_int_le_iff)
  then show "(of_int g :: rat) / 100 < of_int f / 100 - 1 / 1000000000" by simp
next
  assume "(of_int g :: rat) / 100 < of_int f / 100 - 1 / 1000000000"
  then have "(of_int g :: rat) < of_int f" by linarith
  then show "g < f" by simp
qed

lemma console_floors_iff:
  assumes "same_hardware s B" "declared_axes m"
  shows "below_minimum (min_shares_of B m vol) onCard (of_int g / 100) (of_int c / 100) \<longleftrightarrow>
    g < (if onCard then mp_gpu (min_pcts_of m s vol) else 0)
    \<or> c < (if ms_memMb m = 0 \<and> ms_cpuGflops m = 0 then 0 else mp_cpu (min_pcts_of m s vol))"
proof -
  have "(of_int g :: rat) < of_int f - 1 / 10000000 \<longleftrightarrow> g < f" for g f
    using whole_percent [of g f] by simp
  moreover from this [of _ 0] have "(of_int g :: rat) < - (1 / 10000000) \<longleftrightarrow> g < 0" for g by simp
  ultimately show ?thesis
    unfolding below_minimum_def floors_agree [OF assms] eps_def by simp
qed

text \<open>
  The console's floors are the runner's: with the hardware and volumes a box advertises, dials of
  whole percents pass the runner's size gate exactly when they reach the floors the console shows, the
  GPU floor counting only where the card is used and the CPU floor where the version declares an axis.
\<close>

theorem console_floors_are_the_runners:
  assumes "same_hardware s B" and "declared_axes m"
  shows "below_minimum (min_shares_of B m vol) onCard (of_int g / 100) (of_int c / 100) \<longleftrightarrow>
    g < (if onCard then mp_gpu (min_pcts_of m s vol) else 0)
    \<or> c < (if ms_memMb m = 0 \<and> ms_cpuGflops m = 0 then 0 else mp_cpu (min_pcts_of m s vol))"
  using assms by (rule console_floors_iff)

theorem console_floors_are_the_runners_witness:
  "let s = FALLBACK_SPEC; m = \<lparr>ms_vramMb = 65536, ms_gpuGflops = 0, ms_memMb = 4096, ms_cpuGflops = 0, ms_gpuOptional = False\<rparr>;
       B = \<lparr>bs_ramGb = 64, bs_gflops = 1000, bs_cardGb = 1404 / 10, bs_cardTflops = 989, bs_isGpu = True, bs_shielded = False\<rparr>
   in below_minimum (min_shares_of B m 0) True (of_int 45 / 100) (of_int 7 / 100)
      \<and> \<not> below_minimum (min_shares_of B m 0) True (of_int 46 / 100) (of_int 7 / 100)"
proof -
  let ?m = "\<lparr>ms_vramMb = 65536, ms_gpuGflops = 0, ms_memMb = 4096, ms_cpuGflops = 0, ms_gpuOptional = False\<rparr> :: min_spec"
  let ?B = "\<lparr>bs_ramGb = 64, bs_gflops = 1000, bs_cardGb = 1404 / 10, bs_cardTflops = 989, bs_isGpu = True, bs_shielded = False\<rparr> :: box_spec"
  have h: "same_hardware FALLBACK_SPEC ?B" "declared_axes ?m"
    by (simp_all add: same_hardware_def FALLBACK_SPEC_def declared_axes_def)
  have "min_pcts_of ?m FALLBACK_SPEC 0 = \<lparr>mp_gpu = 46, mp_need = 46, mp_cpu = 7\<rparr>"
    by code_simp
  with console_floors_are_the_runners [OF h, of 0 True] show ?thesis by (simp add: Let_def del: of_int_numeral)
qed

section \<open>Sizing on the fleet's minima\<close>

definition no_bigger :: "server_spec \<Rightarrow> box_spec \<Rightarrow> bool" where
  "no_bigger s B \<longleftrightarrow> 0 < sp_nodeRamGb s \<and> 0 < sp_nodeGflops s \<and> 0 < sp_cardVramGb s \<and> 0 < sp_cardTflops s
     \<and> sp_nodeRamGb s \<le> bs_ramGb B \<and> sp_nodeGflops s \<le> bs_gflops B \<and> sp_cardVramGb s \<le> bs_cardGb B \<and> sp_cardTflops s \<le> bs_cardTflops B"

lemma if_mono: "(P \<Longrightarrow> Q) \<Longrightarrow> a \<le> b \<Longrightarrow> 0 \<le> b \<Longrightarrow> (if P then a else 0) \<le> (if Q then b else (0::int))"
  by auto

lemma smaller_box_asks_more:
  assumes "no_bigger s B" "declared_axes m" "vol' \<le> vol"
  shows "sh_gpuFloor (min_shares_of B m vol') \<le> of_int (mp_gpu (min_pcts_of m s vol)) / 100"
    and "sh_cpu (min_shares_of B m vol') \<le> of_int (mp_cpu (min_pcts_of m s vol)) / 100"
proof -
  let ?v = "if 0 < ms_vramMb m then max (ms_vramMb m / 1024) (max 0 vol) else 0"
    and ?v' = "if 0 < ms_vramMb m then max (ms_vramMb m / 1024) (max 0 vol') else 0"
  have v: "?v' \<le> ?v" "0 \<le> ?v'" using assms(3) by auto
  have frac: "x' / b' \<le> x / b" if "x' \<le> x" "0 \<le> x'" "0 < b" "b \<le> b'" for x x' b b' :: rat
    using that by (intro frac_le) auto
  have "max (?v' / bs_cardGb B) (ms_gpuGflops m / 1000 / bs_cardTflops B) \<le> max (?v / sp_cardVramGb s) (ms_gpuGflops m / 1000 / sp_cardTflops s)"
    using v assms(1,2) unfolding no_bigger_def declared_axes_def by (intro max.mono frac) auto
  note up = pct_ceil_mono [OF this]
  have pos: "0 < ?v \<or> 0 < ms_gpuGflops m" if "0 < ?v' \<or> 0 < ms_gpuGflops m"
    using that less_le_trans [OF _ v(1)] by blast
  have g: "(if 0 < ?v' \<or> 0 < ms_gpuGflops m then pct_ceil (max (?v' / bs_cardGb B) (ms_gpuGflops m / 1000 / bs_cardTflops B)) else 0)
      \<le> (if 0 < ?v \<or> 0 < ms_gpuGflops m then pct_ceil (max (?v / sp_cardVramGb s) (ms_gpuGflops m / 1000 / sp_cardTflops s)) else 0)" (is "?G' \<le> ?G")
    by (rule if_mono [OF pos up order_trans [OF zero_le_one pct_ceil_pos]])
  have "max (ms_memMb m / (bs_ramGb B * 1024)) (ms_cpuGflops m / bs_gflops B) \<le> max (ms_memMb m / (sp_nodeRamGb s * 1024)) (ms_cpuGflops m / sp_nodeGflops s)"
    using assms(1,2) unfolding no_bigger_def declared_axes_def by (intro max.mono frac) auto
  from pct_ceil_mono [OF this] show "sh_cpu (min_shares_of B m vol') \<le> of_int (mp_cpu (min_pcts_of m s vol)) / 100"
    using assms(2)
    by (auto simp: min_shares_of_def min_pcts_of_def Let_def cpu_share_of_def console_pct_is_runner declared_axes_def divide_right_mono)
  have "sh_gpuFloor (min_shares_of B m vol') = (if ms_gpuOptional m then 0 else of_int ?G' / 100)"
    using assms(2) unfolding min_shares_of_def gpu_share_of_def declared_axes_def Let_def by simp
  moreover have "mp_gpu (min_pcts_of m s vol) = (if ms_gpuOptional m then 0 else ?G)"
    unfolding min_pcts_of_def Let_def console_pct_is_runner by (simp add: max.commute)
  ultimately show "sh_gpuFloor (min_shares_of B m vol') \<le> of_int (mp_gpu (min_pcts_of m s vol)) / 100"
    using g by (cases "ms_gpuOptional m") (simp_all only: if_True if_False of_int_0 div_0 order_refl divide_le_cancel of_int_le_iff, auto)
qed

text \<open>
  Dials at the floors computed on the smallest hardware of the fleet pass the size gate of every
  runner at least that big, whatever part of the volumes it carries: sizing on the adopted minima
  never sells a share that no runner takes.
\<close>

theorem fleet_minimum_is_claimable_everywhere:
  assumes "no_bigger s B" and "declared_axes m" and "vol' \<le> vol"
    and "mp_gpu (min_pcts_of m s vol) \<le> g" and "mp_cpu (min_pcts_of m s vol) \<le> c"
  shows "\<not> below_minimum (min_shares_of B m vol') onCard (of_int g / 100) (of_int c / 100)"
proof -
  have "of_int (mp_gpu (min_pcts_of m s vol)) / 100 \<le> (of_int g / 100 :: rat)" "of_int (mp_cpu (min_pcts_of m s vol)) / 100 \<le> (of_int c / 100 :: rat)"
    using assms(4,5) by (simp_all add: divide_right_mono)
  moreover have "(0 :: rat) \<le> of_int g / 100"
  proof -
    have "0 \<le> mp_gpu (min_pcts_of m s vol)" using pct_ceil_pos by (auto simp: min_pcts_of_def Let_def console_pct_is_runner intro: order_trans [OF zero_le_one])
    with assms(4) show ?thesis by simp
  qed
  moreover note smaller_box_asks_more [OF assms(1-3)]
  ultimately show ?thesis unfolding below_minimum_def eps_def by (auto split: if_splits)
qed

theorem fleet_minimum_is_claimable_everywhere_witness:
  "let m = \<lparr>ms_vramMb = 65536, ms_gpuGflops = 0, ms_memMb = 4096, ms_cpuGflops = 0, ms_gpuOptional = False\<rparr>;
       B = \<lparr>bs_ramGb = 128, bs_gflops = 2000, bs_cardGb = 180, bs_cardTflops = 2000, bs_isGpu = True, bs_shielded = False\<rparr>
   in \<not> below_minimum (min_shares_of B m 0) True (of_int 46 / 100) (of_int 7 / 100)"
proof -
  let ?m = "\<lparr>ms_vramMb = 65536, ms_gpuGflops = 0, ms_memMb = 4096, ms_cpuGflops = 0, ms_gpuOptional = False\<rparr> :: min_spec"
  let ?B = "\<lparr>bs_ramGb = 128, bs_gflops = 2000, bs_cardGb = 180, bs_cardTflops = 2000, bs_isGpu = True, bs_shielded = False\<rparr> :: box_spec"
  have "min_pcts_of ?m FALLBACK_SPEC 0 = \<lparr>mp_gpu = 46, mp_need = 46, mp_cpu = 7\<rparr>"
    by code_simp
  moreover have "no_bigger FALLBACK_SPEC ?B" "declared_axes ?m"
    by (simp_all add: no_bigger_def FALLBACK_SPEC_def declared_axes_def)
  ultimately show ?thesis
    using fleet_minimum_is_claimable_everywhere [of FALLBACK_SPEC ?B ?m 0 0 46 7 True] by (simp add: Let_def del: of_int_numeral)
qed

section \<open>Dials\<close>

lemma lifted_shares_are_legal:
  "shares_legal_on (fst (lift_shares_for_ledger s ledgerRev)) (snd (lift_shares_for_ledger s ledgerRev)) ledgerRev
   \<and> fst s \<le> fst (lift_shares_for_ledger s ledgerRev) \<and> snd (lift_shares_for_ledger s ledgerRev) = snd s"
  by (auto simp: lift_shares_for_ledger_def shares_legal_on_def)

lemma start_shares_reach_the_floors:
  "mp_gpu (min_pcts_of m s 0) \<le> fst (start_shares_for m s cap)
   \<and> mp_cpu (min_pcts_of m s 0) = snd (start_shares_for m s cap)
   \<and> (0 < cap \<longrightarrow> fst (start_shares_for m s cap) \<le> max \<lfloor>cap\<rfloor> (mp_gpu (min_pcts_of m s 0)))"
  by (simp add: start_shares_for_def Let_def)

text \<open>Where the console calls a host free, the ledger of that revision charges the host part nothing.\<close>

lemma console_waiver_is_the_ledgers:
  assumes "se_payout S = Some (fr_payout row)" "lv_registryRev L = Some r" "4 \<le> r" "12 \<le> lv_rev L" "is_address (to_lower owner)"
  shows "host_waives row owner \<longleftrightarrow> host_charge_waived S L owner"
proof -
  have "owner \<noteq> []" using assms(5) by (auto simp: is_address_def to_lower_def)
  with assms show ?thesis by (auto simp: host_waives_def host_charge_waived_def)
qed

section \<open>The ranking\<close>

lemma sorted_wrt_ready_queued:
  assumes "sorted (map f xs)" "sorted (map f ys)" "\<And>r. r \<in> set xs \<Longrightarrow> \<not> q r" "\<And>r. r \<in> set ys \<Longrightarrow> q r"
  shows "sorted_wrt (\<lambda>r r'. (q r \<longrightarrow> q r') \<and> (q r = q r' \<longrightarrow> f r \<le> f r')) (xs @ ys)"
proof -
  have "sorted_wrt (\<lambda>r r'. (q r \<longrightarrow> q r') \<and> (q r = q r' \<longrightarrow> f r \<le> f r')) zs"
    if "sorted (map f zs)" "(\<forall>r\<in>set zs. q r) \<or> (\<forall>r\<in>set zs. \<not> q r)" for zs
    using that by (induction zs) auto
  with assms show ?thesis by (auto simp: sorted_wrt_append)
qed

text \<open>
  The ranking lists every enclave that takes work and fits the app exactly once, those that can start
  it now before those it would queue for, each group from the best key to the worst: money at the app's
  minimum shares on that box before the tie breaks, after the demotion of a card nobody asked for.
\<close>

theorem ranking_lists_every_host_best_first:
  "let R = rank_enclaves_for P v rows;
       hosts = filter (\<lambda>c. cd_fits c \<and> (hard_gpu v \<longrightarrow> cd_gpu c)) (map (candidate_of P v) (claiming_rows rows))
   in mset (map rk_cand R) = mset hosts
      \<and> sorted_wrt (\<lambda>r r'. (rk_queued r \<longrightarrow> rk_queued r')
          \<and> (rk_queued r = rk_queued r' \<longrightarrow> rank_key_of v (rk_cand r) \<le> rank_key_of v (rk_cand r'))) R
      \<and> list_all (\<lambda>r. rk_queued r = (\<not> cd_now (rk_cand r))) R"
proof -
  let ?hosts = "filter (\<lambda>c. cd_fits c \<and> (hard_gpu v \<longrightarrow> cd_gpu c)) (map (candidate_of P v) (claiming_rows rows))"
  let ?r = "\<lambda>q c. \<lparr>rk_cand = c, rk_queued = q, rk_cpuNn = on_cores v c\<rparr>"
  define xs where "xs = map (?r False) (sort_key (rank_key_of v) (filter cd_now ?hosts))"
  define ys where "ys = map (?r True) (sort_key (rank_key_of v) (filter (\<lambda>c. \<not> cd_now c) ?hosts))"
  have R: "rank_enclaves_for P v rows = xs @ ys"
    by (simp add: rank_enclaves_for_def Let_def xs_def ys_def)
  have "mset (map rk_cand (xs @ ys)) = mset (filter cd_now ?hosts) + mset (filter (\<lambda>c. \<not> cd_now c) ?hosts)"
    by (simp add: xs_def ys_def comp_def del: filter_filter)
  also have "\<dots> = mset ?hosts" by (simp only: mset_filter multiset_partition [symmetric])
  finally have m: "mset (map rk_cand (xs @ ys)) = mset ?hosts" .
  have "sorted_wrt (\<lambda>r r'. (rk_queued r \<longrightarrow> rk_queued r')
          \<and> (rk_queued r = rk_queued r' \<longrightarrow> rank_key_of v (rk_cand r) \<le> rank_key_of v (rk_cand r'))) (xs @ ys)"
    by (rule sorted_wrt_ready_queued) (auto simp: xs_def ys_def comp_def)
  moreover have "list_all (\<lambda>r. rk_queued r = (\<not> cd_now (rk_cand r))) (xs @ ys)"
    by (auto simp: list_all_iff xs_def ys_def)
  ultimately show ?thesis using m unfolding Let_def R by blast
qed

lemma claiming_row:
  "(row, a) \<in> set (claiming_rows rows) \<Longrightarrow> fr_availability row = Some a
     \<and> (case fr_serving row of Some b \<Rightarrow> b | None \<Rightarrow> row_takes_work row a)"
  unfolding claiming_rows_def by (induction rows) (auto simp: map_filter_simps split: option.splits if_splits)

lemma ranked_candidates:
  assumes "r \<in> set (rank_enclaves_for P v rows)"
  obtains row a where "(row, a) \<in> set (claiming_rows rows)" "rk_cand r = candidate_of P v (row, a)" "box_fits v row a"
    "fr_availability row = Some a"
proof -
  from assms obtain row a where ra: "(row, a) \<in> set (claiming_rows rows)" "rk_cand r = candidate_of P v (row, a)"
    "cd_fits (rk_cand r)"
    unfolding rank_enclaves_for_def Let_def by auto
  moreover from ra(2,3) have "box_fits v row a" by (simp add: candidate_of_def Let_def)
  moreover from ra(1) have "fr_availability row = Some a"
    using claiming_row by blast
  ultimately show thesis using that by blast
qed


section \<open>Demonstration\<close>

definition demo_need :: app_need where
  "demo_need = \<lparr>an_min = \<lparr>ms_vramMb = 1024, ms_gpuGflops = 0, ms_memMb = 4096, ms_cpuGflops = 0, ms_gpuOptional = False\<rparr>,
     an_volumes = [BareVolume ''m''], an_depOptional = False, an_gpuMilli = 0\<rparr>"

definition demo_avail :: avail where
  "demo_avail = \<lparr>al_gpu = True, al_claimEnabled = None, al_askGpu6 = Num 1700, al_askCpu6 = Num 800, al_askShielded6 = Absent,
     al_cheapestGpu6 = Absent, al_cheapestCpu6 = Absent, al_cardVramGb = Num 140, al_cardTflops = Num 989, al_nodeVcpus = Num 16,
     al_nodeRamGb = Num 64, al_nodeGflops = Num 1000, al_specCardVramGb = Absent, al_specCardTflops = Absent,
     al_specNodeVcpus = Absent, al_specNodeRamGb = Absent, al_specNodeGflops = Absent,
     al_volumes = [SizedVolume ''m'' 17000000000], al_gpuShareFree = Num 1, al_cpuShareFree = Num 1,
     al_shielded = None, al_shieldedCards = [], al_teeCpu = []\<rparr>"

definition demo_fleet_row :: fleet_row where
  "demo_fleet_row = \<lparr>fr_id = ''0x1'', fr_name = ''box'', fr_endpoint = [], fr_tunnel = True, fr_mode = [],
     fr_serving = Some True, fr_payout = [], fr_availability = Some demo_avail\<rparr>"

definition demo_box_spec :: box_spec where
  "demo_box_spec = \<lparr>bs_ramGb = 64, bs_gflops = 1000, bs_cardGb = 140, bs_cardTflops = 989, bs_isGpu = True, bs_shielded = False\<rparr>"

lemma demo_ranking:
  "map (\<lambda>r. (cd_row (rk_cand r), cd_spec (rk_cand r), cd_mins (rk_cand r))) (rank_enclaves_for None demo_need [demo_fleet_row])
   = [(demo_fleet_row, enclave_spec_of demo_fleet_row, \<lparr>mp_gpu = 13, mp_need = 13, mp_cpu = 7\<rparr>)]"
  by code_simp


text \<open>A volume named twice: the console counts it once, the runner twice, and the record it sized is refused.\<close>

lemma doubled_volume_undersells:
  "let cfg = Some (JObj [(''volumes'', JArr [JStr ''m'', JStr ''m''])]);
       m = an_min demo_need; s = enclave_spec_of demo_fleet_row;
       mins = min_pcts_of m s (vol_gb_of demo_avail (volumes_of_config cfg));
       h = demo_health\<lparr>he_volumes := al_volumes demo_avail\<rparr>
   in below_minimum (min_shares_of demo_box_spec m (volume_gb (volumes_in_config cfg) (Some h))) True
        (of_int (mp_gpu mins) / 100) (of_int (mp_cpu mins) / 100)"
  by code_simp

text \<open>The picker asks the row's own flag where the ranking asks the relay's verdict.\<close>

lemma picker_ignores_the_relays_verdict:
  "rank_enclaves_for None demo_need [demo_fleet_row] \<noteq> []
   \<and> pick_enclave_for None demo_need [demo_fleet_row] = Inl NoneTakingWork"
proof
  show "rank_enclaves_for None demo_need [demo_fleet_row] \<noteq> []" using demo_ranking by auto
  show "pick_enclave_for None demo_need [demo_fleet_row] = Inl NoneTakingWork" by code_simp
qed

theorem ranking_lists_every_host_best_first_witness:
  "list_all (\<lambda>r. rk_queued r = (\<not> cd_now (rk_cand r))) (rank_enclaves_for None demo_need [demo_fleet_row])"
  using ranking_lists_every_host_best_first [of None demo_need "[demo_fleet_row]"] by (simp add: Let_def)

end
