(* ===== verification/Fleet_Directory.thy ===== *)
theory Fleet_Directory
  imports Net_Guard
begin

unbundle bit_operations_syntax

text \<open>
  Which enclaves a relay follows and who may speak for a name (\<open>relay/fleet.mjs\<close>, \<open>relay/boxhost.js\<close>): the
  configuration, the registry read with its filters, the ledger rows kept for ten seconds and the lookups
  over them, and the names of self-hosted boxes. The registry and ledger answer through arguments; so do
  \<open>new URL\<close>, as the scheme and host of a text, and keccak256.
\<close>

section \<open>Configuration\<close>

record fleet_cfg =
  fc_static :: "string list"
  fc_registry :: string
  fc_book :: string
  fc_deployments :: string
  fc_pollSec :: int
  fc_staleSec :: int
  fc_trusted :: "string list"
  fc_unrestricted :: bool

definition strip_slashes :: "string \<Rightarrow> string" where
  "strip_slashes s = rev (dropWhile (\<lambda>c. c = CHR ''/'') (rev s))"

definition in_order_once :: "'a list \<Rightarrow> 'a list" where
  "in_order_once xs = rev (remdups (rev xs))"

definition any_operator :: "string \<Rightarrow> bool" where
  "any_operator s \<longleftrightarrow> to_lower (js_trim s) \<in> {''*'', ''any'', ''all''}"

definition DEFAULT_TRUSTED_OPERATORS :: "string list" where
  "DEFAULT_TRUSTED_OPERATORS = [''0x390e2e0e0bc34b7f428f1e31c9b6770d5028ecc1'']"

definition parse_trusted_operators :: "string option \<Rightarrow> string list" where
  "parse_trusted_operators raw =
     (let s = js_trim (case raw of Some t \<Rightarrow> t | None \<Rightarrow> []);
          named = filter (\<lambda>x. x \<noteq> []) (map js_trim (split_on (CHR '','') (to_lower s)))
      in if any_operator s then [] else if named \<noteq> [] then named else DEFAULT_TRUSTED_OPERATORS)"

definition positive_env :: "string option \<Rightarrow> int \<Rightarrow> int" where
  "positive_env raw d = (case Option.bind raw parse_int10 of Some n \<Rightarrow> if n = 0 then d else n | None \<Rightarrow> d)"

definition env_text :: "string option \<Rightarrow> string" where
  "env_text raw = js_trim (case raw of Some t \<Rightarrow> t | None \<Rightarrow> [])"

definition fleet_config :: "(string \<Rightarrow> string option) \<Rightarrow> fleet_cfg" where
  "fleet_config env =
     (let lists = filter (\<lambda>x. x \<noteq> []) (List.map_filter env [''ENCLAVES'', ''ENCLAVE_URL'']);
          entries = concat (map (split_on (CHR '','')) lists)
      in \<lparr>fc_static = in_order_once (filter (\<lambda>x. x \<noteq> []) (map (strip_slashes \<circ> js_trim) entries)),
          fc_registry = env_text (env ''REGISTRY_ADDRESS''), fc_book = env_text (env ''ADDRESS_BOOK_ADDRESS''),
          fc_deployments = env_text (env ''DEPLOYMENTS_ADDRESS''),
          fc_pollSec = positive_env (env ''REGISTRY_POLL_SEC'') 300, fc_staleSec = positive_env (env ''STALE_AFTER_SEC'') 3600,
          fc_trusted = parse_trusted_operators (env ''TRUSTED_OPERATORS''),
          fc_unrestricted = any_operator (case env ''TRUSTED_OPERATORS'' of Some t \<Rightarrow> t | None \<Rightarrow> [])\<rparr>)"

section \<open>The registry\<close>

record reg_row =
  rg_endpoint :: string
  rg_operator :: string
  rg_active :: bool
  rg_lastSeen :: int
  rg_caps :: "64 word"

definition CAP_HOST :: "64 word" where "CAP_HOST = 1"
definition CAP_RELAY_ANY :: "64 word" where "CAP_RELAY_ANY = 2 OR 4 OR 8 OR 16"

definition is_host_row :: "reg_row \<Rightarrow> bool" where
  "is_host_row e \<longleftrightarrow> rg_caps e = 0 \<or> rg_caps e AND CAP_HOST \<noteq> 0"

definition is_relay_row :: "reg_row \<Rightarrow> bool" where
  "is_relay_row e \<longleftrightarrow> rg_caps e AND CAP_RELAY_ANY \<noteq> 0"

text \<open>The scheme and host of a text that parses as a URL.\<close>

type_synonym url_parser = "string \<Rightarrow> (string \<times> string) option"

definition is_https_endpoint :: "url_parser \<Rightarrow> string \<Rightarrow> bool" where
  "is_https_endpoint url ep = (case url ep of Some (scheme, host) \<Rightarrow> scheme = ''https:'' | None \<Rightarrow> False)"

definition is_public_endpoint :: "url_parser \<Rightarrow> string \<Rightarrow> bool" where
  "is_public_endpoint url ep = (case url ep of Some (scheme, host) \<Rightarrow> \<not> is_blocked_host host | None \<Rightarrow> False)"

definition fresh_rows :: "fleet_cfg \<Rightarrow> int \<Rightarrow> reg_row list \<Rightarrow> reg_row list" where
  "fresh_rows cfg nowSec rows = filter (\<lambda>e. rg_active e \<and> nowSec - rg_lastSeen e \<le> fc_staleSec cfg) rows"

definition is_operator :: "string \<Rightarrow> bool" where
  "is_operator a \<longleftrightarrow> prefix ''0x'' a \<and> hex_str 40 40 (drop 2 a)"

text \<open>Who registered an endpoint; a later row with the same normal form replaces an earlier one.\<close>

definition endpoint_operators :: "reg_row list \<Rightarrow> (string \<times> string) list" where
  "endpoint_operators fresh =
     foldl (\<lambda>m (ep, op). AList.update ep op m) []
       (filter (\<lambda>(ep, op). ep \<noteq> [] \<and> is_operator op)
          (map (\<lambda>e. (to_lower (strip_slashes (rg_endpoint e)), to_lower (rg_operator e))) fresh))"

definition any_endpoints :: "url_parser \<Rightarrow> reg_row list \<Rightarrow> string list" where
  "any_endpoints url fresh =
     filter (\<lambda>ep. is_https_endpoint url ep \<and> is_public_endpoint url ep) (map (strip_slashes \<circ> rg_endpoint) fresh)"

definition vetted :: "fleet_cfg \<Rightarrow> reg_row \<Rightarrow> bool" where
  "vetted cfg e \<longleftrightarrow> fc_unrestricted cfg \<or> to_lower (rg_operator e) \<in> set (fc_trusted cfg)"

definition read_fleet :: "fleet_cfg \<Rightarrow> url_parser \<Rightarrow> reg_row list \<Rightarrow> string list" where
  "read_fleet cfg url fresh =
     filter (\<lambda>ep. is_https_endpoint url ep \<and> is_public_endpoint url ep)
       (map (strip_slashes \<circ> rg_endpoint) (filter (\<lambda>e. is_host_row e \<and> vetted cfg e) fresh))"

section \<open>The state of a directory\<close>

record ledger_lease =
  ll_id :: string
  ll_runner :: string
  ll_operator :: string
  ll_until :: int

record fleet_state =
  fl_origins :: "string list"
  fl_any :: "string list"
  fl_operators :: "(string \<times> string) list"
  fl_rows :: "ledger_lease list"
  fl_at :: int

definition create_fleet :: "fleet_cfg \<Rightarrow> fleet_state" where
  "create_fleet cfg = \<lparr>fl_origins = fc_static cfg, fl_any = [], fl_operators = [], fl_rows = [], fl_at = 0\<rparr>"

text \<open>A failed read keeps the fleet that was known. In static mode the registry is never read.\<close>

definition refresh :: "fleet_cfg \<Rightarrow> url_parser \<Rightarrow> int \<Rightarrow> reg_row list option \<Rightarrow> fleet_state \<Rightarrow> fleet_state" where
  "refresh cfg url now answer S =
     (if fc_static cfg \<noteq> [] then S
      else case answer of
        None \<Rightarrow> S
      | Some rows \<Rightarrow>
          (let fresh = fresh_rows cfg (now div 1000) rows
           in S\<lparr>fl_origins := in_order_once (read_fleet cfg url fresh), fl_any := any_endpoints url fresh,
               fl_operators := endpoint_operators fresh\<rparr>))"

definition operator_for_endpoint :: "string \<Rightarrow> fleet_state \<Rightarrow> string option" where
  "operator_for_endpoint ep S = map_of (fl_operators S) (to_lower (strip_slashes ep))"

section \<open>The ledger\<close>

datatype ledger_answer = NoAddress | ReadFails | LedgerRows "ledger_lease list"

definition ledger_rows :: "int \<Rightarrow> ledger_answer \<Rightarrow> fleet_state \<Rightarrow> ledger_lease list option \<times> fleet_state" where
  "ledger_rows now answer S =
     (if now - fl_at S < 10000 then (Some (fl_rows S), S)
      else case answer of
        NoAddress \<Rightarrow> (Some [], S)
      | ReadFails \<Rightarrow> (None, S)
      | LedgerRows rows \<Rightarrow> (Some rows, S\<lparr>fl_rows := rows, fl_at := now\<rparr>))"

definition id_prefix :: "nat \<Rightarrow> string \<Rightarrow> bool" where
  "id_prefix hi h \<longleftrightarrow> prefix ''0x'' h \<and> hex_str 8 hi (drop 2 h)"

definition rows_with :: "string \<Rightarrow> ledger_lease list \<Rightarrow> ledger_lease list" where
  "rows_with h rows = filter (\<lambda>d. prefix h (to_lower (ll_id d))) rows"

definition is_zero32 :: "string \<Rightarrow> bool" where
  "is_zero32 r \<longleftrightarrow> prefix ''0x'' r \<and> drop 2 r \<noteq> [] \<and> list_all (\<lambda>c. c = CHR ''0'') (drop 2 r)"

definition live_lease :: "int \<Rightarrow> ledger_lease \<Rightarrow> bool" where
  "live_lease now d \<longleftrightarrow> \<not> is_zero32 (ll_runner d) \<and> now < ll_until d * 1000"

definition has_ledger :: "fleet_cfg \<Rightarrow> bool" where
  "has_ledger cfg \<longleftrightarrow> fc_book cfg \<noteq> [] \<or> fc_deployments cfg \<noteq> []"

text \<open>The one live row a prefix names, and the endpoint among some whose hash is its runner.\<close>

definition runner_among :: "(string \<Rightarrow> string) \<Rightarrow> int \<Rightarrow> string \<Rightarrow> ledger_lease list \<Rightarrow> string list \<Rightarrow> string option" where
  "runner_among keccak now h rows endpoints =
     (case rows_with h rows of
        [d] \<Rightarrow> if live_lease now d then find (\<lambda>ep. to_lower (keccak ep) = to_lower (ll_runner d)) endpoints else None
      | _ \<Rightarrow> None)"

definition runner_endpoint_for ::
  "fleet_cfg \<Rightarrow> (string \<Rightarrow> string) \<Rightarrow> int \<Rightarrow> ledger_answer \<Rightarrow> string \<Rightarrow> fleet_state \<Rightarrow> string option \<times> fleet_state" where
  "runner_endpoint_for cfg keccak now answer i S =
     (if \<not> id_prefix 64 (to_lower i) \<or> \<not> has_ledger cfg then (None, S)
      else case ledger_rows now answer S of
        (None, S') \<Rightarrow> (None, S')
      | (Some rows, S') \<Rightarrow> (runner_among keccak now (to_lower i) rows (fl_origins S'), S'))"

definition lease_endpoint_for ::
  "fleet_cfg \<Rightarrow> (string \<Rightarrow> string) \<Rightarrow> int \<Rightarrow> ledger_answer \<Rightarrow> ledger_answer \<Rightarrow> string \<Rightarrow> fleet_state \<Rightarrow> string option \<times> fleet_state" where
  "lease_endpoint_for cfg keccak now answer again i S =
     (case runner_endpoint_for cfg keccak now answer i S of
        (Some ep, S1) \<Rightarrow> (Some ep, S1)
      | (None, S1) \<Rightarrow>
          if \<not> id_prefix 64 (to_lower i) then (None, S1)
          else case ledger_rows now again S1 of
            (None, S2) \<Rightarrow> (None, S2)
          | (Some rows, S2) \<Rightarrow> (runner_among keccak now (to_lower i) rows (fl_any S2), S2))"

definition prefix_ambiguous :: "fleet_cfg \<Rightarrow> int \<Rightarrow> ledger_answer \<Rightarrow> string \<Rightarrow> fleet_state \<Rightarrow> bool \<times> fleet_state" where
  "prefix_ambiguous cfg now answer p S =
     (let l = to_lower p; h = (if prefix ''0x'' l then l else ''0x'' @ l)
      in if \<not> id_prefix 63 h \<or> \<not> has_ledger cfg then (False, S)
         else case ledger_rows now answer S of
           (None, S') \<Rightarrow> (False, S')
         | (Some rows, S') \<Rightarrow> (1 < length (rows_with h rows), S'))"

record lease_info =
  li_id :: string
  li_operator :: string
  li_live :: bool

definition lease_for ::
  "fleet_cfg \<Rightarrow> int \<Rightarrow> bool \<Rightarrow> ledger_answer \<Rightarrow> string \<Rightarrow> fleet_state \<Rightarrow> lease_info option \<times> fleet_state" where
  "lease_for cfg now fresh answer p S =
     (let h = to_lower p
      in if \<not> id_prefix 64 h \<or> \<not> has_ledger cfg then (None, S)
         else case ledger_rows now answer (if fresh then S\<lparr>fl_at := 0\<rparr> else S) of
           (None, S') \<Rightarrow> (None, S')
         | (Some rows, S') \<Rightarrow>
             ((case rows_with h rows of
                 [d] \<Rightarrow> Some \<lparr>li_id = to_lower (ll_id d), li_operator = to_lower (ll_operator d), li_live = live_lease now d\<rparr>
               | _ \<Rightarrow> None), S'))"

section \<open>Names of self-hosted boxes\<close>

definition box_zone :: "string option \<Rightarrow> string option" where
  "box_zone raw =
     (let dot = (\<lambda>c. c = CHR ''.'');
          z = rev (dropWhile dot (rev (dropWhile dot (to_lower (js_trim (case raw of Some t \<Rightarrow> t | None \<Rightarrow> []))))))
      in if z = [] then None else Some z)"

definition minted_label :: "string \<Rightarrow> bool" where
  "minted_label l \<longleftrightarrow> (case l of c # r \<Rightarrow> c = CHR ''e'' \<and> hex_str 16 16 r | [] \<Rightarrow> False)"

definition friendly_label :: "string \<Rightarrow> bool" where
  "friendly_label s \<longleftrightarrow> s \<noteq> [] \<and> length s \<le> 64
     \<and> list_all (\<lambda>c. is_digit c \<or> lower_char c \<in> set ''abcdefghijklmnopqrstuvwxyz_-'') s"

text \<open>\<open>hash\<close> is keccak256 in hexadecimal of the operator's bytes followed by the seller's text.\<close>

definition box_label :: "(string \<Rightarrow> string \<Rightarrow> string) \<Rightarrow> string option \<Rightarrow> string \<Rightarrow> string \<Rightarrow> string option" where
  "box_label hash zone operator friendly =
     (let op = to_lower operator
      in if zone = None \<or> \<not> friendly_label friendly \<or> \<not> is_operator op then None
         else Some (CHR ''e'' # take 16 (drop 2 (hash op friendly))))"

definition box_host_of :: "string option \<Rightarrow> string \<Rightarrow> string option" where
  "box_host_of zone l = (case zone of Some z \<Rightarrow> if minted_label l then Some (l @ ''.'' @ z) else None | None \<Rightarrow> None)"

definition box_origin :: "string option \<Rightarrow> string \<Rightarrow> string option" where
  "box_origin zone l = map_option (\<lambda>h. ''https://'' @ h) (box_host_of zone l)"

definition host_part :: "string \<Rightarrow> string" where
  "host_part host =
     (let h = to_lower host; d = (if h \<noteq> [] \<and> last h = CHR ''.'' then butlast h else h)
      in takeWhile (\<lambda>c. c \<noteq> CHR '':'') d)"

definition is_box_host :: "string option \<Rightarrow> string \<Rightarrow> bool" where
  "is_box_host zone host =
     (case zone of
        None \<Rightarrow> False
      | Some z \<Rightarrow> (let h = host_part host in suffix (''.'' @ z) h \<and> minted_label (take (length h - (length z + 1)) h)))"

definition box_label_of_host :: "string option \<Rightarrow> string \<Rightarrow> string option" where
  "box_label_of_host zone host =
     (if is_box_host zone host
      then Some (take (length (host_part host) - (length (the zone) + 1)) (host_part host)) else None)"

section \<open>What a directory may hold\<close>

text \<open>Refreshes, ledger reads and forced re-reads, in any order.\<close>

inductive fleet_reachable :: "fleet_cfg \<Rightarrow> url_parser \<Rightarrow> fleet_state \<Rightarrow> bool" for cfg url where
  fleet_start: "fleet_reachable cfg url (create_fleet cfg)"
| fleet_refresh: "fleet_reachable cfg url S \<Longrightarrow> fleet_reachable cfg url (refresh cfg url now answer S)"
| fleet_ledger: "fleet_reachable cfg url S \<Longrightarrow> fleet_reachable cfg url (snd (ledger_rows now reply S))"
| fleet_expire: "fleet_reachable cfg url S \<Longrightarrow> fleet_reachable cfg url (S\<lparr>fl_at := 0\<rparr>)"

inductive_cases fleet_reachable_cases: "fleet_reachable cfg url S"

text \<open>What an endpoint that was discovered satisfies; the data plane also asks for a vetted operator.\<close>

definition discovered :: "url_parser \<Rightarrow> string \<Rightarrow> bool" where
  "discovered url ep \<longleftrightarrow> is_https_endpoint url ep \<and> is_public_endpoint url ep"

definition justified_origin :: "fleet_cfg \<Rightarrow> url_parser \<Rightarrow> string \<Rightarrow> bool" where
  "justified_origin cfg url ep \<longleftrightarrow> ep \<in> set (fc_static cfg)
     \<or> discovered url ep \<and> (\<exists>e now. ep = strip_slashes (rg_endpoint e) \<and> rg_active e
         \<and> now div 1000 - rg_lastSeen e \<le> fc_staleSec cfg \<and> is_host_row e \<and> vetted cfg e)"

definition directory_ok :: "fleet_cfg \<Rightarrow> url_parser \<Rightarrow> fleet_state \<Rightarrow> bool" where
  "directory_ok cfg url S \<longleftrightarrow> list_all (justified_origin cfg url) (fl_origins S) \<and> list_all (discovered url) (fl_any S)"

lemma set_in_order_once [simp]: "set (in_order_once xs) = set xs"
  by (simp add: in_order_once_def)

lemma ledger_rows_keeps [simp]:
  "fl_origins (snd (ledger_rows now reply S)) = fl_origins S" "fl_any (snd (ledger_rows now reply S)) = fl_any S"
  by (simp_all add: ledger_rows_def split: ledger_answer.split)

lemma refresh_ok: "directory_ok cfg url S \<Longrightarrow> directory_ok cfg url (refresh cfg url now answer S)"
  by (auto simp: directory_ok_def refresh_def read_fleet_def any_endpoints_def fresh_rows_def justified_origin_def
      discovered_def list_all_iff Let_def split: option.splits)

lemma reachable_directory_ok: "fleet_reachable cfg url S \<Longrightarrow> directory_ok cfg url S"
proof (induction rule: fleet_reachable.induct)
  case fleet_start
  show ?case by (simp add: directory_ok_def create_fleet_def justified_origin_def list_all_iff)
next
  case (fleet_refresh S now answer)
  then show ?case by (simp add: refresh_ok)
qed (simp_all add: directory_ok_def)


lemma runner_among_sound:
  assumes "runner_among keccak now h rows eps = Some ep"
  shows "ep \<in> set eps \<and> (\<exists>d. rows_with h rows = [d] \<and> live_lease now d \<and> to_lower (keccak ep) = to_lower (ll_runner d))"
  using assms by (auto simp: runner_among_def find_Some_iff split: list.splits if_splits)

lemma ledger_rows_current:
  assumes "ledger_rows now reply S = (Some rows, S')" "rows \<noteq> []"
  shows "rows = fl_rows S' \<and> now - fl_at S' < 10000"
  using assms by (auto simp: ledger_rows_def split: if_splits ledger_answer.splits)

lemma rows_with_nonempty: "rows_with h rows = [d] \<Longrightarrow> rows \<noteq> []"
  by (auto simp: rows_with_def)

lemma ledger_rows_state: "ledger_rows now reply S = (r, S') \<Longrightarrow> S' = snd (ledger_rows now reply S)"
  by simp

lemma runner_state:
  "runner_endpoint_for cfg keccak now reply i S = (r, S') \<Longrightarrow> S' = S \<or> S' = snd (ledger_rows now reply S)"
  by (cases "ledger_rows now reply S") (auto simp: runner_endpoint_for_def split: if_splits option.splits)

text \<open>
  C35: A lookup routes an application only to an endpoint whose hash is the runner of the one ledger row
  the identifier or prefix names, with its lease live now and the row read in the last ten seconds; the
  endpoint is one the relay follows or was discovered over https outside the blocked hosts.
\<close>

theorem lease_endpoint_holds_the_lease:
  assumes "fleet_reachable cfg url S" and "lease_endpoint_for cfg keccak now reply again i S = (Some ep, S')"
  shows "(\<exists>d. rows_with (to_lower i) (fl_rows S') = [d] \<and> live_lease now d \<and> to_lower (keccak ep) = to_lower (ll_runner d))
    \<and> now - fl_at S' < 10000 \<and> (justified_origin cfg url ep \<or> discovered url ep)"
proof -
  have ok: "directory_ok cfg url T" if "T = snd (ledger_rows now r T0)" "directory_ok cfg url T0" for T T0 r
    using that by (simp add: directory_ok_def)
  have routed: ?thesis if l: "ledger_rows now r T0 = (Some rows, S')" and T0: "directory_ok cfg url T0"
    and f: "runner_among keccak now (to_lower i) rows eps = Some ep" and e: "eps = fl_origins S' \<or> eps = fl_any S'" for r T0 rows eps
  proof -
    from runner_among_sound [OF f] obtain d where d: "ep \<in> set eps" "rows_with (to_lower i) rows = [d]" "live_lease now d"
      "to_lower (keccak ep) = to_lower (ll_runner d)" by blast
    from ledger_rows_current [OF l rows_with_nonempty [OF d(2)]] have "rows = fl_rows S'" "now - fl_at S' < 10000" by auto
    moreover from ok [OF ledger_rows_state [OF l] T0] e d(1) have "justified_origin cfg url ep \<or> discovered url ep"
      by (auto simp: directory_ok_def list_all_iff)
    ultimately show ?thesis using d by blast
  qed
  have S: "directory_ok cfg url S" by (rule reachable_directory_ok [OF assms(1)])
  obtain e1 S1 where r1: "runner_endpoint_for cfg keccak now reply i S = (e1, S1)" by (cases "runner_endpoint_for cfg keccak now reply i S")
  show ?thesis
  proof (cases e1)
    case (Some ep1)
    with assms(2) r1 have e: "ep1 = ep" "S1 = S'" by (simp_all add: lease_endpoint_for_def)
    from r1 Some e obtain rows where "ledger_rows now reply S = (Some rows, S')"
      "runner_among keccak now (to_lower i) rows (fl_origins S') = Some ep"
      by (auto simp: runner_endpoint_for_def split: if_splits prod.splits option.splits)
    from routed [OF this(1) S this(2)] show ?thesis by simp
  next
    case None
    from runner_state [OF r1] have "directory_ok cfg url S1"
    proof
      assume "S1 = S"
      with S show ?thesis by simp
    next
      assume "S1 = snd (ledger_rows now reply S)"
      then show ?thesis using ok S by blast
    qed
    moreover from None assms(2) r1 obtain rows where "ledger_rows now again S1 = (Some rows, S')"
      "runner_among keccak now (to_lower i) rows (fl_any S') = Some ep"
      by (auto simp: lease_endpoint_for_def split: if_splits prod.splits option.splits)
    ultimately show ?thesis using routed by blast
  qed
qed

lemma hex_lower:
  assumes "is_hex c"
  shows "lower_char c = c" and "c \<noteq> CHR '':''"
proof -
  have "list_all (\<lambda>c. lower_char c = c \<and> c \<noteq> CHR '':'') ''0123456789abcdef''" by code_simp
  with assms show "lower_char c = c" "c \<noteq> CHR '':''" unfolding list_all_iff is_hex_def by blast+
qed

lemma hex_str_lower: "hex_str lo hi h \<Longrightarrow> to_lower h = h"
  by (auto simp: hex_str_def list_all_iff to_lower_def hex_lower(1) intro!: map_idI)

text \<open>A label minted for a zone is read back from the host built with it.\<close>

lemma box_label_roundtrip:
  assumes "minted_label l" "zone = Some z" "CHR '':'' \<notin> set z" "to_lower z = z" "z \<noteq> []" "last z \<noteq> CHR ''.''"
  shows "Option.bind (box_host_of zone l) (box_label_of_host zone) = Some l"
proof -
  obtain r where l: "l = CHR ''e'' # r" "hex_str 16 16 r" using assms(1) by (cases l) (auto simp: minted_label_def)
  have "to_lower r = r \<and> CHR '':'' \<notin> set r"
    using l(2) hex_lower by (auto simp: to_lower_def hex_str_def list_all_iff intro!: map_idI)
  then have lc: "to_lower l = l" "CHR '':'' \<notin> set l" by (simp_all add: l to_lower_def lower_char_def)
  have low: "to_lower (l @ ''.'' @ z) = l @ ''.'' @ z"
    using lc assms(4) by (simp add: to_lower_def lower_char_def)
  have "host_part (l @ ''.'' @ z) = l @ ''.'' @ z"
    using assms(3,5,6) lc(2) unfolding host_part_def low Let_def by (auto simp: takeWhile_eq_all_conv)
  with assms show ?thesis
    by (simp add: box_host_of_def box_label_of_host_def is_box_host_def Let_def suffixI)
qed

section \<open>Demonstration\<close>

definition demo_url :: url_parser where
  "demo_url ep = (case strip_prefix ''https://'' ep of Some h \<Rightarrow> Some (''https:'', h) | None \<Rightarrow> None)"

definition demo_operator :: "char \<Rightarrow> string" where
  "demo_operator c = ''0x'' @ replicate 40 c"

definition demo_fleet_cfg :: fleet_cfg where
  "demo_fleet_cfg = \<lparr>fc_static = [], fc_registry = ''0x1'', fc_book = [], fc_deployments = ''0x2'', fc_pollSec = 300,
     fc_staleSec = 3600, fc_trusted = [demo_operator (CHR ''a'')], fc_unrestricted = False\<rparr>"

definition demo_rows :: "reg_row list" where
  "demo_rows = [\<lparr>rg_endpoint = ''https://e00000000000000ff.box'', rg_operator = demo_operator (CHR ''a''), rg_active = True,
       rg_lastSeen = 100, rg_caps = 0\<rparr>,
     \<lparr>rg_endpoint = ''https://e00000000000000ff.box/'', rg_operator = demo_operator (CHR ''b''), rg_active = True,
       rg_lastSeen = 100, rg_caps = 0\<rparr>]"

definition demo_directory :: fleet_state where
  "demo_directory = refresh demo_fleet_cfg demo_url 200000 (Some demo_rows) (create_fleet demo_fleet_cfg)"

text \<open>
  The registry identifies an endpoint by the hash of its exact text; the directory by its text without
  trailing slashes. A stranger who registers a box's origin with a slash appended becomes its operator.
\<close>

lemma appended_slash_takes_a_box_over:
  "operator_for_endpoint ''https://e00000000000000ff.box'' demo_directory = Some (demo_operator (CHR ''b''))
   \<and> is_box_host (Some ''box'') ''e00000000000000ff.box''"
  by code_simp

lemma demo_directory_reachable: "fleet_reachable demo_fleet_cfg demo_url demo_directory"
  unfolding demo_directory_def by (intro fleet_refresh fleet_start)

lemma demo_directory_origins: "fl_origins demo_directory = [''https://e00000000000000ff.box'']"
  by code_simp


definition demo_lease :: ledger_lease where
  "demo_lease = \<lparr>ll_id = ''0x'' @ replicate 64 (CHR ''d''), ll_runner = ''0x9'', ll_operator = demo_operator (CHR ''a''), ll_until = 1000\<rparr>"

theorem lease_endpoint_holds_the_lease_witness:
  "\<exists>S'. lease_endpoint_for demo_fleet_cfg (\<lambda>ep. ''0x9'') 200000 (LedgerRows [demo_lease]) ReadFails ''0xDDDDDDDD'' demo_directory
      = (Some ''https://e00000000000000ff.box'', S')
    \<and> (\<exists>d. rows_with ''0xdddddddd'' (fl_rows S') = [d] \<and> live_lease 200000 d)"
proof -
  let ?r = "lease_endpoint_for demo_fleet_cfg (\<lambda>ep. ''0x9'') 200000 (LedgerRows [demo_lease]) ReadFails ''0xDDDDDDDD'' demo_directory"
  have f: "fst ?r = Some ''https://e00000000000000ff.box''" by code_simp
  have "to_lower ''0xDDDDDDDD'' = ''0xdddddddd''" by code_simp
  with lease_endpoint_holds_the_lease [OF demo_directory_reachable, of "\<lambda>ep. ''0x9''" 200000 "LedgerRows [demo_lease]" ReadFails
      "''0xDDDDDDDD''" "''https://e00000000000000ff.box''" "snd ?r"] f
  show ?thesis by (intro exI [of _ "snd ?r"]) (auto simp: prod_eq_iff)
qed

end
