(* ===== verification/Dns_Wire.thy ===== *)
theory Dns_Wire
  imports Relay_Routing Net_Guard
begin

text \<open>
  The wire format of the authoritative name server (\<open>relay/dns-relay.js\<close>): the parser of a query, the
  records and responses it writes, and the framing of a TCP connection. A byte is an \<^typ>\<open>8 word\<close>, a name
  a string of Latin-1 characters. Reads behind the end of a buffer, which throw, are \<^term>\<open>None\<close>.
\<close>

section \<open>Addresses\<close>

definition decimal_octet :: "string \<Rightarrow> bool" where
  "decimal_octet p \<longleftrightarrow> p \<noteq> [] \<and> length p \<le> 3 \<and> list_all is_digit p \<and> digits_val p \<le> 255"

definition ipv4_bytes :: "string \<Rightarrow> 8 word list option" where
  "ipv4_bytes s =
     (let ps = split_on (CHR ''.'') s
      in if length ps = 4 \<and> list_all decimal_octet ps then Some (map (of_nat \<circ> digits_val) ps) else None)"

text \<open>The text \<open>(.*:)(a.b.c.d)\<close> with digits and dots behind the last colon.\<close>

definition dotted_tail :: "string \<Rightarrow> bool" where
  "dotted_tail t \<longleftrightarrow> (let ps = split_on (CHR ''.'') t in length ps = 4 \<and> list_all digit_str ps)"

definition groups_between :: "string \<Rightarrow> string list" where
  "groups_between s = (if s = [] then [] else split_on (CHR '':'') s)"

definition ipv6_groups :: "string \<Rightarrow> string list option" where
  "ipv6_groups s =
     (case split_double s of
        [h] \<Rightarrow> Some (groups_between h)
      | [h, t] \<Rightarrow>
          (let hd' = groups_between h; tl' = groups_between t
           in if length hd' + length tl' < 8 then Some (hd' @ replicate (8 - length hd' - length tl') ''0'' @ tl') else None)
      | _ \<Rightarrow> None)"

definition ipv6_bytes :: "string \<Rightarrow> 8 word list option" where
  "ipv6_bytes s0 =
     (let s1 = takeWhile (\<lambda>c. c \<noteq> CHR ''%'') s0; (pre, tail) = last_piece s1;
          s = (if pre \<noteq> [] \<and> dotted_tail tail
               then map_option (\<lambda>v4. pre @ show_hex (unat (v4 ! 0) * 256 + unat (v4 ! 1)) @ '':''
                      @ show_hex (unat (v4 ! 2) * 256 + unat (v4 ! 3))) (ipv4_bytes tail)
               else Some s1)
      in case Option.bind s ipv6_groups of
           Some gs \<Rightarrow> if length gs = 8 \<and> list_all hex_group gs then Some (concat (map (enc16 \<circ> hex_group_val) gs)) else None
         | None \<Rightarrow> None)"

section \<open>Records\<close>

definition T_A :: nat where "T_A = 1"
definition T_NS :: nat where "T_NS = 2"
definition T_SOA :: nat where "T_SOA = 6"
definition T_TXT :: nat where "T_TXT = 16"
definition T_AAAA :: nat where "T_AAAA = 28"
definition T_SRV :: nat where "T_SRV = 33"
definition T_OPT :: nat where "T_OPT = 41"
definition T_ANY :: nat where "T_ANY = 255"

datatype rcode = NoError | ServFail | NxDomain | NotImp | Refused

primrec rcode_num :: "rcode \<Rightarrow> nat" where
  "rcode_num NoError = 0" | "rcode_num ServFail = 2" | "rcode_num NxDomain = 3" | "rcode_num NotImp = 4" | "rcode_num Refused = 5"

definition enc32 :: "nat \<Rightarrow> 8 word list" where
  "enc32 n = enc16 (n div 65536) @ enc16 n"

definition latin1_bytes :: "string \<Rightarrow> 8 word list" where
  "latin1_bytes s = map of_char s"

definition enc_label :: "8 word list \<Rightarrow> 8 word list" where
  "enc_label b = of_nat (length b) # b"

definition encode_name :: "string \<Rightarrow> 8 word list option" where
  "encode_name name =
     (let ls = map latin1_bytes (filter (\<lambda>l. l \<noteq> []) (split_on (CHR ''.'') name))
      in if list_ex (\<lambda>b. 63 < length b) ls then None else Some (concat (map enc_label ls) @ [0]))"

definition rr :: "string \<Rightarrow> nat \<Rightarrow> nat \<Rightarrow> 8 word list \<Rightarrow> 8 word list option" where
  "rr name type ttl rdata =
     map_option (\<lambda>n. n @ enc16 type @ enc16 1 @ enc32 ttl @ enc16 (length rdata) @ rdata) (encode_name name)"

fun txt_parts :: "8 word list \<Rightarrow> 8 word list" where
  "txt_parts d = (if length d \<le> 255 then enc_label d else enc_label (take 255 d) @ txt_parts (drop 255 d))"

declare txt_parts.simps [simp del]

definition txt_rr :: "string \<Rightarrow> string \<Rightarrow> 8 word list option" where
  "txt_rr name value = rr name T_TXT 30 (txt_parts (latin1_bytes value))"

definition UDP_MAX :: nat where "UDP_MAX = 1232"

definition OPT_RR :: "8 word list" where
  "OPT_RR = [0] @ enc16 T_OPT @ enc16 UDP_MAX @ enc32 0 @ enc16 0"

section \<open>Queries\<close>

record dns_query =
  dq_id :: nat
  dq_opcode :: nat
  dq_rd :: bool
  dq_qname :: string
  dq_qtype :: nat
  dq_qclass :: nat
  dq_question :: "8 word list"
  dq_hadOpt :: bool

definition latin1_of :: "8 word list \<Rightarrow> string" where
  "latin1_of bs = map (\<lambda>b. char_of (unat b)) bs"

definition latin_lower :: "string \<Rightarrow> string" where
  "latin_lower s = map (\<lambda>c. let n = (of_char c :: nat)
     in if 65 \<le> n \<and> n \<le> 90 \<or> 192 \<le> n \<and> n \<le> 222 \<and> n \<noteq> 215 then char_of (n + 32) else c) s"

fun join_dots :: "string list \<Rightarrow> string" where
  "join_dots [] = []"
| "join_dots [x] = x"
| "join_dots (x # y # ys) = x @ CHR ''.'' # join_dots (y # ys)"

text \<open>The labels of the question and the offset behind them; \<open>count\<close> is how many were read before.\<close>

function qname_labels :: "8 word list \<Rightarrow> nat \<Rightarrow> nat \<Rightarrow> (string list \<times> nat) option" where
  "qname_labels msg count off =
     (if length msg \<le> off then None
      else (let len = unat (msg ! off)
            in if len = 0 then Some ([], off + 1)
               else if 64 \<le> len then None
               else if length msg < off + 1 + len \<or> 63 < count then None
               else map_option (\<lambda>(ls, k). (latin1_of (take len (drop (off + 1) msg)) # ls, k))
                      (qname_labels msg (Suc count) (off + 1 + len))))"
  by pat_completeness auto
termination by (relation "measure (\<lambda>(msg, c, off). length msg - off)") auto

declare qname_labels.simps [simp del]

function skip_name :: "8 word list \<Rightarrow> nat \<Rightarrow> nat" where
  "skip_name msg p =
     (if length msg \<le> p then p
      else (let l = unat (msg ! p) in if l = 0 then p + 1 else if 64 \<le> l then p + 2 else skip_name msg (p + 1 + l)))"
  by pat_completeness auto
termination by (relation "measure (\<lambda>(msg, p). length msg - p)") auto

declare skip_name.simps [simp del]

fun opt_scan :: "8 word list \<Rightarrow> nat \<Rightarrow> nat \<Rightarrow> bool" where
  "opt_scan msg 0 p = False"
| "opt_scan msg (Suc n) p =
     (if length msg \<le> p then False
      else (let k = skip_name msg p
            in if length msg < k + 10 then False
               else u16_at msg k = Some T_OPT \<or> opt_scan msg n (k + 10 + the (u16_at msg (k + 8)))))"

definition parse_query :: "8 word list \<Rightarrow> dns_query option" where
  "parse_query msg =
     (if length msg < 12 then None
      else (let flags = the (u16_at msg 2);
                counts = the (u16_at msg 6) + the (u16_at msg 8) + the (u16_at msg 10)
            in if 32768 \<le> flags \<or> u16_at msg 4 \<noteq> Some 1 then None
               else case qname_labels msg 0 12 of
                 None \<Rightarrow> None
               | Some (labels, off) \<Rightarrow>
                   if length msg < off + 4 then None
                   else Some \<lparr>dq_id = the (u16_at msg 0), dq_opcode = (flags div 2048) mod 16, dq_rd = odd (flags div 256),
                              dq_qname = latin_lower (join_dots labels), dq_qtype = the (u16_at msg off),
                              dq_qclass = the (u16_at msg (off + 2)), dq_question = take (off - 8) (drop 12 msg),
                              dq_hadOpt = opt_scan msg counts (off + 4)\<rparr>))"

section \<open>Responses\<close>

record dns_reply =
  rp_rcode :: rcode
  rp_aa :: bool
  rp_an :: "8 word list list"
  rp_au :: "8 word list list"
  rp_ad :: "8 word list list"

definition header :: "dns_query \<Rightarrow> dns_reply \<Rightarrow> bool \<Rightarrow> nat \<Rightarrow> nat \<Rightarrow> nat \<Rightarrow> 8 word list" where
  "header q r tc an au ad =
     enc16 (dq_id q)
     @ enc16 (32768 + (dq_opcode q mod 16) * 2048 + (if rp_aa r then 1024 else 0) + (if tc then 512 else 0)
         + (if dq_rd q then 256 else 0) + rcode_num (rp_rcode r))
     @ enc16 1 @ enc16 an @ enc16 au @ enc16 ad"

text \<open>A limit of 0 is none. Over it every record is dropped but the EDNS echo.\<close>

definition build_response :: "dns_query \<Rightarrow> dns_reply \<Rightarrow> nat \<Rightarrow> 8 word list" where
  "build_response q r limit =
     (let ad = (if dq_hadOpt q then rp_ad r @ [OPT_RR] else rp_ad r);
          msg = header q r False (length (rp_an r)) (length (rp_au r)) (length ad) @ dq_question q
                @ concat (rp_an r) @ concat (rp_au r) @ concat ad;
          keep = (if dq_hadOpt q then [OPT_RR] else [])
      in if limit = 0 \<or> length msg \<le> limit then msg
         else header q r True 0 0 (length keep) @ dq_question q @ concat keep)"

section \<open>Framing\<close>

text \<open>Complete frames of a TCP buffer, two bytes of length each, and what is left.\<close>

function take_frames :: "8 word list \<Rightarrow> 8 word list list \<times> 8 word list" where
  "take_frames buf =
     (if length buf < 2 then ([], buf)
      else (let len = the (u16_at buf 0)
            in if length buf < 2 + len then ([], buf)
               else (case take_frames (drop (2 + len) buf) of (fs, r) \<Rightarrow> (take len (drop 2 buf) # fs, r))))"
  by pat_completeness auto
termination by (relation "measure length") auto

declare take_frames.simps [simp del]

definition tcp_data :: "8 word list \<times> 8 word list list \<Rightarrow> 8 word list \<Rightarrow> 8 word list \<times> 8 word list list" where
  "tcp_data S d = (case take_frames (fst S @ d) of (fs, r) \<Rightarrow> (r, snd S @ fs))"

section \<open>What a resolver sends is read\<close>

lemma u16_at_less: "u16_at d k = Some n \<Longrightarrow> n < 65536"
  using unat_byte_less [of "d ! k"] unat_byte_less [of "d ! (k + 1)"] by (auto simp: u16_at_def split: if_splits)

lemma enc16_u16: "k + 1 < length d \<Longrightarrow> enc16 (the (u16_at d k)) = [d ! k, d ! (k + 1)]"
  using unat_byte_less [of "d ! (k + 1)"] by (simp add: u16_at_def enc16_def)

lemma length_latin1 [simp]: "length (latin1_of bs) = length bs" "length (latin1_bytes s) = length s"
  by (simp_all add: latin1_of_def latin1_bytes_def)

lemma qname_labels_encoded:
  assumes "list_all (\<lambda>b. b \<noteq> [] \<and> length b \<le> 63) ls" "count + length ls \<le> 64"
  shows "qname_labels (p @ concat (map enc_label ls) @ [0] @ q) count (length p)
    = Some (map latin1_of ls, length p + length (concat (map enc_label ls)) + 1)"
  using assms
proof (induction ls arbitrary: p count)
  case Nil
  show ?case by (subst qname_labels.simps) (simp add: nth_append)
next
  case (Cons b ls)
  let ?m = "p @ concat (map enc_label (b # ls)) @ [0] @ q"
  have b: "b \<noteq> []" "length b < 64" using Cons.prems(1) by auto
  then have n: "unat (?m ! length p) = length b" by (simp add: nth_append enc_label_def unat_byte)
  have t: "take (length b) (drop (length p + 1) ?m) = b" by (simp add: enc_label_def)
  have "qname_labels ((p @ enc_label b) @ concat (map enc_label ls) @ [0] @ q) (Suc count) (length (p @ enc_label b))
      = Some (map latin1_of ls, length (p @ enc_label b) + length (concat (map enc_label ls)) + 1)"
    using Cons.prems by (intro Cons.IH) auto
  then have r: "qname_labels ?m (Suc count) (length p + 1 + length b)
      = Some (map latin1_of ls, length p + 1 + length b + length (concat (map enc_label ls)) + 1)"
    by (simp add: enc_label_def)
  have l: "\<not> length ?m \<le> length p" "\<not> length ?m < length p + 1 + length b" "\<not> 63 < count"
    using Cons.prems(2) by (simp_all add: enc_label_def)
  have "qname_labels ?m count (length p) = Some (latin1_of b # map latin1_of ls, length p + 1 + length b + length (concat (map enc_label ls)) + 1)"
    using b l unfolding qname_labels.simps [of ?m count "length p"] Let_def n t r by simp
  then show ?case by (simp add: enc_label_def [of b] add.assoc)
qed

definition query_bytes :: "nat \<Rightarrow> bool \<Rightarrow> 8 word list list \<Rightarrow> nat \<Rightarrow> nat \<Rightarrow> bool \<Rightarrow> 8 word list" where
  "query_bytes i rd ls qtype qclass edns =
     (enc16 i @ enc16 (if rd then 256 else 0) @ enc16 1 @ enc16 0 @ enc16 0 @ enc16 (if edns then 1 else 0))
     @ concat (map enc_label ls) @ [0] @ (enc16 qtype @ enc16 qclass) @ (if edns then OPT_RR else [])"

lemma query_parsed:
  assumes "list_all (\<lambda>b. b \<noteq> [] \<and> length b \<le> 63) ls" and "length ls \<le> 64"
    and "i < 65536" and "qtype < 65536" and "qclass < 65536"
  shows "parse_query (query_bytes i rd ls qtype qclass edns) =
    Some \<lparr>dq_id = i, dq_opcode = 0, dq_rd = rd, dq_qname = latin_lower (join_dots (map latin1_of ls)), dq_qtype = qtype,
      dq_qclass = qclass, dq_question = concat (map enc_label ls) @ [0] @ enc16 qtype @ enc16 qclass, dq_hadOpt = edns\<rparr>"
proof -
  let ?n = "concat (map enc_label ls)" and ?t = "if edns then OPT_RR else []"
  let ?m = "query_bytes i rd ls qtype qclass edns"
  define h where "h = enc16 i @ enc16 (if rd then 256 else 0) @ enc16 1 @ enc16 0 @ enc16 0 @ enc16 (if edns then 1 else 0)"
  have h: "length h = 12" by (simp add: h_def)
  have m: "?m = h @ ?n @ [0] @ (enc16 qtype @ enc16 qclass) @ ?t" by (simp add: query_bytes_def h_def)
  have u: "u16_at (h @ x) 0 = Some i" "u16_at (h @ x) 2 = Some (if rd then 256 else 0)" "u16_at (h @ x) 4 = Some 1"
    "u16_at (h @ x) 6 = Some 0" "u16_at (h @ x) 8 = Some 0" "u16_at (h @ x) 10 = Some (if edns then 1 else 0)" for x
    using assms(3) u16_at_append [of "enc16 i" _ 0] u16_at_append [of "enc16 i @ enc16 (if rd then 256 else 0)" _ 0]
      u16_at_append [of "enc16 i @ enc16 (if rd then 256 else 0) @ enc16 1" _ 0]
      u16_at_append [of "enc16 i @ enc16 (if rd then 256 else 0) @ enc16 1 @ enc16 0" _ 0]
      u16_at_append [of "enc16 i @ enc16 (if rd then 256 else 0) @ enc16 1 @ enc16 0 @ enc16 0" _ 0]
    by (simp_all add: h_def)
  have q: "qname_labels ?m 0 12 = Some (map latin1_of ls, 12 + length ?n + 1)"
    using qname_labels_encoded [OF assms(1), of 0 h "(enc16 qtype @ enc16 qclass) @ ?t"] assms(2) unfolding m by (simp add: h)
  let ?o = "12 + length ?n + 1"
  have t: "u16_at ?m ?o = Some qtype"
    using u16_at_append [of "h @ ?n @ [0]" "enc16 qtype @ enc16 qclass @ ?t" 0] assms(4) unfolding m by (simp add: h)
  have c: "u16_at ?m (?o + 2) = Some qclass"
    using u16_at_append [of "h @ ?n @ [0] @ enc16 qtype" "enc16 qclass @ ?t" 0] assms(5) unfolding m by (simp add: h)
  have raw: "take (?o - 8) (drop 12 ?m) = ?n @ [0] @ enc16 qtype @ enc16 qclass"
    unfolding m using h by simp
  have e: "opt_scan ?m (if edns then 1 else 0) (?o + 4) = edns"
  proof (cases edns)
    case True
    have m': "?m = (h @ ?n @ [0] @ enc16 qtype @ enc16 qclass) @ OPT_RR" unfolding m by (simp add: True)
    have l: "length (h @ ?n @ [0] @ enc16 qtype @ enc16 qclass) = ?o + 4" by (simp add: h)
    have "?m ! (?o + 4) = 0" unfolding m' l [symmetric] nth_append by (simp add: OPT_RR_def)
    then have "skip_name ?m (?o + 4) = ?o + 5"
      by (subst skip_name.simps) (simp add: m' l [symmetric] h OPT_RR_def)
    moreover have "u16_at ?m (?o + 5) = Some T_OPT"
      using u16_at_append [of "(h @ ?n @ [0] @ enc16 qtype @ enc16 qclass) @ [0]" "enc16 T_OPT @ enc16 UDP_MAX @ enc32 0 @ enc16 0" 0]
      unfolding m' OPT_RR_def by (simp add: h T_OPT_def)
    moreover have "length ?m = ?o + 15" unfolding m' by (simp add: h OPT_RR_def enc32_def)
    ultimately show ?thesis using True by simp
  qed simp
  have len: "12 \<le> length ?m" "?o + 4 \<le> length ?m" unfolding m by (simp_all add: h)
  have u': "u16_at ?m 0 = Some i" "u16_at ?m 2 = Some (if rd then 256 else 0)" "u16_at ?m 4 = Some 1"
    "u16_at ?m 6 = Some 0" "u16_at ?m 8 = Some 0" "u16_at ?m 10 = Some (if edns then 1 else 0)"
    unfolding m by (rule u)+
  show ?thesis
    unfolding parse_query_def Let_def q u' option.case prod.case option.sel t c raw
    using len e by (simp add: raw [simplified])
qed

text \<open>
  Every query a resolver sends is read as it was meant: the identifier, the recursion flag, the name
  of its labels in lower case, the type and class, the question verbatim and whether it carries EDNS, for
  any labels of 1 to 63 bytes up to 64 of them.
\<close>

theorem query_is_read_back:
  assumes "list_all (\<lambda>b. b \<noteq> [] \<and> length b \<le> 63) ls" and "length ls \<le> 64"
    and "i < 65536" and "qtype < 65536" and "qclass < 65536"
  shows "parse_query (query_bytes i rd ls qtype qclass edns) =
    Some \<lparr>dq_id = i, dq_opcode = 0, dq_rd = rd, dq_qname = latin_lower (join_dots (map latin1_of ls)), dq_qtype = qtype,
      dq_qclass = qclass, dq_question = concat (map enc_label ls) @ [0] @ enc16 qtype @ enc16 qclass, dq_hadOpt = edns\<rparr>"
  using assms by (rule query_parsed)

theorem query_is_read_back_witness:
  "parse_query (query_bytes 7 True [[65], [98, 99]] 28 1 True) =
    Some \<lparr>dq_id = 7, dq_opcode = 0, dq_rd = True, dq_qname = ''a.bc'', dq_qtype = 28,
      dq_qclass = 1, dq_question = [1, 65, 2, 98, 99, 0, 0, 28, 0, 1], dq_hadOpt = True\<rparr>"
proof -
  have "latin_lower (join_dots (map latin1_of [[65], [98, 99]])) = ''a.bc''"
    "concat (map enc_label [[65], [98, 99]]) @ [0] @ enc16 28 @ enc16 1 = [1, 65, 2, 98, 99, 0, 0, 28, 0, 1]"
    by code_simp+
  then show ?thesis using query_is_read_back [of "[[65], [98, 99]]" 7 28 1 True True] by simp
qed

section \<open>The size of an answer\<close>

lemma qname_labels_bound: "qname_labels msg count off = Some (ls, k) \<Longrightarrow> off < k \<and> k \<le> length msg"
proof (induction msg count off arbitrary: ls k rule: qname_labels.induct)
  case (1 msg count off)
  let ?len = "unat (msg ! off)"
  have lt: "off < length msg" using "1.prems" by (subst (asm) qname_labels.simps) (auto split: if_splits)
  show ?case
  proof (cases "?len = 0")
    case True
    with "1.prems" lt show ?thesis by (subst (asm) qname_labels.simps) (auto simp: Let_def)
  next
    case False
    with "1.prems" lt obtain ls' where r: "\<not> 64 \<le> ?len" "\<not> (length msg < off + 1 + ?len \<or> 63 < count)"
      "qname_labels msg (Suc count) (off + 1 + ?len) = Some (ls', k)"
      by (subst (asm) qname_labels.simps) (auto simp: Let_def split: if_splits)
    have "off + 1 + ?len < k \<and> k \<le> length msg"
      by (rule "1.IH" [OF _ refl _ r(1,2,3)]) (use lt False in auto)
    then show ?thesis by simp
  qed
qed

lemma skip_name_greater: "p < length msg \<Longrightarrow> p < skip_name msg p"
proof (induction msg p rule: skip_name.induct)
  case (1 msg p)
  let ?l = "unat (msg ! p)"
  show ?case
  proof (cases "?l = 0 \<or> 64 \<le> ?l")
    case True
    with "1.prems" show ?thesis by (subst skip_name.simps) (auto simp: Let_def)
  next
    case False
    with "1.prems" have e: "skip_name msg p = skip_name msg (p + 1 + ?l)" by (subst skip_name.simps) (simp add: Let_def)
    show ?thesis
    proof (cases "p + 1 + ?l < length msg")
      case True
      have "p + 1 + ?l < skip_name msg (p + 1 + ?l)" by (rule "1.IH") (use "1.prems" False True in auto)
      then show ?thesis by (simp add: e)
    next
      case False
      then have "skip_name msg (p + 1 + ?l) = p + 1 + ?l" by (subst skip_name.simps) simp
      then show ?thesis by (simp add: e)
    qed
  qed
qed

lemma opt_scan_room: "opt_scan msg n p \<Longrightarrow> p + 11 \<le> length msg"
proof (induction msg n p rule: opt_scan.induct)
  case (2 msg n p)
  then have "p < length msg" "skip_name msg p + 10 \<le> length msg" by (auto simp: Let_def split: if_splits)
  with skip_name_greater [of p msg] show ?case by linarith
qed simp

lemma parsed_query:
  assumes "parse_query msg = Some q"
  shows "12 + length (dq_question q) \<le> length msg" "dq_hadOpt q \<Longrightarrow> 23 + length (dq_question q) \<le> length msg"
    "dq_question q = take (length (dq_question q)) (drop 12 msg)" "12 \<le> length msg" "dq_id q = the (u16_at msg 0)"
proof -
  from assms obtain ls off n where o: "12 \<le> length msg" "qname_labels msg 0 12 = Some (ls, off)" "off + 4 \<le> length msg"
    and q: "dq_question q = take (off - 8) (drop 12 msg)" "dq_hadOpt q = opt_scan msg n (off + 4)" "dq_id q = the (u16_at msg 0)"
    by (auto simp: parse_query_def Let_def split: if_splits option.splits)
  from qname_labels_bound [OF o(2)] have "12 < off" by simp
  with o q(1) have l: "length (dq_question q) = off - 8" by simp
  with o(3) \<open>12 < off\<close> show "12 + length (dq_question q) \<le> length msg" by simp
  show "23 + length (dq_question q) \<le> length msg" if "dq_hadOpt q"
    using opt_scan_room [of msg n "off + 4"] q(2) that l \<open>12 < off\<close> by simp
  show "dq_question q = take (length (dq_question q)) (drop 12 msg)" unfolding l by (rule q(1))
  show "12 \<le> length msg" "dq_id q = the (u16_at msg 0)" by (rule o(1), rule q(3))
qed

lemma length_header [simp]: "length (header q r tc an au ad) = 12"
  by (simp add: header_def)

lemma response_size:
  assumes "parse_query msg = Some q" "limit \<noteq> 0"
  shows "length (build_response q r limit) \<le> max limit (length msg)"
  using parsed_query(1,2) [OF assms(1)] assms(2)
  by (auto simp: build_response_def Let_def OPT_RR_def enc32_def)

lemma response_shape: "\<exists>tc an au ad x. build_response q r limit = header q r tc an au ad @ dq_question q @ x"
  unfolding build_response_def Let_def by (simp only: append_assoc split: if_split) blast

lemma response_starts:
  assumes "parse_query msg = Some q"
  shows "\<exists>flags rest. build_response q r limit = take 2 msg @ enc16 (32768 + flags) @ rest \<and> flags < 32768
     \<and> take (length (dq_question q)) (drop 12 (build_response q r limit)) = take (length (dq_question q)) (drop 12 msg)"
proof -
  let ?b = "build_response q r limit"
  have "enc16 (dq_id q) = [msg ! 0, msg ! 1]" using parsed_query(4,5) [OF assms] enc16_u16 [of 0 msg] by simp
  also have "\<dots> = take 2 msg"
    using parsed_query(4) [OF assms] by (cases msg; cases "tl msg") (auto simp: numeral_2_eq_2)
  finally have i: "enc16 (dq_id q) = take 2 msg" .
  obtain tc an au ad x where b: "?b = header q r tc an au ad @ dq_question q @ x"
    using response_shape by blast
  have "rcode_num (rp_rcode r) < 6" by (cases "rp_rcode r") simp_all
  moreover have "(dq_opcode q mod 16) * 2048 \<le> 15 * 2048" using mod_less_divisor [of 16 "dq_opcode q"] by (intro mult_right_mono) linarith+
  ultimately have "(dq_opcode q mod 16) * 2048 + (if rp_aa r then 1024 else 0) + (if tc then 512 else 0)
         + (if dq_rd q then 256 else 0) + rcode_num (rp_rcode r) < 32768" (is "?f < _") by auto
  moreover have "?b = take 2 msg @ enc16 (32768 + ?f) @ (enc16 1 @ enc16 an @ enc16 au @ enc16 ad @ dq_question q @ x)"
    unfolding b header_def i [symmetric] by (simp add: add.assoc)
  moreover have "take (length (dq_question q)) (drop 12 ?b) = dq_question q" unfolding b by simp
  ultimately show ?thesis using parsed_query(3) [OF assms] by (intro exI) auto
qed

section \<open>Framing does not depend on the segments\<close>

lemma take_frames_append:
  "take_frames (a @ b) = (case take_frames a of (fs, r) \<Rightarrow> (case take_frames (r @ b) of (gs, r') \<Rightarrow> (fs @ gs, r')))"
proof (induction a rule: take_frames.induct)
  case (1 a)
  let ?len = "the (u16_at a 0)"
  show ?case
  proof (cases "length a < 2 \<or> length a < 2 + ?len")
    case True
    then have "take_frames a = ([], a)" by (subst take_frames.simps) (auto simp: Let_def)
    then show ?thesis by (simp split: prod.split)
  next
    case False
    then have u: "the (u16_at (a @ b) 0) = ?len" by (cases a; cases "tl a") (auto simp: u16_at_def)
    from False have "take_frames (a @ b) = (case take_frames (drop (2 + ?len) a @ b) of (fs, r) \<Rightarrow> (take ?len (drop 2 a) # fs, r))"
      by (subst take_frames.simps) (simp add: u Let_def)
    moreover from False have "take_frames a = (case take_frames (drop (2 + ?len) a) of (fs, r) \<Rightarrow> (take ?len (drop 2 a) # fs, r))"
      by (subst take_frames.simps) (simp add: Let_def)
    ultimately show ?thesis using "1.IH" [OF _ refl] False by (auto split: prod.splits)
  qed
qed

lemma tcp_data_frames:
  "snd (foldl tcp_data (r0, fs0) chunks) = fs0 @ fst (take_frames (r0 @ concat chunks))
   \<and> fst (foldl tcp_data (r0, fs0) chunks) = snd (take_frames (r0 @ concat chunks))"
  if "take_frames r0 = ([], r0)" for r0
  using that
proof (induction chunks arbitrary: r0 fs0)
  case Nil
  then show ?case by simp
next
  case (Cons c cs)
  obtain fs r where f: "take_frames (r0 @ c) = (fs, r)" by (cases "take_frames (r0 @ c)")
  have "take_frames r = ([], r)"
    using take_frames_append [of "r0 @ c" "[]"] f by (auto split: prod.splits)
  from Cons.IH [OF this, of "fs0 @ fs"] f take_frames_append [of "r0 @ c" "concat cs"]
  show ?case by (auto simp: tcp_data_def split: prod.splits)
qed

text \<open>
  The queries read from a TCP connection depend on its bytes and not on how they are cut into
  segments: any two ways of cutting the same bytes give the same frames in the same order.
\<close>

theorem dns_framing_ignores_segments:
  "foldl tcp_data ([], []) chunks = (snd (take_frames (concat chunks)), fst (take_frames (concat chunks)))"
proof -
  have "take_frames [] = ([], [])" by (subst take_frames.simps) simp
  from tcp_data_frames [OF this, of "[]" chunks] show ?thesis by (simp add: prod_eq_iff)
qed

end
