(* ===== verification/Dns_Server.thy ===== *)
theory Dns_Server
  imports Dns_Wire Fleet_Directory Store_Limits Js_Json
begin

text \<open>
  The authoritative name server (\<open>relay/dns-relay.js\<close>): the state it answers from, the resolution of its
  four zones, one query in and one response out, and the API through which certificates' challenge records
  are pushed. The fleet and ledger are those of \<open>Fleet_Directory\<close>; the keyed hash and the recovery of
  the signer of a message are arguments.
\<close>

section \<open>Configuration and state\<close>

type_synonym bytes = "8 word list"

record dns_cfg =
  nz_ip :: string
  nz_app :: string
  nz_tcp :: "string option"
  nz_box :: "string option"
  nz_ns :: string
  nz_serial :: nat
  nz_appA :: "bytes option"
  nz_appAaaa :: "bytes option"
  nz_tcpA :: "bytes option"
  nz_tcpAaaa :: "bytes option"
  nz_boxA :: "bytes option"
  nz_boxAaaa :: "bytes option"
  nz_key :: string
  nz_txtTtl :: rat

definition fqdn :: "string \<Rightarrow> string" where
  "fqdn s = strip_dots (to_lower (js_trim s))"

text \<open>The key for pushes: \<open>SECRET\<close> stands in when \<open>DNS_TXT_KEY\<close> is not set; no other shape is a key.\<close>

definition txt_key :: "string option \<Rightarrow> string option \<Rightarrow> string" where
  "txt_key key secret =
     (let text = (\<lambda>x. js_trim (case x of Some t \<Rightarrow> t | None \<Rightarrow> []));
          k = (if text key \<noteq> [] then text key else text secret)
      in if hex_str 64 64 (to_lower k) then k else [])"

record net_row =
  nr_hex :: string
  nr_address :: string
  nr_tcp :: "nat list"

record relay_pick =
  rl_a :: "bytes option"
  rl_aaaa :: "bytes option"
  rl_relay :: string

type_synonym txt_store = "(string \<times> (string \<times> rat) list) list"

record dns_state =
  ds_perOrigin :: "(string \<times> net_row list) list"
  ds_deployments :: "net_row list"
  ds_relays :: "(string \<times> relay_pick) list"
  ds_txt :: txt_store
  ds_rate :: buckets
  ds_opRate :: buckets
  ds_lastFresh :: int
  ds_fleet :: fleet_state

section \<open>Polls\<close>

record net_map_row =
  nm_id :: string
  nm_address :: string
  nm_tcp :: "string list"

definition is_bytes32 :: "string \<Rightarrow> bool" where
  "is_bytes32 i \<longleftrightarrow> prefix ''0x'' i \<and> hex_str 64 64 (to_lower (drop 2 i))"

definition net_row_of :: "net_map_row \<Rightarrow> net_row option" where
  "net_row_of d =
     (if nm_address d = [] \<or> \<not> is_bytes32 (nm_id d) then None
      else Some \<lparr>nr_hex = to_lower (drop 2 (nm_id d)), nr_address = nm_address d,
                 nr_tcp = map nat (filter (\<lambda>p. 0 < p \<and> p < 65536) (List.map_filter parse_int10 (nm_tcp d)))\<rparr>)"

text \<open>A failed read keeps an origin's rows, an origin that left drops them, the first row of an id counts.\<close>

definition poll_net :: "(string \<times> (bool \<times> net_map_row list) option) list \<Rightarrow> dns_state \<Rightarrow> dns_state" where
  "poll_net answers S =
     (let per = foldl (\<lambda>m (origin, a). case a of
                  None \<Rightarrow> m
                | Some (enabled, ds) \<Rightarrow> AList.update origin (if enabled then List.map_filter net_row_of ds else []) m) (ds_perOrigin S) answers;
          kept = filter (\<lambda>(origin, rows). origin \<in> set (map fst answers)) per;
          byId = foldl (\<lambda>m r. case map_of m (nr_hex r) of Some x \<Rightarrow> m | None \<Rightarrow> m @ [(nr_hex r, r)]) [] (concat (map snd kept))
      in S\<lparr>ds_perOrigin := kept, ds_deployments := map snd byId\<rparr>)"

definition relay_pick_of :: "string \<times> string \<times> string \<times> string \<Rightarrow> (string \<times> relay_pick) option" where
  "relay_pick_of x =
     (case x of (label, a, aaaa, relay) \<Rightarrow>
        let v4 = (if a = [] then None else ipv4_bytes a); v6 = (if aaaa = [] then None else ipv6_bytes aaaa)
        in if label = [] \<or> 63 < length label \<or> \<not> list_all (\<lambda>c. c \<in> set ''0123456789abcdefghijklmnopqrstuvwxyz'') label
              \<or> (v4 = None \<and> v6 = None) then None
           else Some (label, \<lparr>rl_a = v4, rl_aaaa = v6, rl_relay = relay\<rparr>))"

definition poll_relay_map :: "(string \<times> string \<times> string \<times> string) list option \<Rightarrow> dns_state \<Rightarrow> dns_state" where
  "poll_relay_map answer S =
     (case answer of
        None \<Rightarrow> S
      | Some labels \<Rightarrow> S\<lparr>ds_relays := foldl (\<lambda>m (l, p). AList.update l p m) [] (List.map_filter relay_pick_of labels)\<rparr>)"

section \<open>Challenge records\<close>

definition MAX_TXT_NAMES :: nat where "MAX_TXT_NAMES = 2048"
definition MAX_TXT_VALUES :: nat where "MAX_TXT_VALUES = 8"

definition txt_values :: "rat \<Rightarrow> string \<Rightarrow> txt_store \<Rightarrow> string list \<times> txt_store" where
  "txt_values now name T =
     (case map_of T name of
        None \<Rightarrow> ([], T)
      | Some vals \<Rightarrow>
          (let live = filter (\<lambda>(v, e). now < e) vals
           in if live = [] then ([], AList.delete name T) else (map fst live, AList.update name live T)))"

definition txt_sweep :: "rat \<Rightarrow> txt_store \<Rightarrow> txt_store" where
  "txt_sweep now T = foldl (\<lambda>T name. snd (txt_values now name T)) T (map fst T)"

definition oldest_value :: "(string \<times> rat) list \<Rightarrow> string" where
  "oldest_value vals = fst (the (foldl (\<lambda>best x. case best of None \<Rightarrow> Some x | Some y \<Rightarrow> if snd x < snd y then Some x else best) None vals))"

function trim_values :: "(string \<times> rat) list \<Rightarrow> (string \<times> rat) list" where
  "trim_values vals =
     (if MAX_TXT_VALUES < length vals \<and> length (AList.delete (oldest_value vals) vals) < length vals
      then trim_values (AList.delete (oldest_value vals) vals) else vals)"
  by pat_completeness auto
termination by (relation "measure length") auto

declare trim_values.simps [simp del]

section \<open>Resolution\<close>

definition NEG_TTL :: nat where "NEG_TTL = 60"
definition RELAY_TTL :: nat where "RELAY_TTL = 60"

definition rname_of :: "string \<Rightarrow> string" where
  "rname_of ns = ''hostmaster.'' @ (if CHR ''.'' \<in> set ns then tl (dropWhile (\<lambda>c. c \<noteq> CHR ''.'') ns) else ns)"

definition soa_rr :: "dns_cfg \<Rightarrow> string \<Rightarrow> bytes option" where
  "soa_rr C zone =
     (case (encode_name (nz_ns C), encode_name (rname_of (nz_ns C))) of
        (Some m, Some r) \<Rightarrow> rr zone T_SOA NEG_TTL (m @ r @ enc32 (nz_serial C) @ enc32 3600 @ enc32 600 @ enc32 604800 @ enc32 NEG_TTL)
      | _ \<Rightarrow> None)"

definition ns_rr :: "dns_cfg \<Rightarrow> string \<Rightarrow> bytes option" where
  "ns_rr C zone = Option.bind (encode_name (nz_ns C)) (rr zone T_NS 300)"

definition srv_rr :: "string \<Rightarrow> nat \<Rightarrow> string \<Rightarrow> bytes option" where
  "srv_rr name port target = Option.bind (encode_name target) (\<lambda>t. rr name T_SRV 60 (enc16 0 @ enc16 0 @ enc16 port @ t))"

definition hit :: "bytes option list \<Rightarrow> bytes option list \<Rightarrow> dns_reply option" where
  "hit an ad =
     (case (those an, those ad) of
        (Some x, Some y) \<Rightarrow> Some \<lparr>rp_rcode = NoError, rp_aa = True, rp_an = x, rp_au = [], rp_ad = y\<rparr>
      | _ \<Rightarrow> None)"

definition negative :: "dns_cfg \<Rightarrow> rcode \<Rightarrow> string \<Rightarrow> dns_reply option" where
  "negative C rc zone = map_option (\<lambda>s. \<lparr>rp_rcode = rc, rp_aa = True, rp_an = [], rp_au = [s], rp_ad = []\<rparr>) (soa_rr C zone)"

definition empty_reply :: "rcode \<Rightarrow> dns_reply" where
  "empty_reply rc = \<lparr>rp_rcode = rc, rp_aa = False, rp_an = [], rp_au = [], rp_ad = []\<rparr>"

definition apex :: "dns_cfg \<Rightarrow> string \<Rightarrow> nat \<Rightarrow> dns_reply option" where
  "apex C zone qtype =
     (let an = (if qtype = T_SOA \<or> qtype = T_ANY then [soa_rr C zone] else []) @ (if qtype = T_NS \<or> qtype = T_ANY then [ns_rr C zone] else [])
      in if an \<noteq> [] then hit an [] else negative C NoError zone)"

definition under :: "string \<Rightarrow> string \<Rightarrow> string" where
  "under zone qname = take (length qname - (length zone + 1)) qname"

text \<open>The label a name of the address zone asks about, and whether it asks for the service record.\<close>

definition ip_label :: "string \<Rightarrow> (bool \<times> string) option" where
  "ip_label sub =
     (case strip_prefix ''_minecraft._tcp.'' sub of
        Some l \<Rightarrow> if l \<noteq> [] \<and> CHR ''.'' \<notin> set l then Some (True, l) else None
      | None \<Rightarrow> if sub \<noteq> [] \<and> CHR ''.'' \<notin> set sub then Some (False, sub) else None)"

definition resolve_ip :: "dns_cfg \<Rightarrow> net_row list \<Rightarrow> string \<Rightarrow> nat \<Rightarrow> dns_reply option" where
  "resolve_ip C deployments qname qtype =
     (if qname = nz_ip C then apex C (nz_ip C) qtype
      else case ip_label (under (nz_ip C) qname) of
        None \<Rightarrow> negative C NxDomain (nz_ip C)
      | Some (wantSrv, label) \<Rightarrow>
          (let hex = strip_dep label; hits = filter (\<lambda>d. prefix hex (nr_hex d)) deployments
           in if \<not> hex_str 8 64 hex then negative C NxDomain (nz_ip C)
              else case hits of
                [d] \<Rightarrow>
                  (let v6 = ipv6_bytes (nr_address d)
                   in if wantSrv
                      then (if (qtype \<noteq> T_SRV \<and> qtype \<noteq> T_ANY) \<or> nr_tcp d = [] then negative C NoError (nz_ip C)
                            else (let target = label @ ''.'' @ nz_ip C
                                  in hit [srv_rr qname (hd (nr_tcp d)) target]
                                         (case v6 of Some a \<Rightarrow> [rr target T_AAAA 60 a] | None \<Rightarrow> [])))
                      else if qtype = T_AAAA \<or> qtype = T_ANY
                      then (case v6 of Some a \<Rightarrow> hit [rr qname T_AAAA 60 a] [] | None \<Rightarrow> negative C NoError (nz_ip C))
                      else negative C NoError (nz_ip C))
              | _ \<Rightarrow> negative C NxDomain (nz_ip C)))"

definition ACME :: string where "ACME = ''_acme-challenge.''"

definition address_rrs :: "string \<Rightarrow> nat \<Rightarrow> nat \<Rightarrow> bytes option \<Rightarrow> bytes option \<Rightarrow> bytes option list" where
  "address_rrs qname qtype ttl a4 a6 =
     (case a4 of Some a \<Rightarrow> if qtype = T_A \<or> qtype = T_ANY then [rr qname T_A ttl a] else [] | None \<Rightarrow> [])
     @ (case a6 of Some a \<Rightarrow> if qtype = T_AAAA \<or> qtype = T_ANY then [rr qname T_AAAA ttl a] else [] | None \<Rightarrow> [])"

definition resolve_wildcard ::
  "dns_cfg \<Rightarrow> rat \<Rightarrow> string \<Rightarrow> nat \<Rightarrow> string \<Rightarrow> bytes option \<Rightarrow> bytes option \<Rightarrow> txt_store \<Rightarrow> dns_reply option \<times> txt_store" where
  "resolve_wildcard C now qname qtype zone a4 a6 T =
     (if qname = zone then (apex C zone qtype, T)
      else (let (vals, T') = (if (qtype = T_TXT \<or> qtype = T_ANY) \<and> prefix ACME qname then txt_values now qname T else ([], T));
                an = address_rrs qname qtype 300 a4 a6 @ map (txt_rr qname) vals
            in (if an \<noteq> [] then hit an [] else negative C NoError zone, T')))"

definition resolve_app :: "dns_cfg \<Rightarrow> rat \<Rightarrow> string \<Rightarrow> nat \<Rightarrow> (string \<times> relay_pick) list \<Rightarrow> txt_store \<Rightarrow> dns_reply option \<times> txt_store" where
  "resolve_app C now qname qtype relays T =
     (let zone = nz_app C; sub = under zone qname
      in if qname = zone then (apex C zone qtype, T)
         else case (if CHR ''.'' \<in> set sub then None else map_of relays sub) of
           None \<Rightarrow> resolve_wildcard C now qname qtype zone (nz_appA C) (nz_appAaaa C) T
         | Some pick \<Rightarrow>
             (let an = address_rrs qname qtype RELAY_TTL (rl_a pick) (rl_aaaa pick)
              in (if an \<noteq> [] then hit an [] else negative C NoError zone, T)))"

definition of_zone :: "string \<Rightarrow> string \<Rightarrow> bool" where
  "of_zone qname zone \<longleftrightarrow> qname = zone \<or> in_zone qname zone"

definition dns_answer :: "dns_cfg \<Rightarrow> rat \<Rightarrow> dns_query \<Rightarrow> dns_state \<Rightarrow> dns_reply option \<times> txt_store" where
  "dns_answer C now q S =
     (let n = dq_qname q; t = dq_qtype q; T = ds_txt S
      in if dq_opcode q \<noteq> 0 then (Some (empty_reply NotImp), T)
         else if dq_qclass q \<noteq> 1 \<and> dq_qclass q \<noteq> T_ANY then (Some (empty_reply Refused), T)
         else if of_zone n (nz_ip C) then (resolve_ip C (ds_deployments S) n t, T)
         else if of_zone n (nz_app C) then resolve_app C now n t (ds_relays S) T
         else case (nz_tcp C, nz_box C) of
           (tcp, box) \<Rightarrow>
             if (case tcp of Some z \<Rightarrow> of_zone n z | None \<Rightarrow> False) then resolve_wildcard C now n t (the tcp) (nz_tcpA C) (nz_tcpAaaa C) T
             else if (case box of Some z \<Rightarrow> of_zone n z | None \<Rightarrow> False) then resolve_wildcard C now n t (the box) (nz_boxA C) (nz_boxAaaa C) T
             else (Some (empty_reply Refused), T))"

text \<open>A query that does not parse is not answered; a resolution that throws is a server failure.\<close>

definition dns_handle :: "dns_cfg \<Rightarrow> rat \<Rightarrow> nat \<Rightarrow> bytes \<Rightarrow> dns_state \<Rightarrow> bytes option \<times> dns_state" where
  "dns_handle C now limit msg S =
     (case parse_query msg of
        None \<Rightarrow> (None, S)
      | Some q \<Rightarrow>
          (case dns_answer C now q S of
             (r, T) \<Rightarrow> (Some (build_response q (case r of Some x \<Rightarrow> x | None \<Rightarrow> empty_reply ServFail) limit), S\<lparr>ds_txt := T\<rparr>)))"

text \<open>A datagram: over the rate of its source it is dropped.\<close>

definition on_datagram :: "dns_cfg \<Rightarrow> int \<Rightarrow> string \<Rightarrow> bytes \<Rightarrow> dns_state \<Rightarrow> bytes option \<times> dns_state" where
  "on_datagram C now peer msg S =
     (case take_token 200 50 now peer (ds_rate S) of
        (ok, bs) \<Rightarrow> if ok then dns_handle C (of_int now) UDP_MAX msg (S\<lparr>ds_rate := bs\<rparr>) else (None, S\<lparr>ds_rate := bs\<rparr>))"

text \<open>A query framed on a TCP connection: no limit on the answer, which carries its length in front.\<close>

definition on_frame :: "dns_cfg \<Rightarrow> int \<Rightarrow> string \<Rightarrow> bytes \<Rightarrow> dns_state \<Rightarrow> bytes option \<times> dns_state" where
  "on_frame C now peer query S =
     (case take_token 200 50 now peer (ds_rate S) of
        (ok, bs) \<Rightarrow>
          if \<not> ok then (None, S\<lparr>ds_rate := bs\<rparr>)
          else (case dns_handle C (of_int now) 0 query (S\<lparr>ds_rate := bs\<rparr>) of
            (out, S') \<Rightarrow> (map_option (\<lambda>x. enc16 (length x) @ x) out, S')))"

section \<open>Pushing challenge records\<close>

definition check_sig :: "(string \<Rightarrow> string \<Rightarrow> string) \<Rightarrow> string \<Rightarrow> string option \<Rightarrow> string \<Rightarrow> bool" where
  "check_sig hmac key sig raw = (case sig of Some s \<Rightarrow> hex_str 64 64 (to_lower s) \<and> to_lower s = hmac key raw | None \<Rightarrow> False)"

datatype op_refusal = MalformedSignature | TimestampRequired | NotABoxName | BoxNotRegistered | NoSigner | NotTheBoxOperator
  | DeploymentRequired | OutsideZones | LabelNotHex | LabelNotOfDeployment | NoLiveLease | LabelAmbiguous

definition zone_suffix :: "string \<Rightarrow> string option \<Rightarrow> bool" where
  "zone_suffix name zone = (case zone of Some z \<Rightarrow> in_zone name z | None \<Rightarrow> False)"

text \<open>The signer of a raw body: \<open>recoverMessageAddress\<close>, which throws on what does not recover.\<close>

type_synonym recovery = "string \<Rightarrow> string \<Rightarrow> string option"

definition box_authority :: "recovery \<Rightarrow> dns_cfg \<Rightarrow> string \<Rightarrow> string \<Rightarrow> string \<Rightarrow> fleet_state \<Rightarrow> op_refusal option" where
  "box_authority recover C sig raw host F =
     (if \<not> is_box_host (nz_box C) host then Some NotABoxName
      else case operator_for_endpoint (''https://'' @ host) F of
        None \<Rightarrow> Some BoxNotRegistered
      | Some op \<Rightarrow>
          (case recover raw sig of
             None \<Rightarrow> Some NoSigner
           | Some a \<Rightarrow> if op \<noteq> to_lower a then Some NotTheBoxOperator else None))"

definition holds_lease :: "string \<Rightarrow> string \<Rightarrow> lease_info option \<Rightarrow> bool" where
  "holds_lease depId signer l = (case l of Some x \<Rightarrow> li_id x = depId \<and> li_live x \<and> li_operator x = signer | None \<Rightarrow> False)"

definition app_zone_of :: "dns_cfg \<Rightarrow> string \<Rightarrow> string option" where
  "app_zone_of C rest = (if in_zone rest (nz_app C) then Some (nz_app C) else if zone_suffix rest (nz_tcp C) then nz_tcp C else None)"

text \<open>The ledger reads of a request: the cached one, the forced one after it, and the one for the label.\<close>

definition lease_authority ::
  "recovery \<Rightarrow> dns_cfg \<Rightarrow> fleet_cfg \<Rightarrow> int \<Rightarrow> ledger_answer \<times> ledger_answer \<times> ledger_answer
   \<Rightarrow> string \<Rightarrow> string \<Rightarrow> json \<Rightarrow> string \<Rightarrow> dns_state \<Rightarrow> op_refusal option \<times> dns_state" where
  "lease_authority recover C F now reads sig raw body rest S =
     (case reads of (read1, read2, read3) \<Rightarrow>
      let depId = to_lower (text_or_empty (json_get ''deploymentId'' body))
      in if \<not> (prefix ''0x'' depId \<and> hex_str 64 64 (drop 2 depId)) then (Some DeploymentRequired, S)
         else case app_zone_of C rest of
           None \<Rightarrow> (Some OutsideZones, S)
         | Some zone \<Rightarrow>
             (let label = under zone rest
              in if \<not> hex_str 8 64 label then (Some LabelNotHex, S)
                 else if \<not> prefix label (drop 2 depId) then (Some LabelNotOfDeployment, S)
                 else case recover raw sig of
                   None \<Rightarrow> (Some NoSigner, S)
                 | Some a \<Rightarrow>
                     (let signer = to_lower a;
                          (l1, F1) = lease_for F now False read1 depId (ds_fleet S);
                          again = (\<not> holds_lease depId signer l1 \<and> 5000 < now - ds_lastFresh S);
                          (l2, F2) = (if again then lease_for F now True read2 depId F1 else (l1, F1));
                          S2 = S\<lparr>ds_fleet := F2, ds_lastFresh := (if again then now else ds_lastFresh S)\<rparr>
                      in if \<not> holds_lease depId signer l2 then (Some NoLiveLease, S2)
                         else case lease_for F now False read3 (''0x'' @ label) F2 of
                           (l3, F3) \<Rightarrow> ((if l3 = None then Some LabelAmbiguous else None), S2\<lparr>ds_fleet := F3\<rparr>))))"

definition operator_auth ::
  "recovery \<Rightarrow> dns_cfg \<Rightarrow> fleet_cfg \<Rightarrow> int \<Rightarrow> ledger_answer \<times> ledger_answer \<times> ledger_answer
   \<Rightarrow> string \<Rightarrow> string \<Rightarrow> json \<Rightarrow> string \<Rightarrow> dns_state \<Rightarrow> op_refusal option \<times> dns_state" where
  "operator_auth recover C F now reads sig raw body name S =
     (let rest = drop (length ACME) name
      in if \<not> (prefix ''0x'' sig \<and> hex_str 130 130 (to_lower (drop 2 sig))) then (Some MalformedSignature, S)
         else if (case json_get ''ts'' body of Some v \<Rightarrow> v = JNull | None \<Rightarrow> True) then (Some TimestampRequired, S)
         else if zone_suffix rest (nz_box C) then (box_authority recover C sig raw rest (ds_fleet S), S)
         else lease_authority recover C F now reads sig raw body rest S)"

record push_request =
  pq_post :: bool
  pq_peer :: string
  pq_raw :: string
  pq_sig :: "string option"
  pq_opSig :: "string option"

datatype push_reply = PushStored string nat rat | PushRemoved string nat | PushBusy | BadJson | Stale | BadName | BadValue
  | OperatorBusy | OperatorRefused op_refusal | BadSignature | NoKey | StoreFull

definition stale_push :: "int \<Rightarrow> json \<Rightarrow> bool" where
  "stale_push now body =
     (case json_get ''ts'' body of
        None \<Rightarrow> False
      | Some v \<Rightarrow> v \<noteq> JNull \<and> (case js_number v of Some ts \<Rightarrow> 300 < \<bar>of_int now / 1000 - ts\<bar> | None \<Rightarrow> True))"

definition string_field :: "string \<Rightarrow> json \<Rightarrow> string" where
  "string_field k body = (case json_get k body of Some (JStr s) \<Rightarrow> s | _ \<Rightarrow> [])"

definition push_name :: "json \<Rightarrow> string" where
  "push_name body = (case json_get ''name'' body of Some (JStr s) \<Rightarrow> fqdn s | _ \<Rightarrow> [])"

definition good_name :: "dns_cfg \<Rightarrow> string \<Rightarrow> bool" where
  "good_name C name \<longleftrightarrow> prefix ACME name \<and> length name \<le> 253
     \<and> (in_zone name (nz_app C) \<or> zone_suffix name (nz_tcp C) \<or> zone_suffix name (nz_box C))"

definition push_ttl :: "dns_cfg \<Rightarrow> json \<Rightarrow> rat" where
  "push_ttl C body = (case json_get ''ttlSec'' body of Some (JNum n) \<Rightarrow> if 0 < n then min (nz_txtTtl C) n else nz_txtTtl C | _ \<Rightarrow> nz_txtTtl C)"

text \<open>A new value under a name; a full store is first swept, then refuses a name it does not hold.\<close>

definition txt_push :: "rat \<Rightarrow> rat \<Rightarrow> string \<Rightarrow> string \<Rightarrow> txt_store \<Rightarrow> push_reply \<times> txt_store" where
  "txt_push now ttl name value T =
     (let full = map_of T name = None \<and> MAX_TXT_NAMES \<le> length T;
          T1 = (if full then txt_sweep now T else T)
      in if full \<and> MAX_TXT_NAMES \<le> length T1 then (StoreFull, T1)
         else (let vals = trim_values (AList.update value (now + ttl * 1000) (case map_of T1 name of Some v \<Rightarrow> v | None \<Rightarrow> []))
               in (PushStored name (length vals) ttl, AList.update name vals T1)))"

definition txt_delete :: "string \<Rightarrow> string \<Rightarrow> txt_store \<Rightarrow> push_reply \<times> txt_store" where
  "txt_delete name value T =
     (case map_of T name of
        None \<Rightarrow> (PushRemoved name 0, T)
      | Some vals \<Rightarrow>
          (let vs = AList.delete value vals
           in (PushRemoved name (length vs), if vs = [] then AList.delete name T else AList.update name vs T)))"

text \<open>Who a push comes from: the fleet's key, or an operator's signature within its own rate.\<close>

definition push_auth ::
  "(string \<Rightarrow> string \<Rightarrow> string) \<Rightarrow> recovery \<Rightarrow> dns_cfg \<Rightarrow> fleet_cfg \<Rightarrow> int \<Rightarrow> ledger_answer \<times> ledger_answer \<times> ledger_answer
   \<Rightarrow> push_request \<Rightarrow> json \<Rightarrow> string \<Rightarrow> dns_state \<Rightarrow> push_reply option \<times> dns_state" where
  "push_auth hmac recover C F now reads rq body name S =
     (if nz_key C \<noteq> [] \<and> check_sig hmac (nz_key C) (pq_sig rq) (pq_raw rq) then (None, S)
      else case pq_opSig rq of
        None \<Rightarrow> (Some (if nz_key C \<noteq> [] then BadSignature else NoKey), S)
      | Some sig \<Rightarrow>
          (case take_token 30 1 now (pq_peer rq) (ds_opRate S) of
             (ok, bs) \<Rightarrow>
               if \<not> ok then (Some OperatorBusy, S\<lparr>ds_opRate := bs\<rparr>)
               else (case operator_auth recover C F now reads sig (pq_raw rq) body name (S\<lparr>ds_opRate := bs\<rparr>) of
                 (why, S') \<Rightarrow> (map_option OperatorRefused why, S'))))"

definition push_body ::
  "(string \<Rightarrow> string \<Rightarrow> string) \<Rightarrow> recovery \<Rightarrow> dns_cfg \<Rightarrow> fleet_cfg \<Rightarrow> int \<Rightarrow> ledger_answer \<times> ledger_answer \<times> ledger_answer
   \<Rightarrow> push_request \<Rightarrow> json \<Rightarrow> dns_state \<Rightarrow> push_reply \<times> dns_state" where
  "push_body hmac recover C F now reads rq body S =
     (let name = push_name body; value = string_field ''value'' body
      in if stale_push now body then (Stale, S)
         else if \<not> good_name C name then (BadName, S)
         else if value = [] \<or> 1024 < length value then (BadValue, S)
         else case push_auth hmac recover C F now reads rq body name S of
           (Some refusal, S') \<Rightarrow> (refusal, S')
         | (None, S') \<Rightarrow>
             (case (if pq_post rq then txt_push (of_int now) (push_ttl C body) name value (ds_txt S') else txt_delete name value (ds_txt S')) of
                (r, T) \<Rightarrow> (r, S'\<lparr>ds_txt := T\<rparr>)))"

definition api_push ::
  "(string \<Rightarrow> string \<Rightarrow> string) \<Rightarrow> recovery \<Rightarrow> dns_cfg \<Rightarrow> fleet_cfg \<Rightarrow> int \<Rightarrow> ledger_answer \<times> ledger_answer \<times> ledger_answer
   \<Rightarrow> push_request \<Rightarrow> dns_state \<Rightarrow> push_reply \<times> dns_state" where
  "api_push hmac recover C F now reads rq S =
     (case take_token 200 50 now (pq_peer rq) (ds_rate S) of
        (ok, bs) \<Rightarrow>
          (let S1 = S\<lparr>ds_rate := bs\<rparr>
           in if \<not> ok then (PushBusy, S1)
              else case json_parse (pq_raw rq) of
                None \<Rightarrow> (BadJson, S1)
              | Some body \<Rightarrow> push_body hmac recover C F now reads rq body S1))"

end
