(* ===== verification/Dns_Safety.thy ===== *)
theory Dns_Safety
  imports Dns_Server
begin

text \<open>
  What the name server promises: its datagram answers are no amplifier, a name of the address zone leads to
  one deployment only, a challenge record was pushed by someone with authority over exactly that name, and
  the store of challenges stays bounded whatever happens.
\<close>

section \<open>Datagrams\<close>

lemma datagram_answer:
  assumes "on_datagram C now peer msg S = (Some out, S')"
  shows "\<exists>q r. parse_query msg = Some q \<and> out = build_response q r UDP_MAX"
  using assms by (auto simp: on_datagram_def dns_handle_def split: prod.splits if_splits option.splits)

text \<open>
  An answer to a datagram is at most 1232 bytes or the size of its query, whichever is larger, starts
  with the identifier of the query and the bit that marks a response, and repeats its question.
\<close>

theorem datagrams_never_amplify:
  assumes "on_datagram C now peer msg S = (Some out, S')"
  shows "length out \<le> max 1232 (length msg) \<and> take 2 out = take 2 msg \<and> 128 \<le> unat (out ! 2)
    \<and> (\<exists>q. parse_query msg = Some q \<and> take (length (dq_question q)) (drop 12 out) = dq_question q)"
proof -
  from datagram_answer [OF assms] obtain q r where q: "parse_query msg = Some q" and out: "out = build_response q r UDP_MAX"
    by blast
  from response_size [OF q, of UDP_MAX r] have "length out \<le> max 1232 (length msg)" unfolding out by (simp add: UDP_MAX_def)
  moreover from response_starts [OF q, of r UDP_MAX] obtain flags rest where o: "out = take 2 msg @ enc16 (32768 + flags) @ rest"
    "flags < 32768" and e: "take (length (dq_question q)) (drop 12 out) = take (length (dq_question q)) (drop 12 msg)"
    unfolding out by blast
  have l: "length (take 2 msg) = 2" using parsed_query(4) [OF q] by simp
  then have "take 2 out = take 2 msg" by (simp add: o(1))
  moreover have "out ! 2 = word_of_nat ((32768 + flags) div 256)" using l by (simp add: o(1) nth_append enc16_def)
  then have "unat (out ! 2) = (32768 + flags) div 256" using o(2) by (simp add: unat_of_nat)
  then have "128 \<le> unat (out ! 2)" by simp
  ultimately show ?thesis using q e parsed_query(3) [OF q] by auto
qed

section \<open>Names of the address zone\<close>

lemma those_Some: "those xs = Some ys \<Longrightarrow> map Some ys = xs"
  by (induction xs arbitrary: ys) (auto split: option.splits)

lemma hit_records: "hit an ad = Some r \<Longrightarrow> map Some (rp_an r) = an \<and> map Some (rp_ad r) = ad \<and> rp_au r = []"
  by (auto simp: hit_def split: option.splits dest!: those_Some)

text \<open>
  A name of the address zone is answered with records only when its label, a prefix of at least eight
  hexadecimal digits, names exactly one deployment, and every address given is that deployment's own.
\<close>

theorem names_lead_to_one_deployment:
  assumes "resolve_ip C deployments qname qtype = Some r" and "rp_an r \<noteq> []" and "qname \<noteq> nz_ip C"
  shows "\<exists>srv label d. ip_label (under (nz_ip C) qname) = Some (srv, label) \<and> 8 \<le> length (strip_dep label)
    \<and> filter (\<lambda>d. prefix (strip_dep label) (nr_hex d)) deployments = [d]
    \<and> (\<forall>x \<in> set (rp_an r) \<union> set (rp_ad r).
         (\<exists>a owner. ipv6_bytes (nr_address d) = Some a \<and> rr owner T_AAAA 60 a = Some x)
         \<or> srv \<and> nr_tcp d \<noteq> [] \<and> srv_rr qname (hd (nr_tcp d)) (label @ ''.'' @ nz_ip C) = Some x)"
proof -
  have neg: "rp_an r = []" if "negative C rc z = Some r" for rc z using that by (auto simp: negative_def)
  obtain srv label where l: "ip_label (under (nz_ip C) qname) = Some (srv, label)"
    using assms neg by (auto simp: resolve_ip_def split: option.splits)
  let ?hits = "filter (\<lambda>d. prefix (strip_dep label) (nr_hex d)) deployments"
  have h: "hex_str 8 64 (strip_dep label)"
    using assms neg l by (auto simp: resolve_ip_def Let_def split: if_splits)
  have "\<exists>d. ?hits = [d]"
    using assms neg l h by (auto simp: resolve_ip_def Let_def split: if_splits list.splits)
  then obtain d where d: "?hits = [d]" by blast
  have u: "resolve_ip C deployments qname qtype =
     (let v6 = ipv6_bytes (nr_address d)
                   in if srv
                      then (if (qtype \<noteq> T_SRV \<and> qtype \<noteq> T_ANY) \<or> nr_tcp d = [] then negative C NoError (nz_ip C)
                            else (let target = label @ ''.'' @ nz_ip C
                                  in hit [srv_rr qname (hd (nr_tcp d)) target]
                                         (case v6 of Some a \<Rightarrow> [rr target T_AAAA 60 a] | None \<Rightarrow> [])))
                      else if qtype = T_AAAA \<or> qtype = T_ANY
                      then (case v6 of Some a \<Rightarrow> hit [rr qname T_AAAA 60 a] [] | None \<Rightarrow> negative C NoError (nz_ip C))
                      else negative C NoError (nz_ip C))"
    using assms(3) l h d by (simp add: resolve_ip_def Let_def)
  have "\<forall>x \<in> set (rp_an r) \<union> set (rp_ad r).
         (\<exists>a owner. ipv6_bytes (nr_address d) = Some a \<and> rr owner T_AAAA 60 a = Some x)
         \<or> srv \<and> nr_tcp d \<noteq> [] \<and> srv_rr qname (hd (nr_tcp d)) (label @ ''.'' @ nz_ip C) = Some x"
  proof (cases srv)
    case True
    with assms(1,2) neg u have n: "nr_tcp d \<noteq> []"
      and h: "hit [srv_rr qname (hd (nr_tcp d)) (label @ ''.'' @ nz_ip C)]
         (case ipv6_bytes (nr_address d) of Some a \<Rightarrow> [rr (label @ ''.'' @ nz_ip C) T_AAAA 60 a] | None \<Rightarrow> []) = Some r"
      unfolding Let_def by (metis (no_types, lifting))+
    from hit_records [OF h] n True show ?thesis
      by (cases "ipv6_bytes (nr_address d)") (auto simp: Cons_eq_map_conv map_eq_Cons_conv)
  next
    case False
    with assms(1,2) neg u obtain a where "ipv6_bytes (nr_address d) = Some a" "hit [rr qname T_AAAA 60 a] [] = Some r"
      by (auto simp: Let_def split: if_splits option.splits)
    with hit_records [OF this(2)] show ?thesis by (auto simp: map_eq_Cons_conv)
  qed
  with l h d show ?thesis by (auto simp: hex_str_def)
qed

section \<open>The store of challenges\<close>

definition txt_ok :: "txt_store \<Rightarrow> bool" where
  "txt_ok T \<longleftrightarrow> distinct (map fst T) \<and> length T \<le> MAX_TXT_NAMES
     \<and> list_all (\<lambda>(n, vals). length vals \<le> MAX_TXT_VALUES \<and> distinct (map fst vals)) T"

lemma txt_values_ok:
  assumes "txt_ok T"
  shows "txt_ok (snd (txt_values now n T)) \<and> length (fst (txt_values now n T)) \<le> MAX_TXT_VALUES"
proof (cases "map_of T n")
  case None
  with assms show ?thesis by (simp add: txt_values_def)
next
  case (Some vals)
  let ?live = "filter (\<lambda>(v, e). now < e) vals"
  from assms map_of_member [OF Some] have v: "length vals \<le> MAX_TXT_VALUES" "distinct (map fst vals)"
    unfolding txt_ok_def by fastforce+
  then have l: "length ?live \<le> MAX_TXT_VALUES" "distinct (map fst ?live)"
    by (auto intro: le_trans [OF length_filter_le] distinct_map_fst_filter)
  from Some have n: "n \<in> fst ` set T" by (metis domI dom_map_of_conv_image_fst)
  from assms n l show ?thesis
    by (auto simp: txt_values_def Some Let_def txt_ok_def length_alist_update
        intro!: distinct_update distinct_delete list_all_alist_update list_all_alist_delete le_trans [OF length_alist_delete])
qed

lemma txt_sweep_ok: "txt_ok T \<Longrightarrow> txt_ok (txt_sweep now T)"
proof -
  have "txt_ok (foldl (\<lambda>T name. snd (txt_values now name T)) T ns)" if "txt_ok T" for T ns
    using that by (induction ns arbitrary: T) (simp_all add: txt_values_ok)
  then show "txt_ok T \<Longrightarrow> txt_ok (txt_sweep now T)" by (simp add: txt_sweep_def)
qed

lemma oldest_value_in: "vals \<noteq> [] \<Longrightarrow> oldest_value vals \<in> fst ` set vals"
proof -
  let ?f = "\<lambda>best x. case best of None \<Rightarrow> Some x | Some y \<Rightarrow> if snd x < snd y then Some x else best"
  have "\<exists>z \<in> insert y (set vals). foldl ?f (Some y) vals = Some z" for y :: "string \<times> rat" and vals
    by (induction vals arbitrary: y) auto
  then show "vals \<noteq> [] \<Longrightarrow> oldest_value vals \<in> fst ` set vals"
  proof (cases vals)
    case (Cons x xs)
    with \<open>\<And>y vals. \<exists>z \<in> insert y (set vals). foldl ?f (Some y) vals = Some z\<close> [of x xs] show ?thesis
      by (auto simp: oldest_value_def)
  qed simp
qed

lemma length_delete_in: "k \<in> fst ` set m \<Longrightarrow> length (AList.delete k m) < length m"
  by (auto simp: AList.delete_eq intro: length_filter_less)

lemma trim_values_ok:
  assumes "distinct (map fst vals)"
  shows "length (trim_values vals) \<le> MAX_TXT_VALUES \<and> distinct (map fst (trim_values vals)) \<and> set (trim_values vals) \<subseteq> set vals"
  using assms
proof (induction vals rule: trim_values.induct)
  case (1 vals)
  let ?d = "AList.delete (oldest_value vals) vals"
  show ?case
  proof (cases "MAX_TXT_VALUES < length vals")
    case True
    then have l: "length ?d < length vals" by (intro length_delete_in oldest_value_in) auto
    with True have e: "trim_values vals = trim_values ?d" by (simp add: trim_values.simps [of vals])
    have "set ?d \<subseteq> set vals" by (auto simp: AList.delete_eq)
    with "1.IH" [OF conjI [OF True l] distinct_delete [OF "1.prems"]] show ?thesis unfolding e by blast
  next
    case False
    then have "trim_values vals = vals" by (simp add: trim_values.simps [of vals])
    with False "1.prems" show ?thesis by simp
  qed
qed

lemma txt_update_ok:
  assumes "txt_ok T" "length (vals :: (string \<times> rat) list) \<le> MAX_TXT_VALUES" "distinct (map fst vals)"
    and "n \<in> fst ` set T \<or> length T < MAX_TXT_NAMES"
  shows "txt_ok (AList.update n vals T)"
  using assms by (auto simp: txt_ok_def length_alist_update intro!: distinct_update list_all_alist_update)

lemma held_values: "txt_ok T \<Longrightarrow> map_of T n = Some vals \<Longrightarrow> n \<in> fst ` set T \<and> length vals \<le> MAX_TXT_VALUES \<and> distinct (map fst vals)"
  using map_of_member [of T n vals "\<lambda>(n, vals). length vals \<le> MAX_TXT_VALUES \<and> distinct (map fst vals)"]
  by (auto simp: txt_ok_def dest!: map_of_SomeD intro: rev_image_eqI)

lemma txt_push_ok:
  assumes "txt_ok T"
  shows "txt_ok (snd (txt_push now ttl name value T))"
proof -
  let ?full = "map_of T name = None \<and> MAX_TXT_NAMES \<le> length T"
  let ?T = "if ?full then txt_sweep now T else T"
  let ?old = "case map_of ?T name of Some v \<Rightarrow> v | None \<Rightarrow> []"
  have T: "txt_ok ?T" using assms by (simp add: txt_sweep_ok)
  have "distinct (map fst ?old)" using held_values [OF T, of name] by (auto split: option.split)
  then have v: "length (trim_values (AList.update value (now + ttl * 1000) ?old)) \<le> MAX_TXT_VALUES
      \<and> distinct (map fst (trim_values (AList.update value (now + ttl * 1000) ?old)))"
    using trim_values_ok [OF distinct_update] by blast
  show ?thesis
  proof (cases "?full \<and> MAX_TXT_NAMES \<le> length ?T")
    case True
    then show ?thesis using T by (auto simp: txt_push_def Let_def)
  next
    case False
    have room: "name \<in> fst ` set ?T \<or> length ?T < MAX_TXT_NAMES"
    proof (cases ?full)
      case True
      with False show ?thesis by auto
    next
      case nf: False
      then show ?thesis by (cases "map_of T name") (auto simp: map_of_eq_None_iff dest!: map_of_SomeD intro: rev_image_eqI)
    qed
    have "snd (txt_push now ttl name value T) = AList.update name (trim_values (AList.update value (now + ttl * 1000) ?old)) ?T"
      using False unfolding txt_push_def Let_def by (simp only: snd_conv if_False)
    then show ?thesis using txt_update_ok [OF T _ _ room] v by simp
  qed
qed

lemma txt_delete_ok: "txt_ok T \<Longrightarrow> txt_ok (snd (txt_delete name value T))"
proof (cases "map_of T name")
  case (Some vals)
  assume T: "txt_ok T"
  from held_values [OF T Some] have n: "name \<in> fst ` set T" "length (AList.delete value vals) \<le> MAX_TXT_VALUES"
    "distinct (map fst (AList.delete value vals))"
    by (auto intro: le_trans [OF length_alist_delete] distinct_delete)
  from T have "txt_ok (AList.delete name T)"
    by (auto simp: txt_ok_def intro!: distinct_delete list_all_alist_delete le_trans [OF length_alist_delete])
  with n txt_update_ok [OF T n(2,3)] show ?thesis by (simp add: txt_delete_def Some Let_def)
qed (simp add: txt_delete_def)

section \<open>All that happens to a server\<close>

definition dns_start :: "fleet_cfg \<Rightarrow> dns_state" where
  "dns_start F = \<lparr>ds_perOrigin = [], ds_deployments = [], ds_relays = [], ds_txt = [], ds_rate = [], ds_opRate = [],
     ds_lastFresh = 0, ds_fleet = create_fleet F\<rparr>"

text \<open>Datagrams and queries over TCP, pushes, polls, sweeps of the store and of the rate tables, in any order and at any times.\<close>

inductive dns_reachable ::
  "(string \<Rightarrow> string \<Rightarrow> string) \<Rightarrow> recovery \<Rightarrow> dns_cfg \<Rightarrow> fleet_cfg \<Rightarrow> url_parser \<Rightarrow> dns_state \<Rightarrow> bool" for hmac recover C F url where
  dns_boot: "dns_reachable hmac recover C F url (dns_start F)"
| dns_udp: "dns_reachable hmac recover C F url S \<Longrightarrow> dns_reachable hmac recover C F url (snd (on_datagram C now peer msg S))"
| dns_tcp: "dns_reachable hmac recover C F url S \<Longrightarrow> dns_reachable hmac recover C F url (snd (on_frame C now peer query S))"
| dns_push: "dns_reachable hmac recover C F url S \<Longrightarrow> dns_reachable hmac recover C F url (snd (api_push hmac recover C F now reads rq S))"
| dns_poll: "dns_reachable hmac recover C F url S \<Longrightarrow> dns_reachable hmac recover C F url (poll_net answers S)"
| dns_relays: "dns_reachable hmac recover C F url S \<Longrightarrow> dns_reachable hmac recover C F url (poll_relay_map picks S)"
| dns_sweep: "dns_reachable hmac recover C F url S \<Longrightarrow> dns_reachable hmac recover C F url (S\<lparr>ds_txt := txt_sweep now (ds_txt S)\<rparr>)"
| dns_rates: "dns_reachable hmac recover C F url S
    \<Longrightarrow> dns_reachable hmac recover C F url (S\<lparr>ds_rate := sweep_buckets now (ds_rate S), ds_opRate := sweep_buckets now (ds_opRate S)\<rparr>)"
| dns_fleet: "dns_reachable hmac recover C F url S
    \<Longrightarrow> dns_reachable hmac recover C F url (S\<lparr>ds_fleet := refresh F url now rows (ds_fleet S)\<rparr>)"

lemma resolve_wildcard_ok:
  "txt_ok T \<Longrightarrow> txt_ok (snd (resolve_wildcard C now n t zone a4 a6 T))"
  using txt_values_ok [of T now n] by (auto simp: resolve_wildcard_def Let_def split: prod.splits)

lemma resolve_app_ok: "txt_ok T \<Longrightarrow> txt_ok (snd (resolve_app C now n t relays T))"
  by (simp add: resolve_app_def resolve_wildcard_ok Let_def split: option.split)

lemma dns_answer_ok: "txt_ok (ds_txt S) \<Longrightarrow> txt_ok (snd (dns_answer C now q S))"
  by (simp add: dns_answer_def resolve_wildcard_ok resolve_app_ok Let_def)

lemma dns_handle_ok: "txt_ok (ds_txt S) \<Longrightarrow> txt_ok (ds_txt (snd (dns_handle C now limit msg S)))"
  by (auto simp: dns_handle_def split: option.split prod.split) (metis dns_answer_ok snd_conv)

lemma lease_authority_txt: "ds_txt (snd (lease_authority recover C F now reads sig raw body rest S)) = ds_txt S"
  by (cases reads) (simp add: lease_authority_def Let_def split: option.split prod.split)

lemma push_auth_txt: "ds_txt (snd (push_auth hmac recover C F now reads rq body name S)) = ds_txt S"
  using lease_authority_txt [of recover C F now reads _ "pq_raw rq" body]
  by (auto simp: push_auth_def operator_auth_def Let_def split: option.split prod.split) (metis dns_state.select_convs(4) dns_state.surjective dns_state.update_convs(6) snd_conv)+

lemma push_body_ok:
  assumes "txt_ok (ds_txt S)"
  shows "txt_ok (ds_txt (snd (push_body hmac recover C F now reads rq body S)))"
proof -
  have a: "txt_ok (ds_txt S')" if "push_auth hmac recover C F now reads rq body n S = (r, S')" for n r S'
    using push_auth_txt [of hmac recover C F now reads rq body n S] assms that by simp
  then show ?thesis using assms unfolding push_body_def Let_def
    by (auto split: option.split prod.split if_splits) (metis a txt_push_ok txt_delete_ok snd_conv)+
qed

lemma api_push_ok: "txt_ok (ds_txt S) \<Longrightarrow> txt_ok (ds_txt (snd (api_push hmac recover C F now reads rq S)))"
  by (simp add: api_push_def Let_def push_body_ok split: option.split prod.split)

text \<open>
  In every reachable state the server holds challenges for at most 2048 names, each at most once, with
  at most eight values under a name, all different.
\<close>

theorem challenge_store_is_bounded:
  assumes "dns_reachable hmac recover C F url S"
  shows "distinct (map fst (ds_txt S)) \<and> length (ds_txt S) \<le> 2048
    \<and> list_all (\<lambda>(name, vals). length vals \<le> 8 \<and> distinct (map fst vals)) (ds_txt S)"
proof -
  from assms have "txt_ok (ds_txt S)"
  proof induction
    case dns_boot
    show ?case by (simp add: dns_start_def txt_ok_def)
  next
    case (dns_udp S now peer msg)
    then show ?case using dns_handle_ok by (simp add: on_datagram_def split: prod.split)
  next
    case (dns_tcp S now peer query)
    then show ?case using dns_handle_ok by (auto simp: on_frame_def split: prod.split) (metis dns_handle_ok dns_state.select_convs(4) dns_state.surjective dns_state.update_convs(5) snd_conv)
  qed (simp_all add: dns_handle_ok api_push_ok txt_sweep_ok poll_net_def poll_relay_map_def Let_def split: option.split)
  then show ?thesis by (simp add: txt_ok_def MAX_TXT_NAMES_def MAX_TXT_VALUES_def)
qed

section \<open>Whose challenges are answered\<close>

text \<open>An operator's authority over a name: the box registered by him, or the one deployment the label names, leased by him now.\<close>

definition box_name_of :: "dns_cfg \<Rightarrow> string \<Rightarrow> string \<Rightarrow> fleet_state \<Rightarrow> bool" where
  "box_name_of C rest signer D \<longleftrightarrow> is_box_host (nz_box C) rest \<and> operator_for_endpoint (''https://'' @ rest) D = Some signer"

definition app_name_of :: "dns_cfg \<Rightarrow> int \<Rightarrow> string \<Rightarrow> string \<Rightarrow> fleet_state \<Rightarrow> bool" where
  "app_name_of C now rest signer D \<longleftrightarrow> (\<exists>zone d. app_zone_of C rest = Some zone \<and> hex_str 8 64 (under zone rest)
     \<and> rows_with (''0x'' @ under zone rest) (fl_rows D) = [d] \<and> live_lease now d \<and> to_lower (ll_operator d) = signer)"

lemma lease_for_row:
  assumes "lease_for F now fresh answer p D = (Some l, D')"
  shows "\<exists>d. rows_with (to_lower p) (fl_rows D') = [d] \<and> li_id l = to_lower (ll_id d) \<and> li_operator l = to_lower (ll_operator d)
     \<and> li_live l = live_lease now d \<and> now - fl_at D' < 10000"
proof -
  from assms obtain rows D0 d where r: "ledger_rows now answer D0 = (Some rows, D')" "rows_with (to_lower p) rows = [d]"
    and l: "l = \<lparr>li_id = to_lower (ll_id d), li_operator = to_lower (ll_operator d), li_live = live_lease now d\<rparr>"
    by (auto simp: lease_for_def Let_def split: if_splits option.splits prod.splits list.splits)
  from ledger_rows_current [OF r(1) rows_with_nonempty [OF r(2)]] r(2) l show ?thesis by auto
qed

lemma lease_for_cached: "now - fl_at D < 10000 \<Longrightarrow> lease_for F now False answer p D = (r, D') \<Longrightarrow> D' = D"
  by (auto simp: lease_for_def ledger_rows_def Let_def split: if_splits)

lemma rows_with_prefix:
  assumes "rows_with h rows = [d]" "rows_with p rows = [d']" "prefix p h"
  shows "d = d'"
proof -
  have "d \<in> set (rows_with h rows)" by (simp add: assms(1))
  with assms(3) have "d \<in> set (rows_with p rows)" by (auto simp: rows_with_def intro: prefix_order.trans)
  then show ?thesis by (simp add: assms(2))
qed

lemma lease_authority_sound:
  assumes "lease_authority recover C F now reads sig raw body rest S = (None, S')"
  shows "\<exists>a. recover raw sig = Some a \<and> app_name_of C now rest (to_lower a) (ds_fleet S')"
proof -
  obtain r1 r2 r3 where r: "reads = (r1, r2, r3)" by (cases reads)
  define depId where "depId = to_lower (text_or_empty (json_get ''deploymentId'' body))"
  from assms obtain zone a l2 D2 l3 D3 where z: "app_zone_of C rest = Some zone" "hex_str 8 64 (under zone rest)"
    and h: "prefix ''0x'' depId" "hex_str 64 64 (drop 2 depId)"
    and p: "prefix (under zone rest) (drop 2 depId)" and a: "recover raw sig = Some a"
    and two: "(\<exists>fresh answer D. lease_for F now fresh answer depId D = (l2, D2))" "holds_lease depId (to_lower a) l2"
    and three: "lease_for F now False r3 (''0x'' @ under zone rest) D2 = (Some l3, D3)" and S': "ds_fleet S' = D3"
    unfolding r lease_authority_def prod.case Let_def depId_def [symmetric]
    by (auto split: option.splits if_splits prod.splits) blast+
  from two(2) obtain x where x: "l2 = Some x" "li_id x = depId" "li_live x" "li_operator x = to_lower a"
    by (auto simp: holds_lease_def split: option.splits)
  with two(1) obtain fresh answer D where "lease_for F now fresh answer depId D = (Some x, D2)" by auto
  from lease_for_row [OF this] obtain d where d: "rows_with (to_lower depId) (fl_rows D2) = [d]" "live_lease now d"
    "to_lower (ll_operator d) = to_lower a" "now - fl_at D2 < 10000" using x by auto
  from lease_for_cached [OF d(4) three] have D3: "D3 = D2" .
  have low: "to_lower (''0x'' @ under zone rest) = ''0x'' @ under zone rest"
    using hex_str_lower [OF z(2)] by (simp add: to_lower_def lower_char_def)
  from lease_for_row [OF three] obtain d' where d': "rows_with (''0x'' @ under zone rest) (fl_rows D2) = [d']"
    unfolding low D3 by blast
  have "depId = ''0x'' @ drop 2 depId" using h(1) by (auto simp: prefix_def)
  with p have "prefix (''0x'' @ under zone rest) depId" by (metis same_prefix_prefix)
  moreover have "to_lower depId = depId"
    using hex_str_lower [OF h(2)] h(1) by (auto simp: prefix_def to_lower_def lower_char_def)
  ultimately have "d = d'" using rows_with_prefix [OF d(1) d'] by simp
  with d d' z a S' D3 show ?thesis by (auto simp: app_name_of_def)
qed

lemma operator_auth_sound:
  assumes "operator_auth recover C F now reads sig raw body name S = (None, S')"
  shows "(\<exists>a. recover raw sig = Some a \<and> (box_name_of C (drop (length ACME) name) (to_lower a) (ds_fleet S')
        \<or> app_name_of C now (drop (length ACME) name) (to_lower a) (ds_fleet S')))
    \<and> (\<exists>t. json_get ''ts'' body = Some t \<and> t \<noteq> JNull)"
proof -
  let ?rest = "drop (length ACME) name"
  from assms have t: "\<exists>t. json_get ''ts'' body = Some t \<and> t \<noteq> JNull"
    by (auto simp: operator_auth_def Let_def split: if_splits option.splits)
  show ?thesis
  proof (cases "zone_suffix ?rest (nz_box C)")
    case True
    with assms have "box_authority recover C sig raw ?rest (ds_fleet S) = None" "S' = S"
      by (auto simp: operator_auth_def Let_def split: if_splits)
    then have "\<exists>a. recover raw sig = Some a \<and> box_name_of C ?rest (to_lower a) (ds_fleet S')"
      by (auto simp: box_authority_def box_name_of_def split: if_splits option.splits)
    with t show ?thesis by blast
  next
    case False
    with assms have "lease_authority recover C F now reads sig raw body ?rest S = (None, S')"
      by (auto simp: operator_auth_def Let_def split: if_splits)
    from lease_authority_sound [OF this] t show ?thesis by blast
  qed
qed

definition authorised ::
  "(string \<Rightarrow> string \<Rightarrow> string) \<Rightarrow> recovery \<Rightarrow> dns_cfg \<Rightarrow> int \<Rightarrow> push_request \<Rightarrow> json \<Rightarrow> string \<Rightarrow> fleet_state \<Rightarrow> bool" where
  "authorised hmac recover C now rq body name D \<longleftrightarrow>
     nz_key C \<noteq> [] \<and> (\<exists>sig. pq_sig rq = Some sig \<and> to_lower sig = hmac (nz_key C) (pq_raw rq))
     \<or> (\<exists>sig a t. pq_opSig rq = Some sig \<and> recover (pq_raw rq) sig = Some a \<and> json_get ''ts'' body = Some t \<and> t \<noteq> JNull
         \<and> (box_name_of C (drop (length ACME) name) (to_lower a) D \<or> app_name_of C now (drop (length ACME) name) (to_lower a) D))"

lemma push_auth_sound:
  assumes "push_auth hmac recover C F now reads rq body name S = (None, S')"
  shows "authorised hmac recover C now rq body name (ds_fleet S')"
proof (cases "nz_key C \<noteq> [] \<and> check_sig hmac (nz_key C) (pq_sig rq) (pq_raw rq)")
  case True
  then show ?thesis by (auto simp: authorised_def check_sig_def split: option.splits)
next
  case False
  with assms obtain sig S1 where s: "pq_opSig rq = Some sig" "operator_auth recover C F now reads sig (pq_raw rq) body name S1 = (None, S')"
    by (auto simp: push_auth_def split: option.splits prod.splits if_splits)
  from operator_auth_sound [OF s(2)] s(1) show ?thesis unfolding authorised_def by blast
qed

text \<open>What is new in a store: nothing after a sweep or a removal, the pushed value after a push.\<close>

definition held :: "txt_store \<Rightarrow> string \<Rightarrow> string \<Rightarrow> rat \<Rightarrow> bool" where
  "held T n v e \<longleftrightarrow> (\<exists>vals. map_of T n = Some vals \<and> (v, e) \<in> set vals)"

lemma held_update: "held (AList.update k vals T) n v e \<longleftrightarrow> (if n = k then (v, e) \<in> set vals else held T n v e)"
  by (simp add: held_def)

lemma held_delete: "held (AList.delete k T) n v e \<longleftrightarrow> n \<noteq> k \<and> held T n v e"
  by (simp add: held_def delete_conv')

lemma held_values_read: "held (snd (txt_values now k T)) n v e \<Longrightarrow> held T n v e"
  by (auto simp: txt_values_def held_update held_delete Let_def split: option.splits if_splits) (simp add: held_def)

lemma held_swept: "held (txt_sweep now T) n v e \<Longrightarrow> held T n v e"
proof -
  have "held (foldl (\<lambda>T name. snd (txt_values now name T)) T ns) n v e \<Longrightarrow> held T n v e" for ns T
  proof (induction ns arbitrary: T)
    case (Cons k ns)
    then have "held (snd (txt_values now k T)) n v e" by simp
    then show ?case by (rule held_values_read)
  qed simp
  then show "held (txt_sweep now T) n v e \<Longrightarrow> held T n v e" by (simp add: txt_sweep_def)
qed

lemma trim_values_subset: "set (trim_values vals) \<subseteq> set vals"
proof (induction vals rule: trim_values.induct)
  case (1 vals)
  then show ?case
    by (subst trim_values.simps) (auto simp: AList.delete_eq dest!: subsetD)
qed

lemma held_pushed:
  assumes "held (snd (txt_push now ttl name value T)) n v e"
  shows "held T n v e \<or> n = name \<and> v = value \<and> e = now + ttl * 1000"
proof -
  let ?full = "map_of T name = None \<and> MAX_TXT_NAMES \<le> length T"
  let ?T = "if ?full then txt_sweep now T else T"
  let ?old = "case map_of ?T name of Some v \<Rightarrow> v | None \<Rightarrow> []"
  let ?vals = "trim_values (AList.update value (now + ttl * 1000) ?old)"
  have T: "held ?T n v e \<Longrightarrow> held T n v e" by (simp add: held_swept split: if_splits)
  have "snd (txt_push now ttl name value T) = ?T \<or> snd (txt_push now ttl name value T) = AList.update name ?vals ?T"
    unfolding txt_push_def Let_def by (simp split: if_splits)
  then show ?thesis
  proof
    assume "snd (txt_push now ttl name value T) = AList.update name ?vals ?T"
    with assms have h: "if n = name then (v, e) \<in> set ?vals else held ?T n v e" by (simp only: held_update)
    show ?thesis
    proof (cases "n = name")
      case True
      with h have "(v, e) \<in> set ?vals" by (simp only: if_True)
      then have "(v, e) \<in> set (AList.update value (now + ttl * 1000) ?old)" by (rule subsetD [OF trim_values_subset])
      from update_members [OF this] have "v = value \<and> e = now + ttl * 1000 \<or> (v, e) \<in> set ?old" by blast
      moreover have "held ?T n v e" if "(v, e) \<in> set ?old"
        using that True by (cases "map_of ?T name") (auto simp: held_def)
      ultimately show ?thesis using T True by blast
    next
      case False
      with h T show ?thesis by simp
    qed
  qed (use assms T in simp)
qed

lemma held_deleted: "held (snd (txt_delete name value T)) n v e \<Longrightarrow> held T n v e"
  by (auto simp: txt_delete_def held_update held_delete Let_def split: option.splits if_splits dest!: delete_members) (simp_all add: held_def)

lemma push_ttl_cap: "push_ttl C body \<le> nz_txtTtl C"
  by (auto simp: push_ttl_def split: option.split json.split)


section \<open>Demonstration\<close>

definition demo_dns_cfg :: dns_cfg where
  "demo_dns_cfg = \<lparr>nz_ip = ''ip'', nz_app = ''app'', nz_tcp = None, nz_box = Some ''box'', nz_ns = ''ns.x'', nz_serial = 1,
     nz_appA = Some [192, 0, 2, 1], nz_appAaaa = None, nz_tcpA = None, nz_tcpAaaa = None, nz_boxA = None, nz_boxAaaa = None,
     nz_key = [], nz_txtTtl = 600\<rparr>"

definition demo_dns :: dns_state where
  "demo_dns = \<lparr>ds_perOrigin = [], ds_deployments = [\<lparr>nr_hex = ''00112233445566'', nr_address = ''2001:db8::5'', nr_tcp = [25565]\<rparr>],
     ds_relays = [], ds_txt = [], ds_rate = [], ds_opRate = [], ds_lastFresh = 0, ds_fleet = demo_directory\<rparr>"

definition demo_sig :: string where
  "demo_sig = replicate 130 (CHR ''a'')"

definition demo_push :: push_request where
  "demo_push = \<lparr>pq_post = True, pq_peer = ''p'',
     pq_raw = ''{\"name\":\"_acme-challenge.e00000000000000ff.box\",\"value\":\"v\",\"ts\":200}'', pq_sig = None,
     pq_opSig = Some (''0x'' @ demo_sig)\<rparr>"

definition demo_pushed :: "push_reply \<times> dns_state" where
  "demo_pushed = api_push (\<lambda>k m. []) (\<lambda>m s. Some (demo_operator (CHR ''b''))) demo_dns_cfg demo_fleet_cfg 200000
     (NoAddress, NoAddress, NoAddress) demo_push demo_dns"

lemma demo_push_body:
  "json_parse (pq_raw demo_push) = Some (JObj [(''name'', JStr ''_acme-challenge.e00000000000000ff.box''), (''value'', JStr ''v''), (''ts'', JNum 200)])"
  by code_simp

lemma demo_tokens:
  "take_token 200 50 200000 ''p'' [] = (True, [(''p'', \<lparr>bk_tokens = 199, bk_at = 200000\<rparr>)])"
  "take_token 30 1 200000 ''p'' [] = (True, [(''p'', \<lparr>bk_tokens = 29, bk_at = 200000\<rparr>)])"
  "take_token 200 50 0 ''p'' [] = (True, [(''p'', \<lparr>bk_tokens = 199, bk_at = 0\<rparr>)])"
  by code_simp+

lemma demo_push_name: "good_name demo_dns_cfg ''_acme-challenge.e00000000000000ff.box''"
  "fqdn ''_acme-challenge.e00000000000000ff.box'' = ''_acme-challenge.e00000000000000ff.box''"
  by code_simp+

lemma demo_push_signature: "hex_str 130 130 (to_lower demo_sig)"
  by code_simp

lemma demo_push_authority:
  "box_authority (\<lambda>m s. Some (demo_operator (CHR ''b''))) demo_dns_cfg sig raw ''e00000000000000ff.box'' demo_directory = None"
  "zone_suffix ''e00000000000000ff.box'' (nz_box demo_dns_cfg)"
  "drop (length ACME) ''_acme-challenge.e00000000000000ff.box'' = ''e00000000000000ff.box''"
  by code_simp+

lemma demo_stored:
  "txt_push 200000 600 ''_acme-challenge.e00000000000000ff.box'' ''v'' []
     = (PushStored ''_acme-challenge.e00000000000000ff.box'' 1 600, [(''_acme-challenge.e00000000000000ff.box'', [(''v'', 800000)])])"
  by code_simp

lemma demo_pushed_value: "ds_txt (snd demo_pushed) = [(''_acme-challenge.e00000000000000ff.box'', [(''v'', 800000)])]"
proof -
  let ?raw = "pq_raw demo_push" and ?body = "JObj [(''name'', JStr ''_acme-challenge.e00000000000000ff.box''), (''value'', JStr ''v''), (''ts'', JNum 200)]"
  have f: "pq_peer demo_push = ''p''" "pq_post demo_push" "pq_sig demo_push = None" "nz_key demo_dns_cfg = []"
    "pq_opSig demo_push = Some (''0x'' @ demo_sig)" "ds_rate demo_dns = []" "ds_opRate demo_dns = []" "ds_txt demo_dns = []"
    "ds_fleet demo_dns = demo_directory" "nz_txtTtl demo_dns_cfg = 600"
    by (simp_all add: demo_push_def demo_dns_cfg_def demo_dns_def)
  have "push_name ?body = ''_acme-challenge.e00000000000000ff.box''" "string_field ''value'' ?body = ''v''"
    "\<not> stale_push 200000 ?body" "push_ttl demo_dns_cfg ?body = 600"
    by (simp_all add: push_name_def demo_push_name json_get_def string_field_def stale_push_def js_number_def push_ttl_def f)
  then show ?thesis
    by (simp add: demo_pushed_def api_push_def f demo_tokens demo_push_body push_body_def demo_push_name push_auth_def operator_auth_def
        Let_def demo_push_signature demo_push_authority demo_stored json_get_def del: replicate.simps)
qed


theorem challenge_store_is_bounded_witness:
  "length (ds_txt (snd (api_push (\<lambda>k m. []) (\<lambda>m s. None) demo_dns_cfg demo_fleet_cfg 200000 (NoAddress, NoAddress, NoAddress)
     demo_push (dns_start demo_fleet_cfg)))) \<le> 2048"
  using challenge_store_is_bounded [OF dns_push [OF dns_boot, of "\<lambda>k m. []" "\<lambda>m s. None" demo_dns_cfg demo_fleet_cfg demo_url
      200000 "(NoAddress, NoAddress, NoAddress)" demo_push]] by blast

definition demo_lookup :: "8 word list" where
  "demo_lookup = query_bytes 7 True [[48,48,49,49,50,50,51,51], [105, 112]] 28 1 True"

lemma demo_lookup_parsed: "\<exists>q. parse_query demo_lookup = Some q"
  using query_parsed [of "[[48,48,49,49,50,50,51,51], [105, 112]]" 7 28 1 True True] by (simp add: demo_lookup_def)

lemma demo_lookup_answered: "\<exists>out. fst (on_datagram demo_dns_cfg 0 ''p'' demo_lookup demo_dns) = Some out"
  using demo_lookup_parsed by (auto simp: on_datagram_def dns_handle_def demo_tokens demo_dns_def split: prod.split)

lemma record_made: "list_all (\<lambda>l. length l \<le> 63) (split_on (CHR ''.'') name) \<Longrightarrow> \<exists>x. rr name type ttl d = Some x"
  by (auto simp: rr_def encode_name_def Let_def list_all_iff list_ex_iff latin1_bytes_def)

lemma demo_address: "\<exists>a. ipv6_bytes ''2001:db8::5'' = Some a"
proof -
  have "last_piece ''2001:db8::5'' = (''2001:db8::'', ''5'') \<and> \<not> dotted_tail ''5'' \<and> takeWhile (\<lambda>c. c \<noteq> CHR ''%'') ''2001:db8::5'' = ''2001:db8::5''
     \<and> (case ipv6_groups ''2001:db8::5'' of Some gs \<Rightarrow> length gs = 8 \<and> list_all hex_group gs | None \<Rightarrow> False)"
    by code_simp
  then show ?thesis by (auto simp: ipv6_bytes_def split: option.splits)
qed

lemma demo_name_answered:
  "\<exists>r. resolve_ip demo_dns_cfg (ds_deployments demo_dns) ''00112233.ip'' 28 = Some r \<and> rp_an r \<noteq> []"
proof -
  obtain a where a: "ipv6_bytes ''2001:db8::5'' = Some a" using demo_address by blast
  have "list_all (\<lambda>l. length l \<le> 63) (split_on (CHR ''.'') ''00112233.ip'')" by code_simp
  from record_made [OF this] obtain x where x: "rr ''00112233.ip'' T_AAAA 60 a = Some x" by blast
  have l: "ip_label (under ''ip'' ''00112233.ip'') = Some (False, ''00112233'')" "strip_dep ''00112233'' = ''00112233''"
    "hex_str 8 64 ''00112233''" "prefix ''00112233'' ''00112233445566''" by code_simp+
  have d: "ds_deployments demo_dns = [\<lparr>nr_hex = ''00112233445566'', nr_address = ''2001:db8::5'', nr_tcp = [25565]\<rparr>]"
    and z: "nz_ip demo_dns_cfg = ''ip''" by (simp_all add: demo_dns_def demo_dns_cfg_def)
  show ?thesis
    unfolding resolve_ip_def d z l(1) option.case prod.case Let_def l(2)
    using l(3,4) a x by (simp add: hit_def T_AAAA_def)
qed

theorem datagrams_never_amplify_witness:
  "\<exists>out. fst (on_datagram demo_dns_cfg 0 ''p'' demo_lookup demo_dns) = Some out \<and> length out \<le> max 1232 (length demo_lookup)"
proof -
  obtain out where "fst (on_datagram demo_dns_cfg 0 ''p'' demo_lookup demo_dns) = Some out" using demo_lookup_answered by blast
  then show ?thesis
    using datagrams_never_amplify [of demo_dns_cfg 0 "''p''" demo_lookup demo_dns out "snd (on_datagram demo_dns_cfg 0 ''p'' demo_lookup demo_dns)"]
    by (auto simp: prod_eq_iff)
qed

theorem names_lead_to_one_deployment_witness:
  "\<exists>d. filter (\<lambda>d. prefix ''00112233'' (nr_hex d)) (ds_deployments demo_dns) = [d]"
proof -
  obtain r where r: "resolve_ip demo_dns_cfg (ds_deployments demo_dns) ''00112233.ip'' 28 = Some r" "rp_an r \<noteq> []"
    using demo_name_answered by blast
  have "nz_ip demo_dns_cfg = ''ip''" by (simp add: demo_dns_cfg_def)
  moreover have "ip_label (under ''ip'' ''00112233.ip'') = Some (False, ''00112233'')" "strip_dep ''00112233'' = ''00112233''"
    by code_simp+
  ultimately show ?thesis using names_lead_to_one_deployment [OF r(1)] r(2) by fastforce
qed

text \<open>
  The newest challenge is not always kept: over the cap the value nearest to its expiry goes, and a push may
  ask for a shorter life than the eight it joins.
\<close>

lemma short_lived_newest_value_is_dropped:
  "snd (txt_push 0 60 ''n'' ''new'' [(''n'', map (\<lambda>v. ([v], 600000)) ''abcdefgh'')])
     = [(''n'', map (\<lambda>v. ([v], 600000)) ''abcdefgh'')]"
  by code_simp

end
