(* ===== verification/Fleet_Auth.thy ===== *)
theory Fleet_Auth
  imports Js_Json Store_Limits Net_Guard
begin

text \<open>
  What the routes of the relay share: the checks of a fleet member's call (\<open>relay/fleet-auth.js\<close>) and the
  gate in front of an owner's (\<open>ownerGate\<close> of \<open>relay/secrets.js\<close> and \<open>relay/domains.js\<close>). The registry, the
  ledger, SHA-256 and the recovery of a signer are arguments.
\<close>

section \<open>Who registered an endpoint\<close>

datatype owner_answer = OwnerFails | OwnerNone | OwnerIs string

type_synonym ep_owners = "(string \<times> string) list"

definition endpoint_operator :: "bool \<Rightarrow> owner_answer \<Rightarrow> string \<Rightarrow> ep_owners \<Rightarrow> string option \<times> ep_owners" where
  "endpoint_operator wired answer endpoint E =
     (if \<not> wired then (None, E)
      else case answer of
        OwnerIs a \<Rightarrow> (if a = [] then (None, AList.delete endpoint E) else (Some (to_lower a), AList.update endpoint (to_lower a) E))
      | OwnerNone \<Rightarrow> (None, AList.delete endpoint E)
      | OwnerFails \<Rightarrow> (map_of E endpoint, E))"

text \<open>The signer of a text, as the library recovers it; a failure is \<open>None\<close>.\<close>

type_synonym signer_of = "string \<Rightarrow> string \<Rightarrow> string option"

definition sig_shape :: "string \<Rightarrow> bool" where
  "sig_shape s \<longleftrightarrow> prefix ''0x'' s \<and> hex_str 130 130 (to_lower (drop 2 s))"

definition recover_op :: "signer_of \<Rightarrow> string \<Rightarrow> json option \<Rightarrow> string option" where
  "recover_op recover message sig =
     (case sig of Some (JStr s) \<Rightarrow> if sig_shape s then map_option to_lower (recover message s) else None | _ \<Rightarrow> None)"

section \<open>Signatures that count once\<close>

type_synonym seen_sigs = "(string \<times> int) list"

definition sig_fresh :: "(string \<Rightarrow> string) \<Rightarrow> int \<Rightarrow> string \<Rightarrow> int \<Rightarrow> seen_sigs \<Rightarrow> bool \<times> seen_sigs" where
  "sig_fresh sha nowSec signature expiry seen =
     (let kept = (if 10000 < length seen then filter (\<lambda>(k, e). \<not> e < nowSec) seen else seen); mark = sha signature
      in if map_of kept mark \<noteq> None then (False, kept) else (True, kept @ [(mark, expiry)]))"

section \<open>The ledger row of a deployment\<close>

record owned_row =
  ow_id :: string
  ow_owner :: string
  ow_runner :: string
  ow_until :: int

definition row_of :: "owned_row list option \<Rightarrow> string \<Rightarrow> owned_row option" where
  "row_of rows i = Option.bind rows (find (\<lambda>d. to_lower (ow_id d) = i))"

definition zero_runner :: "string \<Rightarrow> bool" where
  "zero_runner r \<longleftrightarrow> prefix ''0x'' r \<and> drop 2 r \<noteq> [] \<and> list_all (\<lambda>c. c = CHR ''0'') (drop 2 r)"

definition row_held_by :: "int \<Rightarrow> string \<Rightarrow> owned_row option \<Rightarrow> bool" where
  "row_held_by nowMs epId d =
     (case d of Some x \<Rightarrow> \<not> zero_runner (ow_runner x) \<and> nowMs < ow_until x * 1000 \<and> to_lower (ow_runner x) = to_lower epId | None \<Rightarrow> False)"

text \<open>A row that does not do is read once more past the cache.\<close>

definition row_or_fresh :: "(owned_row option \<Rightarrow> bool) \<Rightarrow> string \<Rightarrow> owned_row list option \<times> owned_row list option \<Rightarrow> owned_row option" where
  "row_or_fresh ok i reads = (let d = row_of (fst reads) i in if ok d then d else row_of (snd reads) i)"

section \<open>The owner's gate\<close>

datatype owner_refusal = BadExpiry | BadSig | NotRecovered | OwnerLimited | NotOnLedger | NotOwner | SigReplayed

record gate_state =
  ga_rate :: buckets
  ga_seen :: seen_sigs

definition SIG_TTL_SEC :: int where "SIG_TTL_SEC = 600"

text \<open>\<open>once\<close> is false for the one read that may be repeated under the same signature.\<close>

definition owner_gate ::
  "(string \<Rightarrow> string) \<Rightarrow> signer_of \<Rightarrow> bool \<Rightarrow> int \<Rightarrow> owned_row list option \<times> owned_row list option
   \<Rightarrow> string \<Rightarrow> json \<Rightarrow> (int \<Rightarrow> string) \<Rightarrow> gate_state \<Rightarrow> (owner_refusal + string) \<times> gate_state" where
  "owner_gate sha recover once nowMs reads i b message G =
     (let now = nowMs div 1000; signature = text_or_empty (json_get ''signature'' b)
      in case json_int_at ''expiry'' b of
           None \<Rightarrow> (Inl BadExpiry, G)
         | Some expiry \<Rightarrow>
             if expiry < now \<or> now + SIG_TTL_SEC < expiry then (Inl BadExpiry, G)
             else if \<not> sig_shape signature then (Inl BadSig, G)
             else (case recover (message expiry) signature of
               None \<Rightarrow> (Inl NotRecovered, G)
             | Some a \<Rightarrow>
                 (case take_token 30 (1 / 2) nowMs (to_lower a) (ga_rate G) of
                    (ok, bs) \<Rightarrow>
                      (let G1 = G\<lparr>ga_rate := bs\<rparr>
                       in if \<not> ok then (Inl OwnerLimited, G1)
                          else case row_or_fresh (\<lambda>d. d \<noteq> None) i reads of
                            None \<Rightarrow> (Inl NotOnLedger, G1)
                          | Some d \<Rightarrow>
                              if to_lower (ow_owner d) \<noteq> to_lower a then (Inl NotOwner, G1)
                              else if \<not> once then (Inr (to_lower a), G1)
                              else (case sig_fresh sha now signature expiry (ga_seen G1) of
                                (fresh, seen) \<Rightarrow>
                                  (if fresh then Inr (to_lower a) else Inl SigReplayed, G1\<lparr>ga_seen := seen\<rparr>))))))"

section \<open>What a passed gate shows\<close>

definition ledger_owner :: "owned_row list option \<times> owned_row list option \<Rightarrow> string \<Rightarrow> string \<Rightarrow> bool" where
  "ledger_owner reads i a \<longleftrightarrow>
     (\<exists>d rows. (fst reads = Some rows \<or> snd reads = Some rows) \<and> d \<in> set rows \<and> to_lower (ow_id d) = i \<and> to_lower (ow_owner d) = a)"

lemma row_of_Some: "row_of rows i = Some d \<Longrightarrow> \<exists>rs. rows = Some rs \<and> d \<in> set rs \<and> to_lower (ow_id d) = i"
  by (cases rows) (auto simp: row_of_def find_Some_iff)

lemma row_or_fresh_Some:
  "row_or_fresh ok i reads = Some d \<Longrightarrow> row_of (fst reads) i = Some d \<and> ok (Some d) \<or> row_of (snd reads) i = Some d"
  by (auto simp: row_or_fresh_def Let_def split: if_splits)

text \<open>The signature was asked for: by the ledger's owner, over the message of this request, within its time, not seen before.\<close>

lemma owner_gate_passed:
  assumes "owner_gate sha recover once nowMs reads i b message G = (Inr a, G')"
  shows "\<exists>expiry sig signer. json_int_at ''expiry'' b = Some expiry \<and> nowMs div 1000 \<le> expiry \<and> expiry \<le> nowMs div 1000 + 600
    \<and> recover (message expiry) sig = Some signer \<and> a = to_lower signer \<and> ledger_owner reads i a
    \<and> (once \<longrightarrow> sig_fresh sha (nowMs div 1000) sig expiry (ga_seen G) = (True, ga_seen G'))"
proof -
  let ?sig = "text_or_empty (json_get ''signature'' b)"
  from assms obtain expiry where e: "json_int_at ''expiry'' b = Some expiry" "\<not> (expiry < nowMs div 1000 \<or> nowMs div 1000 + SIG_TTL_SEC < expiry)"
    and s: "sig_shape ?sig"
    by (auto simp: owner_gate_def Let_def split: option.splits if_splits)
  from assms e s obtain signer where r: "recover (message expiry) ?sig = Some signer"
    by (auto simp: owner_gate_def Let_def split: option.splits)
  obtain ok bs where t: "take_token 30 (1 / 2) nowMs (to_lower signer) (ga_rate G) = (ok, bs)" by fastforce
  from assms e s r t obtain d where d: "ok" "row_or_fresh (\<lambda>d. d \<noteq> None) i reads = Some d" "to_lower (ow_owner d) = to_lower signer"
    by (auto simp: owner_gate_def Let_def split: option.splits if_splits)
  from row_or_fresh_Some [OF d(2)] d(3) have o: "ledger_owner reads i (to_lower signer)"
    unfolding ledger_owner_def by (auto dest!: row_of_Some)
  show ?thesis
  proof (cases once)
    case False
    with assms e s r t d have "a = to_lower signer" by (simp add: owner_gate_def Let_def)
    with False e r o show ?thesis by (auto simp: SIG_TTL_SEC_def not_less)
  next
    case True
    obtain fresh seen where f: "sig_fresh sha (nowMs div 1000) ?sig expiry (ga_seen G) = (fresh, seen)" by fastforce
    with assms e s r t d True have "a = to_lower signer" "fresh" "ga_seen G' = seen"
      by (auto simp: owner_gate_def Let_def split: if_splits)
    with e r o f show ?thesis by (auto simp: SIG_TTL_SEC_def not_less)
  qed
qed

section \<open>A mark is spent\<close>

text \<open>
  The contract of a table of spent tokens: once taken, a token is refused for as long as it is remembered.
\<close>

locale single_use =
  fixes take_once :: "int \<Rightarrow> 'k \<Rightarrow> int \<Rightarrow> 's \<Rightarrow> bool \<times> 's" and spent :: "int \<Rightarrow> 'k \<Rightarrow> 's \<Rightarrow> bool"
  assumes refused: "\<forall>now k e s. spent now k s \<longrightarrow> \<not> fst (take_once now k e s)"
    and taken: "\<forall>now k e s. now \<le> e \<longrightarrow> fst (take_once now k e s) \<longrightarrow> spent e k (snd (take_once now k e s))"
    and kept: "\<forall>now t k k' e s. now \<le> t \<longrightarrow> spent t k s \<longrightarrow> spent t k (snd (take_once now k' e s))"
    and earlier: "\<forall>now t k s. now \<le> t \<longrightarrow> spent t k s \<longrightarrow> spent now k s"
begin

fun uses :: "(int \<times> 'k \<times> int) list \<Rightarrow> 's \<Rightarrow> bool list \<times> 's" where
  "uses [] s = ([], s)"
| "uses ((now, k, e) # es) s =
     (case take_once now k e s of (ok, s1) \<Rightarrow> (case uses es s1 of (oks, s2) \<Rightarrow> (ok # oks, s2)))"

lemma spent_stays:
  assumes "spent t k s" "list_all (\<lambda>(now, k', e). now \<le> t) es"
  shows "list_all (\<lambda>((now, k', e), ok). k' = k \<longrightarrow> \<not> ok) (zip es (fst (uses es s)))"
  using assms
proof (induction es arbitrary: s)
  case (Cons x es)
  obtain now k' e where x: "x = (now, k', e)" by (cases x)
  obtain ok s1 where u: "take_once now k' e s = (ok, s1)" by fastforce
  from Cons.prems x have n: "now \<le> t" by simp
  from kept n Cons.prems(1) u have "spent t k s1" by (metis snd_conv)
  with Cons.IH Cons.prems(2) have "list_all (\<lambda>((now, k', e), ok). k' = k \<longrightarrow> \<not> ok) (zip es (fst (uses es s1)))" by simp
  moreover from earlier n Cons.prems(1) have "spent now k s" by blast
  then have "k' = k \<longrightarrow> \<not> ok" using refused u by (metis fst_conv)
  ultimately show ?case by (simp add: x u split: prod.split) (auto split: prod.splits)
qed simp

text \<open>After a use that succeeded, no later one of the same token does before it expires.\<close>

lemma used_once:
  assumes "now \<le> e" "fst (take_once now k e s)" "list_all (\<lambda>(now', k', e'). now' \<le> e) es"
  shows "list_all (\<lambda>((now', k', e'), ok). k' = k \<longrightarrow> \<not> ok) (zip es (fst (uses es (snd (take_once now k e s)))))"
  using spent_stays [OF _ assms(3)] taken assms(1,2) by blast

end

definition mark_spent :: "(string \<Rightarrow> string) \<Rightarrow> int \<Rightarrow> string \<Rightarrow> seen_sigs \<Rightarrow> bool" where
  "mark_spent sha now signature seen \<longleftrightarrow> (\<exists>e. (sha signature, e) \<in> set seen \<and> now \<le> e)"

interpretation sig_cache: single_use "sig_fresh sha" "mark_spent sha" for sha
proof
  show "\<forall>now k e s. mark_spent sha now k s \<longrightarrow> \<not> fst (sig_fresh sha now k e s)"
  proof (intro allI impI)
    fix now k e s
    assume "mark_spent sha now k s"
    then obtain e' where "(sha k, e') \<in> set s" "now \<le> e'" by (auto simp: mark_spent_def)
    then have "(sha k, e') \<in> set (if 10000 < length s then filter (\<lambda>(k, e). \<not> e < now) s else s)" by auto
    then have "map_of (if 10000 < length s then filter (\<lambda>(k, e). \<not> e < now) s else s) (sha k) \<noteq> None"
      by (metis map_of_eq_None_iff fst_conv image_eqI)
    then show "\<not> fst (sig_fresh sha now k e s)" by (simp add: sig_fresh_def Let_def)
  qed
qed (auto simp: sig_fresh_def mark_spent_def Let_def)

end
