(* ===== verification/Secrets_Store.thy ===== *)
theory Secrets_Store
  imports Fleet_Auth Fleet_Directory "HOL-Library.Char_ord" "HOL-Library.List_Lexorder"
begin

text \<open>
  The secrets a deployment's owner stores on a relay (\<open>relay/secrets.js\<close>): the rules of an environment map,
  the change an owner signs, the fetch of the enclave that holds the lease, the read-back, the probe and the
  purge. AES-GCM with the deployment's id as additional data, the keyed hash and SHA-256 are arguments; text
  is ASCII, so that its characters are its bytes.
\<close>

section \<open>The environment map\<close>

type_synonym env_map = "(string \<times> json) list"

definition MAX_KEYS :: nat where "MAX_KEYS = 64"
definition MAX_VALUE_BYTES :: nat where "MAX_VALUE_BYTES = 4096"
definition MAX_TOTAL_BYTES :: nat where "MAX_TOTAL_BYTES = 16384"

definition name_char :: "char \<Rightarrow> bool" where
  "name_char c \<longleftrightarrow> lower_char c \<in> set ''abcdefghijklmnopqrstuvwxyz_''"

definition secret_key :: "string \<Rightarrow> bool" where
  "secret_key k = (case k of c # r \<Rightarrow> name_char c \<and> length r \<le> 63 \<and> list_all (\<lambda>d. name_char d \<or> is_digit d) r | [] \<Rightarrow> False)"

definition reserved_key :: "string \<Rightarrow> bool" where
  "reserved_key k \<longleftrightarrow> prefix ''enclave_'' (to_lower k)"

definition one_line :: "string \<Rightarrow> bool" where
  "one_line v \<longleftrightarrow> list_all (\<lambda>c. c \<notin> {CHR 0x00, CHR 0x0A, CHR 0x0D}) v"

datatype env_error = TooManyKeys | BadKey string | ReservedKey string | NotText string | ValueTooLong string | NotOneLine string | TotalTooLong

fun env_total :: "env_map \<Rightarrow> nat \<Rightarrow> env_error + nat" where
  "env_total [] acc = Inr acc"
| "env_total ((k, v) # env) acc =
     (if \<not> secret_key k then Inl (BadKey k)
      else if reserved_key k then Inl (ReservedKey k)
      else case v of
        JStr s \<Rightarrow>
          if MAX_VALUE_BYTES < length s then Inl (ValueTooLong k)
          else if \<not> one_line s then Inl (NotOneLine k)
          else env_total env (acc + length k + length s)
      | _ \<Rightarrow> Inl (NotText k))"

definition check_env_map :: "env_map \<Rightarrow> env_error option" where
  "check_env_map env =
     (if MAX_KEYS < length env then Some TooManyKeys
      else case env_total env 0 of
        Inl e \<Rightarrow> Some e
      | Inr n \<Rightarrow> if MAX_TOTAL_BYTES < n then Some TotalTooLong else None)"

section \<open>The store\<close>

text \<open>What is sealed under an id opens only under that id; \<open>vt_iv\<close> is drawn anew for each seal.\<close>

record 'b cipher =
  vt_seal :: "string \<Rightarrow> string \<Rightarrow> env_map \<Rightarrow> 'b"
  vt_open :: "string \<Rightarrow> 'b \<Rightarrow> env_map option"

record 'b secret_rec =
  sr_rev :: nat
  sr_at :: int
  sr_blob :: 'b
  sr_missing :: "int option"

type_synonym 'b secret_store = "(string \<times> 'b secret_rec) list"

definition read_secrets :: "'b cipher \<Rightarrow> string \<Rightarrow> 'b secret_store \<Rightarrow> (nat \<times> int option \<times> env_map) option" where
  "read_secrets V i T =
     (case map_of T i of
        None \<Rightarrow> Some (0, None, [])
      | Some r \<Rightarrow> map_option (\<lambda>env. (sr_rev r, Some (sr_at r), env)) (vt_open V i (sr_blob r)))"

definition names_of :: "env_map \<Rightarrow> string list" where
  "names_of env = sort (map fst env)"

datatype put_error = PayloadNotJson | PayloadNotObject | UnknownPart string | SetNotObject | EnvRefused env_error | BlobUnreadable

text \<open>
  \<open>Object.assign\<close>: a key that is there keeps its place. An own key \<open>__proto__\<close> of the source is assigned
  through the setter of that name, which sets no key.
\<close>

definition assign_env :: "env_map \<Rightarrow> env_map \<Rightarrow> env_map" where
  "assign_env env new = foldl (\<lambda>m (k, v). if k = ''__proto__'' then m else AList.update k v m) env new"

definition put_deletes :: "(string \<times> json) list \<Rightarrow> string list" where
  "put_deletes p = (case map_of p ''del'' of Some (JArr ks) \<Rightarrow> map js_text ks | _ \<Rightarrow> [])"

definition put_clears :: "(string \<times> json) list \<Rightarrow> bool" where
  "put_clears p \<longleftrightarrow> map_of p ''clear'' = Some (JBool True)"

definition put_sets :: "(string \<times> json) list \<Rightarrow> put_error + env_map" where
  "put_sets p =
     (case map_of p ''set'' of
        None \<Rightarrow> Inr []
      | Some JNull \<Rightarrow> Inr []
      | Some (JObj m) \<Rightarrow> Inr m
      | Some _ \<Rightarrow> Inl SetNotObject)"

definition put_base :: "'b cipher \<Rightarrow> string \<Rightarrow> bool \<Rightarrow> 'b secret_store \<Rightarrow> env_map option" where
  "put_base V i clears T = (if clears then Some [] else map_option (\<lambda>(rev', at', env). env) (read_secrets V i T))"

definition put_env :: "'b cipher \<Rightarrow> string \<Rightarrow> string \<Rightarrow> 'b secret_store \<Rightarrow> put_error + env_map" where
  "put_env V i payload T =
     (case json_parse payload of
        None \<Rightarrow> Inl PayloadNotJson
      | Some (JObj p) \<Rightarrow>
          (case find (\<lambda>(k, v). k \<notin> {''set'', ''del'', ''clear''}) p of
             Some (k, v) \<Rightarrow> Inl (UnknownPart k)
           | None \<Rightarrow>
               (case put_base V i (put_clears p) T of
                  None \<Rightarrow> Inl BlobUnreadable
                | Some env0 \<Rightarrow>
                    (case put_sets p of
                       Inl e \<Rightarrow> Inl e
                     | Inr new \<Rightarrow> Inr (assign_env (foldl (\<lambda>m k. AList.delete k m) env0 (put_deletes p)) new))))
      | Some _ \<Rightarrow> Inl PayloadNotObject)"

definition apply_put ::
  "'b cipher \<Rightarrow> string \<Rightarrow> int \<Rightarrow> string \<Rightarrow> string \<Rightarrow> 'b secret_store \<Rightarrow> (put_error + nat \<times> string list) \<times> 'b secret_store" where
  "apply_put V iv now i payload T =
     (case put_env V i payload T of
        Inl e \<Rightarrow> (Inl e, T)
      | Inr env \<Rightarrow>
          (case check_env_map env of
             Some e \<Rightarrow> (Inl (EnvRefused e), T)
           | None \<Rightarrow>
               (let rev' = (case map_of T i of Some r \<Rightarrow> sr_rev r | None \<Rightarrow> 0) + 1
                in if env = [] then (Inr (rev', []), AList.delete i T)
                   else (Inr (rev', names_of env),
                         AList.update i \<lparr>sr_rev = rev', sr_at = now, sr_blob = vt_seal V iv i env, sr_missing = None\<rparr> T))))"

text \<open>Once an hour a record whose deployment left the ledger is marked, and removed a week later. An empty ledger is not believed.\<close>

definition secrets_sweep :: "int \<Rightarrow> owned_row list option \<Rightarrow> 'b secret_store \<Rightarrow> 'b secret_store" where
  "secrets_sweep now rows T =
     (case rows of
        None \<Rightarrow> T
      | Some rs \<Rightarrow>
          if rs = [] then T
          else List.map_filter (\<lambda>(i, r).
                 if i \<in> set (map (to_lower \<circ> ow_id) rs) then Some (i, r\<lparr>sr_missing := None\<rparr>)
                 else case sr_missing r of
                   None \<Rightarrow> Some (i, r\<lparr>sr_missing := Some now\<rparr>)
                 | Some t \<Rightarrow> if 604800000 < now - t then None else Some (i, r)) T)"

section \<open>Requests\<close>

record 'b sec_state =
  ss_store :: "'b secret_store"
  ss_gate :: gate_state
  ss_fetchRate :: buckets
  ss_owners :: ep_owners

record sec_env =
  se_now :: int
  se_ip :: string
  se_reads :: "owned_row list option \<times> owned_row list option"
  se_owner :: owner_answer
  se_wired :: bool
  se_epId :: "string \<Rightarrow> string"
  se_requireOpSig :: bool
  se_iv :: string

datatype sec_reply = SecDisabled | NotPost | SecBadJson | SecThrows | SecLimited | SecBadId | SecBadEndpoint | SecBadTs
  | WrongOperator | NoOperatorSig | BadFetchSig | SecNotFound | NotLeaseHolder | SecFetched nat env_map | SecExists bool
  | NoSuchRoute | GateRefused owner_refusal | SecRead nat "string list" env_map | BadPayload | BadSecrets put_error | SecPut nat "string list"

datatype sec_route = RouteFetch | RouteExists | RouteGet string | RoutePut string

definition secrets_enabled :: "string option \<Rightarrow> bool \<Rightarrow> bool" where
  "secrets_enabled key writable = (let k = env_text key in k \<noteq> [] \<and> writable \<and> hex_str 64 64 (to_lower k))"

definition switched_off :: "string \<Rightarrow> bool" where
  "switched_off s \<longleftrightarrow> to_lower (js_trim s) \<in> {''0'', ''false'', ''off'', ''no''}"

definition require_op_sig :: "string option \<Rightarrow> bool" where
  "require_op_sig raw \<longleftrightarrow> \<not> switched_off (case raw of Some t \<Rightarrow> t | None \<Rightarrow> ''1'')"

definition dep_bytes32 :: "string \<Rightarrow> bool" where
  "dep_bytes32 i \<longleftrightarrow> prefix ''0x'' i \<and> hex_str 64 64 (drop 2 i)"

definition secrets_route :: "string \<Rightarrow> sec_route option" where
  "secrets_route path =
     (if path = ''/v1/secrets/fetch'' then Some RouteFetch
      else if path = ''/v1/secrets/exists'' then Some RouteExists
      else case strip_prefix ''/v1/secrets/'' path of
        None \<Rightarrow> None
      | Some t \<Rightarrow>
          (let i = to_lower (take 66 t); ok = (take 2 t = ''0x'' \<and> dep_bytes32 i); r = drop 66 t
           in if ok \<and> r = [] then Some (RoutePut i) else if ok \<and> r = ''/get'' then Some (RouteGet i) else None))"

definition fetch_tuple :: "string \<Rightarrow> string \<Rightarrow> int \<Rightarrow> string" where
  "fetch_tuple i endpoint ts = i @ '':'' @ endpoint @ '':'' @ show_int ts"

definition web_origin :: "string \<Rightarrow> bool" where
  "web_origin ep \<longleftrightarrow> prefix ''http://'' ep \<or> prefix ''https://'' ep"

definition hmac_accepts :: "(string \<Rightarrow> string) \<Rightarrow> string \<Rightarrow> string \<Rightarrow> bool" where
  "hmac_accepts mac text sig \<longleftrightarrow> mac text = (if hex_str 64 64 sig then sig else replicate 64 (CHR ''0''))"

text \<open>The two factors of a fetch: the fleet's keyed hash, and the signature of the operator who registered the endpoint.\<close>

definition fetch_auth ::
  "(string \<Rightarrow> string) \<Rightarrow> signer_of \<Rightarrow> sec_env \<Rightarrow> string \<Rightarrow> string \<Rightarrow> int \<Rightarrow> json \<Rightarrow> string option \<Rightarrow> sec_reply option" where
  "fetch_auth mac recover E i endpoint ts b owner =
     (let signer = (if owner = None then None
                    else recover_op recover (''enclave-secrets-fetch:'' @ fetch_tuple i endpoint ts) (json_get ''opSig'' b))
      in if owner \<noteq> None \<and> signer \<noteq> None \<and> signer \<noteq> owner then Some WrongOperator
         else if owner \<noteq> None \<and> signer = None \<and> se_requireOpSig E then Some NoOperatorSig
         else if \<not> hmac_accepts mac (fetch_tuple i endpoint ts) (text_or_empty (json_get ''sig'' b))
              \<and> \<not> (owner \<noteq> None \<and> signer = owner) then Some BadFetchSig
         else None)"

definition secrets_fetch ::
  "'b cipher \<Rightarrow> (string \<Rightarrow> string) \<Rightarrow> signer_of \<Rightarrow> sec_env \<Rightarrow> json \<Rightarrow> 'b sec_state \<Rightarrow> sec_reply \<times> 'b sec_state" where
  "secrets_fetch V mac recover E b S =
     (let i = to_lower (text_or_empty (json_get ''id'' b)); endpoint = strip_slashes (text_or_empty (json_get ''endpoint'' b))
      in if \<not> dep_bytes32 i then (SecBadId, S)
         else if \<not> web_origin endpoint then (SecBadEndpoint, S)
         else case json_int_at ''ts'' b of
           None \<Rightarrow> (SecBadTs, S)
         | Some ts \<Rightarrow>
             if 300000 < \<bar>se_now E - ts * 1000\<bar> then (SecBadTs, S)
             else (case endpoint_operator (se_wired E) (se_owner E) endpoint (ss_owners S) of
               (owner, owners) \<Rightarrow>
                 (let S1 = S\<lparr>ss_owners := owners\<rparr>
                  in case fetch_auth mac recover E i endpoint ts b owner of
                       Some r \<Rightarrow> (r, S1)
                     | None \<Rightarrow>
                         (let holds = row_held_by (se_now E) (se_epId E endpoint); d = row_or_fresh holds i (se_reads E)
                          in if d = None then (SecNotFound, S1)
                             else if \<not> holds d then (NotLeaseHolder, S1)
                             else case read_secrets V i (ss_store S1) of
                               None \<Rightarrow> (SecThrows, S1)
                             | Some (rev', at', env) \<Rightarrow> (SecFetched rev' env, S1)))))"

definition put_message :: "(string \<Rightarrow> string) \<Rightarrow> string \<Rightarrow> string \<Rightarrow> int \<Rightarrow> string" where
  "put_message shaHex i payload expiry = ''enclave-secrets:put:'' @ i @ '':'' @ show_int expiry @ '':'' @ shaHex payload"

definition get_message :: "string \<Rightarrow> int \<Rightarrow> string" where
  "get_message i expiry = ''enclave-secrets:get:'' @ i @ '':'' @ show_int expiry"

definition secrets_get ::
  "'b cipher \<Rightarrow> (string \<Rightarrow> string) \<Rightarrow> signer_of \<Rightarrow> sec_env \<Rightarrow> string \<Rightarrow> json \<Rightarrow> 'b sec_state \<Rightarrow> sec_reply \<times> 'b sec_state" where
  "secrets_get V sha recover E i b S =
     (case owner_gate sha recover True (se_now E) (se_reads E) i b (get_message i) (ss_gate S) of
        (r, G) \<Rightarrow>
          (let S1 = S\<lparr>ss_gate := G\<rparr>
           in case r of
                Inl e \<Rightarrow> (GateRefused e, S1)
              | Inr a \<Rightarrow>
                  (case read_secrets V i (ss_store S1) of
                     None \<Rightarrow> (SecThrows, S1)
                   | Some (rev', at', env) \<Rightarrow> (SecRead rev' (names_of env) env, S1))))"

definition secrets_put ::
  "'b cipher \<Rightarrow> (string \<Rightarrow> string) \<Rightarrow> (string \<Rightarrow> string) \<Rightarrow> signer_of \<Rightarrow> sec_env \<Rightarrow> string \<Rightarrow> json \<Rightarrow> 'b sec_state \<Rightarrow> sec_reply \<times> 'b sec_state" where
  "secrets_put V sha shaHex recover E i b S =
     (case json_get ''payload'' b of
        Some (JStr payload) \<Rightarrow>
          if 24576 < length payload then (BadPayload, S)
          else (case owner_gate sha recover True (se_now E) (se_reads E) i b (put_message shaHex i payload) (ss_gate S) of
            (r, G) \<Rightarrow>
              (case r of
                 Inl e \<Rightarrow> (GateRefused e, S\<lparr>ss_gate := G\<rparr>)
               | Inr a \<Rightarrow>
                   (case apply_put V (se_iv E) (se_now E) i payload (ss_store S) of
                      (Inl e, T) \<Rightarrow> (BadSecrets e, S\<lparr>ss_gate := G, ss_store := T\<rparr>)
                    | (Inr (rev', names), T) \<Rightarrow> (SecPut rev' names, S\<lparr>ss_gate := G, ss_store := T\<rparr>))))
      | _ \<Rightarrow> (BadPayload, S))"

definition secrets_limited :: "sec_env \<Rightarrow> 'b sec_state \<Rightarrow> bool \<times> 'b sec_state" where
  "secrets_limited E S = (case take_token 120 10 (se_now E) (se_ip E) (ss_fetchRate S) of (ok, bs) \<Rightarrow> (\<not> ok, S\<lparr>ss_fetchRate := bs\<rparr>))"

definition handle_secrets ::
  "'b cipher \<Rightarrow> (string \<Rightarrow> string) \<Rightarrow> (string \<Rightarrow> string) \<Rightarrow> (string \<Rightarrow> string) \<Rightarrow> signer_of \<Rightarrow> bool \<Rightarrow> bool
   \<Rightarrow> sec_env \<Rightarrow> string \<Rightarrow> string \<Rightarrow> 'b sec_state \<Rightarrow> sec_reply \<times> 'b sec_state" where
  "handle_secrets V sha shaHex mac recover on post E path raw S =
     (if \<not> on then (SecDisabled, S)
      else if \<not> post then (NotPost, S)
      else case json_parse (if raw = [] then ''{}'' else raw) of
        None \<Rightarrow> (SecBadJson, S)
      | Some b \<Rightarrow>
          (case secrets_route path of
             None \<Rightarrow> (NoSuchRoute, S)
           | Some RouteFetch \<Rightarrow>
               (case secrets_limited E S of
                  (tooMany, S1) \<Rightarrow> if tooMany then (SecLimited, S1) else if b = JNull then (SecThrows, S1) else secrets_fetch V mac recover E b S1)
           | Some RouteExists \<Rightarrow>
               (case secrets_limited E S of
                  (tooMany, S1) \<Rightarrow>
                    (let i = to_lower (text_or_empty (json_get ''id'' b))
                     in if tooMany then (SecLimited, S1) else if b = JNull then (SecThrows, S1)
                        else if \<not> dep_bytes32 i then (SecBadId, S1) else (SecExists (map_of (ss_store S1) i \<noteq> None), S1)))
           | Some (RouteGet i) \<Rightarrow> if b = JNull then (SecThrows, S) else secrets_get V sha recover E i b S
           | Some (RoutePut i) \<Rightarrow> if b = JNull then (SecThrows, S) else secrets_put V sha shaHex recover E i b S))"

section \<open>What is stored can be used\<close>

definition env_ok :: "env_map \<Rightarrow> bool" where
  "env_ok env \<longleftrightarrow> distinct (map fst env) \<and> length env \<le> 64
     \<and> list_all (\<lambda>(k, v). secret_key k \<and> \<not> reserved_key k \<and> (\<exists>s. v = JStr s \<and> length s \<le> 4096 \<and> one_line s)) env
     \<and> (\<Sum>(k, v) \<leftarrow> env. length k + length (js_text v)) \<le> 16384"

lemma env_total_ok:
  assumes "env_total env acc = Inr n"
  shows "list_all (\<lambda>(k, v). secret_key k \<and> \<not> reserved_key k \<and> (\<exists>s. v = JStr s \<and> length s \<le> MAX_VALUE_BYTES \<and> one_line s)) env
    \<and> n = acc + (\<Sum>(k, v) \<leftarrow> env. length k + length (js_text v))"
  using assms
  by (induction env acc rule: env_total.induct) (auto split: if_splits json.splits)

lemma checked_env_ok: "check_env_map env = None \<Longrightarrow> distinct (map fst env) \<Longrightarrow> env_ok env"
  using env_total_ok [of env 0]
  by (auto simp: check_env_map_def env_ok_def MAX_KEYS_def MAX_VALUE_BYTES_def MAX_TOTAL_BYTES_def split: if_splits sum.splits)

lemma assign_env_distinct: "distinct (map fst env) \<Longrightarrow> distinct (map fst (assign_env env new))"
  unfolding assign_env_def by (induction new arbitrary: env) (auto simp: distinct_alist_update)

lemma delete_all_distinct: "distinct (map fst env) \<Longrightarrow> distinct (map fst (foldl (\<lambda>m k. AList.delete k m) env ks))"
  by (induction ks arbitrary: env) (auto intro: distinct_delete)

definition opens_right :: "'b cipher \<Rightarrow> bool" where
  "opens_right V \<longleftrightarrow> (\<forall>iv i env. vt_open V i (vt_seal V iv i env) = Some env)"

definition secrets_ok :: "'b cipher \<Rightarrow> 'b secret_store \<Rightarrow> bool" where
  "secrets_ok V T \<longleftrightarrow> distinct (map fst T)
     \<and> list_all (\<lambda>(i, r). 0 < sr_rev r \<and> (\<exists>env. vt_open V i (sr_blob r) = Some env \<and> env \<noteq> [] \<and> env_ok env)) T"

lemma secrets_ok_lookup:
  "secrets_ok V T \<Longrightarrow> map_of T i = Some r \<Longrightarrow> 0 < sr_rev r \<and> (\<exists>env. vt_open V i (sr_blob r) = Some env \<and> env \<noteq> [] \<and> env_ok env)"
  unfolding secrets_ok_def list_all_iff by (drule map_of_SomeD) auto

lemma put_env_distinct:
  assumes "secrets_ok V T" "put_env V i payload T = Inr env"
  shows "distinct (map fst env)"
proof -
  from assms(2) obtain p env0 new where b: "put_base V i (put_clears p) T = Some env0"
    and e: "env = assign_env (foldl (\<lambda>m k. AList.delete k m) env0 (put_deletes p)) new"
    by (auto simp: put_env_def split: option.splits json.splits sum.splits)
  have "distinct (map fst env0)"
    using b secrets_ok_lookup [OF assms(1), of i]
    by (auto simp: put_base_def read_secrets_def env_ok_def split: if_splits option.splits)
  then show ?thesis unfolding e by (intro assign_env_distinct delete_all_distinct)
qed

lemma apply_put_ok:
  assumes "opens_right V" "secrets_ok V T"
  shows "secrets_ok V (snd (apply_put V iv now i payload T))"
proof (cases "put_env V i payload T")
  case (Inl e)
  with assms(2) show ?thesis by (simp add: apply_put_def)
next
  case (Inr env)
  show ?thesis
  proof (cases "check_env_map env")
    case (Some e)
    with assms(2) Inr show ?thesis by (simp add: apply_put_def)
  next
    case None
    from checked_env_ok [OF None put_env_distinct [OF assms(2) Inr]] have ok: "env_ok env" .
    show ?thesis
    proof (cases "env = []")
      case True
      with assms(2) Inr None show ?thesis
        by (simp add: apply_put_def secrets_ok_def distinct_delete list_all_alist_delete)
    next
      case False
      with assms Inr None ok show ?thesis
        by (auto simp: apply_put_def Let_def secrets_ok_def opens_right_def intro!: distinct_update list_all_alist_update)
    qed
  qed
qed

lemma map_filter_keys:
  assumes "\<And>k r k' r'. f (k, r) = Some (k', r') \<Longrightarrow> k' = k" "distinct (map fst T)"
  shows "distinct (map fst (List.map_filter f T))"
  using assms(2)
proof (induction T)
  case (Cons x T)
  have "fst ` set (List.map_filter f T) \<subseteq> fst ` set T"
    using assms(1) by (force simp: set_map_filter)
  then have "fst x \<notin> fst ` set (List.map_filter f T)" using Cons.prems by auto
  with Cons assms(1) [of "fst x" "snd x"] show ?case
    by (cases "f x") (force simp: map_filter_simps)+
qed (simp add: map_filter_simps)

lemma secrets_sweep_ok:
  assumes "secrets_ok V T"
  shows "secrets_ok V (secrets_sweep now rows T)"
proof (cases "rows = None \<or> rows = Some []")
  case True
  with assms show ?thesis by (auto simp: secrets_sweep_def)
next
  case False
  then obtain rs where rs: "rows = Some rs" "rs \<noteq> []" by auto
  let ?f = "\<lambda>(i, r). if i \<in> set (map (to_lower \<circ> ow_id) rs) then Some (i, r\<lparr>sr_missing := None\<rparr>)
                 else case sr_missing r of
                   None \<Rightarrow> Some (i, r\<lparr>sr_missing := Some now\<rparr>)
                 | Some t \<Rightarrow> if 604800000 < now - t then None else Some (i, r)"
  have "distinct (map fst (List.map_filter ?f T))"
    using assms by (intro map_filter_keys) (auto simp: secrets_ok_def split: if_splits option.splits)
  moreover have "list_all (\<lambda>(i, r). 0 < sr_rev r \<and> (\<exists>env. vt_open V i (sr_blob r) = Some env \<and> env \<noteq> [] \<and> env_ok env)) (List.map_filter ?f T)"
    using assms by (fastforce simp: secrets_ok_def list_all_iff set_map_filter split: if_splits option.splits)
  ultimately show ?thesis using rs by (simp add: secrets_sweep_def secrets_ok_def)
qed

section \<open>All that happens to the store\<close>

definition no_secrets :: "'b sec_state" where
  "no_secrets = \<lparr>ss_store = [], ss_gate = \<lparr>ga_rate = [], ga_seen = []\<rparr>, ss_fetchRate = [], ss_owners = []\<rparr>"

inductive secrets_reachable ::
  "'b cipher \<Rightarrow> (string \<Rightarrow> string) \<Rightarrow> (string \<Rightarrow> string) \<Rightarrow> (string \<Rightarrow> string) \<Rightarrow> signer_of \<Rightarrow> 'b sec_state \<Rightarrow> bool"
  for V sha shaHex mac recover where
  sec_start: "secrets_reachable V sha shaHex mac recover no_secrets"
| sec_request: "secrets_reachable V sha shaHex mac recover S
    \<Longrightarrow> secrets_reachable V sha shaHex mac recover (snd (handle_secrets V sha shaHex mac recover on post E path raw S))"
| sec_sweep: "secrets_reachable V sha shaHex mac recover S
    \<Longrightarrow> secrets_reachable V sha shaHex mac recover (S\<lparr>ss_store := secrets_sweep now rows (ss_store S)\<rparr>)"

text \<open>A request leaves the store alone or applies one put that its owner signed.\<close>

definition owner_change ::
  "'b cipher \<Rightarrow> (string \<Rightarrow> string) \<Rightarrow> (string \<Rightarrow> string) \<Rightarrow> signer_of \<Rightarrow> sec_env \<Rightarrow> string \<Rightarrow> gate_state \<Rightarrow> 'b secret_store \<Rightarrow> 'b secret_store \<Rightarrow> bool" where
  "owner_change V sha shaHex recover E i G T T' \<longleftrightarrow>
     (\<exists>payload expiry sig signer. T' = snd (apply_put V (se_iv E) (se_now E) i payload T)
        \<and> se_now E div 1000 \<le> expiry \<and> expiry \<le> se_now E div 1000 + 600
        \<and> recover (put_message shaHex i payload expiry) sig = Some signer \<and> ledger_owner (se_reads E) i (to_lower signer)
        \<and> fst (sig_fresh sha (se_now E div 1000) sig expiry (ga_seen G)))"

lemma fetch_keeps_store: "ss_store (snd (secrets_fetch V mac recover E b S)) = ss_store S"
  by (simp add: secrets_fetch_def Let_def split: option.split prod.split)

lemma get_keeps_store: "ss_store (snd (secrets_get V sha recover E i b S)) = ss_store S"
  by (simp add: secrets_get_def Let_def split: option.split prod.split sum.split)

lemma secrets_limited_store: "ss_store (snd (secrets_limited E S)) = ss_store S"
  by (simp add: secrets_limited_def split: prod.split)

lemma put_changes_by_owner:
  "ss_store (snd (secrets_put V sha shaHex recover E i b S)) = ss_store S
   \<or> owner_change V sha shaHex recover E i (ss_gate S) (ss_store S) (ss_store (snd (secrets_put V sha shaHex recover E i b S)))"
proof (cases "\<exists>payload. json_get ''payload'' b = Some (JStr payload) \<and> \<not> 24576 < length payload")
  case False
  then show ?thesis by (auto simp: secrets_put_def split: option.split json.split)
next
  case True
  then obtain payload where p: "json_get ''payload'' b = Some (JStr payload)" "\<not> 24576 < length payload" by blast
  obtain r G where g: "owner_gate sha recover True (se_now E) (se_reads E) i b (put_message shaHex i payload) (ss_gate S) = (r, G)" by fastforce
  show ?thesis
  proof (cases r)
    case (Inl e)
    with p g show ?thesis by (simp add: secrets_put_def)
  next
    case (Inr a)
    from owner_gate_passed [OF g [unfolded Inr]]
    have "owner_change V sha shaHex recover E i (ss_gate S) (ss_store S) (snd (apply_put V (se_iv E) (se_now E) i payload (ss_store S)))"
      unfolding owner_change_def by (metis fst_conv)
    with p g Inr show ?thesis by (auto simp: secrets_put_def split: prod.split sum.split)
  qed
qed

lemma request_changes_by_owner:
  "ss_store (snd (handle_secrets V sha shaHex mac recover on post E path raw S)) = ss_store S
   \<or> (\<exists>i. secrets_route path = Some (RoutePut i)
       \<and> owner_change V sha shaHex recover E i (ss_gate S) (ss_store S) (ss_store (snd (handle_secrets V sha shaHex mac recover on post E path raw S))))"
proof (cases "on \<and> post \<and> json_parse (if raw = [] then ''{}'' else raw) \<noteq> None \<and> secrets_route path \<noteq> None")
  case False
  then show ?thesis by (auto simp: handle_secrets_def split: option.split)
next
  case True
  then obtain b rt where b: "on" "post" "json_parse (if raw = [] then ''{}'' else raw) = Some b" "secrets_route path = Some rt" by blast
  obtain tooMany S1 where l: "secrets_limited E S = (tooMany, S1)" by fastforce
  with secrets_limited_store [of E S] have "ss_store S1 = ss_store S" by simp
  with b l show ?thesis
  proof (cases rt)
    case (RoutePut i)
    with b put_changes_by_owner [of V sha shaHex recover E i b S] show ?thesis
      by (cases "b = JNull") (auto simp: handle_secrets_def)
  qed (simp_all add: handle_secrets_def fetch_keeps_store get_keeps_store Let_def)
qed



section \<open>What an owner puts is what is read\<close>

definition last_set :: "env_map \<Rightarrow> string \<Rightarrow> json option" where
  "last_set new k = (if k = ''__proto__'' then None else map_of (rev new) k)"

lemma map_of_assign: "map_of (assign_env env new) k = (case last_set new k of Some v \<Rightarrow> Some v | None \<Rightarrow> map_of env k)"
proof (induction new arbitrary: env)
  case (Cons x new)
  obtain k' v where x: "x = (k', v)" by (cases x)
  have "assign_env env (x # new) = assign_env (if k' = ''__proto__'' then env else AList.update k' v env) new"
    by (simp add: assign_env_def x)
  with Cons show ?case by (auto simp: last_set_def x map_add_def split: option.splits)
qed (simp add: assign_env_def last_set_def)

lemma map_of_delete_all: "map_of (foldl (\<lambda>m k. AList.delete k m) env ks) k = (if k \<in> set ks then None else map_of env k)"
  by (induction ks arbitrary: env) (auto simp: delete_conv')


section \<open>Who is handed the secrets\<close>

lemma fetch_auth_refuses: "fetch_auth mac recover E i endpoint ts b owner \<noteq> Some (SecFetched r env)"
  by (simp add: fetch_auth_def Let_def)


section \<open>Demonstration\<close>

definition demo_cipher :: "(string \<times> env_map) cipher" where
  "demo_cipher = \<lparr>vt_seal = (\<lambda>iv i env. (i, env)), vt_open = (\<lambda>i (j, env). if i = j then Some env else None)\<rparr>"

lemma demo_cipher_opens: "opens_right demo_cipher"
  by (simp add: opens_right_def demo_cipher_def)

definition dep_d :: string where
  "dep_d = ''0x'' @ replicate 64 (CHR ''d'')"

definition sig_of :: "char \<Rightarrow> string" where
  "sig_of c = ''0x'' @ replicate 130 c"

definition demo_owned :: owned_row where
  "demo_owned = \<lparr>ow_id = dep_d, ow_owner = ''0xA'', ow_runner = ''0x9'', ow_until = 1000\<rparr>"

definition demo_sec_env :: sec_env where
  "demo_sec_env = \<lparr>se_now = 200000, se_ip = ''1'', se_reads = (Some [demo_owned], None), se_owner = OwnerIs ''0xB'', se_wired = True,
     se_epId = (\<lambda>ep. ''0x9''), se_requireOpSig = True, se_iv = []\<rparr>"

lemma demo_shapes: "sig_shape (sig_of (CHR ''a''))" "sig_shape (sig_of (CHR ''A''))" "dep_bytes32 dep_d" "to_lower dep_d = dep_d"
  "sig_of (CHR ''a'') \<noteq> sig_of (CHR ''A'')" "to_lower ''0xA'' = ''0xa''" "sig_of (CHR ''a'') \<noteq> []" "sig_of (CHR ''A'') \<noteq> []"
  by code_simp+

lemma demo_owner_tokens:
  "take_token 30 (1 / 2) 200000 ''0xa'' [] = (True, [(''0xa'', \<lparr>bk_tokens = 29, bk_at = 200000\<rparr>)])"
  "take_token 30 (1 / 2) 200000 ''0xa'' [(''0xa'', \<lparr>bk_tokens = 29, bk_at = 200000\<rparr>)] = (True, [(''0xa'', \<lparr>bk_tokens = 28, bk_at = 200000\<rparr>)])"
  "take_token 120 10 200000 ''1'' [] = (True, [(''1'', \<lparr>bk_tokens = 119, bk_at = 200000\<rparr>)])"
  by code_simp+

definition signed_body :: "string \<Rightarrow> json" where
  "signed_body sig = JObj [(''expiry'', JNum 300), (''signature'', JStr sig)]"

lemma demo_signed: "json_int_at ''expiry'' (signed_body sig) = Some 300" "sig \<noteq> [] \<Longrightarrow> text_or_empty (json_get ''signature'' (signed_body sig)) = sig"
  by (simp_all add: signed_body_def json_int_at_def json_get_def number_int_def text_or_empty_def json_truthy_def)

lemma demo_owner_gate:
  assumes "\<forall>m s. recover m s = Some ''0xA''" "sig_shape sig" "sig \<noteq> []" "take_token 30 (1 / 2) 200000 ''0xa'' (ga_rate G) = (True, bs)"
    "sig_fresh sha 200 sig 300 (ga_seen G) = (f, seen)" "b = signed_body sig \<or> json_int_at ''expiry'' b = Some 300 \<and> text_or_empty (json_get ''signature'' b) = sig"
  shows "owner_gate sha recover True 200000 (Some [demo_owned], None) dep_d b m G
     = (if f then Inr ''0xa'' else Inl SigReplayed, G\<lparr>ga_rate := bs, ga_seen := seen\<rparr>)"
proof -
  have row: "row_or_fresh (\<lambda>d. d \<noteq> None) dep_d (Some [demo_owned], None) = Some demo_owned" "to_lower (ow_owner demo_owned) = ''0xa''"
    by (simp_all add: row_or_fresh_def row_of_def demo_owned_def demo_shapes)
  have b: "json_int_at ''expiry'' b = Some 300" "text_or_empty (json_get ''signature'' b) = sig"
    using assms(6) demo_signed [of sig] assms(3) by auto
  show ?thesis
    unfolding owner_gate_def Let_def b option.case using assms(1-5) row by (simp add: SIG_TTL_SEC_def demo_shapes)
qed

text \<open>
  The mark of a spent signature is taken over its text, the signer from its bytes: the same signature with
  its hexadecimal digits in capitals passes the gate a second time.
\<close>

lemma recased_signature_passes_again:
  fixes recover :: signer_of
  assumes "\<forall>m s. recover m s = Some ''0xA''"
  shows "\<exists>G1 G2. owner_gate (\<lambda>s. s) recover True 200000 (Some [demo_owned], None) dep_d (signed_body (sig_of (CHR ''a''))) m \<lparr>ga_rate = [], ga_seen = []\<rparr> = (Inr ''0xa'', G1)
     \<and> owner_gate (\<lambda>s. s) recover True 200000 (Some [demo_owned], None) dep_d (signed_body (sig_of (CHR ''A''))) m G1 = (Inr ''0xa'', G2)
     \<and> fst (owner_gate (\<lambda>s. s) recover True 200000 (Some [demo_owned], None) dep_d (signed_body (sig_of (CHR ''a''))) m G1) = Inl SigReplayed"
proof -
  let ?a = "sig_of (CHR ''a'')" and ?A = "sig_of (CHR ''A'')"
  have f: "sig_fresh (\<lambda>s. s) 200 ?a 300 [] = (True, [(?a, 300)])" "sig_fresh (\<lambda>s. s) 200 ?A 300 [(?a, 300)] = (True, [(?a, 300), (?A, 300)])"
    "sig_fresh (\<lambda>s. s) 200 ?a 300 [(?a, 300)] = (False, [(?a, 300)])"
    using demo_shapes(5) by (simp_all add: sig_fresh_def)
  show ?thesis
    using demo_owner_gate [OF assms demo_shapes(1,7), of "\<lparr>ga_rate = [], ga_seen = []\<rparr>" _ "\<lambda>s. s" True "[(?a, 300)]"]
      demo_owner_gate [OF assms demo_shapes(2,8), of "\<lparr>ga_rate = [(''0xa'', \<lparr>bk_tokens = 29, bk_at = 200000\<rparr>)], ga_seen = [(?a, 300)]\<rparr>" _ "\<lambda>s. s" True "[(?a, 300), (?A, 300)]"]
      demo_owner_gate [OF assms demo_shapes(1,7), of "\<lparr>ga_rate = [(''0xa'', \<lparr>bk_tokens = 29, bk_at = 200000\<rparr>)], ga_seen = [(?a, 300)]\<rparr>" _ "\<lambda>s. s" False "[(?a, 300)]"]
      f demo_owner_tokens
    by auto
qed

definition demo_payload :: string where
  "demo_payload = ''{\"set\":{\"K\":\"v\"}}''"

lemma demo_put_value:
  "apply_put demo_cipher [] 5 ''i'' demo_payload [] =
     (Inr (1, [''K'']), [(''i'', \<lparr>sr_rev = 1, sr_at = 5, sr_blob = (''i'', [(''K'', JStr ''v'')]), sr_missing = None\<rparr>)])"
  by code_simp



definition demo_put_raw :: string where
  "demo_put_raw = (let q = [CHR 0x5C, CHR 0x22] in ''{\"expiry\":300,\"payload\":\"{'' @ q @ ''set'' @ q @ '':{'' @ q @ ''K'' @ q @ '':'' @ q @ ''v'' @ q
     @ ''}}\",\"signature\":\"'' @ sig_of (CHR ''a'') @ ''\"}'')"

lemma demo_put_parse: "json_parse demo_put_raw = Some (JObj [(''expiry'', JNum 300), (''payload'', JStr demo_payload), (''signature'', JStr (sig_of (CHR ''a'')))])"
  by code_simp

lemma demo_put_route: "secrets_route (''/v1/secrets/'' @ dep_d) = Some (RoutePut dep_d)" "demo_put_raw \<noteq> []"
  by code_simp+

definition demo_put_run :: "sec_reply \<times> (string \<times> env_map) sec_state" where
  "demo_put_run = handle_secrets demo_cipher (\<lambda>s. s) (\<lambda>s. s) (\<lambda>s. s) (\<lambda>m s. Some ''0xA'') True True demo_sec_env (''/v1/secrets/'' @ dep_d) demo_put_raw no_secrets"

lemma demo_put_stores: "ss_store (snd demo_put_run) = snd (apply_put demo_cipher [] 200000 dep_d demo_payload [])"
proof -
  let ?b = "JObj [(''expiry'', JNum 300), (''payload'', JStr demo_payload), (''signature'', JStr (sig_of (CHR ''a'')))]"
  have b: "json_int_at ''expiry'' ?b = Some 300" "text_or_empty (json_get ''signature'' ?b) = sig_of (CHR ''a'')"
    "json_get ''payload'' ?b = Some (JStr demo_payload)" "\<not> 24576 < length demo_payload"
    using demo_shapes(7) by (simp_all add: json_int_at_def json_get_def number_int_def text_or_empty_def json_truthy_def demo_payload_def)
  have f: "sig_fresh (\<lambda>s. s) 200 (sig_of (CHR ''a'')) 300 [] = (True, [(sig_of (CHR ''a''), 300)])" by (simp add: sig_fresh_def)
  have g: "owner_gate (\<lambda>s. s) (\<lambda>m s. Some ''0xA'') True 200000 (Some [demo_owned], None) dep_d ?b (put_message (\<lambda>s. s) dep_d demo_payload) \<lparr>ga_rate = [], ga_seen = []\<rparr>
      = (Inr ''0xa'', \<lparr>ga_rate = [(''0xa'', \<lparr>bk_tokens = 29, bk_at = 200000\<rparr>)], ga_seen = [(sig_of (CHR ''a''), 300)]\<rparr>)"
    using demo_owner_gate [OF _ demo_shapes(1,7), of "\<lambda>m s. Some ''0xA''" "\<lparr>ga_rate = [], ga_seen = []\<rparr>" _ "\<lambda>s. s" True _ ?b] f b demo_owner_tokens by auto
  have E: "se_now demo_sec_env = 200000" "se_reads demo_sec_env = (Some [demo_owned], None)" "se_iv demo_sec_env = []"
    by (simp_all add: demo_sec_env_def)
  show ?thesis
    unfolding demo_put_run_def handle_secrets_def demo_put_parse demo_put_route(1) secrets_put_def b(3) E
    using demo_put_route(2) g by (simp add: b(3,4) no_secrets_def demo_put_parse E split: prod.split sum.split)
qed


definition demo_fetch_raw :: string where
  "demo_fetch_raw = ''{\"id\":\"'' @ dep_d @ ''\",\"endpoint\":\"https://b/\",\"ts\":200,\"opSig\":\"'' @ sig_of (CHR ''b'') @ ''\"}''"

definition demo_fetch :: "sec_reply \<times> (string \<times> env_map) sec_state" where
  "demo_fetch = handle_secrets demo_cipher (\<lambda>s. s) (\<lambda>s. s) (\<lambda>s. s) (\<lambda>m s. Some ''0xB'') True True demo_sec_env ''/v1/secrets/fetch'' demo_fetch_raw no_secrets"

lemma demo_fetch_parse: "json_parse demo_fetch_raw
    = Some (JObj [(''id'', JStr dep_d), (''endpoint'', JStr ''https://b/''), (''ts'', JNum 200), (''opSig'', JStr (sig_of (CHR ''b'')))])"
  by code_simp

lemma demo_fetch_facts: "secrets_route ''/v1/secrets/fetch'' = Some RouteFetch" "demo_fetch_raw \<noteq> []" "strip_slashes ''https://b/'' = ''https://b''"
  "web_origin ''https://b''" "sig_shape (sig_of (CHR ''b''))" "dep_d \<noteq> []" "to_lower ''0xB'' = ''0xb''" "\<not> zero_runner ''0x9''" "to_lower ''0x9'' = ''0x9''"
  by code_simp+

lemma demo_fetch_value: "fst demo_fetch = SecFetched 0 []"
proof -
  let ?b = "JObj [(''id'', JStr dep_d), (''endpoint'', JStr ''https://b/''), (''ts'', JNum 200), (''opSig'', JStr (sig_of (CHR ''b'')))]"
  have b: "json_int_at ''ts'' ?b = Some 200" "text_or_empty (json_get ''id'' ?b) = dep_d" "text_or_empty (json_get ''endpoint'' ?b) = ''https://b/''"
    "json_get ''opSig'' ?b = Some (JStr (sig_of (CHR ''b'')))"
    using demo_fetch_facts(6) by (simp_all add: json_int_at_def json_get_def number_int_def text_or_empty_def json_truthy_def)
  have o: "endpoint_operator True (OwnerIs ''0xB'') ''https://b'' [] = (Some ''0xb'', [(''https://b'', ''0xb'')])"
    using demo_fetch_facts by (simp add: endpoint_operator_def)
  have h: "row_or_fresh (row_held_by 200000 ''0x9'') dep_d (Some [demo_owned], None) = Some demo_owned" "row_held_by 200000 ''0x9'' (Some demo_owned)"
    using demo_fetch_facts by (simp_all add: row_or_fresh_def row_of_def demo_owned_def demo_shapes row_held_by_def)
  have a: "fetch_auth (\<lambda>s. s) (\<lambda>m s. Some ''0xB'') demo_sec_env i ep ts ?b (Some ''0xb'') = None" for i ep ts
    using demo_fetch_facts b(4) by (simp add: fetch_auth_def recover_op_def)
  have E: "se_now demo_sec_env = 200000" "se_reads demo_sec_env = (Some [demo_owned], None)" "se_ip demo_sec_env = ''1''"
    "se_wired demo_sec_env" "se_owner demo_sec_env = OwnerIs ''0xB''" "se_epId demo_sec_env ep = ''0x9''" for ep
    by (simp_all add: demo_sec_env_def)
  show ?thesis
    unfolding demo_fetch_def handle_secrets_def demo_fetch_parse demo_fetch_facts(1) secrets_fetch_def
    using demo_fetch_facts(2-4) b o h a E demo_shapes(3,4)
    by (simp add: no_secrets_def demo_fetch_parse secrets_limited_def demo_owner_tokens read_secrets_def)
qed


text \<open>A secret named \<open>__proto__\<close> keeps the rules of a name, and no put stores it.\<close>

lemma proto_name_is_lost: "secret_key ''__proto__''" "\<not> reserved_key ''__proto__''"
  "put_env demo_cipher ''i'' ''{\"set\":{\"__proto__\":\"v\",\"K\":\"w\"}}'' [] = Inr [(''K'', JStr ''w'')]"
  by code_simp+

end
