(* ===== verification/Custom_Domains.thy ===== *)
theory Custom_Domains
  imports Fleet_Auth Fleet_Directory
begin

text \<open>
  Custom domains, the part without I/O (\<open>relay/domains.js\<close>): the canonical form of a hostname and which are
  refused, what the DNS answers prove, and the state machine of one attached name. \<open>domainToASCII\<close> is an
  argument; text is ASCII.
\<close>

section \<open>Hostnames\<close>

definition MAX_HOSTNAME :: nat where "MAX_HOSTNAME = 253"
definition MAX_LABEL :: nat where "MAX_LABEL = 63"
definition PER_DEPLOYMENT :: nat where "PER_DEPLOYMENT = 10"

datatype host_error = EmptyHost | EmailAddress | IpLiteral | PortOrScheme | Wildcard | Underscore | NotRepresentable | HostTooLong
  | SingleLabel | EmptyLabel | LabelTooLong string | LabelChars string | LabelHyphen string | ReservedHost

definition line_end :: "char \<Rightarrow> bool" where
  "line_end c \<longleftrightarrow> c = CHR 0x0A \<or> c = CHR 0x0D"

text \<open>\<open>s.replace(/\/.*$/, "")\<close>: from the first slash with no line end behind it.\<close>

fun cut_path :: "string \<Rightarrow> string" where
  "cut_path [] = []"
| "cut_path (c # s) = (if c = CHR ''/'' \<and> list_all (\<lambda>d. \<not> line_end d) s then [] else c # cut_path s)"

definition strip_http :: "string \<Rightarrow> string" where
  "strip_http s = (case strip_prefix ''http://'' s of Some r \<Rightarrow> r | None \<Rightarrow> (case strip_prefix ''https://'' s of Some r \<Rightarrow> r | None \<Rightarrow> s))"

definition drop_dots :: "string \<Rightarrow> string" where
  "drop_dots s = rev (dropWhile (\<lambda>c. c = CHR ''.'') (rev s))"

definition hex_or_colon :: "string \<Rightarrow> bool" where
  "hex_or_colon s \<longleftrightarrow> s \<noteq> [] \<and> list_all (\<lambda>c. is_hex (lower_char c) \<or> c = CHR '':'') s"

definition quad :: "string \<Rightarrow> bool" where
  "quad h \<longleftrightarrow> (let ps = split_on (CHR ''.'') h in length ps = 4 \<and> list_all (\<lambda>p. digit_str p \<and> length p \<le> 3) ps)"

definition is_ip_literal :: "string \<Rightarrow> bool" where
  "is_ip_literal h \<longleftrightarrow>
     (2 \<le> length h \<and> hd h = CHR ''['' \<and> last h = CHR '']'' \<and> list_all (\<lambda>c. \<not> line_end c) h)
     \<or> quad h \<or> (hex_or_colon h \<and> CHR '':'' \<in> set h) \<or> digit_str (last (split_on (CHR ''.'') h))"

definition unbracketed_v6 :: "string \<Rightarrow> bool" where
  "unbracketed_v6 h \<longleftrightarrow>
     (let a = (case h of c # r \<Rightarrow> if c = CHR ''['' then r else h | [] \<Rightarrow> []);
          b = (if a \<noteq> [] \<and> last a = CHR '']'' then butlast a else a)
      in hex_or_colon b)"

definition label_char_ok :: "char \<Rightarrow> bool" where
  "label_char_ok c \<longleftrightarrow> c \<in> set ''abcdefghijklmnopqrstuvwxyz0123456789-''"

definition label_error :: "string \<Rightarrow> host_error option" where
  "label_error l =
     (if l = [] then Some EmptyLabel
      else if MAX_LABEL < length l then Some (LabelTooLong l)
      else if \<not> list_all label_char_ok l then Some (LabelChars l)
      else if hd l = CHR ''-'' \<or> last l = CHR ''-'' then Some (LabelHyphen l)
      else None)"

fun labels_error :: "string list \<Rightarrow> host_error option" where
  "labels_error [] = None"
| "labels_error (l # ls) = (case label_error l of Some e \<Rightarrow> Some e | None \<Rightarrow> labels_error ls)"

definition normalize_hostname :: "(string \<Rightarrow> string) \<Rightarrow> string \<Rightarrow> host_error + string" where
  "normalize_hostname ascii raw =
     (let h0 = drop_dots (cut_path (strip_http (to_lower (js_trim raw))))
      in if h0 = [] then Inl EmptyHost
         else if CHR ''@'' \<in> set h0 then Inl EmailAddress
         else if CHR '':'' \<in> set h0 then Inl (if unbracketed_v6 h0 then IpLiteral else PortOrScheme)
         else if CHR ''*'' \<in> set h0 then Inl Wildcard
         else if CHR ''_'' \<in> set h0 then Inl Underscore
         else (let h = ascii h0
               in if h = [] then Inl NotRepresentable
                  else if MAX_HOSTNAME < length h then Inl HostTooLong
                  else if is_ip_literal h then Inl IpLiteral
                  else (let ls = split_on (CHR ''.'') h
                        in if length ls < 2 then Inl SingleLabel
                           else case labels_error ls of Some e \<Rightarrow> Inl e | None \<Rightarrow> Inr h)))"

section \<open>Reserved names\<close>

definition RESERVED_SUFFIXES :: "string list" where
  "RESERVED_SUFFIXES = [''local'', ''localhost'', ''internal'', ''intranet'', ''lan'', ''home'', ''corp'',
     ''test'', ''example'', ''invalid'', ''onion'', ''alt'', ''home.arpa'', ''in-addr.arpa'', ''ip6.arpa'']"

definition trim_zone :: "string \<Rightarrow> string" where
  "trim_zone s = (let t = js_trim s in drop_dots (dropWhile (\<lambda>c. c = CHR ''.'') t))"

definition zones_of :: "string \<Rightarrow> string list" where
  "zones_of s = filter (\<lambda>z. z \<noteq> []) (map trim_zone (split_on (CHR '','') (to_lower s)))"

record dom_cfg =
  dc_appDomains :: "string list"
  dc_reserved :: "string list"
  dc_edgePin :: "string list"
  dc_key :: string

definition or_text :: "string option \<Rightarrow> string \<Rightarrow> string" where
  "or_text raw d = (case raw of Some t \<Rightarrow> if t = [] then d else t | None \<Rightarrow> d)"

definition dom_config :: "(string \<Rightarrow> string option) \<Rightarrow> dom_cfg" where
  "dom_config env =
     (let apps = zones_of (or_text (env ''APP_DOMAIN'') ''app.enclave.host'')
      in \<lparr>dc_appDomains = apps, dc_reserved = in_order_once (zones_of (or_text (env ''RESERVED_ZONES'') ''enclave.host,nan.host'') @ apps),
          dc_edgePin = filter (\<lambda>x. x \<noteq> []) (map js_trim (split_on (CHR '','') (or_text (env ''DOMAIN_EDGE_IPS'') []))),
          dc_key = env_text (env ''SECRETS_KEY'')\<rparr>)"

definition app_zone :: "dom_cfg \<Rightarrow> string" where
  "app_zone C = (case dc_appDomains C of z # zs \<Rightarrow> z | [] \<Rightarrow> ''app.enclave.host'')"

definition at_or_under :: "string \<Rightarrow> string \<Rightarrow> bool" where
  "at_or_under h z \<longleftrightarrow> h = z \<or> suffix (''.'' @ z) h"

definition is_reserved_hostname :: "dom_cfg \<Rightarrow> string \<Rightarrow> bool" where
  "is_reserved_hostname C h =
     (let host = drop_dots (to_lower h)
      in host = [] \<or> list_ex (at_or_under host) (dc_reserved C) \<or> list_ex (at_or_under host) RESERVED_SUFFIXES)"

definition check_hostname :: "dom_cfg \<Rightarrow> (string \<Rightarrow> string) \<Rightarrow> string \<Rightarrow> host_error + string" where
  "check_hostname C ascii raw =
     (case normalize_hostname ascii raw of
        Inl e \<Rightarrow> Inl e
      | Inr h \<Rightarrow> if is_reserved_hostname C h then Inl ReservedHost else Inr h)"

section \<open>What DNS proves\<close>

definition label_for :: "string \<Rightarrow> string" where
  "label_for i = (let s = to_lower i in if prefix ''0x'' s then take 8 (drop 2 s)
     else (case strip_prefix ''dep_'' s of Some r \<Rightarrow> r | None \<Rightarrow> (case strip_prefix ''dep-'' s of Some r \<Rightarrow> r | None \<Rightarrow> s)))"

definition routing_target :: "dom_cfg \<Rightarrow> string \<Rightarrow> string" where
  "routing_target C label = label @ ''.'' @ app_zone C"

definition challenge_host :: "string \<Rightarrow> string" where "challenge_host hostname = ''_enclave-challenge.'' @ hostname"
definition acme_alias_for :: "dom_cfg \<Rightarrow> string \<Rightarrow> string" where "acme_alias_for C label = ''_acme-challenge.'' @ label @ ''.'' @ app_zone C"
definition acme_delegation_host :: "string \<Rightarrow> string" where "acme_delegation_host hostname = ''_acme-challenge.'' @ hostname"

text \<open>The strings of a TXT record as one: quotes with white space between them go, then those at the ends.\<close>

fun join_quoted :: "nat \<Rightarrow> string \<Rightarrow> string" where
  "join_quoted 0 s = s"
| "join_quoted (Suc n) [] = []"
| "join_quoted (Suc n) (c # s) =
     (let t = dropWhile is_space s
      in if c = CHR 0x22 \<and> t \<noteq> s \<and> t \<noteq> [] \<and> hd t = CHR 0x22 then join_quoted n (tl t) else c # join_quoted n s)"

definition strip_quotes :: "string \<Rightarrow> string" where
  "strip_quotes s =
     (let a = (case s of c # r \<Rightarrow> if c = CHR 0x22 then r else s | [] \<Rightarrow> [])
      in if a \<noteq> [] \<and> last a = CHR 0x22 then butlast a else a)"

definition txt_flat :: "string \<Rightarrow> string" where
  "txt_flat r = js_trim (strip_quotes (join_quoted (length r) r))"

definition txt_matches :: "string list \<Rightarrow> string \<Rightarrow> bool" where
  "txt_matches records token \<longleftrightarrow> token \<noteq> [] \<and> list_ex (\<lambda>r. txt_flat r = token) records"

datatype route_how = Cname | CnameZone | Flattened | CnameElsewhere | AddressElsewhere | Unresolved

definition route_ok :: "route_how \<Rightarrow> bool" where
  "route_ok h \<longleftrightarrow> h \<in> {Cname, CnameZone, Flattened}"

fun cname_how :: "dom_cfg \<Rightarrow> string \<Rightarrow> string list \<Rightarrow> route_how option" where
  "cname_how C want [] = None"
| "cname_how C want (c # cs) =
     (let n = drop_dots (to_lower c)
      in if n = want then Some Cname else if list_ex (at_or_under n) (dc_appDomains C) then Some CnameZone else cname_how C want cs)"

definition routing_matches :: "dom_cfg \<Rightarrow> string list \<Rightarrow> string list \<Rightarrow> string \<Rightarrow> string list \<Rightarrow> route_how" where
  "routing_matches C cnames addrs target edge =
     (case cname_how C (drop_dots (to_lower target)) cnames of
        Some h \<Rightarrow> h
      | None \<Rightarrow>
          if list_ex (\<lambda>a. to_lower a \<in> set (map to_lower edge)) addrs then Flattened
          else if cnames \<noteq> [] then CnameElsewhere else if addrs \<noteq> [] then AddressElsewhere else Unresolved)"

definition CA_ISSUERS :: "string list" where "CA_ISSUERS = [''sectigo.com'', ''letsencrypt.org'', ''pki.goog'']"

text \<open>The value of an \<open>issue\<close> or \<open>issuewild\<close> record, \<open>None\<close> for any other text.\<close>

definition caa_value :: "string \<Rightarrow> string option" where
  "caa_value r =
     (let s = dropWhile is_space r; d = takeWhile is_digit s; s1 = dropWhile is_digit s; s2 = dropWhile is_space s1;
          tag = (\<lambda>t. case strip_prefix t (to_lower s2) of
              Some u \<Rightarrow> (let w = drop (length t) s2 in if w \<noteq> [] \<and> is_space (hd w) then Some (dropWhile is_space w) else None)
            | None \<Rightarrow> None);
          body = (case tag ''issue'' of Some w \<Rightarrow> Some w | None \<Rightarrow> tag ''issuewild'')
      in if d = [] \<or> s2 = s1 then None
         else case body of
           None \<Rightarrow> None
         | Some w \<Rightarrow>
             (let x = (case w of c # t \<Rightarrow> if c = CHR 0x22 then t else w | [] \<Rightarrow> []);
                  v = takeWhile (\<lambda>c. c \<noteq> CHR 0x22) x; rest = dropWhile (\<lambda>c. c \<noteq> CHR 0x22) x;
                  tail = (case rest of c # t \<Rightarrow> t | [] \<Rightarrow> [])
              in if list_all is_space tail then Some v else None))"

definition caa_issuer :: "string \<Rightarrow> string option" where
  "caa_issuer r =
     (case caa_value r of
        None \<Rightarrow> None
      | Some v \<Rightarrow> if js_trim v = [] then None
          else Some (js_trim (takeWhile (\<lambda>c. c \<noteq> CHR '';'') (to_lower (js_trim v)))))"

definition caa_blocks :: "string list \<Rightarrow> string list option" where
  "caa_blocks records =
     (let issuers = List.map_filter caa_issuer records
      in if issuers = [] \<or> list_ex (\<lambda>i. list_ex (at_or_under i) CA_ISSUERS) issuers then None else Some issuers)"

record dns_verdict =
  vd_ok :: bool
  vd_how :: route_how
  vd_caa :: "string list option"
  vd_noToken :: bool

definition evaluate :: "dom_cfg \<Rightarrow> string list \<Rightarrow> string list \<Rightarrow> string list \<Rightarrow> string list \<Rightarrow> string \<Rightarrow> string \<Rightarrow> string list \<Rightarrow> dns_verdict" where
  "evaluate C txt cnames addrs caa token target edge =
     (let own = txt_matches txt token; how = routing_matches C cnames addrs target edge
      in \<lparr>vd_ok = (own \<and> route_ok how), vd_how = how, vd_caa = caa_blocks caa, vd_noToken = (\<not> own)\<rparr>)"

section \<open>One attached name\<close>

datatype dom_status = PendingDns | Verified | Active | Failed

record cert_report =
  cr_ok :: bool
  cr_ca :: "string option"
  cr_error :: "string option"
  cr_at :: int

record dom_rec =
  dr_host :: string
  dr_dep :: string
  dr_token :: string
  dr_status :: dom_status
  dr_created :: int
  dr_verified :: "int option"
  dr_checked :: "int option"
  dr_strikes :: nat
  dr_error :: "dns_verdict option"
  dr_caa :: "string list option"
  dr_cert :: "cert_report option"
  dr_missing :: "int option"

definition dom_live :: "dom_rec \<Rightarrow> bool" where
  "dom_live r \<longleftrightarrow> dr_status r = Active \<or> dr_status r = Verified"

definition DEMOTE_STRIKES :: nat where "DEMOTE_STRIKES = 5"
definition FAIL_STRIKES :: nat where "FAIL_STRIKES = 24"

text \<open>A check that could not judge, because resolvers failed, is \<open>None\<close>.\<close>

definition apply_verdict :: "int \<Rightarrow> dns_verdict option \<Rightarrow> dom_rec \<Rightarrow> dom_rec" where
  "apply_verdict now v r0 =
     (let r = r0\<lparr>dr_checked := Some now\<rparr>
      in case v of
           None \<Rightarrow> r
         | Some d \<Rightarrow>
             (let r1 = r\<lparr>dr_caa := vd_caa d\<rparr>
              in if vd_ok d
                 then (let r2 = r1\<lparr>dr_strikes := 0, dr_error := None\<rparr>
                       in if dr_status r = Active then r2
                          else r2\<lparr>dr_status := Verified, dr_verified := (case dr_verified r of Some t \<Rightarrow> Some t | None \<Rightarrow> Some now)\<rparr>)
                 else (let r2 = r1\<lparr>dr_strikes := dr_strikes r + 1, dr_error := Some d\<rparr>
                       in if dom_live r \<and> DEMOTE_STRIKES \<le> dr_strikes r2
                          then r2\<lparr>dr_status := PendingDns, dr_verified := None, dr_cert := None\<rparr>
                          else if \<not> dom_live r \<and> dr_status r \<noteq> Failed \<and> FAIL_STRIKES \<le> dr_strikes r2 then r2\<lparr>dr_status := Failed\<rparr>
                          else r2)))"

definition due_in :: "int \<Rightarrow> dom_rec \<Rightarrow> int" where
  "due_in now r =
     (case dr_status r of
        PendingDns \<Rightarrow> if now - dr_created r < 900000 then 30000 else 300000
      | Failed \<Rightarrow> 3600000
      | _ \<Rightarrow> 900000)"

definition is_due :: "int \<Rightarrow> dom_rec \<Rightarrow> bool" where
  "is_due now r \<longleftrightarrow> due_in now r \<le> now - (case dr_checked r of Some t \<Rightarrow> t | None \<Rightarrow> 0)"

section \<open>Accepted hostnames are canonical\<close>

lemma labels_error_None: "labels_error ls = None \<longleftrightarrow> list_all (\<lambda>l. label_error l = None) ls"
  by (induction ls) (auto split: option.splits)

lemma label_ok:
  assumes "label_error l = None"
  shows "l \<noteq> [] \<and> length l \<le> 63 \<and> list_all label_char_ok l \<and> hd l \<noteq> CHR ''-'' \<and> last l \<noteq> CHR ''-''"
  using assms by (auto simp: label_error_def MAX_LABEL_def split: if_splits)

lemma plain_chars:
  assumes "label_char_ok c \<or> c = CHR ''.''"
  shows "lower_char c = c \<and> \<not> is_space c \<and> c \<noteq> CHR ''/'' \<and> c \<noteq> CHR '':'' \<and> c \<noteq> CHR ''@'' \<and> c \<noteq> CHR ''*'' \<and> c \<noteq> CHR ''_''"
proof -
  have "list_all (\<lambda>c. lower_char c = c \<and> \<not> is_space c \<and> c \<noteq> CHR ''/'' \<and> c \<noteq> CHR '':'' \<and> c \<noteq> CHR ''@'' \<and> c \<noteq> CHR ''*'' \<and> c \<noteq> CHR ''_'')
     ''abcdefghijklmnopqrstuvwxyz0123456789-.''" by code_simp
  then show ?thesis using assms unfolding list_all_iff label_char_ok_def by auto
qed

lemma split_on_chars: "c \<in> set s \<Longrightarrow> c = d \<or> (\<exists>l \<in> set (split_on d s). c \<in> set l)"
proof (induction s)
  case (Cons x xs)
  then show ?case by (cases "split_on d xs") auto
qed simp

lemma split_on_nonempty [simp]: "split_on d s \<noteq> []"
  by (cases s) (auto split: list.splits)

lemma split_on_last: "s \<noteq> [] \<Longrightarrow> last s = d \<Longrightarrow> [] \<in> set (tl (split_on d s))"
proof (induction s)
  case (Cons x xs)
  show ?case
  proof (cases "xs = []")
    case True
    with Cons.prems show ?thesis by simp
  next
    case False
    with Cons have "[] \<in> set (tl (split_on d xs))" by auto
    then show ?thesis by (cases "split_on d xs") auto
  qed
qed simp

lemma map_id_on: "list_all (\<lambda>c. f c = c) s \<Longrightarrow> map f s = s"
  by (induction s) auto

lemma dropWhile_none: "list_all (\<lambda>c. \<not> P c) s \<Longrightarrow> dropWhile P s = s"
  by (cases s) auto

lemma cut_path_none: "CHR ''/'' \<notin> set s \<Longrightarrow> cut_path s = s"
  by (induction s) auto

lemma drop_dots_none: "s = [] \<or> last s \<noteq> CHR ''.'' \<Longrightarrow> drop_dots s = s"
  by (cases s rule: rev_cases) (auto simp: drop_dots_def)

lemma strip_http_none: "CHR '':'' \<notin> set s \<Longrightarrow> strip_http s = s"
  by (auto simp: strip_http_def strip_prefix_def prefix_def split: option.splits)

lemma canonical_prefix:
  assumes "labels_error (split_on (CHR ''.'') h) = None"
  shows "drop_dots (cut_path (strip_http (to_lower (js_trim h)))) = h"
    and "CHR ''@'' \<notin> set h \<and> CHR '':'' \<notin> set h \<and> CHR ''*'' \<notin> set h \<and> CHR ''_'' \<notin> set h"
proof -
  have "list_all (\<lambda>c. label_char_ok c \<or> c = CHR ''.'') h"
    using assms label_ok split_on_chars [of _ h "CHR ''.''"] unfolding labels_error_None list_all_iff by blast
  then have c: "list_all (\<lambda>c. lower_char c = c) h" "list_all (\<lambda>c. \<not> is_space c) h" "CHR ''/'' \<notin> set h"
    and n: "CHR ''@'' \<notin> set h \<and> CHR '':'' \<notin> set h \<and> CHR ''*'' \<notin> set h \<and> CHR ''_'' \<notin> set h"
    using plain_chars unfolding list_all_iff by blast+
  have "list_all (\<lambda>c. \<not> is_space c) (rev h)" using c(2) by (simp add: list_all_iff)
  then have "js_trim h = h" using c(2) by (simp add: js_trim_def dropWhile_none)
  moreover have "h = [] \<or> last h \<noteq> CHR ''.''"
    using split_on_last [of h "CHR ''.''"] list.set_sel(2) [OF split_on_nonempty] assms label_ok unfolding labels_error_None list_all_iff by blast
  ultimately show "drop_dots (cut_path (strip_http (to_lower (js_trim h)))) = h"
    using c n by (simp add: to_lower_def map_id_on strip_http_none cut_path_none drop_dots_none)
  show "CHR ''@'' \<notin> set h \<and> CHR '':'' \<notin> set h \<and> CHR ''*'' \<notin> set h \<and> CHR ''_'' \<notin> set h" by (rule n)
qed

lemma normalized:
  assumes "normalize_hostname ascii raw = Inr h"
  shows "h \<noteq> [] \<and> length h \<le> 253 \<and> \<not> is_ip_literal h \<and> 2 \<le> length (split_on (CHR ''.'') h)
    \<and> labels_error (split_on (CHR ''.'') h) = None \<and> (\<exists>x. h = ascii x)"
  using assms by (auto simp: normalize_hostname_def Let_def MAX_HOSTNAME_def not_less split: if_splits option.splits)

lemma normalize_again:
  assumes "normalize_hostname ascii raw = Inr h" "\<forall>x. ascii (ascii x) = ascii x"
  shows "normalize_hostname ascii h = Inr h"
proof -
  from normalized [OF assms(1)] assms(2) have a: "ascii h = h" by auto
  show ?thesis
    using normalized [OF assms(1)] canonical_prefix [of h] a
    unfolding normalize_hostname_def Let_def by (simp add: MAX_HOSTNAME_def)
qed

text \<open>
  A hostname that is accepted is in canonical form: checking it again gives itself, it has at least two
  labels of 1 to 63 lower-case letters, digits and inner hyphens, at most 253 characters, is no address and
  lies in no reserved zone; so two spellings of a name never make two records.
\<close>

theorem accepted_hostnames_are_canonical:
  assumes "\<forall>x. ascii (ascii x) = ascii x" and "check_hostname C ascii raw = Inr h"
  shows "check_hostname C ascii h = Inr h \<and> length h \<le> 253 \<and> \<not> is_ip_literal h \<and> 2 \<le> length (split_on (CHR ''.'') h)
    \<and> list_all (\<lambda>l. l \<noteq> [] \<and> length l \<le> 63 \<and> list_all label_char_ok l \<and> hd l \<noteq> CHR ''-'' \<and> last l \<noteq> CHR ''-'') (split_on (CHR ''.'') h)
    \<and> (\<forall>z \<in> set (dc_reserved C) \<union> set RESERVED_SUFFIXES. \<not> at_or_under h z)"
proof -
  from assms(2) have n: "normalize_hostname ascii raw = Inr h" and r: "\<not> is_reserved_hostname C h"
    by (auto simp: check_hostname_def split: sum.splits if_splits)
  from normalized [OF n] have f: "h \<noteq> []" "length h \<le> 253" "\<not> is_ip_literal h" "2 \<le> length (split_on (CHR ''.'') h)"
    "labels_error (split_on (CHR ''.'') h) = None" by auto
  have "list_all (\<lambda>l. l \<noteq> [] \<and> length l \<le> 63 \<and> list_all label_char_ok l \<and> hd l \<noteq> CHR ''-'' \<and> last l \<noteq> CHR ''-'') (split_on (CHR ''.'') h)"
    using f(5) label_ok unfolding labels_error_None list_all_iff by blast
  moreover have "drop_dots (to_lower h) = h"
  proof -
    have "list_all (\<lambda>c. label_char_ok c \<or> c = CHR ''.'') h"
      using f(5) label_ok split_on_chars [of _ h "CHR ''.''"] unfolding labels_error_None list_all_iff by blast
    then have "to_lower h = h" using plain_chars unfolding list_all_iff to_lower_def by (intro map_id_on) (auto simp: list_all_iff)
    moreover have "last h \<noteq> CHR ''.''"
      using split_on_last [OF f(1), of "CHR ''.''"] list.set_sel(2) [OF split_on_nonempty] f(5) label_ok unfolding labels_error_None list_all_iff by blast
    ultimately show ?thesis by (simp add: drop_dots_none)
  qed
  with r have "\<forall>z \<in> set (dc_reserved C) \<union> set RESERVED_SUFFIXES. \<not> at_or_under h z"
    by (auto simp: is_reserved_hostname_def list_ex_iff)
  moreover have "check_hostname C ascii h = Inr h"
    using normalize_again [OF n assms(1)] r by (simp add: check_hostname_def)
  ultimately show ?thesis using f by blast
qed

definition demo_dom_cfg :: dom_cfg where
  "demo_dom_cfg = \<lparr>dc_appDomains = [''app.z''], dc_reserved = [''z''], dc_edgePin = [''192.0.2.1''], dc_key = []\<rparr>"

lemma demo_hostname: "check_hostname demo_dom_cfg (\<lambda>x. x) '' https://Shop.Co-op.com./x'' = Inr ''shop.co-op.com''"
  by code_simp

theorem accepted_hostnames_are_canonical_witness:
  "check_hostname demo_dom_cfg (\<lambda>x. x) ''shop.co-op.com'' = Inr ''shop.co-op.com'' \<and> \<not> at_or_under ''shop.co-op.com'' ''z''"
  using accepted_hostnames_are_canonical [OF _ demo_hostname] by (auto simp: demo_dom_cfg_def)

section \<open>When a name is withdrawn\<close>

definition run_checks :: "(int \<times> dns_verdict option) list \<Rightarrow> dom_rec \<Rightarrow> dom_rec" where
  "run_checks vs r = foldl (\<lambda>r (now, v). apply_verdict now v r) r vs"

text \<open>The failures since the last success among checks that could judge.\<close>

definition failing :: "(int \<times> dns_verdict option) list \<Rightarrow> nat" where
  "failing vs = length (takeWhile (\<lambda>ok. \<not> ok) (rev (map vd_ok (List.map_filter snd vs))))"

lemma map_filter_snoc: "List.map_filter f (xs @ [x]) = List.map_filter f xs @ (case f x of Some y \<Rightarrow> [y] | None \<Rightarrow> [])"
  by (induction xs) (auto simp: map_filter_simps split: option.splits)

lemma failing_snoc:
  "failing (vs @ [(now, v)]) = (case v of None \<Rightarrow> failing vs | Some d \<Rightarrow> if vd_ok d then 0 else failing vs + 1)"
  by (simp add: failing_def map_filter_snoc split: option.split)

lemma run_checks_state:
  assumes "dom_live r" "dr_strikes r = 0"
  shows "dr_strikes (run_checks vs r) = failing vs
    \<and> (if failing vs < 5 then dom_live (run_checks vs r)
       else dr_status (run_checks vs r) = (if failing vs < 24 then PendingDns else Failed))"
proof (induction vs rule: rev_induct)
  case Nil
  with assms show ?case by (simp add: run_checks_def failing_def map_filter_simps)
next
  case (snoc x vs)
  obtain now v where x: "x = (now, v)" by (cases x)
  let ?r = "run_checks vs r"
  have e: "run_checks (vs @ [(now, v)]) r = apply_verdict now v ?r" by (simp add: run_checks_def)
  show ?case
  proof (cases v)
    case None
    with snoc show ?thesis unfolding x e failing_snoc by (auto simp: apply_verdict_def dom_live_def split: if_splits)
  next
    case (Some d)
    show ?thesis
    proof (cases "vd_ok d")
      case True
      with Some show ?thesis unfolding x e failing_snoc by (simp add: apply_verdict_def dom_live_def Let_def)
    next
      case False
      note f = Some False snoc.IH
      consider "failing vs < 4" | "failing vs = 4" | "4 < failing vs" "failing vs < 23" | "failing vs = 23" | "23 < failing vs" by linarith
      then show ?thesis
        unfolding x e failing_snoc using f
        by cases (auto simp: apply_verdict_def dom_live_def Let_def DEMOTE_STRIKES_def FAIL_STRIKES_def)
    qed
  qed
qed

text \<open>
  C28: A name that was live with no strikes is routed after any further checks exactly when fewer than five
  of the checks that could judge have failed since the last success; from five on it waits for DNS, from
  twenty-four on it counts as failed, and one success makes it live again. Checks that could not judge
  change nothing.
\<close>

theorem names_are_withdrawn_after_five_failures:
  assumes "dom_live r" and "dr_strikes r = 0"
  shows "(dom_live (run_checks vs r) \<longleftrightarrow> failing vs < 5)
    \<and> (dr_status (run_checks vs r) = PendingDns \<longleftrightarrow> 5 \<le> failing vs \<and> failing vs < 24)
    \<and> (dr_status (run_checks vs r) = Failed \<longleftrightarrow> 24 \<le> failing vs)"
  using run_checks_state [OF assms, of vs] by (auto simp: dom_live_def split: if_splits)

definition demo_dom_rec :: dom_rec where
  "demo_dom_rec = \<lparr>dr_host = ''a.b'', dr_dep = ''0x1'', dr_token = ''t'', dr_status = Active, dr_created = 0, dr_verified = Some 1,
     dr_checked = None, dr_strikes = 0, dr_error = None, dr_caa = None, dr_cert = None, dr_missing = None\<rparr>"

definition demo_fail :: dns_verdict where
  "demo_fail = \<lparr>vd_ok = False, vd_how = Unresolved, vd_caa = None, vd_noToken = True\<rparr>"

theorem names_are_withdrawn_after_five_failures_witness:
  "dr_status (run_checks (replicate 3 (1, Some demo_fail) @ [(2, None)] @ replicate 2 (3, Some demo_fail)) demo_dom_rec) = PendingDns"
proof -
  have "failing (replicate 3 (1, Some demo_fail) @ [(2, None)] @ replicate 2 (3, Some demo_fail)) = 5" by code_simp
  with names_are_withdrawn_after_five_failures [of demo_dom_rec "replicate 3 (1, Some demo_fail) @ [(2, None)] @ replicate 2 (3, Some demo_fail)"]
  show ?thesis by (simp add: demo_dom_rec_def dom_live_def)
qed

end
