(* ===== verification/Domain_Service.thy ===== *)
theory Domain_Service
  imports Custom_Domains Secrets_Store
begin

text \<open>
  Custom domains, the store and its routes (\<open>relay/domains.js\<close>): the lookups behind a check, the sweep and
  the purge, what is routed and what may be certified, the owner's requests and the fetch of the enclave that
  serves the names. DNS answers, the chain reads, the drawn token and the clock are arguments; a check is a
  step of its own, since its answers come later than the request or sweep that asked for them.
\<close>

section \<open>State\<close>

record dom_state =
  dm_by :: "(string \<times> dom_rec) list"
  dm_gate :: gate_state
  dm_add :: buckets
  dm_ip :: buckets
  dm_fetch :: buckets
  dm_map :: buckets
  dm_edge :: "string list \<times> int"
  dm_targets :: "(string \<times> string list \<times> int) list"

definition rows_for :: "string \<Rightarrow> dom_state \<Rightarrow> dom_rec list" where
  "rows_for depId S = sort_key dr_created (filter (\<lambda>r. dr_dep r = depId) (map snd (dm_by S)))"

definition domain_map :: "bool \<Rightarrow> dom_state \<Rightarrow> (string \<times> string) list" where
  "domain_map on S = (if on then map (\<lambda>r. (dr_host r, dr_dep r)) (filter dom_live (map snd (dm_by S))) else [])"

definition domain_deployment :: "bool \<Rightarrow> string \<Rightarrow> dom_state \<Rightarrow> string option" where
  "domain_deployment on hostname S =
     (let h = drop_dots (takeWhile (\<lambda>c. c \<noteq> CHR '':'') (to_lower hostname))
      in if \<not> on then None else case map_of (dm_by S) h of Some r \<Rightarrow> if dom_live r then Some (dr_dep r) else None | None \<Rightarrow> None)"

definition tls_ask_allowed :: "dom_cfg \<Rightarrow> bool \<Rightarrow> string \<Rightarrow> dom_state \<Rightarrow> bool" where
  "tls_ask_allowed C on hostname S =
     (let h = takeWhile (\<lambda>c. c \<noteq> CHR '':'') (drop_dots (to_lower hostname))
      in on \<and> h \<noteq> [] \<and> \<not> is_reserved_hostname C h \<and> (case map_of (dm_by S) h of Some r \<Rightarrow> dom_live r | None \<Rightarrow> False))"

definition cert_names_for :: "string \<Rightarrow> dom_state \<Rightarrow> string list" where
  "cert_names_for depId S = map dr_host (filter dom_live (rows_for (to_lower depId) S))"

section \<open>Lookups\<close>

text \<open>A lookup that every resolver failed is \<open>None\<close>; a name that does not exist has no answers.\<close>

type_synonym doh_answer = "(nat \<times> string) list option"

definition TYPE_A :: nat where "TYPE_A = 1"
definition TYPE_CNAME :: nat where "TYPE_CNAME = 5"
definition TYPE_TXT :: nat where "TYPE_TXT = 16"
definition TYPE_AAAA :: nat where "TYPE_AAAA = 28"
definition TYPE_CAA :: nat where "TYPE_CAA = 257"

definition doh_lookup :: "(nat \<times> (nat \<times> string) list) option list \<Rightarrow> doh_answer" where
  "doh_lookup resolvers = map_option (\<lambda>(status, answers). answers)
     (Option.bind (find (\<lambda>r. case r of Some (status, answers) \<Rightarrow> status = 0 \<or> status = 3 | None \<Rightarrow> False) resolvers) (\<lambda>x. x))"

definition data_of :: "doh_answer \<Rightarrow> nat \<Rightarrow> string list" where
  "data_of a type = map snd (filter (\<lambda>(t, d). t = type) (case a of Some xs \<Rightarrow> xs | None \<Rightarrow> []))"

definition both_families :: "doh_answer \<Rightarrow> doh_answer \<Rightarrow> string list" where
  "both_families a aaaa = data_of a TYPE_A @ data_of aaaa TYPE_AAAA"

definition EDGE_TTL_MS :: int where "EDGE_TTL_MS = 300000"

definition edge_addrs :: "dom_cfg \<Rightarrow> int \<Rightarrow> doh_answer \<Rightarrow> doh_answer \<Rightarrow> dom_state \<Rightarrow> string list \<times> dom_state" where
  "edge_addrs C now a aaaa S =
     (case dm_edge S of (known, at') \<Rightarrow>
        if dc_edgePin C \<noteq> [] then (dc_edgePin C, S)
        else if now - at' < EDGE_TTL_MS \<and> known \<noteq> [] then (known, S)
        else (let addrs = both_families a aaaa in if addrs \<noteq> [] then (addrs, S\<lparr>dm_edge := (addrs, now)\<rparr>) else (known, S)))"

definition target_addrs :: "int \<Rightarrow> string \<Rightarrow> doh_answer \<Rightarrow> doh_answer \<Rightarrow> dom_state \<Rightarrow> string list \<times> dom_state" where
  "target_addrs now target a aaaa S =
     (case map_of (dm_targets S) target of
        hit \<Rightarrow>
          (if (case hit of Some (addrs, at') \<Rightarrow> now - at' < EDGE_TTL_MS \<and> addrs \<noteq> [] | None \<Rightarrow> False) then (fst (the hit), S)
           else (let addrs = both_families a aaaa
                 in if addrs \<noteq> [] then (addrs, S\<lparr>dm_targets := AList.update target (addrs, now) (dm_targets S)\<rparr>)
                    else ((case hit of Some (known, at') \<Rightarrow> known | None \<Rightarrow> []), S))))"

record lookups =
  lk_txt :: doh_answer
  lk_a :: doh_answer
  lk_aaaa :: doh_answer
  lk_caa :: doh_answer
  lk_probe :: "doh_answer \<times> doh_answer"
  lk_target :: "doh_answer \<times> doh_answer"

definition check_record :: "dom_cfg \<Rightarrow> int \<Rightarrow> lookups \<Rightarrow> dom_rec \<Rightarrow> dom_state \<Rightarrow> dns_verdict option \<times> dom_state" where
  "check_record C now lk r S =
     (let target = routing_target C (label_for (dr_dep r));
          (probe, S1) = edge_addrs C now (fst (lk_probe lk)) (snd (lk_probe lk)) S;
          (tgt, S2) = target_addrs now target (fst (lk_target lk)) (snd (lk_target lk)) S1;
          edge = in_order_once (probe @ tgt);
          aaaa = (if data_of (lk_a lk) TYPE_A = [] then lk_aaaa lk else None);
          cnames = data_of (lk_a lk) TYPE_CNAME
      in if lk_txt lk = None \<or> lk_a lk = None then (None, S2)
         else if edge = [] \<and> cnames = [] then (None, S2)
         else (Some (evaluate C (data_of (lk_txt lk) TYPE_TXT) cnames (both_families (lk_a lk) aaaa) (data_of (lk_caa lk) TYPE_CAA)
                       (dr_token r) target edge), S2))"

text \<open>A verdict reaches the record it was asked for, known by its token; one that is gone meanwhile is not in the store.\<close>

definition settle_check :: "dom_cfg \<Rightarrow> int \<Rightarrow> lookups \<Rightarrow> string \<Rightarrow> string \<Rightarrow> dom_state \<Rightarrow> dom_state" where
  "settle_check C now lk host token S =
     (case map_of (dm_by S) host of
        None \<Rightarrow> S
      | Some r \<Rightarrow>
          if dr_token r \<noteq> token then S
          else (case check_record C now lk r S of
            (v, S1) \<Rightarrow> S1\<lparr>dm_by := AList.update host (apply_verdict now v r) (dm_by S1)\<rparr>))"

definition sweep_batch :: "int \<Rightarrow> dom_state \<Rightarrow> (string \<times> string) list" where
  "sweep_batch now S = map (\<lambda>r. (dr_host r, dr_token r)) (take 12 (filter (is_due now) (map snd (dm_by S))))"

definition purge_domains :: "int \<Rightarrow> owned_row list option \<Rightarrow> dom_state \<Rightarrow> dom_state" where
  "purge_domains now rows S =
     (case rows of
        None \<Rightarrow> S
      | Some rs \<Rightarrow>
          if rs = [] then S
          else S\<lparr>dm_by := List.map_filter (\<lambda>(h, r).
                 if dr_dep r \<in> set (map (to_lower \<circ> ow_id) rs) then Some (h, r\<lparr>dr_missing := None\<rparr>)
                 else case dr_missing r of
                   None \<Rightarrow> Some (h, r\<lparr>dr_missing := Some now\<rparr>)
                 | Some t \<Rightarrow> if 604800000 < now - t then None else Some (h, r)) (dm_by S)\<rparr>)"

section \<open>The owner's requests\<close>

definition dom_message :: "string \<Rightarrow> string \<Rightarrow> string \<Rightarrow> int \<Rightarrow> string" where
  "dom_message verb i hostname expiry = ''enclave-domains:'' @ verb @ '':'' @ i @ '':'' @ show_int expiry @ '':'' @ hostname"

definition list_message :: "string \<Rightarrow> int \<Rightarrow> string" where
  "list_message i expiry = ''enclave-domains:list:'' @ i @ '':'' @ show_int expiry"

record dom_env =
  de_now :: int
  de_ip :: string
  de_reads :: "owned_row list option \<times> owned_row list option"
  de_other :: "owned_row list option"
  de_token :: string
  de_owner :: owner_answer
  de_epId :: "string \<Rightarrow> string"

datatype dom_reply = MapLimited | DomMap "(string \<times> string) list" | DomDisabled | DomNotPost | DomLimited | DomBadJson | DomThrows
  | DomNoRoute | DomRefused owner_refusal | DomList "dom_rec list" | BadHostname host_error | NotAttached | Detached string
  | AddLimited | Checking dom_rec | AlreadyAttached dom_rec | AttachedElsewhere string | Unavailable | LimitReached | Attached dom_rec
  | DomFetchLimited | DomBadId | DomBadEndpoint | DomBadTs | DomWrongOperator | DomBadFetchSig | DomNotFound | DomNotHolder
  | DomFetched string "string list"

datatype dom_action = DoAdd | DoList | DoVerify | DoDelete
datatype dom_route = RouteMap | RouteDomFetch | RouteDep string dom_action

definition dom_route_of :: "string \<Rightarrow> dom_route option" where
  "dom_route_of path =
     (if path = ''/v1/domains/map'' then Some RouteMap
      else if path = ''/v1/domains/fetch'' then Some RouteDomFetch
      else case strip_prefix ''/v1/domains/'' path of
        None \<Rightarrow> None
      | Some t \<Rightarrow>
          (let i = to_lower (take 66 t); r = drop 66 t
           in if \<not> (take 2 t = ''0x'' \<and> dep_bytes32 i) then None
              else map_option (RouteDep i) (map_of [([], DoAdd), (''/list'', DoList), (''/verify'', DoVerify), (''/delete'', DoDelete)] r)))"

definition nullish_text :: "json option \<Rightarrow> string" where
  "nullish_text v = (case v of None \<Rightarrow> [] | Some JNull \<Rightarrow> [] | Some x \<Rightarrow> js_text x)"

definition dom_gate ::
  "(string \<Rightarrow> string) \<Rightarrow> signer_of \<Rightarrow> bool \<Rightarrow> dom_env \<Rightarrow> string \<Rightarrow> json \<Rightarrow> (int \<Rightarrow> string) \<Rightarrow> dom_state \<Rightarrow> (owner_refusal + string) \<times> dom_state" where
  "dom_gate sha recover once E i b message S =
     (case owner_gate sha recover once (de_now E) (de_reads E) i b message (dm_gate S) of (r, G) \<Rightarrow> (r, S\<lparr>dm_gate := G\<rparr>))"

definition add_limited :: "dom_env \<Rightarrow> string \<Rightarrow> dom_state \<Rightarrow> bool \<times> dom_state" where
  "add_limited E a S =
     (case take_token (of_nat (2 * PER_DEPLOYMENT)) (10 / 600) (de_now E) a (dm_add S) of (ok, bs) \<Rightarrow> (\<not> ok, S\<lparr>dm_add := bs\<rparr>))"

definition delete_domain :: "string \<Rightarrow> string \<Rightarrow> dom_state \<Rightarrow> dom_reply \<times> dom_state" where
  "delete_domain i hostname S =
     (case map_of (dm_by S) hostname of
        Some r \<Rightarrow> if dr_dep r = i then (Detached hostname, S\<lparr>dm_by := AList.delete hostname (dm_by S)\<rparr>) else (NotAttached, S)
      | None \<Rightarrow> (NotAttached, S))"

text \<open>A verify call: a name given up is taken up again before the check it asks for.\<close>

definition verify_domain :: "string \<Rightarrow> string \<Rightarrow> dom_state \<Rightarrow> dom_reply \<times> dom_state" where
  "verify_domain i hostname S =
     (case map_of (dm_by S) hostname of
        None \<Rightarrow> (NotAttached, S)
      | Some r \<Rightarrow>
          if dr_dep r \<noteq> i then (NotAttached, S)
          else (let r1 = (if dr_status r = Failed then r\<lparr>dr_status := PendingDns, dr_strikes := 0\<rparr> else r)
                in (Checking r1, S\<lparr>dm_by := AList.update hostname r1 (dm_by S)\<rparr>)))"

definition new_record :: "dom_env \<Rightarrow> string \<Rightarrow> string \<Rightarrow> dom_rec" where
  "new_record E i hostname =
     \<lparr>dr_host = hostname, dr_dep = i, dr_token = de_token E, dr_status = PendingDns, dr_created = de_now E, dr_verified = None,
      dr_checked = None, dr_strikes = 0, dr_error = None, dr_caa = None, dr_cert = None, dr_missing = None\<rparr>"

definition attach_domain :: "dom_env \<Rightarrow> string \<Rightarrow> string \<Rightarrow> string \<Rightarrow> dom_state \<Rightarrow> dom_reply \<times> dom_state" where
  "attach_domain E a i hostname S =
     (case map_of (dm_by S) hostname of
        Some r \<Rightarrow>
          (if dr_dep r = i then (AlreadyAttached r, S)
           else (case row_of (de_other E) (dr_dep r) of
                   Some d \<Rightarrow> if to_lower (ow_owner d) = a then (AttachedElsewhere (take 10 (dr_dep r)), S) else (Unavailable, S)
                 | None \<Rightarrow> (Unavailable, S)))
      | None \<Rightarrow>
          if PER_DEPLOYMENT \<le> length (rows_for i S) then (LimitReached, S)
          else (Attached (new_record E i hostname), S\<lparr>dm_by := dm_by S @ [(hostname, new_record E i hostname)]\<rparr>))"

definition owner_request ::
  "dom_cfg \<Rightarrow> (string \<Rightarrow> string) \<Rightarrow> (string \<Rightarrow> string) \<Rightarrow> signer_of \<Rightarrow> dom_env \<Rightarrow> string \<Rightarrow> dom_action \<Rightarrow> json \<Rightarrow> dom_state \<Rightarrow> dom_reply \<times> dom_state" where
  "owner_request C ascii sha recover E i action b S =
     (if action = DoList
      then (case dom_gate sha recover False E i b (list_message i) S of
              (Inl e, S1) \<Rightarrow> (DomRefused e, S1)
            | (Inr a, S1) \<Rightarrow> (DomList (rows_for i S1), S1))
      else case check_hostname C ascii (nullish_text (json_get ''hostname'' b)) of
        Inl e \<Rightarrow> (BadHostname e, S)
      | Inr hostname \<Rightarrow>
          (case dom_gate sha recover True E i b
                  (dom_message (if action = DoDelete then ''del'' else if action = DoVerify then ''verify'' else ''add'') i hostname) S of
             (Inl e, S1) \<Rightarrow> (DomRefused e, S1)
           | (Inr a, S1) \<Rightarrow>
               if action = DoDelete then delete_domain i hostname S1
               else (case add_limited E a S1 of
                 (tooMany, S2) \<Rightarrow>
                   if tooMany then (AddLimited, S2)
                   else if action = DoVerify then verify_domain i hostname S2
                   else attach_domain E a i hostname S2)))"

section \<open>The fetch of the enclave\<close>

definition report_cert :: "int \<Rightarrow> json \<Rightarrow> cert_report" where
  "report_cert now item =
     (let ok = (json_get ''ok'' item = Some (JBool True)); orNone = (\<lambda>n t. let x = take n (text_or_empty t) in if x = [] then None else Some x)
      in \<lparr>cr_ok = ok, cr_ca = orNone 64 (json_get ''ca'' item),
          cr_error = (if ok then None else case orNone 300 (json_get ''error'' item) of Some x \<Rightarrow> Some x | None \<Rightarrow> Some ''issuance failed''),
          cr_at = now\<rparr>)"

definition apply_report :: "int \<Rightarrow> json \<Rightarrow> dom_rec \<Rightarrow> dom_rec" where
  "apply_report now item r =
     (let c = report_cert now item; r1 = r\<lparr>dr_cert := Some c\<rparr>
      in if cr_ok c \<and> dr_status r = Verified then r1\<lparr>dr_status := Active\<rparr>
         else if \<not> cr_ok c \<and> dr_status r = Active then r1\<lparr>dr_status := Verified\<rparr> else r1)"

definition report_item :: "int \<Rightarrow> string \<Rightarrow> json \<Rightarrow> dom_state \<Rightarrow> dom_state" where
  "report_item now i item S =
     (let host = drop_dots (to_lower (text_or_empty (json_get ''hostname'' item)))
      in case map_of (dm_by S) host of
           Some r \<Rightarrow> if dr_dep r = i then S\<lparr>dm_by := AList.update host (apply_report now item r) (dm_by S)\<rparr> else S
         | None \<Rightarrow> S)"

definition take_report :: "int \<Rightarrow> string \<Rightarrow> json \<Rightarrow> dom_state \<Rightarrow> dom_state" where
  "take_report now i b S =
     (case json_get ''report'' b of
        Some (JArr items) \<Rightarrow> foldl (\<lambda>S item. report_item now i item S) S (take PER_DEPLOYMENT items)
      | _ \<Rightarrow> S)"

text \<open>The fleet's hash, or the operator's signature; a signature by somebody else is refused at once.\<close>

definition dom_fetch_auth ::
  "dom_cfg \<Rightarrow> (string \<Rightarrow> string) \<Rightarrow> signer_of \<Rightarrow> dom_env \<Rightarrow> string \<Rightarrow> string \<Rightarrow> int \<Rightarrow> json \<Rightarrow> dom_reply option" where
  "dom_fetch_auth C mac recover E i endpoint ts b =
     (let sig = text_or_empty (json_get ''sig'' b);
          fleet = (hex_str 64 64 (to_lower (dc_key C)) \<and> hex_str 64 64 sig \<and> mac (fetch_tuple i endpoint ts) = sig);
          owner = (case de_owner E of OwnerIs a \<Rightarrow> if a = [] then None else Some (to_lower a) | _ \<Rightarrow> None);
          signer = (if owner = None then None
                    else recover_op recover (''enclave-domains-fetch:'' @ fetch_tuple i endpoint ts) (json_get ''opSig'' b))
      in if signer \<noteq> None \<and> signer \<noteq> owner then Some DomWrongOperator
         else if \<not> fleet \<and> signer = None then Some DomBadFetchSig else None)"

definition domains_fetch ::
  "dom_cfg \<Rightarrow> (string \<Rightarrow> string) \<Rightarrow> signer_of \<Rightarrow> dom_env \<Rightarrow> json \<Rightarrow> dom_state \<Rightarrow> dom_reply \<times> dom_state" where
  "domains_fetch C mac recover E b S =
     (let i = to_lower (text_or_empty (json_get ''id'' b)); endpoint = strip_slashes (text_or_empty (json_get ''endpoint'' b))
      in if \<not> dep_bytes32 i then (DomBadId, S)
         else if \<not> web_origin endpoint then (DomBadEndpoint, S)
         else case json_int_at ''ts'' b of
           None \<Rightarrow> (DomBadTs, S)
         | Some ts \<Rightarrow>
             if 300000 < \<bar>de_now E - ts * 1000\<bar> then (DomBadTs, S)
             else (case dom_fetch_auth C mac recover E i endpoint ts b of
               Some r \<Rightarrow> (r, S)
             | None \<Rightarrow>
                 (let holds = row_held_by (de_now E) (de_epId E endpoint); d = row_or_fresh holds i (de_reads E)
                  in if d = None then (DomNotFound, S)
                     else if \<not> holds d then (DomNotHolder, S)
                     else (let S1 = take_report (de_now E) i b S in (DomFetched i (cert_names_for i S1), S1)))))"

definition handle_domains ::
  "dom_cfg \<Rightarrow> (string \<Rightarrow> string) \<Rightarrow> (string \<Rightarrow> string) \<Rightarrow> (string \<Rightarrow> string) \<Rightarrow> signer_of \<Rightarrow> bool \<Rightarrow> string
   \<Rightarrow> dom_env \<Rightarrow> string \<Rightarrow> string \<Rightarrow> dom_state \<Rightarrow> dom_reply \<times> dom_state" where
  "handle_domains C ascii sha mac recover on method E path raw S =
     (if dom_route_of path = Some RouteMap \<and> method = ''GET''
      then (case take_token 120 4 (de_now E) (de_ip E) (dm_map S) of
              (ok, bs) \<Rightarrow> (if ok then DomMap (domain_map on S) else MapLimited, S\<lparr>dm_map := bs\<rparr>))
      else if \<not> on then (DomDisabled, S)
      else if method \<noteq> ''POST'' then (DomNotPost, S)
      else case take_token 60 1 (de_now E) (de_ip E) (dm_ip S) of
        (ok, bs) \<Rightarrow>
          (let S1 = S\<lparr>dm_ip := bs\<rparr>
           in if \<not> ok then (DomLimited, S1)
              else case json_parse (if raw = [] then ''{}'' else raw) of
                None \<Rightarrow> (DomBadJson, S1)
              | Some b \<Rightarrow>
                  (case dom_route_of path of
                     Some RouteDomFetch \<Rightarrow>
                       (case take_token 120 10 (de_now E) (de_ip E) (dm_fetch S1) of
                          (ok', bs') \<Rightarrow>
                            (let S2 = S1\<lparr>dm_fetch := bs'\<rparr>
                             in if \<not> ok' then (DomFetchLimited, S2) else if b = JNull then (DomThrows, S2) else domains_fetch C mac recover E b S2))
                   | Some (RouteDep i action) \<Rightarrow> if b = JNull then (DomThrows, S1) else owner_request C ascii sha recover E i action b S1
                   | _ \<Rightarrow> (DomNoRoute, S1))))"

end
