(* ===== verification/Domain_Safety.thy ===== *)
theory Domain_Safety
  imports Domain_Service
begin

text \<open>
  What the service of custom domains promises in every state it can reach: a routed name was proven and is
  one of ours to route, attachments belong to the deployment whose owner signed for them, and an enclave
  learns of names only for the deployment whose lease it holds.
\<close>

section \<open>The store's invariant\<close>

definition attached_count :: "string \<Rightarrow> (string \<times> dom_rec) list \<Rightarrow> nat" where
  "attached_count i T = length (filter (\<lambda>(h, r). dr_dep r = i) T)"

definition rec_ok :: "dom_cfg \<Rightarrow> (string \<Rightarrow> string) \<Rightarrow> (string \<times> string) set \<Rightarrow> string \<times> dom_rec \<Rightarrow> bool" where
  "rec_ok C ascii P x \<longleftrightarrow> (case x of (h, r) \<Rightarrow> dr_host r = h \<and> (\<exists>raw. check_hostname C ascii raw = Inr h)
     \<and> (dom_live r \<longrightarrow> dr_strikes r < 5 \<and> dr_verified r \<noteq> None \<and> (h, dr_token r) \<in> P))"

definition dom_ok :: "dom_cfg \<Rightarrow> (string \<Rightarrow> string) \<Rightarrow> (string \<times> string) set \<Rightarrow> (string \<times> dom_rec) list \<Rightarrow> bool" where
  "dom_ok C ascii P T \<longleftrightarrow> distinct (map fst T) \<and> list_all (rec_ok C ascii P) T \<and> (\<forall>i. attached_count i T \<le> PER_DEPLOYMENT)"

lemma rec_ok_mono: "rec_ok C ascii P x \<Longrightarrow> P \<subseteq> Q \<Longrightarrow> rec_ok C ascii Q x"
  by (auto simp: rec_ok_def split: prod.splits)

lemma dom_ok_mono: "dom_ok C ascii P T \<Longrightarrow> P \<subseteq> Q \<Longrightarrow> dom_ok C ascii Q T"
  unfolding dom_ok_def list_all_iff using rec_ok_mono by blast

lemma count_update:
  "map_of T h = Some r \<Longrightarrow> dr_dep r' = dr_dep r \<Longrightarrow> attached_count i (AList.update h r' T) = attached_count i T"
  by (induction T) (auto simp: attached_count_def)

lemma dom_ok_lookup: "dom_ok C ascii P T \<Longrightarrow> map_of T h = Some r \<Longrightarrow> rec_ok C ascii P (h, r)"
  using map_of_member [of T h r "rec_ok C ascii P"] by (simp add: dom_ok_def)

lemma dom_ok_update:
  assumes "dom_ok C ascii P T" "map_of T h = Some r" "dr_dep r' = dr_dep r" "rec_ok C ascii P (h, r')"
  shows "dom_ok C ascii P (AList.update h r' T)"
  using assms unfolding dom_ok_def
  by (auto simp: count_update [OF assms(2,3)] intro: distinct_update list_all_alist_update)

lemma count_filter: "attached_count i (filter Q T) \<le> attached_count i T"
  by (induction T) (auto simp: attached_count_def)

lemma dom_ok_delete: "dom_ok C ascii P T \<Longrightarrow> dom_ok C ascii P (AList.delete h T)"
  unfolding dom_ok_def
  by (auto simp: AList.delete_eq intro: distinct_map_fst_filter le_trans [OF count_filter] simp: list_all_iff)

lemma dom_ok_append:
  assumes "dom_ok C ascii P T" "map_of T h = None" "attached_count (dr_dep r) T < PER_DEPLOYMENT" "rec_ok C ascii P (h, r)"
  shows "dom_ok C ascii P (T @ [(h, r)])"
  using assms unfolding dom_ok_def by (auto simp: map_of_eq_None_iff attached_count_def)

lemma purge_count:
  assumes "\<And>h r h' r'. f (h, r) = Some (h', r') \<Longrightarrow> dr_dep r' = dr_dep r"
  shows "attached_count i (List.map_filter f T) \<le> attached_count i T"
proof (induction T)
  case (Cons x T)
  obtain h r where x: "x = (h, r)" by (cases x)
  with Cons assms [of h r] show ?case
    by (cases "f x") (auto simp: map_filter_simps attached_count_def split: prod.splits)
qed (simp add: map_filter_simps attached_count_def)

lemma dom_ok_purge:
  assumes "dom_ok C ascii P (dm_by S)"
  shows "dom_ok C ascii P (dm_by (purge_domains now rows S))"
proof (cases "rows = None \<or> rows = Some []")
  case True
  with assms show ?thesis by (auto simp: purge_domains_def)
next
  case False
  then obtain rs where rs: "rows = Some rs" "rs \<noteq> []" by auto
  let ?f = "\<lambda>(h, r). if dr_dep r \<in> set (map (to_lower \<circ> ow_id) rs) then Some (h, r\<lparr>dr_missing := None\<rparr>)
                 else case dr_missing r of
                   None \<Rightarrow> Some (h, r\<lparr>dr_missing := Some now\<rparr>)
                 | Some t \<Rightarrow> if 604800000 < now - t then None else Some (h, r)"
  have d: "distinct (map fst (List.map_filter ?f (dm_by S)))"
    using assms by (intro map_filter_keys) (auto simp: dom_ok_def split: if_splits option.splits)
  have "rec_ok C ascii P (h, r')" if "rec_ok C ascii P (h, r)" "dr_host r' = dr_host r" "dr_status r' = dr_status r" "dr_strikes r' = dr_strikes r"
    "dr_verified r' = dr_verified r" "dr_token r' = dr_token r" for h r r'
    using that by (simp add: rec_ok_def dom_live_def)
  then have "list_all (rec_ok C ascii P) (List.map_filter ?f (dm_by S))"
    using assms by (fastforce simp: dom_ok_def list_all_iff set_map_filter split: if_splits option.splits)
  moreover have "attached_count i (List.map_filter ?f (dm_by S)) \<le> PER_DEPLOYMENT" for i
    using assms by (intro le_trans [OF purge_count]) (auto simp: dom_ok_def split: if_splits option.splits)
  ultimately show ?thesis using d rs by (simp add: purge_domains_def dom_ok_def)
qed

section \<open>Checks\<close>

lemma edge_keeps [simp]: "dm_by (snd (edge_addrs C now a aaaa S)) = dm_by S"
  by (simp add: edge_addrs_def Let_def split: prod.split)

lemma target_keeps [simp]: "dm_by (snd (target_addrs now target a aaaa S)) = dm_by S"
  by (simp add: target_addrs_def Let_def)

lemma check_keeps: "dm_by (snd (check_record C now lk r S)) = dm_by S"
proof -
  obtain p S1 where e: "edge_addrs C now (fst (lk_probe lk)) (snd (lk_probe lk)) S = (p, S1)" by fastforce
  obtain t S2 where g: "target_addrs now (routing_target C (label_for (dr_dep r))) (fst (lk_target lk)) (snd (lk_target lk)) S1 = (t, S2)" by fastforce
  have "dm_by S1 = dm_by S" using edge_keeps [of C now _ _ S] e by (metis snd_conv)
  moreover have "dm_by S2 = dm_by S1" using target_keeps [of now _ _ _ S1] g by (metis snd_conv)
  ultimately show ?thesis by (simp add: check_record_def Let_def e g)
qed

text \<open>A check that proves a name: it read the record's own token, and a route to this edge or its zone.\<close>

definition proves :: "dom_cfg \<Rightarrow> int \<Rightarrow> lookups \<Rightarrow> string \<Rightarrow> string \<Rightarrow> dom_state \<Rightarrow> bool" where
  "proves C now lk host token S \<longleftrightarrow> (\<exists>r d. map_of (dm_by S) host = Some r \<and> dr_token r = token
     \<and> fst (check_record C now lk r S) = Some d \<and> vd_ok d)"

lemma proves_means:
  assumes "proves C now lk host token S"
  shows "\<exists>r. map_of (dm_by S) host = Some r \<and> txt_matches (data_of (lk_txt lk) TYPE_TXT) (dr_token r) \<and> dr_token r = token
    \<and> (\<exists>addrs edge. route_ok (routing_matches C (data_of (lk_a lk) TYPE_CNAME) addrs (routing_target C (label_for (dr_dep r))) edge))"
proof -
  from assms obtain r d where r: "map_of (dm_by S) host = Some r" "dr_token r = token"
    and d: "fst (check_record C now lk r S) = Some d" "vd_ok d" by (auto simp: proves_def)
  obtain p S1 where e: "edge_addrs C now (fst (lk_probe lk)) (snd (lk_probe lk)) S = (p, S1)" by fastforce
  obtain t S2 where g: "target_addrs now (routing_target C (label_for (dr_dep r))) (fst (lk_target lk)) (snd (lk_target lk)) S1 = (t, S2)" by fastforce
  from d(1) have "\<exists>addrs caa edge. d = evaluate C (data_of (lk_txt lk) TYPE_TXT) (data_of (lk_a lk) TYPE_CNAME) addrs caa
      (dr_token r) (routing_target C (label_for (dr_dep r))) edge"
    by (auto simp: check_record_def Let_def e g split: if_splits)
  then obtain addrs caa edge where v: "d = evaluate C (data_of (lk_txt lk) TYPE_TXT) (data_of (lk_a lk) TYPE_CNAME) addrs caa
      (dr_token r) (routing_target C (label_for (dr_dep r))) edge" by blast
  from d(2) have "txt_matches (data_of (lk_txt lk) TYPE_TXT) (dr_token r)"
    "route_ok (routing_matches C (data_of (lk_a lk) TYPE_CNAME) addrs (routing_target C (label_for (dr_dep r))) edge)"
    by (simp_all add: v evaluate_def Let_def)
  with r show ?thesis by blast
qed

lemma apply_verdict_keeps [simp]:
  "dr_host (apply_verdict now v r) = dr_host r" "dr_dep (apply_verdict now v r) = dr_dep r" "dr_token (apply_verdict now v r) = dr_token r"
  by (simp_all add: apply_verdict_def Let_def split: option.split)

lemma apply_verdict_ok:
  assumes "rec_ok C ascii P (h, r)" "\<And>d. v = Some d \<Longrightarrow> vd_ok d \<Longrightarrow> (h, dr_token r) \<in> P"
  shows "rec_ok C ascii P (h, apply_verdict now v r)"
proof (cases v)
  case None
  with assms(1) show ?thesis by (simp add: rec_ok_def apply_verdict_def dom_live_def)
next
  case (Some d)
  show ?thesis
  proof (cases "vd_ok d")
    case True
    with Some assms show ?thesis
      by (auto simp: rec_ok_def apply_verdict_def dom_live_def Let_def split: option.splits)
  next
    case False
    with Some assms(1) show ?thesis
      by (auto simp: rec_ok_def apply_verdict_def dom_live_def Let_def DEMOTE_STRIKES_def)
  qed
qed

lemma settle_keeps_ok:
  assumes "dom_ok C ascii P (dm_by S)"
  shows "dom_ok C ascii (P \<union> {x. x = (host, token) \<and> proves C now lk host token S}) (dm_by (settle_check C now lk host token S))"
proof (cases "\<exists>r. map_of (dm_by S) host = Some r \<and> dr_token r = token")
  case False
  then have "settle_check C now lk host token S = S" by (auto simp: settle_check_def split: option.split)
  then show ?thesis using dom_ok_mono [OF assms] by simp
next
  case True
  then obtain r where r: "map_of (dm_by S) host = Some r" "dr_token r = token" by blast
  let ?P = "P \<union> {x. x = (host, token) \<and> proves C now lk host token S}"
  obtain v S1 where c: "check_record C now lk r S = (v, S1)" by fastforce
  have keep: "dm_by S1 = dm_by S" using check_keeps [of C now lk r S] c by simp
  have p: "dom_ok C ascii ?P (dm_by S)" by (rule dom_ok_mono [OF assms]) simp
  have "rec_ok C ascii ?P (host, apply_verdict now v r)"
  proof (rule apply_verdict_ok [OF dom_ok_lookup [OF p r(1)]])
    fix d
    assume "v = Some d" "vd_ok d"
    with r c have "proves C now lk host token S" unfolding proves_def by (metis fst_conv)
    then show "(host, dr_token r) \<in> ?P" using r(2) by simp
  qed
  from dom_ok_update [OF p r(1) _ this] r c keep show ?thesis by (simp add: settle_check_def)
qed

section \<open>Requests\<close>

definition owner_signed ::
  "(string \<Rightarrow> string) \<Rightarrow> signer_of \<Rightarrow> dom_env \<Rightarrow> string \<Rightarrow> string \<Rightarrow> string \<Rightarrow> gate_state \<Rightarrow> bool" where
  "owner_signed sha recover E verb i h G \<longleftrightarrow>
     (\<exists>expiry sig signer. de_now E div 1000 \<le> expiry \<and> expiry \<le> de_now E div 1000 + 600
        \<and> recover (dom_message verb i h expiry) sig = Some signer \<and> ledger_owner (de_reads E) i (to_lower signer)
        \<and> fst (sig_fresh sha (de_now E div 1000) sig expiry (ga_seen G)))"

text \<open>What one request does to the attachments.\<close>

definition detaches :: "(string \<Rightarrow> string) \<Rightarrow> signer_of \<Rightarrow> dom_env \<Rightarrow> gate_state \<Rightarrow> (string \<times> dom_rec) list \<Rightarrow> (string \<times> dom_rec) list \<Rightarrow> bool" where
  "detaches sha recover E G T T' \<longleftrightarrow> (\<exists>h r. map_of T h = Some r \<and> owner_signed sha recover E ''del'' (dr_dep r) h G \<and> T' = AList.delete h T)"

definition attaches ::
  "dom_cfg \<Rightarrow> (string \<Rightarrow> string) \<Rightarrow> (string \<Rightarrow> string) \<Rightarrow> signer_of \<Rightarrow> dom_env \<Rightarrow> gate_state \<Rightarrow> (string \<times> dom_rec) list \<Rightarrow> (string \<times> dom_rec) list \<Rightarrow> bool" where
  "attaches C ascii sha recover E G T T' \<longleftrightarrow> (\<exists>i h raw. map_of T h = None \<and> check_hostname C ascii raw = Inr h
     \<and> attached_count i T < PER_DEPLOYMENT \<and> owner_signed sha recover E ''add'' i h G \<and> T' = T @ [(h, new_record E i h)])"

definition retries :: "(string \<Rightarrow> string) \<Rightarrow> signer_of \<Rightarrow> dom_env \<Rightarrow> gate_state \<Rightarrow> (string \<times> dom_rec) list \<Rightarrow> (string \<times> dom_rec) list \<Rightarrow> bool" where
  "retries sha recover E G T T' \<longleftrightarrow> (\<exists>h r. map_of T h = Some r \<and> owner_signed sha recover E ''verify'' (dr_dep r) h G
     \<and> T' = AList.update h (if dr_status r = Failed then r\<lparr>dr_status := PendingDns, dr_strikes := 0\<rparr> else r) T)"

definition reports :: "dom_env \<Rightarrow> (string \<times> dom_rec) list \<Rightarrow> (string \<times> dom_rec) list \<Rightarrow> bool" where
  "reports E T T' \<longleftrightarrow> (\<exists>i b S. dm_by S = T \<and> T' = dm_by (take_report (de_now E) i b S))"

lemma request_intros:
  "map_of T h = Some r \<Longrightarrow> owner_signed sha recover E ''del'' (dr_dep r) h G \<Longrightarrow> detaches sha recover E G T (AList.delete h T)"
  "map_of T h = None \<Longrightarrow> check_hostname C ascii raw = Inr h \<Longrightarrow> attached_count i T < PER_DEPLOYMENT
   \<Longrightarrow> owner_signed sha recover E ''add'' i h G \<Longrightarrow> attaches C ascii sha recover E G T (T @ [(h, new_record E i h)])"
  "map_of T h = Some r \<Longrightarrow> owner_signed sha recover E ''verify'' (dr_dep r) h G
   \<Longrightarrow> retries sha recover E G T (AList.update h (if dr_status r = Failed then r\<lparr>dr_status := PendingDns, dr_strikes := 0\<rparr> else r) T)"
  by (auto simp: detaches_def attaches_def retries_def)

lemma count_rows: "length (rows_for i S) = attached_count i (dm_by S)"
proof -
  have "length (filter (\<lambda>r. dr_dep r = i) (map snd T)) = attached_count i T" for T :: "(string \<times> dom_rec) list"
    by (induction T) (auto simp: attached_count_def)
  then show ?thesis by (simp add: rows_for_def)
qed

lemma gate_signed:
  assumes "dom_gate sha recover True E i b (dom_message verb i h) S = (Inr a, S1)"
  shows "owner_signed sha recover E verb i h (dm_gate S) \<and> dm_by S1 = dm_by S"
proof -
  from assms obtain G where g: "owner_gate sha recover True (de_now E) (de_reads E) i b (dom_message verb i h) (dm_gate S) = (Inr a, G)"
    and S1: "S1 = S\<lparr>dm_gate := G\<rparr>" by (auto simp: dom_gate_def split: prod.splits)
  from owner_gate_passed [OF g] show ?thesis unfolding owner_signed_def S1 by fastforce
qed

lemma gate_keeps: "dom_gate sha recover once E i b m S = (r, S1) \<Longrightarrow> dm_by S1 = dm_by S"
  by (auto simp: dom_gate_def split: prod.splits)

lemma add_limited_keeps: "add_limited E a S = (t, S1) \<Longrightarrow> dm_by S1 = dm_by S"
  by (auto simp: add_limited_def split: prod.splits)

lemma owner_request_effect:
  assumes "owner_request C ascii sha recover E i action b S = (r, S')"
  shows "dm_by S' = dm_by S \<or> detaches sha recover E (dm_gate S) (dm_by S) (dm_by S')
    \<or> attaches C ascii sha recover E (dm_gate S) (dm_by S) (dm_by S') \<or> retries sha recover E (dm_gate S) (dm_by S) (dm_by S')"
proof (cases "action = DoList")
  case True
  with assms show ?thesis by (auto simp: owner_request_def split: prod.splits sum.splits dest: gate_keeps)
next
  case False
  show ?thesis
  proof (cases "check_hostname C ascii (nullish_text (json_get ''hostname'' b))")
    case (Inl e)
    with assms False show ?thesis by (simp add: owner_request_def)
  next
    case (Inr h)
    let ?verb = "if action = DoDelete then ''del'' else if action = DoVerify then ''verify'' else ''add''"
    obtain g S1 where g: "dom_gate sha recover True E i b (dom_message ?verb i h) S = (g, S1)" by fastforce
    from gate_keeps [OF g] have by1: "dm_by S1 = dm_by S" .
    show ?thesis
    proof (cases g)
      case (Inl e)
      with assms False Inr g by1 show ?thesis by (auto simp: owner_request_def)
    next
      case gr: (Inr a)
      from gate_signed [OF g [unfolded gr]] have s: "owner_signed sha recover E ?verb i h (dm_gate S)" by simp
      obtain t S2 where l: "add_limited E a S1 = (t, S2)" by fastforce
      from add_limited_keeps [OF l] by1 have by2: "dm_by S2 = dm_by S" by simp
      consider "action = DoDelete" | "action = DoVerify" | "action = DoAdd" using False by (cases action) auto
      then show ?thesis
      proof cases
        case 1
        with assms False Inr g gr have "delete_domain i h S1 = (r, S')" by (simp add: owner_request_def)
        with 1 s by1 have "dm_by S' = dm_by S \<or> detaches sha recover E (dm_gate S) (dm_by S) (dm_by S')"
          using request_intros(1) [of "dm_by S" h _ sha recover E "dm_gate S"]
          by (auto simp: delete_domain_def split: option.splits if_splits)
        then show ?thesis by blast
      next
        case 2
        with assms False Inr g gr l have "t \<and> S' = S2 \<or> verify_domain i h S2 = (r, S')" by (auto simp: owner_request_def split: if_splits)
        with 2 s by2 have "dm_by S' = dm_by S \<or> retries sha recover E (dm_gate S) (dm_by S) (dm_by S')"
          using request_intros(3) [of "dm_by S" h _ sha recover E "dm_gate S"]
          by (auto simp: verify_domain_def Let_def split: option.splits if_splits)
        then show ?thesis by blast
      next
        case 3
        with assms False Inr g gr l have "t \<and> S' = S2 \<or> attach_domain E a i h S2 = (r, S')" by (auto simp: owner_request_def split: if_splits)
        with 3 s by2 Inr count_rows [of i S2] have "dm_by S' = dm_by S \<or> attaches C ascii sha recover E (dm_gate S) (dm_by S) (dm_by S')"
          using request_intros(2) [of "dm_by S" h C ascii _ i sha recover E "dm_gate S"]
          by (auto simp: attach_domain_def not_le split: option.splits if_splits)
        then show ?thesis by blast
      qed
    qed
  qed
qed

lemma request_effect:
  assumes "handle_domains C ascii sha mac recover on method E path raw S = (r, S')"
  shows "dm_by S' = dm_by S \<or> detaches sha recover E (dm_gate S) (dm_by S) (dm_by S')
    \<or> attaches C ascii sha recover E (dm_gate S) (dm_by S) (dm_by S') \<or> retries sha recover E (dm_gate S) (dm_by S) (dm_by S')
    \<or> reports E (dm_by S) (dm_by S')"
proof (cases "dom_route_of path = Some RouteMap \<and> method = ''GET''")
  case True
  with assms show ?thesis by (auto simp: handle_domains_def split: prod.splits)
next
  case False
  obtain ok bs where t: "take_token 60 1 (de_now E) (de_ip E) (dm_ip S) = (ok, bs)" by fastforce
  let ?S1 = "S\<lparr>dm_ip := bs\<rparr>"
  show ?thesis
  proof (cases "on \<and> method = ''POST'' \<and> ok \<and> (\<exists>b rt. json_parse (if raw = [] then ''{}'' else raw) = Some b \<and> b \<noteq> JNull \<and> dom_route_of path = Some rt \<and> rt \<noteq> RouteMap)")
    case no: False
    with assms False t show ?thesis
      by (auto simp: handle_domains_def Let_def split: prod.splits option.splits dom_route.splits if_splits)
  next
    case yes: True
    then obtain b rt where b: "json_parse (if raw = [] then ''{}'' else raw) = Some b" "b \<noteq> JNull" "dom_route_of path = Some rt" "rt \<noteq> RouteMap" by blast
    show ?thesis
    proof (cases rt)
      case RouteMap
      with b show ?thesis by simp
    next
      case (RouteDep i action)
      with assms False t yes b have "owner_request C ascii sha recover E i action b ?S1 = (r, S')" by (simp add: handle_domains_def)
      from owner_request_effect [OF this] show ?thesis by auto
    next
      case RouteDomFetch
      obtain ok' bs' where t': "take_token 120 10 (de_now E) (de_ip E) (dm_fetch ?S1) = (ok', bs')" by fastforce
      with assms False t yes b RouteDomFetch have "S' = ?S1\<lparr>dm_fetch := bs'\<rparr> \<or> domains_fetch C mac recover E b (?S1\<lparr>dm_fetch := bs'\<rparr>) = (r, S')"
        by (auto simp: handle_domains_def Let_def split: if_splits)
      then have "dm_by S' = dm_by S \<or> (\<exists>i. dm_by S' = dm_by (take_report (de_now E) i b (?S1\<lparr>dm_fetch := bs'\<rparr>)))"
        by (auto simp: domains_fetch_def Let_def split: option.splits if_splits)
      then have "dm_by S' = dm_by S \<or> reports E (dm_by S) (dm_by S')" unfolding reports_def
        by (metis dom_state.ext_inject dom_state.surjective dom_state.update_convs(4) dom_state.update_convs(5))
      then show ?thesis by blast
    qed
  qed
qed

lemma apply_report_keeps [simp]:
  "dr_host (apply_report now item r) = dr_host r" "dr_dep (apply_report now item r) = dr_dep r" "dr_token (apply_report now item r) = dr_token r"
  "dr_strikes (apply_report now item r) = dr_strikes r" "dr_verified (apply_report now item r) = dr_verified r"
  "dom_live (apply_report now item r) = dom_live r"
  by (auto simp: apply_report_def Let_def dom_live_def)

lemma report_item_ok: "dom_ok C ascii P (dm_by S) \<Longrightarrow> dom_ok C ascii P (dm_by (report_item now i item S))"
  using dom_ok_lookup [of C ascii P "dm_by S"]
  by (auto simp: report_item_def Let_def rec_ok_def split: option.split intro!: dom_ok_update)

lemma take_report_ok: "dom_ok C ascii P (dm_by S) \<Longrightarrow> dom_ok C ascii P (dm_by (take_report now i b S))"
proof -
  have "dom_ok C ascii P (dm_by S) \<Longrightarrow> dom_ok C ascii P (dm_by (foldl (\<lambda>S item. report_item now i item S) S items))" for S items
    by (induction items arbitrary: S) (simp_all add: report_item_ok)
  then show "dom_ok C ascii P (dm_by S) \<Longrightarrow> dom_ok C ascii P (dm_by (take_report now i b S))"
    by (simp add: take_report_def split: option.split json.split)
qed

lemma request_ok:
  assumes "dom_ok C ascii P (dm_by S)"
  shows "dom_ok C ascii P (dm_by (snd (handle_domains C ascii sha mac recover on method E path raw S)))"
proof -
  obtain r S' where h: "handle_domains C ascii sha mac recover on method E path raw S = (r, S')" by fastforce
  from request_effect [OF h] consider "dm_by S' = dm_by S" | "detaches sha recover E (dm_gate S) (dm_by S) (dm_by S')"
    | "attaches C ascii sha recover E (dm_gate S) (dm_by S) (dm_by S')" | "retries sha recover E (dm_gate S) (dm_by S) (dm_by S')"
    | "reports E (dm_by S) (dm_by S')" by blast
  then have "dom_ok C ascii P (dm_by S')"
  proof cases
    case 1
    with assms show ?thesis by simp
  next
    case 2
    with assms show ?thesis by (auto simp: detaches_def intro: dom_ok_delete)
  next
    case 3
    then obtain i h raw where "map_of (dm_by S) h = None" "check_hostname C ascii raw = Inr h" "attached_count i (dm_by S) < PER_DEPLOYMENT"
      "dm_by S' = dm_by S @ [(h, new_record E i h)]" by (auto simp: attaches_def)
    with assms show ?thesis by (auto intro!: dom_ok_append simp: rec_ok_def new_record_def dom_live_def)
  next
    case 4
    then obtain h r where t: "map_of (dm_by S) h = Some r"
      "dm_by S' = AList.update h (if dr_status r = Failed then r\<lparr>dr_status := PendingDns, dr_strikes := 0\<rparr> else r) (dm_by S)"
      by (auto simp: retries_def)
    show ?thesis unfolding t(2)
      by (rule dom_ok_update [OF assms t(1)]) (use dom_ok_lookup [OF assms t(1)] in \<open>auto simp: rec_ok_def dom_live_def\<close>)
  next
    case 5
    then obtain i b T where t: "dm_by T = dm_by S" "dm_by S' = dm_by (take_report (de_now E) i b T)" by (auto simp: reports_def)
    from assms have "dom_ok C ascii P (dm_by T)" by (simp add: t(1))
    then show ?thesis unfolding t(2) by (rule take_report_ok)
  qed
  with h show ?thesis by simp
qed

section \<open>Every state that can be reached\<close>

definition dom_start :: dom_state where
  "dom_start = \<lparr>dm_by = [], dm_gate = \<lparr>ga_rate = [], ga_seen = []\<rparr>, dm_add = [], dm_ip = [], dm_fetch = [], dm_map = [],
     dm_edge = ([], 0), dm_targets = []\<rparr>"

text \<open>
  Requests, checks that settle and purges, in any order; along with the state goes the set of names and
  tokens that some check proved.
\<close>

inductive dom_reachable ::
  "dom_cfg \<Rightarrow> (string \<Rightarrow> string) \<Rightarrow> (string \<Rightarrow> string) \<Rightarrow> (string \<Rightarrow> string) \<Rightarrow> signer_of \<Rightarrow> bool \<Rightarrow> dom_state \<Rightarrow> (string \<times> string) set \<Rightarrow> bool"
  for C ascii sha mac recover on where
  dom_boot: "dom_reachable C ascii sha mac recover on dom_start {}"
| dom_request: "dom_reachable C ascii sha mac recover on S P
    \<Longrightarrow> dom_reachable C ascii sha mac recover on (snd (handle_domains C ascii sha mac recover on method E path raw S)) P"
| dom_check: "dom_reachable C ascii sha mac recover on S P
    \<Longrightarrow> dom_reachable C ascii sha mac recover on (settle_check C now lk host token S) (P \<union> {x. x = (host, token) \<and> proves C now lk host token S})"
| dom_purge: "dom_reachable C ascii sha mac recover on S P \<Longrightarrow> dom_reachable C ascii sha mac recover on (purge_domains now rows S) P"

lemma reachable_dom_ok: "dom_reachable C ascii sha mac recover on S P \<Longrightarrow> dom_ok C ascii P (dm_by S)"
proof (induction rule: dom_reachable.induct)
  case dom_boot
  show ?case by (simp add: dom_ok_def dom_start_def attached_count_def)
qed (simp_all add: request_ok settle_keeps_ok dom_ok_purge)


section \<open>Whose name it is\<close>

text \<open>
  C29: A request changes whom a hostname belongs to only by its owner's word: a name goes when the owner of
  the deployment it is attached to signed for detaching it, a name comes when it was free and the owner of
  its new deployment signed for attaching it, and any other name keeps its deployment and its token.
\<close>

theorem attachments_follow_their_owners:
  assumes "handle_domains C ascii sha mac recover on method E path raw S = (reply, S')"
    and "map_option (\<lambda>r. (dr_dep r, dr_token r)) (map_of (dm_by S') h) \<noteq> map_option (\<lambda>r. (dr_dep r, dr_token r)) (map_of (dm_by S) h)"
  shows "(\<exists>r. map_of (dm_by S) h = Some r \<and> map_of (dm_by S') h = None \<and> owner_signed sha recover E ''del'' (dr_dep r) h (dm_gate S))
    \<or> (\<exists>i. map_of (dm_by S) h = None \<and> map_of (dm_by S') h = Some (new_record E i h) \<and> owner_signed sha recover E ''add'' i h (dm_gate S))"
proof -
  let ?id = "map_option (\<lambda>r. (dr_dep r, dr_token r))"
  have item: "?id (map_of (dm_by (report_item now i item T)) h) = ?id (map_of (dm_by T) h)" for now i item T
    by (auto simp: report_item_def Let_def split: option.split)
  then have "?id (map_of (dm_by (foldl (\<lambda>S item. report_item now i item S) T items)) h) = ?id (map_of (dm_by T) h)" for now i items T
    by (induction items arbitrary: T) simp_all
  then have rep: "?id (map_of (dm_by (take_report now i b T)) h) = ?id (map_of (dm_by T) h)" for now i b T
    by (simp add: take_report_def split: option.split json.split)
  from request_effect [OF assms(1)] consider "dm_by S' = dm_by S" | "detaches sha recover E (dm_gate S) (dm_by S) (dm_by S')"
    | "attaches C ascii sha recover E (dm_gate S) (dm_by S) (dm_by S')" | "retries sha recover E (dm_gate S) (dm_by S) (dm_by S')"
    | "reports E (dm_by S) (dm_by S')" by blast
  then show ?thesis
  proof cases
    case 1
    with assms(2) show ?thesis by simp
  next
    case 2
    then obtain h' r where d: "map_of (dm_by S) h' = Some r" "owner_signed sha recover E ''del'' (dr_dep r) h' (dm_gate S)"
      "dm_by S' = AList.delete h' (dm_by S)" by (auto simp: detaches_def)
    with assms(2) have "h = h'" by (simp add: delete_conv' split: if_splits)
    with d show ?thesis by (simp add: delete_conv')
  next
    case 3
    then obtain h' i where d: "map_of (dm_by S) h' = None" "owner_signed sha recover E ''add'' i h' (dm_gate S)"
      "dm_by S' = dm_by S @ [(h', new_record E i h')]" by (auto simp: attaches_def)
    with assms(2) have "h = h'" by (auto simp: map_add_def split: option.splits if_splits)
    with d show ?thesis by (auto simp: map_add_def)
  next
    case 4
    with assms(2) show ?thesis by (auto simp: retries_def split: if_splits)
  next
    case 5
    with assms(2) rep show ?thesis by (auto simp: reports_def)
  qed
qed

section \<open>Who learns of the names\<close>

text \<open>
  A fetch that is answered came, within five minutes of its time, from an endpoint that the ledger names
  as the runner of the deployment with its lease live, under the fleet's hash or its registered operator's
  signature; the answer is the routed names of that deployment and of no other.
\<close>

theorem names_go_to_the_lease_holder:
  assumes "domains_fetch C mac recover E b S = (DomFetched i names, S')"
  shows "\<exists>endpoint ts d. \<bar>de_now E - ts * 1000\<bar> \<le> 300000 \<and> dom_fetch_auth C mac recover E i endpoint ts b = None
    \<and> row_held_by (de_now E) (de_epId E endpoint) (Some d) \<and> to_lower (ow_id d) = i
    \<and> (\<exists>rows. (fst (de_reads E) = Some rows \<or> snd (de_reads E) = Some rows) \<and> d \<in> set rows)
    \<and> (\<forall>h. h \<in> set names \<longleftrightarrow> (\<exists>r. r \<in> snd ` set (dm_by S') \<and> dr_host r = h \<and> dr_dep r = i \<and> dom_live r))"
proof -
  define endpoint where "endpoint = strip_slashes (text_or_empty (json_get ''endpoint'' b))"
  define j where "j = to_lower (text_or_empty (json_get ''id'' b))"
  have never: "dom_fetch_auth C mac recover E k ep ts b \<noteq> Some (DomFetched i names)" for k ep ts
    by (simp add: dom_fetch_auth_def Let_def)
  let ?holds = "row_held_by (de_now E) (de_epId E endpoint)"
  note f = assms [unfolded domains_fetch_def Let_def, folded j_def endpoint_def]
  have b: "dep_bytes32 j" "web_origin endpoint" using f by (simp_all split: if_splits)
  then obtain ts where t: "json_int_at ''ts'' b = Some ts" using f by (cases "json_int_at ''ts'' b") simp_all
  have ts: "\<bar>de_now E - ts * 1000\<bar> \<le> 300000" using f b t by (simp split: if_splits)
  have au: "dom_fetch_auth C mac recover E j endpoint ts b = None"
    using f b t ts never [of j endpoint ts] by (cases "dom_fetch_auth C mac recover E j endpoint ts b") simp_all
  have h: "row_or_fresh ?holds j (de_reads E) \<noteq> None" "?holds (row_or_fresh ?holds j (de_reads E))"
    and i: "i = j" "names = cert_names_for j S'" using f b t ts au by (auto split: if_splits)
  from h(1) obtain d where d: "row_or_fresh ?holds j (de_reads E) = Some d" by blast
  from row_or_fresh_Some [OF d] have "\<exists>rows. (fst (de_reads E) = Some rows \<or> snd (de_reads E) = Some rows) \<and> d \<in> set rows \<and> to_lower (ow_id d) = j"
    by (auto dest!: row_of_Some)
  moreover have "to_lower j = j"
    using b(1) hex_str_lower [of 64 64 "drop 2 j"] by (auto simp: dep_bytes32_def prefix_def to_lower_def lower_char_def)
  then have "\<forall>h. h \<in> set names \<longleftrightarrow> (\<exists>r. r \<in> snd ` set (dm_by S') \<and> dr_host r = h \<and> dr_dep r = i \<and> dom_live r)"
    by (auto simp: i cert_names_for_def rows_for_def)
  moreover have "?holds (Some d)" using h(2) d by simp
  ultimately show ?thesis using ts au i(1) by (intro exI [of _ endpoint] exI [of _ ts] exI [of _ d]) auto
qed

section \<open>Demonstration\<close>

definition demo_dom_env :: dom_env where
  "demo_dom_env = \<lparr>de_now = 200000, de_ip = ''1'', de_reads = (Some [demo_owned], None), de_other = None, de_token = ''tok'',
     de_owner = OwnerIs ''0xB'', de_epId = (\<lambda>ep. ''0x9'')\<rparr>"

definition demo_lookups :: lookups where
  "demo_lookups = \<lparr>lk_txt = Some [(16, ''tok'')], lk_a = Some [(1, ''192.0.2.1'')], lk_aaaa = None, lk_caa = Some [], lk_probe = (None, None), lk_target = (None, None)\<rparr>"

definition demo_attached :: dom_state where
  "demo_attached = dom_start\<lparr>dm_by := [(''shop.co'', new_record demo_dom_env dep_d ''shop.co'')]\<rparr>"

lemma demo_check: "dr_status (the (map_of (dm_by (settle_check demo_dom_cfg 7 demo_lookups ''shop.co'' ''tok'' demo_attached)) ''shop.co'')) = Verified"
  by code_simp


definition demo_attach_raw :: string where
  "demo_attach_raw = ''{\"expiry\":300,\"hostname\":\"Shop.co.\",\"signature\":\"'' @ sig_of (CHR ''a'') @ ''\"}''"

definition demo_attach :: "dom_reply \<times> dom_state" where
  "demo_attach = handle_domains demo_dom_cfg (\<lambda>x. x) (\<lambda>x. x) (\<lambda>x. x) (\<lambda>m s. Some ''0xA'') True ''POST'' demo_dom_env (''/v1/domains/'' @ dep_d) demo_attach_raw dom_start"

lemma demo_attach_parse: "json_parse demo_attach_raw = Some (JObj [(''expiry'', JNum 300), (''hostname'', JStr ''Shop.co.''), (''signature'', JStr (sig_of (CHR ''a'')))])"
  by code_simp

lemma demo_attach_facts: "dom_route_of (''/v1/domains/'' @ dep_d) = Some (RouteDep dep_d DoAdd)" "demo_attach_raw \<noteq> []"
  "check_hostname demo_dom_cfg (\<lambda>x. x) ''Shop.co.'' = Inr ''shop.co''"
  "take_token 60 1 200000 ''1'' [] = (True, [(''1'', \<lparr>bk_tokens = 59, bk_at = 200000\<rparr>)])"
  "fst (take_token (of_nat (2 * PER_DEPLOYMENT)) (10 / 600) 200000 ''0xa'' [])"
  by code_simp+

lemma demo_attach_state: "\<exists>g a p. snd demo_attach = demo_attached\<lparr>dm_gate := g, dm_add := a, dm_ip := p\<rparr>"
proof -
  let ?b = "JObj [(''expiry'', JNum 300), (''hostname'', JStr ''Shop.co.''), (''signature'', JStr (sig_of (CHR ''a'')))]"
  have b: "json_int_at ''expiry'' ?b = Some 300" "text_or_empty (json_get ''signature'' ?b) = sig_of (CHR ''a'')"
    "nullish_text (json_get ''hostname'' ?b) = ''Shop.co.''"
    using demo_shapes(7) by (simp_all add: json_int_at_def json_get_def number_int_def text_or_empty_def json_truthy_def nullish_text_def)
  have f: "sig_fresh (\<lambda>s. s) 200 (sig_of (CHR ''a'')) 300 [] = (True, [(sig_of (CHR ''a''), 300)])" by (simp add: sig_fresh_def)
  have g: "owner_gate (\<lambda>s. s) (\<lambda>m s. Some ''0xA'') True 200000 (Some [demo_owned], None) dep_d ?b m \<lparr>ga_rate = [], ga_seen = []\<rparr>
      = (Inr ''0xa'', \<lparr>ga_rate = [(''0xa'', \<lparr>bk_tokens = 29, bk_at = 200000\<rparr>)], ga_seen = [(sig_of (CHR ''a''), 300)]\<rparr>)" for m
    using demo_owner_gate [OF _ demo_shapes(1,7), of "\<lambda>m s. Some ''0xA''" "\<lparr>ga_rate = [], ga_seen = []\<rparr>" _ "\<lambda>s. s" True _ ?b] f b demo_owner_tokens by auto
  obtain bs where t: "take_token (of_nat (2 * PER_DEPLOYMENT)) (10 / 600) 200000 ''0xa'' [] = (True, bs)"
    using demo_attach_facts(5) by (metis prod.collapse)
  have E: "de_now demo_dom_env = 200000" "de_reads demo_dom_env = (Some [demo_owned], None)" "de_ip demo_dom_env = ''1''"
    by (simp_all add: demo_dom_env_def)
  show ?thesis
    unfolding demo_attach_def handle_domains_def demo_attach_parse demo_attach_facts(1)
    using demo_attach_facts(2-4) b g t E
    by (simp add: demo_attach_parse demo_attached_def dom_start_def owner_request_def dom_gate_def add_limited_def attach_domain_def rows_for_def PER_DEPLOYMENT_def)
qed

lemma demo_attach_value: "dm_by (snd demo_attach) = [(''shop.co'', new_record demo_dom_env dep_d ''shop.co'')]"
  using demo_attach_state by (auto simp: demo_attached_def)

theorem attachments_follow_their_owners_witness:
  "\<exists>i. map_of (dm_by (snd demo_attach)) ''shop.co'' = Some (new_record demo_dom_env i ''shop.co'')
     \<and> owner_signed (\<lambda>x. x) (\<lambda>m s. Some ''0xA'') demo_dom_env ''add'' i ''shop.co'' (dm_gate dom_start)"
proof -
  have "handle_domains demo_dom_cfg (\<lambda>x. x) (\<lambda>x. x) (\<lambda>x. x) (\<lambda>m s. Some ''0xA'') True ''POST'' demo_dom_env (''/v1/domains/'' @ dep_d) demo_attach_raw dom_start
      = (fst demo_attach, snd demo_attach)" by (simp add: demo_attach_def)
  from attachments_follow_their_owners [OF this, of "''shop.co''"] demo_attach_value show ?thesis
    by (auto simp: dom_start_def)
qed

definition demo_names_body :: json where
  "demo_names_body = JObj [(''id'', JStr dep_d), (''endpoint'', JStr ''https://b/''), (''ts'', JNum 200), (''opSig'', JStr (sig_of (CHR ''b'')))]"

lemma demo_names_value: "\<exists>names S'. domains_fetch demo_dom_cfg (\<lambda>x. x) (\<lambda>m s. Some ''0xB'') demo_dom_env demo_names_body demo_attached = (DomFetched dep_d names, S')"
proof -
  have b: "json_int_at ''ts'' demo_names_body = Some 200" "text_or_empty (json_get ''id'' demo_names_body) = dep_d"
    "text_or_empty (json_get ''endpoint'' demo_names_body) = ''https://b/''" "json_get ''opSig'' demo_names_body = Some (JStr (sig_of (CHR ''b'')))"
    using demo_fetch_facts(6) by (simp_all add: demo_names_body_def json_int_at_def json_get_def number_int_def text_or_empty_def json_truthy_def)
  have h: "row_or_fresh (row_held_by 200000 ''0x9'') dep_d (Some [demo_owned], None) = Some demo_owned" "row_held_by 200000 ''0x9'' (Some demo_owned)"
    using demo_fetch_facts by (simp_all add: row_or_fresh_def row_of_def demo_owned_def demo_shapes row_held_by_def)
  have a: "dom_fetch_auth demo_dom_cfg (\<lambda>s. s) (\<lambda>m s. Some ''0xB'') demo_dom_env i ep ts demo_names_body = None" for i ep ts
    using demo_fetch_facts b(4) by (simp add: dom_fetch_auth_def recover_op_def demo_dom_env_def)
  have E: "de_now demo_dom_env = 200000" "de_reads demo_dom_env = (Some [demo_owned], None)" "de_epId demo_dom_env ep = ''0x9''" for ep
    by (simp_all add: demo_dom_env_def)
  show ?thesis
    using demo_fetch_facts(3,4) b h a E demo_shapes(3,4) by (simp add: domains_fetch_def Let_def)
qed

theorem names_go_to_the_lease_holder_witness:
  "\<exists>names S'. domains_fetch demo_dom_cfg (\<lambda>x. x) (\<lambda>m s. Some ''0xB'') demo_dom_env demo_names_body demo_attached = (DomFetched dep_d names, S')
     \<and> (\<exists>d. row_held_by 200000 ''0x9'' (Some d) \<and> to_lower (ow_id d) = dep_d)"
  using demo_names_value names_go_to_the_lease_holder [of demo_dom_cfg "\<lambda>x. x" "\<lambda>m s. Some ''0xB''" demo_dom_env demo_names_body demo_attached]
  by (fastforce simp: demo_dom_env_def)

text \<open>
  Attaching asks for no proof: a name somebody else attached first, and never proved, is refused to the
  owner of its zone, who has no way to have it released.
\<close>

lemma unproven_attachment_blocks_the_zone_owner:
  "fst (attach_domain demo_dom_env ''0xcc'' (''0x'' @ replicate 64 (CHR ''e'')) ''shop.co'' demo_attached) = Unavailable
   \<and> domain_map True demo_attached = []"
  by code_simp

end
