(* ===== verification/Der_Codec.thy ===== *)
theory Der_Codec
  imports Relay_Routing
begin

text \<open>
  The two halves of the platform's DER: the writer an enclave builds its certificate request with
  (\<open>derTlv\<close>, \<open>derOid\<close> of \<open>supervisor.js\<close>) and the reader the relay checks it with (\<open>tlv\<close>, \<open>kids\<close>,
  \<open>oidOf\<close> of \<open>relay/certs.js\<close>). The reader accepts exactly what the writer emits.
\<close>

type_synonym octets = "8 word list"

section \<open>The writer\<close>

text \<open>The loop of \<open>derLen\<close>: \<open>>>>=\<close> keeps 32 bits.\<close>

function be_bytes :: "nat \<Rightarrow> octets" where
  "be_bytes n = (if n = 0 then [] else be_bytes ((n mod 2 ^ 32) div 256) @ [of_nat n])"
  by pat_completeness auto
termination
proof (relation "measure id")
  fix n :: nat
  assume "n \<noteq> 0"
  then show "((n mod 2 ^ 32) div 256, n) \<in> measure id"
    using div_le_mono [OF mod_less_eq_dividend [of n "2 ^ 32"], of 256] by (simp add: div_less_dividend le_less_trans)
qed simp

declare be_bytes.simps [simp del]

definition der_len :: "nat \<Rightarrow> octets" where
  "der_len n = (if n < 128 then [of_nat n] else let b = be_bytes n in of_nat (128 + length b) # b)"

definition der_tlv :: "nat \<Rightarrow> octets \<Rightarrow> octets" where
  "der_tlv tag body = of_nat tag # der_len (length body) @ body"

definition der_seq :: "octets list \<Rightarrow> octets" where "der_seq ps = der_tlv 0x30 (concat ps)"
definition der_set :: "octets list \<Rightarrow> octets" where "der_set ps = der_tlv 0x31 (concat ps)"
definition der_int0 :: octets where "der_int0 = der_tlv 0x02 [0]"
definition der_octet :: "octets \<Rightarrow> octets" where "der_octet b = der_tlv 0x04 b"
definition der_bits :: "octets \<Rightarrow> octets" where "der_bits b = der_tlv 0x03 (0 # b)"
definition der_utf8 :: "octets \<Rightarrow> octets" where "der_utf8 s = der_tlv 0x0c s"
definition der_ctx :: "nat \<Rightarrow> bool \<Rightarrow> octets \<Rightarrow> octets" where "der_ctx n constructed body = der_tlv ((if constructed then 0xa0 else 0x80) + n) body"

text \<open>The bytes of one arc: seven bits each, the last without the continuation bit.\<close>

fun arc_rest :: "nat \<Rightarrow> octets" where
  "arc_rest x = (if x = 0 then [] else arc_rest (x div 128) @ [of_nat (x mod 128 + 128)])"

declare arc_rest.simps [simp del]

definition arc_bytes :: "nat \<Rightarrow> octets" where
  "arc_bytes v = arc_rest (v div 128) @ [of_nat (v mod 128)]"

definition oid_body :: "nat list \<Rightarrow> octets" where
  "oid_body a = of_nat (40 * a ! 0 + a ! 1) # concat (map arc_bytes (drop 2 a))"

definition der_oid :: "nat list \<Rightarrow> octets" where
  "der_oid a = der_tlv 0x06 (oid_body a)"

section \<open>The reader\<close>

datatype der_error = TruncatedDer | IndefiniteLength | BadLength | LeadingZeroLength | LongShortLength | BadNesting | TooManyKids | TooDeep

record der_node =
  dn_tag :: nat
  dn_off :: nat
  dn_start :: nat
  dn_end :: nat

definition node_body :: "octets \<Rightarrow> der_node \<Rightarrow> octets" where
  "node_body buf t = take (dn_end t - dn_start t) (drop (dn_start t) buf)"

definition node_raw :: "octets \<Rightarrow> der_node \<Rightarrow> octets" where
  "node_raw buf t = take (dn_end t - dn_off t) (drop (dn_off t) buf)"

definition be_val :: "octets \<Rightarrow> nat" where
  "be_val bs = foldl (\<lambda>len b. len * 256 + unat b) 0 bs"

text \<open>The length octets at \<open>off + 1\<close>: the length and the size of the header.\<close>

definition der_length :: "octets \<Rightarrow> nat \<Rightarrow> der_error + nat \<times> nat" where
  "der_length buf off =
     (let len = unat (buf ! (off + 1))
      in if len < 128 then Inr (len, 2)
         else let n = len - 128
              in if n = 0 then Inl IndefiniteLength
                 else if 4 < n \<or> length buf < off + 2 + n then Inl BadLength
                 else if buf ! (off + 2) = 0 then Inl LeadingZeroLength
                 else let v = be_val (take n (drop (off + 2) buf))
                      in if v < 128 then Inl LongShortLength else Inr (v, 2 + n))"

definition der_tlv_at :: "octets \<Rightarrow> nat \<Rightarrow> der_error + der_node" where
  "der_tlv_at buf off =
     (if length buf < off + 2 then Inl TruncatedDer
      else and_then (der_length buf off) (\<lambda>(len, hdr).
        if length buf - (off + hdr) < len then Inl TruncatedDer
        else Inr \<lparr>dn_tag = unat (buf ! off), dn_off = off, dn_start = off + hdr, dn_end = off + hdr + len\<rparr>))"

definition MAX_KIDS :: nat where "MAX_KIDS = 32"
definition MAX_DEPTH :: nat where "MAX_DEPTH = 16"

function kids_from :: "octets \<Rightarrow> nat \<Rightarrow> nat \<Rightarrow> der_node list \<Rightarrow> der_error + der_node list" where
  "kids_from buf e off out =
     (if off < e
      then (case der_tlv_at buf off of
              Inl x \<Rightarrow> Inl x
            | Inr c \<Rightarrow>
                if \<not> off < dn_end c \<or> e < dn_end c then Inl BadNesting
                else if MAX_KIDS < length (out @ [c]) then Inl TooManyKids
                else kids_from buf e (dn_end c) (out @ [c]))
      else Inr out)"
  by pat_completeness auto
termination by (relation "measure (\<lambda>(buf, e, off, out). e - off)") auto

declare kids_from.simps [simp del]

definition der_kids :: "octets \<Rightarrow> der_node \<Rightarrow> nat \<Rightarrow> der_error + der_node list" where
  "der_kids buf t depth = (if MAX_DEPTH < depth then Inl TooDeep else kids_from buf (dn_end t) (dn_start t) [])"

fun arcs_from :: "nat \<Rightarrow> octets \<Rightarrow> nat list" where
  "arcs_from v [] = []"
| "arcs_from v (b # bs) =
     (let w = v * 128 + unat b mod 128 in if unat b < 128 then w # arcs_from 0 bs else arcs_from w bs)"

text \<open>An empty body has no first octet; its text names no identifier.\<close>

definition oid_of :: "octets \<Rightarrow> nat list option" where
  "oid_of body = (case body of [] \<Rightarrow> None | b # bs \<Rightarrow> Some (unat b div 40 # unat b mod 40 # arcs_from 0 bs))"

section \<open>Lengths\<close>

lemma be_val_snoc [simp]: "be_val (bs @ [b]) = be_val bs * 256 + unat b"
  by (simp add: be_val_def)

lemma be_val_Nil [simp]: "be_val [] = 0"
  by (simp add: be_val_def)

lemma unat_of_nat_byte [simp]: "unat (of_nat n :: 8 word) = n mod 256"
  by (simp add: unat_of_nat)

lemma be_bytes_step: "0 < n \<Longrightarrow> n < 2 ^ 32 \<Longrightarrow> be_bytes n = be_bytes (n div 256) @ [of_nat n]"
  by (subst be_bytes.simps) simp

lemma be_val_bytes: "n < 2 ^ 32 \<Longrightarrow> be_val (be_bytes n) = n"
proof (induction n rule: less_induct)
  case (less n)
  show ?case
  proof (cases "n = 0")
    case True
    then show ?thesis by (simp add: be_bytes.simps [of 0])
  next
    case False
    then have "n div 256 < n" "n div 256 < 2 ^ 32" using less.prems by simp_all
    with less False show ?thesis by (simp add: be_bytes_step)
  qed
qed

lemma length_be_bytes: "n < 256 ^ k \<Longrightarrow> n < 2 ^ 32 \<Longrightarrow> length (be_bytes n) \<le> k"
proof (induction k arbitrary: n)
  case 0
  then show ?case by (simp add: be_bytes.simps [of 0])
next
  case (Suc k)
  show ?case
  proof (cases "n = 0")
    case True
    then show ?thesis by (simp add: be_bytes.simps [of 0])
  next
    case False
    from Suc.prems have "n div 256 < 256 ^ k" by (simp add: less_mult_imp_div_less mult.commute)
    with Suc False show ?thesis by (simp add: be_bytes_step)
  qed
qed

lemma be_bytes_hd: "0 < n \<Longrightarrow> n < 2 ^ 32 \<Longrightarrow> be_bytes n \<noteq> [] \<and> hd (be_bytes n) \<noteq> 0"
proof (induction n rule: less_induct)
  case (less n)
  show ?case
  proof (cases "n div 256 = 0")
    case True
    then have "n < 256" by simp
    then have "unat (of_nat n :: 8 word) = n" by simp
    with less.prems have "(of_nat n :: 8 word) \<noteq> 0" by (metis less_not_refl unat_0)
    then show ?thesis using less.prems True by (simp add: be_bytes_step be_bytes.simps [of 0])
  next
    case False
    then have "be_bytes (n div 256) \<noteq> [] \<and> hd (be_bytes (n div 256)) \<noteq> 0" using less by simp
    then show ?thesis using less.prems by (simp add: be_bytes_step)
  qed
qed

lemma be_val_less: "be_val bs < 256 ^ length bs"
proof (induction bs rule: rev_induct)
  case (snoc b bs)
  have "unat b < 256" by (rule unat_byte_less)
  moreover have "Suc (be_val bs) * 256 \<le> 256 ^ length bs * 256" using snoc by (intro mult_le_mono1) simp
  ultimately show ?case by simp
qed simp

lemma be_bytes_val:
  "bs \<noteq> [] \<Longrightarrow> hd bs \<noteq> 0 \<Longrightarrow> length bs \<le> 4 \<Longrightarrow> be_bytes (be_val bs) = bs \<and> 0 < be_val bs"
proof (induction bs rule: rev_induct)
  case (snoc b bs)
  have b: "unat b < 256" by (rule unat_byte_less)
  have lt: "be_val (bs @ [b]) < 2 ^ 32"
    using be_val_less [of "bs @ [b]"] power_increasing [of "length (bs @ [b])" 4 "256::nat"] snoc.prems(3) by simp
  show ?case
  proof (cases "bs = []")
    case True
    with snoc.prems have "0 < unat b" by (simp add: unat_gt_0)
    with True b lt show ?thesis by (simp add: be_bytes_step be_bytes.simps [of 0] be_val_def)
  next
    case False
    with snoc have "be_bytes (be_val bs) = bs" "0 < be_val bs" by simp_all
    moreover have z: "(256 :: 8 word) = 0" by simp
    have "of_nat (be_val bs * 256 + unat b) = b" unfolding of_nat_add of_nat_mult of_nat_numeral z by simp
    ultimately show ?thesis using lt b by (simp add: be_bytes_step)
  qed
qed simp

section \<open>One element\<close>

lemma length_der_len: "n < 2 ^ 32 \<Longrightarrow> length (der_len n) \<le> 5 \<and> 0 < length (der_len n)"
  using length_be_bytes [of n 4] by (simp add: der_len_def Let_def)

text \<open>The reader finds what the writer wrote, wherever it stands.\<close>

lemma der_length_written:
  assumes "n < 2 ^ 32" "drop off buf = tag # der_len n @ r" "off < length buf"
  shows "der_length buf off = Inr (n, 1 + length (der_len n))"
proof -
  have d: "drop (off + 1) buf = der_len n @ r" using assms(2) by (metis drop_Suc_Cons drop_drop plus_1_eq_Suc drop0 One_nat_def)
  then have at: "buf ! (off + 1) = hd (der_len n)" "length buf = off + 1 + length (der_len n) + length r"
    using length_der_len [OF assms(1)] assms(2,3)
    by (metis hd_append2 hd_drop_conv_nth length_0_conv less_not_refl drop_eq_Nil append_is_Nil_conv linorder_not_le,
        metis (no_types, lifting) add.assoc assms(3) d length_append length_drop le_add_diff_inverse Suc_eq_plus1 Suc_leI)
  show ?thesis
  proof (cases "n < 128")
    case True
    with at show ?thesis by (simp add: der_length_def der_len_def)
  next
    case False
    define b where "b = be_bytes n"
    from False assms(1) have b: "b \<noteq> []" "hd b \<noteq> 0" "be_val b = n" "length b \<le> 4"
      using be_bytes_hd [of n] be_val_bytes [of n] length_be_bytes [of n 4] by (auto simp: b_def)
    have e: "der_len n = of_nat (128 + length b) # b" using False by (simp add: der_len_def Let_def flip: b_def)
    have u: "unat (of_nat (128 + length b) :: 8 word) = 128 + length b" by (subst unat_of_nat_byte, rule mod_less) (use b(4) in simp)
    have d2: "drop (off + 2) buf = b @ r" using d e by (metis add_2_eq_Suc' Suc_eq_plus1 append_Cons drop_Suc tl_drop list.sel(3))
    then have "buf ! (off + 2) = hd b" using b(1) at(2) e
      by (metis hd_append2 hd_drop_conv_nth drop_eq_Nil append_is_Nil_conv linorder_not_le)
    with at e u b d2 False show ?thesis by (simp add: der_length_def Let_def del: unat_of_nat_byte of_nat_add)
  qed
qed

text \<open>The reader, read back: what it accepts are the bytes of the writer.\<close>

lemma drop_Suc_nth: "off < length buf \<Longrightarrow> drop off buf = buf ! off # drop (off + 1) buf"
  by (simp add: Cons_nth_drop_Suc)

lemma der_length_read:
  assumes "der_length buf off = Inr (n, h)" "off + 2 \<le> length buf"
  shows "n < 2 ^ 32 \<and> h = 1 + length (der_len n) \<and> off + h \<le> length buf \<and> take (h - 1) (drop (off + 1) buf) = der_len n"
proof (cases "unat (buf ! (off + 1)) < 128")
  case True
  with assms(1) have n: "n = unat (buf ! (off + 1))" "h = 2" by (simp_all add: der_length_def)
  moreover have "(of_nat n :: 8 word) = buf ! (off + 1)" by (simp add: n)
  ultimately show ?thesis using True assms(2) drop_Suc_nth [of "off + 1" buf] by (simp add: der_len_def)
next
  case False
  define k where "k = unat (buf ! (off + 1)) - 128"
  define bs where "bs = take k (drop (off + 2) buf)"
  from assms(1) False have c: "k \<noteq> 0" "k \<le> 4" "off + 2 + k \<le> length buf" "buf ! (off + 2) \<noteq> 0" "128 \<le> be_val bs"
    and n: "n = be_val bs" "h = 2 + k"
    by (auto simp: der_length_def Let_def k_def bs_def split: if_splits)
  have l: "length bs = k" using c(3) by (simp add: bs_def)
  have hd: "hd bs = buf ! (off + 2)" using c(1,3) by (simp add: bs_def hd_drop_conv_nth)
  from be_bytes_val [of bs] l hd c have e: "be_bytes n = bs" by (auto simp: n)
  have lt: "n < 2 ^ 32"
    using be_val_less [of bs] power_increasing [of k 4 "256::nat"] c(2) l by (simp add: n)
  have "of_nat (128 + k) = buf ! (off + 1)" using False by (simp add: k_def)
  then have d: "der_len n = buf ! (off + 1) # bs" using c(5) n(1) e l by (simp add: der_len_def Let_def)
  have "take (h - 1) (drop (off + 1) buf) = buf ! (off + 1) # bs"
    using drop_Suc_nth [of "off + 1" buf] assms(2) by (simp add: n(2) bs_def)
  with d lt l n(2) c(3) show ?thesis by simp
qed

definition node_at :: "octets \<Rightarrow> nat \<Rightarrow> nat \<Rightarrow> octets \<Rightarrow> der_node \<Rightarrow> bool" where
  "node_at buf off tag body c \<longleftrightarrow> dn_tag c = tag \<and> dn_off c = off \<and> dn_end c = off + length (der_tlv tag body) \<and> dn_end c = dn_start c + length body
     \<and> dn_end c \<le> length buf \<and> node_body buf c = body"

lemma length_der_tlv: "length (der_tlv tag body) = 1 + length (der_len (length body)) + length body"
  by (simp add: der_tlv_def)

lemma der_tlv_written:
  assumes "drop off buf = der_tlv tag body @ r" "length body < 2 ^ 32" "tag < 256"
  shows "\<exists>c. der_tlv_at buf off = Inr c \<and> node_at buf off tag body c"
proof -
  have "drop off buf \<noteq> []" by (simp add: assms(1) der_tlv_def)
  then have off: "off < length buf" by simp
  have l: "length buf = off + length (der_tlv tag body) + length r"
    using arg_cong [OF assms(1), of length] off by simp
  have len: "der_length buf off = Inr (length body, 1 + length (der_len (length body)))"
    using der_length_written [OF assms(2) _ off] assms(1) by (simp add: der_tlv_def)
  have tag: "buf ! off = of_nat tag" using assms(1) off drop_Suc_nth [OF off] by (simp add: der_tlv_def)
  have "drop (off + (1 + length (der_len (length body)))) buf = body @ r"
    using arg_cong [OF assms(1), of "drop (1 + length (der_len (length body)))"] by (simp add: der_tlv_def add.commute)
  with len tag l assms(3) length_der_len [OF assms(2)] show ?thesis
    by (simp add: der_tlv_at_def node_at_def node_body_def length_der_tlv)
qed

lemma der_tlv_read:
  assumes "der_tlv_at buf off = Inr c"
  shows "dn_tag c < 256 \<and> length (node_body buf c) < 2 ^ 32 \<and> node_at buf off (dn_tag c) (node_body buf c) c
    \<and> node_raw buf c = der_tlv (dn_tag c) (node_body buf c)"
proof -
  from assms obtain n h where l: "der_length buf off = Inr (n, h)" "off + 2 \<le> length buf" "n \<le> length buf - (off + h)"
    and c: "c = \<lparr>dn_tag = unat (buf ! off), dn_off = off, dn_start = off + h, dn_end = off + h + n\<rparr>"
    by (auto simp: der_tlv_at_def split: if_splits)
  note r = der_length_read [OF l(1,2)]
  have b: "node_body buf c = take n (drop (off + h) buf)" "length (node_body buf c) = n" using l(3) r by (auto simp: c node_body_def)
  have h: "1 \<le> h" using r by simp
  then obtain k where k: "h = Suc k" by (cases h) auto
  have "take (h - 1 + n) (drop (off + 1) buf) = take (h - 1) (drop (off + 1) buf) @ take n (drop (off + h) buf)"
    by (simp add: k take_add add.commute)
  then have "take (h + n) (drop off buf) = buf ! off # der_len n @ take n (drop (off + h) buf)"
    using r h l(2) drop_Suc_nth [of off buf] by (cases h) auto
  moreover have "of_nat (unat (buf ! off)) = buf ! off" by simp
  ultimately have t: "take (h + n) (drop off buf) = der_tlv (unat (buf ! off)) (node_body buf c)"
    using b by (simp add: der_tlv_def)
  have "length (der_tlv (unat (buf ! off)) (node_body buf c)) = h + n" using r b(2) by (simp add: length_der_tlv)
  moreover have "off + h + n \<le> length buf" using l(3) r by linarith
  ultimately show ?thesis using t b r unat_byte_less by (simp add: node_at_def node_raw_def c add.assoc)
qed

section \<open>Sequences of elements\<close>

definition put_items :: "(nat \<times> octets) list \<Rightarrow> octets" where
  "put_items xs = concat (map (\<lambda>(tag, body). der_tlv tag body) xs)"

definition items :: "octets \<Rightarrow> der_node list \<Rightarrow> (nat \<times> octets) list" where
  "items buf cs = map (\<lambda>c. (dn_tag c, node_body buf c)) cs"

lemma put_items_simps [simp]:
  "put_items [] = []" "put_items ((tag, body) # xs) = der_tlv tag body @ put_items xs" "put_items (xs @ ys) = put_items xs @ put_items ys"
  by (simp_all add: put_items_def)

lemma items_simps [simp]: "items buf [] = []" "items buf (c # cs) = (dn_tag c, node_body buf c) # items buf cs" "items buf (cs @ ds) = items buf cs @ items buf ds"
  by (simp_all add: items_def)

lemma length_items [simp]: "length (items buf cs) = length cs"
  by (simp add: items_def)

text \<open>What the reader takes apart is what the writer puts together again, and there are no other bytes.\<close>

lemma kids_from_read:
  "kids_from buf e off out = Inr cs \<Longrightarrow> off \<le> e \<Longrightarrow> length out \<le> 32
   \<Longrightarrow> \<exists>ds. cs = out @ ds \<and> length cs \<le> 32 \<and> take (e - off) (drop off buf) = put_items (items buf ds)
     \<and> list_all (\<lambda>(tag, body). tag < 256 \<and> length body < 2 ^ 32) (items buf ds)
     \<and> list_all (\<lambda>c. off \<le> dn_start c \<and> dn_start c \<le> dn_end c \<and> dn_end c \<le> e
          \<and> node_raw buf c = der_tlv (dn_tag c) (node_body buf c)) ds"
proof (induction buf e off out arbitrary: cs rule: kids_from.induct)
  case (1 buf e off out)
  show ?case
  proof (cases "off < e")
    case False
    with 1 have "cs = out" "off = e" by (simp_all add: kids_from.simps)
    with 1 show ?thesis by simp
  next
    case True
    with 1(2) obtain c where c: "der_tlv_at buf off = Inr c" by (cases "der_tlv_at buf off") (simp_all add: kids_from.simps [of buf e off])
    with 1(2) True have g: "off < dn_end c" "dn_end c \<le> e" "length (out @ [c]) \<le> 32"
      and r: "kids_from buf e (dn_end c) (out @ [c]) = Inr cs"
      by (auto simp: kids_from.simps [of buf e off] MAX_KIDS_def split: if_splits)
    note t = der_tlv_read [OF c]
    from 1(1) [OF True c _ _ r] g obtain ds where ds: "cs = (out @ [c]) @ ds" "length cs \<le> 32"
      "take (e - dn_end c) (drop (dn_end c) buf) = put_items (items buf ds)"
      "list_all (\<lambda>(tag, body). tag < 256 \<and> length body < 2 ^ 32) (items buf ds)"
      "list_all (\<lambda>c'. dn_end c \<le> dn_start c' \<and> dn_start c' \<le> dn_end c' \<and> dn_end c' \<le> e
          \<and> node_raw buf c' = der_tlv (dn_tag c') (node_body buf c')) ds"
      by (auto simp: MAX_KIDS_def)
    have "e - off = (dn_end c - off) + (e - dn_end c)" using g by simp
    then have "take (e - off) (drop off buf) = node_raw buf c @ take (e - dn_end c) (drop (dn_end c) buf)"
      using g(1) t unfolding node_raw_def node_at_def by (simp only: take_add drop_drop) (simp add: add.commute)
    moreover have "off \<le> dn_start c" "dn_start c \<le> dn_end c"
      using t by (auto simp: node_at_def length_der_tlv)
    ultimately show ?thesis using ds t g
      by (intro exI [of _ "c # ds"]) (auto simp: list_all_iff intro: order_trans)
  qed
qed

lemma kids_from_written:
  assumes "drop off buf = put_items xs @ r" "e = off + length (put_items xs)" "off + length (put_items xs @ r) = length buf"
    "list_all (\<lambda>(tag, body). tag < 256 \<and> length body < 2 ^ 32) xs" "length out + length xs \<le> 32"
  shows "\<exists>ds. kids_from buf e off out = Inr (out @ ds) \<and> items buf ds = xs
    \<and> list_all (\<lambda>c. dn_start c + length (node_body buf c) = dn_end c \<and> dn_end c \<le> length buf
      \<and> node_raw buf c = der_tlv (dn_tag c) (node_body buf c)) ds"
  using assms
proof (induction xs arbitrary: off out)
  case Nil
  then show ?case by (simp add: kids_from.simps)
next
  case (Cons x xs)
  obtain tag body where x: "x = (tag, body)" by (cases x)
  from Cons.prems(1) x have d: "drop off buf = der_tlv tag body @ put_items xs @ r" by simp
  with Cons.prems(4) x obtain c where c: "der_tlv_at buf off = Inr c" "node_at buf off tag body c"
    using der_tlv_written [OF d] by auto
  have pos: "0 < length (der_tlv tag body)" by (simp add: length_der_tlv)
  have en: "dn_end c = off + length (der_tlv tag body)" using c(2) by (simp add: node_at_def)
  have d': "drop (dn_end c) buf = put_items xs @ r"
    using arg_cong [OF d, of "drop (length (der_tlv tag body))"] by (simp add: en add.commute)
  obtain ds where ds: "kids_from buf e (dn_end c) (out @ [c]) = Inr ((out @ [c]) @ ds)" "items buf ds = xs"
    "list_all (\<lambda>c. dn_start c + length (node_body buf c) = dn_end c \<and> dn_end c \<le> length buf
      \<and> node_raw buf c = der_tlv (dn_tag c) (node_body buf c)) ds"
    using Cons.IH [OF d', of "out @ [c]"] Cons.prems x en by auto
  have "kids_from buf e off out = Inr (out @ c # ds)"
    using c(1) ds(1) Cons.prems(2,5) x pos en by (subst kids_from.simps) (simp add: MAX_KIDS_def)
  moreover have "node_raw buf c = der_tlv (dn_tag c) (node_body buf c)" using der_tlv_read [OF c(1)] by simp
  ultimately show ?case using ds c(2) x by (intro exI [of _ "c # ds"]) (simp add: node_at_def)
qed

lemma der_kids_read:
  assumes "der_kids buf t d = Inr cs" "dn_start t \<le> dn_end t"
  shows "length cs \<le> 32 \<and> node_body buf t = put_items (items buf cs)
    \<and> list_all (\<lambda>(tag, body). tag < 256 \<and> length body < 2 ^ 32) (items buf cs)
    \<and> list_all (\<lambda>c. dn_start t \<le> dn_start c \<and> dn_start c \<le> dn_end c \<and> dn_end c \<le> dn_end t
        \<and> node_raw buf c = der_tlv (dn_tag c) (node_body buf c)) cs"
  using kids_from_read [of buf "dn_end t" "dn_start t" "[]" cs] assms
  by (auto simp: der_kids_def node_body_def list_all_iff split: if_splits)

lemma der_kids_written:
  assumes "node_body buf t = put_items xs" "dn_start t + length (put_items xs) = dn_end t" "dn_end t \<le> length buf"
    "list_all (\<lambda>(tag, body). tag < 256 \<and> length body < 2 ^ 32) xs" "length xs \<le> 32" "d \<le> 16"
  shows "\<exists>cs. der_kids buf t d = Inr cs \<and> items buf cs = xs
    \<and> list_all (\<lambda>c. dn_start c + length (node_body buf c) = dn_end c \<and> dn_end c \<le> length buf
        \<and> node_raw buf c = der_tlv (dn_tag c) (node_body buf c)) cs"
proof -
  have "drop (dn_start t) buf = put_items xs @ drop (dn_end t) buf"
    using assms(1,2) append_take_drop_id [of "dn_end t - dn_start t" "drop (dn_start t) buf"]
    by (simp add: node_body_def)
  from kids_from_written [OF this assms(2) [symmetric] _ assms(4), of "[]"] assms(2,3,5,6) show ?thesis
    by (simp add: der_kids_def MAX_DEPTH_def)
qed

section \<open>Identifiers\<close>

lemma arcs_from_rest: "arcs_from 0 (arc_rest x @ bs) = arcs_from x bs"
proof (induction x arbitrary: bs rule: arc_rest.induct)
  case (1 x)
  show ?case
  proof (cases "x = 0")
    case True
    then show ?thesis by (simp add: arc_rest.simps [of 0])
  next
    case False
    have "arcs_from 0 (arc_rest x @ bs) = arcs_from (x div 128) (of_nat (x mod 128 + 128) # bs)"
      using 1 [OF False, of "of_nat (x mod 128 + 128) # bs"] False by (subst arc_rest.simps) simp
    also have "unat (of_nat (x mod 128 + 128) :: 8 word) = x mod 128 + 128"
      by (subst unat_of_nat_byte, rule mod_less) (simp add: pos_mod_bound less_diff_conv)
    then have "arcs_from (x div 128) (of_nat (x mod 128 + 128) # bs) = arcs_from x bs"
      by (simp only: arcs_from.simps Let_def) (simp del: unat_of_nat_byte of_nat_add)
    finally show ?thesis .
  qed
qed

lemma arcs_from_arc: "arcs_from 0 (arc_bytes v @ bs) = v # arcs_from 0 bs"
proof -
  have u: "unat (of_nat (v mod 128) :: 8 word) = v mod 128" by (simp add: less_trans [of _ 128])
  show ?thesis unfolding arc_bytes_def append_assoc arcs_from_rest
    by (simp only: append.simps arcs_from.simps Let_def u) simp
qed

lemma oid_written: "40 * a + b < 256 \<Longrightarrow> b < 40 \<Longrightarrow> oid_of (oid_body (a # b # arcs)) = Some (a # b # arcs)"
proof -
  assume ab: "40 * a + b < 256" "b < 40"
  have "arcs_from 0 (concat (map arc_bytes arcs)) = arcs" by (induction arcs) (simp_all add: arcs_from_arc)
  moreover have "unat (of_nat (40 * a + b) :: 8 word) = 40 * a + b" using ab(1) by (subst unat_of_nat_byte, simp)
  ultimately show ?thesis using ab
    by (simp add: oid_of_def oid_body_def del: unat_of_nat_byte of_nat_add of_nat_mult)
qed

end
