(* ===== verification/Cert_Requests.thy ===== *)
theory Cert_Requests
  imports Der_Codec Dns_Wire Domain_Service
begin

text \<open>
  What the relay certifies (\<open>relay/certs.js\<close>): which names may be asked for (\<open>authorizeName\<close>,
  \<open>rowForLabel\<close>) and which certificate requests are accepted (\<open>parseCsr\<close>), with the request an enclave
  builds (\<open>buildCsr\<close> of \<open>supervisor.js\<close>). Base64, the keys and signatures of \<open>node:crypto\<close> and SHA-256
  are the argument \<open>K\<close>.
\<close>

section \<open>Names\<close>

definition drop_star :: "string \<Rightarrow> string" where
  "drop_star s = (case strip_prefix ''*.'' s of Some r \<Rightarrow> r | None \<Rightarrow> (case strip_prefix ''.'' s of Some r \<Rightarrow> r | None \<Rightarrow> s))"

definition cert_zone :: "string option \<Rightarrow> string" where
  "cert_zone raw = drop_dots (dropWhile (\<lambda>c. c = CHR ''.'') (drop_star (to_lower (env_text raw))))"

definition cert_zones :: "string option \<Rightarrow> string option \<Rightarrow> string list" where
  "cert_zones app tcp = filter (\<lambda>z. z \<noteq> []) [cert_zone app, cert_zone tcp]"

definition label_to_id :: "string \<Rightarrow> string option" where
  "label_to_id label =
     (let l = to_lower label; hex = (case strip_prefix ''0x'' l of Some r \<Rightarrow> r | None \<Rightarrow> l)
      in if hex_str 8 64 hex then Some (''0x'' @ hex) else None)"

datatype name_error = BadName | UnknownDomain | NotPlatformZone | BadCertLabel

record cert_name =
  cn_name :: string
  cn_zone :: "string option"
  cn_label :: string
  cn_id :: string
  cn_txt :: string

definition cert_name_char :: "char \<Rightarrow> bool" where
  "cert_name_char c \<longleftrightarrow> c \<in> set ''abcdefghijklmnopqrstuvwxyz0123456789.-''"

text \<open>\<open>customOf\<close> is the deployment a routed custom domain belongs to.\<close>

definition authorize_name :: "dom_cfg \<Rightarrow> string list \<Rightarrow> (string \<Rightarrow> string option) \<Rightarrow> string \<Rightarrow> name_error + cert_name" where
  "authorize_name C zones customOf raw =
     (let n = drop_dots (to_lower raw)
      in if n = [] \<or> 253 < length n \<or> \<not> list_all cert_name_char n then Inl BadName
         else if \<not> is_reserved_hostname C n
         then (let i = to_lower (case customOf n of Some i \<Rightarrow> i | None \<Rightarrow> [])
               in if \<not> dep_bytes32 i then Inl UnknownDomain
                  else Inr \<lparr>cn_name = n, cn_zone = None, cn_label = label_for i, cn_id = i, cn_txt = acme_alias_for C (label_for i)\<rparr>)
         else case find (\<lambda>z. suffix (''.'' @ z) n) zones of
           None \<Rightarrow> Inl NotPlatformZone
         | Some z \<Rightarrow>
             (let label = take (length n - (length z + 1)) n
              in if label = [] \<or> CHR ''.'' \<in> set label then Inl BadCertLabel
                 else case label_to_id label of
                   None \<Rightarrow> Inl BadCertLabel
                 | Some i \<Rightarrow> Inr \<lparr>cn_name = n, cn_zone = Some z, cn_label = label, cn_id = i, cn_txt = ''_acme-challenge.'' @ n\<rparr>))"

definition row_for_label :: "owned_row list \<Rightarrow> string \<Rightarrow> owned_row option" where
  "row_for_label rows i =
     (case filter (\<lambda>d. prefix (to_lower i) (to_lower (ow_id d))) rows of [d] \<Rightarrow> Some d | _ \<Rightarrow> None)"

section \<open>The certificate request\<close>

datatype key_info = EcKey string | RsaKey nat | OtherKey string

record csr_crypto =
  ck_decode :: "string \<Rightarrow> octets"
  ck_encode :: "octets \<Rightarrow> string"
  ck_key :: "octets \<Rightarrow> key_info option"
  ck_verify :: "bool \<Rightarrow> octets \<Rightarrow> octets \<Rightarrow> octets \<Rightarrow> bool option"
  ck_hash :: "octets \<Rightarrow> string"

datatype csr_error = DerBad der_error | NotPem | CsrSize | NotOneSequence | NotARequest | NotFourParts | BadVersion | BadSubject
  | NotExactlyCn | CnType | CnDiffers | BadSpki | UnreadableKey | EcNotP256 | RsaTooShort | KeyNotAccepted | BadAttributes
  | NotOneAttribute | NotExtensionRequest | NotOneExtensions | NotOneExtension | NotSubjectAltName | BadSanExtension
  | BadGeneralNames | NotOneDnsName | SanDiffers | BadBitString | AlgorithmNotAccepted | SignatureThrows | SignatureFails

record csr_info =
  ci_der :: octets
  ci_spki :: octets
  ci_hash :: string
  ci_key :: key_info

definition OID_CN :: "nat list" where "OID_CN = [2, 5, 4, 3]"
definition OID_EXT_REQ :: "nat list" where "OID_EXT_REQ = [1, 2, 840, 113549, 1, 9, 14]"
definition OID_SAN :: "nat list" where "OID_SAN = [2, 5, 29, 17]"
definition OID_ECDSA256 :: "nat list" where "OID_ECDSA256 = [1, 2, 840, 10045, 4, 3, 2]"
definition OID_ECDSA384 :: "nat list" where "OID_ECDSA384 = [1, 2, 840, 10045, 4, 3, 3]"
definition OID_RSA256 :: "nat list" where "OID_RSA256 = [1, 2, 840, 113549, 1, 1, 11]"
definition OID_RSA384 :: "nat list" where "OID_RSA384 = [1, 2, 840, 113549, 1, 1, 12]"

definition lift_der :: "der_error + 'a \<Rightarrow> csr_error + 'a" where
  "lift_der r = (case r of Inl e \<Rightarrow> Inl (DerBad e) | Inr x \<Rightarrow> Inr x)"

text \<open>
  \<open>toString("utf8").toLowerCase()\<close> where it is ASCII; the Kelvin sign is the one other character whose
  lower case is.
\<close>

fun lower_utf8 :: "octets \<Rightarrow> string option" where
  "lower_utf8 [] = Some []"
| "lower_utf8 (b # bs) =
     (if unat b < 128 then map_option (\<lambda>s. lower_char (char_of (unat b)) # s) (lower_utf8 bs)
      else if take 3 (b # bs) = [0xe2, 0x84, 0xaa] then map_option (\<lambda>s. CHR ''k'' # s) (lower_utf8 (drop 2 bs))
      else None)"

fun after_mark :: "string list \<Rightarrow> string \<Rightarrow> string option" where
  "after_mark marks s =
     (case find (\<lambda>m. prefix m s) marks of
        Some m \<Rightarrow> Some (drop (length m) s)
      | None \<Rightarrow> (case s of [] \<Rightarrow> None | c # r \<Rightarrow> after_mark marks r))"

fun until_mark :: "string list \<Rightarrow> string \<Rightarrow> string option" where
  "until_mark marks s =
     (if list_ex (\<lambda>m. prefix m s) marks then Some []
      else case s of [] \<Rightarrow> None | c # r \<Rightarrow> map_option (\<lambda>t. c # t) (until_mark marks r))"

declare after_mark.simps [simp del] until_mark.simps [simp del]

definition PEM_BEGIN :: "string list" where
  "PEM_BEGIN = [''-----BEGIN NEW CERTIFICATE REQUEST-----'', ''-----BEGIN CERTIFICATE REQUEST-----'']"

definition PEM_END :: "string list" where
  "PEM_END = [''-----END NEW CERTIFICATE REQUEST-----'', ''-----END CERTIFICATE REQUEST-----'']"

definition pem_body :: "string \<Rightarrow> string option" where
  "pem_body s = Option.bind (after_mark PEM_BEGIN s) (until_mark PEM_END)"

text \<open>The subject: one relative name with one attribute, the common name asked for.\<close>

definition check_subject :: "octets \<Rightarrow> der_node \<Rightarrow> string \<Rightarrow> csr_error + unit" where
  "check_subject der subject name =
     and_then (reject_if (dn_tag subject \<noteq> 0x30) BadSubject) (\<lambda>_.
     and_then (lift_der (der_kids der subject 2)) (\<lambda>rdns. case rdns of
       [rdn] \<Rightarrow>
         and_then (reject_if (dn_tag rdn \<noteq> 0x31) NotExactlyCn) (\<lambda>_.
         and_then (lift_der (der_kids der rdn 3)) (\<lambda>avas. case avas of
           [ava] \<Rightarrow>
             and_then (reject_if (dn_tag ava \<noteq> 0x30) NotExactlyCn) (\<lambda>_.
             and_then (lift_der (der_kids der ava 4)) (\<lambda>parts. case parts of
               atype # aval # xs \<Rightarrow>
                 and_then (reject_if (dn_tag atype \<noteq> 0x06 \<or> oid_of (node_body der atype) \<noteq> Some OID_CN) NotExactlyCn) (\<lambda>_.
                 and_then (reject_if (dn_tag aval \<notin> {0x0c, 0x13, 0x16}) CnType) (\<lambda>_.
                 reject_if (lower_utf8 (node_body der aval) \<noteq> Some name) CnDiffers))
             | _ \<Rightarrow> Inl NotExactlyCn))
         | _ \<Rightarrow> Inl NotExactlyCn))
     | _ \<Rightarrow> Inl NotExactlyCn))"

definition check_key :: "csr_crypto \<Rightarrow> octets \<Rightarrow> der_node \<Rightarrow> csr_error + key_info" where
  "check_key K der spki =
     and_then (reject_if (dn_tag spki \<noteq> 0x30) BadSpki) (\<lambda>_.
     case ck_key K (node_raw der spki) of
       None \<Rightarrow> Inl UnreadableKey
     | Some (EcKey curve) \<Rightarrow> if curve = ''prime256v1'' then Inr (EcKey curve) else Inl EcNotP256
     | Some (RsaKey bits) \<Rightarrow> if 2048 \<le> bits then Inr (RsaKey bits) else Inl RsaTooShort
     | Some (OtherKey t) \<Rightarrow> Inl KeyNotAccepted)"

text \<open>The value of the extension: one name, a DNS name, the one asked for.\<close>

definition check_general_names :: "octets \<Rightarrow> string \<Rightarrow> csr_error + unit" where
  "check_general_names val name =
     and_then (lift_der (der_tlv_at val 0)) (\<lambda>gn.
     and_then (reject_if (dn_tag gn \<noteq> 0x30 \<or> dn_end gn \<noteq> length val) BadGeneralNames) (\<lambda>_.
     and_then (lift_der (der_kids val gn 7)) (\<lambda>names. case names of
       [n] \<Rightarrow> and_then (reject_if (dn_tag n \<noteq> 0x82) NotOneDnsName) (\<lambda>_.
                reject_if (to_lower (ascii_of (node_body val n)) \<noteq> name) SanDiffers)
     | _ \<Rightarrow> Inl NotOneDnsName)))"

definition check_extension :: "octets \<Rightarrow> der_node list \<Rightarrow> string \<Rightarrow> csr_error + unit" where
  "check_extension der parts name =
     (case parts of
        [] \<Rightarrow> Inl NotSubjectAltName
      | p0 # xs \<Rightarrow>
          and_then (reject_if (dn_tag p0 \<noteq> 0x06 \<or> oid_of (node_body der p0) \<noteq> Some OID_SAN) NotSubjectAltName) (\<lambda>_.
          let v = last parts
          in and_then (reject_if (dn_tag v \<noteq> 0x04 \<or> 3 < length parts) BadSanExtension) (\<lambda>_.
             and_then (reject_if (length parts = 3 \<and> dn_tag (parts ! 1) \<noteq> 0x01) BadSanExtension) (\<lambda>_.
             check_general_names (node_body der v) name))))"

definition check_attributes :: "octets \<Rightarrow> der_node \<Rightarrow> string \<Rightarrow> csr_error + unit" where
  "check_attributes der attrs name =
     and_then (reject_if (dn_tag attrs \<noteq> 0xa0) BadAttributes) (\<lambda>_.
     and_then (lift_der (der_kids der attrs 2)) (\<lambda>as. case as of
       [a] \<Rightarrow>
         and_then (reject_if (dn_tag a \<noteq> 0x30) NotOneAttribute) (\<lambda>_.
         and_then (lift_der (der_kids der a 3)) (\<lambda>parts. case parts of
           aOid # aSet # xs \<Rightarrow>
             and_then (reject_if (dn_tag aOid \<noteq> 0x06 \<or> oid_of (node_body der aOid) \<noteq> Some OID_EXT_REQ \<or> dn_tag aSet \<noteq> 0x31)
                NotExtensionRequest) (\<lambda>_.
             and_then (lift_der (der_kids der aSet 4)) (\<lambda>ls. case ls of
               [l] \<Rightarrow>
                 and_then (reject_if (dn_tag l \<noteq> 0x30) NotOneExtensions) (\<lambda>_.
                 and_then (lift_der (der_kids der l 5)) (\<lambda>exts. case exts of
                   [x] \<Rightarrow>
                     and_then (reject_if (dn_tag x \<noteq> 0x30) NotOneExtension) (\<lambda>_.
                     and_then (lift_der (der_kids der x 6)) (\<lambda>eps. check_extension der eps name))
                 | _ \<Rightarrow> Inl NotOneExtension))
             | _ \<Rightarrow> Inl NotOneExtensions))
         | _ \<Rightarrow> Inl NotExtensionRequest))
     | _ \<Rightarrow> Inl NotOneAttribute))"

definition check_signature :: "csr_crypto \<Rightarrow> octets \<Rightarrow> key_info \<Rightarrow> octets \<Rightarrow> octets \<Rightarrow> der_node \<Rightarrow> der_node \<Rightarrow> csr_error + unit" where
  "check_signature K der key spki cri sigAlg sigBits =
     and_then (lift_der (der_kids der sigAlg 1)) (\<lambda>algs.
     let alg = (case algs of a # xs \<Rightarrow> if dn_tag a = 0x06 then oid_of (node_body der a) else None | [] \<Rightarrow> None);
         bits = node_body der sigBits; sig = drop 1 bits;
         verdict = (\<lambda>long. case ck_verify K long spki cri sig of
             None \<Rightarrow> Inl SignatureThrows | Some ok \<Rightarrow> if ok then Inr () else Inl SignatureFails)
     in and_then (reject_if (\<not> (1 < length bits \<and> bits ! 0 = 0)) BadBitString) (\<lambda>_.
        if alg = Some OID_ECDSA256 \<or> alg = Some OID_ECDSA384
        then (case key of EcKey c \<Rightarrow> verdict (alg = Some OID_ECDSA384) | _ \<Rightarrow> Inl SignatureThrows)
        else if alg = Some OID_RSA256 \<or> alg = Some OID_RSA384
        then (case key of RsaKey n \<Rightarrow> verdict (alg = Some OID_RSA384) | _ \<Rightarrow> Inl SignatureThrows)
        else Inl AlgorithmNotAccepted))"

definition check_request :: "csr_crypto \<Rightarrow> octets \<Rightarrow> der_node \<Rightarrow> der_node \<Rightarrow> der_node \<Rightarrow> string \<Rightarrow> csr_error + csr_info" where
  "check_request K der cri sigAlg sigBits name =
     and_then (reject_if (\<not> (dn_tag cri = 0x30 \<and> dn_tag sigAlg = 0x30 \<and> dn_tag sigBits = 0x03)) NotARequest) (\<lambda>_.
     and_then (lift_der (der_kids der cri 1)) (\<lambda>parts. case parts of
       [ver, subject, spki, attrs] \<Rightarrow>
         and_then (reject_if (\<not> (dn_tag ver = 0x02 \<and> node_body der ver = [0])) BadVersion) (\<lambda>_.
         and_then (check_subject der subject name) (\<lambda>_.
         and_then (check_key K der spki) (\<lambda>key.
         and_then (check_attributes der attrs name) (\<lambda>_.
         and_then (check_signature K der key (node_raw der spki) (node_raw der cri) sigAlg sigBits) (\<lambda>_.
         Inr \<lparr>ci_der = der, ci_spki = node_raw der spki, ci_hash = ck_hash K (node_raw der spki), ci_key = key\<rparr>)))))
     | _ \<Rightarrow> Inl NotFourParts))"

definition parse_csr_der :: "csr_crypto \<Rightarrow> octets \<Rightarrow> string \<Rightarrow> csr_error + csr_info" where
  "parse_csr_der K der name =
     and_then (reject_if (der = [] \<or> 8192 < length der) CsrSize) (\<lambda>_.
     and_then (lift_der (der_tlv_at der 0)) (\<lambda>top.
     and_then (reject_if (dn_tag top \<noteq> 0x30 \<or> dn_end top \<noteq> length der) NotOneSequence) (\<lambda>_.
     and_then (lift_der (der_kids der top 0)) (\<lambda>ks. case ks of
       cri # sigAlg # sigBits # xs \<Rightarrow> check_request K der cri sigAlg sigBits name
     | _ \<Rightarrow> Inl NotARequest))))"

definition parse_csr :: "csr_crypto \<Rightarrow> string \<Rightarrow> string \<Rightarrow> csr_error + csr_info" where
  "parse_csr K pem name =
     (case pem_body pem of
        None \<Rightarrow> Inl NotPem
      | Some body \<Rightarrow> parse_csr_der K (ck_decode K (filter (\<lambda>c. \<not> is_space c) body)) name)"

section \<open>The request an enclave builds\<close>

definition csr_attr :: "octets \<Rightarrow> octets" where
  "csr_attr san = der_seq [der_oid OID_EXT_REQ, der_set [der_seq [der_seq [der_oid OID_SAN, der_octet (der_seq [der_ctx 2 False san])]]]]"

definition csr_cri :: "octets \<Rightarrow> string \<Rightarrow> octets" where
  "csr_cri spki name =
     der_seq [der_int0, der_seq [der_set [der_seq [der_oid OID_CN, der_utf8 (latin1_bytes name)]]], spki, der_ctx 0 True (csr_attr (latin1_bytes name))]"

definition csr_der :: "(octets \<Rightarrow> octets) \<Rightarrow> octets \<Rightarrow> string \<Rightarrow> octets" where
  "csr_der sign spki name = der_seq [csr_cri spki name, der_seq [der_oid OID_ECDSA256], der_bits (sign (csr_cri spki name))]"

fun chunks64 :: "string \<Rightarrow> string list" where
  "chunks64 s = (if s = [] then [] else take 64 s # chunks64 (drop 64 s))"

declare chunks64.simps [simp del]

definition pem_wrap :: "csr_crypto \<Rightarrow> string \<Rightarrow> octets \<Rightarrow> string" where
  "pem_wrap K label der = ''-----BEGIN '' @ label @ ''-----'' @ newline # join_lines (chunks64 (ck_encode K der))
     @ newline # ''-----END '' @ label @ ''-----'' @ [newline]"

definition build_csr :: "csr_crypto \<Rightarrow> (octets \<Rightarrow> octets) \<Rightarrow> octets \<Rightarrow> string \<Rightarrow> string" where
  "build_csr K sign spki name = pem_wrap K ''CERTIFICATE REQUEST'' (csr_der sign spki name)"

section \<open>What an accepted request says\<close>

definition whole :: "octets \<Rightarrow> der_node \<Rightarrow> bool" where
  "whole buf t \<longleftrightarrow> dn_start t \<le> dn_end t \<and> node_raw buf t = der_tlv (dn_tag t) (node_body buf t)"

lemma whole_read: "der_tlv_at buf off = Inr c \<Longrightarrow> whole buf c"
  using der_tlv_read [of buf off c] by (auto simp: whole_def node_at_def)

lemma lift_der_Inr [simp]: "lift_der r = Inr x \<longleftrightarrow> r = Inr x"
  by (cases r) (simp_all add: lift_der_def)

lemma whole_kids:
  assumes "der_kids buf t d = Inr cs" "whole buf t"
  shows "node_body buf t = concat (map (node_raw buf) cs)" "list_all (whole buf) cs"
proof -
  from der_kids_read [OF assms(1)] assms(2) have k: "node_body buf t = put_items (items buf cs)"
    "list_all (\<lambda>c. dn_start c \<le> dn_end c \<and> node_raw buf c = der_tlv (dn_tag c) (node_body buf c)) cs"
    by (auto simp: whole_def list_all_iff)
  from k(2) have "put_items (items buf cs) = concat (map (node_raw buf) cs)"
    by (induction cs) simp_all
  with k show "node_body buf t = concat (map (node_raw buf) cs)" "list_all (whole buf) cs"
    by (simp_all add: whole_def list_all_iff)
qed

lemma whole_raw: "whole buf t \<Longrightarrow> node_raw buf t = der_tlv (dn_tag t) (node_body buf t)"
  by (simp add: whole_def)

definition subject_is :: "string \<Rightarrow> octets \<Rightarrow> bool" where
  "subject_is name s \<longleftrightarrow> (\<exists>oid tag cn tail. s = der_tlv 0x30 (der_tlv 0x31 (der_tlv 0x30 (der_tlv 0x06 oid @ der_tlv tag cn @ tail)))
     \<and> oid_of oid = Some OID_CN \<and> tag \<in> {0x0c, 0x13, 0x16} \<and> lower_utf8 cn = Some name)"

definition attributes_ask :: "string \<Rightarrow> octets \<Rightarrow> bool" where
  "attributes_ask name a \<longleftrightarrow> (\<exists>req oid critical san tail.
     a = der_tlv 0xa0 (der_tlv 0x30 (der_tlv 0x06 req @ der_tlv 0x31 (der_tlv 0x30 (der_tlv 0x30
           (der_tlv 0x06 oid @ critical @ der_tlv 0x04 (der_tlv 0x30 (der_tlv 0x82 san))))) @ tail))
     \<and> oid_of req = Some OID_EXT_REQ \<and> oid_of oid = Some OID_SAN \<and> to_lower (ascii_of san) = name
     \<and> (critical = [] \<or> (\<exists>b. critical = der_tlv 0x01 b)))"

text \<open>Destructuring that succeeds.\<close>

lemma case_lists_Inr:
  "(case ys of [x] \<Rightarrow> f x | _ \<Rightarrow> Inl e) = Inr r \<longleftrightarrow> (\<exists>x. ys = [x] \<and> f x = Inr r)"
  "(case ys of a # b # xs \<Rightarrow> g a b xs | _ \<Rightarrow> Inl e) = Inr r \<longleftrightarrow> (\<exists>a b xs. ys = a # b # xs \<and> g a b xs = Inr r)"
  "(case ys of a # b # c # xs \<Rightarrow> h a b c xs | _ \<Rightarrow> Inl e) = Inr r \<longleftrightarrow> (\<exists>a b c xs. ys = a # b # c # xs \<and> h a b c xs = Inr r)"
  "(case ys of [a, b, c, d] \<Rightarrow> k a b c d | _ \<Rightarrow> Inl e) = Inr r \<longleftrightarrow> (\<exists>a b c d. ys = [a, b, c, d] \<and> k a b c d = Inr r)"
  by (auto split: list.splits)

lemma check_subject_exact:
  assumes "check_subject der s name = Inr u" "whole der s"
  shows "subject_is name (node_raw der s)"
proof -
  from assms(1) obtain rdn where r: "dn_tag s = 0x30" "der_kids der s 2 = Inr [rdn]" "dn_tag rdn = 0x31"
    and "\<exists>ava. der_kids der rdn 3 = Inr [ava] \<and> dn_tag ava = 0x30
      \<and> (\<exists>ty v xs. der_kids der ava 4 = Inr (ty # v # xs) \<and> dn_tag ty = 0x06 \<and> oid_of (node_body der ty) = Some OID_CN
        \<and> dn_tag v \<in> {0x0c, 0x13, 0x16} \<and> lower_utf8 (node_body der v) = Some name)"
    by (auto simp: check_subject_def case_lists_Inr)
  then obtain ava ty v xs where a: "der_kids der rdn 3 = Inr [ava]" "dn_tag ava = 0x30" "der_kids der ava 4 = Inr (ty # v # xs)"
    "dn_tag ty = 0x06" "oid_of (node_body der ty) = Some OID_CN" "dn_tag v \<in> {0x0c, 0x13, 0x16}" "lower_utf8 (node_body der v) = Some name"
    by blast
  note w1 = whole_kids [OF r(2) assms(2)]
  then have "whole der rdn" by simp
  note w2 = whole_kids [OF a(1) this]
  then have "whole der ava" by simp
  note w3 = whole_kids [OF a(3) this]
  have "node_raw der s = der_tlv 0x30 (der_tlv 0x31 (der_tlv 0x30 (der_tlv 0x06 (node_body der ty) @ der_tlv (dn_tag v) (node_body der v)
      @ concat (map (node_raw der) xs))))"
    using assms(2) r a w1 w2 w3 by (simp add: whole_raw)
  with a show ?thesis unfolding subject_is_def by blast
qed

lemma check_general_names_exact:
  assumes "check_general_names val name = Inr u"
  shows "\<exists>san. val = der_tlv 0x30 (der_tlv 0x82 san) \<and> to_lower (ascii_of san) = name"
proof -
  from assms obtain gn n where g: "der_tlv_at val 0 = Inr gn" "dn_tag gn = 0x30" "dn_end gn = length val" "der_kids val gn 7 = Inr [n]"
    "dn_tag n = 0x82" "to_lower (ascii_of (node_body val n)) = name"
    by (auto simp: check_general_names_def case_lists_Inr)
  from der_tlv_read [OF g(1)] g(3) have o: "node_raw val gn = val" by (simp add: node_at_def node_raw_def)
  note w = whole_kids [OF g(4) whole_read [OF g(1)]]
  from o g w whole_raw [OF whole_read [OF g(1)]] have "val = der_tlv 0x30 (der_tlv 0x82 (node_body val n))" by (simp add: whole_raw)
  with g(6) show ?thesis by blast
qed

lemma check_extension_exact:
  assumes "check_extension der ps name = Inr u" "list_all (whole der) ps"
  shows "\<exists>oid critical san. concat (map (node_raw der) ps) = der_tlv 0x06 oid @ critical @ der_tlv 0x04 (der_tlv 0x30 (der_tlv 0x82 san))
    \<and> oid_of oid = Some OID_SAN \<and> to_lower (ascii_of san) = name \<and> (critical = [] \<or> (\<exists>b. critical = der_tlv 0x01 b))"
proof -
  from assms(1) obtain p0 qs where ps: "ps = p0 # qs" "dn_tag p0 = 0x06" "oid_of (node_body der p0) = Some OID_SAN"
    and v: "dn_tag (last ps) = 0x04" "length ps \<le> 3" "length ps = 3 \<Longrightarrow> dn_tag (ps ! 1) = 0x01"
    and n: "check_general_names (node_body der (last ps)) name = Inr u"
    by (auto simp: check_extension_def Let_def split: list.splits)
  from check_general_names_exact [OF n] obtain san where san: "node_body der (last ps) = der_tlv 0x30 (der_tlv 0x82 san)"
    "to_lower (ascii_of san) = name" by blast
  have "qs \<noteq> []" using ps(1,2) v(1) by auto
  with v(2) ps(1) consider q where "qs = [q]" | b q where "qs = [b, q]"
    by (cases qs; cases "tl qs"; cases "tl (tl qs)") auto
  then show ?thesis
  proof cases
    case 1
    then have "concat (map (node_raw der) ps) = der_tlv 0x06 (node_body der p0) @ [] @ der_tlv 0x04 (der_tlv 0x30 (der_tlv 0x82 san))"
      using ps v san assms(2) by (simp add: whole_raw)
    with ps(3) san(2) show ?thesis by blast
  next
    case 2
    then have "concat (map (node_raw der) ps) = der_tlv 0x06 (node_body der p0) @ der_tlv 0x01 (node_body der b) @ der_tlv 0x04 (der_tlv 0x30 (der_tlv 0x82 san))"
      using ps v san assms(2) by (simp add: whole_raw)
    with ps(3) san(2) show ?thesis by blast
  qed
qed

lemma check_attributes_exact:
  assumes "check_attributes der ats name = Inr u" "whole der ats"
  shows "attributes_ask name (node_raw der ats)"
proof -
  from assms(1) obtain a where a: "dn_tag ats = 0xa0" "der_kids der ats 2 = Inr [a]" "dn_tag a = 0x30"
    and "\<exists>ty st xs. der_kids der a 3 = Inr (ty # st # xs) \<and> dn_tag ty = 0x06 \<and> oid_of (node_body der ty) = Some OID_EXT_REQ \<and> dn_tag st = 0x31
      \<and> (\<exists>l. der_kids der st 4 = Inr [l] \<and> dn_tag l = 0x30 \<and> (\<exists>x. der_kids der l 5 = Inr [x] \<and> dn_tag x = 0x30
        \<and> (\<exists>ps. der_kids der x 6 = Inr ps \<and> check_extension der ps name = Inr u)))"
    by (auto simp: check_attributes_def case_lists_Inr)
  then obtain ty st xs l x ps where c: "der_kids der a 3 = Inr (ty # st # xs)" "dn_tag ty = 0x06" "oid_of (node_body der ty) = Some OID_EXT_REQ"
    "dn_tag st = 0x31" "der_kids der st 4 = Inr [l]" "dn_tag l = 0x30" "der_kids der l 5 = Inr [x]" "dn_tag x = 0x30" "der_kids der x 6 = Inr ps"
    "check_extension der ps name = Inr u" by blast
  note w1 = whole_kids [OF a(2) assms(2)]
  then have "whole der a" by simp
  note w2 = whole_kids [OF c(1) this]
  then have "whole der st" by simp
  note w3 = whole_kids [OF c(5) this]
  then have "whole der l" by simp
  note w4 = whole_kids [OF c(7) this]
  then have "whole der x" by simp
  note w5 = whole_kids [OF c(9) this]
  from check_extension_exact [OF c(10) w5(2)] obtain oid critical san where e: "concat (map (node_raw der) ps)
      = der_tlv 0x06 oid @ critical @ der_tlv 0x04 (der_tlv 0x30 (der_tlv 0x82 san))"
    "oid_of oid = Some OID_SAN" "to_lower (ascii_of san) = name" "critical = [] \<or> (\<exists>b. critical = der_tlv 0x01 b)" by blast
  have "node_raw der ats = der_tlv 0xa0 (der_tlv 0x30 (der_tlv 0x06 (node_body der ty) @ der_tlv 0x31 (der_tlv 0x30 (der_tlv 0x30
      (der_tlv 0x06 oid @ critical @ der_tlv 0x04 (der_tlv 0x30 (der_tlv 0x82 san))))) @ concat (map (node_raw der) xs)))"
    using assms(2) a c w1 w2 w3 w4 w5 e(1) by (simp add: whole_raw)
  with c(3) e(2-4) show ?thesis unfolding attributes_ask_def by blast
qed

definition good_key :: "key_info \<Rightarrow> bool" where
  "good_key k \<longleftrightarrow> k = EcKey ''prime256v1'' \<or> (\<exists>n. k = RsaKey n \<and> 2048 \<le> n)"

lemma check_key_exact: "check_key K der s = Inr k \<Longrightarrow> dn_tag s = 0x30 \<and> ck_key K (node_raw der s) = Some k \<and> good_key k"
  by (auto simp: check_key_def good_key_def split: option.splits key_info.splits if_splits)

lemma check_signature_exact:
  assumes "check_signature K der key spki cri al sg = Inr u"
  shows "\<exists>sig long. node_body der sg = 0 # sig \<and> ck_verify K long spki cri sig = Some True"
proof -
  from assms have b: "1 < length (node_body der sg)" "node_body der sg ! 0 = 0"
    and v: "\<exists>long. ck_verify K long spki cri (drop 1 (node_body der sg)) = Some True"
    by (auto simp: check_signature_def Let_def split: if_splits key_info.splits option.splits)
  from b have "node_body der sg = 0 # drop 1 (node_body der sg)" by (cases "node_body der sg") simp_all
  with v show ?thesis by blast
qed

text \<open>
  C32: A certificate request is accepted only when, apart from what may follow the parts that are read, its
  bytes are the canonical encoding of one common name and one DNS name that read as the name asked for, of a
  P-256 or RSA key of at least 2048 bits, and of a signature that key made over exactly these bytes; the
  hash the caller's signatures must cover is that of the key in the request.
\<close>

theorem accepted_requests_name_one_host:
  assumes "parse_csr_der K der name = Inr info"
  shows "\<exists>cri subject attrs alg sig tail long. der = der_tlv 0x30 (cri @ der_tlv 0x30 alg @ der_tlv 0x03 (0 # sig) @ tail)
      \<and> cri = der_tlv 0x30 (der_tlv 0x02 [0] @ subject @ ci_spki info @ attrs)
      \<and> subject_is name subject \<and> attributes_ask name attrs
      \<and> ck_key K (ci_spki info) = Some (ci_key info) \<and> good_key (ci_key info)
      \<and> ck_verify K long (ci_spki info) cri sig = Some True
      \<and> ci_hash info = ck_hash K (ci_spki info) \<and> ci_der info = der \<and> length der \<le> 8192"
proof -
  from assms obtain top cri al sg xs where t: "der_tlv_at der 0 = Inr top" "dn_tag top = 0x30" "dn_end top = length der"
      "der_kids der top 0 = Inr (cri # al # sg # xs)" "length der \<le> 8192" and q: "check_request K der cri al sg name = Inr info"
    by (auto simp: parse_csr_der_def not_less case_lists_Inr(3))
  from q obtain ver sb sp ats key where p: "dn_tag cri = 0x30" "dn_tag al = 0x30" "dn_tag sg = 0x03" "der_kids der cri 1 = Inr [ver, sb, sp, ats]"
      "dn_tag ver = 0x02" "node_body der ver = [0]" "check_subject der sb name = Inr ()" "check_key K der sp = Inr key"
      "check_attributes der ats name = Inr ()" "check_signature K der key (node_raw der sp) (node_raw der cri) al sg = Inr ()"
    and info: "info = \<lparr>ci_der = der, ci_spki = node_raw der sp, ci_hash = ck_hash K (node_raw der sp), ci_key = key\<rparr>"
    by (auto simp: check_request_def case_lists_Inr(4))
  have d: "node_raw der top = der" using der_tlv_read [OF t(1)] t(3) by (simp add: node_at_def node_raw_def)
  note w1 = whole_kids [OF t(4) whole_read [OF t(1)]]
  then have "whole der cri" by simp
  note w2 = whole_kids [OF p(4) this]
  obtain sig long where s: "node_body der sg = 0 # sig" "ck_verify K long (node_raw der sp) (node_raw der cri) sig = Some True"
    using check_signature_exact [OF p(10)] by blast
  have "der = der_tlv 0x30 (node_raw der cri @ der_tlv 0x30 (node_body der al) @ der_tlv 0x03 (0 # sig) @ concat (map (node_raw der) xs))"
    using d t(2) w1 p(2,3) s(1) whole_raw [OF whole_read [OF t(1)]] by (simp add: whole_raw)
  moreover have "node_raw der cri = der_tlv 0x30 (der_tlv 0x02 [0] @ node_raw der sb @ node_raw der sp @ node_raw der ats)"
    using w1 w2 p(1,5,6) by (simp add: whole_raw)
  moreover have "subject_is name (node_raw der sb)" using check_subject_exact [OF p(7)] w2 by simp
  moreover have "attributes_ask name (node_raw der ats)" using check_attributes_exact [OF p(9)] w2 by simp
  ultimately show ?thesis using check_key_exact [OF p(8)] s(2) t(5) unfolding info by fastforce
qed

section \<open>The request of an enclave is accepted\<close>

definition stands :: "octets \<Rightarrow> der_node \<Rightarrow> nat \<Rightarrow> octets \<Rightarrow> bool" where
  "stands buf c tag body \<longleftrightarrow> dn_tag c = tag \<and> node_body buf c = body \<and> dn_start c + length body = dn_end c \<and> dn_end c \<le> length buf
     \<and> node_raw buf c = der_tlv tag body"

lemma stands_body: "stands buf c tag body \<Longrightarrow> dn_tag c = tag \<and> node_body buf c = body \<and> node_raw buf c = der_tlv tag body"
  by (simp add: stands_def)

lemma put_items_small: "(tag, body) \<in> set xs \<Longrightarrow> length body \<le> length (put_items xs)"
  by (induction xs) (auto simp: length_der_tlv)

lemma kids_stand:
  assumes "stands buf t tag (put_items xs)" "list_all (\<lambda>(g, b). g < 256) xs" "length xs \<le> 32" "d \<le> 16" "length buf \<le> 8192"
  shows "\<exists>cs. der_kids buf t d = Inr cs \<and> list_all2 (\<lambda>c (g, b). stands buf c g b) cs xs"
proof -
  have "length (put_items xs) \<le> 8192" using assms(1,5) by (auto simp: stands_def)
  then have "list_all (\<lambda>(g, b). g < 256 \<and> length b < 2 ^ 32) xs"
    using assms(2) put_items_small [of _ _ xs] by (fastforce simp: list_all_iff)
  with der_kids_written [of buf t xs d] assms obtain cs where cs: "der_kids buf t d = Inr cs" "items buf cs = xs"
      "list_all (\<lambda>c. dn_start c + length (node_body buf c) = dn_end c \<and> dn_end c \<le> length buf \<and> node_raw buf c = der_tlv (dn_tag c) (node_body buf c)) cs"
    by (auto simp: stands_def)
  from cs(2,3) have "list_all2 (\<lambda>c (g, b). stands buf c g b) cs xs"
    by (auto simp: items_def stands_def list_all2_conv_all_nth list_all_length)
  with cs(1) show ?thesis by blast
qed

lemma kids_stand_1:
  assumes "stands buf t tag (der_tlv g b)" "g < 256" "d \<le> 16" "length buf \<le> 8192"
  obtains c where "der_kids buf t d = Inr [c]" "stands buf c g b"
  using kids_stand [of buf t tag "[(g, b)]" d] assms by (auto simp: list_all2_Cons2)

lemma kids_stand_2:
  assumes "stands buf t tag (der_tlv g b @ der_tlv g' b')" "g < 256" "g' < 256" "d \<le> 16" "length buf \<le> 8192"
  obtains c c' where "der_kids buf t d = Inr [c, c']" "stands buf c g b" "stands buf c' g' b'"
  using kids_stand [of buf t tag "[(g, b), (g', b')]" d] assms by (auto simp: list_all2_Cons2)

lemma kids_stand_3:
  assumes "stands buf t tag (der_tlv g b @ der_tlv g' b' @ der_tlv h x)" "g < 256" "g' < 256" "h < 256" "d \<le> 16" "length buf \<le> 8192"
  obtains c c' k where "der_kids buf t d = Inr [c, c', k]" "stands buf c g b" "stands buf c' g' b'" "stands buf k h x"
  using kids_stand [of buf t tag "[(g, b), (g', b'), (h, x)]" d] assms by (auto simp: list_all2_Cons2)

lemma kids_stand_4:
  assumes "stands buf t tag (der_tlv g b @ der_tlv g' b' @ der_tlv h x @ der_tlv h' x')" "g < 256" "g' < 256" "h < 256" "h' < 256" "d \<le> 16" "length buf \<le> 8192"
  obtains c c' k k' where "der_kids buf t d = Inr [c, c', k, k']" "stands buf c g b" "stands buf c' g' b'" "stands buf k h x" "stands buf k' h' x'"
  using kids_stand [of buf t tag "[(g, b), (g', b'), (h, x), (h', x')]" d] assms by (auto simp: list_all2_Cons2)

lemma top_stands:
  assumes "length (der_tlv tag body) \<le> 8192" "tag < 256"
  obtains c where "der_tlv_at (der_tlv tag body) 0 = Inr c" "stands (der_tlv tag body) c tag body" "dn_end c = length (der_tlv tag body)"
proof -
  have "length body < 2 ^ 32" using assms(1) by (simp add: length_der_tlv)
  with der_tlv_written [of 0 "der_tlv tag body" tag body "[]"] assms(2) obtain c where c: "der_tlv_at (der_tlv tag body) 0 = Inr c"
    "node_at (der_tlv tag body) 0 tag body c" by auto
  then show ?thesis using that der_tlv_read [OF c(1)] by (simp add: stands_def node_at_def)
qed

lemma cert_char_byte:
  assumes "cert_name_char c"
  shows "unat (of_char c :: 8 word) < 128" "char_of (unat (of_char c :: 8 word)) = c" "lower_char c = c"
proof -
  have "list_all (\<lambda>c. of_char c < (128 :: nat) \<and> lower_char c = c) ''abcdefghijklmnopqrstuvwxyz0123456789.-''" by code_simp
  with assms have c: "of_char c < (128 :: nat)" "lower_char c = c" by (auto simp: list_all_iff cert_name_char_def)
  have "unat (of_char c :: 8 word) = unat (of_nat (of_char c) :: 8 word)" by (simp only: of_nat_of_char)
  also have "\<dots> = of_char c" using c(1) by (subst unat_of_nat_byte, intro mod_less) linarith
  finally show "unat (of_char c :: 8 word) < 128" "char_of (unat (of_char c :: 8 word)) = c" "lower_char c = c" using c by simp_all
qed

lemma lower_utf8_ascii: "list_all cert_name_char s \<Longrightarrow> lower_utf8 (latin1_bytes s) = Some s"
  by (induction s) (simp_all add: latin1_bytes_def cert_char_byte)

lemma ascii_of_latin1: "list_all cert_name_char s \<Longrightarrow> to_lower (ascii_of (latin1_bytes s)) = s"
  by (induction s) (simp_all add: latin1_bytes_def ascii_of_def to_lower_def cert_char_byte)

lemma oids_written:
  "oid_of (oid_body OID_CN) = Some OID_CN" "oid_of (oid_body OID_EXT_REQ) = Some OID_EXT_REQ"
  "oid_of (oid_body OID_SAN) = Some OID_SAN" "oid_of (oid_body OID_ECDSA256) = Some OID_ECDSA256"
  by (simp_all add: OID_CN_def OID_EXT_REQ_def OID_SAN_def OID_ECDSA256_def oid_written)

lemma written_subject:
  assumes "stands der s 0x30 (der_set [der_seq [der_oid OID_CN, der_utf8 (latin1_bytes name)]])" "length der \<le> 8192" "list_all cert_name_char name"
  shows "check_subject der s name = Inr ()"
proof -
  from assms(1) have "stands der s 0x30 (der_tlv 0x31 (der_tlv 0x30 (der_tlv 0x06 (oid_body OID_CN) @ der_tlv 0x0c (latin1_bytes name))))"
    by (simp add: der_set_def der_seq_def der_oid_def der_utf8_def)
  from kids_stand_1 [OF this, of 2] assms(2) obtain rdn where r: "der_kids der s 2 = Inr [rdn]"
    "stands der rdn 0x31 (der_tlv 0x30 (der_tlv 0x06 (oid_body OID_CN) @ der_tlv 0x0c (latin1_bytes name)))" by auto
  from kids_stand_1 [OF r(2), of 3] assms(2) obtain ava where a: "der_kids der rdn 3 = Inr [ava]"
    "stands der ava 0x30 (der_tlv 0x06 (oid_body OID_CN) @ der_tlv 0x0c (latin1_bytes name))" by auto
  from kids_stand_2 [OF a(2), of 4] assms(2) obtain ty v where t: "der_kids der ava 4 = Inr [ty, v]"
    "stands der ty 0x06 (oid_body OID_CN)" "stands der v 0x0c (latin1_bytes name)" by auto
  show ?thesis
    using r a t stands_body [OF assms(1)] stands_body [OF r(2)] stands_body [OF a(2)] stands_body [OF t(2)] stands_body [OF t(3)]
    by (simp add: check_subject_def reject_if_def lift_der_def oids_written lower_utf8_ascii assms(3))
qed

lemma read_general_names:
  assumes "length (der_seq [der_ctx 2 False san]) \<le> 8192" "to_lower (ascii_of san) = name"
  shows "check_general_names (der_seq [der_ctx 2 False san]) name = Inr ()"
proof -
  let ?v = "der_tlv 0x30 (der_tlv 0x82 san)"
  have v: "der_seq [der_ctx 2 False san] = ?v" by (simp add: der_seq_def der_ctx_def)
  from assms(1) v obtain gn where g: "der_tlv_at ?v 0 = Inr gn" "stands ?v gn 0x30 (der_tlv 0x82 san)" "dn_end gn = length ?v"
    using top_stands [where tag = 48 and body = "der_tlv 0x82 san"] by auto
  from kids_stand_1 [OF g(2), of 7] assms(1) v obtain n where n: "der_kids ?v gn 7 = Inr [n]" "stands ?v n 0x82 san" by auto
  show ?thesis unfolding v
    using g n stands_body [OF g(2)] stands_body [OF n(2)]
    by (simp add: check_general_names_def reject_if_def lift_der_def assms(2))
qed

lemma written_attributes:
  assumes "stands der ats 0xa0 (csr_attr (latin1_bytes name))" "length der \<le> 8192" "list_all cert_name_char name"
  shows "check_attributes der ats name = Inr ()"
proof -
  let ?gn = "der_seq [der_ctx 2 False (latin1_bytes name)]"
  let ?x = "der_tlv 0x06 (oid_body OID_SAN) @ der_tlv 0x04 ?gn"
  from assms(1) have "stands der ats 0xa0 (der_tlv 0x30 (der_tlv 0x06 (oid_body OID_EXT_REQ) @ der_tlv 0x31 (der_tlv 0x30 (der_tlv 0x30 ?x))))"
    by (simp add: csr_attr_def der_set_def der_seq_def der_oid_def der_octet_def)
  from kids_stand_1 [OF this, of 2] assms(2) obtain a where a: "der_kids der ats 2 = Inr [a]"
    "stands der a 0x30 (der_tlv 0x06 (oid_body OID_EXT_REQ) @ der_tlv 0x31 (der_tlv 0x30 (der_tlv 0x30 ?x)))" by auto
  from kids_stand_2 [OF a(2), of 3] assms(2) obtain ty st where t: "der_kids der a 3 = Inr [ty, st]"
    "stands der ty 0x06 (oid_body OID_EXT_REQ)" "stands der st 0x31 (der_tlv 0x30 (der_tlv 0x30 ?x))" by auto
  from kids_stand_1 [OF t(3), of 4] assms(2) obtain l where l: "der_kids der st 4 = Inr [l]" "stands der l 0x30 (der_tlv 0x30 ?x)" by auto
  from kids_stand_1 [OF l(2), of 5] assms(2) obtain x where x: "der_kids der l 5 = Inr [x]" "stands der x 0x30 ?x" by auto
  from kids_stand_2 [OF x(2), of 6] assms(2) obtain p v where p: "der_kids der x 6 = Inr [p, v]"
    "stands der p 0x06 (oid_body OID_SAN)" "stands der v 0x04 ?gn" by auto
  have "length ?gn \<le> 8192" using p(3) assms(2) by (simp add: stands_def)
  note n = read_general_names [OF this ascii_of_latin1 [OF assms(3)]]
  have "check_extension der [p, v] name = Inr ()"
    using stands_body [OF p(2)] stands_body [OF p(3)] n by (simp add: check_extension_def reject_if_def oids_written)
  with a t l x p show ?thesis
    using stands_body [OF assms(1)] stands_body [OF a(2)] stands_body [OF t(2)] stands_body [OF t(3)] stands_body [OF l(2)] stands_body [OF x(2)]
    by (simp add: check_attributes_def reject_if_def lift_der_def oids_written)
qed

definition csr_body :: "octets \<Rightarrow> string \<Rightarrow> octets" where
  "csr_body spki name = concat [der_int0, der_seq [der_set [der_seq [der_oid OID_CN, der_utf8 (latin1_bytes name)]]], spki,
     der_ctx 0 True (csr_attr (latin1_bytes name))]"

lemma cri_written: "csr_cri spki name = der_tlv 0x30 (csr_body spki name)"
  by (simp add: csr_cri_def csr_body_def der_seq_def)

lemma written_parts:
  assumes name: "list_all cert_name_char name" and size: "length der \<le> 8192"
    and spki: "spki = der_tlv 0x30 sp" "ck_key K spki = Some (EcKey ''prime256v1'')"
    and sig: "sign (csr_cri spki name) \<noteq> []" "ck_verify K False spki (csr_cri spki name) (sign (csr_cri spki name)) = Some True"
    and k: "stands der c 0x30 (csr_body spki name)" "stands der al 0x30 (der_oid OID_ECDSA256)"
      "stands der sg 0x03 (0 # sign (csr_cri spki name))"
  shows "check_request K der c al sg name = Inr \<lparr>ci_der = der, ci_spki = spki, ci_hash = ck_hash K spki, ci_key = EcKey ''prime256v1''\<rparr>"
proof -
  let ?sub = "der_set [der_seq [der_oid OID_CN, der_utf8 (latin1_bytes name)]]"
  have b: "stands der c 0x30 (der_tlv 0x02 [0] @ der_tlv 0x30 ?sub @ der_tlv 0x30 sp @ der_tlv 0xa0 (csr_attr (latin1_bytes name)))"
    using k(1) by (simp add: csr_body_def der_seq_def der_int0_def der_ctx_def spki(1))
  obtain v sb spk ats where p: "der_kids der c 1 = Inr [v, sb, spk, ats]" "stands der v 0x02 [0]"
    "stands der sb 0x30 ?sub" "stands der spk 0x30 sp" "stands der ats 0xa0 (csr_attr (latin1_bytes name))"
    by (rule kids_stand_4 [OF b, of 1]) (use size in simp_all)
  from k(2) have "stands der al 0x30 (der_tlv 0x06 (oid_body OID_ECDSA256))" by (simp add: der_oid_def)
  from kids_stand_1 [OF this, of 1] size obtain a where a: "der_kids der al 1 = Inr [a]" "stands der a 0x06 (oid_body OID_ECDSA256)" by auto
  have raw: "node_raw der spk = spki" using stands_body [OF p(4)] by (simp add: spki(1))
  have raw': "node_raw der c = csr_cri spki name" using stands_body [OF k(1)] by (simp add: cri_written)
  have key: "check_key K der spk = Inr (EcKey ''prime256v1'')"
    using stands_body [OF p(4)] spki by (simp add: check_key_def reject_if_def raw)
  have "check_signature K der (EcKey ''prime256v1'') spki (csr_cri spki name) al sg = Inr ()"
    using a stands_body [OF a(2)] stands_body [OF k(3)] sig
    by (simp add: check_signature_def lift_der_def reject_if_def oids_written) (simp add: OID_ECDSA256_def OID_ECDSA384_def)
  then show ?thesis
    using p(1) key stands_body [OF k(1)] stands_body [OF k(2)] stands_body [OF k(3)] stands_body [OF p(2)]
      written_subject [OF p(3) size name] written_attributes [OF p(5) size name]
    by (simp add: check_request_def reject_if_def lift_der_def raw raw')
qed

lemma written_request:
  assumes name: "list_all cert_name_char name" and size: "length (csr_der sign spki name) \<le> 8192"
    and spki: "spki = der_tlv 0x30 sp" "ck_key K spki = Some (EcKey ''prime256v1'')"
    and sig: "sign (csr_cri spki name) \<noteq> []" "ck_verify K False spki (csr_cri spki name) (sign (csr_cri spki name)) = Some True"
  shows "parse_csr_der K (csr_der sign spki name) name
    = Inr \<lparr>ci_der = csr_der sign spki name, ci_spki = spki, ci_hash = ck_hash K spki, ci_key = EcKey ''prime256v1''\<rparr>"
proof -
  let ?der = "csr_der sign spki name"
  let ?parts = "der_tlv 0x30 (csr_body spki name) @ der_tlv 0x30 (der_oid OID_ECDSA256) @ der_tlv 0x03 (0 # sign (csr_cri spki name))"
  have der: "?der = der_tlv 0x30 ?parts" by (simp add: csr_der_def der_seq_def der_bits_def cri_written)
  obtain top where top: "der_tlv_at ?der 0 = Inr top" "stands ?der top 0x30 ?parts" "dn_end top = length ?der"
    using top_stands [where tag = 48 and body = ?parts] size unfolding der by auto
  from kids_stand_3 [OF top(2), of 0] size obtain c al sg where k: "der_kids ?der top 0 = Inr [c, al, sg]" "stands ?der c 0x30 (csr_body spki name)"
    "stands ?der al 0x30 (der_oid OID_ECDSA256)" "stands ?der sg 0x03 (0 # sign (csr_cri spki name))" by auto
  have "?der \<noteq> []" by (simp add: csr_der_def der_seq_def der_tlv_def)
  then show ?thesis
    using top k(1) stands_body [OF top(2)] size written_parts [where sign = sign and name = name, OF name size spki sig k(2-4)]
    by (simp add: parse_csr_der_def reject_if_def lift_der_def)
qed

text \<open>
  Nothing is said of what follows the signature: a request with a further element is accepted like the one
  without it.
\<close>

lemma element_after_the_signature_is_accepted:
  assumes name: "list_all cert_name_char name" and size: "length (der_seq [csr_cri spki name, der_seq [der_oid OID_ECDSA256], der_bits (sign (csr_cri spki name)), der_tlv g x]) \<le> 8192"
    and g: "g < 256" and spki: "spki = der_tlv 0x30 sp" "ck_key K spki = Some (EcKey ''prime256v1'')"
    and sig: "sign (csr_cri spki name) \<noteq> []" "ck_verify K False spki (csr_cri spki name) (sign (csr_cri spki name)) = Some True"
  shows "\<exists>info. parse_csr_der K (der_seq [csr_cri spki name, der_seq [der_oid OID_ECDSA256], der_bits (sign (csr_cri spki name)), der_tlv g x]) name = Inr info"
proof -
  let ?der = "der_seq [csr_cri spki name, der_seq [der_oid OID_ECDSA256], der_bits (sign (csr_cri spki name)), der_tlv g x]"
  let ?parts = "der_tlv 0x30 (csr_body spki name) @ der_tlv 0x30 (der_oid OID_ECDSA256) @ der_tlv 0x03 (0 # sign (csr_cri spki name)) @ der_tlv g x"
  have der: "?der = der_tlv 0x30 ?parts" by (simp add: der_seq_def der_bits_def cri_written)
  obtain top where top: "der_tlv_at ?der 0 = Inr top" "stands ?der top 0x30 ?parts" "dn_end top = length ?der"
    using top_stands [where tag = 48 and body = ?parts] size unfolding der by auto
  obtain c al sg y where k: "der_kids ?der top 0 = Inr [c, al, sg, y]" "stands ?der c 0x30 (csr_body spki name)"
    "stands ?der al 0x30 (der_oid OID_ECDSA256)" "stands ?der sg 0x03 (0 # sign (csr_cri spki name))"
    by (rule kids_stand_4 [OF top(2), of 0]) (use size g in simp_all)
  have "?der \<noteq> []" by (simp add: csr_der_def der_seq_def der_tlv_def)
  then show ?thesis
    using top k(1) stands_body [OF top(2)] size written_parts [where sign = sign and name = name, OF name size spki sig k(2-4)]
    by (simp add: parse_csr_der_def reject_if_def lift_der_def)
qed

text \<open>
  The DNS name is read with its high bits cleared, the common name with the Kelvin sign as a letter: bytes
  that are not the name asked for are taken for it.
\<close>

lemma masked_names_are_accepted:
  "check_general_names (der_seq [der_ctx 2 False [0xe1]]) ''a'' = Inr ()" "[0xe1] \<noteq> latin1_bytes ''a''"
  "lower_utf8 [0xe2, 0x84, 0xaa] = Some ''k''"
proof -
  have "to_lower (ascii_of [0xe1]) = ''a''" by code_simp
  then show "check_general_names (der_seq [der_ctx 2 False [0xe1]]) ''a'' = Inr ()"
    by (intro read_general_names) (simp_all add: der_seq_def der_ctx_def der_tlv_def der_len_def)
  show "[0xe1] \<noteq> latin1_bytes ''a''" "lower_utf8 [0xe2, 0x84, 0xaa] = Some ''k''" by code_simp+
qed

section \<open>The text around it\<close>

lemma join_lines_chunks: "filter (\<lambda>c. \<not> is_space c) (join_lines (chunks64 s)) = filter (\<lambda>c. \<not> is_space c) s"
proof (induction s rule: chunks64.induct)
  case (1 s)
  show ?case
  proof (cases "s = []")
    case True
    then show ?thesis by (simp add: chunks64.simps)
  next
    case False
    have sp: "is_space newline" by (simp add: is_space_def newline_def)
    have "filter (\<lambda>c. \<not> is_space c) (join_lines (take 64 s # chunks64 (drop 64 s)))
        = filter (\<lambda>c. \<not> is_space c) (take 64 s) @ filter (\<lambda>c. \<not> is_space c) (join_lines (chunks64 (drop 64 s)))"
      by (cases "chunks64 (drop 64 s)") (simp_all add: sp)
    also have "\<dots> = filter (\<lambda>c. \<not> is_space c) (take 64 s @ drop 64 s)" using 1 [OF False] by (simp only: filter_append)
    also have "take 64 s @ drop 64 s = s" by simp
    finally show ?thesis using False by (simp add: chunks64.simps [of s])
  qed
qed

lemma set_join_lines: "set (join_lines ls) \<subseteq> insert newline (\<Union>x \<in> set ls. set x)"
  by (induction ls rule: join_lines.induct) auto

lemma set_chunks: "(\<Union>x \<in> set (chunks64 s). set x) \<subseteq> set s"
proof (induction s rule: chunks64.induct)
  case (1 s)
  show ?case
  proof (cases "s = []")
    case False
    with 1 have "(\<Union>x \<in> set (chunks64 (drop 64 s)). set x) \<subseteq> set s" using set_drop_subset [of 64 s] by blast
    then show ?thesis using False set_take_subset [of 64 s] by (subst chunks64.simps) auto
  qed (simp add: chunks64.simps)
qed

lemma until_mark_found:
  assumes "m \<in> set marks" "\<forall>m \<in> set marks. m \<noteq> [] \<and> hd m \<notin> set t"
  shows "until_mark marks (t @ m @ r) = Some t"
  using assms(2)
proof (induction t)
  case Nil
  with assms(1) have "list_ex (\<lambda>k. prefix k (m @ r)) marks" by (auto simp: list_ex_iff intro!: bexI [of _ m])
  then show ?case by (simp add: until_mark.simps)
next
  case (Cons c t)
  have "\<not> list_ex (\<lambda>k. prefix k (c # t @ m @ r)) marks"
  proof
    assume "list_ex (\<lambda>k. prefix k (c # t @ m @ r)) marks"
    then obtain k where "k \<in> set marks" "prefix k (c # t @ m @ r)" by (auto simp: list_ex_iff)
    with Cons.prems show False by (cases k) auto
  qed
  with Cons show ?case by (simp add: until_mark.simps [of marks "c # t @ m @ r"])
qed

lemma pem_body_wrap:
  assumes "CHR ''-'' \<notin> set (ck_encode K der)"
  shows "pem_body (pem_wrap K ''CERTIFICATE REQUEST'' der) = Some (newline # join_lines (chunks64 (ck_encode K der)) @ [newline])"
proof -
  let ?t = "newline # join_lines (chunks64 (ck_encode K der)) @ [newline]"
  let ?e = "''-----END CERTIFICATE REQUEST-----''"
  have w: "pem_wrap K ''CERTIFICATE REQUEST'' der = ''-----BEGIN CERTIFICATE REQUEST-----'' @ ?t @ ?e @ [newline]"
    by (simp add: pem_wrap_def)
  have "after_mark PEM_BEGIN (''-----BEGIN CERTIFICATE REQUEST-----'' @ x) = Some x" for x
    by (subst after_mark.simps) (simp add: PEM_BEGIN_def)
  moreover have "until_mark PEM_END (?t @ ?e @ [newline]) = Some ?t"
  proof (rule until_mark_found)
    have "CHR ''-'' \<notin> set ?t"
      using assms set_join_lines [of "chunks64 (ck_encode K der)"] set_chunks [of "ck_encode K der"] by (auto simp: newline_def)
    then show "\<forall>m \<in> set PEM_END. m \<noteq> [] \<and> hd m \<notin> set ?t" by (simp add: PEM_END_def)
  qed (simp add: PEM_END_def)
  ultimately show ?thesis by (simp only: pem_body_def w bind.simps)
qed

text \<open>
  C12: The request an enclave builds for a name (\<open>buildCsr\<close>) is accepted by the relay for that name, under
  the hash of the very key the enclave made: writer and reader of the platform agree byte for byte. Of the
  library this uses that base64 decodes what it encoded, without hyphens or white space, and that a
  signature verifies under the key that made it.
\<close>

theorem enclave_requests_are_accepted:
  assumes "list_all cert_name_char name" "length (csr_der sign spki name) \<le> 8192"
    and "spki = der_tlv 0x30 sp" "ck_key K spki = Some (EcKey ''prime256v1'')"
    and "sign (csr_cri spki name) \<noteq> []" "ck_verify K False spki (csr_cri spki name) (sign (csr_cri spki name)) = Some True"
    and base64: "\<forall>b. ck_decode K (ck_encode K b) = b" "\<forall>b. list_all (\<lambda>c. \<not> is_space c \<and> c \<noteq> CHR ''-'') (ck_encode K b)"
  shows "\<exists>info. parse_csr K (build_csr K sign spki name) name = Inr info \<and> ci_hash info = ck_hash K spki \<and> ci_der info = csr_der sign spki name"
proof -
  let ?e = "ck_encode K (csr_der sign spki name)"
  have c: "CHR ''-'' \<notin> set ?e" "filter (\<lambda>c. \<not> is_space c) ?e = ?e"
    using base64(2) by (auto simp: list_all_iff intro!: filter_True)
  have "is_space newline" by (simp add: is_space_def newline_def)
  then have "filter (\<lambda>c. \<not> is_space c) (newline # join_lines (chunks64 ?e) @ [newline]) = ?e"
    using c(2) by (simp add: join_lines_chunks)
  then show ?thesis
    using pem_body_wrap [OF c(1)] base64(1) written_request [where sign = sign and name = name, OF assms(1-6)]
    by (simp add: parse_csr_def build_csr_def)
qed

definition demo_encode :: "octets \<Rightarrow> string" where
  "demo_encode b = concat (map (\<lambda>w. replicate (unat w) (CHR ''a'') @ ''b'') b)"

definition demo_csr_crypto :: csr_crypto where
  "demo_csr_crypto = \<lparr>ck_decode = (\<lambda>s. map (\<lambda>x. of_nat (length x)) (butlast (split_on (CHR ''b'') s))), ck_encode = demo_encode,
     ck_key = (\<lambda>b. Some (EcKey ''prime256v1'')), ck_verify = (\<lambda>l k m g. Some True), ck_hash = (\<lambda>b. show_nat (length b))\<rparr>"

lemma split_parts_nonempty: "split_on c s \<noteq> []"
  by (induction s) (auto split: list.splits)

lemma split_demo: "split_on (CHR ''b'') (replicate n (CHR ''a'') @ CHR ''b'' # s) = replicate n (CHR ''a'') # split_on (CHR ''b'') s"
  by (induction n) simp_all

lemma demo_base64:
  "\<forall>b. ck_decode demo_csr_crypto (ck_encode demo_csr_crypto b) = b"
  "\<forall>b. list_all (\<lambda>c. \<not> is_space c \<and> c \<noteq> CHR ''-'') (ck_encode demo_csr_crypto b)"
proof -
  have "map (\<lambda>x. of_nat (length x)) (butlast (split_on (CHR ''b'') (demo_encode b))) = b" for b
    by (induction b) (simp_all add: demo_encode_def split_demo split_parts_nonempty)
  then show "\<forall>b. ck_decode demo_csr_crypto (ck_encode demo_csr_crypto b) = b" by (simp add: demo_csr_crypto_def)
  show "\<forall>b. list_all (\<lambda>c. \<not> is_space c \<and> c \<noteq> CHR ''-'') (ck_encode demo_csr_crypto b)"
    by (auto simp: demo_csr_crypto_def demo_encode_def list_all_iff is_space_def split: if_splits)
qed

definition demo_csr :: octets where
  "demo_csr = csr_der (\<lambda>m. [1]) (der_tlv 0x30 []) ''a.co''"

lemma demo_csr_size: "length demo_csr \<le> 8192"
proof -
  have l: "length (oid_body OID_CN) = 3" "length (oid_body OID_EXT_REQ) = 9" "length (oid_body OID_SAN) = 3" "length (oid_body OID_ECDSA256) = 8"
    by (simp_all add: OID_CN_def OID_EXT_REQ_def OID_SAN_def OID_ECDSA256_def oid_body_def arc_bytes_def arc_rest.simps)
  show ?thesis
    by (simp add: demo_csr_def csr_der_def csr_cri_def csr_attr_def der_seq_def der_set_def der_oid_def der_octet_def der_ctx_def der_utf8_def
        der_bits_def der_int0_def length_der_tlv der_len_def l latin1_bytes_def)
qed

lemma demo_csr_facts:
  "list_all cert_name_char ''a.co''" "ck_key demo_csr_crypto x = Some (EcKey ''prime256v1'')" "ck_verify demo_csr_crypto l k m g = Some True"
  by (simp_all add: cert_name_char_def demo_csr_crypto_def)

theorem accepted_requests_name_one_host_witness:
  "\<exists>info. parse_csr_der demo_csr_crypto demo_csr ''a.co'' = Inr info \<and> good_key (ci_key info) \<and> ci_der info = demo_csr"
proof -
  obtain info where i: "parse_csr_der demo_csr_crypto demo_csr ''a.co'' = Inr info"
    using written_request [of "''a.co''" "\<lambda>m. [1]" "der_tlv 0x30 []" "[]" demo_csr_crypto] demo_csr_size demo_csr_facts
    unfolding demo_csr_def by auto
  with accepted_requests_name_one_host [OF i] show ?thesis by blast
qed

theorem enclave_requests_are_accepted_witness:
  "\<exists>info. parse_csr demo_csr_crypto (build_csr demo_csr_crypto (\<lambda>m. [1]) (der_tlv 0x30 []) ''a.co'') ''a.co'' = Inr info \<and> ci_der info = demo_csr"
  using enclave_requests_are_accepted [of "''a.co''" "\<lambda>m. [1]" "der_tlv 0x30 []" "[]" demo_csr_crypto] demo_csr_size demo_csr_facts demo_base64
  unfolding demo_csr_def by auto

section \<open>The names that are certified\<close>

text \<open>
  An authorised name is one label under a zone of the platform, a deployment's own, or a name outside every
  reserved zone that a deployment has proven.
\<close>

lemma authorized_name:
  assumes "authorize_name C zones customOf raw = Inr a"
  shows "list_all cert_name_char (cn_name a) \<and> cn_name a \<noteq> [] \<and> length (cn_name a) \<le> 253
    \<and> ((\<exists>z \<in> set zones. cn_zone a = Some z \<and> cn_name a = cn_label a @ ''.'' @ z \<and> CHR ''.'' \<notin> set (cn_label a)
          \<and> label_to_id (cn_label a) = Some (cn_id a) \<and> cn_txt a = ''_acme-challenge.'' @ cn_name a)
      \<or> (cn_zone a = None \<and> \<not> is_reserved_hostname C (cn_name a) \<and> dep_bytes32 (cn_id a)
          \<and> map_option to_lower (customOf (cn_name a)) = Some (cn_id a) \<and> cn_txt a = acme_alias_for C (label_for (cn_id a))))"
proof -
  let ?n = "drop_dots (to_lower raw)"
  from assms have n: "?n \<noteq> []" "length ?n \<le> 253" "list_all cert_name_char ?n"
    by (auto simp: authorize_name_def Let_def split: if_splits)
  show ?thesis
  proof (cases "is_reserved_hostname C ?n")
    case False
    have e: "\<not> dep_bytes32 []" by (simp add: dep_bytes32_def)
    from assms n False e obtain i where "customOf ?n = Some i" "dep_bytes32 (to_lower i)"
      by (auto simp: authorize_name_def Let_def to_lower_def split: if_splits option.splits)
    with assms n False show ?thesis by (auto simp: authorize_name_def Let_def)
  next
    case True
    with assms n obtain z where z: "find (\<lambda>z. suffix (''.'' @ z) ?n) zones = Some z"
      by (auto simp: authorize_name_def Let_def split: option.splits)
    then have zs: "z \<in> set zones" "suffix (''.'' @ z) ?n" by (auto simp: find_Some_iff)
    define n where "n = ?n"
    from zs obtain l where l: "n = l @ ''.'' @ z" by (auto simp: suffix_def n_def)
    then have t: "take (length n - (length z + 1)) n = l" by simp
    from assms n True z t obtain i where i: "CHR ''.'' \<notin> set l" "label_to_id l = Some i"
      "a = \<lparr>cn_name = n, cn_zone = Some z, cn_label = l, cn_id = i, cn_txt = ''_acme-challenge.'' @ n\<rparr>"
      by (auto simp: authorize_name_def Let_def simp flip: n_def split: if_splits option.splits)
    with n zs(1) l show ?thesis by (simp add: n_def)
  qed
qed

lemma row_for_label_only:
  assumes "row_for_label rows i = Some d"
  shows "d \<in> set rows \<and> prefix (to_lower i) (to_lower (ow_id d))
    \<and> (\<forall>d' \<in> set rows. prefix (to_lower i) (to_lower (ow_id d')) \<longrightarrow> d' = d)"
proof -
  from assms have f: "filter (\<lambda>d. prefix (to_lower i) (to_lower (ow_id d))) rows = [d]"
    by (auto simp: row_for_label_def split: list.splits)
  then have "set (filter (\<lambda>d. prefix (to_lower i) (to_lower (ow_id d))) rows) = {d}" by simp
  then show ?thesis by auto
qed

end
