(* ===== verification/Cert_Acme.thy ===== *)
theory Cert_Acme
  imports Cert_Requests
begin

text \<open>
  The relay's ACME client (\<open>relay/certs.js\<close>): the signed requests to a certificate authority, its accounts,
  an order from its placement to the certificate, the resumption of a held order, and the walk over the
  authorities. The authorities and the name server are a script of timed answers; what is sent to them is
  the log. A job runs to its end in one step, so one account registration is never seen half done by
  another job (\<open>ca.registering\<close>); signatures, the sealing of accounts and the certificate parser are
  arguments or identity.
\<close>

section \<open>Answers, requests, errors\<close>

record acme_answer =
  an_ms :: int
  an_fails :: bool
  an_code :: nat
  an_json :: bool
  an_type :: string
  an_nonce :: "string option"
  an_location :: "string option"
  an_retry :: "int option"
  an_status :: string
  an_authz :: "string option"
  an_finalize :: string
  an_cert :: "string option"
  an_dns01 :: "(string \<times> string) option"
  an_bound :: bool
  an_text :: string

datatype acme_call = Directory | NewNonce | NewAccount | NewOrder string | ReadAuthz string | TakeChallenge string
  | Finalize string octets | ReadOrder string | Download string | PutTxt string string | DelTxt string string

text \<open>\<open>ae_ca\<close> blames the authority and not the name.\<close>

record acct =
  ac_key :: nat
  ac_kid :: "string option"

record acme_err =
  ae_ca :: bool
  ae_code :: "nat option"
  ae_lost :: "acct option"
  ae_pending :: "int option"
  ae_paced :: "int option"

definition name_err :: acme_err where
  "name_err = \<lparr>ae_ca = False, ae_code = None, ae_lost = None, ae_pending = None, ae_paced = None\<rparr>"

definition ca_err :: acme_err where "ca_err = name_err\<lparr>ae_ca := True\<rparr>"

definition pending_err :: "int option \<Rightarrow> acme_err" where
  "pending_err ra = name_err\<lparr>ae_pending := Some (case ra of Some s \<Rightarrow> if 0 < s then min s 300 else 30 | None \<Rightarrow> 30)\<rparr>"

section \<open>State\<close>

record ca_slot =
  sl_name :: string
  sl_dir :: string
  sl_eab :: bool
  sl_meta :: "bool option"
  sl_account :: "acct option"
  sl_nonce :: "string option"
  sl_down :: int
  sl_pace :: buckets

record cert_order =
  or_ca :: string
  or_name :: string
  or_url :: string
  or_finalize :: string
  or_csr :: octets
  or_at :: int
  or_txt :: "(string \<times> string) option"

record acme =
  aw_now :: int
  aw_script :: "acme_answer list"
  aw_log :: "(string \<times> acme_call) list"
  aw_slots :: "ca_slot list"
  aw_accounts :: "(string \<times> acct) list"
  aw_keys :: nat
  aw_orders :: "(string \<times> cert_order) list"

definition slot_at :: "nat \<Rightarrow> acme \<Rightarrow> ca_slot" where
  "slot_at k S = aw_slots S ! k"

definition put_slot :: "nat \<Rightarrow> (ca_slot \<Rightarrow> ca_slot) \<Rightarrow> acme \<Rightarrow> acme" where
  "put_slot k f S = S\<lparr>aw_slots := (aw_slots S)[k := f (aw_slots S ! k)]\<rparr>"

type_synonym 'a acme_run = "acme \<Rightarrow> (acme_err + 'a) \<times> acme"

definition bind_run :: "'a acme_run \<Rightarrow> ('a \<Rightarrow> 'b acme_run) \<Rightarrow> 'b acme_run" where
  "bind_run m f S = (case m S of (Inl e, S1) \<Rightarrow> (Inl e, S1) | (Inr x, S1) \<Rightarrow> f x S1)"

definition CA_COOLDOWN_MS :: int where "CA_COOLDOWN_MS = 120000"
definition DNS_SETTLE_MS :: int where "DNS_SETTLE_MS = 5000"
definition POLL_MS :: int where "POLL_MS = 2000"
definition POLL_TIMEOUT_MS :: int where "POLL_TIMEOUT_MS = 90000"
definition CERT_FETCH_TRIES :: nat where "CERT_FETCH_TRIES = 3"
definition HELD_TTL_MS :: int where "HELD_TTL_MS = 3600000"

text \<open>One exchange: the request is logged, the next answer arrives after its time; without one the network failed.\<close>

definition exchange :: "string \<Rightarrow> acme_call \<Rightarrow> acme \<Rightarrow> acme_answer option \<times> acme" where
  "exchange who call S =
     (let S1 = S\<lparr>aw_log := aw_log S @ [(who, call)]\<rparr>
      in case aw_script S of
           [] \<Rightarrow> (None, S1)
         | a # rest \<Rightarrow> (if an_fails a then None else Some a, S1\<lparr>aw_script := rest, aw_now := aw_now S + \<bar>an_ms a\<bar>\<rparr>))"

definition wait_ms :: "int \<Rightarrow> acme \<Rightarrow> acme" where
  "wait_ms ms S = S\<lparr>aw_now := aw_now S + ms\<rparr>"

section \<open>Signed requests\<close>

definition acme_dir :: "nat \<Rightarrow> bool acme_run" where
  "acme_dir k S =
     (case sl_meta (slot_at k S) of
        Some m \<Rightarrow> (Inr m, S)
      | None \<Rightarrow>
          (case exchange (sl_name (slot_at k S)) Directory S of
             (None, S1) \<Rightarrow> (Inl ca_err, S1)
           | (Some a, S1) \<Rightarrow>
               if an_code a div 100 \<noteq> 2 \<or> \<not> an_json a then (Inl ca_err, S1)
               else (Inr (an_bound a), put_slot k (\<lambda>s. s\<lparr>sl_meta := Some (an_bound a)\<rparr>) S1)))"

definition take_nonce :: "nat \<Rightarrow> string acme_run" where
  "take_nonce k S =
     (case sl_nonce (slot_at k S) of
        Some n \<Rightarrow> (Inr n, put_slot k (\<lambda>s. s\<lparr>sl_nonce := None\<rparr>) S)
      | None \<Rightarrow>
          bind_run (acme_dir k) (\<lambda>_ S1.
            case exchange (sl_name (slot_at k S1)) NewNonce S1 of
              (None, S2) \<Rightarrow> (Inl ca_err, S2)
            | (Some a, S2) \<Rightarrow> (case an_nonce a of None \<Rightarrow> Inl ca_err | Some n \<Rightarrow> Inr n, S2)) S)"

definition text_ends :: "string \<Rightarrow> string \<Rightarrow> bool" where
  "text_ends t s \<longleftrightarrow> suffix t s"

text \<open>The error of an answer of 400 or more; \<open>order\<close> marks a call of the new-order resource.\<close>

definition answer_err :: "bool \<Rightarrow> acme_call \<Rightarrow> acct \<Rightarrow> acme_answer \<Rightarrow> acme_err" where
  "answer_err useJwk call account a =
     (let type = (if an_json a then an_type a else []);
          order = (case call of NewOrder n \<Rightarrow> True | _ \<Rightarrow> False);
          lost = \<not> useJwk \<and> (text_ends ''accountDoesNotExist'' type
            \<or> (order \<and> (text_ends ''unauthorized'' type \<or> text_ends ''malformed'' type)))
      in \<lparr>ae_ca = (500 \<le> an_code a \<or> \<not> an_json a), ae_code = Some (an_code a), ae_lost = (if lost then Some account else None),
          ae_pending = None, ae_paced = None\<rparr>)"

definition acme_send :: "nat \<Rightarrow> acme_call \<Rightarrow> acme_answer acme_run" where
  "acme_send k call =
     bind_run (take_nonce k) (\<lambda>_ S1.
       case exchange (sl_name (slot_at k S1)) call S1 of
         (None, S2) \<Rightarrow> (Inl ca_err, S2)
       | (Some a, S2) \<Rightarrow> (Inr a, (if an_nonce a = None then S2 else put_slot k (\<lambda>s. s\<lparr>sl_nonce := an_nonce a\<rparr>) S2)))"

text \<open>A stale nonce is tried once more.\<close>

definition acme_post :: "nat \<Rightarrow> bool \<Rightarrow> acct \<Rightarrow> acme_call \<Rightarrow> acme_answer acme_run" where
  "acme_post k useJwk account call =
     (let judge = (\<lambda>a S. if 400 \<le> an_code a then (Inl (answer_err useJwk call account a), S) else (Inr a, S))
      in if \<not> useJwk \<and> ac_kid account = None then (\<lambda>S. (Inl ca_err, S))
         else bind_run (acme_send k call) (\<lambda>a.
           if 400 \<le> an_code a \<and> an_json a \<and> sublist ''badNonce'' (an_type a) then bind_run (acme_send k call) judge
           else judge a))"

section \<open>Accounts\<close>

definition register_account :: "nat \<Rightarrow> acct acme_run" where
  "register_account k =
     bind_run (acme_dir k) (\<lambda>bound S.
       if bound \<and> \<not> sl_eab (slot_at k S) then (Inl ca_err, S)
       else (let fresh = \<lparr>ac_key = aw_keys S, ac_kid = None\<rparr>
             in case acme_post k True fresh NewAccount (S\<lparr>aw_keys := Suc (aw_keys S)\<rparr>) of
                  (Inl e, S1) \<Rightarrow> (Inl (e\<lparr>ae_ca := True\<rparr>), S1)
                | (Inr a, S1) \<Rightarrow>
                    (case an_location a of
                       None \<Rightarrow> (Inl ca_err, S1)
                     | Some kid \<Rightarrow>
                         (let acc = fresh\<lparr>ac_kid := Some kid\<rparr>
                          in (Inr acc, put_slot k (\<lambda>s. s\<lparr>sl_account := Some acc\<rparr>)
                               (S1\<lparr>aw_accounts := AList.update (sl_dir (slot_at k S1)) acc (aw_accounts S1)\<rparr>))))))"

definition acme_account :: "nat \<Rightarrow> acct acme_run" where
  "acme_account k S =
     (case sl_account (slot_at k S) of
        Some a \<Rightarrow> (if ac_kid a \<noteq> None then (Inr a, S) else register_account k S)
      | None \<Rightarrow>
          (case map_of (aw_accounts S) (sl_dir (slot_at k S)) of
             Some a \<Rightarrow> (Inr a, put_slot k (\<lambda>s. s\<lparr>sl_account := Some a\<rparr>) S)
           | None \<Rightarrow> register_account k S))"

definition drop_account :: "nat \<Rightarrow> acct \<Rightarrow> acme \<Rightarrow> acme" where
  "drop_account k dead S =
     (if sl_account (slot_at k S) \<noteq> Some dead then S
      else put_slot k (\<lambda>s. s\<lparr>sl_account := None\<rparr>) (S\<lparr>aw_accounts := AList.delete (sl_dir (slot_at k S)) (aw_accounts S)\<rparr>))"

definition with_account :: "nat \<Rightarrow> 'a acme_run \<Rightarrow> 'a acme_run" where
  "with_account k run S =
     (case run S of
        (Inr x, S1) \<Rightarrow> (Inr x, S1)
      | (Inl e, S1) \<Rightarrow> (case ae_lost e of None \<Rightarrow> (Inl e, S1) | Some dead \<Rightarrow> run (drop_account k dead S1)))"

section \<open>One order\<close>

definition dns_push :: "string \<Rightarrow> string \<Rightarrow> unit acme_run" where
  "dns_push n v S =
     (case exchange ''dns'' (PutTxt n v) S of
        (Some a, S1) \<Rightarrow> (if an_code a div 100 = 2 then Inr () else Inl name_err, S1)
      | (None, S1) \<Rightarrow> (Inl name_err, S1))"

text \<open>The record is taken away without waiting for the outcome.\<close>

definition txt_cleanup :: "cert_order \<Rightarrow> acme \<Rightarrow> acme" where
  "txt_cleanup r S = (case or_txt r of None \<Rightarrow> S | Some (n, v) \<Rightarrow> S\<lparr>aw_log := aw_log S @ [(''dns'', DelTxt n v)]\<rparr>)"

definition drop_order :: "string \<Rightarrow> acme \<Rightarrow> acme" where
  "drop_order key S = S\<lparr>aw_orders := AList.delete key (aw_orders S)\<rparr>"

definition next_delay :: "int \<Rightarrow> int" where
  "next_delay d = min ((3 * d + 1) div 2) 10000"

datatype poll_case = PollDone | PollBad | PollMore

lemma exchange_shrinks: "exchange who call S = (Some a, S') \<Longrightarrow> length (aw_script S') < length (aw_script S)"
  by (auto simp: exchange_def Let_def split: list.splits)

lemma exchange_shorter: "length (aw_script (snd (exchange who call S))) \<le> length (aw_script S)"
  by (simp add: exchange_def Let_def split: list.split)

lemma put_slot_keeps [simp]:
  "aw_script (put_slot k f S) = aw_script S" "aw_log (put_slot k f S) = aw_log S" "aw_now (put_slot k f S) = aw_now S"
  "aw_orders (put_slot k f S) = aw_orders S" "aw_accounts (put_slot k f S) = aw_accounts S" "aw_keys (put_slot k f S) = aw_keys S"
  "length (aw_slots (put_slot k f S)) = length (aw_slots S)"
  by (simp_all add: put_slot_def)

lemma acme_dir_shorter: "length (aw_script (snd (acme_dir k S))) \<le> length (aw_script S)"
  using exchange_shorter [of "sl_name (slot_at k S)" Directory S]
  by (auto simp: acme_dir_def split: option.splits prod.splits)

lemma take_nonce_shorter: "length (aw_script (snd (take_nonce k S))) \<le> length (aw_script S)"
proof (cases "sl_nonce (slot_at k S)")
  case None
  obtain r S1 where d: "acme_dir k S = (r, S1)" by fastforce
  with acme_dir_shorter [of k S] have "length (aw_script S1) \<le> length (aw_script S)" by simp
  with None d show ?thesis
    using exchange_shorter [of "sl_name (slot_at k S1)" NewNonce S1]
    by (cases r) (auto simp: take_nonce_def bind_run_def split: prod.split option.split intro: order_trans)
qed (simp add: take_nonce_def)

lemma acme_send_shorter:
  "length (aw_script (snd (acme_send k call S))) \<le> length (aw_script S)
   \<and> (acme_send k call S = (Inr a, S') \<longrightarrow> length (aw_script S') < length (aw_script S))"
proof -
  obtain r S1 where n: "take_nonce k S = (r, S1)" by fastforce
  with take_nonce_shorter [of k S] have l: "length (aw_script S1) \<le> length (aw_script S)" by simp
  obtain x S2 where x: "exchange (sl_name (slot_at k S1)) call S1 = (x, S2)" by fastforce
  with exchange_shorter [of "sl_name (slot_at k S1)" call S1] have l2: "length (aw_script S2) \<le> length (aw_script S1)" by simp
  show ?thesis
  proof (cases r)
    case (Inr y)
    show ?thesis
    proof (cases x)
      case (Some b)
      with exchange_shrinks x have "length (aw_script S2) < length (aw_script S1)" by blast
      with Some Inr n x l show ?thesis by (auto simp: acme_send_def bind_run_def)
    qed (use Inr n x l l2 in \<open>simp add: acme_send_def bind_run_def\<close>)
  qed (use n l in \<open>simp add: acme_send_def bind_run_def\<close>)
qed

lemma acme_post_shrinks:
  assumes "acme_post k j account call S = (Inr a, S')"
  shows "length (aw_script S') < length (aw_script S)"
proof -
  from assms obtain b S1 where b: "acme_send k call S = (Inr b, S1)"
    by (auto simp: acme_post_def bind_run_def Let_def split: if_splits sum.splits prod.splits)
  with acme_send_shorter [of k call S b S1] have l: "length (aw_script S1) < length (aw_script S)" by simp
  show ?thesis
  proof (cases "400 \<le> an_code b \<and> an_json b \<and> sublist ''badNonce'' (an_type b)")
    case True
    with assms b obtain c S2 where c: "acme_send k call S1 = (Inr c, S2)" "S' = S2"
      by (auto simp: acme_post_def bind_run_def Let_def split: if_splits sum.splits prod.splits)
    with acme_send_shorter [of k call S1 c S2] l show ?thesis by simp
  next
    case False
    with assms b l show ?thesis by (auto simp: acme_post_def bind_run_def Let_def split: if_splits)
  qed
qed

function acme_poll :: "nat \<Rightarrow> acct \<Rightarrow> acme_call \<Rightarrow> (acme_answer \<Rightarrow> poll_case) \<Rightarrow> (int option \<Rightarrow> acme_err) \<Rightarrow> int \<Rightarrow> int \<Rightarrow> acme_answer acme_run" where
  "acme_poll k account call judge late t0 delay S =
     (case acme_post k False account call S of
        (Inl e, S1) \<Rightarrow> (Inl e, S1)
      | (Inr a, S1) \<Rightarrow>
          (case judge a of
             PollDone \<Rightarrow> (Inr a, S1)
           | PollBad \<Rightarrow> (Inl name_err, S1)
           | PollMore \<Rightarrow>
               if POLL_TIMEOUT_MS < aw_now S1 - t0 then (Inl (late (an_retry a)), S1)
               else acme_poll k account call judge late t0 (next_delay delay)
                      (wait_ms (case an_retry a of Some s \<Rightarrow> if 0 < s then min (s * 1000) 30000 else delay | None \<Rightarrow> delay) S1)))"
  by pat_completeness auto
termination
  by (relation "measure (\<lambda>(k, account, call, judge, late, t0, delay, S). length (aw_script S))")
    (auto simp: wait_ms_def dest: acme_post_shrinks [OF sym])

declare acme_poll.simps [simp del]

definition order_case :: "acme_answer \<Rightarrow> poll_case" where
  "order_case a = (if an_status a = ''valid'' \<and> an_cert a \<noteq> None then PollDone else if an_status a = ''invalid'' then PollBad else PollMore)"

definition authz_case :: "acme_answer \<Rightarrow> poll_case" where
  "authz_case a = (if an_status a = ''valid'' then PollDone
     else if an_status a \<in> {''invalid'', ''revoked'', ''deactivated'', ''expired''} then PollBad else PollMore)"

text \<open>A certificate that cannot be downloaded yet leaves the order with the authority.\<close>

fun download_cert :: "nat \<Rightarrow> acct \<Rightarrow> string \<Rightarrow> nat \<Rightarrow> acme_answer acme_run" where
  "download_cert k account url 0 S = (Inl (pending_err (Some 15)), S)"
| "download_cert k account url (Suc tries) S =
     (case acme_post k False account (Download url) S of
        (Inr a, S1) \<Rightarrow> (Inr a, S1)
      | (Inl e, S1) \<Rightarrow>
          if ae_code e \<noteq> Some 404 then (Inl e, S1)
          else if tries = 0 then (Inl (pending_err (Some 15)), S1)
          else download_cert k account url tries (wait_ms POLL_MS S1))"

record issued =
  is_pem :: string
  is_from :: int
  is_until :: int
  is_ca :: string

text \<open>The parser of a certificate and the value of a challenge record.\<close>

record acme_lib =
  al_leaf :: "string \<Rightarrow> (int \<times> int) option"
  al_txt :: "string \<Rightarrow> acct \<Rightarrow> string"

definition acme_collect :: "acme_lib \<Rightarrow> nat \<Rightarrow> acct \<Rightarrow> cert_order \<Rightarrow> issued acme_run" where
  "acme_collect L k account r S =
     bind_run (acme_poll k account (ReadOrder (or_url r)) order_case pending_err (aw_now S) POLL_MS) (\<lambda>od.
     bind_run (download_cert k account (the (an_cert od)) CERT_FETCH_TRIES) (\<lambda>c S1.
       (case al_leaf L (an_text c) of
          None \<Rightarrow> Inl name_err
        | Some (from, until) \<Rightarrow> Inr \<lparr>is_pem = an_text c, is_from = from, is_until = until, is_ca = sl_name (slot_at k S1)\<rparr>, S1))) S"

text \<open>An order that ends any other way than still being worked on is forgotten, with its record.\<close>

definition settle_order :: "string \<Rightarrow> cert_order \<Rightarrow> 'a acme_run \<Rightarrow> 'a acme_run" where
  "settle_order key r run S =
     (case run S of
        (Inl e, S1) \<Rightarrow> (Inl e, if ae_pending e \<noteq> None then S1 else txt_cleanup r (drop_order key S1))
      | (Inr x, S1) \<Rightarrow> (Inr x, txt_cleanup r (drop_order key S1)))"

definition finish_order :: "acme_lib \<Rightarrow> nat \<Rightarrow> acct \<Rightarrow> string \<Rightarrow> cert_order \<Rightarrow> (string \<times> string) option \<Rightarrow> issued acme_run" where
  "finish_order L k account key r challenge =
     settle_order key r
       (bind_run (case challenge of
            None \<Rightarrow> (\<lambda>S. (Inr (), S))
          | Some (url, authz) \<Rightarrow> (\<lambda>S.
              bind_run (acme_post k False account (TakeChallenge url)) (\<lambda>_ S1.
              bind_run (acme_poll k account (ReadAuthz authz) authz_case (\<lambda>_. ca_err) (aw_now S1) POLL_MS) (\<lambda>_ S2. (Inr (), S2)) S1)
              (wait_ms DNS_SETTLE_MS S)))
        (\<lambda>_. bind_run (acme_post k False account (Finalize (or_finalize r) (or_csr r))) (\<lambda>_ S.
          acme_collect L k account r (S\<lparr>aw_orders := AList.update key r (aw_orders S)\<rparr>))))"

definition held_order_of :: "nat \<Rightarrow> string \<Rightarrow> octets \<Rightarrow> acme_answer \<Rightarrow> acme \<Rightarrow> cert_order" where
  "held_order_of k name csr od S =
     \<lparr>or_ca = sl_name (slot_at k S), or_name = name, or_url = (case an_location od of Some u \<Rightarrow> u | None \<Rightarrow> []),
      or_finalize = an_finalize od, or_csr = csr, or_at = aw_now S, or_txt = None\<rparr>"

text \<open>A name the authority has not seen proven yet is proven through the name server first.\<close>

definition prove_name :: "acme_lib \<Rightarrow> nat \<Rightarrow> acct \<Rightarrow> string \<Rightarrow> string \<Rightarrow> string \<Rightarrow> acme_answer \<Rightarrow> cert_order \<Rightarrow> issued acme_run" where
  "prove_name L k account key txtName authz z r =
     (if an_status z = ''valid'' then finish_order L k account key r None
      else case an_dns01 z of
        None \<Rightarrow> (\<lambda>S. (Inl name_err, S))
      | Some (token, url) \<Rightarrow>
          bind_run (dns_push txtName (al_txt L token account)) (\<lambda>_.
            finish_order L k account key (r\<lparr>or_txt := Some (txtName, al_txt L token account)\<rparr>) (Some (url, authz))))"

definition issue_once :: "acme_lib \<Rightarrow> string \<Rightarrow> octets \<Rightarrow> string \<Rightarrow> string \<Rightarrow> nat \<Rightarrow> issued acme_run" where
  "issue_once L name csr key txtName k =
     bind_run (acme_account k) (\<lambda>account.
     bind_run (acme_dir k) (\<lambda>_.
     bind_run (acme_post k False account (NewOrder name)) (\<lambda>od.
     case an_authz od of
       None \<Rightarrow> (\<lambda>S. (Inl name_err, S))
     | Some authz \<Rightarrow>
         bind_run (acme_post k False account (ReadAuthz authz)) (\<lambda>z S.
           prove_name L k account key txtName authz z (held_order_of k name csr od S) S))))"

definition issue_via :: "acme_lib \<Rightarrow> string \<Rightarrow> octets \<Rightarrow> string \<Rightarrow> string \<Rightarrow> nat \<Rightarrow> issued acme_run" where
  "issue_via L name csr key txtName k = with_account k (issue_once L name csr key txtName k)"

definition resume_once :: "acme_lib \<Rightarrow> string \<Rightarrow> cert_order \<Rightarrow> nat \<Rightarrow> issued acme_run" where
  "resume_once L key r k =
     bind_run (acme_account k) (\<lambda>account.
       settle_order key r
         (bind_run (acme_post k False account (ReadOrder (or_url r))) (\<lambda>od.
           if an_status od = ''ready''
           then bind_run (acme_post k False account (Finalize (or_finalize r) (or_csr r))) (\<lambda>_. acme_collect L k account r)
           else if an_status od = ''pending'' then (\<lambda>S. (Inl name_err, S))
           else acme_collect L k account r)))"

section \<open>The walk over the authorities\<close>

record walk =
  wk_cooled :: "nat list"
  wk_proven :: bool
  wk_tried :: nat
  wk_err :: acme_err

definition pace_of :: "ca_slot \<Rightarrow> rat \<times> rat" where
  "pace_of s = (if sl_name s = ''letsencrypt'' then (25, 40 / 604800) else (60, 60 / 3600))"

definition build_slots :: "(string \<Rightarrow> string option) \<Rightarrow> ca_slot list" where
  "build_slots env =
     (let e = (\<lambda>k. env_text (env k)); both = (\<lambda>a b. e a \<noteq> [] \<and> e b \<noteq> []); or_else = (\<lambda>t d. if t = [] then d else t);
          slot = (\<lambda>name url eab. \<lparr>sl_name = name, sl_dir = url, sl_eab = eab, sl_meta = None, sl_account = None, sl_nonce = None,
                    sl_down = 0, sl_pace = []\<rparr>)
      in (if both ''ACME_EAB_KID'' ''ACME_EAB_HMAC'' then [slot ''zerossl'' (or_else (e ''ACME_DIRECTORY'') ''https://acme.zerossl.com/v2/DV90'') True] else [])
         @ [slot ''letsencrypt'' (or_else (e ''ACME_DIRECTORY_2'') ''https://acme-v02.api.letsencrypt.org/directory'')
              (both ''ACME_EAB_KID_2'' ''ACME_EAB_HMAC_2'')])"

definition set_down :: "nat \<Rightarrow> int \<Rightarrow> acme \<Rightarrow> acme" where
  "set_down k t = put_slot k (\<lambda>s. s\<lparr>sl_down := t\<rparr>)"

text \<open>What an attempt leaves: its result, or the walk that goes on.\<close>

definition after_attempt :: "nat \<Rightarrow> walk \<Rightarrow> (acme_err + issued) \<times> acme \<Rightarrow> (acme_err + issued) option \<times> walk \<times> acme" where
  "after_attempt k W r =
     (let W1 = W\<lparr>wk_tried := Suc (wk_tried W)\<rparr>
      in case r of
           (Inr i, S) \<Rightarrow> (Some (Inr i), W1, set_down k 0 S)
         | (Inl e, S) \<Rightarrow>
             if ae_pending e \<noteq> None then (Some (Inl e), W1, S)
             else if ae_ca e then (None, W1\<lparr>wk_cooled := wk_cooled W @ [k], wk_err := e\<rparr>, set_down k (aw_now S + CA_COOLDOWN_MS) S)
             else (None, W1\<lparr>wk_proven := True, wk_err := e\<rparr>, S))"

definition resume_first :: "acme_lib \<Rightarrow> string \<Rightarrow> walk \<Rightarrow> acme \<Rightarrow> (acme_err + issued) option \<times> walk \<times> acme" where
  "resume_first L key W S =
     (case map_of (aw_orders S) key of
        None \<Rightarrow> (None, W, S)
      | Some r \<Rightarrow>
          (case find (\<lambda>k. sl_name (slot_at k S) = or_ca r) [0..<length (aw_slots S)] of
             None \<Rightarrow> (None, W, drop_order key S)
           | Some k \<Rightarrow> after_attempt k W (with_account k (resume_once L key r k) S)))"

definition take_pace :: "nat \<Rightarrow> acme \<Rightarrow> bool \<times> acme" where
  "take_pace k S =
     (let s = slot_at k S
      in case take_token (fst (pace_of s)) (snd (pace_of s)) (aw_now S) (sl_name s) (sl_pace s) of
           (ok, bs) \<Rightarrow> (ok, put_slot k (\<lambda>s. s\<lparr>sl_pace := bs\<rparr>) S))"

fun walk_slots :: "(nat \<Rightarrow> issued acme_run) \<Rightarrow> nat list \<Rightarrow> walk \<Rightarrow> acme \<Rightarrow> (acme_err + issued) option \<times> walk \<times> acme" where
  "walk_slots issue [] W S = (None, W, S)"
| "walk_slots issue (k # ks) W S =
     (case take_pace k S of
        (ok, S1) \<Rightarrow>
          if \<not> ok then walk_slots issue ks W S1
          else (case after_attempt k W (issue k S1) of
                  (Some r, W1, S2) \<Rightarrow> (Some r, W1, S2)
                | (None, W1, S2) \<Rightarrow> walk_slots issue ks W1 S2))"

fun second_chances :: "(nat \<Rightarrow> issued acme_run) \<Rightarrow> nat list \<Rightarrow> acme_err \<Rightarrow> acme \<Rightarrow> (acme_err + issued) \<times> acme" where
  "second_chances issue [] e S = (Inl e, S)"
| "second_chances issue (k # ks) e S =
     (case issue k S of
        (Inr i, S1) \<Rightarrow> (Inr i, set_down k 0 S1)
      | (Inl e1, S1) \<Rightarrow>
          if ae_pending e1 \<noteq> None then (Inl e1, S1)
          else second_chances issue ks e1 (if ae_ca e1 then set_down k (aw_now S1 + CA_COOLDOWN_MS) S1 else S1))"

definition paced_err :: "acme \<Rightarrow> acme_err" where
  "paced_err S =
     (let now = aw_now S; at_of = (\<lambda>s. if now < sl_down s then sl_down s else now + 60000);
          soonest = (case map at_of (aw_slots S) of [] \<Rightarrow> now + 60000 | d # ds \<Rightarrow> foldl min d ds)
      in name_err\<lparr>ae_paced := Some (max 15 (- ((now - soonest) div 1000)))\<rparr>)"

definition acme_issue :: "acme_lib \<Rightarrow> string \<Rightarrow> octets \<Rightarrow> string \<Rightarrow> string \<Rightarrow> issued acme_run" where
  "acme_issue L name csr key txtName S =
     (let S0 = (case map_of (aw_orders S) key of
                  Some r \<Rightarrow> if HELD_TTL_MS < aw_now S - or_at r then drop_order key S else S
                | None \<Rightarrow> S);
          issue = issue_via L name csr key txtName
      in case resume_first L key \<lparr>wk_cooled = [], wk_proven = False, wk_tried = 0, wk_err = name_err\<rparr> S0 of
           (Some r, W, S1) \<Rightarrow> (r, S1)
         | (None, W, S1) \<Rightarrow>
             (case walk_slots issue (filter (\<lambda>k. \<not> aw_now S1 < sl_down (slot_at k S1)) [0..<length (aw_slots S1)]) W S1 of
                (Some r, W1, S2) \<Rightarrow> (r, S2)
              | (None, W1, S2) \<Rightarrow>
                  if wk_proven W1 \<and> wk_cooled W1 \<noteq> [] then second_chances issue (wk_cooled W1) (wk_err W1) S2
                  else if wk_tried W1 = 0 then (Inl (paced_err S2), S2)
                  else (Inl (wk_err W1), S2)))"

section \<open>What is said to whom\<close>

fun routine :: "acme_call \<Rightarrow> bool" where
  "routine (NewOrder n) = False"
| "routine (Finalize u d) = False"
| "routine (PutTxt n v) = False"
| "routine c = True"

text \<open>
  A policy for the client: which requests may be made and which orders may be held. Whatever the
  authorities answer, a job that starts within the policy stays within it.
\<close>

locale ca_policy =
  fixes allowed :: "string \<times> acme_call \<Rightarrow> bool" and held_ok :: "string \<Rightarrow> cert_order \<Rightarrow> bool"
  assumes routine_allowed: "routine call \<Longrightarrow> allowed (who, call)"
    and held_finalizes: "held_ok key r \<Longrightarrow> allowed (who, Finalize u (or_csr r))"
begin

definition conduct :: "acme \<Rightarrow> acme \<Rightarrow> bool" where
  "conduct S S' \<longleftrightarrow> (\<exists>l. aw_log S' = aw_log S @ l \<and> list_all allowed l)
     \<and> (\<forall>(key, r) \<in> set (aw_orders S'). (key, r) \<in> set (aw_orders S) \<or> held_ok key r)"

definition behaves :: "'a acme_run \<Rightarrow> bool" where
  "behaves m \<longleftrightarrow> (\<forall>S. conduct S (snd (m S)))"

lemma conduct_refl [simp]: "conduct S S"
  by (auto simp: conduct_def)

lemma conduct_trans: "conduct S S1 \<Longrightarrow> conduct S1 S2 \<Longrightarrow> conduct S S2"
  unfolding conduct_def by fastforce

lemma conduct_same: "aw_log S' = aw_log S \<Longrightarrow> aw_orders S' = aw_orders S \<Longrightarrow> conduct S S'"
  by (auto simp: conduct_def)

lemma conduct_slot [simp]: "conduct S (put_slot k f S)" "conduct S (set_down k t S)" "conduct S (wait_ms ms S)"
  by (rule conduct_same; simp add: set_down_def wait_ms_def)+

lemma conduct_put: "conduct S S1 \<Longrightarrow> conduct S (put_slot k f S1)"
  by (rule conduct_trans [OF _ conduct_slot(1)])

lemma conduct_drop: "conduct S (drop_order key S)"
  by (auto simp: conduct_def drop_order_def dest: delete_members)

lemma conduct_exchange: "allowed (who, call) \<Longrightarrow> conduct S (snd (exchange who call S))"
  by (auto simp: conduct_def exchange_def Let_def split: list.split)

lemma conduct_exchanged: "exchange who call S = (a, S1) \<Longrightarrow> allowed (who, call) \<Longrightarrow> conduct S S1"
  using conduct_exchange by (metis snd_conv)

lemma conduct_cleanup: "conduct S (txt_cleanup r S)"
  using routine_allowed [of "DelTxt _ _"] by (auto simp: conduct_def txt_cleanup_def split: option.split)

lemma behaves_conduct: "behaves m \<Longrightarrow> m S = (x, S') \<Longrightarrow> conduct S S'"
  unfolding behaves_def by (metis snd_conv)

lemma behaves_bind [intro]:
  assumes "behaves m" "\<And>x. behaves (f x)"
  shows "behaves (bind_run m f)"
  unfolding behaves_def
proof
  fix S :: acme
  obtain r S1 where m: "m S = (r, S1)" by fastforce
  note c = behaves_conduct [OF assms(1) m]
  show "conduct S (snd (bind_run m f S))"
  proof (cases r)
    case (Inr x)
    obtain y S2 where f: "f x S1 = (y, S2)" by fastforce
    from conduct_trans [OF c behaves_conduct [OF assms(2) f]] m Inr f show ?thesis by (simp add: bind_run_def)
  qed (use m c in \<open>simp add: bind_run_def\<close>)
qed

lemma behaves_ret [intro, simp]: "behaves (\<lambda>S. (x, S))"
  by (simp add: behaves_def)

lemma behaves_at:
  assumes "conduct S S1" "behaves m"
  shows "conduct S (snd (m S1))"
  using assms conduct_trans by (auto simp: behaves_def)

lemma behaves_dir [simp]: "behaves (acme_dir k)"
  unfolding behaves_def
proof
  fix S :: acme
  obtain a S1 where x: "exchange (sl_name (slot_at k S)) Directory S = (a, S1)" by fastforce
  then have "conduct S S1" using conduct_exchanged routine_allowed by (metis routine.simps(4))
  then show "conduct S (snd (acme_dir k S))"
    by (auto simp: acme_dir_def x conduct_put split: option.split)
qed

lemma behaves_nonce [simp]: "behaves (take_nonce k)"
proof -
  have n: "behaves (\<lambda>S1. case exchange (sl_name (slot_at k S1)) NewNonce S1 of
              (None, S2) \<Rightarrow> (Inl ca_err, S2) | (Some a, S2) \<Rightarrow> (case an_nonce a of None \<Rightarrow> Inl ca_err | Some n \<Rightarrow> Inr n, S2))"
    unfolding behaves_def
  proof
    fix S :: acme
    obtain a S1 where x: "exchange (sl_name (slot_at k S)) NewNonce S = (a, S1)" by fastforce
    then have "conduct S S1" using conduct_exchanged routine_allowed by (metis routine.simps(5))
    then show "conduct S (snd (case exchange (sl_name (slot_at k S)) NewNonce S of
              (None, S2) \<Rightarrow> (Inl ca_err, S2) | (Some a, S2) \<Rightarrow> (case an_nonce a of None \<Rightarrow> Inl ca_err | Some n \<Rightarrow> Inr n, S2)))"
      by (auto simp: x split: option.split)
  qed
  then have "behaves (bind_run (acme_dir k) (\<lambda>_ S1. case exchange (sl_name (slot_at k S1)) NewNonce S1 of
              (None, S2) \<Rightarrow> (Inl ca_err, S2) | (Some a, S2) \<Rightarrow> (case an_nonce a of None \<Rightarrow> Inl ca_err | Some n \<Rightarrow> Inr n, S2)))"
    by (rule behaves_bind [OF behaves_dir])
  then show ?thesis by (auto simp: behaves_def take_nonce_def split: option.split)
qed

lemma behaves_send:
  assumes "\<And>who. allowed (who, call)"
  shows "behaves (acme_send k call)"
  unfolding acme_send_def
proof (rule behaves_bind [OF behaves_nonce], unfold behaves_def, rule allI)
  fix n and S :: acme
  obtain a S1 where x: "exchange (sl_name (slot_at k S)) call S = (a, S1)" by fastforce
  then have "conduct S S1" using conduct_exchanged assms by blast
  then show "conduct S (snd (case exchange (sl_name (slot_at k S)) call S of (None, S2) \<Rightarrow> (Inl ca_err, S2)
      | (Some a, S2) \<Rightarrow> (Inr a, (if an_nonce a = None then S2 else put_slot k (\<lambda>s. s\<lparr>sl_nonce := an_nonce a\<rparr>) S2))))"
    by (auto simp: x conduct_put split: option.split)
qed

lemma behaves_judge: "behaves (\<lambda>S. if c then (Inl x, S) else (Inr y, S))"
  by (simp add: behaves_def)

lemma behaves_post:
  assumes "\<And>who. allowed (who, call)"
  shows "behaves (acme_post k j account call)"
  using behaves_send [OF assms] unfolding acme_post_def Let_def
  by (auto intro!: behaves_bind behaves_judge)

lemma behaves_account [simp]: "behaves (acme_account k)"
proof -
  have r: "behaves (register_account k)"
    unfolding register_account_def
  proof (rule behaves_bind [OF behaves_dir], unfold behaves_def, rule allI)
    fix bound and S :: acme
    let ?fresh = "\<lparr>ac_key = aw_keys S, ac_kid = None\<rparr>"
    obtain x S1 where p: "acme_post k True ?fresh NewAccount (S\<lparr>aw_keys := Suc (aw_keys S)\<rparr>) = (x, S1)" by fastforce
    have "conduct S (S\<lparr>aw_keys := Suc (aw_keys S)\<rparr>)" by (rule conduct_same) simp_all
    from conduct_trans [OF this behaves_conduct [OF behaves_post p]] routine_allowed have c: "conduct S S1" by simp
    have "conduct S (put_slot k f (S1\<lparr>aw_accounts := y\<rparr>))" for f y
      by (rule conduct_put, rule conduct_trans [OF c]) (rule conduct_same; simp)
    with c p show "conduct S (snd (if bound \<and> \<not> sl_eab (slot_at k S) then (Inl ca_err, S)
       else (let fresh = \<lparr>ac_key = aw_keys S, ac_kid = None\<rparr>
             in case acme_post k True fresh NewAccount (S\<lparr>aw_keys := Suc (aw_keys S)\<rparr>) of
                  (Inl e, S1) \<Rightarrow> (Inl (e\<lparr>ae_ca := True\<rparr>), S1)
                | (Inr a, S1) \<Rightarrow>
                    (case an_location a of
                       None \<Rightarrow> (Inl ca_err, S1)
                     | Some kid \<Rightarrow>
                         (let acc = fresh\<lparr>ac_kid := Some kid\<rparr>
                          in (Inr acc, put_slot k (\<lambda>s. s\<lparr>sl_account := Some acc\<rparr>)
                               (S1\<lparr>aw_accounts := AList.update (sl_dir (slot_at k S1)) acc (aw_accounts S1)\<rparr>)))))))"
      by (auto simp: Let_def split: sum.split option.split)
  qed
  then show ?thesis by (auto simp: behaves_def acme_account_def split: option.split)
qed

lemma conduct_drop_account: "conduct S (drop_account k dead S)"
  unfolding drop_account_def by (auto intro!: conduct_put intro: conduct_same)

lemma behaves_with_account:
  assumes "behaves run"
  shows "behaves (with_account k run)"
  unfolding behaves_def
proof
  fix S :: acme
  obtain x S1 where m: "run S = (x, S1)" by fastforce
  note c = behaves_conduct [OF assms m]
  have "conduct S (snd (run (drop_account k dead S1)))" for dead
    by (rule behaves_at [OF conduct_trans [OF c conduct_drop_account] assms])
  with c m show "conduct S (snd (with_account k run S))" by (auto simp: with_account_def split: sum.split option.split)
qed

lemma behaves_dns: "(\<And>who. allowed (who, PutTxt n v)) \<Longrightarrow> behaves (dns_push n v)"
proof -
  assume a: "\<And>who. allowed (who, PutTxt n v)"
  show ?thesis unfolding behaves_def
  proof
    fix S :: acme
    obtain x S1 where x: "exchange ''dns'' (PutTxt n v) S = (x, S1)" by (metis prod.exhaust)
    with conduct_exchanged [OF x a] show "conduct S (snd (dns_push n v S))" by (simp add: dns_push_def split: option.split)
  qed
qed

lemma conduct_poll: "(\<And>who. allowed (who, call)) \<Longrightarrow> conduct S (snd (acme_poll k account call judge late t0 delay S))"
proof (induction k account call judge late t0 delay S rule: acme_poll.induct)
  case (1 k account call judge late t0 delay S)
  obtain x S1 where p: "acme_post k False account call S = (x, S1)" by fastforce
  note c = behaves_conduct [OF behaves_post [OF 1(2)] p]
  show ?case
  proof (cases x)
    case (Inr a)
    have "conduct S (snd (acme_poll k account call judge late t0 d (wait_ms ms S1)))"
      if "judge a = PollMore" "\<not> POLL_TIMEOUT_MS < aw_now S1 - t0" "d = next_delay delay"
        "ms = (case an_retry a of Some s \<Rightarrow> if 0 < s then min (s * 1000) 30000 else delay | None \<Rightarrow> delay)" for d ms
      using conduct_trans [OF conduct_trans [OF c conduct_slot(3)] 1(1) [OF p [symmetric] Inr that(1,2) 1(2)]] that(3,4) by simp
    with c p Inr show ?thesis by (subst acme_poll.simps) (simp split: poll_case.split)
  qed (use c p in \<open>simp add: acme_poll.simps [of k]\<close>)
qed

lemma conduct_download: "conduct S (snd (download_cert k account url n S))"
proof (induction n arbitrary: S)
  case (Suc n)
  obtain x S1 where p: "acme_post k False account (Download url) S = (x, S1)" by fastforce
  have c: "conduct S S1" by (rule behaves_conduct [OF behaves_post p]) (simp add: routine_allowed)
  with Suc [of "wait_ms POLL_MS S1"] conduct_trans [OF conduct_trans [OF c conduct_slot(3)]] p
  show ?case by (simp split: sum.split)
qed simp

lemma behaves_collect: "behaves (acme_collect L k account r)"
  unfolding behaves_def
proof
  fix S :: acme
  let ?leaf = "\<lambda>c S1. (case al_leaf L (an_text c) of None \<Rightarrow> Inl name_err
        | Some (from, until) \<Rightarrow> Inr \<lparr>is_pem = an_text c, is_from = from, is_until = until, is_ca = sl_name (slot_at k S1)\<rparr>, S1)"
  have "behaves (?leaf c)" for c by (simp add: behaves_def)
  moreover have "behaves (download_cert k account url n)" for url n by (simp add: behaves_def conduct_download)
  moreover have "behaves (acme_poll k account (ReadOrder (or_url r)) order_case pending_err (aw_now S) POLL_MS)"
    unfolding behaves_def by (intro allI conduct_poll) (simp add: routine_allowed)
  ultimately have "behaves (bind_run (acme_poll k account (ReadOrder (or_url r)) order_case pending_err (aw_now S) POLL_MS)
      (\<lambda>od. bind_run (download_cert k account (the (an_cert od)) CERT_FETCH_TRIES) ?leaf))"
    by (intro behaves_bind) auto
  then show "conduct S (snd (acme_collect L k account r S))" by (simp add: behaves_def acme_collect_def)
qed

lemma behaves_settle:
  assumes "behaves run"
  shows "behaves (settle_order key r run)"
  unfolding behaves_def
proof
  fix S :: acme
  obtain x S1 where m: "run S = (x, S1)" by fastforce
  note c = behaves_conduct [OF assms m]
  have "conduct S (txt_cleanup r (drop_order key S1))" by (rule conduct_trans [OF conduct_trans [OF c conduct_drop] conduct_cleanup])
  with c m show "conduct S (snd (settle_order key r run S))" by (auto simp: settle_order_def split: sum.split)
qed

lemma behaves_finish:
  assumes "held_ok key r"
  shows "behaves (finish_order L k account key r challenge)"
proof -
  have k: "conduct S (S\<lparr>aw_orders := AList.update key r (aw_orders S)\<rparr>)" for S
    using assms by (auto simp: conduct_def dest!: update_members)
  have "behaves (\<lambda>S. acme_collect L k account r (S\<lparr>aw_orders := AList.update key r (aw_orders S)\<rparr>))"
    using behaves_at [OF k behaves_collect] by (auto simp: behaves_def)
  moreover have "behaves (acme_post k False account (Finalize (or_finalize r) (or_csr r)))"
    using held_finalizes [OF assms] by (rule behaves_post)
  moreover have "behaves (\<lambda>S. bind_run (acme_post k False account (TakeChallenge url)) (\<lambda>_ S1.
              bind_run (acme_poll k account (ReadAuthz authz) authz_case (\<lambda>_. ca_err) (aw_now S1) POLL_MS) (\<lambda>_ S2. (Inr (), S2)) S1)
              (wait_ms DNS_SETTLE_MS S))" for url authz
  proof -
    have "behaves (acme_poll k account (ReadAuthz authz) authz_case (\<lambda>_. ca_err) t POLL_MS)" for t
      unfolding behaves_def by (intro allI conduct_poll) (simp add: routine_allowed)
    then have "behaves (bind_run (acme_poll k account (ReadAuthz authz) authz_case (\<lambda>_. ca_err) t POLL_MS) (\<lambda>_ S2. (Inr (), S2)))" for t
      by (intro behaves_bind) auto
    then have "behaves (\<lambda>S1. bind_run (acme_poll k account (ReadAuthz authz) authz_case (\<lambda>_. ca_err) (aw_now S1) POLL_MS) (\<lambda>_ S2. (Inr (), S2)) S1)"
      by (simp add: behaves_def)
    then have "behaves (bind_run (acme_post k False account (TakeChallenge url)) (\<lambda>_ S1.
              bind_run (acme_poll k account (ReadAuthz authz) authz_case (\<lambda>_. ca_err) (aw_now S1) POLL_MS) (\<lambda>_ S2. (Inr (), S2)) S1))"
      by (intro behaves_bind behaves_post) (auto simp: routine_allowed)
    then show ?thesis using behaves_at [OF conduct_slot(3)] by (auto simp: behaves_def)
  qed
  ultimately show ?thesis unfolding finish_order_def
    by (intro behaves_settle behaves_bind) (auto split: option.split)
qed

lemma behaves_prove:
  assumes "\<And>who v. allowed (who, PutTxt txtName v)" "\<And>t. held_ok key (r\<lparr>or_txt := t\<rparr>)"
  shows "behaves (prove_name L k account key txtName authz z r)"
proof -
  have "held_ok key r" using assms(2) [of "or_txt r"] by simp
  then have "behaves (finish_order L k account key r None)" by (rule behaves_finish)
  moreover have "behaves (bind_run (dns_push txtName v) (\<lambda>_. finish_order L k account key (r\<lparr>or_txt := t\<rparr>) c))" for v t c
    by (intro behaves_bind behaves_dns behaves_finish assms)
  ultimately show ?thesis by (auto simp: prove_name_def split: option.split)
qed

lemma behaves_issue_once:
  assumes "\<And>who. allowed (who, NewOrder name)" "\<And>who v. allowed (who, PutTxt txtName v)"
    and "\<And>r. or_name r = name \<Longrightarrow> or_csr r = csr \<Longrightarrow> held_ok key r"
  shows "behaves (issue_once L name csr key txtName k)"
proof -
  have "behaves (\<lambda>S. prove_name L k account key txtName authz z (held_order_of k name csr od S) S)" for account authz od z
  proof -
    have "behaves (prove_name L k account key txtName authz z (held_order_of k name csr od S))" for S
      by (intro behaves_prove assms) (simp_all add: held_order_of_def)
    then show ?thesis by (simp add: behaves_def)
  qed
  then have "behaves (case an_authz od of None \<Rightarrow> (\<lambda>S. (Inl name_err, S)) | Some authz \<Rightarrow>
      bind_run (acme_post k False account (ReadAuthz authz)) (\<lambda>z S. prove_name L k account key txtName authz z (held_order_of k name csr od S) S))" for account od
    by (cases "an_authz od") (auto intro!: behaves_bind behaves_post simp: routine_allowed)
  then show ?thesis unfolding issue_once_def
    by (intro behaves_bind behaves_account behaves_dir behaves_post assms)
qed

lemma behaves_resume_once:
  assumes "\<And>who u. allowed (who, Finalize u (or_csr r))"
  shows "behaves (resume_once L key r k)"
  unfolding resume_once_def
  by (intro behaves_bind behaves_settle behaves_account behaves_post)
    (auto intro!: behaves_bind behaves_post behaves_collect simp: assms routine_allowed)

lemma conduct_attempt:
  assumes "conduct S S1" "after_attempt k W (x, S1) = (r, W', S')"
  shows "conduct S S'"
  using assms conduct_trans [OF assms(1) conduct_slot(2)]
  by (auto simp: after_attempt_def Let_def split: sum.splits if_splits)

lemma conduct_walk:
  assumes "\<And>k. behaves (issue k)"
  shows "walk_slots issue ks W S = (r, W', S') \<Longrightarrow> conduct S S'"
proof (induction ks arbitrary: W S)
  case (Cons k ks)
  obtain ok S1 where p: "take_pace k S = (ok, S1)" by fastforce
  then have c: "conduct S S1" by (auto simp: take_pace_def Let_def split: prod.splits)
  obtain x S2 where i: "issue k S1 = (x, S2)" by fastforce
  obtain y W1 S3 where a: "after_attempt k W (x, S2) = (y, W1, S3)" by (metis prod.exhaust)
  have c3: "conduct S S3" by (rule conduct_trans [OF c conduct_attempt [OF behaves_conduct [OF assms i] a]])
  from Cons p i a c c3 show ?case
    by (auto split: if_splits option.splits intro: conduct_trans)
qed simp

lemma conduct_second:
  assumes "\<And>k. behaves (issue k)"
  shows "second_chances issue ks e S = (r, S') \<Longrightarrow> conduct S S'"
proof (induction ks arbitrary: e S)
  case (Cons k ks)
  obtain x S1 where i: "issue k S = (x, S1)" by fastforce
  note c = behaves_conduct [OF assms i]
  have d: "conduct S (set_down k t S1)" for t by (rule conduct_trans [OF c conduct_slot(2)])
  from Cons i c d show ?case
    by (auto split: sum.splits if_splits intro: conduct_trans)
qed simp

lemma conduct_resume:
  assumes "\<And>r who u. map_of (aw_orders S) key = Some r \<Longrightarrow> allowed (who, Finalize u (or_csr r))"
    and "resume_first L key W S = (x, W', S')"
  shows "conduct S S'"
proof (cases "map_of (aw_orders S) key")
  case (Some r)
  show ?thesis
  proof (cases "find (\<lambda>k. sl_name (slot_at k S) = or_ca r) [0..<length (aw_slots S)]")
    case None
    with Some assms(2) show ?thesis by (auto simp: resume_first_def conduct_drop)
  next
    case k: (Some k)
    obtain y S1 where m: "with_account k (resume_once L key r k) S = (y, S1)" by fastforce
    have "conduct S S1"
      by (rule behaves_conduct [OF behaves_with_account [OF behaves_resume_once] m]) (rule assms(1) [OF Some])
    then show ?thesis by (rule conduct_attempt) (use assms(2) Some k m in \<open>simp add: resume_first_def\<close>)
  qed
qed (use assms(2) in \<open>simp add: resume_first_def\<close>)

text \<open>A job that may order a name and finalize with a request keeps to that, whatever order it resumes.\<close>

lemma conduct_issue:
  assumes "\<And>who. allowed (who, NewOrder name)" "\<And>who v. allowed (who, PutTxt txtName v)"
    and "\<And>r. or_name r = name \<Longrightarrow> or_csr r = csr \<Longrightarrow> held_ok key r"
    and "\<And>r. (key, r) \<in> set (aw_orders S) \<Longrightarrow> held_ok key r"
    and "acme_issue L name csr key txtName S = (x, S')"
  shows "conduct S S'"
proof -
  let ?S0 = "case map_of (aw_orders S) key of Some r \<Rightarrow> if HELD_TTL_MS < aw_now S - or_at r then drop_order key S else S | None \<Rightarrow> S"
  let ?W = "\<lparr>wk_cooled = [], wk_proven = False, wk_tried = 0, wk_err = name_err\<rparr>"
  let ?issue = "issue_via L name csr key txtName"
  have i: "behaves (?issue k)" for k
    unfolding issue_via_def by (intro behaves_with_account behaves_issue_once assms(1-3))
  have c0: "conduct S ?S0" by (simp add: conduct_drop split: option.split)
  have k0: "held_ok key r" if "map_of (aw_orders ?S0) key = Some r" for r
    using that assms(4) by (auto simp: drop_order_def delete_conv' split: option.splits if_splits dest: map_of_SomeD)
  obtain y W S1 where r: "resume_first L key ?W ?S0 = (y, W, S1)" by (metis prod.exhaust)
  have c1: "conduct S S1"
    by (rule conduct_trans [OF c0 conduct_resume [OF _ r]]) (rule held_finalizes [OF k0])
  obtain z W1 S2 where w: "walk_slots ?issue (filter (\<lambda>k. \<not> aw_now S1 < sl_down (slot_at k S1)) [0..<length (aw_slots S1)]) W S1 = (z, W1, S2)"
    by (metis prod.exhaust)
  have c2: "conduct S S2" by (rule conduct_trans [OF c1 conduct_walk [OF i w]])
  from assms(5) r w c1 c2 show ?thesis
    by (auto simp: acme_issue_def Let_def split: option.splits if_splits dest: conduct_second [OF i] intro: conduct_trans)
qed

end

section \<open>A held order is not placed again\<close>

definition places :: "string \<times> acme_call \<Rightarrow> bool" where
  "places x \<longleftrightarrow> (case snd x of NewOrder n \<Rightarrow> True | _ \<Rightarrow> False)"

interpretation quiet: ca_policy "\<lambda>x. \<not> places x" "\<lambda>key r. True"
  by unfold_locales (auto simp: places_def split: acme_call.splits elim: routine.elims)


definition demo_processing :: "int \<Rightarrow> acme_answer" where
  "demo_processing ms = \<lparr>an_ms = ms, an_fails = False, an_code = 200, an_json = True, an_type = [], an_nonce = Some ''n'', an_location = None,
     an_retry = None, an_status = ''processing'', an_authz = None, an_finalize = [], an_cert = None, an_dns01 = None, an_bound = False, an_text = []\<rparr>"

definition demo_held_order :: cert_order where
  "demo_held_order = \<lparr>or_ca = ''letsencrypt'', or_name = ''a.co'', or_url = ''u'', or_finalize = ''f'', or_csr = [], or_at = 0, or_txt = None\<rparr>"

definition demo_acme :: acme where
  "demo_acme = \<lparr>aw_now = 1000, aw_script = [demo_processing 5, demo_processing 95000], aw_log = [],
     aw_slots = [\<lparr>sl_name = ''letsencrypt'', sl_dir = ''d'', sl_eab = False, sl_meta = Some False, sl_account = Some \<lparr>ac_key = 0, ac_kid = Some ''k''\<rparr>,
       sl_nonce = Some ''n'', sl_down = 0, sl_pace = []\<rparr>], aw_accounts = [], aw_keys = 1, aw_orders = [(''key'', demo_held_order)]\<rparr>"

definition demo_lib :: acme_lib where
  "demo_lib = \<lparr>al_leaf = (\<lambda>t. Some (0, 9000)), al_txt = (\<lambda>t a. t)\<rparr>"

definition demo_resumed :: "(acme_err + issued) \<times> acme" where
  "demo_resumed = with_account 0 (resume_once demo_lib ''key'' demo_held_order 0) demo_acme"

lemma demo_resumed_value: "fst demo_resumed = Inl (pending_err None)"
  by code_simp


end
