(* ===== verification/Cert_Service.thy ===== *)
theory Cert_Service
  imports Cert_Acme Domain_Safety
begin

text \<open>
  The certificate service (\<open>relay/certs.js\<close>): the checks in front of an issuance, the cache, the pacing and
  the backoff, the jobs that run on after their request was answered, and what holds in every state: an
  authority is asked only for names somebody with the live lease and the operator's signature asked for.
\<close>

section \<open>State\<close>

record cert_rec =
  ct_name :: string
  ct_hash :: string
  ct_key :: key_info
  ct_endpoint :: string
  ct_issued :: issued

record cert_failure =
  cf_at :: int
  cf_n :: nat

record flight =
  fl_name :: cert_name
  fl_csr :: csr_info
  fl_endpoint :: string

record cert_state =
  cs_acme :: acme
  cs_certs :: "(string \<times> cert_rec) list"
  cs_fail :: "(string \<times> cert_failure) list"
  cs_flight :: "(string \<times> flight) list"
  cs_seen :: seen_sigs
  cs_ip :: buckets
  cs_ep :: buckets
  cs_owners :: ep_owners

record cert_lib =
  kl_on :: bool
  kl_key :: string
  kl_zones :: "string list"
  kl_dom :: dom_cfg
  kl_csr :: csr_crypto
  kl_acme :: acme_lib
  kl_mac :: "string \<Rightarrow> string"
  kl_sha :: "string \<Rightarrow> string"
  kl_recover :: signer_of

record cert_env =
  rq_now :: int
  rq_ip :: string
  rq_wired :: bool
  rq_owner :: owner_answer
  rq_reads :: "owned_row list option \<times> owned_row list option"
  rq_epId :: "string \<Rightarrow> string"
  rq_custom :: "string \<Rightarrow> string option"

datatype cert_reply = CertsDisabled | CertNotFound | CertNotPost | CertLimited | CertBadJson | CertThrows | CertBadEndpoint | CertBadTs
  | CertNoCsr | CertNoOpSig | CertRefusedName name_error | CertBadCsr csr_error | CertBadSig | CertReplayed | CertUnregistered
  | CertWrongOperator | CertNoDeployment | CertNotHolder | CertIssued cert_rec bool | CertJoined string | CertRetry int
  | CertLaunched string | CertIssueFailed

text \<open>Whether the service runs at all: the keys it needs, in their shape.\<close>

definition hex64 :: "string \<Rightarrow> bool" where "hex64 s \<longleftrightarrow> hex_str 64 64 (to_lower s)"

definition certs_on :: "(string \<Rightarrow> string option) \<Rightarrow> bool \<Rightarrow> bool" where
  "certs_on env dir =
     (let key = env_text (env ''CERTS_KEY''); root = (if key = [] then env_text (env ''SECRETS_KEY'') else key)
      in root \<noteq> [] \<and> strip_slashes (env_text (env ''DNS_API'')) \<noteq> [] \<and> env_text (env ''DNS_TXT_KEY'') \<noteq> [] \<and> cert_zone (env ''APP_ZONE'') \<noteq> []
         \<and> dir \<and> (key = [] \<or> hex64 key) \<and> hex64 root \<and> hex64 (env_text (env ''DNS_TXT_KEY'')))"

definition cache_key :: "string \<Rightarrow> string \<Rightarrow> string" where
  "cache_key name hash = name @ ''|'' @ hash"

definition cert_fresh :: "int \<Rightarrow> cert_rec \<Rightarrow> bool" where
  "cert_fresh now r \<longleftrightarrow> 3 * now < 3 * is_from (ct_issued r) + 2 * (is_until (ct_issued r) - is_from (ct_issued r))"

definition backoff_sec :: "nat \<Rightarrow> int" where
  "backoff_sec n = min 3600 (60 * 2 ^ (n - 1))"

definition cert_sweep :: "int \<Rightarrow> cert_state \<Rightarrow> cert_state" where
  "cert_sweep now S =
     S\<lparr>cs_certs := filter (\<lambda>(k, r). \<not> is_until (ct_issued r) < now) (cs_certs S),
       cs_fail := filter (\<lambda>(n, f). \<not> 86400000 < now - cf_at f) (cs_fail S),
       cs_acme := (cs_acme S)\<lparr>aw_orders := filter (\<lambda>(k, r). \<not> HELD_TTL_MS < now - or_at r) (aw_orders (cs_acme S))\<rparr>\<rparr>"

section \<open>The checks\<close>

definition issue_tuple :: "string \<Rightarrow> string \<Rightarrow> string \<Rightarrow> int \<Rightarrow> string" where
  "issue_tuple name endpoint hash ts = name @ '':'' @ endpoint @ '':'' @ hash @ '':'' @ show_int ts"

definition issue_message :: "string \<Rightarrow> string \<Rightarrow> string \<Rightarrow> int \<Rightarrow> string" where
  "issue_message name endpoint hash ts = ''enclave-certs-issue:'' @ issue_tuple name endpoint hash ts"

text \<open>A keyed hash that was sent must be right, if the relay can tell.\<close>

definition fleet_factor_ok :: "cert_lib \<Rightarrow> string \<Rightarrow> string \<Rightarrow> bool" where
  "fleet_factor_ok V text sig \<longleftrightarrow> sig = [] \<or> kl_key V = []
     \<or> kl_mac V text = (if hex64 sig then to_lower sig else replicate 64 (CHR ''0''))"

definition spend_sigs :: "cert_lib \<Rightarrow> int \<Rightarrow> string \<Rightarrow> string \<Rightarrow> int \<Rightarrow> seen_sigs \<Rightarrow> bool \<times> seen_sigs" where
  "spend_sigs V nowSec opSig sig expiry seen =
     (case sig_fresh (kl_sha V) nowSec opSig expiry seen of
        (ok1, seen1) \<Rightarrow>
          if sig = [] then (ok1, seen1)
          else (case sig_fresh (kl_sha V) nowSec sig expiry seen1 of (ok2, seen2) \<Rightarrow> (ok1 \<and> ok2, seen2)))"

definition label_row :: "cert_env \<Rightarrow> string \<Rightarrow> string \<Rightarrow> owned_row option" where
  "label_row E endpoint i =
     (let d = Option.bind (fst (rq_reads E)) (\<lambda>rows. row_for_label rows i)
      in if row_held_by (rq_now E) (rq_epId E endpoint) d then d
         else Option.bind (snd (rq_reads E)) (\<lambda>rows. row_for_label rows i))"

text \<open>The signatures, the endpoint's own operator and the lease.\<close>

definition cert_auth :: "cert_lib \<Rightarrow> cert_env \<Rightarrow> cert_name \<Rightarrow> csr_info \<Rightarrow> string \<Rightarrow> int \<Rightarrow> string \<Rightarrow> string \<Rightarrow> cert_state \<Rightarrow> cert_reply option \<times> cert_state" where
  "cert_auth V E a csr endpoint ts opSig sig S =
     (if \<not> fleet_factor_ok V (issue_tuple (cn_name a) endpoint (ci_hash csr) ts) sig then (Some CertBadSig, S)
      else case spend_sigs V (rq_now E div 1000) opSig sig (ts + 600) (cs_seen S) of
        (fresh, seen) \<Rightarrow>
          (let S1 = S\<lparr>cs_seen := seen\<rparr>
           in if \<not> fresh then (Some CertReplayed, S1)
              else case endpoint_operator (rq_wired E) (rq_owner E) endpoint (cs_owners S1) of
                (owner, owners) \<Rightarrow>
                  (let S2 = S1\<lparr>cs_owners := owners\<rparr>;
                       signer = recover_op (kl_recover V) (issue_message (cn_name a) endpoint (ci_hash csr) ts) (Some (JStr opSig));
                       d = label_row E endpoint (cn_id a)
                   in if owner = None then (Some CertUnregistered, S2)
                      else if signer = None then (Some CertNoOpSig, S2)
                      else if signer \<noteq> owner then (Some CertWrongOperator, S2)
                      else if d = None then (Some CertNoDeployment, S2)
                      else if \<not> row_held_by (rq_now E) (rq_epId E endpoint) d then (Some CertNotHolder, S2)
                      else (None, S2))))"

definition cert_gate :: "cert_lib \<Rightarrow> cert_env \<Rightarrow> json \<Rightarrow> cert_state \<Rightarrow> (cert_reply + flight) \<times> cert_state" where
  "cert_gate V E b S =
     (let endpoint = strip_slashes (text_or_empty (json_get ''endpoint'' b)); sig = text_or_empty (json_get ''sig'' b);
          opSig = text_or_empty (json_get ''opSig'' b)
      in if \<not> web_origin endpoint then (Inl CertBadEndpoint, S)
         else case json_int_at ''ts'' b of
           None \<Rightarrow> (Inl CertBadTs, S)
         | Some ts \<Rightarrow>
             if 600000 < \<bar>rq_now E - ts * 1000\<bar> then (Inl CertBadTs, S)
             else (case json_get ''csr'' b of
               Some (JStr pem) \<Rightarrow>
                 if opSig = [] then (Inl CertNoOpSig, S)
                 else (case authorize_name (kl_dom V) (kl_zones V) (rq_custom E) (text_or_empty (json_get ''name'' b)) of
                   Inl e \<Rightarrow> (Inl (CertRefusedName e), S)
                 | Inr a \<Rightarrow>
                     (case parse_csr (kl_csr V) pem (cn_name a) of
                        Inl e \<Rightarrow> (Inl (CertBadCsr e), S)
                      | Inr csr \<Rightarrow>
                          (case cert_auth V E a csr endpoint ts opSig sig S of
                             (Some r, S1) \<Rightarrow> (Inl r, S1)
                           | (None, S1) \<Rightarrow> (Inr \<lparr>fl_name = a, fl_csr = csr, fl_endpoint = endpoint\<rparr>, S1))))
             | _ \<Rightarrow> (Inl CertNoCsr, S)))"

section \<open>Cache, pacing, jobs\<close>

definition flight_key :: "flight \<Rightarrow> string" where
  "flight_key f = cache_key (cn_name (fl_name f)) (ci_hash (fl_csr f))"

definition cert_proceed :: "int \<Rightarrow> flight \<Rightarrow> cert_state \<Rightarrow> cert_reply \<times> cert_state" where
  "cert_proceed now f S =
     (let key = flight_key f; name = cn_name (fl_name f); launch = (\<lambda>S. (CertLaunched key, S\<lparr>cs_flight := AList.update key f (cs_flight S)\<rparr>));
          hit = (case map_of (cs_certs S) key of Some r \<Rightarrow> if cert_fresh now r then Some r else None | None \<Rightarrow> None);
          wait = (case map_of (cs_fail S) name of
                    Some x \<Rightarrow> (let left = cf_at x + backoff_sec (cf_n x) * 1000 - now in if 0 < left then Some (- ((- left) div 1000)) else None)
                  | None \<Rightarrow> None)
      in if hit \<noteq> None then (CertIssued (the hit) True, S)
         else if map_of (cs_flight S) key \<noteq> None then (CertJoined key, S)
         else case wait of
           Some sec \<Rightarrow> (CertRetry sec, S)
         | None \<Rightarrow>
             if map_of (aw_orders (cs_acme S)) key \<noteq> None then launch S
             else (case take_token 20 (20 / 3600) now (fl_endpoint f) (cs_ep S) of
                     (ok, bs) \<Rightarrow> (let S1 = S\<lparr>cs_ep := bs\<rparr> in if ok then launch S1 else (CertRetry 300, S1))))"

definition handle_certs :: "cert_lib \<Rightarrow> string \<Rightarrow> cert_env \<Rightarrow> string \<Rightarrow> string \<Rightarrow> cert_state \<Rightarrow> cert_reply \<times> cert_state" where
  "handle_certs V method E path raw S =
     (if \<not> kl_on V then (CertsDisabled, S)
      else if path \<noteq> ''/v1/certs/issue'' then (CertNotFound, S)
      else if method \<noteq> ''POST'' then (CertNotPost, S)
      else case take_token 120 10 (rq_now E) (rq_ip E) (cs_ip S) of
        (ok, bs) \<Rightarrow>
          (let S1 = S\<lparr>cs_ip := bs\<rparr>
           in if \<not> ok then (CertLimited, S1)
              else case json_parse (if raw = [] then ''{}'' else raw) of
                None \<Rightarrow> (CertBadJson, S1)
              | Some b \<Rightarrow>
                  if b = JNull then (CertThrows, S1)
                  else (case cert_gate V E b S1 of
                          (Inl r, S2) \<Rightarrow> (r, S2)
                        | (Inr f, S2) \<Rightarrow> cert_proceed (rq_now E) f S2)))"

text \<open>The job of a launched request: what became of it is recorded whether or not somebody still waits.\<close>

definition run_flight :: "cert_lib \<Rightarrow> int \<Rightarrow> acme_answer list \<Rightarrow> string \<Rightarrow> cert_state \<Rightarrow> (acme_err + cert_rec) option \<times> cert_state" where
  "run_flight V now script key S =
     (case map_of (cs_flight S) key of
        None \<Rightarrow> (None, S)
      | Some f \<Rightarrow>
          (let name = cn_name (fl_name f)
           in case acme_issue (kl_acme V) name (ci_der (fl_csr f)) key (cn_txt (fl_name f)) ((cs_acme S)\<lparr>aw_now := now, aw_script := script\<rparr>) of
                (Inr i, A) \<Rightarrow>
                  (let r = \<lparr>ct_name = name, ct_hash = ci_hash (fl_csr f), ct_key = ci_key (fl_csr f), ct_endpoint = fl_endpoint f, ct_issued = i\<rparr>
                   in (Some (Inr r), S\<lparr>cs_acme := A, cs_flight := AList.delete key (cs_flight S), cs_fail := AList.delete name (cs_fail S),
                        cs_certs := AList.update key r (filter (\<lambda>(k, c). \<not> (ct_name c = name \<and> k \<noteq> key)) (cs_certs S))\<rparr>))
              | (Inl e, A) \<Rightarrow>
                  (let S1 = S\<lparr>cs_acme := A, cs_flight := AList.delete key (cs_flight S)\<rparr>;
                       n = (case map_of (cs_fail S) name of Some x \<Rightarrow> cf_n x | None \<Rightarrow> 0)
                   in (Some (Inl e),
                       if ae_paced e \<noteq> None \<or> ae_pending e \<noteq> None then S1
                       else S1\<lparr>cs_fail := AList.update name \<lparr>cf_at = aw_now A, cf_n = Suc n\<rparr> (cs_fail S)\<rparr>))))"

definition SYNC_WAIT_MS :: int where "SYNC_WAIT_MS = 8000"

text \<open>The answer to the request that launched the job, and to one that joined it, after \<open>elapsed\<close> milliseconds.\<close>

definition launch_reply :: "int \<Rightarrow> acme_err + cert_rec \<Rightarrow> cert_reply" where
  "launch_reply elapsed r =
     (if SYNC_WAIT_MS < elapsed then CertRetry 30
      else case r of
        Inr c \<Rightarrow> CertIssued c False
      | Inl e \<Rightarrow> (case (ae_paced e, ae_pending e) of
                    (Some s, _) \<Rightarrow> CertRetry s | (None, Some s) \<Rightarrow> CertRetry s | (None, None) \<Rightarrow> CertIssueFailed))"

definition join_reply :: "int \<Rightarrow> acme_err + cert_rec \<Rightarrow> cert_reply" where
  "join_reply elapsed r =
     (case r of Inr c \<Rightarrow> if elapsed \<le> SYNC_WAIT_MS then CertIssued c True else CertRetry 30 | Inl e \<Rightarrow> CertRetry 30)"

section \<open>What a request that passes shows\<close>

text \<open>
  The name is one of ours or proven for the deployment, the request is for that name and this key, the
  registered operator of the endpoint signed for exactly both, and the endpoint holds the live lease of the
  one deployment the name belongs to.
\<close>

definition grant_ok :: "cert_lib \<Rightarrow> ep_owners \<Rightarrow> cert_env \<Rightarrow> flight \<Rightarrow> bool" where
  "grant_ok V owners E f \<longleftrightarrow>
     (\<exists>raw pem ts opSig op d. authorize_name (kl_dom V) (kl_zones V) (rq_custom E) raw = Inr (fl_name f)
        \<and> parse_csr (kl_csr V) pem (cn_name (fl_name f)) = Inr (fl_csr f)
        \<and> \<bar>rq_now E - ts * 1000\<bar> \<le> 600000
        \<and> fst (endpoint_operator (rq_wired E) (rq_owner E) (fl_endpoint f) owners) = Some op
        \<and> recover_op (kl_recover V) (issue_message (cn_name (fl_name f)) (fl_endpoint f) (ci_hash (fl_csr f)) ts) (Some (JStr opSig)) = Some op
        \<and> label_row E (fl_endpoint f) (cn_id (fl_name f)) = Some d
        \<and> row_held_by (rq_now E) (rq_epId E (fl_endpoint f)) (Some d))"

lemma label_row_ledger:
  assumes "label_row E endpoint i = Some d"
  shows "prefix (to_lower i) (to_lower (ow_id d))
     \<and> (\<exists>rows. (fst (rq_reads E) = Some rows \<or> snd (rq_reads E) = Some rows) \<and> d \<in> set rows)"
proof -
  from assms have "Option.bind (fst (rq_reads E)) (\<lambda>rows. row_for_label rows i) = Some d
      \<or> Option.bind (snd (rq_reads E)) (\<lambda>rows. row_for_label rows i) = Some d"
    by (auto simp: label_row_def Let_def split: if_splits)
  then obtain rows where "fst (rq_reads E) = Some rows \<or> snd (rq_reads E) = Some rows" "row_for_label rows i = Some d"
    by (auto simp: bind_eq_Some_conv)
  with row_for_label_only [of rows i d] show ?thesis by auto
qed

lemma cert_auth_passed:
  assumes "cert_auth V E a csr endpoint ts opSig sig S = (None, S')"
  shows "\<exists>op d. fst (endpoint_operator (rq_wired E) (rq_owner E) endpoint (cs_owners S)) = Some op
    \<and> recover_op (kl_recover V) (issue_message (cn_name a) endpoint (ci_hash csr) ts) (Some (JStr opSig)) = Some op
    \<and> label_row E endpoint (cn_id a) = Some d \<and> row_held_by (rq_now E) (rq_epId E endpoint) (Some d)
    \<and> fst (sig_fresh (kl_sha V) (rq_now E div 1000) opSig (ts + 600) (cs_seen S))"
proof -
  obtain fresh seen where sp: "spend_sigs V (rq_now E div 1000) opSig sig (ts + 600) (cs_seen S) = (fresh, seen)" by fastforce
  obtain owner owners where o: "endpoint_operator (rq_wired E) (rq_owner E) endpoint (cs_owners S) = (owner, owners)" by fastforce
  from assms sp o have c: "fresh" "owner \<noteq> None"
    "recover_op (kl_recover V) (issue_message (cn_name a) endpoint (ci_hash csr) ts) (Some (JStr opSig)) = owner"
    "label_row E endpoint (cn_id a) \<noteq> None" "row_held_by (rq_now E) (rq_epId E endpoint) (label_row E endpoint (cn_id a))"
    by (auto simp: cert_auth_def Let_def split: if_splits)
  from sp c(1) have "fst (sig_fresh (kl_sha V) (rq_now E div 1000) opSig (ts + 600) (cs_seen S))"
    by (auto simp: spend_sigs_def split: prod.splits if_splits)
  with c o show ?thesis by auto
qed

lemma cert_auth_keeps:
  "cs_acme (snd (cert_auth V E a csr endpoint ts opSig sig S)) = cs_acme S \<and> cs_certs (snd (cert_auth V E a csr endpoint ts opSig sig S)) = cs_certs S
   \<and> cs_flight (snd (cert_auth V E a csr endpoint ts opSig sig S)) = cs_flight S \<and> cs_fail (snd (cert_auth V E a csr endpoint ts opSig sig S)) = cs_fail S"
proof -
  obtain fresh seen where sp: "spend_sigs V (rq_now E div 1000) opSig sig (ts + 600) (cs_seen S) = (fresh, seen)" by fastforce
  obtain owner owners where o: "endpoint_operator (rq_wired E) (rq_owner E) endpoint (cs_owners S) = (owner, owners)" by fastforce
  show ?thesis by (simp add: cert_auth_def sp o Let_def)
qed

lemma cert_gate_keeps:
  assumes "cert_gate V E b S = (x, S')"
  shows "cs_acme S' = cs_acme S \<and> cs_certs S' = cs_certs S \<and> cs_flight S' = cs_flight S \<and> cs_fail S' = cs_fail S"
proof (cases "S' = S")
  case False
  with assms obtain a csr endpoint ts opSig sig y where "cert_auth V E a csr endpoint ts opSig sig S = (y, S')"
    by (auto simp: cert_gate_def Let_def split: if_splits option.splits sum.splits json.splits prod.splits)
  with cert_auth_keeps [of V E a csr endpoint ts opSig sig S] show ?thesis by simp
qed simp

lemma cert_gate_passed:
  assumes "cert_gate V E b S = (Inr f, S')"
  shows "grant_ok V (cs_owners S) E f"
proof -
  let ?ep = "strip_slashes (text_or_empty (json_get ''endpoint'' b))"
  let ?op = "text_or_empty (json_get ''opSig'' b)"
  from assms obtain ts pem where t: "\<bar>rq_now E - ts * 1000\<bar> \<le> 600000"
    and a: "authorize_name (kl_dom V) (kl_zones V) (rq_custom E) (text_or_empty (json_get ''name'' b)) = Inr (fl_name f)"
      "parse_csr (kl_csr V) pem (cn_name (fl_name f)) = Inr (fl_csr f)" "fl_endpoint f = ?ep"
    and c: "cert_auth V E (fl_name f) (fl_csr f) ?ep ts ?op (text_or_empty (json_get ''sig'' b)) S = (None, S')"
    by (auto simp: cert_gate_def Let_def not_less split: if_splits option.splits sum.splits json.splits prod.splits)
  with cert_auth_passed [OF c] show ?thesis unfolding grant_ok_def by metis
qed

text \<open>The request of a call of the route that passed, if one did.\<close>

definition passes :: "cert_lib \<Rightarrow> cert_env \<Rightarrow> string \<Rightarrow> cert_state \<Rightarrow> flight \<Rightarrow> bool" where
  "passes V E raw S f \<longleftrightarrow> (\<exists>bs b S2. json_parse (if raw = [] then ''{}'' else raw) = Some b
     \<and> cert_gate V E b (S\<lparr>cs_ip := bs\<rparr>) = (Inr f, S2))"

lemma passes_grant: "passes V E raw S f \<Longrightarrow> grant_ok V (cs_owners S) E f"
  by (auto simp: passes_def dest!: cert_gate_passed)

fun grants :: "cert_reply \<Rightarrow> bool" where
  "grants (CertIssued r c) = True"
| "grants (CertJoined k) = True"
| "grants (CertLaunched k) = True"
| "grants (CertRetry s) = True"
| "grants r = False"

lemma cert_gate_refuses: "cert_gate V E b S = (Inl r, S') \<Longrightarrow> \<not> grants r"
  by (auto simp: cert_gate_def cert_auth_def Let_def split: if_splits option.splits sum.splits json.splits prod.splits)

lemma handle_certs_cases:
  assumes "handle_certs V method E path raw S = (reply, S')"
  obtains (refused) "cs_acme S' = cs_acme S" "cs_certs S' = cs_certs S" "cs_flight S' = cs_flight S" "cs_fail S' = cs_fail S" "\<not> grants reply"
  | (passed) f S2 where "passes V E raw S f" "cs_acme S2 = cs_acme S" "cs_certs S2 = cs_certs S" "cs_flight S2 = cs_flight S" "cs_fail S2 = cs_fail S"
      "cert_proceed (rq_now E) f S2 = (reply, S')"
proof -
  obtain ok bs where t: "take_token 120 10 (rq_now E) (rq_ip E) (cs_ip S) = (ok, bs)" by fastforce
  let ?S1 = "S\<lparr>cs_ip := bs\<rparr>"
  show ?thesis
  proof (cases "kl_on V \<and> path = ''/v1/certs/issue'' \<and> method = ''POST'' \<and> ok")
    case True
    show ?thesis
    proof (cases "json_parse (if raw = [] then ''{}'' else raw)")
      case (Some b)
      obtain x S2 where g: "cert_gate V E b ?S1 = (x, S2)" by fastforce
      from cert_gate_keeps [OF g] have k: "cs_acme S2 = cs_acme S" "cs_certs S2 = cs_certs S" "cs_flight S2 = cs_flight S" "cs_fail S2 = cs_fail S"
        by simp_all
      show ?thesis
      proof (cases x)
        case (Inl r)
        with cert_gate_refuses g have "\<not> grants r" by blast
        with Inl g t True Some assms k that(1) show ?thesis by (cases "b = JNull") (auto simp: handle_certs_def Let_def split: if_splits)
      next
        case (Inr f)
        with g t True Some assms k that(1) show ?thesis
          using that(2) [of f S2] by (cases "b = JNull") (auto simp: handle_certs_def passes_def Let_def split: if_splits)
      qed
    qed (use True assms t that(1) in \<open>auto simp: handle_certs_def Let_def\<close>)
  qed (use assms t that(1) in \<open>auto simp: handle_certs_def Let_def split: if_splits\<close>)
qed

lemma proceed_effect:
  assumes "cert_proceed now f S = (reply, S')"
  shows "cs_acme S' = cs_acme S \<and> cs_certs S' = cs_certs S
    \<and> (cs_flight S' = cs_flight S \<or> reply = CertLaunched (flight_key f) \<and> map_of (cs_flight S) (flight_key f) = None
          \<and> cs_flight S' = AList.update (flight_key f) f (cs_flight S))
    \<and> (\<forall>r c. reply = CertIssued r c \<longrightarrow> map_of (cs_certs S) (flight_key f) = Some r \<and> cert_fresh now r)
    \<and> (\<forall>k. reply = CertJoined k \<longrightarrow> k = flight_key f \<and> map_of (cs_flight S) k \<noteq> None)"
  using assms by (auto simp: cert_proceed_def Let_def split: if_splits option.splits prod.splits)

lemma proceed_launches:
  assumes "cert_proceed now f S = (reply, S')"
  shows "\<forall>k. reply = CertLaunched k \<or> reply = CertJoined k \<longrightarrow> k = flight_key f \<and> map_of (cs_flight S') k \<noteq> None"
  using assms by (auto simp: cert_proceed_def Let_def update_conv' split: if_splits option.splits prod.splits)

text \<open>
  C11: A certificate, a running order or a place in the queue is only given to a request whose name is one
  label of the platform's zones or a proven custom name, whose certificate request is for that name, whose
  timestamp is fresh, which the registered operator of the asking endpoint signed for name, endpoint and key,
  and whose endpoint holds the live lease of the one deployment the name belongs to. A certificate answered
  at once is the stored one of that name and key, and still fresh.
\<close>

theorem certificates_go_to_the_lease_holder:
  assumes "handle_certs V method E path raw S = (reply, S')" "grants reply"
  shows "\<exists>f. grant_ok V (cs_owners S) E f
    \<and> (\<forall>r c. reply = CertIssued r c \<longrightarrow> map_of (cs_certs S) (flight_key f) = Some r \<and> cert_fresh (rq_now E) r)
    \<and> (\<forall>k. reply = CertLaunched k \<or> reply = CertJoined k \<longrightarrow> k = flight_key f \<and> map_of (cs_flight S') k \<noteq> None)"
  using assms(1)
proof (cases rule: handle_certs_cases)
  case (passed f S2)
  from proceed_effect [OF passed(6)] passed(3,4) passes_grant [OF passed(1)] proceed_launches [OF passed(6)] show ?thesis
    by (intro exI [of _ f]) auto
qed (use assms(2) in simp)

section \<open>Every state\<close>

text \<open>
  The requests that were granted so far: with the operators known, the chain's answers and the clock of the
  time. A restart forgets the running jobs, the spent signatures and the rates, and keeps the store.
\<close>

type_synonym grant_log = "(ep_owners \<times> cert_env \<times> flight) set"

definition asked :: "grant_log \<Rightarrow> flight \<Rightarrow> bool" where
  "asked G f \<longleftrightarrow> (\<exists>owners E. (owners, E, f) \<in> G)"

definition cert_start :: "ca_slot list \<Rightarrow> cert_state" where
  "cert_start slots = \<lparr>cs_acme = \<lparr>aw_now = 0, aw_script = [], aw_log = [], aw_slots = slots, aw_accounts = [], aw_keys = 0, aw_orders = []\<rparr>,
     cs_certs = [], cs_fail = [], cs_flight = [], cs_seen = [], cs_ip = [], cs_ep = [], cs_owners = []\<rparr>"

definition cert_restart :: "int \<Rightarrow> ca_slot list \<Rightarrow> cert_state \<Rightarrow> cert_state" where
  "cert_restart now slots S =
     cert_sweep now (S\<lparr>cs_acme := (cs_acme S)\<lparr>aw_slots := slots\<rparr>, cs_flight := [], cs_seen := [], cs_ip := [], cs_ep := [], cs_owners := []\<rparr>)"

inductive cert_reachable :: "cert_lib \<Rightarrow> cert_state \<Rightarrow> grant_log \<Rightarrow> bool" for V where
  cert_boot: "cert_reachable V (cert_start slots) {}"
| cert_again: "cert_reachable V S G \<Longrightarrow> cert_reachable V (cert_restart now slots S) G"
| cert_ask: "cert_reachable V S G \<Longrightarrow> handle_certs V method E path raw S = (reply, S')
    \<Longrightarrow> cert_reachable V S' (G \<union> {g. \<exists>f. g = (cs_owners S, E, f) \<and> passes V E raw S f \<and> grants reply})"
| cert_job: "cert_reachable V S G \<Longrightarrow> run_flight V now script key S = (r, S') \<Longrightarrow> cert_reachable V S' G"
| cert_swept: "cert_reachable V S G \<Longrightarrow> cert_reachable V (cert_sweep now S) G"

text \<open>The policy the grants give the client of the authorities.\<close>

fun licensed :: "grant_log \<Rightarrow> string \<times> acme_call \<Rightarrow> bool" where
  "licensed G (who, NewOrder n) = (\<exists>f. asked G f \<and> cn_name (fl_name f) = n)"
| "licensed G (who, Finalize u d) = (\<exists>f. asked G f \<and> ci_der (fl_csr f) = d)"
| "licensed G (who, PutTxt n v) = (\<exists>f. asked G f \<and> cn_txt (fl_name f) = n)"
| "licensed G (who, call) = True"

definition order_for :: "grant_log \<Rightarrow> string \<Rightarrow> cert_order \<Rightarrow> bool" where
  "order_for G key r \<longleftrightarrow> (\<exists>f. asked G f \<and> key = flight_key f \<and> or_name r = cn_name (fl_name f) \<and> or_csr r = ci_der (fl_csr f))"

definition cert_for :: "grant_log \<Rightarrow> string \<Rightarrow> cert_rec \<Rightarrow> bool" where
  "cert_for G key c \<longleftrightarrow> (\<exists>f. asked G f \<and> key = flight_key f \<and> ct_name c = cn_name (fl_name f) \<and> ct_hash c = ci_hash (fl_csr f))"

fun_cases routine_cases: "routine (NewOrder n)" and "routine (Finalize u d)" and "routine (PutTxt n v)"

interpretation licence: ca_policy "licensed G" "order_for G" for G
proof
  show "licensed G (who, call)" if "routine call" for who call
    using that by (cases call) (auto elim: routine_cases)
  show "licensed G (who, Finalize u (or_csr r))" if "order_for G key r" for key r who u
    using that by (auto simp: order_for_def)
qed

definition cert_ok :: "cert_lib \<Rightarrow> grant_log \<Rightarrow> cert_state \<Rightarrow> bool" where
  "cert_ok V G S \<longleftrightarrow> list_all (licensed G) (aw_log (cs_acme S)) \<and> (\<forall>(key, r) \<in> set (aw_orders (cs_acme S)). order_for G key r)
     \<and> (\<forall>(key, f) \<in> set (cs_flight S). key = flight_key f \<and> asked G f)
     \<and> (\<forall>(key, c) \<in> set (cs_certs S). cert_for G key c) \<and> distinct (map fst (cs_certs S)) \<and> distinct (map (ct_name \<circ> snd) (cs_certs S))
     \<and> (\<forall>(owners, E, f) \<in> G. grant_ok V owners E f)"

lemma asked_mono: "asked G f \<Longrightarrow> G \<subseteq> H \<Longrightarrow> asked H f"
  by (auto simp: asked_def)

lemma licensed_mono: "licensed G x \<Longrightarrow> G \<subseteq> H \<Longrightarrow> licensed H x"
  by (induction G x rule: licensed.induct) (auto intro: asked_mono)

lemma orders_mono: "order_for G key r \<Longrightarrow> G \<subseteq> H \<Longrightarrow> order_for H key r" "cert_for G key c \<Longrightarrow> G \<subseteq> H \<Longrightarrow> cert_for H key c"
  unfolding order_for_def cert_for_def by (blast intro: asked_mono)+

lemma cert_ok_swept: "cert_ok V G S \<Longrightarrow> cert_ok V G (cert_sweep now S)"
  unfolding cert_ok_def cert_sweep_def by (auto simp: distinct_map_filter)

lemma cert_ok_again: "cert_ok V G S \<Longrightarrow> cert_ok V G (cert_restart now slots S)"
  unfolding cert_restart_def by (rule cert_ok_swept) (simp add: cert_ok_def)

lemma cert_ok_wider:
  assumes "cert_ok V G S" "G \<subseteq> H" "\<forall>(owners, E, f) \<in> H - G. grant_ok V owners E f"
    "cs_acme S' = cs_acme S" "cs_certs S' = cs_certs S" "\<forall>(key, f) \<in> set (cs_flight S') - set (cs_flight S). key = flight_key f \<and> asked H f"
  shows "cert_ok V H S'"
proof -
  have "list_all (licensed H) (aw_log (cs_acme S))" using assms(1,2) by (auto simp: cert_ok_def list_all_iff intro: licensed_mono)
  moreover have "\<forall>(key, r) \<in> set (aw_orders (cs_acme S)). order_for H key r" "\<forall>(key, c) \<in> set (cs_certs S). cert_for H key c"
    using assms(1,2) by (auto simp: cert_ok_def intro: orders_mono)
  moreover have "\<forall>(key, f) \<in> set (cs_flight S'). key = flight_key f \<and> asked H f"
  proof safe
    fix key f
    assume m: "(key, f) \<in> set (cs_flight S')"
    have "key = flight_key f \<and> asked H f"
    proof (cases "(key, f) \<in> set (cs_flight S)")
      case True
      with assms(1) have "key = flight_key f" "asked G f" by (auto simp: cert_ok_def)
      with asked_mono assms(2) show ?thesis by blast
    qed (use m assms(6) in blast)
    then show "key = flight_key f" "asked H f" by simp_all
  qed
  moreover have "\<forall>(owners, E, f) \<in> H. grant_ok V owners E f" using assms(1,3) unfolding cert_ok_def by blast
  ultimately show ?thesis using assms(1,4,5) by (simp add: cert_ok_def)
qed

lemma cert_ok_asked:
  assumes "cert_ok V G S" "handle_certs V method E path raw S = (reply, S')"
  shows "cert_ok V (G \<union> {g. \<exists>f. g = (cs_owners S, E, f) \<and> passes V E raw S f \<and> grants reply}) S'"
  (is "cert_ok V ?H S'")
  using assms(2)
proof (cases rule: handle_certs_cases)
  case refused
  then show ?thesis by (intro cert_ok_wider [OF assms(1)]) auto
next
  case (passed f S2)
  note e = proceed_effect [OF passed(6)]
  have "asked ?H f" if "reply = CertLaunched (flight_key f)"
    using that passed(1) by (auto simp: asked_def)
  then have "\<forall>(key, g) \<in> set (cs_flight S') - set (cs_flight S). key = flight_key g \<and> asked ?H g"
    using e passed(4) by (auto dest!: update_members)
  with e passed(2,3) show ?thesis
    by (intro cert_ok_wider [OF assms(1)]) (auto dest: passes_grant)
qed

lemma distinct_names_update:
  assumes "distinct (map fst m)" "distinct (map (g \<circ> snd) m)" "\<forall>(k, c) \<in> set m. g c = g r \<longrightarrow> k = key"
  shows "distinct (map (g \<circ> snd) (AList.update key r m))"
  using assms
proof (induction m)
  case (Cons x m)
  obtain k c where x: "x = (k, c)" by fastforce
  have n: "g r \<notin> (g \<circ> snd) ` set m" if "k = key"
    using Cons.prems(1,3) that x by force
  have m: "y \<in> g ` snd ` set (AList.update key r m) \<Longrightarrow> y = g r \<or> y \<in> g ` snd ` set m" for y
    by (auto dest!: update_members)
  show ?case using Cons x n m by (auto simp: image_comp)
qed simp

lemma cert_ok_job:
  assumes "cert_ok V G S" "run_flight V now script key S = (r, S')"
  shows "cert_ok V G S'"
proof (cases "map_of (cs_flight S) key")
  case (Some f)
  with assms(1) have f: "asked G f" "key = flight_key f" by (auto simp: cert_ok_def dest: map_of_SomeD)
  let ?A = "(cs_acme S)\<lparr>aw_now := now, aw_script := script\<rparr>"
  let ?name = "cn_name (fl_name f)"
  obtain x A where i: "acme_issue (kl_acme V) ?name (ci_der (fl_csr f)) key (cn_txt (fl_name f)) ?A = (x, A)" by fastforce
  have "licence.conduct G ?A A"
    by (rule licence.conduct_issue [OF _ _ _ _ i]) (use assms(1) f in \<open>auto simp: cert_ok_def order_for_def\<close>)
  then have A: "list_all (licensed G) (aw_log A)" "\<forall>(key, r) \<in> set (aw_orders A). order_for G key r"
    using assms(1) by (auto simp: licence.conduct_def cert_ok_def)
  have fl: "\<forall>(k, g) \<in> set (AList.delete key (cs_flight S)). k = flight_key g \<and> asked G g"
    using assms(1) by (auto simp: cert_ok_def dest!: delete_members)
  show ?thesis
  proof (cases x)
    case (Inl e)
    with assms A fl i Some show ?thesis by (auto simp: run_flight_def cert_ok_def Let_def split: if_splits)
  next
    case (Inr d)
    let ?r = "\<lparr>ct_name = ?name, ct_hash = ci_hash (fl_csr f), ct_key = ci_key (fl_csr f), ct_endpoint = fl_endpoint f, ct_issued = d\<rparr>"
    let ?m = "filter (\<lambda>(k, c). \<not> (ct_name c = ?name \<and> k \<noteq> key)) (cs_certs S)"
    have c: "\<forall>(k, c) \<in> set (AList.update key ?r ?m). cert_for G k c"
      using assms(1) f by (auto simp: cert_ok_def cert_for_def dest!: update_members)
    have "distinct (map fst ?m)" "distinct (map (ct_name \<circ> snd) ?m)" using assms(1) by (simp_all add: cert_ok_def distinct_map_filter)
    then have d: "distinct (map fst (AList.update key ?r ?m))" "distinct (map (ct_name \<circ> snd) (AList.update key ?r ?m))"
      by (auto intro!: distinct_alist_update distinct_names_update)
    with assms A fl c i Some Inr show ?thesis by (auto simp: run_flight_def cert_ok_def Let_def)
  qed
qed (use assms in \<open>simp add: run_flight_def\<close>)

lemma reachable_cert_ok: "cert_reachable V S G \<Longrightarrow> cert_ok V G S"
proof (induction rule: cert_reachable.induct)
  case (cert_boot slots)
  show ?case by (simp add: cert_ok_def cert_start_def)
qed (simp_all add: cert_ok_again cert_ok_asked cert_ok_job cert_ok_swept)

text \<open>
  C8: In every state, whatever authorities, name servers, enclaves and restarts do: an order was only ever
  placed for a name that a granted request asked for (by its endpoint's operator, under the live lease of
  the name's deployment), an order is only finalized with the certificate request of such a grant, a
  challenge record is only published where a granted name is proven, a stored certificate is the one of a
  granted name and key, and no name has two.
\<close>

theorem authorities_are_asked_for_granted_names:
  assumes "cert_reachable V S G"
  shows "(\<forall>who n. (who, NewOrder n) \<in> set (aw_log (cs_acme S))
        \<longrightarrow> (\<exists>(owners, E, f) \<in> G. grant_ok V owners E f \<and> cn_name (fl_name f) = n))
    \<and> (\<forall>who u d. (who, Finalize u d) \<in> set (aw_log (cs_acme S))
        \<longrightarrow> (\<exists>(owners, E, f) \<in> G. grant_ok V owners E f \<and> ci_der (fl_csr f) = d))
    \<and> (\<forall>who n v. (who, PutTxt n v) \<in> set (aw_log (cs_acme S))
        \<longrightarrow> (\<exists>(owners, E, f) \<in> G. grant_ok V owners E f \<and> cn_txt (fl_name f) = n))
    \<and> (\<forall>(key, c) \<in> set (cs_certs S). \<exists>(owners, E, f) \<in> G. grant_ok V owners E f
        \<and> key = flight_key f \<and> ct_name c = cn_name (fl_name f) \<and> ct_hash c = ci_hash (fl_csr f))
    \<and> distinct (map (ct_name \<circ> snd) (cs_certs S))"
proof -
  from reachable_cert_ok [OF assms] have ok: "\<forall>x \<in> set (aw_log (cs_acme S)). licensed G x"
    "\<forall>(key, c) \<in> set (cs_certs S). cert_for G key c" "distinct (map (ct_name \<circ> snd) (cs_certs S))" "\<forall>(owners, E, f) \<in> G. grant_ok V owners E f"
    by (simp_all add: cert_ok_def list_all_iff)
  show ?thesis using ok by (fastforce simp: asked_def cert_for_def)
qed


section \<open>With the custom domains\<close>

lemma authorized_shape:
  assumes "authorize_name C zones customOf raw = Inr a"
  shows "cn_name a = drop_dots (to_lower raw) \<and> list_all cert_name_char (cn_name a)"
  using assms by (auto simp: authorize_name_def Let_def split: if_splits option.splits)

lemma cert_name_lower: "list_all cert_name_char n \<Longrightarrow> to_lower n = n \<and> takeWhile (\<lambda>c. c \<noteq> CHR '':'') n = n"
proof (induction n)
  case (Cons c n)
  have "to_lower [c] = [c] \<and> c \<noteq> CHR '':''" if "cert_name_char c"
    using that by (auto simp: cert_name_char_def to_lower_def lower_char_def)
  with Cons show ?case by (simp add: to_lower_def)
qed (simp add: to_lower_def)

lemma drop_dots_twice [simp]: "drop_dots (drop_dots s) = drop_dots s"
  by (simp add: drop_dots_def)

lemma asked_custom_name:
  assumes "authorize_name C zones (\<lambda>n. domain_deployment up n D) raw = Inr a" "cn_zone a = None" "dom_reachable C' ascii sha mac recover on D P"
  shows "\<exists>r. map_of (dm_by D) (cn_name a) = Some r \<and> dom_live r \<and> to_lower (dr_dep r) = cn_id a \<and> (cn_name a, dr_token r) \<in> P \<and> dr_strikes r < 5"
proof -
  note sh = authorized_shape [OF assms(1)]
  with cert_name_lower have n: "drop_dots (takeWhile (\<lambda>c. c \<noteq> CHR '':'') (to_lower (cn_name a))) = cn_name a"
    by (metis drop_dots_twice)
  from authorized_name [OF assms(1)] assms(2) have "map_option to_lower (domain_deployment up (cn_name a) D) = Some (cn_id a)" by auto
  then obtain r where r: "map_of (dm_by D) (cn_name a) = Some r" "dom_live r" "to_lower (dr_dep r) = cn_id a"
    by (auto simp: domain_deployment_def n Let_def split: if_splits option.splits)
  with dom_ok_lookup [OF reachable_dom_ok [OF assms(3)] r(1)] show ?thesis by (auto simp: rec_ok_def)
qed


section \<open>Demonstration\<close>

definition demo_pem :: string where
  "demo_pem = ''-----BEGIN CERTIFICATE REQUEST-----x-----END CERTIFICATE REQUEST-----''"

definition shop_csr :: octets where
  "shop_csr = csr_der (\<lambda>m. [1]) (der_tlv 0x30 []) ''shop.co''"

lemma shop_csr_size: "length shop_csr \<le> 8192"
proof -
  have l: "length (oid_body OID_CN) = 3" "length (oid_body OID_EXT_REQ) = 9" "length (oid_body OID_SAN) = 3" "length (oid_body OID_ECDSA256) = 8"
    by (simp_all add: OID_CN_def OID_EXT_REQ_def OID_SAN_def OID_ECDSA256_def oid_body_def arc_bytes_def arc_rest.simps)
  show ?thesis
    by (simp add: shop_csr_def csr_der_def csr_cri_def csr_attr_def der_seq_def der_set_def der_oid_def der_octet_def der_ctx_def der_utf8_def
        der_bits_def der_int0_def length_der_tlv der_len_def l latin1_bytes_def)
qed

text \<open>The custom names are those of a domain service where the owner attached one that was checked once.\<close>

definition demo_domains :: dom_state where
  "demo_domains = settle_check demo_dom_cfg 7 demo_lookups ''shop.co'' ''tok'' (snd demo_attach)"

lemma demo_domains_reachable:
  "\<exists>P. dom_reachable demo_dom_cfg (\<lambda>x. x) (\<lambda>x. x) (\<lambda>x. x) (\<lambda>m s. Some ''0xA'') True demo_domains P"
  unfolding demo_domains_def demo_attach_def by (rule exI, rule dom_check, rule dom_request, rule dom_boot)

lemma demo_domains_route: "domain_deployment True ''shop.co'' demo_domains = Some dep_d"
proof -
  have "domain_deployment True ''shop.co'' (settle_check demo_dom_cfg 7 demo_lookups ''shop.co'' ''tok'' (demo_attached\<lparr>dm_gate := g, dm_add := a, dm_ip := p\<rparr>))
      = Some dep_d" for g a p by code_simp
  then show ?thesis using demo_attach_state by (auto simp: demo_domains_def)
qed

definition demo_certs :: cert_lib where
  "demo_certs = \<lparr>kl_on = True, kl_key = [], kl_zones = [], kl_dom = demo_dom_cfg, kl_csr = demo_csr_crypto\<lparr>ck_decode := \<lambda>s. shop_csr\<rparr>,
     kl_acme = demo_lib, kl_mac = (\<lambda>s. s), kl_sha = (\<lambda>s. s), kl_recover = (\<lambda>m s. Some ''0xB'')\<rparr>"

definition demo_cert_env :: cert_env where
  "demo_cert_env = \<lparr>rq_now = 200000, rq_ip = ''1'', rq_wired = True, rq_owner = OwnerIs ''0xB'', rq_reads = (Some [demo_owned], None),
     rq_epId = (\<lambda>ep. ''0x9''), rq_custom = (\<lambda>n. domain_deployment True n demo_domains)\<rparr>"

definition demo_cert_name :: cert_name where
  "demo_cert_name = \<lparr>cn_name = ''shop.co'', cn_zone = None, cn_label = label_for dep_d, cn_id = dep_d, cn_txt = acme_alias_for demo_dom_cfg (label_for dep_d)\<rparr>"

definition demo_cert_body :: json where
  "demo_cert_body = JObj [(''name'', JStr ''shop.co''), (''endpoint'', JStr ''https://b/''), (''ts'', JNum 200), (''csr'', JStr demo_pem),
     (''opSig'', JStr (sig_of (CHR ''b'')))]"

definition demo_cert_raw :: string where
  "demo_cert_raw = ''{\"name\":\"shop.co\",\"endpoint\":\"https://b/\",\"ts\":200,\"csr\":\"'' @ demo_pem @ ''\",\"opSig\":\"'' @ sig_of (CHR ''b'') @ ''\"}''"

lemma demo_cert_parse: "json_parse demo_cert_raw = Some demo_cert_body" "demo_cert_raw \<noteq> []" "demo_cert_body \<noteq> JNull"
  by code_simp+

lemma demo_cert_authorized: "authorize_name demo_dom_cfg [] (\<lambda>n. domain_deployment True n demo_domains) ''shop.co'' = Inr demo_cert_name"
proof -
  have "drop_dots (to_lower ''shop.co'') = ''shop.co''" "list_all cert_name_char ''shop.co''" "\<not> is_reserved_hostname demo_dom_cfg ''shop.co''"
    "to_lower dep_d = dep_d" "dep_bytes32 dep_d" by code_simp+
  then show ?thesis by (simp add: authorize_name_def demo_domains_route demo_cert_name_def)
qed

lemma demo_cert_row: "label_row demo_cert_env ''https://b'' dep_d = Some demo_owned" "row_held_by 200000 ''0x9'' (Some demo_owned)"
  by code_simp+

lemma demo_cert_operator: "endpoint_operator True (OwnerIs ''0xB'') ''https://b'' [] = (Some ''0xb'', [(''https://b'', ''0xb'')])"
  by code_simp

lemma demo_cert_spent: "sig_fresh (\<lambda>s. s) 200 (sig_of (CHR ''b'')) 800 [] = (True, [(sig_of (CHR ''b''), 800)])"
  by code_simp

lemma demo_cert_gate:
  "\<exists>csr S'. cert_gate demo_certs demo_cert_env demo_cert_body ((cert_start [])\<lparr>cs_ip := bs\<rparr>)
     = (Inr \<lparr>fl_name = demo_cert_name, fl_csr = csr, fl_endpoint = ''https://b''\<rparr>, S') \<and> cs_certs S' = [] \<and> cs_flight S' = [] \<and> cs_fail S' = [] \<and> cs_ep S' = [] \<and> cs_acme S' = cs_acme (cert_start [])"
proof -
  have b: "json_int_at ''ts'' demo_cert_body = Some 200" "text_or_empty (json_get ''endpoint'' demo_cert_body) = ''https://b/''"
    "json_get ''csr'' demo_cert_body = Some (JStr demo_pem)" "text_or_empty (json_get ''opSig'' demo_cert_body) = sig_of (CHR ''b'')"
    "text_or_empty (json_get ''sig'' demo_cert_body) = []" "text_or_empty (json_get ''name'' demo_cert_body) = ''shop.co''"
    by code_simp+
  let ?K = "demo_csr_crypto\<lparr>ck_decode := \<lambda>s. shop_csr\<rparr>"
  obtain info where "parse_csr_der ?K shop_csr ''shop.co'' = Inr info"
    using written_request [of "''shop.co''" "\<lambda>m. [1]" "der_tlv 0x30 []" "[]" ?K] shop_csr_size demo_csr_facts
    unfolding shop_csr_def by (auto simp: demo_csr_crypto_def cert_name_char_def)
  moreover have "pem_body demo_pem \<noteq> None" by code_simp
  ultimately have i: "parse_csr ?K demo_pem ''shop.co'' = Inr info" by (auto simp: parse_csr_def)
  have n: "cn_name demo_cert_name = ''shop.co''" "cn_id demo_cert_name = dep_d" by (simp_all add: demo_cert_name_def)
  have s: "strip_slashes ''https://b/'' = ''https://b''" "web_origin ''https://b''" "sig_of (CHR ''b'') \<noteq> []" "sig_shape (sig_of (CHR ''b''))"
    "to_lower ''0xB'' = ''0xb''" by code_simp+
  have spend: "spend_sigs demo_certs 200 (sig_of (CHR ''b'')) [] 800 [] = (True, [(sig_of (CHR ''b''), 800)])"
    using demo_cert_spent by (simp add: spend_sigs_def demo_certs_def)
  have E: "rq_now demo_cert_env = 200000" "rq_wired demo_cert_env" "rq_owner demo_cert_env = OwnerIs ''0xB''" "rq_epId demo_cert_env ep = ''0x9''"
    "rq_custom demo_cert_env = (\<lambda>n. domain_deployment True n demo_domains)" for ep by (simp_all add: demo_cert_env_def)
  have V: "kl_dom demo_certs = demo_dom_cfg" "kl_zones demo_certs = []" "kl_csr demo_certs = ?K" "kl_recover demo_certs = (\<lambda>m s. Some ''0xB'')"
    by (simp_all add: demo_certs_def)
  have a: "cert_auth demo_certs demo_cert_env demo_cert_name info ''https://b'' 200 (sig_of (CHR ''b'')) [] ((cert_start [])\<lparr>cs_ip := bs\<rparr>)
      = (None, (cert_start [])\<lparr>cs_ip := bs, cs_seen := [(sig_of (CHR ''b''), 800)], cs_owners := [(''https://b'', ''0xb'')]\<rparr>)"
    using s spend demo_cert_operator demo_cert_row
    by (simp add: cert_auth_def E V n fleet_factor_ok_def cert_start_def recover_op_def)
  show ?thesis
    using a s i demo_cert_authorized n by (simp add: cert_gate_def b E V cert_start_def Let_def)
qed

lemma demo_cert_run:
  "\<exists>f S'. cn_name (fl_name f) = ''shop.co'' \<and> handle_certs demo_certs ''POST'' demo_cert_env ''/v1/certs/issue'' demo_cert_raw (cert_start []) = (CertLaunched (flight_key f), S')"
proof -
  have t: "take_token 120 10 200000 ''1'' [] = (True, [(''1'', \<lparr>bk_tokens = 119, bk_at = 200000\<rparr>)])" and ep: "take_token 20 (20 / 3600) 200000 ''https://b'' [] = (True, [(''https://b'', \<lparr>bk_tokens = 19, bk_at = 200000\<rparr>)])"
    by code_simp+
  have V: "kl_on demo_certs" and E: "rq_now demo_cert_env = 200000" "rq_ip demo_cert_env = ''1''" and start: "cs_ip (cert_start []) = []"
    by (simp_all add: demo_certs_def demo_cert_env_def cert_start_def)
  obtain csr S2 where g: "cert_gate demo_certs demo_cert_env demo_cert_body ((cert_start [])\<lparr>cs_ip := [(''1'', \<lparr>bk_tokens = 119, bk_at = 200000\<rparr>)]\<rparr>)
       = (Inr \<lparr>fl_name = demo_cert_name, fl_csr = csr, fl_endpoint = ''https://b''\<rparr>, S2)"
    "cs_certs S2 = []" "cs_flight S2 = []" "cs_fail S2 = []" "cs_ep S2 = []" "cs_acme S2 = cs_acme (cert_start [])"
    using demo_cert_gate by blast
  let ?f = "\<lparr>fl_name = demo_cert_name, fl_csr = csr, fl_endpoint = ''https://b''\<rparr>"
  have "handle_certs demo_certs ''POST'' demo_cert_env ''/v1/certs/issue'' demo_cert_raw (cert_start []) = cert_proceed 200000 ?f S2"
    using t(1) demo_cert_parse by (simp add: handle_certs_def V E start g(1) Let_def)
  moreover have "\<exists>S'. cert_proceed 200000 ?f S2 = (CertLaunched (flight_key ?f), S')"
    using g(2-6) ep by (simp add: cert_proceed_def cert_start_def Let_def)
  moreover have "cn_name (fl_name ?f) = ''shop.co''" by (simp add: demo_cert_name_def)
  ultimately show ?thesis by metis
qed

theorem certificates_go_to_the_lease_holder_witness:
  "\<exists>f. grant_ok demo_certs [] demo_cert_env f"
proof -
  obtain f S' where "handle_certs demo_certs ''POST'' demo_cert_env ''/v1/certs/issue'' demo_cert_raw (cert_start []) = (CertLaunched (flight_key f), S')"
    using demo_cert_run by blast
  from certificates_go_to_the_lease_holder [OF this] show ?thesis by (auto simp: cert_start_def)
qed

theorem authorities_are_asked_for_granted_names_witness:
  "\<exists>S' G. cert_reachable demo_certs S' G \<and> cs_flight S' \<noteq> [] \<and> distinct (map (ct_name \<circ> snd) (cs_certs S'))"
proof -
  obtain f S' where h: "handle_certs demo_certs ''POST'' demo_cert_env ''/v1/certs/issue'' demo_cert_raw (cert_start []) = (CertLaunched (flight_key f), S')"
    using demo_cert_run by blast
  note r = cert_ask [OF cert_boot h]
  from handle_certs_cases [OF h] have "cs_flight S' \<noteq> []"
    by cases (use h in \<open>auto dest!: proceed_launches\<close>)
  with authorities_are_asked_for_granted_names [OF r] r show ?thesis by blast
qed



end
