(* ===== verification/Passkey_Keys.thy ===== *)
theory Passkey_Keys
  imports Der_Codec
begin

text \<open>
  The key of a passkey (\<open>coseToXY\<close> of \<open>relay/auth.js\<close>): a small CBOR reader that takes the two coordinates
  of a P-256 key out of a COSE map. Reading past the end gives \<open>undefined\<close>, which the arithmetic of the
  code turns into zero or not-a-number; the position \<open>None\<close> is not-a-number.
\<close>

section \<open>The reader\<close>

datatype cbor = CInt int | CNan | CUndef | CBytes octets | CNull

definition cbor_byte :: "octets \<Rightarrow> nat option \<Rightarrow> nat option" where
  "cbor_byte u p = (case p of Some i \<Rightarrow> if i < length u then Some (unat (u ! i)) else None | None \<Rightarrow> None)"

definition or_zero :: "nat option \<Rightarrow> nat" where
  "or_zero b = (case b of Some n \<Rightarrow> n | None \<Rightarrow> 0)"

definition cbor_move :: "nat option \<Rightarrow> nat option \<Rightarrow> nat option" where
  "cbor_move p n = (case (p, n) of (Some i, Some k) \<Rightarrow> Some (i + k) | _ \<Rightarrow> None)"

definition cbor_head :: "octets \<Rightarrow> nat option \<Rightarrow> (nat \<times> nat) \<times> nat option" where
  "cbor_head u p = (let b = or_zero (cbor_byte u p) in ((b div 32, b mod 32), cbor_move p (Some 1)))"

text \<open>The length or value in a head; \<open>Some None\<close> is \<open>undefined\<close>, \<open>None\<close> a throw.\<close>

definition cbor_uint :: "octets \<Rightarrow> nat \<Rightarrow> nat option \<Rightarrow> (nat option \<times> nat option) option" where
  "cbor_uint u i p =
     (if i < 24 then Some (Some i, p)
      else if i = 24 then Some (cbor_byte u p, cbor_move p (Some 1))
      else if i = 25 then Some (Some (or_zero (cbor_byte u p) * 256 + or_zero (cbor_byte u (cbor_move p (Some 1)))), cbor_move p (Some 2))
      else None)"

definition cbor_slice :: "octets \<Rightarrow> nat option \<Rightarrow> nat option \<Rightarrow> octets" where
  "cbor_slice u p n = (case (p, n) of (Some i, Some k) \<Rightarrow> take k (drop i u) | _ \<Rightarrow> [])"

definition cbor_item :: "octets \<Rightarrow> nat option \<Rightarrow> (cbor \<times> nat option) option" where
  "cbor_item u p =
     (case cbor_head u p of
        ((maj, i), p1) \<Rightarrow>
          if 3 < maj then None
          else (case cbor_uint u i p1 of
                  None \<Rightarrow> None
                | Some (n, p2) \<Rightarrow>
                    Some (if maj = 0 then (case n of Some k \<Rightarrow> CInt (int k) | None \<Rightarrow> CUndef, p2)
                          else if maj = 1 then (case n of Some k \<Rightarrow> CInt (- 1 - int k) | None \<Rightarrow> CNan, p2)
                          else if maj = 2 then (CBytes (cbor_slice u p2 n), cbor_move p2 n)
                          else (CNull, cbor_move p2 n))))"

text \<open>
  The entries are properties of an object: a key is its text, and the name \<open>__proto__\<close> sets the prototype,
  whose bytes answer for their positions. (The text of a byte string is its UTF-8 decoding; only ASCII
  texts matter to what is looked up.)
\<close>

definition cbor_key :: "cbor \<Rightarrow> string" where
  "cbor_key v = (case v of CInt k \<Rightarrow> show_int k | CNan \<Rightarrow> ''NaN'' | CUndef \<Rightarrow> ''undefined'' | CBytes b \<Rightarrow> map (\<lambda>w. char_of (unat w)) b | CNull \<Rightarrow> ''null'')"

record cbor_map =
  cm_own :: "(string \<times> cbor) list"
  cm_proto :: octets

definition cbor_set :: "string \<Rightarrow> cbor \<Rightarrow> cbor_map \<Rightarrow> cbor_map" where
  "cbor_set k v m =
     (if k = ''__proto__'' then (case v of CBytes b \<Rightarrow> m\<lparr>cm_proto := b\<rparr> | CNull \<Rightarrow> m\<lparr>cm_proto := []\<rparr> | _ \<Rightarrow> m)
      else m\<lparr>cm_own := AList.update k v (cm_own m)\<rparr>)"

definition cbor_get :: "int \<Rightarrow> cbor_map \<Rightarrow> cbor option" where
  "cbor_get k m =
     (case map_of (cm_own m) (show_int k) of
        Some v \<Rightarrow> Some v
      | None \<Rightarrow> if 0 \<le> k \<and> k < int (length (cm_proto m)) then Some (CInt (int (unat (cm_proto m ! nat k)))) else None)"

fun cbor_pairs :: "nat \<Rightarrow> octets \<Rightarrow> nat option \<Rightarrow> cbor_map \<Rightarrow> cbor_map option" where
  "cbor_pairs 0 u p m = Some m"
| "cbor_pairs (Suc n) u p m =
     (case cbor_item u p of
        None \<Rightarrow> None
      | Some (k, p1) \<Rightarrow>
          (case cbor_item u p1 of
             None \<Rightarrow> None
           | Some (v, p2) \<Rightarrow> cbor_pairs n u p2 (cbor_set (cbor_key k) v m)))"

definition hex_nibble :: "nat \<Rightarrow> char" where
  "hex_nibble n = ''0123456789abcdef'' ! n"

definition hex_octets :: "octets \<Rightarrow> string" where
  "hex_octets b = concat (map (\<lambda>w. [hex_nibble (unat w div 16), hex_nibble (unat w mod 16)]) b)"

definition cose_to_xy :: "octets \<Rightarrow> (string \<times> string) option" where
  "cose_to_xy u =
     (case cbor_head u (Some 0) of
        ((maj, i), p) \<Rightarrow>
          if maj \<noteq> 5 then None
          else (case cbor_uint u i p of
                  None \<Rightarrow> None
                | Some (n, p1) \<Rightarrow>
                    (case cbor_pairs (or_zero n) u p1 \<lparr>cm_own = [], cm_proto = []\<rparr> of
                       None \<Rightarrow> None
                     | Some m \<Rightarrow>
                         (case (cbor_get (- 2) m, cbor_get (- 3) m) of
                            (Some (CBytes x), Some (CBytes y)) \<Rightarrow>
                              if cbor_get 1 m = Some (CInt 2) \<and> cbor_get 3 m = Some (CInt (- 7)) \<and> length x = 32 \<and> length y = 32
                              then Some (''0x'' @ hex_octets x, ''0x'' @ hex_octets y) else None
                          | _ \<Rightarrow> None))))"

section \<open>Keys read back\<close>

text \<open>The key of an ES256 credential as authenticators write it (RFC 9053): type, algorithm, curve and the coordinates.\<close>

definition cose_key :: "octets \<Rightarrow> octets \<Rightarrow> octets" where
  "cose_key x y = [0xa5, 0x01, 0x02, 0x03, 0x26, 0x20, 0x01, 0x21, 0x58, 0x20] @ x @ [0x22, 0x58, 0x20] @ y"

lemma show_int_small: "show_int 1 = ''1''" "show_int 3 = ''3''" "show_int (- 1) = ''-1''" "show_int (- 2) = ''-2''" "show_int (- 3) = ''-3''"
  by code_simp+

lemma cbor_byte_drop: "drop i u = b # r \<Longrightarrow> cbor_byte u (Some i) = Some (unat b)"
  by (auto simp: cbor_byte_def hd_drop_conv_nth [symmetric] simp del: hd_drop_conv_nth) (metis drop_all list.distinct(1) not_le)

lemma item_uint:
  assumes "drop i u = b # r" "unat b < 24"
  shows "cbor_item u (Some i) = Some (CInt (int (unat b)), Some (i + 1))"
  using assms by (simp add: cbor_item_def cbor_head_def cbor_byte_drop or_zero_def cbor_move_def cbor_uint_def)

lemma item_negint:
  assumes "drop i u = b # r" "32 \<le> unat b" "unat b < 56"
  shows "cbor_item u (Some i) = Some (CInt (31 - int (unat b)), Some (i + 1))"
proof -
  have "unat b div 32 = 1" using assms(2,3) by (simp add: div_nat_eqI)
  moreover have "unat b mod 32 = unat b - 32" using assms(2,3) by (simp add: le_mod_geq)
  ultimately have "unat b div 32 = 1" "unat b mod 32 = unat b - 32" by simp_all
  with assms show ?thesis by (simp add: cbor_item_def cbor_head_def cbor_byte_drop or_zero_def cbor_move_def cbor_uint_def of_nat_diff)
qed

lemma item_bytes:
  assumes "drop i u = 0x58 # n # r"
  shows "cbor_item u (Some i) = Some (CBytes (take (unat n) r), Some (i + (2 + unat n)))"
proof -
  have "drop (i + k) u = drop k (drop i u)" for k by (simp add: add.commute)
  with assms have n: "drop (i + 1) u = n # r" "drop (i + 2) u = r" by (simp_all only: drop_Suc drop_0 tl_drop list.sel numeral_2_eq_2 One_nat_def)
  then show ?thesis
    using assms by (simp add: cbor_item_def cbor_head_def cbor_byte_drop or_zero_def cbor_move_def cbor_uint_def cbor_slice_def)
qed

lemma cose_key_read:
  assumes "length x = 32" "length y = 32"
  shows "cose_to_xy (cose_key x y) = Some (''0x'' @ hex_octets x, ''0x'' @ hex_octets y)"
proof -
  let ?u = "cose_key x y"
  have d: "drop 1 ?u = 0x01 # 0x02 # drop 3 ?u" "drop 2 ?u = 0x02 # drop 3 ?u" "drop 3 ?u = 0x03 # 0x26 # drop 5 ?u" "drop 4 ?u = 0x26 # drop 5 ?u"
    "drop 5 ?u = 0x20 # 0x01 # drop 7 ?u" "drop 6 ?u = 0x01 # drop 7 ?u" "drop 7 ?u = 0x21 # drop 8 ?u" "drop 8 ?u = 0x58 # 0x20 # x @ [0x22, 0x58, 0x20] @ y"
    "drop 42 ?u = 0x22 # 0x58 # 0x20 # y" "drop 43 ?u = 0x58 # 0x20 # y"
    using assms by (simp_all add: cose_key_def numeral_eq_Suc)
  note it = item_uint [OF d(1), simplified] item_uint [OF d(2), simplified] item_uint [OF d(3), simplified] item_negint [OF d(4), simplified]
    item_negint [OF d(5), simplified] item_uint [OF d(6), simplified] item_negint [OF d(7), simplified] item_bytes [OF d(8), simplified]
    item_negint [OF d(9), simplified] item_bytes [OF d(10), simplified]
  have h: "cbor_head ?u (Some 0) = ((5, 5), Some 1)" by (simp add: cbor_head_def cbor_byte_def or_zero_def cbor_move_def cose_key_def)
  have p: "cbor_pairs 5 ?u (Some 1) \<lparr>cm_own = [], cm_proto = []\<rparr>
      = Some \<lparr>cm_own = [(''1'', CInt 2), (''3'', CInt (- 7)), (''-1'', CInt 1), (''-2'', CBytes x), (''-3'', CBytes y)], cm_proto = []\<rparr>"
    using assms it by (simp add: numeral_eq_Suc [of "num.Bit1 (num.Bit0 num.One)"] cbor_key_def cbor_set_def show_int_small eval_nat_numeral)
  show ?thesis
    using assms by (simp add: cose_to_xy_def h cbor_uint_def or_zero_def p [unfolded One_nat_def] cbor_get_def show_int_small)
qed

lemma hex_nibble_injective:
  assumes "a < 16" "b < 16" "hex_nibble a = hex_nibble b"
  shows "a = b"
proof -
  have "distinct ''0123456789abcdef''" "length ''0123456789abcdef'' = 16" by code_simp+
  with assms show ?thesis unfolding hex_nibble_def by (metis nth_eq_iff_index_eq)
qed

lemma hex_octets_injective: "hex_octets a = hex_octets b \<Longrightarrow> a = b"
proof (induction a arbitrary: b)
  case Nil
  then show ?case by (cases b) (simp_all add: hex_octets_def)
next
  case (Cons x a)
  then obtain y b' where b: "b = y # b'" by (cases b) (simp_all add: hex_octets_def)
  with Cons.prems have h: "hex_nibble (unat x div 16) = hex_nibble (unat y div 16)" "hex_nibble (unat x mod 16) = hex_nibble (unat y mod 16)"
    "hex_octets a = hex_octets b'" by (simp_all add: hex_octets_def)
  have "unat w div 16 < 16" for w :: "8 word" using unat_byte_less [of w] by simp
  from hex_nibble_injective [OF this this h(1)] hex_nibble_injective [OF _ _ h(2)]
  have "unat x div 16 = unat y div 16" "unat x mod 16 = unat y mod 16" by simp_all
  then have "unat x = unat y" by (metis mult_div_mod_eq)
  with Cons.IH [OF h(3)] b show ?case by (simp add: word_unat_eq_iff)
qed

text \<open>
  The coordinates of an ES256 key, as an authenticator writes it, are the ones the vault is told; two keys
  with the same text of coordinates are the same key.
\<close>

theorem passkey_coordinates_are_read_back:
  assumes "length x = 32" "length y = 32"
  shows "cose_to_xy (cose_key x y) = Some (''0x'' @ hex_octets x, ''0x'' @ hex_octets y)
    \<and> (\<forall>x' y'. length x' = 32 \<longrightarrow> length y' = 32 \<longrightarrow> cose_to_xy (cose_key x' y') = cose_to_xy (cose_key x y) \<longrightarrow> x' = x \<and> y' = y)"
  using cose_key_read [OF assms] by (auto simp: cose_key_read dest: hex_octets_injective)

theorem passkey_coordinates_are_read_back_witness:
  "cose_to_xy (cose_key (replicate 32 1) (replicate 32 2)) = Some (''0x'' @ hex_octets (replicate 32 1), ''0x'' @ hex_octets (replicate 32 2))"
  using passkey_coordinates_are_read_back [of "replicate 32 1" "replicate 32 2"] by simp

end
