(* ===== verification/Accounts.thy ===== *)
theory Accounts
  imports Passkey_Keys Dep_Options Fleet_Auth
begin

text \<open>
  The accounts of the relay (\<open>relay/auth.js\<close>): passkeys and wallets as ways to sign in, the single-use
  challenges and nonces, the device flow that signs a browser in with a phone, the sessions they all end
  in, and the sign-in tokens for tenant applications (\<open>relay/sso.js\<close>). WebAuthn, the wallet's signature
  checks, the signing of sessions and the balance of the credit vault are arguments.
\<close>

section \<open>State\<close>

record passkey =
  pk_id :: string
  pk_key :: octets
  pk_xy :: "(string \<times> string) option"
  pk_counter :: int
  pk_transports :: json
  pk_aaguid :: string
  pk_created :: int
  pk_used :: "int option"
  pk_label :: string

record account =
  uc_id :: string
  uc_created :: int
  uc_handle :: string
  uc_wallets :: "string list"
  uc_passkeys :: "passkey list"

text \<open>A challenge is for a registration, of a new account or an existing one, or for a sign-in.\<close>

datatype challenge_kind = ForRegistration | ForSignIn

record challenge =
  ch_text :: string
  ch_kind :: challenge_kind
  ch_account :: "string option"
  ch_handle :: string
  ch_exp :: int

datatype device_state = DevPending | DevApproved | DevDenied

record device_req =
  dv_secret :: string
  dv_ua :: string
  dv_ip :: string
  dv_created :: int
  dv_exp :: int
  dv_state :: device_state
  dv_account :: "string option"

record acct_state =
  us_accounts :: "(string \<times> account) list"
  us_byCred :: "(string \<times> string) list"
  us_byWallet :: "(string \<times> string) list"
  us_chals :: "(string \<times> challenge) list"
  us_nonces :: "(string \<times> string \<times> int) list"
  us_devices :: "(string \<times> device_req) list"
  us_mint :: buckets
  us_verify :: buckets

section \<open>What is read from outside\<close>

record reg_info =
  ri_id :: string
  ri_key :: octets
  ri_counter :: int
  ri_transports :: json
  ri_aaguid :: string

datatype 'a wa_verdict = VerifyThrows | NotVerified | VerifiedAs 'a

record siwe_msg =
  sm_address :: string
  sm_nonce :: string
  sm_domain :: string
  sm_uri :: string
  sm_chain :: "int option"
  sm_expires :: "int option"

record acct_lib =
  wl_kid :: string
  wl_decode :: "string \<Rightarrow> string"
  wl_open :: "int \<Rightarrow> string \<Rightarrow> (string \<times> string) option"
  wl_sign :: "string \<Rightarrow> string \<Rightarrow> int \<Rightarrow> int \<Rightarrow> string"
  wl_register :: "json option \<Rightarrow> string \<Rightarrow> reg_info wa_verdict"
  wl_signIn :: "json option \<Rightarrow> string \<Rightarrow> passkey \<Rightarrow> int option wa_verdict"
  wl_parseSiwe :: "string \<Rightarrow> siwe_msg option"
  wl_address :: "string \<Rightarrow> string option"
  wl_recover :: "string \<Rightarrow> string \<Rightarrow> string option"
  wl_onChain :: "string \<Rightarrow> string \<Rightarrow> bool"
  wl_iso :: "int \<Rightarrow> string"

record acct_cfg =
  wc_on :: bool
  wc_ttl :: int
  wc_domain :: string
  wc_uri :: string
  wc_chain :: int
  wc_site :: string
  wc_vault :: bool

text \<open>One request: the clock, the headers, the query, and the random values drawn for it.\<close>

record acct_env =
  uq_now :: int
  uq_ip :: string
  uq_agent :: string
  uq_auth :: string
  uq_query :: string
  uq_id :: string
  uq_challenge :: string
  uq_handle :: string
  uq_codes :: "octets list"
  uq_balance :: "int option"

datatype siwe_error = SiweRequest | SiweMessage | SiweDomain | SiweUri | SiweChain | SiweExpired | SiweAddress | SiweNonce | SiweMismatch | SiweSignature

datatype acct_reply = AcctDisabled | AcctNotFound | AcctLimited | AcctBadJson | JwkSet | RegOptions string string "string list"
  | SignInOptions string | BadChallenge | VerifyFailed | CredentialExists | UnknownCredential | BadAddress | SiweNonceFor string string
  | SiweRefused siwe_error | Session string string string int "string option" | NotSignedIn | LinkedElsewhere | Linked "string list"
  | DeviceStarted string string string int | UnknownCode | DeviceInfo string string int device_state | AlreadyAnswered | DeviceAnswered device_state
  | BadSecret | DeviceWaits | DeviceRefused | Profile string "string list" "string list" | NoSuchPasskey | LastMethod | VaultUnreachable
  | VaultKeyInUse int | PasskeyRemoved | AcctThrows

section \<open>Sessions\<close>

definition CHALLENGE_TTL_MS :: int where "CHALLENGE_TTL_MS = 300000"
definition SIWE_NONCE_TTL_MS :: int where "SIWE_NONCE_TTL_MS = 600000"
definition DEVICE_TTL_MS :: int where "DEVICE_TTL_MS = 180000"
definition AUTH_STORE_MAX :: nat where "AUTH_STORE_MAX = 10000"

text \<open>A full store forgets its oldest entries.\<close>

definition keep_bounded :: "(string \<times> 'a) list \<Rightarrow> (string \<times> 'a) list" where
  "keep_bounded m = drop (length m - AUTH_STORE_MAX) m"

definition put_bounded :: "string \<Rightarrow> 'a \<Rightarrow> (string \<times> 'a) list \<Rightarrow> (string \<times> 'a) list" where
  "put_bounded k v m = keep_bounded (AList.update k v m)"

definition purge_auth :: "int \<Rightarrow> acct_state \<Rightarrow> acct_state" where
  "purge_auth now S =
     S\<lparr>us_chals := filter (\<lambda>(k, c). \<not> ch_exp c < now) (us_chals S), us_nonces := filter (\<lambda>(k, a, e). \<not> e < now) (us_nonces S),
       us_devices := filter (\<lambda>(k, d). \<not> dv_exp d < now) (us_devices S)\<rparr>"

text \<open>\<open>(x / 1000) | 0\<close>: the seconds, kept in 32 bits with a sign.\<close>

definition int32 :: "int \<Rightarrow> int" where
  "int32 x = (let r = x mod 2 ^ 32 in if r < 2 ^ 31 then r else r - 2 ^ 32)"

definition session_exp :: "acct_cfg \<Rightarrow> int \<Rightarrow> int" where
  "session_exp C now = int32 ((now + wc_ttl C * 1000) div 1000)"

definition mint_session :: "acct_lib \<Rightarrow> acct_cfg \<Rightarrow> int \<Rightarrow> string \<Rightarrow> string \<Rightarrow> string option \<Rightarrow> acct_reply" where
  "mint_session W C now account amr wallet =
     Session (wl_sign W account amr (now div 1000) (session_exp C now)) account amr (now + wc_ttl C * 1000) wallet"

definition bearer_token :: "string \<Rightarrow> string option" where
  "bearer_token h =
     (case strip_prefix ''Bearer'' h of
        None \<Rightarrow> None
      | Some r \<Rightarrow> (let t = dropWhile is_space r in if t = r \<or> t = [] then None else Some t))"

definition session_of :: "acct_lib \<Rightarrow> acct_env \<Rightarrow> acct_state \<Rightarrow> (string \<times> string) option" where
  "session_of W E S =
     Option.bind (bearer_token (uq_auth E)) (\<lambda>token.
     Option.bind (json_parse (wl_decode W (takeWhile (\<lambda>c. c \<noteq> CHR ''.'') token))) (\<lambda>hdr.
       if json_get ''alg'' hdr \<noteq> Some (JStr ''ES256'') \<or> json_get ''kid'' hdr \<noteq> Some (JStr (wl_kid W)) then None
       else Option.bind (wl_open W (uq_now E div 1000) token) (\<lambda>(sub, amr).
              if map_of (us_accounts S) sub = None then None else Some (sub, if amr = [] then ''unknown'' else amr))))"

section \<open>Records\<close>

definition new_account :: "int \<Rightarrow> string \<Rightarrow> string \<Rightarrow> account" where
  "new_account now i handle = \<lparr>uc_id = i, uc_created = now, uc_handle = handle, uc_wallets = [], uc_passkeys = []\<rparr>"

definition put_account :: "account \<Rightarrow> acct_state \<Rightarrow> acct_state" where
  "put_account a S = S\<lparr>us_accounts := AList.update (uc_id a) a (us_accounts S)\<rparr>"

definition passkey_of :: "int \<Rightarrow> reg_info \<Rightarrow> json option \<Rightarrow> json option \<Rightarrow> passkey" where
  "passkey_of now i transports label =
     \<lparr>pk_id = ri_id i, pk_key = ri_key i, pk_xy = cose_to_xy (ri_key i), pk_counter = ri_counter i,
      pk_transports = (case transports of Some t \<Rightarrow> if json_truthy t then t else ri_transports i | None \<Rightarrow> ri_transports i),
      pk_aaguid = ri_aaguid i, pk_created = now, pk_used = None, pk_label = take 64 (text_or_empty label)\<rparr>"

definition add_passkey :: "account \<Rightarrow> passkey \<Rightarrow> acct_state \<Rightarrow> acct_state" where
  "add_passkey a k S =
     (put_account (a\<lparr>uc_passkeys := uc_passkeys a @ [k]\<rparr>) S)\<lparr>us_byCred := AList.update (pk_id k) (uc_id a) (us_byCred S)\<rparr>"

text \<open>The account's vault key: its first P-256 passkey.\<close>

definition vault_key_of :: "string \<Rightarrow> acct_state \<Rightarrow> passkey option" where
  "vault_key_of a S = Option.bind (map_of (us_accounts S) a) (\<lambda>r. find (\<lambda>k. pk_xy k \<noteq> None) (uc_passkeys r))"

definition body_json :: "string \<Rightarrow> json option" where
  "body_json raw = Option.bind (json_parse (if raw = [] then ''{}'' else raw)) (\<lambda>b. if json_truthy b then Some b else None)"

definition limited_by :: "bool \<Rightarrow> acct_env \<Rightarrow> acct_state \<Rightarrow> (acct_state \<Rightarrow> acct_reply \<times> acct_state) \<Rightarrow> acct_reply \<times> acct_state" where
  "limited_by mint E S f =
     (if mint
      then (case take_token 20 (1 / 2) (uq_now E) (uq_ip E) (us_mint S) of
              (ok, bs) \<Rightarrow> (let S1 = S\<lparr>us_mint := bs\<rparr> in if ok then f S1 else (AcctLimited, S1)))
      else (case take_token 10 (1 / 5) (uq_now E) (uq_ip E) (us_verify S) of
              (ok, bs) \<Rightarrow> (let S1 = S\<lparr>us_verify := bs\<rparr> in if ok then f S1 else (AcctLimited, S1))))"

definition with_body :: "string \<Rightarrow> acct_state \<Rightarrow> (json \<Rightarrow> acct_state \<Rightarrow> acct_reply \<times> acct_state) \<Rightarrow> acct_reply \<times> acct_state" where
  "with_body raw S f = (case body_json raw of None \<Rightarrow> (AcctBadJson, S) | Some b \<Rightarrow> f b S)"

section \<open>Passkeys\<close>

definition register_options :: "acct_lib \<Rightarrow> acct_env \<Rightarrow> acct_state \<Rightarrow> acct_reply \<times> acct_state" where
  "register_options W E S =
     (let acct = Option.bind (session_of W E S) (\<lambda>(a, amr). map_of (us_accounts S) a);
          handle = (case acct of Some r \<Rightarrow> uc_handle r | None \<Rightarrow> uq_handle E);
          c = \<lparr>ch_text = uq_challenge E, ch_kind = ForRegistration, ch_account = map_option uc_id acct, ch_handle = handle,
               ch_exp = uq_now E + CHALLENGE_TTL_MS\<rparr>
      in (RegOptions (uq_id E) handle (case acct of Some r \<Rightarrow> map pk_id (uc_passkeys r) | None \<Rightarrow> []),
          S\<lparr>us_chals := put_bounded (uq_id E) c (us_chals S)\<rparr>))"

definition live_challenge :: "challenge_kind \<Rightarrow> int \<Rightarrow> challenge option \<Rightarrow> challenge option" where
  "live_challenge kind now c = Option.bind c (\<lambda>c. if ch_kind c \<noteq> kind \<or> ch_exp c < now then None else Some c)"

text \<open>The challenge is gone whatever becomes of the request.\<close>

definition register_verify :: "acct_lib \<Rightarrow> acct_cfg \<Rightarrow> acct_env \<Rightarrow> json \<Rightarrow> acct_state \<Rightarrow> acct_reply \<times> acct_state" where
  "register_verify W C E b S =
     (let id = text_or_empty (json_get ''challengeId'' b); S1 = S\<lparr>us_chals := AList.delete id (us_chals S)\<rparr>;
          cred = json_get ''credential'' b
      in case live_challenge ForRegistration (uq_now E) (map_of (us_chals S) id) of
           None \<Rightarrow> (BadChallenge, S1)
         | Some c \<Rightarrow>
             (case wl_register W cred (ch_text c) of
                VerifiedAs i \<Rightarrow>
                  if map_of (us_byCred S) (ri_id i) \<noteq> None then (CredentialExists, S1)
                  else (case (case ch_account c of Some a \<Rightarrow> map_of (us_accounts S) a | None \<Rightarrow> Some (new_account (uq_now E) (uq_id E) (ch_handle c))) of
                          None \<Rightarrow> (BadChallenge, S1)
                        | Some a \<Rightarrow>
                            (mint_session W C (uq_now E) (uc_id a) ''passkey'' None,
                             add_passkey a (passkey_of (uq_now E) i (Option.bind (Option.bind cred (json_get ''response'')) (json_get ''transports''))
                               (json_get ''label'' b)) S1))
              | v \<Rightarrow> (VerifyFailed, S1)))"

definition sign_in_options :: "acct_env \<Rightarrow> acct_state \<Rightarrow> acct_reply \<times> acct_state" where
  "sign_in_options E S =
     (SignInOptions (uq_id E),
      S\<lparr>us_chals := put_bounded (uq_id E) \<lparr>ch_text = uq_challenge E, ch_kind = ForSignIn, ch_account = None, ch_handle = [],
          ch_exp = uq_now E + CHALLENGE_TTL_MS\<rparr> (us_chals S)\<rparr>)"

definition stored_passkey :: "string \<Rightarrow> acct_state \<Rightarrow> (account \<times> passkey) option" where
  "stored_passkey i S =
     Option.bind (map_of (us_byCred S) i) (\<lambda>a. Option.bind (map_of (us_accounts S) a) (\<lambda>r.
       map_option (\<lambda>k. (r, k)) (find (\<lambda>k. pk_id k = i) (uc_passkeys r))))"

fun update_first :: "('a \<Rightarrow> bool) \<Rightarrow> ('a \<Rightarrow> 'a) \<Rightarrow> 'a list \<Rightarrow> 'a list" where
  "update_first p f [] = []"
| "update_first p f (x # xs) = (if p x then f x # xs else x # update_first p f xs)"

definition used_passkey :: "int \<Rightarrow> int option \<Rightarrow> passkey \<Rightarrow> passkey" where
  "used_passkey now counter k = k\<lparr>pk_counter := (case counter of Some n \<Rightarrow> n | None \<Rightarrow> pk_counter k), pk_used := Some now\<rparr>"

definition sign_in_verify :: "acct_lib \<Rightarrow> acct_cfg \<Rightarrow> acct_env \<Rightarrow> json \<Rightarrow> acct_state \<Rightarrow> acct_reply \<times> acct_state" where
  "sign_in_verify W C E b S =
     (let id = text_or_empty (json_get ''challengeId'' b); S1 = S\<lparr>us_chals := AList.delete id (us_chals S)\<rparr>;
          cred = json_get ''credential'' b; credId = text_or_empty (Option.bind cred (json_get ''id''))
      in case live_challenge ForSignIn (uq_now E) (map_of (us_chals S) id) of
           None \<Rightarrow> (BadChallenge, S1)
         | Some c \<Rightarrow>
             (case stored_passkey credId S of
                None \<Rightarrow> (UnknownCredential, S1)
              | Some (r, k) \<Rightarrow>
                  (case wl_signIn W cred (ch_text c) k of
                     VerifiedAs counter \<Rightarrow>
                       (mint_session W C (uq_now E) (uc_id r) ''passkey'' None,
                        put_account (r\<lparr>uc_passkeys := update_first (\<lambda>k. pk_id k = credId) (used_passkey (uq_now E) counter) (uc_passkeys r)\<rparr>) S1)
                   | v \<Rightarrow> (VerifyFailed, S1))))"

section \<open>Wallets\<close>

definition siwe_text :: "acct_cfg \<Rightarrow> (int \<Rightarrow> string) \<Rightarrow> int \<Rightarrow> string \<Rightarrow> string \<Rightarrow> string" where
  "siwe_text C dateOf now address nonce =
     wc_domain C @ '' wants you to sign in with your Ethereum account:'' @ [newline] @ address @ [newline, newline]
     @ ''Sign in to Enclave. This signature is free and will not move funds.'' @ [newline, newline]
     @ ''URI: '' @ wc_uri C @ [newline] @ ''Version: 1'' @ [newline] @ ''Chain ID: '' @ show_int (wc_chain C) @ [newline] @ ''Nonce: '' @ nonce
     @ [newline] @ ''Issued At: '' @ dateOf now @ [newline] @ ''Expiration Time: '' @ dateOf (now + SIWE_NONCE_TTL_MS)"

definition siwe_nonce :: "acct_lib \<Rightarrow> acct_cfg \<Rightarrow> acct_env \<Rightarrow> acct_state \<Rightarrow> acct_reply \<times> acct_state" where
  "siwe_nonce W C E S =
     (case wl_address W (uq_query E) of
        None \<Rightarrow> (BadAddress, S)
      | Some a \<Rightarrow>
          (SiweNonceFor (uq_id E) (siwe_text C (wl_iso W) (uq_now E) a (uq_id E)),
           S\<lparr>us_nonces := put_bounded (uq_id E) (a, uq_now E + SIWE_NONCE_TTL_MS) (us_nonces S)\<rparr>))"

definition siwe_fields :: "acct_cfg \<Rightarrow> int \<Rightarrow> siwe_msg \<Rightarrow> siwe_error option" where
  "siwe_fields C now m =
     (if sm_address m = [] \<or> sm_nonce m = [] then Some SiweMessage
      else if sm_domain m \<noteq> [] \<and> sm_domain m \<noteq> wc_domain C then Some SiweDomain
      else if sm_uri m \<noteq> [] \<and> sm_uri m \<noteq> wc_uri C then Some SiweUri
      else if (case sm_chain m of Some n \<Rightarrow> n \<noteq> 0 \<and> n \<noteq> wc_chain C | None \<Rightarrow> False) then Some SiweChain
      else if (case sm_expires m of Some t \<Rightarrow> t \<le> now | None \<Rightarrow> False) then Some SiweExpired
      else None)"

definition siwe_signed :: "acct_lib \<Rightarrow> string \<Rightarrow> string \<Rightarrow> string \<Rightarrow> bool" where
  "siwe_signed W message signature claimed \<longleftrightarrow>
     map_option to_lower (wl_recover W message signature) = Some (to_lower claimed) \<or> wl_onChain W message signature"

text \<open>The nonce is gone as soon as a message that parses names it.\<close>

definition siwe_verify :: "acct_lib \<Rightarrow> acct_cfg \<Rightarrow> int \<Rightarrow> json option \<Rightarrow> json option \<Rightarrow> acct_state \<Rightarrow> (siwe_error + string) \<times> acct_state" where
  "siwe_verify W C now message signature S =
     (case (message, signature) of
        (Some (JStr text), Some (JStr sig)) \<Rightarrow>
          (case wl_parseSiwe W text of
             None \<Rightarrow> (Inl SiweMessage, S)
           | Some m \<Rightarrow>
               (case siwe_fields C now m of
                  Some e \<Rightarrow> (Inl e, S)
                | None \<Rightarrow>
                    (case wl_address W (sm_address m) of
                       None \<Rightarrow> (Inl SiweAddress, S)
                     | Some claimed \<Rightarrow>
                         (let S1 = S\<lparr>us_nonces := AList.delete (sm_nonce m) (us_nonces S)\<rparr>
                          in case map_of (us_nonces S) (sm_nonce m) of
                               None \<Rightarrow> (Inl SiweNonce, S1)
                             | Some (address, until) \<Rightarrow>
                                 if until < now then (Inl SiweNonce, S1)
                                 else if wl_address W address \<noteq> Some claimed then (Inl SiweMismatch, S1)
                                 else if \<not> siwe_signed W text sig claimed then (Inl SiweSignature, S1)
                                 else (Inr claimed, S1)))))
      | _ \<Rightarrow> (Inl SiweRequest, S))"

definition siwe_sign_in :: "acct_lib \<Rightarrow> acct_cfg \<Rightarrow> acct_env \<Rightarrow> json \<Rightarrow> acct_state \<Rightarrow> acct_reply \<times> acct_state" where
  "siwe_sign_in W C E b S =
     (case siwe_verify W C (uq_now E) (json_get ''message'' b) (json_get ''signature'' b) S of
        (Inl e, S1) \<Rightarrow> (SiweRefused e, S1)
      | (Inr address, S1) \<Rightarrow>
          (let key = to_lower address; known = Option.bind (map_of (us_byWallet S1) key) (map_of (us_accounts S1))
           in case known of
                Some a \<Rightarrow> (mint_session W C (uq_now E) (uc_id a) ''siwe'' (Some address), S1)
              | None \<Rightarrow>
                  (mint_session W C (uq_now E) (uq_id E) ''siwe'' (Some address),
                   (put_account ((new_account (uq_now E) (uq_id E) (uq_handle E))\<lparr>uc_wallets := [key]\<rparr>) S1)
                     \<lparr>us_byWallet := AList.update key (uq_id E) (us_byWallet S1)\<rparr>)))"

definition siwe_link :: "acct_lib \<Rightarrow> acct_cfg \<Rightarrow> acct_env \<Rightarrow> string \<Rightarrow> json \<Rightarrow> acct_state \<Rightarrow> acct_reply \<times> acct_state" where
  "siwe_link W C E me b S =
     (case siwe_verify W C (uq_now E) (json_get ''message'' b) (json_get ''signature'' b) S of
        (Inl e, S1) \<Rightarrow> (SiweRefused e, S1)
      | (Inr address, S1) \<Rightarrow>
          (let key = to_lower address
           in if map_of (us_byWallet S1) key \<notin> {None, Some me} then (LinkedElsewhere, S1)
              else case map_of (us_accounts S1) me of
                None \<Rightarrow> (AcctThrows, S1)
              | Some a \<Rightarrow>
                  (let ws = (if key \<in> set (uc_wallets a) then uc_wallets a else uc_wallets a @ [key])
                   in (Linked ws, (put_account (a\<lparr>uc_wallets := ws\<rparr>) S1)\<lparr>us_byWallet := AList.update key (uc_id a) (us_byWallet S1)\<rparr>))))"

section \<open>Devices\<close>

definition DEVICE_ALPHABET :: string where "DEVICE_ALPHABET = ''ABCDEFGHJKMNPQRSTUVWXYZ23456789''"

definition device_code :: "octets \<Rightarrow> string" where
  "device_code b = map (\<lambda>w. DEVICE_ALPHABET ! (unat w mod length DEVICE_ALPHABET)) (take 8 b)"

definition device_start :: "acct_cfg \<Rightarrow> acct_env \<Rightarrow> acct_state \<Rightarrow> acct_reply \<times> acct_state" where
  "device_start C E S =
     (case find (\<lambda>c. map_of (us_devices S) c = None) (map device_code (uq_codes E)) of
        None \<Rightarrow> (AcctThrows, S)
      | Some code \<Rightarrow>
          (DeviceStarted code (uq_id E) (wc_site C @ ''/link?code='' @ code) (uq_now E + DEVICE_TTL_MS),
           S\<lparr>us_devices := put_bounded code \<lparr>dv_secret = uq_id E, dv_ua = take 200 (uq_agent E), dv_ip = uq_ip E, dv_created = uq_now E,
               dv_exp = uq_now E + DEVICE_TTL_MS, dv_state = DevPending, dv_account = None\<rparr> (us_devices S)\<rparr>))"

definition live_device :: "int \<Rightarrow> string \<Rightarrow> acct_state \<Rightarrow> device_req option" where
  "live_device now code S = Option.bind (map_of (us_devices S) code) (\<lambda>r. if dv_exp r < now then None else Some r)"

definition device_info :: "acct_env \<Rightarrow> acct_state \<Rightarrow> acct_reply \<times> acct_state" where
  "device_info E S =
     (case live_device (uq_now E) (to_upper (uq_query E)) S of
        None \<Rightarrow> (UnknownCode, S)
      | Some r \<Rightarrow> (DeviceInfo (dv_ua r) (dv_ip r) (dv_created r) (dv_state r), S))"

definition device_approve :: "acct_env \<Rightarrow> string \<Rightarrow> json \<Rightarrow> acct_state \<Rightarrow> acct_reply \<times> acct_state" where
  "device_approve E me b S =
     (let code = to_upper (text_or_empty (json_get ''code'' b))
      in case live_device (uq_now E) code S of
           None \<Rightarrow> (UnknownCode, S)
         | Some r \<Rightarrow>
             if dv_state r \<noteq> DevPending then (AlreadyAnswered, S)
             else (let r1 = (if json_get ''approve'' b = Some (JBool True) then r\<lparr>dv_state := DevApproved, dv_account := Some me\<rparr>
                             else r\<lparr>dv_state := DevDenied\<rparr>)
                   in (DeviceAnswered (dv_state r1), S\<lparr>us_devices := AList.update code r1 (us_devices S)\<rparr>)))"

definition device_claim :: "acct_lib \<Rightarrow> acct_cfg \<Rightarrow> acct_env \<Rightarrow> json \<Rightarrow> acct_state \<Rightarrow> acct_reply \<times> acct_state" where
  "device_claim W C E b S =
     (let code = to_upper (text_or_empty (json_get ''code'' b)); gone = S\<lparr>us_devices := AList.delete code (us_devices S)\<rparr>
      in case live_device (uq_now E) code S of
           None \<Rightarrow> (UnknownCode, S)
         | Some r \<Rightarrow>
             if text_or_empty (json_get ''secret'' b) \<noteq> dv_secret r then (BadSecret, S)
             else (case (dv_state r, dv_account r) of
                     (DevPending, x) \<Rightarrow> (DeviceWaits, S)
                   | (DevDenied, x) \<Rightarrow> (DeviceRefused, gone)
                   | (DevApproved, Some a) \<Rightarrow> (mint_session W C (uq_now E) a ''phone'' None, gone)
                   | (DevApproved, None) \<Rightarrow> (AcctThrows, gone)))"

section \<open>Profile and removal\<close>

definition profile :: "string \<Rightarrow> acct_state \<Rightarrow> acct_reply" where
  "profile me S =
     (case map_of (us_accounts S) me of
        None \<Rightarrow> AcctThrows
      | Some a \<Rightarrow> Profile (uc_id a) (uc_wallets a) (map pk_id (uc_passkeys a)))"

text \<open>
  A removal is checked, waits for the balance of the vault when the passkey controls it, and is then done
  at the place found before the wait.
\<close>

definition position_of :: "string \<Rightarrow> account \<Rightarrow> nat option" where
  "position_of i a = find (\<lambda>n. pk_id (uc_passkeys a ! n) = i) [0..<length (uc_passkeys a)]"

definition removal_checks :: "acct_cfg \<Rightarrow> string \<Rightarrow> string \<Rightarrow> acct_state \<Rightarrow> acct_reply + nat \<times> bool" where
  "removal_checks C me i S =
     (case map_of (us_accounts S) me of
        None \<Rightarrow> Inl AcctThrows
      | Some a \<Rightarrow>
          (case position_of i a of
             None \<Rightarrow> Inl NoSuchPasskey
           | Some n \<Rightarrow>
               if length (uc_passkeys a) = 1 \<and> uc_wallets a = [] then Inl LastMethod
               else Inr (n, wc_vault C \<and> map_option pk_id (vault_key_of me S) = Some i)))"

definition remove_at :: "string \<Rightarrow> string \<Rightarrow> nat \<Rightarrow> acct_state \<Rightarrow> acct_state" where
  "remove_at me i n S =
     (let S1 = S\<lparr>us_byCred := AList.delete i (us_byCred S)\<rparr>
      in case map_of (us_accounts S1) me of
           None \<Rightarrow> S1
         | Some a \<Rightarrow> put_account (a\<lparr>uc_passkeys := take n (uc_passkeys a) @ drop (Suc n) (uc_passkeys a)\<rparr>) S1)"

definition remove_passkey :: "acct_cfg \<Rightarrow> acct_env \<Rightarrow> string \<Rightarrow> string \<Rightarrow> acct_state \<Rightarrow> acct_reply \<times> acct_state" where
  "remove_passkey C E me i S =
     (case removal_checks C me i S of
        Inl r \<Rightarrow> (r, S)
      | Inr (n, await) \<Rightarrow>
          if await then (case uq_balance E of
                           None \<Rightarrow> (VaultUnreachable, S)
                         | Some b \<Rightarrow> if 0 < b then (VaultKeyInUse b, S) else (PasskeyRemoved, remove_at me i n S))
          else (PasskeyRemoved, remove_at me i n S))"

section \<open>The routes\<close>

definition id_char :: "char \<Rightarrow> bool" where
  "id_char c \<longleftrightarrow> c \<in> set ''ABCDEFGHIJKLMNOPQRSTUVWXYZabcdefghijklmnopqrstuvwxyz0123456789_-''"

definition passkey_path :: "string \<Rightarrow> string option" where
  "passkey_path path = Option.bind (strip_prefix ''/v1/account/passkey/'' path) (\<lambda>i. if i \<noteq> [] \<and> list_all id_char i then Some i else None)"

definition signed_in :: "acct_lib \<Rightarrow> acct_env \<Rightarrow> acct_state \<Rightarrow> (string \<Rightarrow> acct_reply \<times> acct_state) \<Rightarrow> acct_reply \<times> acct_state" where
  "signed_in W E S f = (case session_of W E S of None \<Rightarrow> (NotSignedIn, S) | Some (me, amr) \<Rightarrow> f me)"

datatype acct_route = RouteJwks | RouteRegOptions | RouteRegVerify | RouteInOptions | RouteInVerify | RouteNonce | RouteSiwe | RouteLink
  | RouteDevStart | RouteDevInfo | RouteDevApprove | RouteDevClaim | RouteMe | RouteRemove string

definition account_route :: "string \<Rightarrow> string \<Rightarrow> acct_route option" where
  "account_route method path =
     (let asks = (\<lambda>m p. method = m \<and> path = ''/v1/account/'' @ p)
      in if asks ''GET'' ''jwks'' then Some RouteJwks
         else if asks ''POST'' ''passkey/register/options'' then Some RouteRegOptions
         else if asks ''POST'' ''passkey/register/verify'' then Some RouteRegVerify
         else if asks ''POST'' ''passkey/login/options'' then Some RouteInOptions
         else if asks ''POST'' ''passkey/login/verify'' then Some RouteInVerify
         else if asks ''GET'' ''siwe/nonce'' then Some RouteNonce
         else if asks ''POST'' ''siwe/verify'' then Some RouteSiwe
         else if asks ''POST'' ''link/siwe'' then Some RouteLink
         else if asks ''POST'' ''device/start'' then Some RouteDevStart
         else if asks ''GET'' ''device/info'' then Some RouteDevInfo
         else if asks ''POST'' ''device/approve'' then Some RouteDevApprove
         else if asks ''POST'' ''device/claim'' then Some RouteDevClaim
         else if asks ''GET'' ''me'' then Some RouteMe
         else if method = ''DELETE'' then map_option RouteRemove (passkey_path path)
         else None)"

definition account_request :: "acct_lib \<Rightarrow> acct_cfg \<Rightarrow> acct_env \<Rightarrow> acct_route \<Rightarrow> string \<Rightarrow> acct_state \<Rightarrow> acct_reply \<times> acct_state" where
  "account_request W C E route raw S =
     (case route of
        RouteJwks \<Rightarrow> (JwkSet, S)
      | RouteRegOptions \<Rightarrow> limited_by True E S (register_options W E)
      | RouteRegVerify \<Rightarrow> limited_by False E S (\<lambda>S. with_body raw S (register_verify W C E))
      | RouteInOptions \<Rightarrow> limited_by True E S (sign_in_options E)
      | RouteInVerify \<Rightarrow> limited_by False E S (\<lambda>S. with_body raw S (sign_in_verify W C E))
      | RouteNonce \<Rightarrow> limited_by True E S (siwe_nonce W C E)
      | RouteSiwe \<Rightarrow> limited_by False E S (\<lambda>S. with_body raw S (siwe_sign_in W C E))
      | RouteLink \<Rightarrow> signed_in W E S (\<lambda>me. limited_by False E S (\<lambda>S. with_body raw S (siwe_link W C E me)))
      | RouteDevStart \<Rightarrow> limited_by True E S (device_start C E)
      | RouteDevInfo \<Rightarrow> limited_by True E S (device_info E)
      | RouteDevApprove \<Rightarrow> signed_in W E S (\<lambda>me. limited_by False E S (\<lambda>S. with_body raw S (device_approve E me)))
      | RouteDevClaim \<Rightarrow> limited_by True E S (\<lambda>S. with_body raw S (device_claim W C E))
      | RouteMe \<Rightarrow> signed_in W E S (\<lambda>me. (profile me S, S))
      | RouteRemove i \<Rightarrow> signed_in W E S (\<lambda>me. remove_passkey C E me i S))"

definition handle_account :: "acct_lib \<Rightarrow> acct_cfg \<Rightarrow> acct_env \<Rightarrow> string \<Rightarrow> string \<Rightarrow> string \<Rightarrow> acct_state \<Rightarrow> acct_reply \<times> acct_state" where
  "handle_account W C E method path raw S =
     (if \<not> wc_on C then (AcctDisabled, S)
      else case account_route method path of
        None \<Rightarrow> (AcctNotFound, S)
      | Some route \<Rightarrow> account_request W C E route raw S)"

section \<open>Sign-in tokens for applications\<close>

definition TTL_DEFAULT :: int where "TTL_DEFAULT = 86400"
definition TTL_MIN :: int where "TTL_MIN = 300"
definition TTL_MAX :: int where "TTL_MAX = 604800"

datatype sso_reply = SsoDisabled | SsoNoAccounts | SsoLimited | SsoNotSignedIn | SsoBadJson | SsoBadAudience | SsoNotFound
  | SsoSigner | SsoToken string string string int int

text \<open>The claims in the order of their names, as \<open>JSON.stringify\<close> writes them.\<close>

definition est1_claims :: "string \<Rightarrow> string \<Rightarrow> int \<Rightarrow> int \<Rightarrow> string" where
  "est1_claims sub aud iat until =
     ''{\"aud\":\"'' @ to_lower aud @ ''\",\"exp\":'' @ show_int until @ '',\"iat\":'' @ show_int iat @ '',\"sub\":\"''
     @ (if prefix ''0x'' (to_lower sub) then to_lower sub else sub) @ ''\",\"v\":1}''"

definition mint_est1 :: "(string \<Rightarrow> string) \<Rightarrow> (string \<Rightarrow> string) \<Rightarrow> string \<Rightarrow> string \<Rightarrow> int \<Rightarrow> int \<Rightarrow> string" where
  "mint_est1 b64 sign sub aud iat until = (let message = ''EST1.'' @ b64 (est1_claims sub aud iat until) in message @ ''.'' @ sign message)"

definition sso_audience :: "string \<Rightarrow> bool" where
  "sso_audience aud \<longleftrightarrow> prefix ''0x'' aud \<and> length aud = 66 \<and> hex_str 64 64 (to_lower (drop 2 aud))"

definition sso_ttl :: "json \<Rightarrow> int" where
  "sso_ttl b = max TTL_MIN (min TTL_MAX (case json_int_at ''ttl'' b of Some t \<Rightarrow> t | None \<Rightarrow> TTL_DEFAULT))"

definition handle_sso ::
  "acct_lib \<Rightarrow> acct_cfg \<Rightarrow> (string \<Rightarrow> string) \<Rightarrow> (string \<Rightarrow> string) \<Rightarrow> bool \<Rightarrow> acct_env \<Rightarrow> string \<Rightarrow> string \<Rightarrow> string \<Rightarrow> buckets \<Rightarrow> acct_state \<Rightarrow> sso_reply \<times> buckets" where
  "handle_sso W C b64 sign on E method path raw rates S =
     (if path = ''/v1/sso/signer'' \<and> method = ''GET'' then (if on then SsoSigner else SsoDisabled, rates)
      else if path = ''/v1/sso/token'' \<and> method = ''POST''
      then (if \<not> on then (SsoDisabled, rates)
            else if \<not> wc_on C then (SsoNoAccounts, rates)
            else case take_token 30 1 (uq_now E) (uq_ip E) rates of
              (ok, bs) \<Rightarrow>
                (if \<not> ok then SsoLimited
                 else case session_of W E S of
                   None \<Rightarrow> SsoNotSignedIn
                 | Some (me, amr) \<Rightarrow>
                     (case body_json raw of
                        None \<Rightarrow> SsoBadJson
                      | Some b \<Rightarrow>
                          (let aud = js_trim (text_or_empty (json_get ''aud'' b)); iat = uq_now E div 1000; until = iat + sso_ttl b
                           in if \<not> sso_audience aud then SsoBadAudience
                              else SsoToken (mint_est1 b64 sign me aud iat until) me (to_lower aud) iat until)), bs))
      else (SsoNotFound, rates))"

end
