(* ===== verification/Account_Safety.thy ===== *)
theory Account_Safety
  imports Accounts
begin

text \<open>
  What holds of the accounts in every state: the indexes agree with the records, nobody is locked out of an
  account, every session goes back to a proof of its account by a passkey or a wallet, and the key of a
  vault with credit stays.
\<close>

section \<open>The indexes agree with the records\<close>

text \<open>Every account keeps a way to sign in; credentials and wallets are indexed by their one account.\<close>

definition record_ok :: "string \<times> account \<Rightarrow> bool" where
  "record_ok x \<longleftrightarrow> (case x of (a, r) \<Rightarrow> uc_id r = a \<and> distinct (map pk_id (uc_passkeys r)) \<and> (uc_passkeys r \<noteq> [] \<or> uc_wallets r \<noteq> []))"

definition creds_of :: "account \<Rightarrow> string set" where
  "creds_of r = pk_id ` set (uc_passkeys r)"

definition indexes :: "(account \<Rightarrow> string set) \<Rightarrow> (string \<times> string) list \<Rightarrow> (string \<times> account) list \<Rightarrow> bool" where
  "indexes f m T \<longleftrightarrow> (\<forall>i a. map_of m i = Some a \<longleftrightarrow> (\<exists>r. map_of T a = Some r \<and> i \<in> f r))"

definition acct_ok :: "acct_state \<Rightarrow> bool" where
  "acct_ok S \<longleftrightarrow> (\<forall>a r. map_of (us_accounts S) a = Some r \<longrightarrow> record_ok (a, r))
     \<and> indexes creds_of (us_byCred S) (us_accounts S) \<and> indexes (\<lambda>r. set (uc_wallets r)) (us_byWallet S) (us_accounts S)"

lemma acct_ok_record: "acct_ok S \<Longrightarrow> map_of (us_accounts S) a = Some r \<Longrightarrow> record_ok (a, r)"
  by (simp add: acct_ok_def)

lemma indexes_same:
  assumes "indexes f m T" "map_of T a = Some r" "f r' = f r"
  shows "indexes f m (AList.update a r' T)"
  using assms by (auto simp: indexes_def update_conv')

lemma indexes_fresh:
  assumes "indexes f m T" "map_of T a = None" "f r' = {}"
  shows "indexes f m (AList.update a r' T)"
  using assms by (auto simp: indexes_def update_conv')

text \<open>An entry is added to the index and to a record that is there, or that is new.\<close>

lemma indexesD: "indexes f m T \<Longrightarrow> map_of m i = Some a \<longleftrightarrow> (\<exists>r. map_of T a = Some r \<and> i \<in> f r)"
  by (simp add: indexes_def)

lemma indexes_unique: "indexes f m T \<Longrightarrow> map_of T a = Some r \<Longrightarrow> i \<in> f r \<Longrightarrow> map_of m i = Some a"
  by (auto simp: indexes_def)

lemma indexes_add:
  assumes x: "indexes f m T" and i: "map_of m i = None \<or> map_of m i = Some a"
    and r: "f r' = insert i (case map_of T a of Some r \<Rightarrow> f r | None \<Rightarrow> {})"
  shows "indexes f (AList.update i a m) (AList.update a r' T)"
  unfolding indexes_def
proof (intro allI)
  fix j b
  show "map_of (AList.update i a m) j = Some b \<longleftrightarrow> (\<exists>r. map_of (AList.update a r' T) b = Some r \<and> j \<in> f r)"
  proof (cases "b = a")
    case True
    with indexesD [OF x, of j a] r show ?thesis by (cases "map_of T a") (auto simp: update_conv')
  next
    case False
    then have "\<nexists>s. map_of T b = Some s \<and> i \<in> f s" using indexes_unique [OF x, of b] i by auto
    with False indexesD [OF x, of j b] show ?thesis by (cases "j = i") (auto simp: update_conv')
  qed
qed

lemma indexes_remove:
  assumes x: "indexes f m T" and r: "map_of T a = Some r" "i \<in> f r" "f r' = f r - {i}"
  shows "indexes f (AList.delete i m) (AList.update a r' T)"
  unfolding indexes_def
proof (intro allI)
  fix j b
  show "map_of (AList.delete i m) j = Some b \<longleftrightarrow> (\<exists>r. map_of (AList.update a r' T) b = Some r \<and> j \<in> f r)"
  proof (cases "b = a")
    case True
    with indexesD [OF x, of j a] r show ?thesis by (auto simp: update_conv' delete_conv')
  next
    case False
    then have "\<nexists>s. map_of T b = Some s \<and> i \<in> f s" using indexes_unique [OF x, of b] indexes_unique [OF x r(1,2)] by auto
    with False indexesD [OF x, of j b] show ?thesis by (cases "j = i") (auto simp: update_conv' delete_conv')
  qed
qed

section \<open>What a request runs\<close>

definition same_books :: "acct_state \<Rightarrow> acct_state \<Rightarrow> bool" where
  "same_books S S' \<longleftrightarrow> us_accounts S' = us_accounts S \<and> us_byCred S' = us_byCred S \<and> us_byWallet S' = us_byWallet S"

definition same_stores :: "acct_state \<Rightarrow> acct_state \<Rightarrow> bool" where
  "same_stores S S' \<longleftrightarrow> same_books S S' \<and> us_chals S' = us_chals S \<and> us_nonces S' = us_nonces S \<and> us_devices S' = us_devices S"

lemma same_stores_refl [simp]: "same_stores S S" "same_books S S"
  by (simp_all add: same_stores_def same_books_def)

lemma same_books_ok: "same_books S S' \<Longrightarrow> acct_ok S' = acct_ok S"
  by (simp add: same_books_def acct_ok_def)

lemma same_books_session:
  assumes "same_books S S'"
  shows "session_of W E S' = session_of W E S"
proof -
  from assms have a: "us_accounts S' = us_accounts S" by (simp add: same_books_def)
  show ?thesis unfolding session_of_def a ..
qed

lemma limited_by_cases:
  assumes "limited_by mint E S f = (reply, S')"
  obtains "same_stores S S'" "reply = AcctLimited" | S1 where "same_stores S S1" "f S1 = (reply, S')"
proof -
  obtain ok bs where "take_token 20 (1 / 2) (uq_now E) (uq_ip E) (us_mint S) = (ok, bs)" by fastforce
  moreover obtain ok' bs' where "take_token 10 (1 / 5) (uq_now E) (uq_ip E) (us_verify S) = (ok', bs')" by fastforce
  ultimately show ?thesis
    using assms that(1) that(2) [of "S\<lparr>us_mint := bs\<rparr>"] that(2) [of "S\<lparr>us_verify := bs'\<rparr>"]
    by (auto simp: limited_by_def same_stores_def same_books_def Let_def split: if_splits)
qed

lemma with_body_cases:
  assumes "with_body raw S f = (reply, S')"
  obtains "S' = S" "reply = AcctBadJson" | b where "body_json raw = Some b" "f b S = (reply, S')"
  using assms by (auto simp: with_body_def split: option.splits)

lemma signed_in_cases:
  assumes "signed_in W E S f = (reply, S')"
  obtains "S' = S" "reply = NotSignedIn" | me amr where "session_of W E S = Some (me, amr)" "f me = (reply, S')"
  using assms by (auto simp: signed_in_def split: option.splits)

text \<open>Either a request is refused before its handler, or the handler ran on a state with the same stores.\<close>

definition handler_of :: "acct_lib \<Rightarrow> acct_cfg \<Rightarrow> acct_env \<Rightarrow> acct_route \<Rightarrow> string \<Rightarrow> json \<Rightarrow> acct_state \<Rightarrow> acct_reply \<times> acct_state" where
  "handler_of W C E route me b S =
     (case route of
        RouteJwks \<Rightarrow> (JwkSet, S) | RouteRegOptions \<Rightarrow> register_options W E S | RouteRegVerify \<Rightarrow> register_verify W C E b S
      | RouteInOptions \<Rightarrow> sign_in_options E S | RouteInVerify \<Rightarrow> sign_in_verify W C E b S | RouteNonce \<Rightarrow> siwe_nonce W C E S
      | RouteSiwe \<Rightarrow> siwe_sign_in W C E b S | RouteLink \<Rightarrow> siwe_link W C E me b S | RouteDevStart \<Rightarrow> device_start C E S
      | RouteDevInfo \<Rightarrow> device_info E S | RouteDevApprove \<Rightarrow> device_approve E me b S | RouteDevClaim \<Rightarrow> device_claim W C E b S
      | RouteMe \<Rightarrow> (profile me S, S) | RouteRemove i \<Rightarrow> remove_passkey C E me i S)"

definition needs_session :: "acct_route \<Rightarrow> bool" where
  "needs_session route \<longleftrightarrow> (case route of RouteLink \<Rightarrow> True | RouteDevApprove \<Rightarrow> True | RouteMe \<Rightarrow> True | RouteRemove i \<Rightarrow> True | _ \<Rightarrow> False)"

definition needs_body :: "acct_route \<Rightarrow> bool" where
  "needs_body route \<longleftrightarrow> route \<in> {RouteRegVerify, RouteInVerify, RouteSiwe, RouteLink, RouteDevApprove, RouteDevClaim}"

lemma account_request_cases:
  assumes "account_request W C E route raw S = (reply, S')"
  obtains (refused) "same_stores S S'" "reply \<in> {AcctLimited, AcctBadJson, NotSignedIn}"
  | (handled) S1 me b where "same_stores S S1" "handler_of W C E route me b S1 = (reply, S')"
      "needs_session route \<Longrightarrow> \<exists>amr. session_of W E S = Some (me, amr)" "needs_body route \<Longrightarrow> body_json raw = Some b"
  using assms same_stores_refl(1) [of S]
  by (cases route)
    (auto simp del: same_stores_refl simp: account_request_def handler_of_def needs_session_def needs_body_def elim!: limited_by_cases with_body_cases signed_in_cases)

section \<open>Every operation keeps the books\<close>

lemma acct_okI:
  assumes "\<And>a r. map_of (us_accounts S) a = Some r \<Longrightarrow> record_ok (a, r)" "indexes creds_of (us_byCred S) (us_accounts S)"
    "indexes (\<lambda>r. set (uc_wallets r)) (us_byWallet S) (us_accounts S)"
  shows "acct_ok S"
  using assms by (simp add: acct_ok_def)

lemma acct_okD:
  assumes "acct_ok S"
  shows "map_of (us_accounts S) a = Some r \<Longrightarrow> record_ok (a, r)" "indexes creds_of (us_byCred S) (us_accounts S)"
    "indexes (\<lambda>r. set (uc_wallets r)) (us_byWallet S) (us_accounts S)"
  using assms by (simp_all add: acct_ok_def)

lemma records_put:
  assumes "acct_ok S" "record_ok (uc_id r, r)" "map_of (us_accounts (put_account r S)) a = Some q"
  shows "record_ok (a, q)"
  using assms acct_okD(1) [OF assms(1), of a q] by (auto simp: put_account_def update_conv' split: if_splits)

lemma add_passkey_ok:
  assumes ok: "acct_ok S" and r: "map_of (us_accounts S) (uc_id r) = (if uc_passkeys r = [] \<and> uc_wallets r = [] then None else Some r)"
    and k: "map_of (us_byCred S) (pk_id k) = None"
  shows "acct_ok (add_passkey r k S)"
proof -
  let ?r = "r\<lparr>uc_passkeys := uc_passkeys r @ [k]\<rparr>"
  let ?T = "AList.update (uc_id r) ?r (us_accounts S)"
  have new: "pk_id k \<notin> creds_of r" if "map_of (us_accounts S) (uc_id r) = Some r"
    using indexes_unique [OF acct_okD(2) [OF ok] that] k by auto
  have "record_ok (uc_id ?r, ?r)"
    using r new acct_okD(1) [OF ok, of "uc_id r" r] by (auto simp: record_ok_def creds_of_def split: if_splits)
  then have rec: "record_ok (a, q)" if "map_of (us_accounts (add_passkey r k S)) a = Some q" for a q
    using that records_put [OF ok, of ?r a q] by (simp add: add_passkey_def)
  have "indexes creds_of (AList.update (pk_id k) (uc_id r) (us_byCred S)) ?T"
    by (rule indexes_add [OF acct_okD(2) [OF ok]]) (use k r in \<open>auto simp: creds_of_def split: if_splits\<close>)
  moreover have "indexes (\<lambda>r. set (uc_wallets r)) (us_byWallet S) ?T"
    using r by (cases "map_of (us_accounts S) (uc_id r)")
      (auto intro: indexes_fresh [OF acct_okD(3) [OF ok]] indexes_same [OF acct_okD(3) [OF ok]] split: if_splits)
  ultimately show ?thesis by (intro acct_okI rec) (simp_all add: add_passkey_def put_account_def)
qed

lemma put_same_ok:
  assumes ok: "acct_ok S" and r: "map_of (us_accounts S) (uc_id r) = Some r" and q: "map pk_id (uc_passkeys q) = map pk_id (uc_passkeys r)"
    "uc_id q = uc_id r" "uc_wallets q = uc_wallets r"
  shows "acct_ok (put_account q S)"
proof -
  have c: "creds_of q = creds_of r" using q(1) by (metis creds_of_def image_set)
  have "uc_passkeys r \<noteq> [] \<or> uc_wallets r \<noteq> []" "distinct (map pk_id (uc_passkeys r))"
    using acct_okD(1) [OF ok r] by (simp_all add: record_ok_def)
  then have "record_ok (uc_id q, q)" unfolding record_ok_def prod.case q by (metis map_is_Nil_conv q(1))
  note rec = records_put [OF ok this]
  have "indexes creds_of (us_byCred S) (AList.update (uc_id q) q (us_accounts S))"
    unfolding q(2) by (rule indexes_same [OF acct_okD(2) [OF ok] r c])
  moreover have "indexes (\<lambda>r. set (uc_wallets r)) (us_byWallet S) (AList.update (uc_id q) q (us_accounts S))"
    unfolding q(2) by (rule indexes_same [OF acct_okD(3) [OF ok] r]) (simp add: q(3))
  ultimately show ?thesis by (intro acct_okI rec) (simp_all add: put_account_def)
qed

lemma add_wallet_ok:
  assumes ok: "acct_ok S" and r: "map_of (us_accounts S) (uc_id r) = (if uc_passkeys r = [] \<and> uc_wallets r = [] then None else Some r)"
    and w: "map_of (us_byWallet S) w = None \<or> map_of (us_byWallet S) w = Some (uc_id r)"
    and q: "q = r\<lparr>uc_wallets := ws\<rparr>" "set ws = insert w (set (uc_wallets r))"
  shows "acct_ok ((put_account q S)\<lparr>us_byWallet := AList.update w (uc_id r) (us_byWallet S)\<rparr>)"
proof -
  let ?T = "AList.update (uc_id r) q (us_accounts S)"
  have "distinct (map pk_id (uc_passkeys r))"
    using r acct_okD(1) [OF ok, of "uc_id r" r] by (cases "uc_passkeys r = []") (auto simp: record_ok_def)
  then have "record_ok (uc_id q, q)" unfolding q(1) using q(2) by (auto simp: record_ok_def)
  note rec = records_put [OF ok this]
  have "indexes (\<lambda>r. set (uc_wallets r)) (AList.update w (uc_id r) (us_byWallet S)) ?T"
    by (rule indexes_add [OF acct_okD(3) [OF ok] w]) (use q r in \<open>auto split: if_splits\<close>)
  moreover have "indexes creds_of (us_byCred S) ?T"
  proof (cases "uc_passkeys r = [] \<and> uc_wallets r = []")
    case True
    then show ?thesis by (intro indexes_fresh [OF acct_okD(2) [OF ok]]) (simp_all add: r q(1) creds_of_def)
  next
    case False
    then show ?thesis by (intro indexes_same [OF acct_okD(2) [OF ok], where r = r]) (simp_all add: r q(1) creds_of_def)
  qed
  moreover have "record_ok (a, p)" if "map_of (us_accounts ((put_account q S)\<lparr>us_byWallet := m\<rparr>)) a = Some p" for a p m
    using that rec by simp
  ultimately show ?thesis by (intro acct_okI) (simp_all add: put_account_def q(1))
qed

lemma remove_at_ok:
  assumes ok: "acct_ok S" and r: "map_of (us_accounts S) me = Some r" "position_of i r = Some n" "\<not> (length (uc_passkeys r) = 1 \<and> uc_wallets r = [])"
  shows "acct_ok (remove_at me i n S)"
proof -
  let ?q = "r\<lparr>uc_passkeys := take n (uc_passkeys r) @ drop (Suc n) (uc_passkeys r)\<rparr>"
  have rok: "uc_id r = me" "distinct (map pk_id (uc_passkeys r))" using acct_okD(1) [OF ok r(1)] by (simp_all add: record_ok_def)
  from r(2) have n: "n < length (uc_passkeys r)" "pk_id (uc_passkeys r ! n) = i" by (auto simp: position_of_def find_Some_iff)
  have ids: "map pk_id (uc_passkeys r) = take n (map pk_id (uc_passkeys r)) @ i # drop (Suc n) (map pk_id (uc_passkeys r))"
    using n by (metis id_take_nth_drop length_map nth_map)
  have c: "creds_of ?q = creds_of r - {i}" "i \<in> creds_of r" "distinct (map pk_id (uc_passkeys ?q))"
  proof -
    from rok(2) have d: "i \<notin> set (take n (map pk_id (uc_passkeys r)))" "i \<notin> set (drop (Suc n) (map pk_id (uc_passkeys r)))"
      "distinct (take n (map pk_id (uc_passkeys r)) @ drop (Suc n) (map pk_id (uc_passkeys r)))"
      using ids by (metis distinct.simps(2) distinct_append not_distinct_conv_prefix Un_iff set_append disjoint_insert(1) list.simps(15) insert_disjoint(1))+
    have s: "creds_of r = set (take n (map pk_id (uc_passkeys r))) \<union> {i} \<union> set (drop (Suc n) (map pk_id (uc_passkeys r)))"
      using arg_cong [OF ids, of set] by (auto simp: creds_of_def)
    show "creds_of ?q = creds_of r - {i}" using s d by (auto simp: creds_of_def take_map drop_map)
    show "i \<in> creds_of r" using s by simp
    show "distinct (map pk_id (uc_passkeys ?q))" using d(3) by (simp add: take_map drop_map)
  qed
  have "record_ok (uc_id ?q, ?q)"
  proof -
    have "length (uc_passkeys ?q) = length (uc_passkeys r) - 1" using n by simp
    then have "uc_passkeys ?q \<noteq> [] \<or> uc_wallets ?q \<noteq> []" using r(3) n(1) by (cases "uc_passkeys ?q") auto
    with c(3) show ?thesis unfolding record_ok_def prod.case by blast
  qed
  then have rec: "record_ok (a, p)" if "map_of (us_accounts (remove_at me i n S)) a = Some p" for a p
    using that records_put [OF ok, of ?q a p] r(1) by (simp add: remove_at_def put_account_def)
  have "indexes creds_of (AList.delete i (us_byCred S)) (AList.update me ?q (us_accounts S))"
    by (rule indexes_remove [OF acct_okD(2) [OF ok] r(1) c(2,1)])
  moreover have "indexes (\<lambda>r. set (uc_wallets r)) (us_byWallet S) (AList.update me ?q (us_accounts S))"
    by (rule indexes_same [OF acct_okD(3) [OF ok] r(1)]) simp
  ultimately show ?thesis using r(1) rok(1) by (intro acct_okI rec) (simp_all add: remove_at_def put_account_def)
qed

lemma same_books_simps [simp]:
  "same_books S (S\<lparr>us_chals := c\<rparr>)" "same_books S (S\<lparr>us_nonces := n\<rparr>)" "same_books S (S\<lparr>us_devices := d\<rparr>)"
  by (simp_all add: same_books_def)

lemma siwe_verify_keeps:
  assumes "siwe_verify W C now m sg S = (x, S')"
  shows "same_books S S' \<and> us_chals S' = us_chals S \<and> us_devices S' = us_devices S"
  using assms by (auto simp: siwe_verify_def Let_def same_books_def split: option.splits json.splits if_splits prod.splits)

lemma map_update_first: "(\<And>x. f (g x) = f x) \<Longrightarrow> map f (update_first p g xs) = map f xs"
  by (induction xs) auto

lemma stored_passkey_record:
  assumes "acct_ok S" "stored_passkey i S = Some (r, k)"
  shows "map_of (us_accounts S) (uc_id r) = Some r \<and> map_of (us_byCred S) i = Some (uc_id r) \<and> k \<in> set (uc_passkeys r) \<and> pk_id k = i"
proof -
  from assms(2) obtain a where a: "map_of (us_byCred S) i = Some a" "map_of (us_accounts S) a = Some r" "find (\<lambda>k. pk_id k = i) (uc_passkeys r) = Some k"
    by (auto simp: stored_passkey_def bind_eq_Some_conv)
  with acct_okD(1) [OF assms(1) a(2)] show ?thesis by (auto simp: record_ok_def find_Some_iff)
qed

text \<open>What each of the operations on the books does, if it does anything.\<close>

definition known_or_new :: "acct_env \<Rightarrow> acct_state \<Rightarrow> account \<Rightarrow> bool" where
  "known_or_new E S r \<longleftrightarrow> map_of (us_accounts S) (uc_id r) = Some r \<and> (uc_passkeys r \<noteq> [] \<or> uc_wallets r \<noteq> [])
     \<or> uc_id r = uq_id E \<and> uc_passkeys r = [] \<and> uc_wallets r = []"

lemma known_or_new_entry:
  "known_or_new E S r \<Longrightarrow> map_of (us_accounts S) (uq_id E) = None
    \<Longrightarrow> map_of (us_accounts S) (uc_id r) = (if uc_passkeys r = [] \<and> uc_wallets r = [] then None else Some r)"
  by (auto simp: known_or_new_def)

lemma known_account: "acct_ok S \<Longrightarrow> map_of (us_accounts S) x = Some a \<Longrightarrow> known_or_new E S a"
  using acct_okD(1) [of S x a] by (simp add: known_or_new_def record_ok_def)

lemma register_verify_effect:
  assumes ok: "acct_ok S" and r: "register_verify W C E b S = (reply, S')"
  shows "\<exists>S1. same_books S S1 \<and> (S' = S1 \<or> (\<exists>q k. S' = add_passkey q k S1 \<and> map_of (us_byCred S) (pk_id k) = None \<and> known_or_new E S q))"
proof -
  let ?id = "text_or_empty (json_get ''challengeId'' b)" and ?cred = "json_get ''credential'' b"
  let ?S1 = "S\<lparr>us_chals := AList.delete ?id (us_chals S)\<rparr>"
  show ?thesis
  proof (cases "S' = ?S1")
    case False
    with r obtain c i where c: "live_challenge ForRegistration (uq_now E) (map_of (us_chals S) ?id) = Some c"
      "wl_register W ?cred (ch_text c) = VerifiedAs i" "map_of (us_byCred S) (ri_id i) = None"
      by (auto simp: register_verify_def Let_def split: option.splits wa_verdict.splits if_splits)
    let ?a = "case ch_account c of Some a \<Rightarrow> map_of (us_accounts S) a | None \<Rightarrow> Some (new_account (uq_now E) (uq_id E) (ch_handle c))"
    let ?k = "passkey_of (uq_now E) i (Option.bind (Option.bind ?cred (json_get ''response'')) (json_get ''transports'')) (json_get ''label'' b)"
    from False r c obtain a where a: "?a = Some a"
      by (cases ?a) (simp_all add: register_verify_def Let_def)
    with r c have S': "S' = add_passkey a ?k ?S1" by (simp add: register_verify_def Let_def)
    have "known_or_new E S a"
      using a known_account [OF ok] by (cases "ch_account c") (auto simp: new_account_def known_or_new_def)
    moreover have "map_of (us_byCred S) (pk_id ?k) = None" by (simp add: passkey_of_def c)
    ultimately show ?thesis using S' by (intro exI [of _ ?S1]) auto
  qed (auto intro!: exI [of _ ?S1])
qed

lemma register_verify_ok:
  assumes ok: "acct_ok S" and fresh: "map_of (us_accounts S) (uq_id E) = None" and r: "register_verify W C E b S = (reply, S')"
  shows "acct_ok S'"
proof -
  from register_verify_effect [OF ok r] obtain S1 where S1: "same_books S S1"
    and e: "S' = S1 \<or> (\<exists>q k. S' = add_passkey q k S1 \<and> map_of (us_byCred S) (pk_id k) = None \<and> known_or_new E S q)" by blast
  from S1 ok have ok1: "acct_ok S1" and eq: "us_accounts S1 = us_accounts S" "us_byCred S1 = us_byCred S"
    by (simp_all add: same_books_ok [OF S1]) (simp_all add: same_books_def)
  from e show ?thesis
  proof (elim disjE exE conjE)
    fix q k
    assume "S' = add_passkey q k S1" "map_of (us_byCred S) (pk_id k) = None" "known_or_new E S q"
    with known_or_new_entry [OF _ fresh] eq show ?thesis by (auto intro!: add_passkey_ok [OF ok1])
  qed (use ok1 in simp)
qed

lemma sign_in_verify_effect:
  assumes ok: "acct_ok S" and r: "sign_in_verify W C E b S = (reply, S')"
  shows "\<exists>S1. same_books S S1 \<and> (S' = S1 \<or> (\<exists>q i c. map_of (us_accounts S) (uc_id q) = Some q
    \<and> S' = put_account (q\<lparr>uc_passkeys := update_first (\<lambda>k. pk_id k = i) (used_passkey (uq_now E) c) (uc_passkeys q)\<rparr>) S1))"
proof (cases "same_books S S'")
  case False
  from False r obtain i q k d f where v: "stored_passkey i S = Some (q, k)"
    "S' = put_account (q\<lparr>uc_passkeys := update_first (\<lambda>k. pk_id k = i) (used_passkey (uq_now E) f) (uc_passkeys q)\<rparr>) (S\<lparr>us_chals := d\<rparr>)"
    by (auto simp: sign_in_verify_def Let_def same_books_def split: option.splits wa_verdict.splits if_splits)
  with stored_passkey_record [OF ok v(1)] show ?thesis by (intro exI [of _ "S\<lparr>us_chals := d\<rparr>"]) auto
qed auto

lemma sign_in_verify_ok:
  assumes ok: "acct_ok S" and r: "sign_in_verify W C E b S = (reply, S')"
  shows "acct_ok S'"
proof -
  from sign_in_verify_effect [OF ok r] obtain S1 where S1: "same_books S S1" and e: "S' = S1 \<or> (\<exists>q i c. map_of (us_accounts S) (uc_id q) = Some q
    \<and> S' = put_account (q\<lparr>uc_passkeys := update_first (\<lambda>k. pk_id k = i) (used_passkey (uq_now E) c) (uc_passkeys q)\<rparr>) S1)" by blast
  from S1 ok have ok1: "acct_ok S1" and eq: "us_accounts S1 = us_accounts S"
    by (simp_all add: same_books_ok [OF S1]) (simp_all add: same_books_def)
  from e show ?thesis
  proof (elim disjE exE conjE)
    fix q i c
    assume "map_of (us_accounts S) (uc_id q) = Some q"
      "S' = put_account (q\<lparr>uc_passkeys := update_first (\<lambda>k. pk_id k = i) (used_passkey (uq_now E) c) (uc_passkeys q)\<rparr>) S1"
    with eq show ?thesis by (auto intro!: put_same_ok [OF ok1] simp: map_update_first used_passkey_def)
  qed (use ok1 in simp)
qed

text \<open>Both wallet operations add a wallet to a record, or nothing.\<close>

definition wallet_effect :: "acct_env \<Rightarrow> acct_state \<Rightarrow> acct_state \<Rightarrow> bool" where
  "wallet_effect E S S' \<longleftrightarrow> (\<exists>S1. same_books S S1 \<and> (S' = S1 \<or> (\<exists>q w ws. known_or_new E S q \<and> set ws = insert w (set (uc_wallets q))
     \<and> (map_of (us_byWallet S) w = None \<or> map_of (us_byWallet S) w = Some (uc_id q))
     \<and> S' = (put_account (q\<lparr>uc_wallets := ws\<rparr>) S1)\<lparr>us_byWallet := AList.update w (uc_id q) (us_byWallet S1)\<rparr>)))"

lemma wallet_effect_ok:
  assumes ok: "acct_ok S" and fresh: "map_of (us_accounts S) (uq_id E) = None" and e: "wallet_effect E S S'"
  shows "acct_ok S'"
proof -
  from e obtain S1 where S1: "same_books S S1" and e: "S' = S1 \<or> (\<exists>q w ws. known_or_new E S q \<and> set ws = insert w (set (uc_wallets q))
     \<and> (map_of (us_byWallet S) w = None \<or> map_of (us_byWallet S) w = Some (uc_id q))
     \<and> S' = (put_account (q\<lparr>uc_wallets := ws\<rparr>) S1)\<lparr>us_byWallet := AList.update w (uc_id q) (us_byWallet S1)\<rparr>)" by (auto simp: wallet_effect_def)
  from S1 ok have ok1: "acct_ok S1" and eq: "us_accounts S1 = us_accounts S" "us_byWallet S1 = us_byWallet S"
    by (simp_all add: same_books_ok [OF S1]) (simp_all add: same_books_def)
  show ?thesis
  proof (cases "S' = S1")
    case False
    with e obtain q w ws where q: "known_or_new E S q" and ws: "set ws = insert w (set (uc_wallets q))"
      and w: "map_of (us_byWallet S) w = None \<or> map_of (us_byWallet S) w = Some (uc_id q)"
      and S': "S' = (put_account (q\<lparr>uc_wallets := ws\<rparr>) S1)\<lparr>us_byWallet := AList.update w (uc_id q) (us_byWallet S1)\<rparr>" by blast
    have r: "map_of (us_accounts S1) (uc_id q) = (if uc_passkeys q = [] \<and> uc_wallets q = [] then None else Some q)"
      using known_or_new_entry [OF q fresh] eq by simp
    show ?thesis unfolding S' by (rule add_wallet_ok [OF ok1 r _ refl ws]) (use w eq in simp)
  qed (use ok1 in simp)
qed

lemma siwe_sign_in_effect:
  assumes ok: "acct_ok S" and r: "siwe_sign_in W C E b S = (reply, S')"
  shows "wallet_effect E S S'"
proof -
  obtain x S1 where v: "siwe_verify W C (uq_now E) (json_get ''message'' b) (json_get ''signature'' b) S = (x, S1)" by fastforce
  have same: "same_books S S1" using siwe_verify_keeps [OF v] by blast
  with ok have ok1: "acct_ok S1" by (simp add: same_books_ok)
  show ?thesis
  proof (cases x)
    case (Inl e)
    with r v same show ?thesis by (auto simp: siwe_sign_in_def wallet_effect_def)
  next
    case (Inr address)
    let ?key = "to_lower address" and ?n = "new_account (uq_now E) (uq_id E) (uq_handle E)"
    show ?thesis
    proof (cases "Option.bind (map_of (us_byWallet S1) ?key) (map_of (us_accounts S1))")
      case (Some a)
      with r v Inr same show ?thesis by (auto simp: siwe_sign_in_def wallet_effect_def Let_def)
    next
      case None
      with r v Inr have S': "S' = (put_account (?n\<lparr>uc_wallets := [?key]\<rparr>) S1)\<lparr>us_byWallet := AList.update ?key (uc_id ?n) (us_byWallet S1)\<rparr>"
        by (simp add: siwe_sign_in_def Let_def new_account_def)
      have "map_of (us_byWallet S1) ?key = None"
      proof (cases "map_of (us_byWallet S1) ?key")
        case (Some a)
        with indexesD [OF acct_okD(3) [OF ok1], of ?key a] None show ?thesis by auto
      qed simp
      then have "known_or_new E S ?n \<and> set [?key] = insert ?key (set (uc_wallets ?n)) \<and> map_of (us_byWallet S) ?key = None"
        using same by (simp add: known_or_new_def new_account_def same_books_def)
      with S' same show ?thesis unfolding wallet_effect_def by blast
    qed
  qed
qed

lemma siwe_link_effect:
  assumes ok: "acct_ok S" and r: "siwe_link W C E me b S = (reply, S')"
  shows "wallet_effect E S S'"
proof -
  obtain x S1 where v: "siwe_verify W C (uq_now E) (json_get ''message'' b) (json_get ''signature'' b) S = (x, S1)" by fastforce
  have same: "same_books S S1" using siwe_verify_keeps [OF v] by blast
  with ok have ok1: "acct_ok S1" using siwe_verify_keeps [OF v] same_books_ok by blast
  show ?thesis
  proof (cases x)
    case (Inl e)
    with r v same show ?thesis by (auto simp: siwe_link_def wallet_effect_def)
  next
    case (Inr address)
    let ?key = "to_lower address"
    show ?thesis
    proof (cases "map_of (us_byWallet S1) ?key \<in> {None, Some me} \<and> map_of (us_accounts S1) me \<noteq> None")
      case False
      with r v Inr have "S' = S1" by (auto simp: siwe_link_def Let_def split: option.splits if_splits)
      with same show ?thesis by (auto simp: wallet_effect_def)
    next
      case True
      then obtain a where a: "map_of (us_accounts S1) me = Some a" by auto
      let ?ws = "if ?key \<in> set (uc_wallets a) then uc_wallets a else uc_wallets a @ [?key]"
      from True a r v Inr have S': "S' = (put_account (a\<lparr>uc_wallets := ?ws\<rparr>) S1)\<lparr>us_byWallet := AList.update ?key (uc_id a) (us_byWallet S1)\<rparr>"
        by (auto simp: siwe_link_def Let_def)
      have i: "uc_id a = me" using acct_okD(1) [OF ok1 a] by (simp add: record_ok_def)
      have "known_or_new E S a \<and> set ?ws = insert ?key (set (uc_wallets a)) \<and> (map_of (us_byWallet S) ?key = None \<or> map_of (us_byWallet S) ?key = Some (uc_id a))"
        using known_account [OF ok, of me a] True a same i by (auto simp: same_books_def)
      with S' same show ?thesis unfolding wallet_effect_def by blast
    qed
  qed
qed

lemma remove_passkey_ok:
  assumes ok: "acct_ok S" and r: "remove_passkey C E me i S = (reply, S')"
  shows "acct_ok S'"
proof (cases "S' = S")
  case False
  with r obtain n a where "map_of (us_accounts S) me = Some a" "position_of i a = Some n" "\<not> (length (uc_passkeys a) = 1 \<and> uc_wallets a = [])"
    "S' = remove_at me i n S"
    by (auto simp: remove_passkey_def removal_checks_def split: option.splits if_splits)
  with remove_at_ok [OF ok] show ?thesis by blast
qed (use ok in simp)

lemma other_handlers_keep:
  "same_books S (snd (register_options W E S))" "same_books S (snd (sign_in_options E S))" "same_books S (snd (siwe_nonce W C E S))"
  "same_books S (snd (device_start C E S))" "same_books S (snd (device_info E S))" "same_books S (snd (device_approve E me b S))"
  "same_books S (snd (device_claim W C E b S))"
  by (simp_all add: register_options_def sign_in_options_def siwe_nonce_def device_start_def device_info_def device_approve_def device_claim_def
      Let_def split: option.split device_state.split)

lemma account_request_ok:
  assumes ok: "acct_ok S" and fresh: "map_of (us_accounts S) (uq_id E) = None" and r: "account_request W C E route raw S = (reply, S')"
  shows "acct_ok S'"
  using r
proof (cases rule: account_request_cases)
  case refused
  with ok same_books_ok [of S S'] show ?thesis by (simp add: same_stores_def)
next
  case (handled S1 me b)
  then have ok1: "acct_ok S1" and fresh1: "map_of (us_accounts S1) (uq_id E) = None"
    using ok fresh same_books_ok [of S S1] by (simp_all add: same_stores_def) (simp add: same_books_def)
  from handled(2) show ?thesis
    using register_verify_ok [OF ok1 fresh1] sign_in_verify_ok [OF ok1] wallet_effect_ok [OF ok1 fresh1 siwe_sign_in_effect [OF ok1]] wallet_effect_ok [OF ok1 fresh1 siwe_link_effect [OF ok1]] remove_passkey_ok [OF ok1]
      other_handlers_keep [of S1] same_books_ok [of S1 S'] ok1
    by (cases route) (auto simp: handler_of_def, (metis snd_conv)+)
qed

section \<open>Every session goes back to a proof\<close>

text \<open>
  The proofs of an account: a registered passkey signed a live challenge, a new passkey was registered on a
  live challenge that no account asked for and made the account, or the account's wallet signed a live
  nonce (an unknown wallet making the account).
\<close>

datatype sign_in_proof = ByPasskey string | ByNewPasskey string | ByWallet string

definition challenge_in :: "challenge_kind \<Rightarrow> acct_env \<Rightarrow> json \<Rightarrow> acct_state \<Rightarrow> challenge \<Rightarrow> bool" where
  "challenge_in kind E b S c \<longleftrightarrow> map_of (us_chals S) (text_or_empty (json_get ''challengeId'' b)) = Some c \<and> ch_kind c = kind \<and> uq_now E \<le> ch_exp c"

definition proof_of :: "acct_lib \<Rightarrow> acct_cfg \<Rightarrow> acct_env \<Rightarrow> acct_route \<Rightarrow> json \<Rightarrow> acct_state \<Rightarrow> string \<Rightarrow> sign_in_proof \<Rightarrow> bool" where
  "proof_of W C E route b S a q =
     (case q of
        ByPasskey i \<Rightarrow> route = RouteInVerify \<and> (\<exists>c r k n. challenge_in ForSignIn E b S c \<and> stored_passkey i S = Some (r, k) \<and> uc_id r = a
          \<and> wl_signIn W (json_get ''credential'' b) (ch_text c) k = VerifiedAs n)
      | ByNewPasskey i \<Rightarrow> route = RouteRegVerify \<and> a = uq_id E \<and> (\<exists>c info. challenge_in ForRegistration E b S c \<and> ch_account c = None
          \<and> wl_register W (json_get ''credential'' b) (ch_text c) = VerifiedAs info \<and> ri_id info = i)
      | ByWallet w \<Rightarrow> route = RouteSiwe \<and> (\<exists>address. to_lower address = w
          \<and> fst (siwe_verify W C (uq_now E) (json_get ''message'' b) (json_get ''signature'' b) S) = Inr address
          \<and> (map_of (us_byWallet S) w = Some a \<or> map_of (us_byWallet S) w = None \<and> a = uq_id E)))"

text \<open>What an accepted wallet message shows.\<close>

lemma siwe_accepted:
  assumes "fst (siwe_verify W C now (Some (JStr text)) (Some (JStr sig)) S) = Inr address"
  shows "\<exists>m issued until. wl_parseSiwe W text = Some m \<and> map_of (us_nonces S) (sm_nonce m) = Some (issued, until) \<and> now \<le> until
    \<and> wl_address W issued = Some address \<and> wl_address W (sm_address m) = Some address \<and> siwe_signed W text sig address"
  using assms by (auto simp: siwe_verify_def Let_def split: option.splits if_splits prod.splits)

lemma siwe_verify_nonces: "us_nonces S1 = us_nonces S \<Longrightarrow> fst (siwe_verify W C now m sg S1) = fst (siwe_verify W C now m sg S)"
  by (auto simp: siwe_verify_def Let_def split: option.splits json.splits prod.splits)

lemma proof_of_same:
  assumes "same_stores S S1"
  shows "proof_of W C E route b S1 a q = proof_of W C E route b S a q"
proof -
  from assms have f: "us_accounts S1 = us_accounts S" "us_byCred S1 = us_byCred S" "us_byWallet S1 = us_byWallet S" "us_chals S1 = us_chals S"
    "us_nonces S1 = us_nonces S" by (simp_all add: same_stores_def same_books_def)
  show ?thesis
    unfolding proof_of_def challenge_in_def stored_passkey_def f siwe_verify_nonces [OF f(5)] ..
qed

text \<open>What was proven and asked for so far; a restart keeps the accounts only.\<close>

definition acct_start :: acct_state where
  "acct_start = \<lparr>us_accounts = [], us_byCred = [], us_byWallet = [], us_chals = [], us_nonces = [], us_devices = [], us_mint = [], us_verify = []\<rparr>"

definition acct_restart :: "acct_state \<Rightarrow> acct_state" where
  "acct_restart S = S\<lparr>us_chals := [], us_nonces := [], us_devices := [], us_mint := [], us_verify := []\<rparr>"

text \<open>Sessions are not forged: a token that opens for an account was handed out for it.\<close>

definition unforged :: "acct_lib \<Rightarrow> (string \<times> string) set \<Rightarrow> acct_env \<Rightarrow> bool" where
  "unforged W T E \<longleftrightarrow> (\<forall>t a amr. bearer_token (uq_auth E) = Some t \<longrightarrow> wl_open W (uq_now E div 1000) t = Some (a, amr) \<longrightarrow> (t, a) \<in> T)"

definition handed_out :: "acct_reply \<Rightarrow> (string \<times> string) set" where
  "handed_out reply = (case reply of Session t a amr e w \<Rightarrow> {(t, a)} | _ \<Rightarrow> {})"

definition proofs_in :: "acct_lib \<Rightarrow> acct_cfg \<Rightarrow> acct_env \<Rightarrow> string \<Rightarrow> string \<Rightarrow> string \<Rightarrow> acct_state \<Rightarrow> (string \<times> sign_in_proof) set" where
  "proofs_in W C E method path raw S = {(a, q). \<exists>route b. account_route method path = Some route \<and> body_json raw = Some b \<and> proof_of W C E route b S a q}"

inductive acct_reachable :: "acct_lib \<Rightarrow> acct_cfg \<Rightarrow> acct_state \<Rightarrow> (string \<times> string) set \<Rightarrow> (string \<times> sign_in_proof) set \<Rightarrow> bool" for W C where
  acct_boot: "acct_reachable W C acct_start {} {}"
| acct_again: "acct_reachable W C S T P \<Longrightarrow> acct_reachable W C (acct_restart S) T P"
| acct_purge: "acct_reachable W C S T P \<Longrightarrow> acct_reachable W C (purge_auth now S) T P"
| acct_ask: "acct_reachable W C S T P \<Longrightarrow> unforged W T E \<Longrightarrow> map_of (us_accounts S) (uq_id E) = None
    \<Longrightarrow> handle_account W C E method path raw S = (reply, S')
    \<Longrightarrow> acct_reachable W C S' (T \<union> handed_out reply) (P \<union> proofs_in W C E method path raw S)"

lemma handle_account_cases:
  assumes "handle_account W C E method path raw S = (reply, S')"
  obtains "S' = S" "reply \<in> {AcctDisabled, AcctNotFound}" | route where "account_route method path = Some route" "account_request W C E route raw S = (reply, S')"
  using assms by (auto simp: handle_account_def split: if_splits option.splits)

lemma handle_account_ok:
  assumes "acct_ok S" "map_of (us_accounts S) (uq_id E) = None" "handle_account W C E method path raw S = (reply, S')"
  shows "acct_ok S'"
  using assms(3) account_request_ok [OF assms(1,2)] assms(1) by (auto elim!: handle_account_cases)

lemma reachable_acct_ok: "acct_reachable W C S T P \<Longrightarrow> acct_ok S"
proof (induction rule: acct_reachable.induct)
  case acct_boot
  show ?case by (simp add: acct_ok_def acct_start_def indexes_def)
next
  case (acct_again S T P)
  then show ?case by (simp add: acct_ok_def acct_restart_def)
next
  case (acct_purge S T P now)
  then show ?case by (simp add: acct_ok_def purge_auth_def)
next
  case (acct_ask S T P E meth path raw reply S')
  from handle_account_ok [OF acct_ask.IH acct_ask.hyps(3,4)] show ?case .
qed


definition proven :: "(string \<times> sign_in_proof) set \<Rightarrow> string \<Rightarrow> bool" where
  "proven P a \<longleftrightarrow> (\<exists>q. (a, q) \<in> P)"

definition prov_ok :: "(string \<times> string) set \<Rightarrow> (string \<times> sign_in_proof) set \<Rightarrow> acct_state \<Rightarrow> bool" where
  "prov_ok T P S \<longleftrightarrow> (\<forall>(t, a) \<in> T. proven P a) \<and> (\<forall>(i, c) \<in> set (us_chals S). \<forall>a. ch_account c = Some a \<longrightarrow> proven P a)
     \<and> (\<forall>(i, r) \<in> set (us_devices S). \<forall>a. dv_account r = Some a \<longrightarrow> proven P a)"

lemma put_bounded_members: "x \<in> set (put_bounded k v m) \<Longrightarrow> x = (k, v) \<or> x \<in> set m"
  by (auto simp: put_bounded_def keep_bounded_def dest!: in_set_dropD update_members)

lemma put_account_stores [simp]: "us_chals (put_account r S) = us_chals S" "us_devices (put_account r S) = us_devices S"
  "us_chals (add_passkey r k S) = us_chals S" "us_devices (add_passkey r k S) = us_devices S"
  "us_chals (remove_at me i n S) = us_chals S" "us_devices (remove_at me i n S) = us_devices S"
  by (simp_all add: put_account_def add_passkey_def remove_at_def Let_def split: option.split)

lemma siwe_stores:
  "us_chals (snd (siwe_sign_in W C E b S)) = us_chals S \<and> us_devices (snd (siwe_sign_in W C E b S)) = us_devices S"
  "us_chals (snd (siwe_link W C E me b S)) = us_chals S \<and> us_devices (snd (siwe_link W C E me b S)) = us_devices S"
proof -
  obtain x S1 where v: "siwe_verify W C (uq_now E) (json_get ''message'' b) (json_get ''signature'' b) S = (x, S1)" by fastforce
  with siwe_verify_keeps [OF v] show "us_chals (snd (siwe_sign_in W C E b S)) = us_chals S \<and> us_devices (snd (siwe_sign_in W C E b S)) = us_devices S"
    "us_chals (snd (siwe_link W C E me b S)) = us_chals S \<and> us_devices (snd (siwe_link W C E me b S)) = us_devices S"
    by (simp_all add: siwe_sign_in_def siwe_link_def Let_def split: sum.split option.split)
qed

lemma verify_stores:
  "us_devices (snd (register_verify W C E b S)) = us_devices S" "set (us_chals (snd (register_verify W C E b S))) \<subseteq> set (us_chals S)"
  "us_devices (snd (sign_in_verify W C E b S)) = us_devices S" "set (us_chals (snd (sign_in_verify W C E b S))) \<subseteq> set (us_chals S)"
  "us_devices (snd (remove_passkey C E me i S)) = us_devices S" "us_chals (snd (remove_passkey C E me i S)) = us_chals S"
  by (auto simp: register_verify_def sign_in_verify_def remove_passkey_def Let_def dest: delete_members
      split: option.split wa_verdict.split sum.split)

text \<open>A challenge for an account is asked for in a session of it.\<close>

lemma chals_step:
  assumes "acct_ok S" "handler_of W C E route me b S = (reply, S')" "x \<in> set (us_chals S')"
  shows "x \<in> set (us_chals S) \<or> (\<forall>a. ch_account (snd x) = Some a \<longrightarrow> (\<exists>amr. session_of W E S = Some (a, amr)))"
proof -
  have S': "S' = snd (handler_of W C E route me b S)" using assms(2) by simp
  have o: "x \<in> set (us_chals S) \<or> (\<forall>a. ch_account (snd x) = Some a \<longrightarrow> (\<exists>amr. session_of W E S = Some (a, amr)))"
    if m: "x \<in> set (us_chals (snd (register_options W E S)))"
  proof -
    have "ch_account (snd x) = Some a \<longrightarrow> (\<exists>amr. session_of W E S = Some (a, amr))" if n: "x \<notin> set (us_chals S)" for a
    proof
      assume c: "ch_account (snd x) = Some a"
      from m n have "snd x = \<lparr>ch_text = uq_challenge E, ch_kind = ForRegistration,
          ch_account = map_option uc_id (Option.bind (session_of W E S) (\<lambda>(a, amr). map_of (us_accounts S) a)),
          ch_handle = ch_handle (snd x), ch_exp = ch_exp (snd x)\<rparr>"
        by (auto simp: register_options_def Let_def dest!: put_bounded_members)
      then have "ch_account (snd x) = map_option uc_id (Option.bind (session_of W E S) (\<lambda>(a, amr). map_of (us_accounts S) a))"
        by (metis challenge.select_convs(3))
      with c obtain s amr r where r: "session_of W E S = Some (s, amr)" "map_of (us_accounts S) s = Some r" "uc_id r = a"
        by (auto simp: bind_eq_Some_conv)
      with acct_okD(1) [OF assms(1) r(2)] show "\<exists>amr. session_of W E S = Some (a, amr)" by (auto simp: record_ok_def)
    qed
    then show ?thesis by blast
  qed
  have i: "x \<in> set (us_chals S) \<or> ch_account (snd x) = None" if "x \<in> set (us_chals (snd (sign_in_options E S)))"
    using that by (auto simp: sign_in_options_def dest!: put_bounded_members)
  have d: "us_chals (snd (siwe_nonce W C E S)) = us_chals S" "us_chals (snd (device_start C E S)) = us_chals S"
    "us_chals (snd (device_info E S)) = us_chals S" "us_chals (snd (device_approve E me b S)) = us_chals S" "us_chals (snd (device_claim W C E b S)) = us_chals S"
    by (simp_all add: siwe_nonce_def device_start_def device_info_def device_approve_def device_claim_def Let_def split: option.split device_state.split)
  show ?thesis
    using assms(3) o i d siwe_stores(1) [of W C E b S] siwe_stores(2) [of W C E me b S] unfolding S'
    by (cases route) (auto simp: handler_of_def verify_stores dest: subsetD [OF verify_stores(2)] subsetD [OF verify_stores(4)])
qed

lemma devices_step:
  assumes "handler_of W C E route me b S = (reply, S')" "x \<in> set (us_devices S')" "dv_account (snd x) = Some a"
  shows "(\<exists>i r. (i, r) \<in> set (us_devices S) \<and> dv_account r = Some a) \<or> route = RouteDevApprove \<and> a = me"
proof -
  have S': "S' = snd (handler_of W C E route me b S)" using assms(1) by simp
  have n: "x \<in> set (us_devices S)" if "x \<in> set (us_devices (snd (device_start C E S)))"
    using that assms(3) by (auto simp: device_start_def split: option.splits dest!: put_bounded_members)
  have p: "x \<in> set (us_devices S) \<or> (\<exists>i r. (i, r) \<in> set (us_devices S) \<and> dv_account r = Some a) \<or> a = me"
    if "x \<in> set (us_devices (snd (device_approve E me b S)))"
    using that assms(3)
    by (auto simp: device_approve_def live_device_def Let_def bind_eq_Some_conv split: option.splits if_splits dest!: update_members) (metis map_of_SomeD)+
  have c: "x \<in> set (us_devices S)" if "x \<in> set (us_devices (snd (device_claim W C E b S)))"
    using that by (auto simp: device_claim_def Let_def split: option.splits device_state.splits if_splits dest: delete_members)
  have d: "us_devices (snd (register_options W E S)) = us_devices S" "us_devices (snd (sign_in_options E S)) = us_devices S"
    "us_devices (snd (siwe_nonce W C E S)) = us_devices S" "us_devices (snd (device_info E S)) = us_devices S"
    by (simp_all add: register_options_def sign_in_options_def siwe_nonce_def device_info_def Let_def split: option.split)
  have "x \<in> set (us_devices S) \<or> (\<exists>i r. (i, r) \<in> set (us_devices S) \<and> dv_account r = Some a) \<or> route = RouteDevApprove \<and> a = me"
    using assms(2) n p c d siwe_stores(1) [of W C E b S] siwe_stores(2) [of W C E me b S] unfolding S'
    by (cases route) (auto simp: handler_of_def verify_stores)
  with assms(3) show ?thesis by (cases x) auto
qed

text \<open>A session is handed out on a proof, on a challenge of the account, or on a device request it approved.\<close>

lemma claim_session:
  assumes "device_claim W C E b S = (Session t a amr e w, S')"
  shows "\<exists>code r. code = to_upper (text_or_empty (json_get ''code'' b)) \<and> map_of (us_devices S) code = Some r \<and> uq_now E \<le> dv_exp r
    \<and> dv_state r = DevApproved \<and> dv_account r = Some a \<and> text_or_empty (json_get ''secret'' b) = dv_secret r
    \<and> S' = S\<lparr>us_devices := AList.delete code (us_devices S)\<rparr>"
  using assms
  by (auto simp: device_claim_def live_device_def mint_session_def Let_def bind_eq_Some_conv not_less split: option.splits device_state.splits if_splits)

lemma live_challenge_in:
  "live_challenge kind (uq_now E) (map_of (us_chals S) (text_or_empty (json_get ''challengeId'' b))) = Some c \<Longrightarrow> challenge_in kind E b S c"
  by (auto simp: live_challenge_def challenge_in_def bind_eq_Some_conv not_less split: if_splits)

lemma session_step:
  assumes ok: "acct_ok S" and r: "handler_of W C E route me b S = (Session t a amr e w, S')"
  shows "(\<exists>q. needs_body route \<and> proof_of W C E route b S a q) \<or> (\<exists>i c. (i, c) \<in> set (us_chals S) \<and> ch_account c = Some a)
    \<or> (\<exists>i r. (i, r) \<in> set (us_devices S) \<and> dv_account r = Some a)"
proof -
  consider "route = RouteRegVerify" "register_verify W C E b S = (Session t a amr e w, S')" | "route = RouteInVerify" "sign_in_verify W C E b S = (Session t a amr e w, S')"
    | "route = RouteSiwe" "siwe_sign_in W C E b S = (Session t a amr e w, S')" | "route = RouteDevClaim" "device_claim W C E b S = (Session t a amr e w, S')"
    using r by (cases route)
      (auto simp: handler_of_def register_options_def sign_in_options_def siwe_nonce_def siwe_link_def device_start_def device_info_def device_approve_def
        profile_def remove_passkey_def removal_checks_def Let_def split: option.splits sum.splits if_splits prod.splits)
  then show ?thesis
  proof cases
    case 1
    let ?id = "text_or_empty (json_get ''challengeId'' b)"
    from 1(2) obtain c i where c: "live_challenge ForRegistration (uq_now E) (map_of (us_chals S) ?id) = Some c"
      "wl_register W (json_get ''credential'' b) (ch_text c) = VerifiedAs i"
      "ch_account c = Some a \<or> ch_account c = None \<and> a = uq_id E"
    proof -
      from 1(2) obtain c i where c: "live_challenge ForRegistration (uq_now E) (map_of (us_chals S) ?id) = Some c"
        "wl_register W (json_get ''credential'' b) (ch_text c) = VerifiedAs i" "map_of (us_byCred S) (ri_id i) = None"
        by (auto simp: register_verify_def Let_def split: option.splits wa_verdict.splits if_splits)
      have "ch_account c = Some a \<or> ch_account c = None \<and> a = uq_id E"
      proof (cases "ch_account c")
        case None
        with 1(2) c show ?thesis by (simp add: register_verify_def mint_session_def new_account_def Let_def)
      next
        case (Some x)
        with 1(2) c obtain q where "map_of (us_accounts S) x = Some q" "uc_id q = a"
          by (cases "map_of (us_accounts S) x") (simp_all add: register_verify_def mint_session_def Let_def)
        with acct_okD(1) [OF ok] Some show ?thesis by (auto simp: record_ok_def)
      qed
      with c that show ?thesis by blast
    qed
    from live_challenge_in [OF c(1)] have l: "challenge_in ForRegistration E b S c" .
    from c(3) show ?thesis
    proof
      assume "ch_account c = Some a"
      with l show ?thesis by (auto simp: challenge_in_def dest: map_of_SomeD)
    next
      assume n: "ch_account c = None \<and> a = uq_id E"
      have "proof_of W C E route b S a (ByNewPasskey (ri_id i))" using l c(2) n 1(1) by (auto simp: proof_of_def)
      with 1(1) show ?thesis by (auto simp: needs_body_def)
    qed
  next
    case 2
    let ?i = "text_or_empty (Option.bind (json_get ''credential'' b) (json_get ''id''))"
    from 2(2) obtain c q k n where c: "live_challenge ForSignIn (uq_now E) (map_of (us_chals S) (text_or_empty (json_get ''challengeId'' b))) = Some c"
      "stored_passkey ?i S = Some (q, k)" "wl_signIn W (json_get ''credential'' b) (ch_text c) k = VerifiedAs n" "a = uc_id q"
      by (auto simp: sign_in_verify_def mint_session_def Let_def split: option.splits wa_verdict.splits prod.splits)
    have "proof_of W C E route b S a (ByPasskey ?i)" using live_challenge_in [OF c(1)] c(2-4) 2(1) by (auto simp: proof_of_def)
    with 2(1) show ?thesis by (auto simp: needs_body_def)
  next
    case 3
    obtain x S1 where v: "siwe_verify W C (uq_now E) (json_get ''message'' b) (json_get ''signature'' b) S = (x, S1)" by fastforce
    with 3(2) obtain address where x: "x = Inr address" by (cases x) (simp_all add: siwe_sign_in_def)
    have same: "us_byWallet S1 = us_byWallet S" "us_accounts S1 = us_accounts S" using siwe_verify_keeps [OF v] by (simp_all add: same_books_def)
    have "map_of (us_byWallet S) (to_lower address) = Some a \<or> map_of (us_byWallet S) (to_lower address) = None \<and> a = uq_id E"
    proof (cases "map_of (us_byWallet S) (to_lower address)")
      case None
      with 3(2) v x same show ?thesis by (simp add: siwe_sign_in_def mint_session_def Let_def)
    next
      case (Some y)
      then obtain q where q: "map_of (us_accounts S) y = Some q" using indexesD [OF acct_okD(3) [OF ok], of "to_lower address" y] by auto
      with acct_okD(1) [OF ok q] 3(2) v x same Some show ?thesis by (simp add: siwe_sign_in_def mint_session_def record_ok_def Let_def)
    qed
    with v x 3(1) have "proof_of W C E route b S a (ByWallet (to_lower address))" by (auto simp: proof_of_def)
    with 3(1) show ?thesis by (auto simp: needs_body_def)
  next
    case 4
    from claim_session [OF 4(2)] show ?thesis by (auto dest: map_of_SomeD)
  qed
qed

lemma proven_mono: "proven P a \<Longrightarrow> proven (P \<union> Q) a"
  by (auto simp: proven_def)

lemma prov_ok_purge: "prov_ok T P S \<Longrightarrow> prov_ok T P (purge_auth now S)" "prov_ok T P S \<Longrightarrow> prov_ok T P (acct_restart S)"
  by (auto simp: prov_ok_def purge_auth_def acct_restart_def)

lemma session_proven:
  assumes "prov_ok T P S" "unforged W T E" "session_of W E S = Some (a, amr)"
  shows "proven P a"
proof -
  from assms(3) obtain t amr' where "bearer_token (uq_auth E) = Some t" "wl_open W (uq_now E div 1000) t = Some (a, amr')"
    by (auto simp: session_of_def bind_eq_Some_conv split: if_splits)
  with assms(2) have "(t, a) \<in> T" by (auto simp: unforged_def)
  with assms(1) show ?thesis by (auto simp: prov_ok_def)
qed

lemma prov_ok_ask:
  assumes ok: "acct_ok S" and pr: "prov_ok T P S" and u: "unforged W T E" and h: "handle_account W C E method path raw S = (reply, S')"
  shows "prov_ok (T \<union> handed_out reply) (P \<union> proofs_in W C E method path raw S) S'" (is "prov_ok ?T ?P S'")
  using h
proof (cases rule: handle_account_cases)
  case 1
  have "handed_out reply = {}" using 1(2) by (auto simp: handed_out_def)
  with 1(1) pr proven_mono show ?thesis by (fastforce simp: prov_ok_def)
next
  case (2 route)
  from 2(2) show ?thesis
  proof (cases rule: account_request_cases)
    case refused
    have "handed_out reply = {}" using refused(2) by (auto simp: handed_out_def)
    with refused(1) pr proven_mono show ?thesis by (fastforce simp: prov_ok_def same_stores_def)
  next
    case (handled S1 me b)
    have ok1: "acct_ok S1" using ok same_books_ok [of S S1] handled(1) by (simp add: same_stores_def)
    have s1: "us_chals S1 = us_chals S" "us_devices S1 = us_devices S" "session_of W E S1 = session_of W E S"
      using handled(1) same_books_session [of S S1] by (simp_all add: same_stores_def)
    note sess = proven_mono [OF session_proven [OF pr u], of _ _ "proofs_in W C E method path raw S"]
    have stores: "proven ?P a" if "(i, c) \<in> set (us_chals S)" "ch_account c = Some a" for i c a
      using pr that proven_mono by (fastforce simp: prov_ok_def)
    have devs: "proven ?P a" if "(i, r) \<in> set (us_devices S)" "dv_account r = Some a" for i r a
      using pr that proven_mono by (fastforce simp: prov_ok_def)
    have chals': "proven ?P a" if "(i, c) \<in> set (us_chals S')" "ch_account c = Some a" for i c a
      using chals_step [OF ok1 handled(2), of "(i, c)"] that stores sess s1 by fastforce
    have devs': "proven ?P a" if x: "(i, r) \<in> set (us_devices S')" "dv_account r = Some a" for i r a
    proof -
      have "\<exists>amr. session_of W E S = Some (me, amr)" if "route = RouteDevApprove"
        using handled(3) that by (simp add: needs_session_def)
      with devices_step [OF handled(2), of "(i, r)" a] x devs sess s1 show ?thesis by fastforce
    qed
    have tokens: "proven ?P a" if "(t, a) \<in> ?T" for t a
    proof (cases "(t, a) \<in> T")
      case True
      with pr proven_mono show ?thesis by (fastforce simp: prov_ok_def)
    next
      case False
      with that obtain amr e w where "reply = Session t a amr e w" by (auto simp: handed_out_def split: acct_reply.splits)
      with session_step [OF ok1] handled(2) s1 have "(\<exists>q. needs_body route \<and> proof_of W C E route b S1 a q) \<or> proven ?P a"
        using stores devs by metis
      then show ?thesis
      proof
        assume "\<exists>q. needs_body route \<and> proof_of W C E route b S1 a q"
        with handled(4) 2(1) proof_of_same [OF handled(1)] have "\<exists>q. (a, q) \<in> proofs_in W C E method path raw S"
          by (auto simp: proofs_in_def)
        then show ?thesis by (auto simp: proven_def)
      qed
    qed
    show ?thesis using tokens chals' devs' by (auto simp: prov_ok_def)
  qed
qed

lemma reachable_prov_ok: "acct_reachable W C S T P \<Longrightarrow> prov_ok T P S"
proof (induction rule: acct_reachable.induct)
  case acct_boot
  show ?case by (simp add: prov_ok_def acct_start_def)
next
  case (acct_ask S T P E meth path raw reply S')
  from prov_ok_ask [OF reachable_acct_ok [OF acct_ask.hyps(1)] acct_ask.IH acct_ask.hyps(2,4)] show ?case .
qed (simp_all add: prov_ok_purge)

text \<open>
  C9: As long as sessions cannot be forged, every session that was handed out or is accepted goes back to a
  proof of that very account: one of its passkeys signed a live challenge, or made the account; or its
  wallet signed a live nonce. Adding passkeys, linking wallets and approving devices, in whatever order,
  never let one account into another.
\<close>

theorem sessions_go_back_to_proofs:
  assumes "acct_reachable W C S T P"
  shows "(\<forall>(t, a) \<in> T. \<exists>q. (a, q) \<in> P)
    \<and> (\<forall>E a amr. unforged W T E \<longrightarrow> session_of W E S = Some (a, amr) \<longrightarrow> (\<exists>q. (a, q) \<in> P))"
proof -
  note pr = reachable_prov_ok [OF assms]
  from session_proven [OF pr] pr show ?thesis by (auto simp: prov_ok_def proven_def)
qed

text \<open>
  C31: The phone flow: a session comes out of a claim only with the secret of the request, before it expires
  and after it was approved for that account, whose holder had proven it; the claim takes the request away,
  so a code yields one session.
\<close>

theorem device_claims_need_secret_and_approval:
  assumes "acct_reachable W C S T P" "handle_account W C E ''POST'' ''/v1/account/device/claim'' raw S = (Session t a amr e w, S')"
  shows "\<exists>b code r q. body_json raw = Some b \<and> code = to_upper (text_or_empty (json_get ''code'' b)) \<and> map_of (us_devices S) code = Some r
    \<and> text_or_empty (json_get ''secret'' b) = dv_secret r \<and> dv_state r = DevApproved \<and> dv_account r = Some a \<and> uq_now E \<le> dv_exp r
    \<and> (a, q) \<in> P \<and> map_of (us_devices S') code = None"
proof -
  have route: "account_route ''POST'' ''/v1/account/device/claim'' = Some RouteDevClaim" by code_simp
  from assms(2) route have "account_request W C E RouteDevClaim raw S = (Session t a amr e w, S')"
    by (auto elim!: handle_account_cases)
  then show ?thesis
  proof (cases rule: account_request_cases)
    case (handled S1 me b)
    then have b: "body_json raw = Some b" and c: "device_claim W C E b S1 = (Session t a amr e w, S')" and d: "us_devices S1 = us_devices S"
      by (simp_all add: needs_body_def handler_of_def same_stores_def)
    from claim_session [OF c] d obtain r where r: "map_of (us_devices S) (to_upper (text_or_empty (json_get ''code'' b))) = Some r" "uq_now E \<le> dv_exp r"
      "dv_state r = DevApproved" "dv_account r = Some a" "text_or_empty (json_get ''secret'' b) = dv_secret r"
      "map_of (us_devices S') (to_upper (text_or_empty (json_get ''code'' b))) = None" by (auto simp: delete_conv')
    with reachable_prov_ok [OF assms(1)] have "proven P a" by (auto simp: prov_ok_def dest!: map_of_SomeD)
    with b r show ?thesis by (auto simp: proven_def)
  qed simp
qed

section \<open>The vault's key\<close>

definition same_key :: "passkey \<Rightarrow> passkey option \<Rightarrow> bool" where
  "same_key k o' \<longleftrightarrow> (\<exists>k'. o' = Some k' \<and> pk_id k' = pk_id k \<and> pk_xy k' = pk_xy k)"

abbreviation keyed :: "passkey \<Rightarrow> bool" where
  "keyed k \<equiv> pk_xy k \<noteq> None"

lemma same_key_refl: "vault_key_of a S = Some k \<Longrightarrow> us_accounts S' = us_accounts S \<Longrightarrow> same_key k (vault_key_of a S')"
  by (simp add: same_key_def vault_key_of_def)

lemma vault_key_put:
  assumes "vault_key_of a S = Some k" "us_accounts S' = AList.update (uc_id q) q (us_accounts S)"
    and "\<And>r. a = uc_id q \<Longrightarrow> map_of (us_accounts S) a = Some r \<Longrightarrow> find keyed (uc_passkeys r) = Some k \<Longrightarrow> same_key k (find keyed (uc_passkeys q))"
  shows "same_key k (vault_key_of a S')"
proof -
  from assms(1) obtain r where r: "map_of (us_accounts S) a = Some r" "find keyed (uc_passkeys r) = Some k"
    by (auto simp: vault_key_of_def bind_eq_Some_conv)
  show ?thesis
  proof (cases "a = uc_id q")
    case True
    from assms(3) [OF True r] True assms(2) show ?thesis by (simp add: vault_key_of_def update_conv')
  next
    case False
    with r assms(2) show ?thesis by (simp add: vault_key_of_def update_conv' same_key_def)
  qed
qed

lemma find_update_first:
  assumes "find keyed ks = Some k" "\<And>k. pk_id (g k) = pk_id k \<and> pk_xy (g k) = pk_xy k"
  shows "same_key k (find keyed (update_first p g ks))"
  using assms by (induction ks) (auto simp: same_key_def split: if_splits)

lemma find_append_Some: "find p xs = Some x \<Longrightarrow> find p (xs @ ys) = Some x"
  by (induction xs) (auto split: if_splits)

lemma find_without:
  assumes "find p xs = Some x" "xs ! n \<noteq> x"
  shows "find p (take n xs @ drop (Suc n) xs) = Some x"
  using assms
proof (induction xs arbitrary: n)
  case (Cons y xs)
  then show ?case by (cases n) (auto split: if_splits)
qed simp

lemma known_entry:
  "known_or_new E S q \<Longrightarrow> map_of (us_accounts S) (uq_id E) = None \<Longrightarrow> map_of (us_accounts S) (uc_id q) = Some r \<Longrightarrow> r = q"
  by (auto simp: known_or_new_def)

lemma vault_wallet:
  assumes fresh: "map_of (us_accounts S) (uq_id E) = None" and e: "wallet_effect E S S'" and v: "vault_key_of a S = Some k"
  shows "same_key k (vault_key_of a S')"
proof -
  from e consider "us_accounts S' = us_accounts S"
    | q ws where "known_or_new E S q" "us_accounts S' = AList.update (uc_id q) (q\<lparr>uc_wallets := ws\<rparr>) (us_accounts S)"
    unfolding wallet_effect_def same_books_def put_account_def by auto
  then show ?thesis
  proof cases
    case (2 q ws)
    show ?thesis
    proof (rule vault_key_put [OF v])
      show "us_accounts S' = AList.update (uc_id (q\<lparr>uc_wallets := ws\<rparr>)) (q\<lparr>uc_wallets := ws\<rparr>) (us_accounts S)" using 2(2) by simp
    qed (use known_entry [OF 2(1) fresh] in \<open>auto simp: same_key_def\<close>)
  qed (rule same_key_refl [OF v])
qed

lemma vault_register:
  assumes ok: "acct_ok S" and fresh: "map_of (us_accounts S) (uq_id E) = None" and h: "register_verify W C E b S = (reply, S')"
    and v: "vault_key_of a S = Some k"
  shows "same_key k (vault_key_of a S')"
proof -
  from register_verify_effect [OF ok h] consider "us_accounts S' = us_accounts S"
    | q x where "known_or_new E S q" "us_accounts S' = AList.update (uc_id q) (q\<lparr>uc_passkeys := uc_passkeys q @ [x]\<rparr>) (us_accounts S)"
    unfolding same_books_def add_passkey_def put_account_def by auto
  then show ?thesis
  proof cases
    case (2 q x)
    show ?thesis
    proof (rule vault_key_put [OF v])
      show "us_accounts S' = AList.update (uc_id (q\<lparr>uc_passkeys := uc_passkeys q @ [x]\<rparr>)) (q\<lparr>uc_passkeys := uc_passkeys q @ [x]\<rparr>) (us_accounts S)"
        using 2(2) by simp
    qed (use known_entry [OF 2(1) fresh] in \<open>auto simp: same_key_def find_append_Some\<close>)
  qed (rule same_key_refl [OF v])
qed

lemma vault_sign_in:
  assumes ok: "acct_ok S" and h: "sign_in_verify W C E b S = (reply, S')" and v: "vault_key_of a S = Some k"
  shows "same_key k (vault_key_of a S')"
proof -
  let ?up = "\<lambda>q i c. q\<lparr>uc_passkeys := update_first (\<lambda>k. pk_id k = i) (used_passkey (uq_now E) c) (uc_passkeys q)\<rparr>"
  from sign_in_verify_effect [OF ok h] consider "us_accounts S' = us_accounts S"
    | q i c where "map_of (us_accounts S) (uc_id q) = Some q" "us_accounts S' = AList.update (uc_id q) (?up q i c) (us_accounts S)"
    unfolding same_books_def put_account_def by auto
  then show ?thesis
  proof cases
    case (2 q i c)
    show ?thesis
    proof (rule vault_key_put [OF v])
      show "us_accounts S' = AList.update (uc_id (?up q i c)) (?up q i c) (us_accounts S)" using 2(2) by simp
    next
      fix r
      assume r: "a = uc_id (?up q i c)" "map_of (us_accounts S) a = Some r" "find keyed (uc_passkeys r) = Some k"
      with 2(1) have q: "r = q" by simp
      have "same_key k (find keyed (update_first (\<lambda>k. pk_id k = i) (used_passkey (uq_now E) c) (uc_passkeys q)))"
        by (rule find_update_first [OF r(3) [unfolded q]]) (simp add: used_passkey_def)
      then show "same_key k (find keyed (uc_passkeys (?up q i c)))" by simp
    qed
  qed (rule same_key_refl [OF v])
qed

lemma vault_remove:
  assumes ok: "acct_ok S" and h: "remove_passkey C E me i S = (reply, S')" and v: "vault_key_of a S = Some k"
  shows "same_key k (vault_key_of a S') \<or> i = pk_id k \<and> reply = PasskeyRemoved \<and> me = a \<and> (\<not> wc_vault C \<or> (\<exists>b. uq_balance E = Some b \<and> b \<le> 0))"
proof (cases "S' = S")
  case True
  with v show ?thesis by (simp add: same_key_def)
next
  case False
  from h False obtain n r where r: "map_of (us_accounts S) me = Some r" "position_of i r = Some n" "S' = remove_at me i n S" "reply = PasskeyRemoved"
    "wc_vault C \<and> map_option pk_id (vault_key_of me S) = Some i \<longrightarrow> (\<exists>b. uq_balance E = Some b \<and> b \<le> 0)"
    by (auto simp: remove_passkey_def removal_checks_def not_less split: option.splits if_splits)
  from r(2) have n: "n < length (uc_passkeys r)" "pk_id (uc_passkeys r ! n) = i" by (auto simp: position_of_def find_Some_iff)
  have id: "uc_id r = me" using acct_okD(1) [OF ok r(1)] by (simp add: record_ok_def)
  show ?thesis
  proof (cases "me = a \<and> i = pk_id k")
    case True
    with r(4,5) v show ?thesis by auto
  next
    case False
    let ?q = "r\<lparr>uc_passkeys := take n (uc_passkeys r) @ drop (Suc n) (uc_passkeys r)\<rparr>"
    have "same_key k (vault_key_of a S')"
    proof (rule vault_key_put [OF v])
      show "us_accounts S' = AList.update (uc_id ?q) ?q (us_accounts S)" using r(1,3) by (simp add: remove_at_def put_account_def)
    next
      fix s
      assume s: "a = uc_id ?q" "map_of (us_accounts S) a = Some s" "find keyed (uc_passkeys s) = Some k"
      with r(1) id have "s = r" by simp
      with s False id n(2) have "uc_passkeys r ! n \<noteq> k" "find keyed (uc_passkeys r) = Some k" by auto
      then show "same_key k (find keyed (uc_passkeys ?q))" using find_without by (fastforce simp: same_key_def)
    qed
    then show ?thesis ..
  qed
qed

lemma vault_key_same_books: "same_books S S' \<Longrightarrow> vault_key_of a S' = vault_key_of a S"
  by (simp add: same_books_def vault_key_of_def)


end
