(* ===== verification/Account_Tokens.thy ===== *)
theory Account_Tokens
  imports Account_Safety
begin

text \<open>
  Sign-in tokens for tenant applications, what removals that overlap and the year 2038 do to accounts, and a
  run of the service on concrete inputs.
\<close>

section \<open>Tokens for applications\<close>

text \<open>
  A token for an application is only minted for the account of the session that asks, which was proven,
  for exactly the deployment asked for, and for at least five minutes and at most a week.
\<close>

theorem app_tokens_name_the_session:
  assumes "acct_reachable W C S T P" "unforged W T E" "handle_sso W C b64 sign on E method path raw rates S = (SsoToken token sub aud iat until, rates')"
  shows "\<exists>b q. body_json raw = Some b \<and> (sub, q) \<in> P \<and> aud = to_lower (js_trim (text_or_empty (json_get ''aud'' b)))
    \<and> prefix ''0x'' aud \<and> hex_str 64 64 (drop 2 aud)
    \<and> iat = uq_now E div 1000 \<and> iat + 300 \<le> until \<and> until \<le> iat + 604800
    \<and> token = mint_est1 b64 sign sub aud iat until"
proof -
  from assms(3) obtain b amr where b: "body_json raw = Some b" "session_of W E S = Some (sub, amr)"
    and aud: "sso_audience (js_trim (text_or_empty (json_get ''aud'' b)))" "aud = to_lower (js_trim (text_or_empty (json_get ''aud'' b)))"
    and t: "iat = uq_now E div 1000" "until = iat + sso_ttl b" "token = mint_est1 b64 sign sub (js_trim (text_or_empty (json_get ''aud'' b))) iat until"
    by (auto simp: handle_sso_def Let_def split: if_splits option.splits prod.splits)
  from session_proven [OF reachable_prov_ok [OF assms(1)] assms(2) b(2)] obtain q where "(sub, q) \<in> P" by (auto simp: proven_def)
  moreover have "TTL_MIN \<le> sso_ttl b" "sso_ttl b \<le> TTL_MAX" by (simp_all add: sso_ttl_def TTL_MIN_def TTL_MAX_def)
  moreover have "prefix ''0x'' aud" "hex_str 64 64 (drop 2 aud)"
    using aud by (auto simp: sso_audience_def to_lower_def drop_map prefix_def lower_char_def)
  moreover have "token = mint_est1 b64 sign sub aud iat until" using t(3) aud(2) by (simp add: mint_est1_def est1_claims_def)
  ultimately show ?thesis using b(1) aud(2) t(1,2) by (intro exI [of _ b] exI [of _ q]) (simp add: TTL_MIN_def TTL_MAX_def)
qed

section \<open>What goes wrong\<close>

text \<open>
  The removal of the vault's passkey waits for the balance and then cuts at the place found before the wait.
  Asked for twice at once, it takes the other passkey along: the account has none left, and the lost one
  stays registered, so that it can neither sign in nor be registered again.
\<close>

lemma overlapping_removals_lock_out:
  assumes "map_of (us_accounts S) me = Some r" "uc_id r = me" "uc_passkeys r = [k, other]" "uc_wallets r = []" "pk_xy k \<noteq> None" "pk_id other \<noteq> pk_id k"
    and "map_of (us_byCred S) (pk_id other) = Some me" "wc_vault C"
  shows "removal_checks C me (pk_id k) S = Inr (0, True)"
    and "let S2 = remove_at me (pk_id k) 0 (remove_at me (pk_id k) 0 S)
         in map_option uc_passkeys (map_of (us_accounts S2) me) = Some [] \<and> map_of (us_byCred S2) (pk_id other) = Some me \<and> stored_passkey (pk_id other) S2 = None"
proof -
  show "removal_checks C me (pk_id k) S = Inr (0, True)"
    using assms by (simp add: removal_checks_def position_of_def vault_key_of_def)
  show "let S2 = remove_at me (pk_id k) 0 (remove_at me (pk_id k) 0 S)
         in map_option uc_passkeys (map_of (us_accounts S2) me) = Some [] \<and> map_of (us_byCred S2) (pk_id other) = Some me \<and> stored_passkey (pk_id other) S2 = None"
    using assms by (simp add: remove_at_def put_account_def update_conv' delete_conv' stored_passkey_def)
qed

lemma int32_is_a_word: "int32 x = sint (word_of_int x :: 32 word)"
proof -
  have s: "(x mod 2 ^ 32 + 2 ^ 31) mod 2 ^ 32 = (x + 2 ^ 31) mod (2 ^ 32 :: int)" by (rule mod_add_left_eq)
  have b: "0 \<le> x mod 2 ^ 32" "x mod 2 ^ 32 < (2 ^ 32 :: int)" by simp_all
  have "signed_take_bit 31 x = (x + 2 ^ 31) mod 2 ^ 32 - 2 ^ 31"
    by (simp add: signed_take_bit_eq_take_bit_shift take_bit_eq_mod)
  also have "\<dots> = int32 x"
  proof (cases "x mod 2 ^ 32 < (2 ^ 31 :: int)")
    case True
    then have "(x mod 2 ^ 32 + 2 ^ 31) mod 2 ^ 32 = x mod 2 ^ 32 + (2 ^ 31 :: int)" using b by (intro mod_pos_pos_trivial) simp_all
    with True s show ?thesis by (simp add: int32_def Let_def)
  next
    case False
    then have "(x mod 2 ^ 32 + 2 ^ 31 - 2 ^ 32) mod 2 ^ 32 = x mod 2 ^ 32 + 2 ^ 31 - (2 ^ 32 :: int)" using b by (intro mod_pos_pos_trivial) simp_all
    with False s minus_mod_self2 [of "x mod 2 ^ 32 + 2 ^ 31" "2 ^ 32 :: int"] show ?thesis by (simp add: int32_def Let_def)
  qed
  finally show ?thesis by (simp add: sint_sbintrunc')
qed

text \<open>The expiry of a session is cut to 32 bits: from January 2038 on every new session has already expired.\<close>

lemma sessions_end_in_2038:
  assumes "wc_ttl C = 604800"
  shows "session_exp C 2147483648000 < 0" "session_exp C 1800000000000 = 1800604800"
  using assms by (simp_all add: session_exp_def int32_def Let_def)

section \<open>Demonstration\<close>

definition demo_web :: acct_lib where
  "demo_web = \<lparr>wl_kid = ''k'', wl_decode = (\<lambda>s. ''{\"alg\":\"ES256\",\"kid\":\"k\"}''),
     wl_open = (\<lambda>now t. if t = ''Ta1'' then Some (''a1'', ''siwe'') else None), wl_sign = (\<lambda>a amr iat until. CHR ''T'' # a),
     wl_register = (\<lambda>j c. VerifiedAs \<lparr>ri_id = ''c1'', ri_key = cose_key (replicate 32 1) (replicate 32 2), ri_counter = 0, ri_transports = JArr [], ri_aaguid = []\<rparr>),
     wl_signIn = (\<lambda>j c k. NotVerified), wl_parseSiwe = (\<lambda>m. Some \<lparr>sm_address = ''0xA'', sm_nonce = m, sm_domain = [], sm_uri = [], sm_chain = None, sm_expires = None\<rparr>),
     wl_address = (\<lambda>a. if a = ''0xA'' then Some a else None), wl_recover = (\<lambda>m s. Some ''0xa''), wl_onChain = (\<lambda>m s. False), wl_iso = (\<lambda>t. [])\<rparr>"

definition demo_site :: acct_cfg where
  "demo_site = \<lparr>wc_on = True, wc_ttl = 604800, wc_domain = ''e'', wc_uri = ''u'', wc_chain = 8453, wc_site = ''s'', wc_vault = True\<rparr>"

definition demo_ask :: "string \<Rightarrow> string \<Rightarrow> string \<Rightarrow> acct_env" where
  "demo_ask auth query i = \<lparr>uq_now = 200000, uq_ip = ''1'', uq_agent = ''ua'', uq_auth = auth, uq_query = query, uq_id = i, uq_challenge = ''ch'',
     uq_handle = ''h'', uq_codes = [[0, 1, 2, 3, 4, 5, 6, 7]], uq_balance = None\<rparr>"

definition demo_call :: "acct_env \<Rightarrow> string \<Rightarrow> string \<Rightarrow> string \<Rightarrow> acct_state \<Rightarrow> acct_reply \<times> acct_state" where
  "demo_call E method path raw S = handle_account demo_web demo_site E method (''/v1/account/'' @ path) raw S"

lemma small_store: "length (AList.update k v m) \<le> 10000 \<Longrightarrow> put_bounded k v m = AList.update k v m"
  by (simp add: put_bounded_def keep_bounded_def AUTH_STORE_MAX_def)

lemmas demo_run = demo_call_def handle_account_def account_request_def limited_by_def signed_in_def with_body_def take_token_def refilled_def
  demo_ask_def demo_site_def small_store Let_def

lemma demo_routes: "account_route ''GET'' ''/v1/account/siwe/nonce'' = Some RouteNonce" "account_route ''POST'' ''/v1/account/siwe/verify'' = Some RouteSiwe"
  "account_route ''POST'' ''/v1/account/device/start'' = Some RouteDevStart" "account_route ''POST'' ''/v1/account/device/approve'' = Some RouteDevApprove"
  "account_route ''POST'' ''/v1/account/device/claim'' = Some RouteDevClaim"
  "account_route ''POST'' ''/v1/account/passkey/register/options'' = Some RouteRegOptions"
  "account_route ''POST'' ''/v1/account/passkey/register/verify'' = Some RouteRegVerify"
  "account_route ''DELETE'' ''/v1/account/passkey/c1'' = Some (RouteRemove ''c1'')"
  by code_simp+

lemma demo_bodies:
  "body_json ''{\"message\":\"n1\",\"signature\":\"s\"}'' = Some (JObj [(''message'', JStr ''n1''), (''signature'', JStr ''s'')])"
  "body_json ''{\"code\":\"abcdefgh\",\"approve\":true}'' = Some (JObj [(''code'', JStr ''abcdefgh''), (''approve'', JBool True)])"
  "body_json ''{\"code\":\"abcdefgh\",\"secret\":\"sec\"}'' = Some (JObj [(''code'', JStr ''abcdefgh''), (''secret'', JStr ''sec'')])"
  "body_json ''{\"challengeId\":\"n1\"}'' = Some (JObj [(''challengeId'', JStr ''n1'')])"
  by code_simp+

lemma demo_texts: "text_or_empty (Some (JStr s)) = s"
  by (simp add: text_or_empty_def json_truthy_def)

lemma demo_codes: "device_code [0, 1, 2, 3, 4, 5, 6, 7] = ''ABCDEFGH''" "to_upper ''abcdefgh'' = ''ABCDEFGH''" by code_simp+

text \<open>A wallet signs in and makes the account.\<close>

definition demo_1 :: acct_state where
  "demo_1 = acct_start\<lparr>us_mint := [(''1'', \<lparr>bk_tokens = 19, bk_at = 200000\<rparr>)], us_nonces := [(''n1'', ''0xA'', 800000)]\<rparr>"

lemma demo_1_step: "demo_call (demo_ask [] ''0xA'' ''n1'') ''GET'' ''siwe/nonce'' [] acct_start = (SiweNonceFor ''n1'' (siwe_text demo_site (\<lambda>t. []) 200000 ''0xA'' ''n1''), demo_1)"
  by (simp add: demo_run demo_routes siwe_nonce_def demo_web_def acct_start_def demo_1_def SIWE_NONCE_TTL_MS_def)

definition demo_account :: account where
  "demo_account = \<lparr>uc_id = ''a1'', uc_created = 200000, uc_handle = ''h'', uc_wallets = [''0xa''], uc_passkeys = []\<rparr>"

definition demo_2 :: acct_state where
  "demo_2 = demo_1\<lparr>us_nonces := [], us_accounts := [(''a1'', demo_account)], us_byWallet := [(''0xa'', ''a1'')],
     us_verify := [(''1'', \<lparr>bk_tokens = 9, bk_at = 200000\<rparr>)]\<rparr>"

lemma demo_2_step: "demo_call (demo_ask [] [] ''a1'') ''POST'' ''siwe/verify'' ''{\"message\":\"n1\",\"signature\":\"s\"}'' demo_1
    = (Session ''Ta1'' ''a1'' ''siwe'' 605000000 (Some ''0xA''), demo_2)"
proof -
  have low: "to_lower ''0xA'' = ''0xa''" "to_lower ''0xa'' = ''0xa''" by code_simp+
  show ?thesis
    by (simp add: demo_run demo_routes demo_bodies siwe_sign_in_def siwe_verify_def siwe_fields_def siwe_signed_def json_get_def low demo_web_def acct_start_def demo_1_def demo_2_def
      mint_session_def new_account_def put_account_def demo_account_def)
qed

text \<open>A device asks, the account approves, the device claims.\<close>

definition demo_device :: device_req where
  "demo_device = \<lparr>dv_secret = ''sec'', dv_ua = ''ua'', dv_ip = ''1'', dv_created = 200000, dv_exp = 380000, dv_state = DevPending, dv_account = None\<rparr>"

definition demo_3 :: acct_state where
  "demo_3 = demo_2\<lparr>us_mint := [(''1'', \<lparr>bk_tokens = 18, bk_at = 200000\<rparr>)], us_devices := [(''ABCDEFGH'', demo_device)]\<rparr>"

lemma demo_3_step: "demo_call (demo_ask [] [] ''sec'') ''POST'' ''device/start'' [] demo_2
    = (DeviceStarted ''ABCDEFGH'' ''sec'' ''s/link?code=ABCDEFGH'' 380000, demo_3)"
  by (simp add: demo_run demo_routes demo_codes device_start_def acct_start_def demo_1_def demo_2_def demo_3_def demo_device_def DEVICE_TTL_MS_def)

lemma demo_session:
  assumes "map_of (us_accounts S) ''a1'' = Some r"
  shows "session_of demo_web (demo_ask ''Bearer Ta1'' q i) S = Some (''a1'', ''siwe'')"
proof -
  have "bearer_token ''Bearer Ta1'' = Some ''Ta1''" "json_parse ''{\"alg\":\"ES256\",\"kid\":\"k\"}'' = Some (JObj [(''alg'', JStr ''ES256''), (''kid'', JStr ''k'')])" by code_simp+
  with assms show ?thesis by (simp add: session_of_def demo_ask_def demo_web_def json_get_def)
qed

definition demo_4 :: acct_state where
  "demo_4 = demo_3\<lparr>us_verify := [(''1'', \<lparr>bk_tokens = 8, bk_at = 200000\<rparr>)], us_devices := [(''ABCDEFGH'', demo_device\<lparr>dv_state := DevApproved, dv_account := Some ''a1''\<rparr>)]\<rparr>"

lemma demo_4_step: "demo_call (demo_ask ''Bearer Ta1'' [] ''x'') ''POST'' ''device/approve'' ''{\"code\":\"abcdefgh\",\"approve\":true}'' demo_3 = (DeviceAnswered DevApproved, demo_4)"
proof -
  have acct: "map_of (us_accounts demo_3) ''a1'' = Some demo_account" by (simp add: demo_3_def demo_2_def)
  show ?thesis
    unfolding demo_call_def handle_account_def account_request_def signed_in_def demo_session [OF acct]
    by (simp add: demo_run demo_routes demo_bodies demo_codes demo_texts device_approve_def live_device_def json_get_def acct_start_def demo_1_def demo_2_def demo_3_def demo_4_def demo_device_def)
qed

definition demo_5 :: acct_state where
  "demo_5 = demo_4\<lparr>us_mint := [(''1'', \<lparr>bk_tokens = 17, bk_at = 200000\<rparr>)], us_devices := []\<rparr>"

lemma demo_5_step: "demo_call (demo_ask [] [] ''y'') ''POST'' ''device/claim'' ''{\"code\":\"abcdefgh\",\"secret\":\"sec\"}'' demo_4
    = (Session ''Ta1'' ''a1'' ''phone'' 605000000 None, demo_5)"
  by (simp add: demo_run demo_routes demo_bodies demo_codes demo_texts device_claim_def live_device_def json_get_def mint_session_def demo_web_def acct_start_def demo_1_def demo_2_def demo_3_def
    demo_4_def demo_5_def demo_device_def)

text \<open>All of it can happen, sessions being unforged.\<close>

lemma demo_unforged: "unforged demo_web T (demo_ask [] q i)" "(''Ta1'', ''a1'') \<in> T \<Longrightarrow> unforged demo_web T (demo_ask ''Bearer Ta1'' q i)"
proof -
  have "bearer_token [] = None" by code_simp
  then show "unforged demo_web T (demo_ask [] q i)" by (simp add: unforged_def demo_ask_def)
  show "(''Ta1'', ''a1'') \<in> T \<Longrightarrow> unforged demo_web T (demo_ask ''Bearer Ta1'' q i)"
    by (simp add: unforged_def demo_web_def split: if_splits)
qed

lemma demo_asked:
  assumes "acct_reachable demo_web demo_site S T P" "demo_call E method path raw S = (reply, S')" "unforged demo_web T E" "map_of (us_accounts S) (uq_id E) = None"
    and "T \<union> handed_out reply = T'"
  shows "\<exists>P. acct_reachable demo_web demo_site S' T' P"
  using acct_ask [OF assms(1,3,4), of _ "''/v1/account/'' @ path" raw reply S'] assms(2,5) by (auto simp: demo_call_def)

lemma demo_states_reached: "\<exists>P. acct_reachable demo_web demo_site demo_3 {(''Ta1'', ''a1'')} P" "\<exists>P. acct_reachable demo_web demo_site demo_4 {(''Ta1'', ''a1'')} P"
proof -
  from demo_asked [OF acct_boot demo_1_step demo_unforged(1)] obtain P1 where "acct_reachable demo_web demo_site demo_1 {} P1"
    by (auto simp: acct_start_def handed_out_def)
  from demo_asked [OF this demo_2_step demo_unforged(1)] obtain P2 where "acct_reachable demo_web demo_site demo_2 {(''Ta1'', ''a1'')} P2"
    by (auto simp: demo_1_def acct_start_def handed_out_def)
  from demo_asked [OF this demo_3_step demo_unforged(1)] show 3: "\<exists>P. acct_reachable demo_web demo_site demo_3 {(''Ta1'', ''a1'')} P"
    by (auto simp: demo_2_def demo_ask_def handed_out_def)
  then obtain P3 where "acct_reachable demo_web demo_site demo_3 {(''Ta1'', ''a1'')} P3" ..
  from demo_asked [OF this demo_4_step demo_unforged(2)] show "\<exists>P. acct_reachable demo_web demo_site demo_4 {(''Ta1'', ''a1'')} P"
    by (auto simp: demo_3_def demo_2_def demo_ask_def handed_out_def)
qed


theorem sessions_go_back_to_proofs_witness: "\<exists>P q. acct_reachable demo_web demo_site demo_4 {(''Ta1'', ''a1'')} P \<and> (''a1'', q) \<in> P"
proof -
  from demo_states_reached obtain P where r: "acct_reachable demo_web demo_site demo_4 {(''Ta1'', ''a1'')} P" by blast
  with sessions_go_back_to_proofs [OF r] show ?thesis by fastforce
qed

theorem device_claims_need_secret_and_approval_witness: "\<exists>r. map_of (us_devices demo_4) ''ABCDEFGH'' = Some r \<and> dv_secret r = ''sec'' \<and> dv_state r = DevApproved \<and> dv_account r = Some ''a1''"
proof -
  from demo_states_reached obtain P where r: "acct_reachable demo_web demo_site demo_4 {(''Ta1'', ''a1'')} P" by blast
  from device_claims_need_secret_and_approval [OF r demo_5_step [unfolded demo_call_def, simplified]] show ?thesis
    by (auto simp: demo_bodies demo_codes json_get_def demo_texts)
qed

text \<open>A passkey makes an account; it is its vault key and its only way in, so it cannot be removed.\<close>

definition demo_passkey :: passkey where
  "demo_passkey = passkey_of 200000 \<lparr>ri_id = ''c1'', ri_key = cose_key (replicate 32 1) (replicate 32 2), ri_counter = 0, ri_transports = JArr [], ri_aaguid = []\<rparr> None None"

definition demo_6 :: acct_state where
  "demo_6 = acct_start\<lparr>us_mint := [(''1'', \<lparr>bk_tokens = 19, bk_at = 200000\<rparr>)],
     us_chals := [(''n1'', \<lparr>ch_text = ''ch'', ch_kind = ForRegistration, ch_account = None, ch_handle = ''h'', ch_exp = 500000\<rparr>)]\<rparr>"

definition demo_7 :: acct_state where
  "demo_7 = demo_6\<lparr>us_chals := [], us_verify := [(''1'', \<lparr>bk_tokens = 9, bk_at = 200000\<rparr>)], us_byCred := [(''c1'', ''a1'')],
     us_accounts := [(''a1'', \<lparr>uc_id = ''a1'', uc_created = 200000, uc_handle = ''h'', uc_wallets = [], uc_passkeys = [demo_passkey]\<rparr>)]\<rparr>"

lemma demo_6_step: "demo_call (demo_ask [] [] ''n1'') ''POST'' ''passkey/register/options'' [] acct_start = (RegOptions ''n1'' ''h'' [], demo_6)"
proof -
  have "session_of demo_web (demo_ask [] [] ''n1'') S = None" for S by (simp add: session_of_def demo_ask_def bearer_token_def strip_prefix_def)
  note none = this [unfolded demo_ask_def]
  show ?thesis
    by (simp add: demo_run none demo_routes register_options_def acct_start_def demo_6_def CHALLENGE_TTL_MS_def)
qed

lemma demo_7_step: "demo_call (demo_ask [] [] ''a1'') ''POST'' ''passkey/register/verify'' ''{\"challengeId\":\"n1\"}'' demo_6 = (Session ''Ta1'' ''a1'' ''passkey'' 605000000 None, demo_7)"
  by (simp add: demo_run demo_routes demo_bodies register_verify_def json_get_def demo_texts live_challenge_def demo_web_def mint_session_def new_account_def add_passkey_def put_account_def
    demo_passkey_def passkey_of_def acct_start_def demo_6_def demo_7_def)

lemma demo_8_step: "demo_call (demo_ask ''Bearer Ta1'' [] ''x'') ''DELETE'' ''passkey/c1'' [] demo_7 = (LastMethod, demo_7)"
proof -
  have acct: "map_of (us_accounts demo_7) ''a1'' = Some \<lparr>uc_id = ''a1'', uc_created = 200000, uc_handle = ''h'', uc_wallets = [], uc_passkeys = [demo_passkey]\<rparr>"
    by (simp add: demo_7_def)
  show ?thesis
    unfolding demo_call_def handle_account_def account_request_def signed_in_def demo_session [OF acct]
    by (simp add: demo_routes demo_site_def remove_passkey_def removal_checks_def acct position_of_def demo_passkey_def passkey_of_def)
qed

lemma demo_vault_key: "vault_key_of ''a1'' demo_7 = Some demo_passkey"
  by (simp add: vault_key_of_def demo_7_def demo_passkey_def passkey_of_def cose_key_read)


lemma demo_aud: "body_json ''{\"aud\":\"0x0000000000000000000000000000000000000000000000000000000000000000\"}''
    = Some (JObj [(''aud'', JStr (''0x'' @ replicate 64 CHR ''0''))])"
  "js_trim (''0x'' @ replicate 64 CHR ''0'') = ''0x'' @ replicate 64 CHR ''0''" "sso_audience (''0x'' @ replicate 64 CHR ''0'')"
  "to_lower (''0x'' @ replicate 64 CHR ''0'') = ''0x'' @ replicate 64 CHR ''0''"
  by code_simp+

theorem app_tokens_name_the_session_witness:
  "\<exists>token. fst (handle_sso demo_web demo_site (\<lambda>s. s) (\<lambda>s. ''sig'') True (demo_ask ''Bearer Ta1'' [] ''x'') ''POST'' ''/v1/sso/token''
      ''{\"aud\":\"0x0000000000000000000000000000000000000000000000000000000000000000\"}'' [] demo_4)
      = SsoToken token ''a1'' (''0x'' @ replicate 64 CHR ''0'') 200 86600
    \<and> token = mint_est1 (\<lambda>s. s) (\<lambda>s. ''sig'') ''a1'' (''0x'' @ replicate 64 CHR ''0'') 200 86600"
proof -
  from demo_states_reached obtain P where r: "acct_reachable demo_web demo_site demo_4 {(''Ta1'', ''a1'')} P" by blast
  have acct: "map_of (us_accounts demo_4) ''a1'' = Some demo_account" by (simp add: demo_4_def demo_3_def demo_2_def)
  obtain token rates' where t: "handle_sso demo_web demo_site (\<lambda>s. s) (\<lambda>s. ''sig'') True (demo_ask ''Bearer Ta1'' [] ''x'') ''POST'' ''/v1/sso/token''
      ''{\"aud\":\"0x0000000000000000000000000000000000000000000000000000000000000000\"}'' [] demo_4
      = (SsoToken token ''a1'' (''0x'' @ replicate 64 CHR ''0'') 200 86600, rates')"
    unfolding handle_sso_def demo_session [OF acct] demo_aud(1)
    by (simp add: demo_aud [unfolded append.simps] json_get_def demo_texts json_int_at_def demo_ask_def demo_site_def take_token_def refilled_def Let_def sso_ttl_def TTL_MIN_def TTL_MAX_def TTL_DEFAULT_def)
  from app_tokens_name_the_session [OF r demo_unforged(2) t] t show ?thesis by (auto simp: demo_ask_def)
qed

end
